(* ===== verification/EI_Base.thy ===== *)
theory EI_Base
  imports Main "HOL-Library.Multiset" "HOL-Library.Sublist"
begin

text \<open>
  Prelude of the development: the state-and-exception computations in which the
  components are written, the comparator sorts of the JavaScript runtime with the
  interface that every comparator of the program satisfies, insertion-ordered maps, and
  the string helpers that the components share.
\<close>

named_theorems eval_simps \<open>unfolding of the state-and-exception combinators\<close>
named_theorems seen_intros \<open>facts about loops that skip keys already seen\<close>

subsection \<open>Computations with a state and exceptions\<close>

text \<open>
  A JavaScript method that may throw and that mutates objects is a function from the
  state to a result and the state afterwards: \<open>Inl\<close> is the exception thrown, and the
  mutations made before the throw stay in the state, as they do in the program.
\<close>

datatype err_kind = KError | KTypeError | KRangeError

datatype js_error = JsError (err_kind: err_kind) (err_code: "string option") (err_message: string)

type_synonym ('s, 'a) comp = "'s \<Rightarrow> (js_error + 'a) \<times> 's"

definition ret :: "'a \<Rightarrow> ('s, 'a) comp" where
  "ret x = (\<lambda>s. (Inr x, s))"

definition throw :: "js_error \<Rightarrow> ('s, 'a) comp" where
  "throw e = (\<lambda>s. (Inl e, s))"

definition seq :: "('s, 'a) comp \<Rightarrow> ('a \<Rightarrow> ('s, 'b) comp) \<Rightarrow> ('s, 'b) comp" where
  "seq m f = (\<lambda>s. case m s of (Inl e, s') \<Rightarrow> (Inl e, s') | (Inr x, s') \<Rightarrow> f x s')"

definition getS :: "('s, 's) comp" where
  "getS = (\<lambda>s. (Inr s, s))"

definition modS :: "('s \<Rightarrow> 's) \<Rightarrow> ('s, unit) comp" where
  "modS f = (\<lambda>s. (Inr (), f s))"

text \<open>A pure state transformer that cannot throw, lifted.\<close>

definition pureS :: "('s \<Rightarrow> 'a \<times> 's) \<Rightarrow> ('s, 'a) comp" where
  "pureS f = (\<lambda>s. (Inr (fst (f s)), snd (f s)))"

text \<open>A value that is computed without the state but may throw.\<close>

definition liftE :: "js_error + 'a \<Rightarrow> ('s, 'a) comp" where
  "liftE r = (\<lambda>s. (r, s))"

lemma ret_run [simp, eval_simps]: "ret x s = (Inr x, s)"
  by (simp add: ret_def)

lemma throw_run [simp, eval_simps]: "throw e s = (Inl e, s)"
  by (simp add: throw_def)

lemma getS_run [simp, eval_simps]: "getS s = (Inr s, s)"
  by (simp add: getS_def)

lemma modS_run [simp, eval_simps]: "modS f s = (Inr (), f s)"
  by (simp add: modS_def)

lemma pureS_run [simp, eval_simps]: "pureS f s = (Inr (fst (f s)), snd (f s))"
  by (simp add: pureS_def)

lemma liftE_run [simp, eval_simps]: "liftE r s = (r, s)"
  by (simp add: liftE_def)

lemma seq_Inr [simp, eval_simps]: "m s = (Inr x, s') \<Longrightarrow> seq m f s = f x s'"
  by (simp add: seq_def)

lemma seq_Inl [simp, eval_simps]: "m s = (Inl e, s') \<Longrightarrow> seq m f s = (Inl e, s')"
  by (simp add: seq_def)

lemma seq_eq_Inr_iff:
  "seq m f s = (Inr y, t) \<longleftrightarrow> (\<exists>x s'. m s = (Inr x, s') \<and> f x s' = (Inr y, t))"
  by (auto simp: seq_def split: prod.splits sum.splits)

lemma seq_ret [simp]: "seq (ret x) f = f x"
  by (simp add: seq_def fun_eq_iff)

lemma seq_assoc: "seq (seq m f) g = seq m (\<lambda>x. seq (f x) g)"
  by (auto simp: seq_def fun_eq_iff split: prod.splits sum.splits)

lemma ret_eq [simp]: "ret x s = (r, t) \<longleftrightarrow> r = Inr x \<and> t = s"
  by auto

text \<open>
  \<open>stable R m\<close>: whatever \<open>m\<close> does, thrown exceptions included, the state it leaves is
  related to the one it started from. For a reflexive and transitive \<open>R\<close> this is closed
  under sequencing, so that a frame or monotonicity fact is proved once per primitive.
\<close>

definition stable :: "('s \<Rightarrow> 's \<Rightarrow> bool) \<Rightarrow> ('s, 'a) comp \<Rightarrow> bool" where
  "stable R m \<longleftrightarrow> (\<forall>s. R s (snd (m s)))"

lemma stableI: "(\<And>s. R s (snd (m s))) \<Longrightarrow> stable R m"
  by (simp add: stable_def)

lemma stableD: "stable R m \<Longrightarrow> m s = (r, t) \<Longrightarrow> R s t"
  by (metis snd_conv stable_def)

lemma stable_ret: "reflp R \<Longrightarrow> stable R (ret x)"
  by (simp add: stable_def reflpD)

lemma stable_throw: "reflp R \<Longrightarrow> stable R (throw e)"
  by (simp add: stable_def reflpD)

lemma stable_liftE: "reflp R \<Longrightarrow> stable R (liftE r)"
  by (simp add: stable_def reflpD)

lemma stable_getS: "reflp R \<Longrightarrow> stable R getS"
  by (simp add: stable_def reflpD)

lemma stable_seq:
  assumes tr: "transp R" and m: "stable R m" and f: "\<And>x. stable R (f x)"
  shows "stable R (seq m f)"
proof (rule stableI)
  fix s
  obtain r t where mt: "m s = (r, t)" by (cases "m s")
  have st: "R s t" using m mt by (rule stableD)
  show "R s (snd (seq m f s))"
  proof (cases r)
    case (Inl e)
    then show ?thesis using mt st by simp
  next
    case (Inr x)
    have "R t (snd (f x t))" using f by (simp add: stable_def)
    then show ?thesis using mt st tr Inr by (simp add: transpD [OF tr])
  qed
qed

subsection \<open>Comparators and the stable sort of the runtime\<close>

text \<open>
  \<open>Array.prototype.sort\<close> with a comparator is a stable sort: elements that compare equal
  keep their order. Insertion from the right gives the same result for every comparator
  that is a total preorder, which is the interface the program's comparators meet.
\<close>

fun insert_by :: "('a \<Rightarrow> 'a \<Rightarrow> int) \<Rightarrow> 'a \<Rightarrow> 'a list \<Rightarrow> 'a list" where
  "insert_by cmp x [] = [x]"
| "insert_by cmp x (y # ys) = (if cmp x y \<le> 0 then x # y # ys else y # insert_by cmp x ys)"

fun sort_by :: "('a \<Rightarrow> 'a \<Rightarrow> int) \<Rightarrow> 'a list \<Rightarrow> 'a list" where
  "sort_by cmp [] = []"
| "sort_by cmp (x # xs) = insert_by cmp x (sort_by cmp xs)"

lemma mset_insert_by [simp]: "mset (insert_by cmp x xs) = add_mset x (mset xs)"
  by (induction xs) auto

lemma mset_sort_by [simp]: "mset (sort_by cmp xs) = mset xs"
  by (induction xs) auto

lemma set_sort_by [simp]: "set (sort_by cmp xs) = set xs"
  by (metis mset_sort_by set_mset_mset)

lemma length_sort_by [simp]: "length (sort_by cmp xs) = length xs"
  by (metis mset_sort_by size_mset)

lemma distinct_sort_by [simp]: "distinct (sort_by cmp xs) = distinct xs"
  by (simp add: distinct_count_atmost_1)

lemma sort_by_eq_Nil [simp]: "sort_by cmp xs = [] \<longleftrightarrow> xs = []"
  by (metis length_0_conv length_sort_by)

text \<open>The interface of a comparator.\<close>

locale comparator_law =
  fixes cmp :: "'a \<Rightarrow> 'a \<Rightarrow> int"
  assumes cmp_trans: "cmp x y \<le> 0 \<Longrightarrow> cmp y z \<le> 0 \<Longrightarrow> cmp x z \<le> 0"
    and cmp_flip: "0 < cmp x y \<longleftrightarrow> cmp y x < 0"
begin

abbreviation le :: "'a \<Rightarrow> 'a \<Rightarrow> bool" where
  "le x y \<equiv> cmp x y \<le> 0"

lemma cmp_refl: "le x x"
  using cmp_flip [of x x] by linarith

lemma le_total: "le x y \<or> le y x"
  using cmp_flip [of x y] by linarith

lemma cmp_zero_sym: "cmp x y = 0 \<longleftrightarrow> cmp y x = 0"
  using cmp_flip [of x y] cmp_flip [of y x] by linarith

lemma cmp_less_le_trans: "cmp x y < 0 \<Longrightarrow> cmp y z \<le> 0 \<Longrightarrow> cmp x z < 0"
  using cmp_trans [of y z x] cmp_flip [of z x] cmp_flip [of y x] cmp_zero_sym [of x z]
    cmp_trans [of x y z] by linarith

lemma cmp_le_less_trans: "cmp x y \<le> 0 \<Longrightarrow> cmp y z < 0 \<Longrightarrow> cmp x z < 0"
  using cmp_trans [of z x y] cmp_flip [of z y] cmp_flip [of z x] cmp_zero_sym [of x z]
    cmp_trans [of x y z] by linarith

lemma sorted_insert_by:
  "sorted_wrt le xs \<Longrightarrow> sorted_wrt le (insert_by cmp x xs)"
proof (induction xs)
  case (Cons y ys)
  have set: "set (insert_by cmp x ys) = insert x (set ys)"
    by (metis mset_insert_by set_mset_add_mset_insert set_mset_mset)
  show ?case
  proof (cases "le x y")
    case True
    then show ?thesis using Cons.prems by (auto intro: cmp_trans)
  next
    case False
    then have "le y x" using le_total by blast
    then show ?thesis using False Cons by (simp add: set)
  qed
qed simp

theorem sorted_sort_by: "sorted_wrt le (sort_by cmp xs)"
  by (induction xs) (auto intro: sorted_insert_by)

lemma insert_by_head: "\<forall>y \<in> set ys. le x y \<Longrightarrow> insert_by cmp x ys = x # ys"
  by (cases ys) auto

lemma sort_by_sorted: "sorted_wrt le xs \<Longrightarrow> sort_by cmp xs = xs"
  by (induction xs) (auto simp: insert_by_head)

text \<open>
  Two sorted lists with the same elements agree when only equal elements compare equal:
  the result of the sort then depends on the elements and not on their order.
\<close>

lemma sorted_unique:
  assumes "sorted_wrt le xs" and "sorted_wrt le ys" and "mset xs = mset ys"
    and "\<And>x y. x \<in> set xs \<Longrightarrow> y \<in> set xs \<Longrightarrow> le x y \<Longrightarrow> le y x \<Longrightarrow> x = y"
  shows "xs = ys"
  using assms
proof (induction xs arbitrary: ys)
  case Nil
  then show ?case by simp
next
  case (Cons x xs)
  then obtain y ys' where ys: "ys = y # ys'"
    by (cases ys) auto
  have sets: "set (x # xs) = set (y # ys')"
    using Cons.prems(3) ys by (metis set_mset_mset)
  have "le x y" using Cons.prems(1) sets cmp_refl
    by (metis list.set_intros(1) set_ConsD sorted_wrt.simps(2))
  moreover have "le y x" using Cons.prems(2) sets cmp_refl ys
    by (metis list.set_intros(1) set_ConsD sorted_wrt.simps(2))
  ultimately have xy: "x = y"
    using Cons.prems(4) sets by (metis list.set_intros(1))
  have "xs = ys'"
    using Cons.IH [of ys'] Cons.prems ys xy by simp
  then show ?case using ys xy by simp
qed

lemma sort_by_perm:
  assumes "mset xs = mset ys"
    and "\<And>x y. x \<in> set xs \<Longrightarrow> y \<in> set xs \<Longrightarrow> le x y \<Longrightarrow> le y x \<Longrightarrow> x = y"
  shows "sort_by cmp xs = sort_by cmp ys"
  by (rule sorted_unique) (use assms in \<open>auto intro: sorted_sort_by\<close>)

end

text \<open>
  Breaking ties with a second comparator, the shape of every \<open>a || b\<close> comparator of the
  program.
\<close>

definition then_by :: "('a \<Rightarrow> 'a \<Rightarrow> int) \<Rightarrow> ('a \<Rightarrow> 'a \<Rightarrow> int) \<Rightarrow> 'a \<Rightarrow> 'a \<Rightarrow> int" where
  "then_by c d x y = (if c x y \<noteq> 0 then c x y else d x y)"

lemma comparator_law_then_by:
  assumes c: "comparator_law c" and d: "comparator_law d"
  shows "comparator_law (then_by c d)"
proof
  fix x y z
  note C = comparator_law.cmp_flip [OF c] comparator_law.cmp_zero_sym [OF c]
  show "0 < then_by c d x y \<longleftrightarrow> then_by c d y x < 0"
    using C [of x y] comparator_law.cmp_flip [OF d, of x y] by (auto simp: then_by_def)
  show "then_by c d x z \<le> 0" if xy: "then_by c d x y \<le> 0" and yz: "then_by c d y z \<le> 0"
  proof (cases "c x y < 0 \<or> c y z < 0")
    case True
    then have "c x z < 0"
      using xy yz comparator_law.cmp_less_le_trans [OF c, of x y z]
        comparator_law.cmp_le_less_trans [OF c, of x y z]
      by (auto simp: then_by_def split: if_splits)
    then show ?thesis by (simp add: then_by_def)
  next
    case False
    then have eqs: "c x y = 0" "c y z = 0"
      using xy yz by (auto simp: then_by_def split: if_splits)
    then have "c x z = 0"
      using comparator_law.cmp_trans [OF c, of x y z] comparator_law.cmp_trans [OF c, of z y x]
        C(2) [of x y] C(2) [of y z] C(2) [of x z] C(1) [of z x] by auto
    then show ?thesis
      using xy yz eqs comparator_law.cmp_trans [OF d, of x y z] by (simp add: then_by_def)
  qed
qed

text \<open>The comparator of \<open>sort((a, b) => a - b)\<close> and its lift along a key.\<close>

definition int_cmp :: "int \<Rightarrow> int \<Rightarrow> int" where
  "int_cmp a b = a - b"

definition key_cmp :: "('b \<Rightarrow> 'a) \<Rightarrow> ('a \<Rightarrow> 'a \<Rightarrow> int) \<Rightarrow> 'b \<Rightarrow> 'b \<Rightarrow> int" where
  "key_cmp f cmp x y = cmp (f x) (f y)"

interpretation int_order: comparator_law int_cmp
  by unfold_locales (auto simp: int_cmp_def)

lemma comparator_law_key_cmp: "comparator_law cmp \<Longrightarrow> comparator_law (key_cmp f cmp)"
  unfolding comparator_law_def key_cmp_def by blast

subsection \<open>Strings\<close>

text \<open>
  A JavaScript string is a sequence of code units; the model has the code units 0 to 255.
  \<open><\<close> and the default sort compare code units from the left.
\<close>

fun str_cmp :: "string \<Rightarrow> string \<Rightarrow> int" where
  "str_cmp [] [] = 0"
| "str_cmp [] (b # bs) = -1"
| "str_cmp (a # as) [] = 1"
| "str_cmp (a # as) (b # bs) =
     (if a = b then str_cmp as bs
      else if (of_char a :: nat) < of_char b then -1 else 1)"

abbreviation str_lt :: "string \<Rightarrow> string \<Rightarrow> bool" where
  "str_lt a b \<equiv> str_cmp a b < 0"

abbreviation str_le :: "string \<Rightarrow> string \<Rightarrow> bool" where
  "str_le a b \<equiv> str_cmp a b \<le> 0"

lemma str_cmp_zero [simp]: "str_cmp a b = 0 \<longleftrightarrow> a = b"
  by (induction a b rule: str_cmp.induct) auto

lemma str_cmp_flip: "0 < str_cmp a b \<longleftrightarrow> str_cmp b a < 0"
  by (induction a b rule: str_cmp.induct) auto

lemma str_cmp_trans: "str_cmp a b \<le> 0 \<Longrightarrow> str_cmp b c \<le> 0 \<Longrightarrow> str_cmp a c \<le> 0"
proof (induction a b arbitrary: c rule: str_cmp.induct)
  case (4 a as b bs)
  then show ?case by (cases c) (auto split: if_splits)
qed (auto elim: str_cmp.elims, case_tac c, auto)

interpretation code_units: comparator_law str_cmp
  by unfold_locales (auto intro: str_cmp_trans simp: str_cmp_flip)

lemma str_sort_perm: "mset xs = mset ys \<Longrightarrow> sort_by str_cmp xs = sort_by str_cmp ys"
  by (rule code_units.sort_by_perm)
    (metis code_units.cmp_flip order_antisym_conv linorder_not_le str_cmp_zero)+

text \<open>\<open>s.split(c)\<close> for a one-character separator, and \<open>parts.join(sep)\<close>.\<close>

fun split_on :: "char \<Rightarrow> string \<Rightarrow> string list" where
  "split_on c [] = [[]]"
| "split_on c (x # xs) =
     (if x = c then [] # split_on c xs
      else (case split_on c xs of [] \<Rightarrow> [[x]] | w # ws \<Rightarrow> (x # w) # ws))"

fun join_with :: "string \<Rightarrow> string list \<Rightarrow> string" where
  "join_with sep [] = []"
| "join_with sep [w] = w"
| "join_with sep (w # v # ws) = w @ sep @ join_with sep (v # ws)"

lemma split_on_not_Nil [simp]: "split_on c s \<noteq> []"
  by (induction s) (auto split: list.splits)

lemma join_split_on: "join_with [c] (split_on c s) = s"
proof (induction s)
  case (Cons x xs)
  obtain w ws where w: "split_on c xs = w # ws"
    by (cases "split_on c xs") auto
  then show ?case using Cons by (cases ws) auto
qed simp

definition contains_str :: "string \<Rightarrow> string \<Rightarrow> bool" where
  "contains_str s t \<longleftrightarrow> sublist t s"

subsection \<open>Insertion-ordered maps\<close>

text \<open>
  A JavaScript \<open>Map\<close> is an association list with distinct keys in insertion order:
  \<open>set\<close> on a known key keeps its place, on a new key appends.
\<close>

fun map_put :: "'k \<Rightarrow> 'v \<Rightarrow> ('k \<times> 'v) list \<Rightarrow> ('k \<times> 'v) list" where
  "map_put k v [] = [(k, v)]"
| "map_put k v ((k', v') # m) = (if k = k' then (k, v) # m else (k', v') # map_put k v m)"

lemma map_of_map_put: "map_of (map_put k v m) = (map_of m)(k \<mapsto> v)"
  by (induction m rule: map_put.induct) auto

lemma keys_map_put: "map fst (map_put k v m) = (if k \<in> fst ` set m then map fst m else map fst m @ [k])"
  by (induction m rule: map_put.induct) auto

lemma distinct_map_put: "distinct (map fst m) \<Longrightarrow> distinct (map fst (map_put k v m))"
  by (auto simp: keys_map_put)

lemma set_map_put: "set (map_put k v m) \<subseteq> insert (k, v) (set m)"
  by (induction m rule: map_put.induct) auto

text \<open>
  The loop \<open>if (seen.has(key)) continue; seen.add(key); output.push(item)\<close>: the first
  item of every key, in order.
\<close>

fun first_by :: "('a \<Rightarrow> 'k) \<Rightarrow> 'k list \<Rightarrow> 'a list \<Rightarrow> 'a list" where
  "first_by key seen [] = []"
| "first_by key seen (x # xs) =
     (if key x \<in> set seen then first_by key seen xs
      else x # first_by key (key x # seen) xs)"

lemma first_by_subset: "set (first_by key seen xs) \<subseteq> set xs"
  by (induction xs arbitrary: seen) auto

lemma first_by_keys: "key ` set (first_by key seen xs) = key ` set xs - set seen"
  by (induction xs arbitrary: seen) auto

lemma first_by_distinct: "distinct (map key (first_by key seen xs))"
proof (induction xs arbitrary: seen)
  case (Cons x xs)
  then show ?case
    using first_by_keys [of key "key x # seen" xs] by (auto simp: image_iff)
qed simp

end
