(* ===== verification/Js_Number.thy ===== *)
theory Js_Number
  imports Complex_Main EI_Base
begin

text \<open>
  The numbers of the program: IEEE 754 binary64 values with the arithmetic of the
  JavaScript runtime. A finite value is the rational it denotes, every operation rounds the
  exact result to the nearest representable value, ties to even, and overflow gives an
  infinity. The two zeros are one value, since the program never divides by a zero (it
  tests for it first) and never prints or compares the sign of a zero.
\<close>

datatype jsnum = Fin rat | PosInf | NegInf | NaN

subsection \<open>Rounding to binary64\<close>

definition rpow2 :: "int \<Rightarrow> rat" where
  "rpow2 e = (if 0 \<le> e then 2 ^ nat e else 1 / 2 ^ nat (- e))"

function nlog2 :: "int \<Rightarrow> int" where
  "nlog2 n = (if n < 2 then 0 else 1 + nlog2 (n div 2))"
  by pat_completeness auto
termination
  by (relation "measure nat") auto

declare nlog2.simps [simp del]

text \<open>The exponent \<open>e\<close> with \<open>2 ^ e \<le> q < 2 ^ (e + 1)\<close>, for a positive \<open>q\<close>.\<close>

definition ilog2 :: "rat \<Rightarrow> int" where
  "ilog2 q =
     (let (n, d) = quotient_of q;
          e = nlog2 n - nlog2 d
      in if rpow2 e \<le> q then e else e - 1)"

definition round_half_even :: "rat \<Rightarrow> int" where
  "round_half_even q =
     (let f = \<lfloor>q\<rfloor>; d = q - of_int f
      in if d < 1 / 2 then f else if 1 / 2 < d then f + 1 else if even f then f else f + 1)"

definition to_double :: "rat \<Rightarrow> jsnum" where
  "to_double q =
     (if q = 0 then Fin 0
      else let u = rpow2 (max (ilog2 \<bar>q\<bar>) (-1022) - 52);
               r = of_int (round_half_even (q / u)) * u
           in if rpow2 1024 \<le> \<bar>r\<bar> then (if 0 < q then PosInf else NegInf) else Fin r)"

text \<open>The values a number can have: those that rounding leaves alone.\<close>

definition is_double :: "rat \<Rightarrow> bool" where
  "is_double q \<longleftrightarrow> to_double q = Fin q"

fun is_finite :: "jsnum \<Rightarrow> bool" where
  "is_finite (Fin q) = True"
| "is_finite _ = False"

subsection \<open>Comparisons\<close>

text \<open>Every comparison with \<open>NaN\<close> is false, \<open>===\<close> included.\<close>

fun num_less :: "jsnum \<Rightarrow> jsnum \<Rightarrow> bool" where
  "num_less (Fin a) (Fin b) = (a < b)"
| "num_less (Fin a) PosInf = True"
| "num_less NegInf (Fin b) = True"
| "num_less NegInf PosInf = True"
| "num_less _ _ = False"

fun num_eq :: "jsnum \<Rightarrow> jsnum \<Rightarrow> bool" where
  "num_eq NaN _ = False"
| "num_eq a b = (a = b)"

definition num_le :: "jsnum \<Rightarrow> jsnum \<Rightarrow> bool" where
  "num_le a b \<longleftrightarrow> num_less a b \<or> num_eq a b"

lemma num_le_Fin [simp]: "num_le (Fin a) (Fin b) \<longleftrightarrow> a \<le> b"
  by (auto simp: num_le_def)

lemma num_compare_NaN [simp]:
  "\<not> num_less NaN x" "\<not> num_less x NaN" "\<not> num_eq x NaN" "\<not> num_le NaN x" "\<not> num_le x NaN"
  by (cases x; simp add: num_le_def)+

lemma num_less_iff_not_le:
  "a \<noteq> NaN \<Longrightarrow> b \<noteq> NaN \<Longrightarrow> num_less a b \<longleftrightarrow> \<not> num_le b a"
  by (cases a; cases b) (auto simp: num_le_def)

subsection \<open>Arithmetic\<close>

fun num_neg :: "jsnum \<Rightarrow> jsnum" where
  "num_neg (Fin a) = Fin (- a)"
| "num_neg PosInf = NegInf"
| "num_neg NegInf = PosInf"
| "num_neg NaN = NaN"

fun num_add :: "jsnum \<Rightarrow> jsnum \<Rightarrow> jsnum" where
  "num_add (Fin a) (Fin b) = to_double (a + b)"
| "num_add (Fin a) y = y"
| "num_add x (Fin b) = x"
| "num_add PosInf PosInf = PosInf"
| "num_add NegInf NegInf = NegInf"
| "num_add _ _ = NaN"

definition num_sub :: "jsnum \<Rightarrow> jsnum \<Rightarrow> jsnum" where
  "num_sub x y = num_add x (num_neg y)"

fun signed_inf :: "bool \<Rightarrow> jsnum" where
  "signed_inf True = PosInf"
| "signed_inf False = NegInf"

fun num_mul :: "jsnum \<Rightarrow> jsnum \<Rightarrow> jsnum" where
  "num_mul (Fin a) (Fin b) = to_double (a * b)"
| "num_mul NaN _ = NaN"
| "num_mul _ NaN = NaN"
| "num_mul (Fin a) PosInf = (if a = 0 then NaN else signed_inf (0 < a))"
| "num_mul (Fin a) NegInf = (if a = 0 then NaN else signed_inf (a < 0))"
| "num_mul PosInf (Fin b) = (if b = 0 then NaN else signed_inf (0 < b))"
| "num_mul NegInf (Fin b) = (if b = 0 then NaN else signed_inf (b < 0))"
| "num_mul PosInf PosInf = PosInf"
| "num_mul NegInf NegInf = PosInf"
| "num_mul PosInf NegInf = NegInf"
| "num_mul NegInf PosInf = NegInf"

text \<open>The divisor is never a zero in the program: the callers test for it.\<close>

fun num_div :: "jsnum \<Rightarrow> jsnum \<Rightarrow> jsnum" where
  "num_div (Fin a) (Fin b) =
     (if b = 0 then (if a = 0 then NaN else signed_inf (0 < a)) else to_double (a / b))"
| "num_div NaN _ = NaN"
| "num_div _ NaN = NaN"
| "num_div (Fin a) _ = Fin 0"
| "num_div PosInf (Fin b) = signed_inf (0 \<le> b)"
| "num_div NegInf (Fin b) = signed_inf (b < 0)"
| "num_div _ _ = NaN"

fun num_abs :: "jsnum \<Rightarrow> jsnum" where
  "num_abs (Fin a) = Fin \<bar>a\<bar>"
| "num_abs NegInf = PosInf"
| "num_abs x = x"

fun num_floor :: "jsnum \<Rightarrow> jsnum" where
  "num_floor (Fin a) = Fin (of_int \<lfloor>a\<rfloor>)"
| "num_floor x = x"

fun num_ceil :: "jsnum \<Rightarrow> jsnum" where
  "num_ceil (Fin a) = Fin (of_int \<lceil>a\<rceil>)"
| "num_ceil x = x"

definition num_min :: "jsnum \<Rightarrow> jsnum \<Rightarrow> jsnum" where
  "num_min x y = (if x = NaN \<or> y = NaN then NaN else if num_less y x then y else x)"

definition num_max :: "jsnum \<Rightarrow> jsnum \<Rightarrow> jsnum" where
  "num_max x y = (if x = NaN \<or> y = NaN then NaN else if num_less x y then y else x)"

definition num_of_int :: "int \<Rightarrow> jsnum" where
  "num_of_int i = to_double (of_int i)"

text \<open>
  \<open>Math.sqrt\<close>: the exact root rounded to nearest. The integer part of the scaled root is
  found digit by digit, and the root of a binary64 value is never half way between two
  binary64 values, so that one comparison with the midpoint decides.
\<close>

function isqrt :: "int \<Rightarrow> int" where
  "isqrt n =
     (if n \<le> 0 then 0
      else let r = 2 * isqrt (n div 4) in if (r + 1) * (r + 1) \<le> n then r + 1 else r)"
  by pat_completeness auto
termination
  by (relation "measure nat") auto

declare isqrt.simps [simp del]

fun num_sqrt :: "jsnum \<Rightarrow> jsnum" where
  "num_sqrt (Fin q) =
     (if q < 0 then NaN else if q = 0 then Fin 0
      else let u = rpow2 (ilog2 q div 2 - 52);
               n = isqrt \<lfloor>q / (u * u)\<rfloor>;
               mid = (of_int n + 1 / 2) * u
           in Fin (of_int (if mid * mid < q then n + 1 else n) * u))"
| "num_sqrt PosInf = PosInf"
| "num_sqrt _ = NaN"

text \<open>The integer root is the integer part of the root.\<close>

lemma isqrt_bounds: "0 \<le> n \<Longrightarrow> 0 \<le> isqrt n \<and> isqrt n * isqrt n \<le> n \<and> n < (isqrt n + 1) * (isqrt n + 1)"
proof (induction n rule: isqrt.induct)
  case (1 n)
  show ?case
  proof (cases "n = 0")
    case True
    then show ?thesis by (simp add: isqrt.simps)
  next
    case False
    define r where "r = isqrt (n div 4)"
    have ih: "0 \<le> r" "r * r \<le> n div 4" "n div 4 < (r + 1) * (r + 1)"
      using "1.IH" "1.prems" False by (simp_all add: r_def)
    have lo: "4 * (r * r) \<le> n" using ih(2) by linarith
    have hi: "n < 4 * ((r + 1) * (r + 1))" using ih(3) by linarith
    have n: "isqrt n = (if (2 * r + 1) * (2 * r + 1) \<le> n then 2 * r + 1 else 2 * r)"
      using False "1.prems" by (subst isqrt.simps) (simp add: Let_def r_def)
    show ?thesis
      unfolding n using lo hi ih(1) by (auto simp: algebra_simps)
  qed
qed

subsection \<open>Facts used by the components\<close>

lemma is_double_0 [simp]: "is_double 0"
  by (simp add: is_double_def to_double_def)

lemma to_double_0 [simp]: "to_double 0 = Fin 0"
  by (simp add: to_double_def)

lemma to_double_not_NaN [simp]: "to_double q \<noteq> NaN"
  by (simp add: to_double_def Let_def)

lemma round_half_even_of_int [simp]: "round_half_even (of_int i) = i"
  by (simp add: round_half_even_def)

lemma rpow2_pos [simp]: "0 < rpow2 e"
  by (simp add: rpow2_def)

lemma rpow2_nonzero [simp]: "rpow2 e \<noteq> 0"
  using rpow2_pos [of e] by linarith

lemma round_half_even_neg: "round_half_even (- q) = - round_half_even q"
proof (cases "q = of_int \<lfloor>q\<rfloor>")
  case True
  then have "- q = of_int (- \<lfloor>q\<rfloor>)" by simp
  then show ?thesis by (metis True round_half_even_of_int)
next
  case False
  then have f: "\<lfloor>- q\<rfloor> = - \<lfloor>q\<rfloor> - 1"
    by (metis ceiling_altdef floor_minus minus_diff_eq diff_minus_eq_add add.commute uminus_add_conv_diff)
  show ?thesis
    unfolding round_half_even_def Let_def f by auto
qed

lemma to_double_neg: "to_double (- q) = num_neg (to_double q)"
proof -
  have "(- q) / u = - (q / u)" for u :: rat by simp
  then show ?thesis
    by (auto simp: to_double_def Let_def round_half_even_neg)
qed

lemma is_double_neg: "is_double q \<Longrightarrow> is_double (- q)"
  by (simp add: is_double_def to_double_neg)

text \<open>Every binary64 value is a whole multiple of the least positive one.\<close>

lemma rpow2_add: "rpow2 (a + b) = rpow2 a * rpow2 b"
proof -
  have eq: "rpow2 e = 2 powi e" for e
    by (simp add: rpow2_def power_int_def power_one_over inverse_eq_divide)
  show ?thesis by (simp add: eq power_int_add)
qed

lemma is_double_grid:
  assumes "is_double q"
  obtains m where "q = of_int m * rpow2 (-1074)"
proof (cases "q = 0")
  case True
  then show ?thesis using that [of 0] by simp
next
  case False
  define e where "e = max (ilog2 \<bar>q\<bar>) (-1022) - 52"
  define i where "i = round_half_even (q / rpow2 e)"
  have q: "q = of_int i * rpow2 e"
    using assms False by (auto simp: is_double_def to_double_def Let_def e_def i_def split: if_splits)
  have "rpow2 e = rpow2 (e + 1074) * rpow2 (-1074)"
    using rpow2_add [of "e + 1074" "-1074"] by simp
  moreover have "rpow2 (e + 1074) = of_int (2 ^ nat (e + 1074))"
    by (simp add: rpow2_def e_def)
  ultimately have "q = of_int (i * 2 ^ nat (e + 1074)) * rpow2 (-1074)"
    using q by simp
  then show ?thesis by (rule that)
qed

text \<open>The integers below \<open>2 ^ 53\<close> are exact.\<close>

lemma nlog2_power_le: "0 < n \<Longrightarrow> 0 \<le> nlog2 n \<and> 2 ^ nat (nlog2 n) \<le> n"
proof (induction n rule: nlog2.induct)
  case (1 n)
  show ?case
  proof (cases "n < 2")
    case True
    then show ?thesis using 1 by (simp add: nlog2.simps [of n])
  next
    case False
    then have ih: "0 \<le> nlog2 (n div 2)" "2 ^ nat (nlog2 (n div 2)) \<le> n div 2" using 1 by simp_all
    have "2 * 2 ^ nat (nlog2 (n div 2)) \<le> n" using ih(2) by linarith
    then show ?thesis using False ih(1) by (simp add: nlog2.simps [of n] nat_add_distrib)
  qed
qed

lemma to_double_pos_safe:
  assumes "0 < i" and "i < 2 ^ 53"
  shows "to_double (of_int i) = Fin (of_int i)"
proof -
  have "(of_int i :: rat) < of_int (2 ^ 53)" using assms(2) by (simp only: of_int_less_iff)
  then have small: "(of_int i :: rat) < 2 ^ 53" by simp
  define e where "e = nlog2 i"
  have e0: "0 \<le> e" and "2 ^ nat e \<le> i" using nlog2_power_le [of i] assms by (auto simp: e_def)
  then have "(of_int (2 ^ nat e) :: rat) \<le> of_int i" by (simp only: of_int_le_iff)
  then have lo: "rpow2 e \<le> of_int i" using e0 by (simp add: rpow2_def)
  have q: "quotient_of (of_int i) = (i, 1)" by (simp add: Rat.of_int_def)
  have e: "ilog2 (of_int i) = e" using lo by (simp add: ilog2_def q nlog2.simps [of 1] flip: e_def)
  have "(2::int) ^ nat e < 2 ^ 53" using \<open>2 ^ nat e \<le> i\<close> assms(2) by (rule le_less_trans)
  then have "nat e < 53" by (rule power_less_imp_less_exp [rotated]) simp
  then have e52: "e \<le> 52" by simp
  have "rpow2 (e - 52) = 1 / 2 ^ nat (52 - e)" using e52 by (simp add: rpow2_def)
  then have "(of_int i :: rat) / rpow2 (e - 52) = of_int (i * 2 ^ nat (52 - e))" by simp
  moreover have "\<not> rpow2 1024 \<le> \<bar>of_int i :: rat\<bar>"
  proof -
    have "(of_int i :: rat) < 2 ^ 53" by (rule small)
    also have "\<dots> \<le> 2 ^ 1024" by (rule power_increasing) auto
    finally show ?thesis using assms(1) by (simp add: rpow2_def)
  qed
  moreover from calculation have "of_int (round_half_even (of_int i / rpow2 (e - 52))) * rpow2 (e - 52) = (of_int i :: rat)"
    by (simp only: round_half_even_of_int) (metis nonzero_eq_divide_eq rpow2_nonzero)
  ultimately show ?thesis
    using assms(1) e e0 by (simp only: to_double_def Let_def max_def) simp
qed

lemma is_double_safe: "\<bar>i\<bar> < 2 ^ 53 \<Longrightarrow> is_double (of_int i)"
  using to_double_pos_safe [of i] is_double_neg [of "of_int (- i)"] to_double_pos_safe [of "- i"]
  by (cases "i = 0"; cases "0 < i") (auto simp: is_double_def)

lemma num_of_int_safe: "\<bar>i\<bar> < 2 ^ 53 \<Longrightarrow> num_of_int i = Fin (of_int i)"
  using is_double_safe [of i] by (simp add: num_of_int_def is_double_def)

end
