(* ===== verification/Js_Json.thy ===== *)
theory Js_Json
  imports Js_Number
begin

text \<open>
  JSON values as the program holds them, with the operations of the runtime on them:
  property order of objects, \<open>JSON.stringify\<close>, number printing, and the canonical form
  (keys sorted at every depth) under which the program compares source identities.
\<close>

subsection \<open>Values\<close>

datatype json =
    JNull
  | JBool bool
  | JNum jsnum
  | JStr string
  | JArr "json list"
  | JObj "(string \<times> json) list"

type_synonym jobj = "(string \<times> json) list"

text \<open>
  A value of the program: the numbers are representable and finite, as in every parsed
  JSON text, and the keys of an object are distinct.
\<close>

fun json_ok :: "json \<Rightarrow> bool" where
  "json_ok (JNum (Fin q)) = is_double q"
| "json_ok (JNum _) = False"
| "json_ok (JArr vs) = list_all json_ok vs"
| "json_ok (JObj kvs) = (distinct (map fst kvs) \<and> list_all (\<lambda>kv. json_ok (snd kv)) kvs)"
| "json_ok _ = True"

subsection \<open>Decimal numerals\<close>

definition digit_char :: "nat \<Rightarrow> char" where
  "digit_char d = char_of (48 + d)"

function pos_digits :: "int \<Rightarrow> string" where
  "pos_digits n =
     (if n < 10 then [digit_char (nat n)] else pos_digits (n div 10) @ [digit_char (nat (n mod 10))])"
  by pat_completeness auto
termination
  by (relation "measure nat") auto

declare pos_digits.simps [simp del]

definition int_str :: "int \<Rightarrow> string" where
  "int_str i = (if i < 0 then CHR ''-'' # pos_digits (- i) else pos_digits i)"

definition is_digit :: "char \<Rightarrow> bool" where
  "is_digit c \<longleftrightarrow> 48 \<le> (of_char c :: nat) \<and> (of_char c :: nat) \<le> 57"

definition digit_val :: "char \<Rightarrow> int" where
  "digit_val c = of_char c - 48"

definition digits_val :: "string \<Rightarrow> int" where
  "digits_val s = foldl (\<lambda>n c. 10 * n + digit_val c) 0 s"

text \<open>\<open>s.padStart(w, '0')\<close>.\<close>

definition pad0 :: "nat \<Rightarrow> string \<Rightarrow> string" where
  "pad0 w s = replicate (w - length s) CHR ''0'' @ s"

subsection \<open>Property order of objects\<close>

text \<open>
  Own keys come with the array indices first, in ascending order, then the other keys in
  the order of their creation.
\<close>

definition is_index_key :: "string \<Rightarrow> bool" where
  "is_index_key k \<longleftrightarrow>
     k \<noteq> [] \<and> list_all is_digit k \<and> (k = ''0'' \<or> hd k \<noteq> CHR ''0'') \<and> digits_val k < 2 ^ 32 - 1"

fun obj_insert :: "string \<Rightarrow> 'v \<Rightarrow> (string \<times> 'v) list \<Rightarrow> (string \<times> 'v) list" where
  "obj_insert k v [] = [(k, v)]"
| "obj_insert k v ((k', v') # m) =
     (if is_index_key k \<and> (\<not> is_index_key k' \<or> digits_val k < digits_val k')
      then (k, v) # (k', v') # m else (k', v') # obj_insert k v m)"

definition obj_put :: "string \<Rightarrow> 'v \<Rightarrow> (string \<times> 'v) list \<Rightarrow> (string \<times> 'v) list" where
  "obj_put k v m = (if k \<in> fst ` set m then map_put k v m else obj_insert k v m)"

definition from_entries :: "(string \<times> 'v) list \<Rightarrow> (string \<times> 'v) list" where
  "from_entries kvs = fold (\<lambda>(k, v). obj_put k v) kvs []"

lemma mset_obj_insert [simp]: "mset (obj_insert k v m) = add_mset (k, v) (mset m)"
  by (induction m rule: obj_insert.induct) auto

lemma set_obj_insert [simp]: "set (obj_insert k v m) = insert (k, v) (set m)"
  by (metis mset_obj_insert set_mset_add_mset_insert set_mset_mset)

lemma map_of_obj_insert:
  "k \<notin> fst ` set m \<Longrightarrow> map_of (obj_insert k v m) = (map_of m)(k \<mapsto> v)"
  by (induction m rule: obj_insert.induct) (auto simp: fun_eq_iff)

lemma map_of_obj_put: "map_of (obj_put k v m) = (map_of m)(k \<mapsto> v)"
  by (simp add: obj_put_def map_of_map_put map_of_obj_insert)

lemma distinct_keys_obj_insert:
  "distinct (map fst (obj_insert k v m)) \<longleftrightarrow> k \<notin> fst ` set m \<and> distinct (map fst m)"
proof -
  have "mset (map fst (obj_insert k v m)) = add_mset k (mset (map fst m))"
    by simp
  then have "distinct (map fst (obj_insert k v m)) \<longleftrightarrow> distinct (k # map fst m)"
    by (metis mset.simps(2) mset_eq_imp_distinct_iff)
  then show ?thesis by simp
qed

lemma distinct_obj_put: "distinct (map fst m) \<Longrightarrow> distinct (map fst (obj_put k v m))"
  by (simp add: obj_put_def distinct_map_put distinct_keys_obj_insert)

lemma from_entries_aux:
  "distinct (map fst (m @ kvs)) \<Longrightarrow>
     mset (fold (\<lambda>(k, v). obj_put k v) kvs m) = mset m + mset kvs"
proof (induction kvs arbitrary: m)
  case (Cons kv kvs)
  obtain k v where kv: "kv = (k, v)" by (cases kv)
  have new: "k \<notin> fst ` set m" using Cons.prems kv by auto
  have d: "distinct (map fst (obj_insert k v m @ kvs))"
    using Cons.prems kv by (auto simp: distinct_keys_obj_insert)
  show ?case
    using Cons.IH [OF d] new kv by (simp add: obj_put_def)
qed simp

lemma mset_from_entries [simp]:
  "distinct (map fst kvs) \<Longrightarrow> mset (from_entries kvs) = mset kvs"
  using from_entries_aux [of "[]" kvs] by (simp add: from_entries_def)

lemma set_from_entries [simp]: "distinct (map fst kvs) \<Longrightarrow> set (from_entries kvs) = set kvs"
  by (metis mset_from_entries set_mset_mset)

subsection \<open>The canonical form\<close>

fun stableValue :: "json \<Rightarrow> json" where
  "stableValue (JArr vs) = JArr (map stableValue vs)"
| "stableValue (JObj kvs) =
     JObj (from_entries (sort_by (key_cmp fst str_cmp) (map (\<lambda>kv. (fst kv, stableValue (snd kv))) kvs)))"
| "stableValue v = v"

text \<open>
  The relation it decides: the two values differ at most in the order of object keys, at
  any depth.
\<close>

fun same_json :: "json \<Rightarrow> json \<Rightarrow> bool" where
  "same_json (JArr vs) w = (case w of JArr ws \<Rightarrow> list_all2 same_json vs ws | _ \<Rightarrow> False)"
| "same_json (JObj kvs) w = (case w of
     JObj lws \<Rightarrow> length kvs = length lws \<and>
       (\<forall>kv \<in> set kvs. case map_of lws (fst kv) of None \<Rightarrow> False | Some u \<Rightarrow> same_json (snd kv) u)
   | _ \<Rightarrow> False)"
| "same_json v w = (v = w)"

definition sorted_entries :: "(string \<times> 'v) list \<Rightarrow> (string \<times> 'v) list" where
  "sorted_entries kvs = from_entries (sort_by (key_cmp fst str_cmp) kvs)"

lemma sorted_entries_mset_iff:
  assumes "distinct (map fst kvs)" and "distinct (map fst lws)"
  shows "sorted_entries kvs = sorted_entries lws \<longleftrightarrow> mset kvs = mset lws"
proof
  have d: "distinct (map fst (sort_by (key_cmp fst str_cmp) m))"
    if "distinct (map fst m)" for m :: "(string \<times> 'a) list"
    using that by (metis mset_eq_imp_distinct_iff mset_map mset_sort_by)
  show "mset kvs = mset lws" if "sorted_entries kvs = sorted_entries lws"
    using that d [OF assms(1)] d [OF assms(2)]
    by (metis mset_from_entries mset_sort_by sorted_entries_def)
  show "sorted_entries kvs = sorted_entries lws" if "mset kvs = mset lws"
  proof -
    have inj: "x = y" if "x \<in> set kvs" "y \<in> set kvs" "fst x = fst y" for x y
      using that assms(1) by (metis distinct_map inj_on_eq_iff)
    have zero: "a = b" if "str_cmp a b \<le> 0" "str_cmp b a \<le> 0" for a b
      using that code_units.cmp_flip [of a b] code_units.cmp_flip [of b a]
      by (metis order_le_less order_less_irrefl order_le_less_trans str_cmp_zero)
    have "sort_by (key_cmp fst str_cmp) kvs = sort_by (key_cmp fst str_cmp) lws"
      by (rule comparator_law.sort_by_perm
            [OF comparator_law_key_cmp [OF code_units.comparator_law_axioms] that])
        (use inj zero in \<open>auto simp: key_cmp_def\<close>)
    then show ?thesis by (simp add: sorted_entries_def)
  qed
qed

lemma stableValue_obj:
  "stableValue (JObj kvs) =
     JObj (sorted_entries (map (\<lambda>kv. (fst kv, stableValue (snd kv))) kvs))"
  by (simp add: sorted_entries_def)

text \<open>Entry lists with distinct keys have the same elements when they agree as maps.\<close>

lemma mset_eq_iff_lookup:
  assumes "distinct (map fst kvs)" and "distinct (map fst lws)"
  shows "mset kvs = mset lws \<longleftrightarrow>
    length kvs = length lws \<and> (\<forall>kv \<in> set kvs. map_of lws (fst kv) = Some (snd kv))"
proof
  assume eq: "mset kvs = mset lws"
  then have "set kvs = set lws" by (metis set_mset_mset)
  moreover have "length kvs = length lws" using eq by (rule mset_eq_length)
  ultimately show "length kvs = length lws \<and> (\<forall>kv \<in> set kvs. map_of lws (fst kv) = Some (snd kv))"
    using assms(2) by simp
next
  assume r: "length kvs = length lws \<and> (\<forall>kv \<in> set kvs. map_of lws (fst kv) = Some (snd kv))"
  have dk: "distinct kvs" "distinct lws" using assms by (auto simp: distinct_map)
  have sub: "set kvs \<subseteq> set lws"
    using r by (auto dest!: map_of_SomeD)
  have "set kvs = set lws"
    by (rule card_subset_eq) (use sub r dk in \<open>auto simp: distinct_card\<close>)
  then show "mset kvs = mset lws"
    using dk by (simp add: set_eq_iff_mset_eq_distinct)
qed

lemma json_ok_map_stable:
  "map fst (map (\<lambda>kv. (fst kv, stableValue (snd kv))) kvs) = map fst kvs"
  by simp

theorem stableValue_eq_iff:
  "json_ok a \<Longrightarrow> json_ok b \<Longrightarrow> stableValue a = stableValue b \<longleftrightarrow> same_json a b"
proof (induction a arbitrary: b)
  case (JArr vs)
  show ?case
  proof (cases b)
    case b: (JArr ws)
    have "map stableValue vs = map stableValue ws \<longleftrightarrow> list_all2 same_json vs ws"
      using JArr b by (auto simp: list_all2_conv_all_nth list_eq_iff_nth_eq list_all_length)
    then show ?thesis using b by simp
  qed auto
next
  case (JObj kvs)
  show ?case
  proof (cases b)
    case b: (JObj lws)
    let ?st = "map (\<lambda>kv. (fst kv, stableValue (snd kv)))"
    have d: "distinct (map fst (?st kvs))" "distinct (map fst (?st lws))"
      using JObj.prems b by (simp_all add: comp_def)
    have lookup: "map_of (?st lws) k = map_option stableValue (map_of lws k)" for k
      by (induction lws) auto
    have ok: "json_ok u" if "map_of lws k = Some u" for k u
      using JObj.prems(2) b map_of_SomeD [OF that] by (auto simp: list_all_iff)
    have "map_of (?st lws) (fst kv) = Some (stableValue (snd kv)) \<longleftrightarrow>
        (case map_of lws (fst kv) of None \<Rightarrow> False | Some u \<Rightarrow> same_json (snd kv) u)"
      if kv: "kv \<in> set kvs" for kv
    proof (cases "map_of lws (fst kv)")
      case (Some u)
      have "json_ok (snd kv)" using JObj.prems(1) kv by (auto simp: list_all_iff)
      then have "stableValue (snd kv) = stableValue u \<longleftrightarrow> same_json (snd kv) u"
        using JObj.IH [OF kv, of "snd kv" u] ok [OF Some] by (cases kv) (simp add: snds.intros)
      then show ?thesis using Some lookup by auto
    qed (simp add: lookup)
    then have "mset (?st kvs) = mset (?st lws) \<longleftrightarrow> same_json (JObj kvs) (JObj lws)"
      using mset_eq_iff_lookup [OF d] by auto
    then show ?thesis
      using b sorted_entries_mset_iff [OF d] by (simp add: stableValue_obj del: stableValue.simps)
  qed auto
qed (simp_all, (case_tac b; auto)+)

end
