(* ===== verification/Js_Text.thy ===== *)
theory Js_Text
  imports Js_Json
begin

text \<open>
  How values become text: numbers by the shortest decimal that reads back as the same
  binary64 value, strings with JSON escapes, and \<open>JSON.stringify\<close>. The program compares,
  hashes and stores such texts instead of the values; the main fact here is that equal
  texts come from equal values.
\<close>

subsection \<open>Numbers\<close>

definition rpow10 :: "int \<Rightarrow> rat" where
  "rpow10 e = (if 0 \<le> e then 10 ^ nat e else 1 / 10 ^ nat (- e))"

text \<open>The exponent \<open>n\<close> with \<open>10 ^ (n - 1) \<le> q < 10 ^ n\<close>.\<close>

fun leading_zeros :: "nat \<Rightarrow> rat \<Rightarrow> nat" where
  "leading_zeros fuel q =
     (if fuel = 0 \<or> 1 \<le> 10 * q then 0 else Suc (leading_zeros (fuel - 1) (10 * q)))"

declare leading_zeros.simps [simp del]

definition dec_exp :: "rat \<Rightarrow> int" where
  "dec_exp q =
     (if 1 \<le> q then int (length (pos_digits \<lfloor>q\<rfloor>)) else - int (leading_zeros 400 q))"

text \<open>
  The least number \<open>k\<close> of digits, and the digits, such that the decimal reads back as \<open>q\<close>.
  The fuel is the number of digits after which the decimal is exact.
\<close>

fun find_digits :: "nat \<Rightarrow> nat \<Rightarrow> rat \<Rightarrow> int \<Rightarrow> int \<times> nat" where
  "find_digits fuel k q n =
     (let u = rpow10 (n - int k); f = \<lfloor>q / u\<rfloor>;
          lo = to_double (of_int f * u) = Fin q;
          hi = to_double (of_int (f + 1) * u) = Fin q
      in if lo \<and> hi then (if of_int (f + 1) * u - q < q - of_int f * u then f + 1 else f, k)
         else if lo then (f, k) else if hi then (f + 1, k)
         else if fuel = 0 then (f, k) else find_digits (fuel - 1) (Suc k) q n)"

declare find_digits.simps [simp del]

fun strip_zeros :: "string \<Rightarrow> string" where
  "strip_zeros [] = []"
| "strip_zeros (c # s) =
     (case strip_zeros s of [] \<Rightarrow> if c = CHR ''0'' then [] else [c] | t \<Rightarrow> c # t)"

text \<open>The layout of \<open>Number.prototype.toString\<close> for digits \<open>ds\<close> of value \<open>0.ds * 10 ^ n\<close>.\<close>

definition layout :: "string \<Rightarrow> int \<Rightarrow> string" where
  "layout ds n =
     (let k = int (length ds) in
      if k \<le> n \<and> n \<le> 21 then ds @ replicate (nat (n - k)) CHR ''0''
      else if 0 < n \<and> n \<le> 21 then take (nat n) ds @ ''.'' @ drop (nat n) ds
      else if - 6 < n \<and> n \<le> 0 then ''0.'' @ replicate (nat (- n)) CHR ''0'' @ ds
      else (if k = 1 then ds else take 1 ds @ ''.'' @ drop 1 ds) @ ''e'' @
           (if n - 1 < 0 then ''-'' else ''+'') @ pos_digits \<bar>n - 1\<bar>)"

definition pos_str :: "rat \<Rightarrow> string" where
  "pos_str q =
     (let n = dec_exp q; (s, k) = find_digits (nat (n + 1074)) 1 q n;
          ds = pos_digits s; m = n + int (length ds) - int k
      in layout (strip_zeros ds) m)"

fun num_str :: "jsnum \<Rightarrow> string" where
  "num_str (Fin q) = (if q = 0 then ''0'' else if q < 0 then CHR ''-'' # pos_str (- q) else pos_str q)"
| "num_str PosInf = ''Infinity''"
| "num_str NegInf = ''-Infinity''"
| "num_str NaN = ''NaN''"

subsection \<open>Strings and values\<close>

definition hex_digit :: "nat \<Rightarrow> char" where
  "hex_digit d = (if d < 10 then char_of (48 + d) else char_of (87 + d))"

definition escape_char :: "char \<Rightarrow> string" where
  "escape_char c =
     (let n = (of_char c :: nat) in
      if n = 34 then [CHR 0x5C, CHR 0x22]
      else if n = 92 then [CHR 0x5C, CHR 0x5C]
      else if n = 8 then [CHR 0x5C, CHR ''b'']
      else if n = 9 then [CHR 0x5C, CHR ''t'']
      else if n = 10 then [CHR 0x5C, CHR ''n'']
      else if n = 12 then [CHR 0x5C, CHR ''f'']
      else if n = 13 then [CHR 0x5C, CHR ''r'']
      else if n < 32 then [CHR 0x5C, CHR ''u'', CHR ''0'', CHR ''0'', hex_digit (n div 16), hex_digit (n mod 16)]
      else [c])"

definition quote :: "string \<Rightarrow> string" where
  "quote s = CHR 0x22 # concat (map escape_char s) @ [CHR 0x22]"

fun stringify :: "json \<Rightarrow> string" where
  "stringify JNull = ''null''"
| "stringify (JBool b) = (if b then ''true'' else ''false'')"
| "stringify (JNum (Fin q)) = num_str (Fin q)"
| "stringify (JNum _) = ''null''"
| "stringify (JStr s) = quote s"
| "stringify (JArr vs) = ''['' @ join_with '','' (map stringify vs) @ '']''"
| "stringify (JObj kvs) =
     ''{'' @ join_with '','' (map (\<lambda>kv. quote (fst kv) @ '':'' @ stringify (snd kv)) kvs) @ ''}''"

text \<open>\<open>String(value)\<close>.\<close>

fun js_string :: "json \<Rightarrow> string" where
  "js_string JNull = ''null''"
| "js_string (JBool b) = (if b then ''true'' else ''false'')"
| "js_string (JNum n) = num_str n"
| "js_string (JStr s) = s"
| "js_string (JArr vs) = join_with '','' (map (\<lambda>v. if v = JNull then [] else js_string v) vs)"
| "js_string (JObj kvs) = ''[object Object]''"

subsection \<open>Decimal digits read back\<close>

lemma of_char_digit: "d < 10 \<Longrightarrow> (of_char (digit_char d) :: nat) = 48 + d"
  by (simp add: digit_char_def)

lemma digit_val_digit_char [simp]: "d < 10 \<Longrightarrow> digit_val (digit_char d) = int d"
  using of_char_digit [of d] unfolding digit_val_def
  by (metis (mono_tags) add_diff_cancel_left' of_nat_add of_nat_numeral of_nat_of_char)

lemma is_digit_digit_char [simp]: "d < 10 \<Longrightarrow> is_digit (digit_char d)"
  by (simp add: is_digit_def of_char_digit)

lemma digits_val_Nil [simp]: "digits_val [] = 0"
  by (simp add: digits_val_def)

lemma digits_val_snoc [simp]: "digits_val (s @ [c]) = 10 * digits_val s + digit_val c"
  by (simp add: digits_val_def)

lemma digits_val_zeros [simp]: "digits_val (s @ replicate j CHR ''0'') = digits_val s * 10 ^ j"
proof (induction j)
  case (Suc j)
  have "s @ replicate (Suc j) CHR ''0'' = (s @ replicate j CHR ''0'') @ [CHR ''0'']"
    by (simp add: replicate_append_same)
  then show ?case
    using Suc by (simp add: digit_val_def del: append_assoc)
qed simp

lemma digits_val_zeros_left [simp]: "digits_val (replicate j CHR ''0'' @ s) = digits_val s"
proof (induction s rule: rev_induct)
  case Nil
  then show ?case using digits_val_zeros [of "[]" j] by simp
next
  case (snoc c s)
  then show ?case
    by (metis append_assoc digits_val_snoc)
qed

lemma pos_digits_props:
  "0 \<le> n \<Longrightarrow> digits_val (pos_digits n) = n \<and> list_all is_digit (pos_digits n) \<and> pos_digits n \<noteq> []"
proof (induction n rule: pos_digits.induct)
  case (1 n)
  show ?case
  proof (cases "n < 10")
    case True
    then show ?thesis
      using "1.prems" digits_val_snoc [of "[]" "digit_char (nat n)"]
      by (subst (1 2 3) pos_digits.simps) simp
  next
    case False
    have "nat (n mod 10) < 10" by simp
    then show ?thesis
      using False 1 by (subst (1 2 3) pos_digits.simps) simp
  qed
qed

lemma strip_zeros_split: "\<exists>j. s = strip_zeros s @ replicate j CHR ''0''"
proof (induction s)
  case (Cons c s)
  then obtain j where j: "s = strip_zeros s @ replicate j CHR ''0''" by blast
  show ?case
  proof (cases "strip_zeros s")
    case Nil
    then show ?thesis using j
      by (cases "c = CHR ''0''") (auto intro: exI [of _ "Suc j"] exI [of _ j])
  next
    case (Cons d t)
    then show ?thesis using j by (auto intro: exI [of _ j])
  qed
qed simp

lemma rpow10_add: "rpow10 (a + b) = rpow10 a * rpow10 b"
proof -
  have eq: "rpow10 e = 10 powi e" for e
    by (simp add: rpow10_def power_int_def power_one_over inverse_eq_divide)
  show ?thesis by (simp add: eq power_int_add)
qed

lemma rpow10_nat: "rpow10 (int j) = 10 ^ j"
  by (simp add: rpow10_def)

lemma rpow10_pos [simp]: "0 < rpow10 e"
  by (simp add: rpow10_def)

lemma rpow10_nonzero [simp]: "rpow10 e \<noteq> 0"
  using rpow10_pos [of e] by linarith

text \<open>The value a decimal text denotes.\<close>

definition dec_val :: "string \<Rightarrow> rat" where
  "dec_val t =
     (let m = takeWhile (\<lambda>c. c \<noteq> CHR ''e'') t; x = dropWhile (\<lambda>c. c \<noteq> CHR ''e'') t;
          ip = takeWhile (\<lambda>c. c \<noteq> CHR ''.'') m; fp = drop 1 (dropWhile (\<lambda>c. c \<noteq> CHR ''.'') m);
          ex = (if x = [] then 0 else if take 1 (drop 1 x) = ''-'' then - digits_val (drop 2 x)
                else digits_val (drop 2 x))
      in of_int (digits_val (ip @ fp)) * rpow10 (ex - int (length fp)))"

lemma digit_not_mark: "is_digit c \<Longrightarrow> c \<noteq> CHR ''e'' \<and> c \<noteq> CHR ''.'' \<and> c \<noteq> CHR ''-'' \<and> c \<noteq> CHR ''+''"
  by (auto simp: is_digit_def)

lemma take_digits:
  assumes "list_all is_digit ds" and "z \<in> {CHR ''e'', CHR ''.''}"
  shows "takeWhile (\<lambda>c. c \<noteq> z) (ds @ r) = ds @ takeWhile (\<lambda>c. c \<noteq> z) r"
    and "dropWhile (\<lambda>c. c \<noteq> z) (ds @ r) = dropWhile (\<lambda>c. c \<noteq> z) r"
  using assms by (induction ds) (auto dest: digit_not_mark)

lemma take_all_digits:
  assumes "list_all is_digit ds" and "z \<in> {CHR ''e'', CHR ''.''}"
  shows "takeWhile (\<lambda>c. c \<noteq> z) ds = ds" and "dropWhile (\<lambda>c. c \<noteq> z) ds = []"
  using take_digits [OF assms, of "[]"] by simp_all

lemma list_all_take_drop:
  "list_all P xs \<Longrightarrow> list_all P (take n xs)" "list_all P xs \<Longrightarrow> list_all P (drop n xs)"
  by (auto simp: list_all_iff dest: in_set_takeD in_set_dropD)

lemma is_digit_0 [simp]: "is_digit CHR ''0''"
  by (simp add: is_digit_def)

lemma dec_val_expo:
  assumes "CHR ''e'' \<notin> set m"
  shows "dec_val (m @ ''e'' @ (if n - 1 < 0 then ''-'' else ''+'') @ pos_digits \<bar>n - 1\<bar>) =
    (let ip = takeWhile (\<lambda>c. c \<noteq> CHR ''.'') m; fp = drop 1 (dropWhile (\<lambda>c. c \<noteq> CHR ''.'') m)
     in of_int (digits_val (ip @ fp)) * rpow10 (n - 1 - int (length fp)))"
proof -
  have "digits_val (pos_digits \<bar>n - 1\<bar>) = \<bar>n - 1\<bar>" using pos_digits_props by simp
  moreover have "takeWhile (\<lambda>c. c \<noteq> CHR ''e'') (m @ CHR ''e'' # r) = m"
    and "dropWhile (\<lambda>c. c \<noteq> CHR ''e'') (m @ CHR ''e'' # r) = CHR ''e'' # r" for r
    using assms by (induction m) auto
  ultimately show ?thesis
    by (cases "n - 1 < 0") (simp_all add: dec_val_def Let_def numeral_2_eq_2)
qed

lemma dec_val_layout:
  assumes ds: "list_all is_digit ds" "ds \<noteq> []"
  shows "dec_val (layout ds n) = of_int (digits_val ds) * rpow10 (n - int (length ds))"
proof -
  note take [simp] = take_digits [OF ds(1)] take_digits [OF list_all_take_drop(1) [OF ds(1)]]
    take_all_digits [OF ds(1)] take_all_digits [OF list_all_take_drop(2) [OF ds(1)]]
    take_all_digits [OF list_all_take_drop(1) [OF ds(1)]]
  let ?k = "int (length ds)"
  have z: "list_all is_digit (replicate j CHR ''0'')" for j by (simp add: list_all_iff)
  have z1: "list_all is_digit (ds @ replicate j CHR ''0'')" for j using ds z by simp
  have z2: "list_all is_digit (replicate j CHR ''0'' @ ds)" for j using ds z by simp
  consider (whole) "?k \<le> n" "n \<le> 21" | (point) "n < ?k" "0 < n" "n \<le> 21"
    | (small) "n \<le> 0" "- 6 < n" | (expo) "21 < n \<or> n \<le> - 6" by linarith
  then show ?thesis
  proof cases
    case whole
    then show ?thesis
      using take_all_digits [OF z1 [of "nat (n - ?k)"]] rpow10_nat [of "nat (n - ?k)"]
      by (simp add: layout_def dec_val_def Let_def rpow10_def [of 0])
  next
    case point
    have "length (drop (nat n) ds) = length ds - nat n" by simp
    then show ?thesis
      using point by (simp add: layout_def dec_val_def Let_def of_nat_diff nat_le_iff)
  next
    case small
    have p: "layout ds n = ''0.'' @ replicate (nat (- n)) CHR ''0'' @ ds"
    proof -
      have "\<not> ?k \<le> n" using small ds(2) by (cases ds) auto
      then show ?thesis using small by (simp add: layout_def Let_def)
    qed
    have e: "takeWhile (\<lambda>c. c \<noteq> CHR ''e'') (layout ds n) = layout ds n"
      "dropWhile (\<lambda>c. c \<noteq> CHR ''e'') (layout ds n) = []"
      unfolding p using take_all_digits [OF z2 [of "nat (- n)"], of "CHR ''e''"] by simp_all
    have "digits_val (''0'' @ replicate (nat (- n)) CHR ''0'' @ ds) = digits_val ds"
      using digits_val_zeros_left [of "Suc (nat (- n))" ds] by simp
    then show ?thesis
      unfolding dec_val_def Let_def e using small by (simp add: p)
  next
    case expo
    have no_e: "CHR ''e'' \<notin> set ds"
      using ds(1) digit_not_mark by (auto simp: list_all_iff)
    show ?thesis
    proof (cases "length ds = 1")
      case True
      then have l: "layout ds n = ds @ ''e'' @ (if n - 1 < 0 then ''-'' else ''+'') @ pos_digits \<bar>n - 1\<bar>"
        using expo by (auto simp: layout_def Let_def)
      show ?thesis
        unfolding l dec_val_expo [OF no_e] using True by simp
    next
      case False
      let ?m = "take 1 ds @ ''.'' @ drop 1 ds"
      have l: "layout ds n = ?m @ ''e'' @ (if n - 1 < 0 then ''-'' else ''+'') @ pos_digits \<bar>n - 1\<bar>"
        using expo False by (auto simp: layout_def Let_def)
      have m: "CHR ''e'' \<notin> set ?m"
        using no_e by (auto dest: in_set_takeD in_set_dropD)
      have one: "0 < length ds" using ds(2) by simp
      have tk: "takeWhile (\<lambda>c. c \<noteq> CHR ''.'') ?m = take 1 ds"
        "drop 1 (dropWhile (\<lambda>c. c \<noteq> CHR ''.'') ?m) = drop 1 ds"
        by (simp_all del: take_Suc_Cons)
      show ?thesis
        unfolding l dec_val_expo [OF m] tk Let_def append_take_drop_id
        using one by (cases ds) (simp_all add: diff_diff_eq)
    qed
  qed
qed

subsection \<open>Printed numbers read back\<close>

lemma rpow_neg: "rpow2 (- int j) = 1 / 2 ^ j" "rpow10 (- int j) = 1 / 10 ^ j"
  by (simp_all add: rpow2_def rpow10_def)

lemma grid_exact:
  assumes "is_double q" and "e \<le> - 1074"
  shows "q / rpow10 e \<in> \<int>"
proof -
  obtain m where m: "q = of_int m * rpow2 (-1074)"
    using assms(1) by (rule is_double_grid)
  obtain N where N: "(1074 :: int) = int N" by (metis of_nat_numeral)
  define d where "d = nat (- 1074 - e)"
  have "int d = - 1074 - e" using assms(2) by (simp add: d_def)
  then have e: "e = - int (N + d)" unfolding of_nat_add N [symmetric] by linarith
  have "q / rpow10 e = of_int m / 2 ^ N * (2 ^ N * 5 ^ N * 10 ^ d)"
    unfolding m N e rpow_neg by (simp add: power_add flip: power_mult_distrib)
  also have "\<dots> = of_int (m * (5 ^ N * 10 ^ d))" by simp
  finally show ?thesis by (metis Ints_of_int)
qed

lemma find_digits_reads_back:
  "is_double q \<Longrightarrow> n - int k - int fuel \<le> - 1074 \<Longrightarrow>
    (case find_digits fuel k q n of (s, j) \<Rightarrow> to_double (of_int s * rpow10 (n - int j)) = Fin q)"
proof (induction fuel k q n rule: find_digits.induct)
  case (1 fuel k q n)
  define u where "u = rpow10 (n - int k)"
  define f where "f = \<lfloor>q / u\<rfloor>"
  show ?case
  proof (cases "to_double (of_int f * u) = Fin q \<or> to_double (of_int (f + 1) * u) = Fin q")
    case True
    then show ?thesis
      by (subst find_digits.simps) (auto simp: Let_def u_def [symmetric] f_def [symmetric])
  next
    case False
    have "fuel \<noteq> 0"
    proof
      assume "fuel = 0"
      then have e: "n - int k \<le> - 1074" using "1.prems" by simp
      have "q / u \<in> \<int>"
        unfolding u_def by (rule grid_exact [OF "1.prems"(1) e])
      then have "of_int f * u = q"
        unfolding f_def by (metis Ints_cases floor_of_int nonzero_divide_eq_eq rpow10_nonzero u_def)
      then show False using False "1.prems"(1) by (simp add: is_double_def)
    qed
    then have "(case find_digits (fuel - 1) (Suc k) q n of (s, j) \<Rightarrow>
        to_double (of_int s * rpow10 (n - int j)) = Fin q)"
      using 1 False u_def f_def by (intro "1.IH") auto
    then show ?thesis
      using False \<open>fuel \<noteq> 0\<close>
      by (subst find_digits.simps) (simp add: Let_def u_def [symmetric] f_def [symmetric])
  qed
qed

lemma strip_zeros_nonempty: "digits_val s \<noteq> 0 \<Longrightarrow> strip_zeros s \<noteq> []"
proof
  assume s: "digits_val s \<noteq> 0" and "strip_zeros s = []"
  then obtain j where "s = replicate j CHR ''0''" using strip_zeros_split [of s] by auto
  then have "digits_val s = 0" using digits_val_zeros [of "[]" j] by simp
  then show False using s by simp
qed

lemma to_double_nonneg:
  assumes "to_double x = Fin y" and "0 < x"
  shows "0 \<le> y"
proof -
  define u where "u = rpow2 (max (ilog2 \<bar>x\<bar>) (-1022) - 52)"
  have u: "0 < u" by (simp add: u_def)
  have y: "y = of_int (round_half_even (x / u)) * u"
    using assms by (simp add: to_double_def Let_def u_def split: if_splits)
  have "0 \<le> \<lfloor>x / u\<rfloor>" using assms(2) u by simp
  then have "0 \<le> round_half_even (x / u)" by (simp add: round_half_even_def Let_def)
  then show ?thesis using y u by simp
qed

lemma pos_str_reads_back:
  assumes q: "is_double q" "0 < q"
  shows "to_double (dec_val (pos_str q)) = Fin q"
    and "\<exists>ds n. pos_str q = layout ds n \<and> list_all is_digit ds \<and> ds \<noteq> []"
proof -
  define n where "n = dec_exp q"
  obtain s k where sk: "find_digits (nat (n + 1074)) (Suc 0) q n = (s, k)"
    by (cases "find_digits (nat (n + 1074)) (Suc 0) q n")
  have rb: "to_double (of_int s * rpow10 (n - int k)) = Fin q"
    using find_digits_reads_back [OF q(1), of n "Suc 0" "nat (n + 1074)"] sk by simp
  have s0: "s \<noteq> 0"
    using rb q(2) by auto
  have "0 \<le> s"
  proof (rule ccontr)
    assume "\<not> 0 \<le> s"
    then have neg: "of_int s * rpow10 (n - int k) < 0"
      by (simp add: mult_neg_pos)
    define x where "x = of_int s * rpow10 (n - int k)"
    have "to_double (- x) = Fin (- q)"
      using rb by (simp add: to_double_neg x_def)
    moreover have "0 < - x" using neg x_def by simp
    ultimately show False using to_double_nonneg [of "- x" "- q"] q(2) by simp
  qed
  define ds where "ds = pos_digits s"
  have ds: "digits_val ds = s" "list_all is_digit ds"
    using pos_digits_props [OF \<open>0 \<le> s\<close>] by (simp_all add: ds_def)
  obtain j where j: "ds = strip_zeros ds @ replicate j CHR ''0''"
    using strip_zeros_split by blast
  let ?t = "strip_zeros ds" and ?m = "n + int (length ds) - int k"
  have t: "list_all is_digit ?t" "?t \<noteq> []"
    using ds j strip_zeros_nonempty [of ds] s0 by (metis list_all_append, simp)
  have p: "pos_str q = layout ?t ?m"
    by (simp add: pos_str_def Let_def n_def [symmetric] sk ds_def)
  have "length ds = length ?t + j" using j by (metis length_append length_replicate)
  then have e: "?m - int (length ?t) = (n - int k) + int j" by simp
  have "s = digits_val ?t * 10 ^ j" using ds(1) j digits_val_zeros by metis
  then have "dec_val (pos_str q) = of_int s * rpow10 (n - int k)"
    unfolding p dec_val_layout [OF t] e by (simp add: rpow10_add rpow10_nat)
  then show "to_double (dec_val (pos_str q)) = Fin q" using rb by simp
  show "\<exists>ds n. pos_str q = layout ds n \<and> list_all is_digit ds \<and> ds \<noteq> []"
    using p t by blast
qed

definition num_char :: "char \<Rightarrow> bool" where
  "num_char c \<longleftrightarrow> is_digit c \<or> c \<in> {CHR ''.'', CHR ''e'', CHR ''+'', CHR ''-''}"

lemma layout_chars:
  assumes "list_all is_digit ds" and "ds \<noteq> []"
  shows "list_all num_char (layout ds n)" and "\<exists>c r. layout ds n = c # r \<and> is_digit c"
proof -
  have nc: "list_all num_char s" if "list_all is_digit s" for s
    using that by (auto simp: list_all_iff num_char_def)
  note sub = nc [OF list_all_take_drop(1) [OF assms(1)]] nc [OF list_all_take_drop(2) [OF assms(1)]]
    nc [OF assms(1)]
  have zs: "list_all num_char (replicate j CHR ''0'')" for j
    by (simp add: list_all_iff num_char_def)
  have "list_all num_char (pos_digits \<bar>n - 1\<bar>)"
    using pos_digits_props [of "\<bar>n - 1\<bar>"] nc by simp
  then show "list_all num_char (layout ds n)"
    using sub zs by (auto simp: layout_def Let_def num_char_def [of "CHR ''.''"]
        num_char_def [of "CHR ''e''"] num_char_def [of "CHR ''+''"] num_char_def [of "CHR ''-''"]
        num_char_def [of "CHR ''0''"])
  obtain c r where c: "ds = c # r" "is_digit c" using assms by (cases ds) auto
  have tk: "0 < n \<Longrightarrow> \<exists>m. nat n = Suc m" by (metis gr0_implies_Suc zero_less_nat_eq)
  show "\<exists>c r. layout ds n = c # r \<and> is_digit c"
    using c tk by (auto simp: layout_def Let_def)
qed

lemma num_str_inj:
  assumes "is_double q" and "is_double r" and "num_str (Fin q) = num_str (Fin r)"
  shows "q = r"
proof -
  have pos: "x = y" if "is_double x" "is_double y" "0 < x" "0 < y" "pos_str x = pos_str y" for x y
    using pos_str_reads_back(1) [OF that(1,3)] pos_str_reads_back(1) [OF that(2,4)] that(5)
    by (metis jsnum.inject)
  have first: "\<exists>c s. pos_str x = c # s \<and> is_digit c" if "is_double x" "0 < x" for x
    using pos_str_reads_back(2) [OF that] layout_chars(2) by metis
  have nonzero: "pos_str x \<noteq> ''0''" if "is_double x" "0 < x" for x
  proof
    assume "pos_str x = ''0''"
    then have "dec_val (pos_str x) = 0"
      using digits_val_zeros [of "[]" 1] by (simp add: dec_val_def Let_def)
    then show False using pos_str_reads_back(1) [OF that] that(2) by simp
  qed
  have minus: "\<not> is_digit CHR ''-''" "CHR ''-'' \<noteq> CHR ''0''" by (simp_all add: is_digit_def)
  have no_minus: "pos_str x \<noteq> CHR ''-'' # s" if "is_double x" "0 < x" for x s
    using first [OF that] minus(1) by auto
  consider "q = 0" | "0 < q" | "q < 0" by linarith
  then show ?thesis
  proof cases
    case 1
    then show ?thesis
      using assms nonzero [of r] by (cases "r < 0"; cases "r = 0") auto
  next
    case 2
    then show ?thesis
      using assms nonzero [of q] pos [of q r] no_minus [of q "pos_str (- r)"]
      by (cases "r < 0"; cases "r = 0") auto
  next
    case 3
    then show ?thesis
      using assms pos [of "- q" "- r"] no_minus [of r "pos_str (- q)"] is_double_neg [of q] is_double_neg [of r]
      by (cases "r < 0"; cases "r = 0") auto
  qed
qed

lemma num_str_shape:
  assumes "is_double q"
  shows "list_all num_char (num_str (Fin q))"
    and "\<exists>c s. num_str (Fin q) = c # s \<and> (is_digit c \<or> c = CHR ''-'')"
proof -
  have pos: "list_all num_char (pos_str x) \<and> (\<exists>c s. pos_str x = c # s \<and> is_digit c)"
    if x: "is_double x" "0 < x" for x
  proof -
    obtain ds n where "pos_str x = layout ds n" "list_all is_digit ds" "ds \<noteq> []"
      using pos_str_reads_back(2) [OF x] by blast
    then show ?thesis using layout_chars by simp
  qed
  show "list_all num_char (num_str (Fin q))"
    and "\<exists>c s. num_str (Fin q) = c # s \<and> (is_digit c \<or> c = CHR ''-'')"
    using pos [of q] pos [of "- q"] is_double_neg [OF assms] assms
    by (auto simp: num_char_def)
qed

subsection \<open>Equal texts come from equal values\<close>

text \<open>A decoder for one escaped character: the escapes are self-delimiting.\<close>

definition hex_val :: "char \<Rightarrow> nat" where
  "hex_val c = (if (of_char c :: nat) < 97 then of_char c - 48 else of_char c - 87)"

definition unescape :: "string \<Rightarrow> char \<times> string" where
  "unescape s =
     (if hd s = CHR 0x5C then
        (let e = hd (tl s); r = tl (tl s) in
         if e = CHR ''u'' then (char_of (16 * hex_val (r ! 2) + hex_val (r ! 3)), drop 4 r)
         else if e = CHR ''b'' then (CHR 0x08, r) else if e = CHR ''t'' then (CHR 0x09, r)
         else if e = CHR ''n'' then (CHR 0x0A, r) else if e = CHR ''f'' then (CHR 0x0C, r)
         else if e = CHR ''r'' then (CHR 0x0D, r) else (e, r))
      else (hd s, tl s))"

lemma char_eq_of_nat: "c = d \<longleftrightarrow> (of_char c :: nat) = of_char d"
  by simp

lemma hex_val_hex_digit: "d < 16 \<Longrightarrow> hex_val (hex_digit d) = d"
  by (auto simp: hex_val_def hex_digit_def)

lemma unescape_escape: "unescape (escape_char c @ s) = (c, s)"
proof -
  let ?n = "of_char c :: nat"
  consider "?n = 34" | "?n = 92" | "?n = 8" | "?n = 9" | "?n = 10" | "?n = 12" | "?n = 13"
    | (ctrl) "?n < 32" "?n \<notin> {8, 9, 10, 12, 13}"
    | (plain) "32 \<le> ?n" "?n \<noteq> 34" "?n \<noteq> 92"
    by force
  then show ?thesis
  proof cases
    case ctrl
    have "?n div 16 < 16" "?n mod 16 < 16" using ctrl by auto
    then have "char_of (16 * hex_val (hex_digit (?n div 16)) + hex_val (hex_digit (?n mod 16))) = c"
      by (simp add: hex_val_hex_digit)
    then show ?thesis using ctrl
      by (auto simp: escape_char_def Let_def unescape_def)
  next
    case plain
    then have "c \<noteq> CHR 0x5C" by auto
    then show ?thesis using plain by (simp add: escape_char_def Let_def unescape_def)
  qed (auto simp: escape_char_def Let_def unescape_def char_eq_of_nat)
qed

lemma escape_first: "\<exists>d r. escape_char c = d # r \<and> d \<noteq> CHR 0x22"
  by (auto simp: escape_char_def Let_def)

lemma quote_inj_prefix: "quote s @ x = quote t @ y \<Longrightarrow> s = t \<and> x = y"
proof -
  have "concat (map escape_char s) @ CHR 0x22 # x = concat (map escape_char t) @ CHR 0x22 # y
      \<Longrightarrow> s = t \<and> x = y"
  proof (induction s arbitrary: t)
    case Nil
    then show ?case using escape_first by (cases t) (auto, metis list.inject append_Cons)
  next
    case (Cons c s)
    show ?case
    proof (cases t)
      case Nil
      then show ?thesis using Cons.prems escape_first [of c] by auto
    next
      case t: (Cons d u)
      let ?x = "concat (map escape_char s) @ CHR 0x22 # x"
      let ?y = "concat (map escape_char u) @ CHR 0x22 # y"
      have "escape_char c @ ?x = escape_char d @ ?y" using Cons.prems t by simp
      then have "(c, ?x) = (d, ?y)" by (metis unescape_escape)
      then show ?thesis using Cons.IH [of u] t by simp
    qed
  qed
  then show "quote s @ x = quote t @ y \<Longrightarrow> s = t \<and> x = y" by (simp add: quote_def)
qed

definition delim :: "string \<Rightarrow> bool" where
  "delim s \<longleftrightarrow> s = [] \<or> hd s \<in> {CHR '','', CHR '']'', CHR ''}''}"

definition opens :: "string \<Rightarrow> bool" where
  "opens s \<longleftrightarrow> (\<exists>c r. s = c # r \<and> c \<notin> {CHR '','', CHR '']'', CHR ''}''})"

lemma delim_simps [simp]: "delim []" "delim (CHR '','' # s)" "delim (CHR '']'' # s)" "delim (CHR ''}'' # s)"
  by (simp_all add: delim_def)

lemma join_with_Cons:
  "join_with sep (w # ws) = w @ (if ws = [] then [] else sep @ join_with sep ws)"
  by (cases ws) auto

lemma join_inj_prefix:
  assumes z: "z \<in> {CHR '']'', CHR ''}''}"
    and elem: "\<And>v w x y. v \<in> set vs \<Longrightarrow> w \<in> set ws \<Longrightarrow> delim x \<Longrightarrow> delim y \<Longrightarrow>
      f v @ x = f w @ y \<Longrightarrow> v = w \<and> x = y"
    and first: "\<And>v. v \<in> set vs \<union> set ws \<Longrightarrow> opens (f v)"
    and eq: "join_with '','' (map f vs) @ z # s = join_with '','' (map f ws) @ z # t"
  shows "vs = ws \<and> s = t"
  using elem first eq
proof (induction vs arbitrary: ws)
  case Nil
  show ?case
  proof (cases ws)
    case (Cons w ws')
    then obtain c r where "f w = c # r" "c \<notin> {CHR '','', CHR '']'', CHR ''}''}"
      using Nil.prems(2) [of w] by (auto simp: opens_def)
    then show ?thesis using Nil.prems(3) Cons z by (auto simp: join_with_Cons)
  qed (use Nil.prems in simp)
next
  case (Cons v vs)
  show ?case
  proof (cases ws)
    case Nil
    obtain c r where "f v = c # r" "c \<notin> {CHR '','', CHR '']'', CHR ''}''}"
      using Cons.prems(2) [of v] by (auto simp: opens_def)
    then show ?thesis using Cons.prems(3) Nil z by (auto simp: join_with_Cons)
  next
    case ws: (Cons w ws')
    let ?r = "\<lambda>us x. if us = [] then z # x else CHR '','' # join_with '','' (map f us) @ z # x"
    have d: "delim (?r us x)" for us x using z by auto
    have "f v @ ?r vs s = f w @ ?r ws' t"
      using Cons.prems(3) ws by (auto simp: join_with_Cons)
    then have vw: "v = w" and r: "?r vs s = ?r ws' t"
      using Cons.prems(1) [of v w "?r vs s" "?r ws' t"] d ws by auto
    have "vs = ws' \<and> s = t"
    proof (cases "vs = [] \<or> ws' = []")
      case True
      then show ?thesis using r z by (auto split: if_splits)
    next
      case False
      then have "join_with '','' (map f vs) @ z # s = join_with '','' (map f ws') @ z # t"
        using r by simp
      show ?thesis
      proof (rule Cons.IH)
        fix a b x y
        assume "a \<in> set vs" "b \<in> set ws'" "delim x" "delim y" "f a @ x = f b @ y"
        then show "a = b \<and> x = y" using Cons.prems(1) [of a b x y] ws by simp
      next
        fix a
        assume "a \<in> set vs \<union> set ws'"
        then show "opens (f a)" using Cons.prems(2) [of a] ws by auto
      qed (use False r in simp)
    qed
    then show ?thesis using vw ws by simp
  qed
qed

lemma digit_no_delim: "is_digit c \<or> c = CHR ''-'' \<Longrightarrow>
  c \<notin> {CHR '','', CHR '']'', CHR ''}'', CHR ''n'', CHR ''t'', CHR ''f'', CHR 0x22, CHR ''['', CHR ''{''}"
  by (auto simp: is_digit_def)

lemma stringify_opens: "json_ok v \<Longrightarrow> opens (stringify v)"
proof (cases v)
  case (JNum n)
  then show "json_ok v \<Longrightarrow> opens (stringify v)"
    using num_str_shape(2) digit_no_delim by (cases n) (fastforce simp: opens_def simp del: num_str.simps)+
qed (auto simp: opens_def quote_def)

lemma num_prefix:
  assumes "list_all num_char a" "list_all num_char b" "delim s" "delim t" "a @ s = b @ t"
  shows "a = b \<and> s = t"
proof -
  have nd: "\<not> num_char c" if "c \<in> {CHR '','', CHR '']'', CHR ''}''}" for c
    using that by (auto simp: num_char_def is_digit_def)
  have tk: "takeWhile num_char (u @ x) = u" if "list_all num_char u" "delim x" for u x
    using that nd by (cases x) (auto simp: delim_def list_all_iff takeWhile_tail)
  show ?thesis using tk [OF assms(1,3)] tk [OF assms(2,4)] assms(5) by (metis same_append_eq)
qed

definition entry_str :: "string \<times> json \<Rightarrow> string" where
  "entry_str kv = quote (fst kv) @ '':'' @ stringify (snd kv)"

lemma stringify_obj: "stringify (JObj kvs) = ''{'' @ join_with '','' (map entry_str kvs) @ ''}''"
  by (simp add: entry_str_def [abs_def])

text \<open>The first character of a text tells the kind of value.\<close>

fun kind :: "json \<Rightarrow> nat" where
  "kind JNull = 0"
| "kind (JBool b) = (if b then 1 else 2)"
| "kind (JStr s) = 3"
| "kind (JArr vs) = 4"
| "kind (JObj kvs) = 5"
| "kind (JNum n) = 6"

definition first_kind :: "char \<Rightarrow> nat" where
  "first_kind c =
     (if c = CHR ''n'' then 0 else if c = CHR ''t'' then 1 else if c = CHR ''f'' then 2
      else if c = CHR 0x22 then 3 else if c = CHR ''['' then 4 else if c = CHR ''{'' then 5 else 6)"

lemma stringify_kind:
  assumes "json_ok v"
  shows "\<exists>c r. stringify v = c # r \<and> first_kind c = kind v"
proof (cases v)
  case (JNum n)
  then obtain q where q: "n = Fin q" "is_double q" using assms by (cases n) auto
  obtain c r where c: "num_str (Fin q) = c # r" "is_digit c \<or> c = CHR ''-''"
    using num_str_shape(2) [OF q(2)] by blast
  then have "first_kind c = 6" using digit_no_delim [OF c(2)] by (auto simp: first_kind_def)
  then show ?thesis using JNum q c by (simp del: num_str.simps)
qed (auto simp: first_kind_def quote_def)

lemma stringify_same_kind:
  assumes "json_ok v" "json_ok w" "stringify v @ s = stringify w @ t"
  shows "kind v = kind w"
  using stringify_kind [OF assms(1)] stringify_kind [OF assms(2)] assms(3) by auto

lemma stringify_inj_prefix:
  "json_ok v \<Longrightarrow> json_ok w \<Longrightarrow> delim s \<Longrightarrow> delim t \<Longrightarrow> stringify v @ s = stringify w @ t \<Longrightarrow>
    v = w \<and> s = t"
proof (induction v arbitrary: w s t)
  case JNull
  then show ?case using stringify_same_kind [of JNull w s t] by (cases w) (auto split: if_splits)
next
  case (JBool b)
  then show ?case
    using stringify_same_kind [of "JBool b" w s t] by (cases w) (auto split: if_splits)
next
  case (JNum n)
  then obtain p where w: "w = JNum p"
    using stringify_same_kind [OF JNum.prems(1,2,5)] by (cases w) (auto split: if_splits)
  obtain q r where n: "n = Fin q" "is_double q" "p = Fin r" "is_double r"
    using JNum.prems(1,2) w by (cases n; cases p) auto
  have "num_str (Fin q) = num_str (Fin r) \<and> s = t"
    using JNum.prems(3,4,5) n w num_prefix [OF num_str_shape(1) num_str_shape(1)]
    by (simp del: num_str.simps)
  then show ?case using num_str_inj n w by blast
next
  case (JStr x)
  then obtain y where w: "w = JStr y"
    using stringify_same_kind [OF JStr.prems(1,2,5)] by (cases w) (auto split: if_splits)
  then show ?case using JStr.prems(5) quote_inj_prefix [of x s y t] by simp
next
  case (JArr vs)
  then obtain ws where w: "w = JArr ws"
    using stringify_same_kind [OF JArr.prems(1,2,5)] by (cases w) (auto split: if_splits)
  have "vs = ws \<and> s = t"
  proof (rule join_inj_prefix [of "CHR '']''" vs ws stringify])
    show "opens (stringify v)" if "v \<in> set vs \<union> set ws" for v
      using that JArr.prems(1,2) w by (auto simp: list_all_iff intro: stringify_opens)
    show "a = b \<and> x = y"
      if "a \<in> set vs" "b \<in> set ws" "delim x" "delim y" "stringify a @ x = stringify b @ y" for a b x y
      using that JArr.prems(1,2) w by (intro JArr.IH) (auto simp: list_all_iff)
  qed (use JArr.prems(5) w in auto)
  then show ?case using w by simp
next
  case (JObj kvs)
  then obtain lws where w: "w = JObj lws"
    using stringify_same_kind [OF JObj.prems(1,2,5)] by (cases w) (auto split: if_splits)
  have "kvs = lws \<and> s = t"
  proof (rule join_inj_prefix [of "CHR ''}''" kvs lws entry_str])
    show "opens (entry_str kv)" for kv
      by (simp add: opens_def entry_str_def quote_def)
    show "kv = lw \<and> x = y"
      if "kv \<in> set kvs" "lw \<in> set lws" "delim x" "delim y" "entry_str kv @ x = entry_str lw @ y"
      for kv lw x y
    proof -
      have k: "fst kv = fst lw" and r: "stringify (snd kv) @ x = stringify (snd lw) @ y"
        using quote_inj_prefix [of "fst kv" _ "fst lw"] that(5) by (auto simp: entry_str_def)
      have "json_ok (snd kv)" "json_ok (snd lw)"
        using that(1,2) JObj.prems(1,2) w by (auto simp: list_all_iff)
      moreover have "snd kv \<in> Basic_BNFs.snds kv" by (cases kv) (simp add: snds.intros)
      ultimately have "snd kv = snd lw \<and> x = y"
        using JObj.IH [OF that(1)] that(3,4) r by blast
      then show ?thesis using k by (simp add: prod_eq_iff)
    qed
  qed (use JObj.prems(5) w in \<open>auto simp: stringify_obj simp del: stringify.simps\<close>)
  then show ?case using w by simp
qed

text \<open>Two values have the same text exactly when they are the same value.\<close>

theorem stringify_inj: "json_ok v \<Longrightarrow> json_ok w \<Longrightarrow> stringify v = stringify w \<longleftrightarrow> v = w"
  using stringify_inj_prefix [of v w "[]" "[]"] by auto

end
