(* ===== verification/Js_Date.thy ===== *)
theory Js_Date
  imports Js_Text
begin

text \<open>
  Instants and calendar arithmetic of the runtime (\<open>Date\<close>, \<open>Date.UTC\<close>, \<open>toISOString\<close>,
  \<open>Intl.DateTimeFormat\<close>) and \<open>src/composite/temporal.ts\<close>, which converts between instants and
  wall-clock times of a time zone.
\<close>

subsection \<open>Instants\<close>

text \<open>
  A timestamp of a validated record: its text and the instant \<open>Date.parse\<close> reads from it, in
  milliseconds since the epoch.
\<close>

datatype timestamp = Ts (ts_text: string) (ts_ms: int)

text \<open>\<open>TimeClip\<close>: \<open>None\<close> is the invalid date.\<close>

definition max_time :: int where
  "max_time = 8640000000000000"

definition time_clip :: "int \<Rightarrow> int option" where
  "time_clip t = (if \<bar>t\<bar> \<le> max_time then Some t else None)"

definition ms_per_day :: int where
  "ms_per_day = 86400000"

text \<open>Days since the epoch of a proleptic Gregorian date and back, by eras of 400 years.\<close>

definition days_from_civil :: "int \<Rightarrow> int \<Rightarrow> int \<Rightarrow> int" where
  "days_from_civil y m d =
     (let y' = (if m \<le> 2 then y - 1 else y);
          era = y' div 400;
          yoe = y' - era * 400;
          doy = (153 * (if m > 2 then m - 3 else m + 9) + 2) div 5 + d - 1;
          doe = yoe * 365 + yoe div 4 - yoe div 100 + doy
      in era * 146097 + doe - 719468)"

definition civil_from_days :: "int \<Rightarrow> int \<times> int \<times> int" where
  "civil_from_days z =
     (let z' = z + 719468;
          era = z' div 146097;
          doe = z' - era * 146097;
          yoe = (doe - doe div 1460 + doe div 36524 - doe div 146096) div 365;
          doy = doe - (365 * yoe + yoe div 4 - yoe div 100);
          mp = (5 * doy + 2) div 153;
          d = doy - (153 * mp + 2) div 5 + 1;
          m = (if mp < 10 then mp + 3 else mp - 9)
      in (yoe + era * 400 + (if m \<le> 2 then 1 else 0), m, d))"

text \<open>\<open>Date.UTC(year, month - 1, day, hour, minute, second, 0)\<close> on fields in range.\<close>

definition date_utc :: "int \<Rightarrow> int \<Rightarrow> int \<Rightarrow> int \<Rightarrow> int \<Rightarrow> int \<Rightarrow> int" where
  "date_utc y m d h mi s =
     days_from_civil y m d * ms_per_day + h * 3600000 + mi * 60000 + s * 1000"

definition iso_text :: "int \<Rightarrow> string" where
  "iso_text ms =
     (let (y, m, d) = civil_from_days (ms div ms_per_day);
          r = ms mod ms_per_day;
          two = (\<lambda>n. pad0 2 (int_str n));
          year = (if 0 \<le> y \<and> y \<le> 9999 then pad0 4 (int_str y)
                  else (if y < 0 then ''-'' else ''+'') @ pad0 6 (int_str \<bar>y\<bar>))
      in year @ ''-'' @ two m @ ''-'' @ two d @ ''T'' @ two (r div 3600000) @ '':'' @
         two (r div 60000 mod 60) @ '':'' @ two (r div 1000 mod 60) @ ''.'' @
         pad0 3 (int_str (r mod 1000)) @ ''Z'')"

definition range_error :: "string \<Rightarrow> js_error" where
  "range_error m = JsError KRangeError None m"

definition toISOString :: "int option \<Rightarrow> js_error + timestamp" where
  "toISOString t = (case t of None \<Rightarrow> Inl (range_error ''Invalid time value'')
     | Some ms \<Rightarrow> Inr (Ts (iso_text ms) ms))"

subsection \<open>Wall-clock time of a zone\<close>

text \<open>
  What \<open>Intl.DateTimeFormat('en-CA', {timeZone, ...}).formatToParts\<close> yields: the numeric
  parts as digit strings and the short weekday name. The time zone data base is not part of
  the program; it is an argument, \<open>None\<close> for a zone name it rejects.
\<close>

record raw_parts =
  raw_year :: string
  raw_month :: string
  raw_day :: string
  raw_hour :: string
  raw_minute :: string
  raw_second :: string
  raw_weekday :: string

type_synonym zone_data = "string \<Rightarrow> int \<Rightarrow> raw_parts option"

record zoned_parts =
  zp_year :: int
  zp_month :: int
  zp_day :: int
  zp_hour :: int
  zp_minute :: int
  zp_second :: int
  zp_weekday :: "int option"
  zp_date :: string

definition WEEKDAY_TO_ISO :: "(string \<times> int) list" where
  "WEEKDAY_TO_ISO = [(''Mon'', 1), (''Tue'', 2), (''Wed'', 3), (''Thu'', 4), (''Fri'', 5),
     (''Sat'', 6), (''Sun'', 7)]"

definition zonedParts :: "zone_data \<Rightarrow> int option \<Rightarrow> string \<Rightarrow> js_error + zoned_parts" where
  "zonedParts zones date timeZone =
     (case date of None \<Rightarrow> Inl (range_error ''Invalid time value'')
      | Some t \<Rightarrow> (case zones timeZone t of None \<Rightarrow> Inl (range_error ''Invalid time zone'')
        | Some raw \<Rightarrow>
            let year = digits_val (raw_year raw); month = digits_val (raw_month raw);
                day = digits_val (raw_day raw)
            in Inr \<lparr>zp_year = year, zp_month = month, zp_day = day,
                 zp_hour = digits_val (raw_hour raw), zp_minute = digits_val (raw_minute raw),
                 zp_second = digits_val (raw_second raw),
                 zp_weekday = map_of WEEKDAY_TO_ISO (raw_weekday raw),
                 zp_date = pad0 4 (int_str year) @ ''-'' @ pad0 2 (int_str month) @ ''-'' @
                   pad0 2 (int_str day)\<rparr>))"

text \<open>\<open>value.split(':').map(Number)\<close> of a clock time, which the schema holds to \<open>HH:MM\<close>.\<close>

definition clock_hm :: "string \<Rightarrow> int \<times> int" where
  "clock_hm clock = (case split_on CHR '':'' clock of
     h # m # _ \<Rightarrow> (digits_val h, digits_val m) | _ \<Rightarrow> (0, 0))"

text \<open>The correction loop of \<open>localDateTimeToUtc\<close>: at most four attempts.\<close>

fun local_correct :: "zone_data \<Rightarrow> string \<Rightarrow> int \<Rightarrow> nat \<Rightarrow> int \<Rightarrow> js_error + int" where
  "local_correct zones timeZone desired 0 guess = Inr guess"
| "local_correct zones timeZone desired (Suc attempts) guess =
     (case zonedParts zones (time_clip guess) timeZone of Inl e \<Rightarrow> Inl e
      | Inr actual \<Rightarrow>
          let actualAsUtc = date_utc (zp_year actual) (zp_month actual) (zp_day actual)
                (zp_hour actual) (zp_minute actual) (zp_second actual);
              delta = desired - actualAsUtc
          in if delta = 0 then Inr guess
             else local_correct zones timeZone desired attempts (guess + delta))"

definition localDateTimeToUtc ::
  "zone_data \<Rightarrow> int \<Rightarrow> int \<Rightarrow> int \<Rightarrow> string \<Rightarrow> string \<Rightarrow> js_error + int option"
where
  "localDateTimeToUtc zones year month day clock timeZone =
     (let (hour, minute) = clock_hm clock;
          desired = date_utc year month day hour minute 0
      in case local_correct zones timeZone desired 4 desired of
           Inl e \<Rightarrow> Inl e | Inr t \<Rightarrow> Inr (time_clip t))"

subsection \<open>The conversion inverts the zone\<close>

definition parts_utc :: "zoned_parts \<Rightarrow> int" where
  "parts_utc p = date_utc (zp_year p) (zp_month p) (zp_day p) (zp_hour p) (zp_minute p) (zp_second p)"

lemma local_correct_done:
  assumes "zonedParts zones (time_clip t) tz = Inr p" and "parts_utc p = desired"
  shows "local_correct zones tz desired n t = Inr t"
  using assms by (cases n) (auto simp: parts_utc_def Let_def)

lemma local_correct_step:
  assumes "zonedParts zones (time_clip t) tz = Inr p" and "parts_utc p \<noteq> desired"
  shows "local_correct zones tz desired (Suc n) t =
    local_correct zones tz desired n (t + (desired - parts_utc p))"
  using assms by (auto simp: parts_utc_def Let_def)

text \<open>
  When the loop leaves early, the instant it leaves with shows the requested wall clock.
\<close>

lemma local_correct_sound:
  assumes "local_correct zones tz desired n g = Inr t"
  shows "(\<exists>p. zonedParts zones (time_clip t) tz = Inr p \<and> parts_utc p = desired) \<or>
    (\<exists>gs. length gs = n \<and> (\<forall>u \<in> set gs. \<exists>p. zonedParts zones (time_clip u) tz = Inr p \<and> parts_utc p \<noteq> desired))"
  using assms
proof (induction n arbitrary: g)
  case 0
  then show ?case by simp
next
  case (Suc n)
  then obtain p where p: "zonedParts zones (time_clip g) tz = Inr p"
    by (auto split: sum.splits)
  show ?case
  proof (cases "parts_utc p = desired")
    case True
    then have "t = g" using Suc.prems local_correct_done [OF p True, of "Suc n"] by simp
    then show ?thesis using p True by blast
  next
    case False
    then have "local_correct zones tz desired n (g + (desired - parts_utc p)) = Inr t"
      using Suc.prems local_correct_step [OF p False, of n] by simp
    from Suc.IH [OF this] show ?thesis
    proof (elim disjE exE)
      fix gs
      assume "length gs = n \<and> (\<forall>u \<in> set gs. \<exists>p. zonedParts zones (time_clip u) tz = Inr p \<and> parts_utc p \<noteq> desired)"
      then have "length (g # gs) = Suc n \<and>
          (\<forall>u \<in> set (g # gs). \<exists>p. zonedParts zones (time_clip u) tz = Inr p \<and> parts_utc p \<noteq> desired)"
        using p False by auto
      then show ?thesis by blast
    qed blast
  qed
qed

text \<open>
  The conversion of a local time returns an instant at which the zone shows that local
  time, unless four successive corrections all missed it, as for a local time that a clock
  change skips.
\<close>

theorem localDateTimeToUtc_sound:
  assumes "localDateTimeToUtc zones y m d clock tz = Inr (Some t)" and "clock_hm clock = (hh, mm)"
  shows "(\<exists>p. zonedParts zones (Some t) tz = Inr p \<and> parts_utc p = date_utc y m d hh mm 0) \<or>
    (\<exists>gs. length gs = 4 \<and> (\<forall>g \<in> set gs. \<exists>p. zonedParts zones (time_clip g) tz = Inr p \<and>
       parts_utc p \<noteq> date_utc y m d hh mm 0))"
proof -
  obtain u where u: "local_correct zones tz (date_utc y m d hh mm 0) 4 (date_utc y m d hh mm 0) = Inr u"
    and t: "time_clip u = Some t"
    using assms by (auto simp: localDateTimeToUtc_def Let_def split: sum.splits)
  then show ?thesis using local_correct_sound [OF u] by simp
qed

end
