(* ===== verification/Store_Table.thy ===== *)
theory Store_Table
  imports Js_Date
begin

text \<open>
  The tables of \<open>scripts/lib/persistent-event-store.mjs\<close>. A table is a \<open>Map\<close> in memory and a
  file of JSON lines; a write puts the record into the map and appends its line, \<open>init\<close> reads
  the lines back in order, \<open>compactMutableState\<close> replaces the file by one line per entry. The
  locale states what a table owes to its readers, and its lemmas hold for every table.
\<close>

text \<open>A map and its file. A line is what \<open>JSON.parse\<close> makes of it.\<close>

record ('k, 'r, 'l) table =
  tab_map :: "('k \<times> 'r) list"
  tab_file :: "'l list"

definition tab_get :: "('k, 'r, 'l) table \<Rightarrow> 'k \<Rightarrow> 'r option" where
  "tab_get t k = map_of (tab_map t) k"

definition tab_put :: "'k \<Rightarrow> 'r \<Rightarrow> 'l \<Rightarrow> ('k, 'r, 'l) table \<Rightarrow> ('k, 'r, 'l) table" where
  "tab_put k r l t = \<lparr>tab_map = map_put k r (tab_map t), tab_file = tab_file t @ [l]\<rparr>"

definition tab_remove :: "'k \<Rightarrow> 'l \<Rightarrow> ('k, 'r, 'l) table \<Rightarrow> ('k, 'r, 'l) table" where
  "tab_remove k l t = \<lparr>tab_map = filter (\<lambda>e. fst e \<noteq> k) (tab_map t), tab_file = tab_file t @ [l]\<rparr>"

definition tab_values :: "('k, 'r, 'l) table \<Rightarrow> 'r list" where
  "tab_values t = map snd (tab_map t)"

definition tab_compact :: "('r \<Rightarrow> 'l) \<Rightarrow> ('k, 'r, 'l) table \<Rightarrow> ('k, 'r, 'l) table" where
  "tab_compact line t = t\<lparr>tab_file := map line (tab_values t)\<rparr>"

text \<open>The loop of \<open>init\<close> over the lines, whose body \<open>load\<close> may throw.\<close>

fun load_all :: "('l \<Rightarrow> 'm \<Rightarrow> js_error + 'm) \<Rightarrow> 'l list \<Rightarrow> 'm \<Rightarrow> js_error + 'm" where
  "load_all load [] m = Inr m"
| "load_all load (l # ls) m = (case load l m of Inl e \<Rightarrow> Inl e | Inr m' \<Rightarrow> load_all load ls m')"

definition tab_init ::
  "('l \<Rightarrow> ('k \<times> 'r) list \<Rightarrow> js_error + ('k \<times> 'r) list) \<Rightarrow> 'l list \<Rightarrow> js_error + ('k, 'r, 'l) table"
where
  "tab_init load file = (case load_all load file [] of Inl e \<Rightarrow> Inl e
     | Inr m \<Rightarrow> Inr \<lparr>tab_map = m, tab_file = file\<rparr>)"

lemma load_all_append:
  "load_all load (xs @ ys) m = (case load_all load xs m of Inl e \<Rightarrow> Inl e | Inr m' \<Rightarrow> load_all load ys m')"
  by (induction xs arbitrary: m) (auto split: sum.splits)

lemma tab_get_put [simp]: "tab_get (tab_put k r l t) = (tab_get t)(k \<mapsto> r)"
  by (simp add: tab_get_def tab_put_def map_of_map_put fun_eq_iff)

lemma tab_get_remove [simp]: "tab_get (tab_remove k l t) = (tab_get t)(k := None)"
proof -
  have "map_of (filter (\<lambda>e. fst e \<noteq> k) m) = (map_of m)(k := None)" for m :: "('a \<times> 'b) list"
    by (induction m) (auto simp: fun_eq_iff)
  then show ?thesis by (simp add: tab_get_def tab_remove_def fun_eq_iff)
qed

lemma tab_get_compact [simp]: "tab_get (tab_compact line t) = tab_get t"
  by (simp add: tab_get_def tab_compact_def fun_eq_iff)

lemma map_put_new: "k \<notin> fst ` set m \<Longrightarrow> map_put k v m = m @ [(k, v)]"
  by (induction m rule: map_put.induct) auto

lemma tab_values_put: "set (tab_values (tab_put k r l t)) \<subseteq> insert r (set (tab_values t))"
  using set_map_put [of k r "tab_map t"] by (auto simp: tab_values_def tab_put_def)

lemma tab_values_get: "distinct (map fst (tab_map t)) \<Longrightarrow> r \<in> set (tab_values t) \<longleftrightarrow> (\<exists>k. tab_get t k = Some r)"
  by (force simp: tab_values_def tab_get_def image_iff dest: map_of_SomeD)

text \<open>
  A table whose lines can be read back: \<open>load\<close> is the body of the loop of \<open>init\<close>, \<open>valid\<close> the
  records that are written, \<open>key\<close> their place in the map.
\<close>

locale durable_table =
  fixes key :: "'r \<Rightarrow> 'k"
    and valid :: "'r \<Rightarrow> bool"
    and line :: "'r \<Rightarrow> 'l"
    and load :: "'l \<Rightarrow> ('k \<times> 'r) list \<Rightarrow> js_error + ('k \<times> 'r) list"
  assumes load_line: "valid r \<Longrightarrow> load (line r) m = Inr (map_put (key r) r m)"
begin

text \<open>What a crash may not change: reading the file gives the map, entry order included.\<close>

definition durable :: "('k, 'r, 'l) table \<Rightarrow> bool" where
  "durable t \<longleftrightarrow> load_all load (tab_file t) [] = Inr (tab_map t) \<and> distinct (map fst (tab_map t)) \<and>
     (\<forall>e \<in> set (tab_map t). fst e = key (snd e) \<and> valid (snd e))"

lemma durable_init: "durable t \<Longrightarrow> tab_init load (tab_file t) = Inr t"
  by (simp add: durable_def tab_init_def)

lemma durable_empty: "durable \<lparr>tab_map = [], tab_file = []\<rparr>"
  by (simp add: durable_def)

lemma durable_put:
  assumes "durable t" and "valid r" and "k = key r"
  shows "durable (tab_put k r (line r) t)"
  using assms set_map_put [of k r "tab_map t"]
  by (fastforce simp: durable_def tab_put_def load_line load_all_append distinct_map_put)

lemma durable_remove:
  assumes "durable t" and "\<And>m. load l m = Inr (filter (\<lambda>e. fst e \<noteq> k) m)"
  shows "durable (tab_remove k l t)"
  using assms by (auto simp: durable_def tab_remove_def load_all_append distinct_map_filter)

lemma load_lines:
  "distinct (map fst (m @ es)) \<Longrightarrow> \<forall>e \<in> set es. fst e = key (snd e) \<and> valid (snd e) \<Longrightarrow>
     load_all load (map (line \<circ> snd) es) m = Inr (m @ es)"
proof (induction es arbitrary: m)
  case (Cons e es)
  then have "load (line (snd e)) m = Inr (m @ [e])"
    by (cases e) (auto simp: load_line intro!: map_put_new)
  then show ?case using Cons.IH [of "m @ [e]"] Cons.prems by (simp add: comp_def)
qed simp

text \<open>Compaction changes no entry and leaves a file that still reads as the map.\<close>

lemma durable_compact: "durable t \<Longrightarrow> durable (tab_compact line t)"
  using load_lines [of "[]" "tab_map t"]
  by (simp add: durable_def tab_compact_def tab_values_def comp_def)

lemma durable_get: "durable t \<Longrightarrow> tab_get t k = Some r \<Longrightarrow> k = key r \<and> valid r"
  by (force simp: durable_def tab_get_def dest: map_of_SomeD)

lemma durable_distinct: "durable t \<Longrightarrow> distinct (map fst (tab_map t))"
  by (simp add: durable_def)

end

end
