(* ===== verification/Own_Path.thy ===== *)
theory Own_Path
  imports Js_Text
begin

text \<open>
  \<open>src/protocol/ownPath.ts\<close>: the bounded copy that turns an arbitrary JavaScript value into
  plain JSON before anything else looks at it, and the path lookup of predicates, windows
  and aggregates, which sees own data properties only.
\<close>

subsection \<open>Untrusted values\<close>

text \<open>
  A value as the process receives it. Objects and arrays carry their identity (the first
  number); a reference back to an object that is being copied shows as an object with the
  same identity, whose contents are never looked at. An array element is \<open>None\<close> when it is
  a hole or an accessor; a property is its key, whether it is enumerable, and its data value
  or \<open>None\<close> for an accessor. The last field of an object tells whether it has an enumerable
  symbol property.
\<close>

datatype raw =
    RUndef
  | ROther
  | RNull
  | RBool bool
  | RNum jsnum
  | RStr string
  | RProxy
  | RArr nat "raw option list"
  | RObj nat "(string \<times> bool \<times> raw option) list" bool

record snap_state =
  snap_seen :: "nat list"
  snap_visited :: nat
  snap_accounted :: nat

definition snapshot_byte_limit :: nat where
  "snapshot_byte_limit = 4194304"

definition snapshot_node_limit :: nat where
  "snapshot_node_limit = 50000"

definition snapshot_depth_limit :: nat where
  "snapshot_depth_limit = 64"

definition invalid :: "string \<Rightarrow> (snap_state, 'a) comp" where
  "invalid reason = throw (JsError KTypeError (Some ''EVENT_UNTRUSTED_DATA_INVALID'')
     (''Untrusted event data is not safe JSON: '' @ reason))"

definition account :: "nat \<Rightarrow> (snap_state, unit) comp" where
  "account n =
     seq (modS (\<lambda>s. s\<lparr>snap_accounted := snap_accounted s + n\<rparr>))
       (\<lambda>_. seq getS (\<lambda>s. if snapshot_byte_limit < snap_accounted s
          then invalid ''UTF-8 snapshot byte budget exceeded'' else ret ()))"

text \<open>
  The loop of \<open>accountUtf8\<close> over 16-bit code units: a surrogate pair takes four bytes, an
  unpaired surrogate the three bytes of its replacement.
\<close>

fun account_units :: "nat list \<Rightarrow> (snap_state, unit) comp" where
  "account_units [] = ret ()"
| "account_units (u # us) =
     (if u < 0x80 then seq (account 1) (\<lambda>_. account_units us)
      else if u < 0x800 then seq (account 2) (\<lambda>_. account_units us)
      else if 0xD800 \<le> u \<and> u \<le> 0xDBFF \<and> us \<noteq> [] \<and> 0xDC00 \<le> hd us \<and> hd us \<le> 0xDFFF
        then seq (account 4) (\<lambda>_. account_units (tl us))
      else seq (account 3) (\<lambda>_. account_units us))"

definition accountUtf8 :: "string \<Rightarrow> nat \<Rightarrow> (snap_state, unit) comp" where
  "accountUtf8 value punctuation =
     seq (account punctuation) (\<lambda>_. account_units (map of_char value))"

text \<open>The entry check \<open>++visited > 50000 || depth > 64\<close>.\<close>

definition enter :: "nat \<Rightarrow> (snap_state, unit) comp" where
  "enter depth =
     seq (modS (\<lambda>s. s\<lparr>snap_visited := snap_visited s + 1\<rparr>))
       (\<lambda>_. seq getS (\<lambda>s. if snapshot_node_limit < snap_visited s \<or> snapshot_depth_limit < depth
          then invalid ''resource limit exceeded'' else ret ()))"

text \<open>\<open>seen.add(value); try { ... } finally { seen.delete(value); }\<close>, after the cycle check.\<close>

definition with_seen :: "nat \<Rightarrow> (snap_state, 'a) comp \<Rightarrow> (snap_state, 'a) comp" where
  "with_seen a body =
     (\<lambda>s. if a \<in> set (snap_seen s) then invalid ''circular reference'' s
          else case body (s\<lparr>snap_seen := a # snap_seen s\<rparr>) of
            (r, t) \<Rightarrow> (r, t\<lparr>snap_seen := removeAll a (snap_seen t)\<rparr>))"

fun copy_elements :: "(nat \<Rightarrow> (snap_state, json) comp) option list \<Rightarrow> nat \<Rightarrow> (snap_state, json list) comp" where
  "copy_elements [] depth = ret []"
| "copy_elements (None # es) depth = invalid ''array contains hole or accessor element''"
| "copy_elements (Some c # es) depth =
     seq (c (Suc depth)) (\<lambda>j. seq (copy_elements es depth) (\<lambda>js. ret (j # js)))"

fun copy_properties ::
  "(string \<times> bool \<times> (nat \<Rightarrow> (snap_state, json) comp) option) list \<Rightarrow> nat \<Rightarrow> (snap_state, jobj) comp"
where
  "copy_properties [] depth = ret []"
| "copy_properties ((key, enumerable, prop) # ps) depth =
     (if \<not> enumerable then copy_properties ps depth
      else case prop of
        None \<Rightarrow> invalid ''accessor property''
      | Some c \<Rightarrow>
          seq (accountUtf8 key 4)
            (\<lambda>_. seq (c (Suc depth))
              (\<lambda>j. seq (copy_properties ps depth) (\<lambda>js. ret ((key, j) # js)))))"

primrec copy :: "raw \<Rightarrow> nat \<Rightarrow> (snap_state, json) comp" where
  "copy RNull = (\<lambda>d. seq (enter d) (\<lambda>_. seq (account 4) (\<lambda>_. ret JNull)))"
| "copy (RStr s) = (\<lambda>d. seq (enter d) (\<lambda>_. seq (accountUtf8 s 2) (\<lambda>_. ret (JStr s))))"
| "copy (RBool b) = (\<lambda>d. seq (enter d) (\<lambda>_. seq (account (if b then 4 else 5)) (\<lambda>_. ret (JBool b))))"
| "copy (RNum n) = (\<lambda>d. seq (enter d)
     (\<lambda>_. if \<not> is_finite n then invalid ''non-finite numeric value''
          else seq (account (length (num_str n))) (\<lambda>_. ret (JNum n))))"
| "copy RUndef = (\<lambda>d. seq (enter d) (\<lambda>_. invalid ''non-JSON value''))"
| "copy ROther = (\<lambda>d. seq (enter d) (\<lambda>_. invalid ''non-JSON value''))"
| "copy RProxy = (\<lambda>d. seq (enter d) (\<lambda>_. invalid ''proxy objects are not event data''))"
| "copy (RArr a es) = (\<lambda>d. seq (enter d) (\<lambda>_. with_seen a
     (if snapshot_node_limit < length es then invalid ''array too large''
      else seq (account (length es + 2))
        (\<lambda>_. seq (copy_elements (map (map_option copy) es) d) (\<lambda>js. ret (JArr js))))))"
| "copy (RObj a ps symbols) = (\<lambda>d. seq (enter d) (\<lambda>_. with_seen a
     (seq (account 2)
        (\<lambda>_. seq (copy_properties (map (map_prod id (map_prod id (map_option copy))) ps) d)
          (\<lambda>kvs. if symbols then invalid ''symbol property'' else ret (JObj kvs))))))"

definition snapshotUntrustedEventData :: "raw \<Rightarrow> js_error + json" where
  "snapshotUntrustedEventData v = fst (copy v 0 \<lparr>snap_seen = [], snap_visited = 0, snap_accounted = 0\<rparr>)"

subsection \<open>Path lookup\<close>

text \<open>
  \<open>readOwnEventPath\<close>: the own data property at each dot of the path, nothing through an array,
  a scalar, a proxy or an accessor. \<open>None\<close> is \<open>undefined\<close>. A selected scalar is returned as it
  is (\<open>Inl\<close>), a selected object or array as a detached copy (\<open>Inr\<close>), or not at all when the
  copy fails.
\<close>

fun own_property :: "(string \<times> bool \<times> raw option) list \<Rightarrow> string \<Rightarrow> raw option" where
  "own_property ps part = (case map_of ps part of Some (_, Some v) \<Rightarrow> Some v | _ \<Rightarrow> None)"

fun own_steps :: "raw \<Rightarrow> string list \<Rightarrow> raw option" where
  "own_steps v [] = Some v"
| "own_steps (RObj a ps symbols) (part # parts) =
     (case own_property ps part of None \<Rightarrow> None | Some v \<Rightarrow> own_steps v parts)"
| "own_steps v (part # parts) = None"

fun detach :: "raw \<Rightarrow> (raw + json) option" where
  "detach RUndef = None"
| "detach RProxy = None"
| "detach (RArr a es) =
     (case snapshotUntrustedEventData (RArr a es) of Inl _ \<Rightarrow> None | Inr j \<Rightarrow> Some (Inr j))"
| "detach (RObj a ps symbols) =
     (case snapshotUntrustedEventData (RObj a ps symbols) of Inl _ \<Rightarrow> None | Inr j \<Rightarrow> Some (Inr j))"
| "detach v = Some (Inl v)"

definition readOwnEventPath :: "raw \<Rightarrow> string \<Rightarrow> (raw + json) option" where
  "readOwnEventPath source path =
     (case own_steps source (split_on CHR ''.'' path) of None \<Rightarrow> None | Some v \<Rightarrow> detach v)"

subsection \<open>What the copy means\<close>

text \<open>
  The reading of a value without any budget: \<open>None\<close> for everything that is not plain JSON, in
  particular for a proxy, an accessor, a hole, a symbol property, an undefined or non-finite
  value and a reference to an enclosing object (\<open>path\<close> is the list of those). Properties that
  are not enumerable are not part of the value.
\<close>

fun read_elements :: "(nat list \<Rightarrow> json option) option list \<Rightarrow> nat list \<Rightarrow> json list option" where
  "read_elements [] path = Some []"
| "read_elements (None # es) path = None"
| "read_elements (Some f # es) path =
     (case f path of None \<Rightarrow> None | Some j \<Rightarrow> map_option (Cons j) (read_elements es path))"

fun read_properties ::
  "(string \<times> bool \<times> (nat list \<Rightarrow> json option) option) list \<Rightarrow> nat list \<Rightarrow> jobj option"
where
  "read_properties [] path = Some []"
| "read_properties ((key, enumerable, prop) # ps) path =
     (if \<not> enumerable then read_properties ps path
      else case prop of
        None \<Rightarrow> None
      | Some f \<Rightarrow> (case f path of
          None \<Rightarrow> None
        | Some j \<Rightarrow> map_option (Cons (key, j)) (read_properties ps path)))"

primrec plain_reading :: "raw \<Rightarrow> nat list \<Rightarrow> json option" where
  "plain_reading RNull = (\<lambda>path. Some JNull)"
| "plain_reading (RStr s) = (\<lambda>path. Some (JStr s))"
| "plain_reading (RBool b) = (\<lambda>path. Some (JBool b))"
| "plain_reading (RNum n) = (\<lambda>path. if is_finite n then Some (JNum n) else None)"
| "plain_reading RUndef = (\<lambda>path. None)"
| "plain_reading ROther = (\<lambda>path. None)"
| "plain_reading RProxy = (\<lambda>path. None)"
| "plain_reading (RArr a es) = (\<lambda>path. if a \<in> set path then None
     else map_option JArr (read_elements (map (map_option plain_reading) es) (a # path)))"
| "plain_reading (RObj a ps symbols) = (\<lambda>path. if a \<in> set path \<or> symbols then None
     else map_option JObj
       (read_properties (map (map_prod id (map_prod id (map_option plain_reading))) ps) (a # path)))"

text \<open>The three budgets, as sizes of the resulting JSON.\<close>

fun utf8_size :: "nat list \<Rightarrow> nat" where
  "utf8_size [] = 0"
| "utf8_size (u # us) =
     (if u < 0x80 then 1 + utf8_size us
      else if u < 0x800 then 2 + utf8_size us
      else if 0xD800 \<le> u \<and> u \<le> 0xDBFF \<and> us \<noteq> [] \<and> 0xDC00 \<le> hd us \<and> hd us \<le> 0xDFFF
        then 4 + utf8_size (tl us)
      else 3 + utf8_size us)"

fun json_nodes :: "json \<Rightarrow> nat" where
  "json_nodes (JArr vs) = 1 + sum_list (map json_nodes vs)"
| "json_nodes (JObj kvs) = 1 + sum_list (map (\<lambda>kv. json_nodes (snd kv)) kvs)"
| "json_nodes v = 1"

fun json_height :: "json \<Rightarrow> nat" where
  "json_height (JArr vs) = Max (set (0 # map (\<lambda>v. Suc (json_height v)) vs))"
| "json_height (JObj kvs) = Max (set (0 # map (\<lambda>kv. Suc (json_height (snd kv))) kvs))"
| "json_height v = 0"

fun json_bytes :: "json \<Rightarrow> nat" where
  "json_bytes JNull = 4"
| "json_bytes (JBool b) = (if b then 4 else 5)"
| "json_bytes (JNum n) = length (num_str n)"
| "json_bytes (JStr s) = 2 + utf8_size (map of_char s)"
| "json_bytes (JArr vs) = length vs + 2 + sum_list (map json_bytes vs)"
| "json_bytes (JObj kvs) =
     2 + sum_list (map (\<lambda>kv. 4 + utf8_size (map of_char (fst kv)) + json_bytes (snd kv)) kvs)"

definition snapshot_fits :: "json \<Rightarrow> bool" where
  "snapshot_fits j \<longleftrightarrow> json_nodes j \<le> snapshot_node_limit \<and> json_height j \<le> snapshot_depth_limit \<and>
     json_bytes j \<le> snapshot_byte_limit"

subsection \<open>The copy computes the reading, within its budgets\<close>

lemma account_ok:
  "account n s = (Inr u, t) \<longleftrightarrow>
     snap_accounted s + n \<le> snapshot_byte_limit \<and> t = s\<lparr>snap_accounted := snap_accounted s + n\<rparr>"
  by (auto simp: account_def invalid_def seq_eq_Inr_iff)

lemma account_units_ok:
  "snap_accounted s \<le> snapshot_byte_limit \<Longrightarrow>
   account_units us s = (Inr u, t) \<longleftrightarrow>
     snap_accounted s + utf8_size us \<le> snapshot_byte_limit \<and>
     t = s\<lparr>snap_accounted := snap_accounted s + utf8_size us\<rparr>"
  by (induction us arbitrary: s t rule: utf8_size.induct)
    (auto simp: seq_eq_Inr_iff account_ok add.assoc)

lemma accountUtf8_ok:
  "accountUtf8 v p s = (Inr u, t) \<longleftrightarrow>
     snap_accounted s + p + utf8_size (map of_char v) \<le> snapshot_byte_limit \<and>
     t = s\<lparr>snap_accounted := snap_accounted s + p + utf8_size (map of_char v)\<rparr>"
  by (auto simp: accountUtf8_def seq_eq_Inr_iff account_ok account_units_ok)

lemma enter_ok:
  "enter d s = (Inr u, t) \<longleftrightarrow>
     snap_visited s < snapshot_node_limit \<and> d \<le> snapshot_depth_limit \<and> t = s\<lparr>snap_visited := snap_visited s + 1\<rparr>"
  by (auto simp: enter_def invalid_def seq_eq_Inr_iff)

lemma with_seen_ok:
  "with_seen a body s = (Inr j, t) \<longleftrightarrow>
     a \<notin> set (snap_seen s) \<and>
     (\<exists>u. body (s\<lparr>snap_seen := a # snap_seen s\<rparr>) = (Inr j, u) \<and> t = u\<lparr>snap_seen := removeAll a (snap_seen u)\<rparr>)"
  by (auto simp: with_seen_def invalid_def split: prod.splits)

definition spend :: "nat \<Rightarrow> nat \<Rightarrow> snap_state \<Rightarrow> snap_state" where
  "spend nodes bytes s = s\<lparr>snap_visited := snap_visited s + nodes, snap_accounted := snap_accounted s + bytes\<rparr>"

definition within_budget :: "snap_state \<Rightarrow> bool" where
  "within_budget s \<longleftrightarrow> snap_visited s \<le> snapshot_node_limit \<and> snap_accounted s \<le> snapshot_byte_limit"

lemma spend_sel [simp]:
  "snap_seen (spend n b s) = snap_seen s" "snap_visited (spend n b s) = snap_visited s + n"
  "snap_accounted (spend n b s) = snap_accounted s + b"
  "spend n b (spend m c s) = spend (m + n) (c + b) s"
  "spend 0 0 s = s"
  by (simp_all add: spend_def add.assoc)

lemma within_budget_spend:
  "within_budget (spend n b s) \<longleftrightarrow>
     snap_visited s + n \<le> snapshot_node_limit \<and> snap_accounted s + b \<le> snapshot_byte_limit"
  by (simp add: within_budget_def)

definition copies :: "(nat \<Rightarrow> (snap_state, json) comp) \<Rightarrow> (nat list \<Rightarrow> json option) \<Rightarrow> bool" where
  "copies c f \<longleftrightarrow> (\<forall>d s j t. within_budget s \<longrightarrow>
     c d s = (Inr j, t) \<longleftrightarrow>
       f (snap_seen s) = Some j \<and> d + json_height j \<le> snapshot_depth_limit \<and>
       t = spend (json_nodes j) (json_bytes j) s \<and> within_budget t)"

lemma copiesD:
  "copies c f \<Longrightarrow> within_budget s \<Longrightarrow> c d s = (Inr j, t) \<longleftrightarrow>
     f (snap_seen s) = Some j \<and> d + json_height j \<le> snapshot_depth_limit \<and>
     t = spend (json_nodes j) (json_bytes j) s \<and> within_budget t"
  by (simp add: copies_def)

lemma copy_elements_ok:
  assumes "\<And>r. Some r \<in> set es \<Longrightarrow> copies (c r) (f r)" and "within_budget s"
  shows "copy_elements (map (map_option c) es) d s = (Inr js, t) \<longleftrightarrow>
     read_elements (map (map_option f) es) (snap_seen s) = Some js \<and>
     (\<forall>j \<in> set js. Suc (d + json_height j) \<le> snapshot_depth_limit) \<and>
     t = spend (sum_list (map json_nodes js)) (sum_list (map json_bytes js)) s \<and> within_budget t"
  using assms
proof (induction es arbitrary: s js t)
  case Nil
  then show ?case by auto
next
  case (Cons e es)
  show ?case
  proof (cases e)
    case None
    then show ?thesis by (simp add: invalid_def)
  next
    case (Some r)
    have c: "copies (c r) (f r)" using Cons.prems(1) Some by simp
    have IH: "within_budget u \<Longrightarrow> copy_elements (map (map_option c) es) d u = (Inr ks, t) \<longleftrightarrow>
       read_elements (map (map_option f) es) (snap_seen u) = Some ks \<and>
       (\<forall>j \<in> set ks. Suc (d + json_height j) \<le> snapshot_depth_limit) \<and>
       t = spend (sum_list (map json_nodes ks)) (sum_list (map json_bytes ks)) u \<and>
       within_budget t" for u ks
      using Cons.IH [of u ks t] Cons.prems(1) by auto
    show ?thesis
    proof
      assume "copy_elements (map (map_option c) (e # es)) d s = (Inr js, t)"
      then obtain j u ks where "c r (Suc d) s = (Inr j, u)" and js: "js = j # ks"
        and ks: "copy_elements (map (map_option c) es) d u = (Inr ks, t)"
        by (auto simp: Some seq_eq_Inr_iff)
      then have "f r (snap_seen s) = Some j" "Suc d + json_height j \<le> snapshot_depth_limit"
        "u = spend (json_nodes j) (json_bytes j) s" "within_budget u"
        using copiesD [OF c Cons.prems(2)] by auto
      then show "read_elements (map (map_option f) (e # es)) (snap_seen s) = Some js \<and>
         (\<forall>j \<in> set js. Suc (d + json_height j) \<le> snapshot_depth_limit) \<and>
         t = spend (sum_list (map json_nodes js)) (sum_list (map json_bytes js)) s \<and> within_budget t"
        using ks IH by (auto simp: Some js)
    next
      assume R: "read_elements (map (map_option f) (e # es)) (snap_seen s) = Some js \<and>
         (\<forall>j \<in> set js. Suc (d + json_height j) \<le> snapshot_depth_limit) \<and>
         t = spend (sum_list (map json_nodes js)) (sum_list (map json_bytes js)) s \<and> within_budget t"
      then obtain j ks where js: "js = j # ks" and f: "f r (snap_seen s) = Some j"
        and ks: "read_elements (map (map_option f) es) (snap_seen s) = Some ks"
        by (auto simp: Some split: option.splits)
      let ?u = "spend (json_nodes j) (json_bytes j) s"
      have u: "within_budget ?u" using R by (auto simp: js within_budget_spend)
      then have "c r (Suc d) s = (Inr j, ?u)"
        using copiesD [OF c Cons.prems(2)] R f js by auto
      moreover have "copy_elements (map (map_option c) es) d ?u = (Inr ks, t)"
        using IH [OF u] R ks by (auto simp: js)
      ultimately show "copy_elements (map (map_option c) (e # es)) d s = (Inr js, t)"
        by (simp add: Some js)
    qed
  qed
qed

definition entry_bytes :: "string \<times> json \<Rightarrow> nat" where
  "entry_bytes kv = 4 + utf8_size (map of_char (fst kv)) + json_bytes (snd kv)"

definition on_values :: "('a \<Rightarrow> 'b) \<Rightarrow> (string \<times> bool \<times> 'a option) list \<Rightarrow> (string \<times> bool \<times> 'b option) list"
where
  "on_values f ps = map (map_prod id (map_prod id (map_option f))) ps"

lemma on_values_simps [simp]:
  "on_values f [] = []"
  "on_values f ((key, e, x) # ps) = (key, e, map_option f x) # on_values f ps"
  by (simp_all add: on_values_def)

lemma copy_properties_ok:
  assumes "\<And>k e r. (k, e, Some r) \<in> set ps \<Longrightarrow> copies (c r) (f r)" and "within_budget s"
  shows "copy_properties (on_values c ps) d s = (Inr kvs, t) \<longleftrightarrow>
     read_properties (on_values f ps) (snap_seen s) = Some kvs \<and>
     (\<forall>kv \<in> set kvs. Suc (d + json_height (snd kv)) \<le> snapshot_depth_limit) \<and>
     t = spend (sum_list (map (\<lambda>kv. json_nodes (snd kv)) kvs)) (sum_list (map entry_bytes kvs)) s \<and>
     within_budget t"
  using assms
proof (induction ps arbitrary: s kvs t)
  case Nil
  then show ?case by auto
next
  case (Cons p ps)
  obtain key e x where p: "p = (key, e, x)" by (cases p)
  let ?C = "copy_properties (on_values c ps) d"
  let ?F = "read_properties (on_values f ps)"
  have IH: "?C u = (Inr ks, t) \<longleftrightarrow>
     ?F (snap_seen u) = Some ks \<and>
     (\<forall>kv \<in> set ks. Suc (d + json_height (snd kv)) \<le> snapshot_depth_limit) \<and>
     t = spend (sum_list (map (\<lambda>kv. json_nodes (snd kv)) ks)) (sum_list (map entry_bytes ks)) u \<and>
     within_budget t" if "within_budget u" for u ks
    by (rule Cons.IH) (use Cons.prems(1) that in auto)
  show ?case
  proof (cases "e \<and> x \<noteq> None")
    case False
    then show ?thesis using IH [OF Cons.prems(2), of kvs] by (auto simp: p invalid_def)
  next
    case True
    then obtain r where x: "x = Some r" and e: "e" by auto
    have c: "copies (c r) (f r)" using Cons.prems(1) p x by (metis list.set_intros(1))
    let ?K = "4 + utf8_size (map of_char key)"
    have bytes: "snap_accounted s + 4 + utf8_size (map of_char key) = snap_accounted s + ?K" by simp
    let ?v = "spend 0 ?K s"
    have acc: "accountUtf8 key 4 s = (Inr q, v) \<longleftrightarrow> v = ?v \<and> within_budget ?v" for q v
      using Cons.prems(2) by (auto simp: accountUtf8_ok within_budget_def spend_def)
    show ?thesis
    proof
      assume "copy_properties (on_values c (p # ps)) d s = (Inr kvs, t)"
      then obtain j u ks where v: "within_budget ?v" and "c r (Suc d) ?v = (Inr j, u)"
        and kvs: "kvs = (key, j) # ks" and ks: "?C u = (Inr ks, t)"
        by (auto simp: p x e seq_eq_Inr_iff acc)
      then have "f r (snap_seen s) = Some j" "Suc d + json_height j \<le> snapshot_depth_limit"
        "u = spend (json_nodes j) (json_bytes j) ?v" "within_budget u"
        using copiesD [OF c v] by auto
      then show "read_properties (on_values f (p # ps)) (snap_seen s) = Some kvs \<and>
         (\<forall>kv \<in> set kvs. Suc (d + json_height (snd kv)) \<le> snapshot_depth_limit) \<and>
         t = spend (sum_list (map (\<lambda>kv. json_nodes (snd kv)) kvs)) (sum_list (map entry_bytes kvs)) s \<and>
         within_budget t"
        using ks IH by (auto simp: p x e kvs entry_bytes_def)
    next
      assume R: "read_properties (on_values f (p # ps)) (snap_seen s) = Some kvs \<and>
         (\<forall>kv \<in> set kvs. Suc (d + json_height (snd kv)) \<le> snapshot_depth_limit) \<and>
         t = spend (sum_list (map (\<lambda>kv. json_nodes (snd kv)) kvs)) (sum_list (map entry_bytes kvs)) s \<and>
         within_budget t"
      then obtain j ks where kvs: "kvs = (key, j) # ks" and f: "f r (snap_seen s) = Some j"
        and ks: "?F (snap_seen s) = Some ks"
        by (auto simp: p x e split: option.splits)
      let ?u = "spend (json_nodes j) (json_bytes j) ?v"
      have v: "within_budget ?v" and u: "within_budget ?u"
        using R by (auto simp: kvs within_budget_spend entry_bytes_def)
      have "c r (Suc d) ?v = (Inr j, ?u)"
        using copiesD [OF c v] R f u kvs by auto
      moreover have "?C ?u = (Inr ks, t)"
        using IH [OF u] R ks by (auto simp: kvs entry_bytes_def add.assoc)
      ultimately show "copy_properties (on_values c (p # ps)) d s = (Inr kvs, t)"
        using v by (simp add: p x e kvs seq_eq_Inr_iff acc)
    qed
  qed
qed


lemma read_elements_length: "read_elements fs path = Some js \<Longrightarrow> length js = length fs"
  by (induction fs path arbitrary: js rule: read_elements.induct) (auto split: option.splits)

lemma json_nodes_pos: "1 \<le> json_nodes j"
  by (cases j) auto

lemma json_nodes_length: "length js \<le> sum_list (map json_nodes js)"
  using json_nodes_pos sum_list_mono [of js "\<lambda>_. 1" json_nodes] by (simp add: sum_list_triv)

lemma json_height_arr: "d + json_height (JArr js) \<le> m \<longleftrightarrow> d \<le> m \<and> (\<forall>j \<in> set js. Suc (d + json_height j) \<le> m)"
proof -
  have "json_height (JArr js) \<le> k \<longleftrightarrow> (\<forall>j \<in> set js. Suc (json_height j) \<le> k)" for k
    by simp
  from this [of "m - d"] show ?thesis by (cases "d \<le> m") (auto simp del: json_height.simps)
qed

lemma json_height_obj:
  "d + json_height (JObj kvs) \<le> m \<longleftrightarrow> d \<le> m \<and> (\<forall>kv \<in> set kvs. Suc (d + json_height (snd kv)) \<le> m)"
proof -
  have "json_height (JObj kvs) \<le> k \<longleftrightarrow> (\<forall>kv \<in> set kvs. Suc (json_height (snd kv)) \<le> k)" for k
    by simp
  from this [of "m - d"] show ?thesis by (cases "d \<le> m") (auto simp del: json_height.simps)
qed

lemma json_sizes_obj [simp]:
  "json_bytes (JObj kvs) = 2 + sum_list (map entry_bytes kvs)"
  by (simp add: entry_bytes_def [abs_def])


lemma copies_scalar:
  assumes "\<And>d s j t. within_budget s \<Longrightarrow> body s = (Inr j, t) \<longleftrightarrow>
      f (snap_seen s) = Some j \<and> t = spend 0 (json_bytes j) s \<and> within_budget t \<and>
      json_nodes j = 1 \<and> json_height j = 0"
    and "\<And>path j. f path = Some j \<Longrightarrow> json_nodes j = 1 \<and> json_height j = 0"
    and "\<And>n s. f (snap_seen (s\<lparr>snap_visited := n\<rparr>)) = f (snap_seen s)"
  shows "copies (\<lambda>d. seq (enter d) (\<lambda>_. body)) f"
  unfolding copies_def
proof (intro allI impI)
  fix d s j t
  assume s: "within_budget s"
  show "seq (enter d) (\<lambda>_. body) s = (Inr j, t) \<longleftrightarrow>
     f (snap_seen s) = Some j \<and> d + json_height j \<le> snapshot_depth_limit \<and>
     t = spend (json_nodes j) (json_bytes j) s \<and> within_budget t"
  proof (cases "snap_visited s < snapshot_node_limit")
    case True
    let ?u = "s\<lparr>snap_visited := Suc (snap_visited s)\<rparr>"
    have u: "within_budget ?u" using s True by (simp add: within_budget_def)
    have "spend 0 b ?u = spend 1 b s" for b by (simp add: spend_def)
    then show ?thesis
      using assms(1) [OF u, of j t] assms(2) True
      by (auto simp: seq_eq_Inr_iff enter_ok within_budget_def)
  next
    case False
    then show ?thesis using s assms(2)
      by (auto simp: seq_eq_Inr_iff enter_ok within_budget_def)
  qed
qed

text \<open>Objects and arrays: the body runs with the value's identity on the path.\<close>

definition inside :: "nat \<Rightarrow> nat \<Rightarrow> snap_state \<Rightarrow> snap_state" where
  "inside a b s = s\<lparr>snap_visited := snap_visited s + 1, snap_seen := a # snap_seen s, snap_accounted := snap_accounted s + b\<rparr>"

lemma inside_sel [simp]:
  "snap_seen (inside a b s) = a # snap_seen s" "snap_visited (inside a b s) = snap_visited s + 1"
  "snap_accounted (inside a b s) = snap_accounted s + b"
  by (simp_all add: inside_def)

lemma leave_inside:
  "a \<notin> set (snap_seen s) \<Longrightarrow>
   (spend n c (inside a b s))\<lparr>snap_seen := removeAll a (snap_seen (spend n c (inside a b s)))\<rparr> =
     spend (Suc n) (b + c) s"
  by (simp add: spend_def inside_def)

lemma within_budget_seen [simp]: "within_budget (s\<lparr>snap_seen := q\<rparr>) = within_budget s"
  by (simp add: within_budget_def)

lemma copies_nested:
  fixes items :: "nat \<Rightarrow> (snap_state, 'a) comp" and hs :: "'a \<Rightarrow> nat list"
  assumes items: "\<And>d s x t. within_budget s \<Longrightarrow> items d s = (Inr x, t) \<longleftrightarrow>
      F (snap_seen s) = Some x \<and> (\<forall>h \<in> set (hs x). Suc (d + h) \<le> snapshot_depth_limit) \<and>
      t = spend (n x) (b x) s \<and> within_budget t"
    and sizes: "\<And>x. json_nodes (C x) = Suc (n x)"
      "\<And>path x. F path = Some x \<Longrightarrow> json_bytes (C x) = pre + b x"
      "\<And>d x m. d + json_height (C x) \<le> m \<longleftrightarrow> d \<le> m \<and> (\<forall>h \<in> set (hs x). Suc (d + h) \<le> m)"
    and small: "\<And>path x. F path = Some x \<Longrightarrow> len \<le> n x"
  shows "copies (\<lambda>d. seq (enter d) (\<lambda>_. with_seen a
           (if snapshot_node_limit < len then invalid msg
            else seq (account pre) (\<lambda>_. seq (items d) (\<lambda>x. if bad then invalid msg' else ret (C x))))))
     (\<lambda>path. if a \<in> set path \<or> bad then None else map_option C (F (a # path)))"
    (is "copies ?copy ?read")
  unfolding copies_def
proof (intro allI impI)
  fix d s j t
  assume s: "within_budget s"
  let ?in = "inside a pre s"
  have run: "?copy d s = (Inr j, t) \<longleftrightarrow>
      a \<notin> set (snap_seen s) \<and> \<not> bad \<and> d \<le> snapshot_depth_limit \<and> len \<le> snapshot_node_limit \<and>
      within_budget ?in \<and>
      (\<exists>x u. items d ?in = (Inr x, u) \<and> j = C x \<and> t = u\<lparr>snap_seen := removeAll a (snap_seen u)\<rparr>)"
    by (auto simp: seq_eq_Inr_iff enter_ok with_seen_ok account_ok invalid_def inside_def within_budget_def)
  show "?copy d s = (Inr j, t) \<longleftrightarrow>
      ?read (snap_seen s) = Some j \<and> d + json_height j \<le> snapshot_depth_limit \<and>
      t = spend (json_nodes j) (json_bytes j) s \<and> within_budget t"
  proof
    assume "?copy d s = (Inr j, t)"
    then obtain x u where new: "a \<notin> set (snap_seen s)" "\<not> bad" "d \<le> snapshot_depth_limit"
      and b: "within_budget ?in" and x: "items d ?in = (Inr x, u)"
      and j: "j = C x" and t: "t = u\<lparr>snap_seen := removeAll a (snap_seen u)\<rparr>"
      unfolding run by blast
    have "F (a # snap_seen s) = Some x" "u = spend (n x) (b x) ?in" "within_budget u"
      "\<forall>h \<in> set (hs x). Suc (d + h) \<le> snapshot_depth_limit"
      using items [OF b, of d x u] x by auto
    then show "?read (snap_seen s) = Some j \<and> d + json_height j \<le> snapshot_depth_limit \<and>
      t = spend (json_nodes j) (json_bytes j) s \<and> within_budget t"
      using new by (auto simp: j t sizes leave_inside within_budget_spend add.assoc)
  next
    assume R: "?read (snap_seen s) = Some j \<and> d + json_height j \<le> snapshot_depth_limit \<and>
      t = spend (json_nodes j) (json_bytes j) s \<and> within_budget t"
    then obtain x where x: "F (a # snap_seen s) = Some x" "j = C x" "a \<notin> set (snap_seen s)" "\<not> bad"
      by (auto split: if_splits)
    let ?u = "spend (n x) (b x) ?in"
    have u: "within_budget ?u" and "within_budget ?in"
      using R x by (auto simp: sizes within_budget_spend within_budget_def)
    moreover from this have "items d ?in = (Inr x, ?u)"
      using items [of ?in d x ?u] R x by (auto simp: sizes)
    moreover have "t = ?u\<lparr>snap_seen := removeAll a (snap_seen ?u)\<rparr>"
      using R x leave_inside [OF x(3), of "n x" "b x" pre] by (simp add: sizes(1) sizes(2) [OF x(1)])
    moreover have "len \<le> snapshot_node_limit"
      using small [OF x(1)] u by (simp add: within_budget_spend)
    ultimately show "?copy d s = (Inr j, t)"
      unfolding run using R x sizes(3) by blast
  qed
qed

lemma copy_computes_reading: "copies (copy v) (plain_reading v)"
proof (induction v)
  case (RArr a es)
  then have IH: "copies (copy r) (plain_reading r)" if "Some r \<in> set es" for r
    using that by fastforce
  let ?items = "copy_elements (map (map_option copy) es)"
  let ?F = "read_elements (map (map_option plain_reading) es)"
  have items: "?items d s = (Inr js, t) \<longleftrightarrow>
      ?F (snap_seen s) = Some js \<and>
      (\<forall>h \<in> set (map json_height js). Suc (d + h) \<le> snapshot_depth_limit) \<and>
      t = spend (sum_list (map json_nodes js)) (sum_list (map json_bytes js)) s \<and> within_budget t"
    if "within_budget s" for d s js t
    using copy_elements_ok [OF IH that] by simp
  have bytes: "json_bytes (JArr js) = length es + 2 + sum_list (map json_bytes js)"
    and len: "length es \<le> sum_list (map json_nodes js)" if "?F path = Some js" for path js
    using read_elements_length [OF that] json_nodes_length [of js] by auto
  have height: "d + json_height (JArr js) \<le> m \<longleftrightarrow>
      d \<le> m \<and> (\<forall>h \<in> set (map json_height js). Suc (d + h) \<le> m)" for d js m
    by (simp add: json_height_arr del: json_height.simps)
  have "copies (\<lambda>d. seq (enter d) (\<lambda>_. with_seen a
           (if snapshot_node_limit < length es then invalid ''array too large''
            else seq (account (length es + 2))
              (\<lambda>_. seq (?items d) (\<lambda>x. if False then invalid ''array too large'' else ret (JArr x))))))
     (\<lambda>path. if a \<in> set path \<or> False then None else map_option JArr (?F (a # path)))"
    by (rule copies_nested [where n = "\<lambda>js. sum_list (map json_nodes js)", OF items _ bytes height len]) simp_all
  then show ?case by (simp cong: if_cong)
next
  case (RObj a ps symbols)
  then have IH: "copies (copy r) (plain_reading r)" if "(k, e, Some r) \<in> set ps" for k e r
    using that by fastforce
  let ?items = "copy_properties (on_values copy ps)"
  let ?F = "read_properties (on_values plain_reading ps)"
  have items: "?items d s = (Inr js, t) \<longleftrightarrow>
      ?F (snap_seen s) = Some js \<and>
      (\<forall>h \<in> set (map (\<lambda>kv. json_height (snd kv)) js). Suc (d + h) \<le> snapshot_depth_limit) \<and>
      t = spend (sum_list (map (\<lambda>kv. json_nodes (snd kv)) js)) (sum_list (map entry_bytes js)) s \<and>
      within_budget t"
    if "within_budget s" for d s js t
    using copy_properties_ok [OF IH that] by simp
  have height: "d + json_height (JObj js) \<le> m \<longleftrightarrow>
      d \<le> m \<and> (\<forall>h \<in> set (map (\<lambda>kv. json_height (snd kv)) js). Suc (d + h) \<le> m)" for d js m
    by (simp add: json_height_obj del: json_height.simps)
  have "copies (\<lambda>d. seq (enter d) (\<lambda>_. with_seen a
           (if snapshot_node_limit < 0 then invalid ''symbol property''
            else seq (account 2)
              (\<lambda>_. seq (?items d) (\<lambda>x. if symbols then invalid ''symbol property'' else ret (JObj x))))))
     (\<lambda>path. if a \<in> set path \<or> symbols then None else map_option JObj (?F (a # path)))"
    by (rule copies_nested [where n = "\<lambda>kvs. sum_list (map (\<lambda>kv. json_nodes (snd kv)) kvs)",
          OF items _ json_sizes_obj height]) simp_all
  then show ?case by (simp add: on_values_def cong: if_cong)
qed (unfold copy.simps plain_reading.simps,
    (rule copies_scalar;
      auto simp: seq_eq_Inr_iff account_ok accountUtf8_ok spend_def within_budget_def invalid_def
        split: if_splits)+)

lemma snapshot_reading:
  "snapshotUntrustedEventData v = Inr j \<longleftrightarrow> plain_reading v [] = Some j \<and> snapshot_fits j"
proof -
  have "within_budget \<lparr>snap_seen = [], snap_visited = 0, snap_accounted = 0\<rparr>"
    by (simp add: within_budget_def)
  from copiesD [OF copy_computes_reading this, of v 0]
  have "(\<exists>t. copy v 0 \<lparr>snap_seen = [], snap_visited = 0, snap_accounted = 0\<rparr> = (Inr j, t)) \<longleftrightarrow>
      plain_reading v [] = Some j \<and> snapshot_fits j"
    by (auto simp: snapshot_fits_def within_budget_spend)
  then show ?thesis
    by (cases "copy v 0 \<lparr>snap_seen = [], snap_visited = 0, snap_accounted = 0\<rparr>")
      (auto simp: snapshotUntrustedEventData_def)
qed

subsection \<open>Plain JSON\<close>

text \<open>
  A plain value as an object graph in which no object contains itself, and the path lookup
  on it.
\<close>

primrec embed :: "json \<Rightarrow> nat \<Rightarrow> raw" where
  "embed JNull = (\<lambda>a. RNull)"
| "embed (JBool b) = (\<lambda>a. RBool b)"
| "embed (JNum n) = (\<lambda>a. RNum n)"
| "embed (JStr s) = (\<lambda>a. RStr s)"
| "embed (JArr vs) = (\<lambda>a. RArr a (map (\<lambda>f. Some (f (Suc a))) (map embed vs)))"
| "embed (JObj kvs) = (\<lambda>a. RObj a
     (map (\<lambda>kf. (fst kf, True, Some (snd kf (Suc a)))) (map (map_prod id embed) kvs)) False)"

fun json_at :: "json \<Rightarrow> string list \<Rightarrow> json option" where
  "json_at v [] = Some v"
| "json_at (JObj kvs) (part # parts) =
     (case map_of kvs part of None \<Rightarrow> None | Some v \<Rightarrow> json_at v parts)"
| "json_at v (part # parts) = None"

fun scalar :: "json \<Rightarrow> bool" where
  "scalar (JArr vs) = False"
| "scalar (JObj kvs) = False"
| "scalar v = True"

definition read_path :: "json \<Rightarrow> string \<Rightarrow> json option" where
  "read_path source path =
     (case json_at source (split_on CHR ''.'' path) of
        None \<Rightarrow> None
      | Some v \<Rightarrow> if scalar v \<or> snapshot_fits v then Some v else None)"

lemma read_elements_embed:
  assumes "\<And>v. v \<in> set vs \<Longrightarrow> plain_reading (embed v a) path = Some v"
  shows "read_elements (map (map_option plain_reading) (map (\<lambda>v. Some (embed v a)) vs)) path = Some vs"
  using assms by (induction vs) auto

lemma read_properties_embed:
  assumes "\<And>kv. kv \<in> set kvs \<Longrightarrow> plain_reading (embed (snd kv) a) path = Some (snd kv)"
  shows "read_properties (on_values plain_reading
      (map (\<lambda>kv. (fst kv, True, Some (embed (snd kv) a))) kvs)) path = Some kvs"
  using assms by (induction kvs) auto

lemma plain_reading_embed:
  "json_ok j \<Longrightarrow> (\<And>x. x \<in> set path \<Longrightarrow> x < a) \<Longrightarrow> plain_reading (embed j a) path = Some j"
proof (induction j arbitrary: a path)
  case (JArr vs)
  have "plain_reading (embed v (Suc a)) (a # path) = Some v" if "v \<in> set vs" for v
    using JArr that by (auto intro!: JArr.IH simp: less_Suc_eq list_all_iff)
  then show ?case
    using read_elements_embed [of vs "Suc a" "a # path"] JArr.prems(2) by (auto simp: comp_def)
next
  case (JObj kvs)
  have "plain_reading (embed (snd kv) (Suc a)) (a # path) = Some (snd kv)" if "kv \<in> set kvs" for kv
    using JObj that by (cases kv) (auto intro!: JObj.IH simp: less_Suc_eq list_all_iff)
  then show ?case
    using read_properties_embed [of kvs "Suc a" "a # path"] JObj.prems(2)
    by (auto simp: comp_def on_values_def)
next
  case (JNum n)
  then show ?case by (cases n) auto
qed auto

lemma own_steps_embed:
  "own_steps (embed j a) parts = None \<longleftrightarrow> json_at j parts = None"
  "json_at j parts = Some v \<Longrightarrow> \<exists>b. own_steps (embed j a) parts = Some (embed v b)"
proof -
  have "case json_at j parts of None \<Rightarrow> own_steps (embed j a) parts = None
     | Some v \<Rightarrow> \<exists>b. own_steps (embed j a) parts = Some (embed v b)" for j a
  proof (induction parts arbitrary: j a)
    case (Cons part parts)
    show ?case
    proof (cases j)
      case (JObj kvs)
      have "map_of (map (\<lambda>kv. (fst kv, True, Some (embed (snd kv) (Suc a)))) kvs) part =
          map_option (\<lambda>v. (True, Some (embed v (Suc a)))) (map_of kvs part)"
        by (induction kvs) auto
      note here = this
      show ?thesis
      proof (cases "map_of kvs part")
        case None
        then show ?thesis using here by (simp add: JObj comp_def)
      next
        case (Some w)
        then show ?thesis
          using here Cons.IH [of w "Suc a"] by (cases "json_at w parts") (simp_all add: JObj comp_def)
      qed
    qed auto
  qed auto
  from this [of j a] show
    "own_steps (embed j a) parts = None \<longleftrightarrow> json_at j parts = None"
    "json_at j parts = Some v \<Longrightarrow> \<exists>b. own_steps (embed j a) parts = Some (embed v b)"
    by (auto split: option.splits)
qed

lemma json_at_ok: "json_ok j \<Longrightarrow> json_at j parts = Some v \<Longrightarrow> json_ok v"
  by (induction j parts rule: json_at.induct)
    (fastforce split: option.splits dest!: map_of_SomeD simp: list_all_iff)+

lemma detach_embed:
  assumes "json_ok v"
  shows "detach (embed v b) =
    (if scalar v then Some (Inl (embed v 0)) else if snapshot_fits v then Some (Inr v) else None)"
proof -
  have copy: "snapshotUntrustedEventData (embed v b) = Inr w \<longleftrightarrow> w = v \<and> snapshot_fits v" for w
    using plain_reading_embed [of v "[]" b] assms by (auto simp: snapshot_reading)
  have out: "(case snapshotUntrustedEventData (embed v b) of Inl _ \<Rightarrow> None | Inr j \<Rightarrow> Some (Inr j)) =
      (if snapshot_fits v then Some (Inr v) else None)"
    using copy by (metis (no_types, lifting) sum.case(1,2) sum.exhaust)
  show ?thesis
  proof (cases v)
    case (JArr vs)
    have "detach (embed v b) =
        (case snapshotUntrustedEventData (embed v b) of Inl _ \<Rightarrow> None | Inr j \<Rightarrow> Some (Inr j))"
      by (simp add: JArr)
    then show ?thesis using out JArr by (simp only: scalar.simps if_False)
  next
    case (JObj kvs)
    have "detach (embed v b) =
        (case snapshotUntrustedEventData (embed v b) of Inl _ \<Rightarrow> None | Inr j \<Rightarrow> Some (Inr j))"
      by (simp add: JObj)
    then show ?thesis using out JObj by (simp only: scalar.simps if_False)
  qed auto
qed

text \<open>
  On a plain JSON event the path lookup returns the own value at the path: a scalar as
  it is, an object or array as an equal detached copy when it stays within the budgets, and
  nothing otherwise.
\<close>

theorem readOwnEventPath_json:
  assumes "json_ok j"
  shows "readOwnEventPath (embed j a) path =
    map_option (\<lambda>v. if scalar v then Inl (embed v 0) else Inr v) (read_path j path)"
proof (cases "json_at j (split_on CHR ''.'' path)")
  case None
  then have "own_steps (embed j a) (split_on CHR ''.'' path) = None"
    by (simp add: own_steps_embed(1))
  then show ?thesis using None by (simp add: readOwnEventPath_def read_path_def)
next
  case (Some v)
  then obtain b where b: "own_steps (embed j a) (split_on CHR ''.'' path) = Some (embed v b)"
    using own_steps_embed(2) by blast
  have "json_ok v" using assms Some by (rule json_at_ok)
  from detach_embed [OF this] show ?thesis
    using b Some by (simp add: readOwnEventPath_def read_path_def)
qed

text \<open>
  C40: the copy accepts exactly the values that read as plain JSON and whose JSON stays within
  the node, depth and byte budgets, and then returns that reading.
\<close>

theorem snapshot_exact:
  "snapshotUntrustedEventData v = Inr j \<longleftrightarrow> plain_reading v [] = Some j \<and> snapshot_fits j"
  by (rule snapshot_reading)

lemma readOwnEventPath_json_witness:
  "readOwnEventPath (embed (JObj [(''a'', JObj [(''b'', JStr ''x'')])]) 0) ''a.b'' = Some (Inl (RStr ''x''))"
proof -
  have "json_ok (JObj [(''a'', JObj [(''b'', JStr ''x'')])])" by simp
  from readOwnEventPath_json [OF this, of 0 "''a.b''"] show ?thesis
    by (simp add: read_path_def)
qed

end
