(* ===== verification/Trigger_Schema.thy ===== *)
theory Trigger_Schema
  imports Js_Date Own_Path
begin

text \<open>
  The records of \<open>src/intelligenceProtocol/triggerSchemas.ts\<close> and the Pattern AST of
  \<open>patternV2Schemas.ts\<close>, after validation: an optional field is an option, a field with a
  default always has its value, a \<open>Timestamp\<close> carries its instant.
\<close>

subsection \<open>What the host supplies\<close>

text \<open>
  The parts of the runtime that are not JavaScript semantics: \<open>String.prototype.localeCompare\<close>
  in the locale of the process, the regular expression engine (pattern, flags, subject;
  \<open>None\<close> when the pattern does not compile) and the time zone data base.
\<close>

record host =
  collate :: "string \<Rightarrow> string \<Rightarrow> int"
  regex_test :: "string \<Rightarrow> string \<Rightarrow> string \<Rightarrow> bool option"
  zones :: zone_data

subsection \<open>Events\<close>

record correlatable_event =
  ce_traceId :: string
  ce_sourceEventId :: string
  ce_name :: string
  ce_occurredAt :: timestamp
  ce_receivedAt :: "timestamp option"
  ce_provider :: "string option"
  ce_serverId :: "string option"
  ce_subscriptionArguments :: jobj
  ce_payloadHash :: "string option"
  ce_data :: jobj

record source_event =
  clauseId :: string
  traceId :: string
  sourceEventId :: string
  eventName :: string
  occurredAt :: timestamp
  receivedAt :: "timestamp option"
  provider :: "string option"
  serverId :: "string option"
  subscriptionArguments :: jobj
  payloadHash :: "string option"
  event_data :: jobj

text \<open>The instant \<open>Date.parse(event.occurredAt)\<close>.\<close>

definition event_ms :: "source_event \<Rightarrow> int" where
  "event_ms e = ts_ms (occurredAt e)"

subsection \<open>Predicates and clauses\<close>

datatype json_type = TString | TNumber | TBoolean | TNull | TObject | TArray

text \<open>Scalars of the schemas are JSON strings, numbers, booleans and, where allowed, null.\<close>

datatype predicate_op =
    PEq json
  | PNeq json
  | PContains json
  | PStartsWith string
  | PEndsWith string
  | PRegex string "string option"
  | PIn "json list"
  | PNotIn "json list"
  | PBetween json json
  | PExists bool
  | PIsNull bool
  | PType json_type
  | PGt jsnum
  | PGte jsnum
  | PLt jsnum
  | PLte jsnum

record predicate =
  pred_path :: string
  pred_op :: predicate_op

record trigger_clause =
  clause_id :: string
  clause_event :: string
  clause_serverId :: "string option"
  clause_contractVersion :: "string option"
  clause_arguments :: jobj
  clause_where :: "predicate list"

subsection \<open>The Pattern AST\<close>

datatype selector = SelFirst | SelLast | SelNth

datatype arith_op = AAdd | ASubtract | AMultiply | ADivide | AAbs

datatype arith_value =
    VLiteral json
  | VField string string selector "nat option"
  | VOccurredAt string selector "nat option"
  | VArith arith_op "arith_value list"

datatype num_op = NEq | NNeq | NGt | NGte | NLt | NLte

datatype compare_op =
    CNum num_op
  | CContains
  | CStartsWith
  | CEndsWith
  | CRegex
  | CIn
  | CNotIn
  | CBetween
  | CIsNull
  | CType

datatype aggregate_fn =
    FSum | FAvg | FMin | FMax | FCount | FCountDistinct | FFirst | FLast | FNth | FStddev | FPercentile

datatype state_op =
    SChanged | SChangedFrom | SIncreasedBy | SDecreasedBy | SDelta | SPercentChange | SStableFor
  | SCrossesAbove | SCrossesBelow

datatype pattern_window =
    WWithin int
  | WSliding int
  | WTumbling int int
  | WHopping int int int
  | WSession int
  | WCount int

datatype contiguity = Next | FollowedBy | FollowedByAny
datatype repeat_contiguity = Consecutive | Relaxed | Combinations
datatype preference = Greedy | Lazy
datatype uncertain_policy = UEscalate | UReject | UMatch
datatype unavailable_policy = OnError | OnReject

record compare_spec =
  cmp_left :: arith_value
  cmp_op :: compare_op
  cmp_right :: "arith_value option"
  cmp_values :: "json list option"
  cmp_lower :: "json option"
  cmp_upper :: "json option"
  cmp_expectedType :: "json_type option"
  cmp_flags :: "string option"

record aggregate_spec =
  agg_function :: aggregate_fn
  agg_ref :: string
  agg_path :: "string option"
  agg_nth :: "nat option"
  agg_percentile :: "jsnum option"

record state_spec =
  st_ref :: string
  st_path :: string
  st_op :: state_op
  st_from :: "json option"
  st_to :: "json option"
  st_value :: "jsnum option"
  st_comparator :: num_op
  st_forMs :: "int option"

record calendar_spec =
  cal_ref :: string
  cal_timezone :: string
  cal_before :: "string option"
  cal_after :: "string option"
  cal_weekdays :: "int list option"
  cal_dates :: "string list option"
  cal_dateRange :: "(string \<times> string) option"
  cal_dayOfMonth :: "int list option"

record absence_spec =
  abs_id :: string
  abs_ref :: string
  abs_afterRef :: string
  abs_forMs :: "int option"
  abs_untilLocalTime :: "string option"
  abs_timezone :: "string option"

record semantic_spec =
  sem_id :: string
  sem_refs :: "string list"
  sem_instruction :: string
  sem_input :: "string list"
  sem_matchThreshold :: jsnum
  sem_rejectThreshold :: jsnum
  sem_uncertain :: uncertain_policy
  sem_cache :: bool
  sem_timeoutMs :: int
  sem_onUnavailable :: unavailable_policy

datatype pattern_node =
    EventN string
  | AllOf "pattern_node list"
  | AnyOf "pattern_node list"
  | SequenceN "pattern_node list" contiguity
  | RepeatN pattern_node nat "nat option" preference repeat_contiguity
  | OptionalN pattern_node preference
  | NotNext pattern_node pattern_node
  | NotFollowedBy string pattern_node pattern_node int
  | WindowN pattern_window pattern_node
  | CalendarN calendar_spec pattern_node
  | AbsenceN absence_spec pattern_node
  | NotPresent pattern_node string
  | AfterN pattern_node string string
  | UntilN pattern_node string string
  | DebounceN string pattern_node string int
  | ThresholdN pattern_node string nat
  | RateN pattern_node string nat int
  | DistinctN pattern_node string string nat
  | CompareN compare_spec pattern_node
  | AggregateN aggregate_spec num_op jsnum pattern_node
  | StateN state_spec pattern_node
  | SemanticN semantic_spec pattern_node

subsection \<open>Definitions\<close>

datatype after_match = SkipPastLast | SkipToNext | KeepAll | SkipToFirst string | SkipToLast string

record selection_policy =
  sel_overlap_allow :: bool
  sel_afterMatch :: after_match
  sel_maxMatchesPerEvent :: nat

record execution_policy =
  ex_maxCandidates :: nat
  ex_maxSemanticEvaluations :: nat
  ex_maxBufferedEvents :: nat

record partition_dimension =
  dim_key :: string
  dim_fields :: "(string \<times> string) list"

record pattern_definition =
  pat_root :: pattern_node
  pat_partitionBy :: "partition_dimension list"
  pat_selection :: selection_policy
  pat_execution :: execution_policy

datatype measure_expression = MAggregate aggregate_spec | MValue arith_value

record pattern_measure =
  meas_key :: string
  meas_expression :: measure_expression

end
