(* ===== verification/Pattern_Ast.thy ===== *)
theory Pattern_Ast
  imports Trigger_Schema
begin

text \<open>
  The functions of \<open>src/intelligenceProtocol/patternV2Schemas.ts\<close> on the Pattern AST: which
  clauses a pattern refers to, which it binds in every match, its durations, the binding
  checks of a definition, and the structural preflight of the evaluator
  (\<open>boundedAst\<close> in \<open>src/patternV2/evaluator.ts\<close>).
\<close>

subsection \<open>Sets of strings\<close>

text \<open>\<open>[...new Set(xs)]\<close> and \<open>set.add(x)\<close> on an insertion-ordered set.\<close>

definition uniq :: "'a list \<Rightarrow> 'a list" where
  "uniq xs = first_by (\<lambda>x. x) [] xs"

definition set_add :: "'a \<Rightarrow> 'a list \<Rightarrow> 'a list" where
  "set_add x xs = (if x \<in> set xs then xs else xs @ [x])"

lemma set_uniq [simp]: "set (uniq xs) = set xs"
  using first_by_keys [of "\<lambda>x. x" "[]" xs] by (simp add: uniq_def)

lemma distinct_uniq [simp]: "distinct (uniq xs)"
  using first_by_distinct [of "\<lambda>x. x" "[]" xs] by (simp add: uniq_def)

lemma set_set_add [simp]: "set (set_add x xs) = insert x (set xs)"
  by (auto simp: set_add_def)

subsection \<open>References\<close>

primrec value_visits :: "arith_value \<Rightarrow> string list" where
  "value_visits (VLiteral v) = []"
| "value_visits (VField ref path sel n) = [ref]"
| "value_visits (VOccurredAt ref sel n) = [ref]"
| "value_visits (VArith op args) = concat (map value_visits args)"

definition valueRefs :: "arith_value \<Rightarrow> string list" where
  "valueRefs v = uniq (value_visits v)"

definition collectPatternMeasureRefs :: "pattern_measure \<Rightarrow> string list" where
  "collectPatternMeasureRefs m = (case meas_expression m of
     MAggregate spec \<Rightarrow> [agg_ref spec] | MValue v \<Rightarrow> uniq (value_visits v))"

text \<open>The references in the order \<open>collectPatternRefs\<close> adds them.\<close>

primrec ref_visits :: "pattern_node \<Rightarrow> string list" where
  "ref_visits (EventN ref) = [ref]"
| "ref_visits (AllOf cs) = concat (map ref_visits cs)"
| "ref_visits (AnyOf cs) = concat (map ref_visits cs)"
| "ref_visits (SequenceN cs ct) = concat (map ref_visits cs)"
| "ref_visits (RepeatN c mn mx md ct) = ref_visits c"
| "ref_visits (OptionalN c md) = ref_visits c"
| "ref_visits (NotNext c f) = ref_visits c @ ref_visits f"
| "ref_visits (NotFollowedBy i c f ms) = ref_visits c @ ref_visits f"
| "ref_visits (WindowN w c) = ref_visits c"
| "ref_visits (CalendarN s c) = ref_visits c @ [cal_ref s]"
| "ref_visits (AbsenceN s c) = ref_visits c @ [abs_ref s, abs_afterRef s]"
| "ref_visits (NotPresent c ref) = ref_visits c @ [ref]"
| "ref_visits (AfterN c ref aref) = ref_visits c @ [ref, aref]"
| "ref_visits (UntilN c ref bref) = ref_visits c @ [ref, bref]"
| "ref_visits (DebounceN i c ref ms) = ref_visits c @ [ref]"
| "ref_visits (ThresholdN c ref k) = ref_visits c @ [ref]"
| "ref_visits (RateN c ref k ms) = ref_visits c @ [ref]"
| "ref_visits (DistinctN c ref path k) = ref_visits c @ [ref]"
| "ref_visits (CompareN s c) = ref_visits c @ value_visits (cmp_left s) @
     (case cmp_right s of None \<Rightarrow> [] | Some v \<Rightarrow> value_visits v)"
| "ref_visits (AggregateN s op v c) = ref_visits c @ [agg_ref s]"
| "ref_visits (StateN s c) = ref_visits c @ [st_ref s]"
| "ref_visits (SemanticN s c) = ref_visits c @ sem_refs s"

definition collectPatternRefs :: "pattern_node \<Rightarrow> string list" where
  "collectPatternRefs node = uniq (ref_visits node)"

text \<open>The clauses bound in every match.\<close>

definition common_refs :: "string list list \<Rightarrow> string list" where
  "common_refs sets = (case sets of [] \<Rightarrow> []
     | s # ss \<Rightarrow> filter (\<lambda>ref. list_all (\<lambda>t. ref \<in> set t) ss) s)"

primrec guaranteed :: "pattern_node \<Rightarrow> string list" where
  "guaranteed (EventN ref) = [ref]"
| "guaranteed (AllOf cs) = uniq (concat (map guaranteed cs))"
| "guaranteed (AnyOf cs) = common_refs (map guaranteed cs)"
| "guaranteed (SequenceN cs ct) = uniq (concat (map guaranteed cs))"
| "guaranteed (RepeatN c mn mx md ct) = (if 0 < mn then guaranteed c else [])"
| "guaranteed (OptionalN c md) = []"
| "guaranteed (NotNext c f) = guaranteed c"
| "guaranteed (NotFollowedBy i c f ms) = guaranteed c"
| "guaranteed (WindowN w c) = guaranteed c"
| "guaranteed (CalendarN s c) = guaranteed c"
| "guaranteed (AbsenceN s c) = guaranteed c"
| "guaranteed (NotPresent c ref) = guaranteed c"
| "guaranteed (AfterN c ref aref) = guaranteed c"
| "guaranteed (UntilN c ref bref) = guaranteed c"
| "guaranteed (DebounceN i c ref ms) = set_add ref (guaranteed c)"
| "guaranteed (ThresholdN c ref k) = set_add ref (guaranteed c)"
| "guaranteed (RateN c ref k ms) = set_add ref (guaranteed c)"
| "guaranteed (DistinctN c ref path k) = set_add ref (guaranteed c)"
| "guaranteed (CompareN s c) = guaranteed c"
| "guaranteed (AggregateN s op v c) = guaranteed c"
| "guaranteed (StateN s c) = guaranteed c"
| "guaranteed (SemanticN s c) = guaranteed c"

definition collectGuaranteedPatternBindings :: "pattern_node \<Rightarrow> string list" where
  "collectGuaranteedPatternBindings node = guaranteed node"

subsection \<open>Durations\<close>

definition window_durations :: "pattern_window \<Rightarrow> int list" where
  "window_durations w = (case w of
     WWithin sz \<Rightarrow> [sz] | WSliding sz \<Rightarrow> [sz] | WTumbling sz off \<Rightarrow> [sz]
   | WHopping sz hop off \<Rightarrow> [sz] | WSession gap \<Rightarrow> [gap] | WCount sz \<Rightarrow> [])"

text \<open>\<open>if (forMs) durations.push(forMs)\<close>: absent or zero pushes nothing.\<close>

definition opt_duration :: "int option \<Rightarrow> int list" where
  "opt_duration d = (case d of Some n \<Rightarrow> if n \<noteq> 0 then [n] else [] | None \<Rightarrow> [])"

primrec collectPatternDurationsMs :: "pattern_node \<Rightarrow> int list" where
  "collectPatternDurationsMs (EventN ref) = []"
| "collectPatternDurationsMs (AllOf cs) = concat (map collectPatternDurationsMs cs)"
| "collectPatternDurationsMs (AnyOf cs) = concat (map collectPatternDurationsMs cs)"
| "collectPatternDurationsMs (SequenceN cs ct) = concat (map collectPatternDurationsMs cs)"
| "collectPatternDurationsMs (RepeatN c mn mx md ct) = collectPatternDurationsMs c"
| "collectPatternDurationsMs (OptionalN c md) = collectPatternDurationsMs c"
| "collectPatternDurationsMs (NotNext c f) = collectPatternDurationsMs c @ collectPatternDurationsMs f"
| "collectPatternDurationsMs (NotFollowedBy i c f ms) =
     [ms] @ collectPatternDurationsMs c @ collectPatternDurationsMs f"
| "collectPatternDurationsMs (WindowN w c) = window_durations w @ collectPatternDurationsMs c"
| "collectPatternDurationsMs (CalendarN s c) = collectPatternDurationsMs c"
| "collectPatternDurationsMs (AbsenceN s c) = opt_duration (abs_forMs s) @ collectPatternDurationsMs c"
| "collectPatternDurationsMs (NotPresent c ref) = collectPatternDurationsMs c"
| "collectPatternDurationsMs (AfterN c ref aref) = collectPatternDurationsMs c"
| "collectPatternDurationsMs (UntilN c ref bref) = collectPatternDurationsMs c"
| "collectPatternDurationsMs (DebounceN i c ref ms) = ms # collectPatternDurationsMs c"
| "collectPatternDurationsMs (ThresholdN c ref k) = collectPatternDurationsMs c"
| "collectPatternDurationsMs (RateN c ref k ms) = ms # collectPatternDurationsMs c"
| "collectPatternDurationsMs (DistinctN c ref path k) = collectPatternDurationsMs c"
| "collectPatternDurationsMs (CompareN s c) = collectPatternDurationsMs c"
| "collectPatternDurationsMs (AggregateN s op v c) = collectPatternDurationsMs c"
| "collectPatternDurationsMs (StateN s c) = opt_duration (st_forMs s) @ collectPatternDurationsMs c"
| "collectPatternDurationsMs (SemanticN s c) = collectPatternDurationsMs c"

subsection \<open>Binding checks\<close>

definition requireBindings :: "string list \<Rightarrow> pattern_node \<Rightarrow> string \<Rightarrow> string list" where
  "requireBindings refs child label =
     map (\<lambda>ref. label @ '' requires ref to be guaranteed by child pattern: '' @ ref)
       (filter (\<lambda>ref. ref \<notin> set (collectGuaranteedPatternBindings child)) refs)"

definition semantic_input_issues :: "semantic_spec \<Rightarrow> string list" where
  "semantic_input_issues s =
     map (\<lambda>i. ''semantic input must be rooted in semantic refs: '' @ i)
       (filter (\<lambda>i. hd (split_on CHR ''.'' i) = [] \<or> hd (split_on CHR ''.'' i) \<notin> set (sem_refs s))
         (sem_input s))"

primrec validatePatternNodeBindings :: "pattern_node \<Rightarrow> string list" where
  "validatePatternNodeBindings (EventN ref) = []"
| "validatePatternNodeBindings (AllOf cs) = concat (map validatePatternNodeBindings cs)"
| "validatePatternNodeBindings (AnyOf cs) = concat (map validatePatternNodeBindings cs)"
| "validatePatternNodeBindings (SequenceN cs ct) = concat (map validatePatternNodeBindings cs)"
| "validatePatternNodeBindings (RepeatN c mn mx md ct) = validatePatternNodeBindings c"
| "validatePatternNodeBindings (OptionalN c md) = validatePatternNodeBindings c"
| "validatePatternNodeBindings (NotNext c f) = validatePatternNodeBindings c @ validatePatternNodeBindings f"
| "validatePatternNodeBindings (NotFollowedBy i c f ms) =
     validatePatternNodeBindings c @ validatePatternNodeBindings f"
| "validatePatternNodeBindings (WindowN w c) = validatePatternNodeBindings c"
| "validatePatternNodeBindings (CalendarN s c) =
     requireBindings [cal_ref s] c ''calendar'' @ validatePatternNodeBindings c"
| "validatePatternNodeBindings (AbsenceN s c) =
     requireBindings [abs_afterRef s] c ''absence'' @ validatePatternNodeBindings c"
| "validatePatternNodeBindings (NotPresent c ref) = validatePatternNodeBindings c"
| "validatePatternNodeBindings (AfterN c ref aref) =
     requireBindings [ref, aref] c ''after'' @ validatePatternNodeBindings c"
| "validatePatternNodeBindings (UntilN c ref bref) =
     requireBindings [ref, bref] c ''until'' @ validatePatternNodeBindings c"
| "validatePatternNodeBindings (DebounceN i c ref ms) = validatePatternNodeBindings c"
| "validatePatternNodeBindings (ThresholdN c ref k) = validatePatternNodeBindings c"
| "validatePatternNodeBindings (RateN c ref k ms) = validatePatternNodeBindings c"
| "validatePatternNodeBindings (DistinctN c ref path k) = validatePatternNodeBindings c"
| "validatePatternNodeBindings (CompareN s c) =
     requireBindings (valueRefs (cmp_left s) @
       (case cmp_right s of None \<Rightarrow> [] | Some v \<Rightarrow> valueRefs v)) c ''compare'' @
     validatePatternNodeBindings c"
| "validatePatternNodeBindings (AggregateN s op v c) =
     requireBindings [agg_ref s] c ''aggregate'' @ validatePatternNodeBindings c"
| "validatePatternNodeBindings (StateN s c) =
     requireBindings [st_ref s] c ''state'' @ validatePatternNodeBindings c"
| "validatePatternNodeBindings (SemanticN s c) =
     requireBindings (sem_refs s) c ''semantic'' @ semantic_input_issues s @
     validatePatternNodeBindings c"

subsection \<open>Schema conditions\<close>

definition id_ok :: "string \<Rightarrow> bool" where
  "id_ok s \<longleftrightarrow> 1 \<le> length s \<and> length s \<le> 200"

text \<open>\<open>/^(?:[01]\d|2[0-3]):[0-5]\d$/\<close> and \<open>/^\d{4}-\d{2}-\d{2}$/\<close>.\<close>

definition clock_ok :: "string \<Rightarrow> bool" where
  "clock_ok s = (case s of
     [a, b, c, d, e] \<Rightarrow> ((a = CHR ''0'' \<or> a = CHR ''1'') \<and> is_digit b \<or>
         a = CHR ''2'' \<and> is_digit b \<and> digit_val b \<le> 3) \<and>
       c = CHR '':'' \<and> is_digit d \<and> digit_val d \<le> 5 \<and> is_digit e
   | _ \<Rightarrow> False)"

definition calendar_date_ok :: "string \<Rightarrow> bool" where
  "calendar_date_ok s \<longleftrightarrow> length s = 10 \<and> s ! 4 = CHR ''-'' \<and> s ! 7 = CHR ''-'' \<and>
     list_all is_digit (take 4 s @ take 2 (drop 5 s) @ drop 8 s)"

definition opt_all :: "('a \<Rightarrow> bool) \<Rightarrow> 'a option \<Rightarrow> bool" where
  "opt_all P x = (case x of None \<Rightarrow> True | Some y \<Rightarrow> P y)"

definition selector_ok :: "selector \<Rightarrow> nat option \<Rightarrow> bool" where
  "selector_ok sel n \<longleftrightarrow> (sel = SelNth \<longrightarrow> n \<noteq> None)"

fun value_ok :: "arith_value \<Rightarrow> bool" where
  "value_ok (VLiteral v) = scalar v"
| "value_ok (VField ref path sel n) = (id_ok ref \<and> path \<noteq> [] \<and> selector_ok sel n)"
| "value_ok (VOccurredAt ref sel n) = (id_ok ref \<and> selector_ok sel n)"
| "value_ok (VArith op args) =
     ((if op = AAbs then length args = 1 else 2 \<le> length args \<and> length args \<le> 8) \<and>
      list_all value_ok args)"

definition window_ok :: "pattern_window \<Rightarrow> bool" where
  "window_ok w = (case w of
     WWithin sz \<Rightarrow> 0 < sz | WSliding sz \<Rightarrow> 0 < sz | WTumbling sz off \<Rightarrow> 0 < sz \<and> 0 \<le> off
   | WHopping sz hop off \<Rightarrow> 0 < sz \<and> 0 < hop \<and> 0 \<le> off | WSession gap \<Rightarrow> 0 < gap | WCount sz \<Rightarrow> 1 \<le> sz)"

definition calendar_ok :: "calendar_spec \<Rightarrow> bool" where
  "calendar_ok s \<longleftrightarrow> id_ok (cal_ref s) \<and> cal_timezone s \<noteq> [] \<and>
     opt_all clock_ok (cal_before s) \<and> opt_all clock_ok (cal_after s) \<and>
     opt_all (\<lambda>ws. ws \<noteq> [] \<and> list_all (\<lambda>w. 1 \<le> w \<and> w \<le> 7) ws) (cal_weekdays s) \<and>
     opt_all (\<lambda>ds. ds \<noteq> [] \<and> list_all calendar_date_ok ds) (cal_dates s) \<and>
     opt_all (\<lambda>(a, b). calendar_date_ok a \<and> calendar_date_ok b) (cal_dateRange s) \<and>
     opt_all (\<lambda>ds. ds \<noteq> [] \<and> list_all (\<lambda>d. 1 \<le> d \<and> d \<le> 31) ds) (cal_dayOfMonth s)"

definition absence_ok :: "absence_spec \<Rightarrow> bool" where
  "absence_ok s \<longleftrightarrow> id_ok (abs_id s) \<and> id_ok (abs_ref s) \<and> id_ok (abs_afterRef s) \<and>
     opt_all (\<lambda>ms. 0 < ms) (abs_forMs s) \<and> opt_all clock_ok (abs_untilLocalTime s) \<and>
     opt_all (\<lambda>z. z \<noteq> []) (abs_timezone s) \<and>
     (abs_forMs s \<noteq> None \<or> abs_untilLocalTime s \<noteq> None) \<and>
     (abs_untilLocalTime s \<noteq> None \<longrightarrow> abs_timezone s \<noteq> None)"

definition compare_ok :: "compare_spec \<Rightarrow> bool" where
  "compare_ok s \<longleftrightarrow> value_ok (cmp_left s) \<and> opt_all value_ok (cmp_right s) \<and>
     opt_all (list_all scalar) (cmp_values s) \<and> opt_all scalar (cmp_lower s) \<and> opt_all scalar (cmp_upper s) \<and>
     opt_all (\<lambda>f. length f \<le> 10) (cmp_flags s) \<and>
     (case cmp_op s of
        CIn \<Rightarrow> cmp_values s \<noteq> None \<and> cmp_values s \<noteq> Some []
      | CNotIn \<Rightarrow> cmp_values s \<noteq> None \<and> cmp_values s \<noteq> Some []
      | CBetween \<Rightarrow> cmp_lower s \<noteq> None \<and> cmp_upper s \<noteq> None
      | CType \<Rightarrow> cmp_expectedType s \<noteq> None
      | CIsNull \<Rightarrow> True
      | _ \<Rightarrow> cmp_right s \<noteq> None)"

definition unit_interval :: "jsnum \<Rightarrow> bool" where
  "unit_interval n \<longleftrightarrow> num_le (Fin 0) n \<and> num_le n (Fin 1)"

definition aggregate_ok :: "aggregate_spec \<Rightarrow> bool" where
  "aggregate_ok s \<longleftrightarrow> id_ok (agg_ref s) \<and> opt_all (\<lambda>p. p \<noteq> []) (agg_path s) \<and>
     opt_all unit_interval (agg_percentile s) \<and>
     (agg_function s \<noteq> FCount \<longrightarrow> agg_path s \<noteq> None) \<and>
     (agg_function s = FNth \<longrightarrow> agg_nth s \<noteq> None) \<and>
     (agg_function s = FPercentile \<longrightarrow> agg_percentile s \<noteq> None)"

definition state_ok :: "state_spec \<Rightarrow> bool" where
  "state_ok s \<longleftrightarrow> id_ok (st_ref s) \<and> st_path s \<noteq> [] \<and>
     opt_all scalar (st_from s) \<and> opt_all scalar (st_to s) \<and> opt_all is_finite (st_value s) \<and>
     opt_all (\<lambda>ms. 0 < ms) (st_forMs s) \<and>
     (case st_op s of
        SChanged \<Rightarrow> True
      | SChangedFrom \<Rightarrow> st_from s \<noteq> None \<and> st_to s \<noteq> None
      | SStableFor \<Rightarrow> st_forMs s \<noteq> None
      | _ \<Rightarrow> st_value s \<noteq> None)"

definition semantic_ok :: "semantic_spec \<Rightarrow> bool" where
  "semantic_ok s \<longleftrightarrow> id_ok (sem_id s) \<and> sem_refs s \<noteq> [] \<and> list_all id_ok (sem_refs s) \<and>
     1 \<le> length (sem_instruction s) \<and> length (sem_instruction s) \<le> 4000 \<and>
     sem_input s \<noteq> [] \<and> list_all (\<lambda>i. i \<noteq> []) (sem_input s) \<and>
     unit_interval (sem_matchThreshold s) \<and> unit_interval (sem_rejectThreshold s) \<and>
     0 < sem_timeoutMs s \<and> sem_timeoutMs s \<le> 60000 \<and>
     num_le (sem_rejectThreshold s) (sem_matchThreshold s)"

primrec node_ok :: "pattern_node \<Rightarrow> bool" where
  "node_ok (EventN ref) = id_ok ref"
| "node_ok (AllOf cs) = (2 \<le> length cs \<and> list_all (\<lambda>b. b) (map node_ok cs))"
| "node_ok (AnyOf cs) = (1 \<le> length cs \<and> list_all (\<lambda>b. b) (map node_ok cs))"
| "node_ok (SequenceN cs ct) = (2 \<le> length cs \<and> list_all (\<lambda>b. b) (map node_ok cs))"
| "node_ok (RepeatN c mn mx md ct) = (node_ok c \<and> opt_all (\<lambda>m. 1 \<le> m \<and> mn \<le> m) mx)"
| "node_ok (OptionalN c md) = node_ok c"
| "node_ok (NotNext c f) = (node_ok c \<and> node_ok f)"
| "node_ok (NotFollowedBy i c f ms) = (id_ok i \<and> node_ok c \<and> node_ok f \<and> 0 < ms)"
| "node_ok (WindowN w c) = (window_ok w \<and> node_ok c)"
| "node_ok (CalendarN s c) = (calendar_ok s \<and> node_ok c)"
| "node_ok (AbsenceN s c) = (absence_ok s \<and> node_ok c)"
| "node_ok (NotPresent c ref) = (node_ok c \<and> id_ok ref)"
| "node_ok (AfterN c ref aref) = (node_ok c \<and> id_ok ref \<and> id_ok aref)"
| "node_ok (UntilN c ref bref) = (node_ok c \<and> id_ok ref \<and> id_ok bref)"
| "node_ok (DebounceN i c ref ms) = (id_ok i \<and> node_ok c \<and> id_ok ref \<and> 0 < ms)"
| "node_ok (ThresholdN c ref k) = (node_ok c \<and> id_ok ref \<and> 1 \<le> k)"
| "node_ok (RateN c ref k ms) = (node_ok c \<and> id_ok ref \<and> 1 \<le> k \<and> 0 < ms)"
| "node_ok (DistinctN c ref path k) = (node_ok c \<and> id_ok ref \<and> path \<noteq> [] \<and> 1 \<le> k)"
| "node_ok (CompareN s c) = (compare_ok s \<and> node_ok c)"
| "node_ok (AggregateN s op v c) = (aggregate_ok s \<and> is_finite v \<and> node_ok c)"
| "node_ok (StateN s c) = (state_ok s \<and> node_ok c)"
| "node_ok (SemanticN s c) = (semantic_ok s \<and> node_ok c)"

definition definition_ok :: "pattern_definition \<Rightarrow> bool" where
  "definition_ok d \<longleftrightarrow> node_ok (pat_root d) \<and> validatePatternNodeBindings (pat_root d) = [] \<and>
     1 \<le> sel_maxMatchesPerEvent (pat_selection d) \<and> sel_maxMatchesPerEvent (pat_selection d) \<le> 100 \<and>
     1 \<le> ex_maxCandidates (pat_execution d) \<and> ex_maxCandidates (pat_execution d) \<le> 10000 \<and>
     ex_maxSemanticEvaluations (pat_execution d) \<le> 1000 \<and>
     1 \<le> ex_maxBufferedEvents (pat_execution d) \<and> ex_maxBufferedEvents (pat_execution d) \<le> 1000000"

subsection \<open>The structural preflight\<close>

text \<open>
  What \<open>boundedAst\<close> sees of an expression: an object with its branches, in the order in which
  they are pushed (\<open>children\<close>, \<open>child\<close>, \<open>forbidden\<close>, \<open>left\<close>, \<open>right\<close>, \<open>args\<close>). A term of the
  datatype has no object that is its own ancestor, so that the test against the active path
  never rejects and the exit frames have no effect.
\<close>

datatype shape = Shape (branches: "shape list")

primrec value_shape :: "arith_value \<Rightarrow> shape" where
  "value_shape (VLiteral v) = Shape []"
| "value_shape (VField ref path sel n) = Shape []"
| "value_shape (VOccurredAt ref sel n) = Shape []"
| "value_shape (VArith op args) = Shape (map value_shape args)"

primrec node_shape :: "pattern_node \<Rightarrow> shape" where
  "node_shape (EventN ref) = Shape []"
| "node_shape (AllOf cs) = Shape (map node_shape cs)"
| "node_shape (AnyOf cs) = Shape (map node_shape cs)"
| "node_shape (SequenceN cs ct) = Shape (map node_shape cs)"
| "node_shape (RepeatN c mn mx md ct) = Shape [node_shape c]"
| "node_shape (OptionalN c md) = Shape [node_shape c]"
| "node_shape (NotNext c f) = Shape [node_shape c, node_shape f]"
| "node_shape (NotFollowedBy i c f ms) = Shape [node_shape c, node_shape f]"
| "node_shape (WindowN w c) = Shape [node_shape c]"
| "node_shape (CalendarN s c) = Shape [node_shape c]"
| "node_shape (AbsenceN s c) = Shape [node_shape c]"
| "node_shape (NotPresent c ref) = Shape [node_shape c]"
| "node_shape (AfterN c ref aref) = Shape [node_shape c]"
| "node_shape (UntilN c ref bref) = Shape [node_shape c]"
| "node_shape (DebounceN i c ref ms) = Shape [node_shape c]"
| "node_shape (ThresholdN c ref k) = Shape [node_shape c]"
| "node_shape (RateN c ref k ms) = Shape [node_shape c]"
| "node_shape (DistinctN c ref path k) = Shape [node_shape c]"
| "node_shape (CompareN s c) = Shape ([node_shape c, value_shape (cmp_left s)] @
     (case cmp_right s of None \<Rightarrow> [] | Some v \<Rightarrow> [value_shape v]))"
| "node_shape (AggregateN s op v c) = Shape [node_shape c]"
| "node_shape (StateN s c) = Shape [node_shape c]"
| "node_shape (SemanticN s c) = Shape [node_shape c]"

definition MAX_EVALUATION_AST_NODES :: nat where
  "MAX_EVALUATION_AST_NODES = 4096"

definition MAX_EVALUATION_AST_DEPTH :: nat where
  "MAX_EVALUATION_AST_DEPTH = 128"

text \<open>The loop over the pending frames with the number of nodes visited so far.\<close>

function bounded_loop :: "(shape \<times> nat) list \<Rightarrow> nat \<Rightarrow> bool" where
  "bounded_loop [] n = True"
| "bounded_loop ((Shape ks, depth) # pending) n =
     (if MAX_EVALUATION_AST_DEPTH < depth \<or> MAX_EVALUATION_AST_NODES < n + 1 then False
      else if MAX_EVALUATION_AST_NODES < length ks + (n + 1) then False
      else bounded_loop (map (\<lambda>k. (k, depth + 1)) ks @ pending) (n + 1))"
  by pat_completeness auto
termination
proof (relation "measure (\<lambda>(st, n). sum_list (map (\<lambda>x. size (fst x)) st))")
  fix ks depth and pending :: "(shape \<times> nat) list" and n
  show "((map (\<lambda>k. (k, depth + 1)) ks @ pending, n + 1), ((Shape ks, depth) # pending, n))
      \<in> measure (\<lambda>(st, n). sum_list (map (\<lambda>x. size (fst x)) st))"
    by (simp add: comp_def size_list_conv_sum_list)
qed simp

definition boundedAst :: "pattern_node \<Rightarrow> bool" where
  "boundedAst node = bounded_loop [(node_shape node, 0)] 0"

fun shape_nodes :: "shape \<Rightarrow> nat" where
  "shape_nodes (Shape ks) = 1 + sum_list (map shape_nodes ks)"

fun shape_height :: "shape \<Rightarrow> nat" where
  "shape_height (Shape ks) = Max (set (0 # map (\<lambda>k. Suc (shape_height k)) ks))"

lemma shape_nodes_pos: "1 \<le> shape_nodes s"
  by (cases s) simp

lemma shape_nodes_length: "length ks \<le> sum_list (map shape_nodes ks)"
  using sum_list_mono [of ks "\<lambda>_. 1" shape_nodes] shape_nodes_pos by (simp add: sum_list_triv)

lemma shape_height_le:
  "d + shape_height (Shape ks) \<le> m \<longleftrightarrow> d \<le> m \<and> (\<forall>k \<in> set ks. Suc (d + shape_height k) \<le> m)"
proof -
  have "shape_height (Shape ks) \<le> x \<longleftrightarrow> (\<forall>k \<in> set ks. Suc (shape_height k) \<le> x)" for x
    by simp
  from this [of "m - d"] show ?thesis by (cases "d \<le> m") (auto simp del: shape_height.simps)
qed

lemma bounded_loop_iff:
  "n \<le> MAX_EVALUATION_AST_NODES \<Longrightarrow>
   bounded_loop st n \<longleftrightarrow>
     (\<forall>(s, d) \<in> set st. d + shape_height s \<le> MAX_EVALUATION_AST_DEPTH) \<and>
     n + sum_list (map (\<lambda>x. shape_nodes (fst x)) st) \<le> MAX_EVALUATION_AST_NODES"
proof (induction st n rule: bounded_loop.induct)
  case (2 ks depth pending n)
  let ?total = "n + sum_list (map (\<lambda>x. shape_nodes (fst x)) ((Shape ks, depth) # pending))"
  have total: "length ks + (n + 1) \<le> ?total"
    using shape_nodes_length [of ks] by simp
  show ?case
  proof (cases "MAX_EVALUATION_AST_DEPTH < depth \<or> MAX_EVALUATION_AST_NODES < length ks + (n + 1)")
    case True
    then show ?thesis using total shape_height_le [of depth ks MAX_EVALUATION_AST_DEPTH] by auto
  next
    case False
    then show ?thesis
      using 2 by (simp add: shape_height_le comp_def ball_Un add.assoc conj_ac del: shape_height.simps)
  qed
qed simp

text \<open>
  The preflight accepts a pattern exactly when it has at most 4096 nodes, expressions
  included, none deeper than 128.
\<close>

theorem boundedAst_iff:
  "boundedAst node \<longleftrightarrow> shape_nodes (node_shape node) \<le> 4096 \<and> shape_height (node_shape node) \<le> 128"
  by (auto simp: boundedAst_def bounded_loop_iff MAX_EVALUATION_AST_NODES_def MAX_EVALUATION_AST_DEPTH_def)

subsection \<open>Guaranteed bindings\<close>

lemma set_common_refs: "set (common_refs sets) = (if sets = [] then {} else \<Inter> (set ` set sets))"
  by (cases sets) (auto simp: common_refs_def list_all_iff)

lemma guaranteed_subset_refs: "set (guaranteed n) \<subseteq> set (ref_visits n)"
proof (induction n)
  case (AnyOf cs)
  then show ?case by (cases cs) (auto simp: set_common_refs)
next
  case (AllOf cs)
  then show ?case by fastforce
next
  case (SequenceN cs ct)
  then show ?case by fastforce
qed auto

lemma requireBindings_Nil: "requireBindings refs c l = [] \<longleftrightarrow> set refs \<subseteq> set (guaranteed c)"
  by (auto simp: requireBindings_def collectGuaranteedPatternBindings_def filter_empty_conv)

end
