(* ===== verification/Matching.thy ===== *)
theory Matching
  imports Trigger_Schema
begin

text \<open>
  \<open>src/composite/matching.ts\<close>: which events a clause of a trigger admits, the source-event
  record made from an admitted event, and the physical identity of an event.
\<close>

subsection \<open>Values of paths\<close>

text \<open>
  \<open>a === b\<close> on the values of paths, \<open>None\<close> being \<open>undefined\<close>. A compound value is a copy made
  for the comparison and is never identical to another value.
\<close>

fun strict_eq :: "json option \<Rightarrow> json option \<Rightarrow> bool" where
  "strict_eq None None = True"
| "strict_eq (Some (JNum a)) (Some (JNum b)) = num_eq a b"
| "strict_eq (Some a) (Some b) = (scalar a \<and> a = b)"
| "strict_eq _ _ = False"

text \<open>\<open>values.includes(v)\<close>, by SameValueZero.\<close>

definition js_includes :: "json list \<Rightarrow> json option \<Rightarrow> bool" where
  "js_includes vs v = list_ex (\<lambda>w. strict_eq (Some w) v \<or> (v = Some (JNum NaN) \<and> w = JNum NaN)) vs"

definition has_type :: "json option \<Rightarrow> json_type \<Rightarrow> bool" where
  "has_type v ty = (case ty of
     TNull \<Rightarrow> v = Some JNull
   | TArray \<Rightarrow> (case v of Some (JArr _) \<Rightarrow> True | _ \<Rightarrow> False)
   | TObject \<Rightarrow> (case v of Some (JObj _) \<Rightarrow> True | _ \<Rightarrow> False)
   | TString \<Rightarrow> (case v of Some (JStr _) \<Rightarrow> True | _ \<Rightarrow> False)
   | TNumber \<Rightarrow> (case v of Some (JNum _) \<Rightarrow> True | _ \<Rightarrow> False)
   | TBoolean \<Rightarrow> (case v of Some (JBool _) \<Rightarrow> True | _ \<Rightarrow> False))"

text \<open>\<open>value >= lower && value <= upper\<close> where both bounds have the type of the value.\<close>

definition between :: "json option \<Rightarrow> json \<Rightarrow> json \<Rightarrow> bool" where
  "between v lower upper = (case v of
     Some (JNum x) \<Rightarrow> (case (lower, upper) of
         (JNum l, JNum u) \<Rightarrow> num_le l x \<and> num_le x u | _ \<Rightarrow> False)
   | Some (JStr s) \<Rightarrow> (case (lower, upper) of
         (JStr l, JStr u) \<Rightarrow> str_le l s \<and> str_le s u | _ \<Rightarrow> False)
   | _ \<Rightarrow> False)"

definition starts_with :: "string \<Rightarrow> string \<Rightarrow> bool" where
  "starts_with s p = (take (length p) s = p)"

definition ends_with :: "string \<Rightarrow> string \<Rightarrow> bool" where
  "ends_with s p = (length p \<le> length s \<and> drop (length s - length p) s = p)"

definition as_string :: "json option \<Rightarrow> string option" where
  "as_string v = (case v of Some (JStr s) \<Rightarrow> Some s | _ \<Rightarrow> None)"

definition as_number :: "json option \<Rightarrow> jsnum option" where
  "as_number v = (case v of Some (JNum n) \<Rightarrow> Some n | _ \<Rightarrow> None)"

text \<open>\<open>JSON.stringify(stableValue(left ?? {})) === JSON.stringify(stableValue(right ?? {}))\<close>.\<close>

definition sameSubscriptionArguments :: "jobj \<Rightarrow> jobj \<Rightarrow> bool" where
  "sameSubscriptionArguments left right \<longleftrightarrow>
     stringify (stableValue (JObj left)) = stringify (stableValue (JObj right))"

subsection \<open>Predicates\<close>

definition predicate_holds :: "host \<Rightarrow> predicate_op \<Rightarrow> json option \<Rightarrow> bool" where
  "predicate_holds h op value = (case op of
     PEq v \<Rightarrow> strict_eq value (Some v)
   | PNeq v \<Rightarrow> \<not> strict_eq value (Some v)
   | PContains v \<Rightarrow> (case value of
         Some (JStr s) \<Rightarrow> contains_str s (js_string v)
       | Some (JArr vs) \<Rightarrow> js_includes vs (Some v)
       | _ \<Rightarrow> False)
   | PStartsWith p \<Rightarrow> (case as_string value of Some s \<Rightarrow> starts_with s p | None \<Rightarrow> False)
   | PEndsWith p \<Rightarrow> (case as_string value of Some s \<Rightarrow> ends_with s p | None \<Rightarrow> False)
   | PRegex p flags \<Rightarrow> (case as_string value of
         Some s \<Rightarrow> regex_test h p (case flags of None \<Rightarrow> [] | Some f \<Rightarrow> f) s = Some True
       | None \<Rightarrow> False)
   | PIn vs \<Rightarrow> js_includes vs value
   | PNotIn vs \<Rightarrow> \<not> js_includes vs value
   | PBetween l u \<Rightarrow> between value l u
   | PExists b \<Rightarrow> (if b then value \<noteq> None else value = None)
   | PIsNull b \<Rightarrow> (if b then value = Some JNull \<or> value = None
                 else value \<noteq> Some JNull \<and> value \<noteq> None)
   | PType ty \<Rightarrow> has_type value ty
   | PGt n \<Rightarrow> (case as_number value of Some x \<Rightarrow> num_less n x | None \<Rightarrow> False)
   | PGte n \<Rightarrow> (case as_number value of Some x \<Rightarrow> num_le n x | None \<Rightarrow> False)
   | PLt n \<Rightarrow> (case as_number value of Some x \<Rightarrow> num_less x n | None \<Rightarrow> False)
   | PLte n \<Rightarrow> (case as_number value of Some x \<Rightarrow> num_le x n | None \<Rightarrow> False))"

definition predicateMatches :: "host \<Rightarrow> correlatable_event \<Rightarrow> predicate \<Rightarrow> bool" where
  "predicateMatches h event p =
     predicate_holds h (pred_op p) (read_path (JObj (ce_data event)) (pred_path p))"

text \<open>\<open>!clause.serverId || ...\<close>: an absent or empty string is falsy.\<close>

definition truthy_str :: "string option \<Rightarrow> bool" where
  "truthy_str s \<longleftrightarrow> s \<noteq> None \<and> s \<noteq> Some []"

definition clauseMatches :: "host \<Rightarrow> trigger_clause \<Rightarrow> correlatable_event \<Rightarrow> bool" where
  "clauseMatches h clause event =
     (let contractVersion = read_path (JObj (ce_data event)) ''_derived.contractVersion'' in
      clause_event clause = ce_name event \<and>
      (\<not> truthy_str (clause_serverId clause) \<or> clause_serverId clause = ce_serverId event) \<and>
      sameSubscriptionArguments (clause_arguments clause) (ce_subscriptionArguments event) \<and>
      (\<not> truthy_str (clause_contractVersion clause) \<or>
         Some (case contractVersion of None \<Rightarrow> [] | Some JNull \<Rightarrow> [] | Some v \<Rightarrow> js_string v) =
         clause_contractVersion clause) \<and>
      list_all (predicateMatches h event) (clause_where clause))"

definition asSourceEvent :: "string \<Rightarrow> correlatable_event \<Rightarrow> source_event" where
  "asSourceEvent cid event =
     \<lparr>clauseId = cid, traceId = ce_traceId event, sourceEventId = ce_sourceEventId event,
      eventName = ce_name event, occurredAt = ce_occurredAt event,
      receivedAt = ce_receivedAt event,
      provider = (if truthy_str (ce_provider event) then ce_provider event else None),
      serverId = (if truthy_str (ce_serverId event) then ce_serverId event else None),
      subscriptionArguments = ce_subscriptionArguments event,
      payloadHash = (if truthy_str (ce_payloadHash event) then ce_payloadHash event else None),
      event_data = ce_data event\<rparr>"

definition sameEventIdentity :: "source_event \<Rightarrow> correlatable_event \<Rightarrow> bool" where
  "sameEventIdentity source event \<longleftrightarrow>
     sourceEventId source = ce_sourceEventId event \<and> serverId source = ce_serverId event \<and>
     sameSubscriptionArguments (subscriptionArguments source) (ce_subscriptionArguments event)"

subsection \<open>Identity of subscription arguments\<close>

text \<open>
  Arguments are compared by their printed canonical form; that is the comparison as JSON
  values, key order aside.
\<close>

lemma stable_ok: "json_ok v \<Longrightarrow> json_ok (stableValue v)"
proof (induction v)
  case (JNum n)
  then show ?case by (cases n) auto
next
  case (JObj kvs)
  let ?es = "map (\<lambda>kv. (fst kv, stableValue (snd kv))) kvs"
  let ?s = "sort_by (key_cmp fst str_cmp) ?es"
  have "mset (map fst ?s) = mset (map fst kvs)"
    by (metis (no_types) mset_map mset_sort_by json_ok_map_stable)
  moreover have "distinct (map fst kvs)" using JObj.prems by simp
  ultimately have d: "distinct (map fst ?s)" using mset_eq_imp_distinct_iff by blast
  have "mset (map fst (from_entries ?s)) = mset (map fst ?s)"
    by (simp only: mset_map mset_from_entries [OF d])
  then have "distinct (map fst (from_entries ?s))"
    using d mset_eq_imp_distinct_iff by blast
  moreover have "json_ok (snd kv)" if "kv \<in> set (from_entries ?s)" for kv
  proof -
    have "kv \<in> set ?es" using that d by (simp only: set_from_entries set_sort_by)
    then obtain kw where kw: "kw \<in> set kvs" "kv = (fst kw, stableValue (snd kw))" by auto
    have "json_ok (snd kw)" using JObj.prems kw(1) by (simp add: list_all_iff)
    then have "json_ok (stableValue (snd kw))"
      using JObj.IH [OF kw(1), of "snd kw"] by (cases kw) (simp add: snds.intros)
    then show ?thesis by (simp add: kw(2))
  qed
  ultimately show ?case by (simp add: list_all_iff)
qed (auto simp: list_all_iff)

lemma sameSubscriptionArguments_iff:
  assumes "json_ok (JObj l)" and "json_ok (JObj r)"
  shows "sameSubscriptionArguments l r \<longleftrightarrow> same_json (JObj l) (JObj r)"
  using stringify_inj [OF stable_ok stable_ok, OF assms] stableValue_eq_iff [OF assms]
  by (simp add: sameSubscriptionArguments_def)

subsection \<open>Missing paths\<close>

text \<open>
  A predicate on a path that the event does not own holds exactly when it is one of the
  four that ask for absence or difference; every comparison fails closed.
\<close>

theorem predicate_on_missing_path:
  "predicate_holds h op None \<longleftrightarrow>
     (case op of PNeq v \<Rightarrow> True | PNotIn vs \<Rightarrow> True | PExists b \<Rightarrow> \<not> b | PIsNull b \<Rightarrow> b | _ \<Rightarrow> False)"
  by (auto simp: predicate_holds_def js_includes_def between_def has_type_def as_string_def
      as_number_def list_ex_iff split: predicate_op.splits json_type.splits)

end
