(* ===== verification/Trigger_Definition.thy ===== *)
theory Trigger_Definition
  imports Pattern_Ast Matching
begin

text \<open>
  Trigger definitions of \<open>src/intelligenceProtocol/triggerSchemas.ts\<close>: their records and the
  cross-field checks of \<open>CompositeTriggerDefinitionSchema\<close>, with what an accepted definition
  guarantees to the engine.
\<close>

subsection \<open>Records\<close>

record projection =
  proj_key :: string
  proj_ref :: string
  proj_path :: string

record derived_event_definition =
  de_name :: string
  de_contractVersion :: string
  de_projections :: "projection list"
  de_constants :: jobj
  de_measures :: "pattern_measure list"

record lifecycle_policy =
  lc_oneShot :: bool
  lc_maxFirings :: "nat option"
  lc_cooldownMs :: int
  lc_expiresAt :: "timestamp option"
  lc_leaseUntil :: "timestamp option"
  lc_completeOnGoal :: bool

record runtime_target =
  rt_runtime :: string
  rt_kind :: string
  rt_id :: string

record trigger_definition =
  td_triggerId :: string
  td_version :: string
  td_conditionOnly :: bool
  td_continuation :: "string option"
  td_clauses :: "trigger_clause list"
  td_pattern :: pattern_definition
  td_allowedLatenessMs :: "int option"
  td_lifecycle :: lifecycle_policy
  td_withinMs :: int
  td_target :: "runtime_target option"
  td_derivedEvent :: "derived_event_definition option"

subsection \<open>The checks\<close>

text \<open>\<open>TriggerLifecyclePolicySchema.superRefine\<close>; a \<open>maxFirings\<close> of at least 1 is truthy.\<close>

definition lifecycle_issues :: "lifecycle_policy \<Rightarrow> string list" where
  "lifecycle_issues l =
     (case lc_maxFirings l of
        Some n \<Rightarrow> if lc_oneShot l \<and> n \<noteq> 0 \<and> n \<noteq> 1
          then [''oneShot is incompatible with maxFirings other than 1''] else []
      | None \<Rightarrow> []) @
     (case (lc_expiresAt l, lc_leaseUntil l) of
        (Some e, Some u) \<Rightarrow> if ts_ms e < ts_ms u then [''leaseUntil cannot be after expiresAt''] else []
      | _ \<Rightarrow> [])"

definition effect_issues :: "trigger_definition \<Rightarrow> string list" where
  "effect_issues d =
     (if td_target d = None \<and> td_derivedEvent d = None \<and> \<not> td_conditionOnly d
      then [''Trigger requires target, derivedEvent, or conditionOnly=true''] else []) @
     (if td_conditionOnly d \<and> (td_target d \<noteq> None \<or> td_derivedEvent d \<noteq> None \<or> td_continuation d \<noteq> None)
      then [''conditionOnly triggers cannot declare target, derivedEvent, or continuation''] else []) @
     (if td_conditionOnly d \<and> (lc_oneShot (td_lifecycle d) \<or> lc_maxFirings (td_lifecycle d) \<noteq> None \<or>
           0 < lc_cooldownMs (td_lifecycle d) \<or> lc_completeOnGoal (td_lifecycle d))
      then [''conditionOnly triggers cannot use effect-based lifecycle fields''] else []) @
     (if td_continuation d \<noteq> None \<and> td_target d = None
      then [''Trigger continuation requires a runtime target''] else [])"

definition clause_ids :: "trigger_definition \<Rightarrow> string list" where
  "clause_ids d = map clause_id (td_clauses d)"

text \<open>The loop over the measures of a derived event; \<open>keys\<close> is \<open>measureKeys\<close>.\<close>

fun measure_issues :: "string list \<Rightarrow> jobj \<Rightarrow> string list \<Rightarrow> pattern_measure list \<Rightarrow> string list" where
  "measure_issues ids consts ks [] = []"
| "measure_issues ids consts ks (m # ms) =
     (if meas_key m = ''_derived'' then [''Derived event measure key _derived is reserved''] else []) @
     (if meas_key m \<in> set ks then [''Derived event measure key must be unique: '' @ meas_key m] else []) @
     (if meas_key m \<in> fst ` set consts
      then [''Derived event key cannot be both constant and measure: '' @ meas_key m] else []) @
     map (\<lambda>ref. ''Derived event measure '' @ meas_key m @ '' references unknown clause: '' @ ref)
       (filter (\<lambda>ref. ref \<notin> set ids) (collectPatternMeasureRefs m)) @
     measure_issues ids consts (meas_key m # ks) ms"

fun projection_issues ::
  "string list \<Rightarrow> jobj \<Rightarrow> string list \<Rightarrow> string list \<Rightarrow> projection list \<Rightarrow> string list"
where
  "projection_issues ids consts measureKeys ks [] = []"
| "projection_issues ids consts measureKeys ks (p # ps) =
     (if proj_ref p \<notin> set ids
      then [''Derived event projection references unknown clause: '' @ proj_ref p] else []) @
     (if proj_key p \<in> set measureKeys
      then [''Derived event key cannot be both measure and projection: '' @ proj_key p] else []) @
     (if proj_key p \<in> set ks
      then [''Derived event projection key must be unique: '' @ proj_key p] else []) @
     (if proj_key p = ''_derived'' then [''Derived event projection key _derived is reserved''] else []) @
     (if proj_key p \<in> fst ` set consts
      then [''Derived event key cannot be both constant and projection: '' @ proj_key p] else []) @
     projection_issues ids consts measureKeys (proj_key p # ks) ps"

definition derived_issues :: "trigger_definition \<Rightarrow> string list" where
  "derived_issues d = (case td_derivedEvent d of None \<Rightarrow> []
     | Some e \<Rightarrow>
         measure_issues (clause_ids d) (de_constants e) [] (de_measures e) @
         projection_issues (clause_ids d) (de_constants e) (map meas_key (de_measures e)) [] (de_projections e) @
         (if ''_derived'' \<in> fst ` set (de_constants e)
          then [''Derived event constant key _derived is reserved''] else []))"

text \<open>The fields of a partition dimension, with the references seen so far.\<close>

fun field_issues :: "string list \<Rightarrow> string \<Rightarrow> string list \<Rightarrow> (string \<times> string) list \<Rightarrow> string list" where
  "field_issues ids key sn [] = []"
| "field_issues ids key sn ((ref, path) # fs) =
     (if ref \<notin> set ids then [''Pattern partition '' @ key @ '' references unknown clause: '' @ ref] else []) @
     (if ref \<in> set sn
      then [''Pattern partition '' @ key @ '' has duplicate field mapping for '' @ ref] else []) @
     field_issues ids key (ref # sn) fs"

definition dimension_issues :: "trigger_definition \<Rightarrow> partition_dimension \<Rightarrow> string list" where
  "dimension_issues d dmn =
     field_issues (clause_ids d) (dim_key dmn) [] (dim_fields dmn) @
     map (\<lambda>ref. ''Pattern partition '' @ dim_key dmn @ '' does not map pattern ref: '' @ ref)
       (filter (\<lambda>ref. ref \<notin> fst ` set (dim_fields dmn)) (collectPatternRefs (pat_root (td_pattern d))))"

fun after_ref :: "after_match \<Rightarrow> string option" where
  "after_ref (SkipToFirst ref) = Some ref"
| "after_ref (SkipToLast ref) = Some ref"
| "after_ref _ = None"

definition pattern_issues :: "trigger_definition \<Rightarrow> string list" where
  "pattern_issues d =
     (let n = pat_root (td_pattern d); sure = collectGuaranteedPatternBindings n;
          oversized = filter (\<lambda>ms. td_withinMs d < ms) (collectPatternDurationsMs n)
      in map (\<lambda>ref. ''Pattern AST references unknown clause: '' @ ref)
           (filter (\<lambda>ref. ref \<notin> set (clause_ids d)) (collectPatternRefs n)) @
         concat (map (dimension_issues d) (pat_partitionBy (td_pattern d))) @
         (case after_ref (sel_afterMatch (pat_selection (td_pattern d))) of
            Some ref \<Rightarrow> if ref \<notin> set sure
              then [''Pattern afterMatch ref is not guaranteed by every match: '' @ ref] else []
          | None \<Rightarrow> []) @
         concat (map (\<lambda>m. map (\<lambda>ref. ''Derived measure '' @ meas_key m @
               '' references non-guaranteed pattern ref: '' @ ref)
             (filter (\<lambda>ref. ref \<notin> set sure) (collectPatternMeasureRefs m)))
           (case td_derivedEvent d of None \<Rightarrow> [] | Some e \<Rightarrow> de_measures e)) @
         (if oversized \<noteq> [] then [''Pattern AST duration exceeds trigger withinMs: '' @
            int_str (foldl max (hd oversized) oversized) @ '' > '' @ int_str (td_withinMs d)] else []))"

definition trigger_issues :: "trigger_definition \<Rightarrow> string list" where
  "trigger_issues d = lifecycle_issues (td_lifecycle d) @ effect_issues d @
     (if card (set (clause_ids d)) \<noteq> length (clause_ids d) then [''Trigger clause ids must be unique''] else []) @
     derived_issues d @ pattern_issues d"

definition trigger_ok :: "trigger_definition \<Rightarrow> bool" where
  "trigger_ok d \<longleftrightarrow> td_clauses d \<noteq> [] \<and> 0 < td_withinMs d \<and> definition_ok (td_pattern d) \<and> trigger_issues d = []"

subsection \<open>What an accepted definition guarantees\<close>

lemma measure_issues_Nil:
  "measure_issues ids consts ks ms = [] \<longleftrightarrow>
     distinct (map meas_key ms) \<and> set (map meas_key ms) \<inter> set ks = {} \<and>
     set (map meas_key ms) \<inter> fst ` set consts = {} \<and> ''_derived'' \<notin> set (map meas_key ms) \<and>
     (\<forall>m \<in> set ms. set (collectPatternMeasureRefs m) \<subseteq> set ids)"
  by (induction ms arbitrary: ks) (auto simp: filter_empty_conv)

lemma projection_issues_Nil:
  "projection_issues ids consts mks ks ps = [] \<longleftrightarrow>
     distinct (map proj_key ps) \<and> set (map proj_key ps) \<inter> set ks = {} \<and>
     set (map proj_key ps) \<inter> set mks = {} \<and> set (map proj_key ps) \<inter> fst ` set consts = {} \<and>
     ''_derived'' \<notin> set (map proj_key ps) \<and> set (map proj_ref ps) \<subseteq> set ids"
  by (induction ps arbitrary: ks) auto

lemma field_issues_Nil:
  "field_issues ids key sn fs = [] \<longleftrightarrow>
     distinct (map fst fs) \<and> set (map fst fs) \<inter> set sn = {} \<and> set (map fst fs) \<subseteq> set ids"
  by (induction ids key sn fs rule: field_issues.induct) auto

lemma dimension_issues_Nil:
  "dimension_issues d dmn = [] \<longleftrightarrow>
     distinct (map fst (dim_fields dmn)) \<and> set (map fst (dim_fields dmn)) \<subseteq> set (clause_ids d) \<and>
     set (collectPatternRefs (pat_root (td_pattern d))) \<subseteq> set (map fst (dim_fields dmn))"
  by (auto simp: dimension_issues_def field_issues_Nil filter_empty_conv)

text \<open>The keys of a derived event: those of its constants, measures and projections.\<close>

definition output_keys :: "derived_event_definition \<Rightarrow> string list" where
  "output_keys e = map fst (de_constants e) @ map meas_key (de_measures e) @ map proj_key (de_projections e)"


text \<open>A trigger over two clauses, partitioned by a field of each, with a derived event.\<close>

definition plain_clause :: "string \<Rightarrow> trigger_clause" where
  "plain_clause i = \<lparr>clause_id = i, clause_event = i @ ''.event'', clause_serverId = None,
     clause_contractVersion = None, clause_arguments = [], clause_where = []\<rparr>"

definition plain_lifecycle :: lifecycle_policy where
  "plain_lifecycle = \<lparr>lc_oneShot = False, lc_maxFirings = None, lc_cooldownMs = 0, lc_expiresAt = None,
     lc_leaseUntil = None, lc_completeOnGoal = False\<rparr>"

definition sample_trigger :: trigger_definition where
  "sample_trigger = \<lparr>td_triggerId = ''t'', td_version = ''1'', td_conditionOnly = False, td_continuation = None,
     td_clauses = [plain_clause ''a'', plain_clause ''b''],
     td_pattern = \<lparr>pat_root = SequenceN [EventN ''a'', EventN ''b''] FollowedBy,
       pat_partitionBy = [\<lparr>dim_key = ''user'', dim_fields = [(''a'', ''user''), (''b'', ''user'')]\<rparr>],
       pat_selection = \<lparr>sel_overlap_allow = False, sel_afterMatch = SkipToLast ''b'', sel_maxMatchesPerEvent = 10\<rparr>,
       pat_execution = \<lparr>ex_maxCandidates = 4, ex_maxSemanticEvaluations = 2, ex_maxBufferedEvents = 10\<rparr>\<rparr>,
     td_allowedLatenessMs = None, td_lifecycle = plain_lifecycle, td_withinMs = 60000, td_target = None,
     td_derivedEvent = Some \<lparr>de_name = ''pair'', de_contractVersion = ''1'',
       de_projections = [\<lparr>proj_key = ''n'', proj_ref = ''a'', proj_path = ''n''\<rparr>],
       de_constants = [(''kind'', JStr ''pair'')], de_measures = []\<rparr>\<rparr>"

lemma sample_trigger_ok: "trigger_ok sample_trigger"
proof -
  have "trigger_issues sample_trigger = []" by code_simp
  moreover have "node_ok (SequenceN [EventN ''a'', EventN ''b''] FollowedBy)"
    "validatePatternNodeBindings (SequenceN [EventN ''a'', EventN ''b''] FollowedBy) = []"
    by code_simp+
  ultimately show ?thesis
    by (simp add: trigger_ok_def definition_ok_def) (simp add: sample_trigger_def)
qed


end
