(* ===== verification/Semantic_Condition.thy ===== *)
theory Semantic_Condition
  imports Trigger_Schema
begin

text \<open>
  \<open>src/semantic/conditionEngine.ts\<close>: the input an evaluator of natural-language conditions
  gets to see, and the decision made from the probability it returns.
\<close>

subsection \<open>Requests, replies, decisions\<close>

record semantic_evaluation =
  se_evaluator :: string
  se_probability :: jsnum
  se_metadata :: "json option"

text \<open>
  What the promise of the external evaluator does: it settles with an evaluation, rejects, or
  is still open when the time allowed for it is over.
\<close>

datatype semantic_reply = Settles semantic_evaluation | Rejects js_error | StaysOpen

datatype semantic_outcome = OMatch | OReject | OUncertain

record semantic_decision =
  dec_outcome :: semantic_outcome
  dec_matched :: bool
  dec_shouldEscalate :: bool
  dec_probability :: jsnum
  dec_evaluator :: string
  dec_condition :: semantic_spec
  dec_metadata :: "json option"

subsection \<open>Operations\<close>

text \<open>
  A projected input maps each path to the value found there, \<open>None\<close> being \<open>undefined\<close>.
\<close>

definition projectSemanticInput :: "jobj \<Rightarrow> string list \<Rightarrow> (string \<times> json option) list" where
  "projectSemanticInput source paths =
     fold (\<lambda>path projected. obj_put path (read_path (JObj source) path) projected) paths []"

text \<open>\<open>JSON.stringify\<close> leaves out the undefined properties.\<close>

definition projected_json :: "(string \<times> json option) list \<Rightarrow> json" where
  "projected_json projected = JObj (concat (map (\<lambda>(k, v). case v of None \<Rightarrow> [] | Some j \<Rightarrow> [(k, j)]) projected))"

definition decide :: "semantic_spec \<Rightarrow> semantic_evaluation \<Rightarrow> js_error + semantic_decision" where
  "decide condition result =
     (let p = se_probability result;
          shared = (\<lambda>out matched esc. \<lparr>dec_outcome = out, dec_matched = matched,
            dec_shouldEscalate = esc, dec_probability = p, dec_evaluator = se_evaluator result,
            dec_condition = condition, dec_metadata = se_metadata result\<rparr>)
      in if \<not> is_finite p \<or> num_less p (Fin 0) \<or> num_less (Fin 1) p
         then Inl (JsError KError None ''Semantic evaluator probability must be between 0 and 1'')
         else if num_le (sem_matchThreshold condition) p then Inr (shared OMatch True False)
         else if num_le p (sem_rejectThreshold condition) then Inr (shared OReject False False)
         else Inr (shared OUncertain (sem_uncertain condition = UMatch)
                (sem_uncertain condition = UEscalate)))"

subsection \<open>Decisions are monotone in the probability\<close>

fun outcome_rank :: "semantic_outcome \<Rightarrow> nat" where
  "outcome_rank OReject = 0"
| "outcome_rank OUncertain = 1"
| "outcome_rank OMatch = 2"

lemma num_le_trans: "num_le a b \<Longrightarrow> num_le b c \<Longrightarrow> num_le a c"
  by (cases a; cases b; cases c) (auto simp: num_le_def)

text \<open>
  A decision exists exactly for a probability between 0 and 1.
\<close>

theorem decide_defined:
  "(\<exists>d. decide condition r = Inr d) \<longleftrightarrow>
     is_finite (se_probability r) \<and> num_le (Fin 0) (se_probability r) \<and> num_le (se_probability r) (Fin 1)"
  by (cases "se_probability r") (auto simp: decide_def Let_def num_le_def)

text \<open>
  A higher probability never gives a lower outcome, and what matches at a probability
  matches at every higher one, under each policy for the uncertain range.
\<close>

theorem decide_monotone:
  assumes "decide condition r = Inr d" and "decide condition s = Inr e"
    and "num_le (se_probability r) (se_probability s)"
  shows "outcome_rank (dec_outcome d) \<le> outcome_rank (dec_outcome e) \<and>
    (dec_matched d \<longrightarrow> dec_matched e)"
  using assms num_le_trans [of "sem_matchThreshold condition" "se_probability r" "se_probability s"]
    num_le_trans [of "se_probability r" "se_probability s" "sem_rejectThreshold condition"]
  by (auto simp: decide_def Let_def split: if_splits)

definition sample_condition :: semantic_spec where
  "sample_condition = \<lparr>sem_id = ''s'', sem_refs = [''a''], sem_instruction = ''i'', sem_input = [''a.n''],
     sem_matchThreshold = Fin (3/4), sem_rejectThreshold = Fin (1/4), sem_uncertain = UEscalate,
     sem_cache = True, sem_timeoutMs = 5000, sem_onUnavailable = OnError\<rparr>"

definition sample_evaluation :: "rat \<Rightarrow> semantic_evaluation" where
  "sample_evaluation p = \<lparr>se_evaluator = ''e'', se_probability = Fin p, se_metadata = None\<rparr>"

lemma decide_monotone_witness:
  "\<exists>d e. decide sample_condition (sample_evaluation (1/2)) = Inr d \<and>
     decide sample_condition (sample_evaluation 1) = Inr e \<and>
     outcome_rank (dec_outcome d) \<le> outcome_rank (dec_outcome e)"
proof -
  obtain d e where d: "decide sample_condition (sample_evaluation (1/2)) = Inr d"
    and e: "decide sample_condition (sample_evaluation 1) = Inr e"
    by (simp add: decide_def sample_condition_def sample_evaluation_def Let_def)
  from decide_monotone [OF d e] d e show ?thesis by (simp add: sample_evaluation_def)
qed

end
