(* ===== verification/Samples.thy ===== *)
theory Samples
  imports Trigger_Schema
begin

text \<open>
  Small concrete inputs on which the properties of the development are instantiated: a host
  that collates by code units, knows one time zone and compiles no regular expression, and
  events of two or three clauses.
\<close>

definition utc_parts :: "int \<Rightarrow> raw_parts" where
  "utc_parts t =
     (let (y, m, d) = civil_from_days (t div ms_per_day); r = t mod ms_per_day in
      \<lparr>raw_year = int_str y, raw_month = pad0 2 (int_str m), raw_day = pad0 2 (int_str d),
       raw_hour = pad0 2 (int_str (r div 3600000)), raw_minute = pad0 2 (int_str (r div 60000 mod 60)),
       raw_second = pad0 2 (int_str (r div 1000 mod 60)),
       raw_weekday = [''Mon'', ''Tue'', ''Wed'', ''Thu'', ''Fri'', ''Sat'', ''Sun''] !
         nat ((t div ms_per_day + 3) mod 7)\<rparr>)"

text \<open>A zone two hours ahead of UTC.\<close>

definition sample_zones :: zone_data where
  "sample_zones tz t = (if tz = ''UTC+2'' then Some (utc_parts (t + 7200000)) else None)"

definition sample_host :: host where
  "sample_host = \<lparr>collate = str_cmp, regex_test = (\<lambda>p f s. None), zones = sample_zones\<rparr>"

lemma collate_sample_host [simp]: "collate sample_host = str_cmp"
  by (simp add: sample_host_def)

lemma sample_collation: "comparator_law (collate sample_host)"
  using code_units.comparator_law_axioms by simp

text \<open>An event of a clause with an identifier, at a second.\<close>

definition sample_event :: "string \<Rightarrow> string \<Rightarrow> int \<Rightarrow> source_event" where
  "sample_event cid i sec =
     \<lparr>clauseId = cid, traceId = ''t'', sourceEventId = i, eventName = ''e'',
      occurredAt = Ts i (sec * 1000), receivedAt = None, provider = None, serverId = None,
      subscriptionArguments = [], payloadHash = None,
      event_data = [(''n'', JNum (Fin (of_int sec)))]\<rparr>"

lemma localDateTimeToUtc_sound_witness:
  "\<exists>t. localDateTimeToUtc sample_zones 2024 1 15 ''09:00'' ''UTC+2'' = Inr (Some t) \<and>
     ((\<exists>p. zonedParts sample_zones (Some t) ''UTC+2'' = Inr p \<and> parts_utc p = date_utc 2024 1 15 9 0 0) \<or>
      (\<exists>gs. length gs = 4 \<and> (\<forall>g \<in> set gs. \<exists>p. zonedParts sample_zones (time_clip g) ''UTC+2'' = Inr p \<and>
         parts_utc p \<noteq> date_utc 2024 1 15 9 0 0)))"
proof -
  have a: "localDateTimeToUtc sample_zones 2024 1 15 ''09:00'' ''UTC+2'' = Inr (Some 1705302000000)"
    by code_simp
  have b: "clock_hm ''09:00'' = (9, 0)" by code_simp
  from localDateTimeToUtc_sound [OF a b] a show ?thesis by blast
qed

end
