(* ===== verification/Candidate.thy ===== *)
theory Candidate
  imports Semantic_Condition Matching Samples
begin

text \<open>
  Candidates of \<open>src/patternV2/evaluator.ts\<close>: partial matches with the events bound to each
  clause, their identity, order and position, and the operations that combine, compare and
  deduplicate them.
\<close>

subsection \<open>State\<close>

type_synonym bindings = "(string \<times> source_event list) list"

record candidate =
  cand_bindings :: bindings
  cand_events :: "source_event list"
  startIndex :: int
  endIndex :: int
  pendingUntil :: "timestamp option"
  semanticDecisions :: "(string \<times> semantic_decision) list"

subsection \<open>Identity and order of events\<close>

definition eventIdentity :: "source_event \<Rightarrow> string" where
  "eventIdentity event = stringify (JArr
     [case serverId event of None \<Rightarrow> JNull | Some s \<Rightarrow> JStr s,
      JStr (sourceEventId event),
      stableValue (JObj (subscriptionArguments event))])"

definition eventOrder :: "host \<Rightarrow> source_event \<Rightarrow> source_event \<Rightarrow> int" where
  "eventOrder h =
     then_by (key_cmp event_ms int_cmp)
       (then_by (key_cmp sourceEventId (collate h)) (key_cmp clauseId (collate h)))"

text \<open>\<open>bindings[ref] ?? []\<close>.\<close>

definition bound :: "bindings \<Rightarrow> string \<Rightarrow> source_event list" where
  "bound b ref = (case map_of b ref of None \<Rightarrow> [] | Some es \<Rightarrow> es)"

definition stableEvents :: "host \<Rightarrow> bindings \<Rightarrow> source_event list" where
  "stableEvents h b = sort_by (eventOrder h) (first_by eventIdentity [] (concat (map snd b)))"

subsection \<open>Positions\<close>

definition indexedKey :: "source_event \<Rightarrow> string" where
  "indexedKey event = stringify (JArr [JStr (clauseId event), JStr (eventIdentity event)])"

text \<open>
  The cache of first positions: the keys seen so far with their positions, and how much of
  the input has been scanned. \<open>index_scan\<close> is the \<open>while\<close> loop over the unscanned suffix.
\<close>

record index_cache =
  cache_indexes :: "(string \<times> int) list"
  cache_scanned :: nat

fun index_scan :: "string \<Rightarrow> source_event list \<Rightarrow> index_cache \<Rightarrow> int \<times> index_cache" where
  "index_scan key [] st = (-1, st)"
| "index_scan key (e # rest) st =
     (let i = int (cache_scanned st);
          sourceKey = indexedKey e;
          idx = (if sourceKey \<in> fst ` set (cache_indexes st) then cache_indexes st
                 else map_put sourceKey i (cache_indexes st));
          st' = \<lparr>cache_indexes = idx, cache_scanned = Suc (cache_scanned st)\<rparr>
      in if sourceKey = key then (the (map_of idx key), st') else index_scan key rest st')"

definition indexFor :: "source_event list \<Rightarrow> source_event \<Rightarrow> index_cache \<Rightarrow> int \<times> index_cache" where
  "indexFor all event st =
     (let key = indexedKey event in
      case map_of (cache_indexes st) key of
        Some i \<Rightarrow> (i, st)
      | None \<Rightarrow> index_scan key (drop (cache_scanned st) all) st)"

text \<open>The reference: the first position of the event's key in the input, or \<open>-1\<close>.\<close>

fun first_index :: "string \<Rightarrow> source_event list \<Rightarrow> int \<Rightarrow> int" where
  "first_index key [] i = -1"
| "first_index key (e # es) i = (if indexedKey e = key then i else first_index key es (i + 1))"

definition index_of :: "source_event list \<Rightarrow> source_event \<Rightarrow> int" where
  "index_of all event = first_index (indexedKey event) all 0"

subsection \<open>Construction and merging\<close>

fun min_of :: "int list \<Rightarrow> int" where
  "min_of [] = -1"
| "min_of (x # xs) = foldl min x xs"

fun max_of :: "int list \<Rightarrow> int" where
  "max_of [] = -1"
| "max_of (x # xs) = foldl max x xs"

definition candidateFromBindings ::
  "host \<Rightarrow> source_event list \<Rightarrow> bindings \<Rightarrow> timestamp option \<Rightarrow> (string \<times> semantic_decision) list \<Rightarrow> candidate"
where
  "candidateFromBindings h all b pending decisions =
     (let es = stableEvents h b;
          indexes = filter (\<lambda>i. 0 \<le> i) (map (index_of all) es)
      in \<lparr>cand_bindings = b, cand_events = es, startIndex = min_of indexes,
          endIndex = max_of indexes, pendingUntil = pending, semanticDecisions = decisions\<rparr>)"

definition emptyCandidate :: candidate where
  "emptyCandidate = \<lparr>cand_bindings = [], cand_events = [], startIndex = -1, endIndex = -1,
     pendingUntil = None, semanticDecisions = []\<rparr>"

definition cloneBindings :: "bindings \<Rightarrow> bindings" where
  "cloneBindings b = from_entries b"

definition merge_bindings :: "host \<Rightarrow> bindings \<Rightarrow> bindings \<Rightarrow> bindings" where
  "merge_bindings h l r =
     fold (\<lambda>(ref, es) b. obj_put ref (sort_by (eventOrder h) (bound b ref @ es)) b) r (cloneBindings l)"

text \<open>\<open>[left, right].filter(Boolean).sort().at(-1)\<close>: the later of two deadline texts.\<close>

definition later_pending :: "timestamp option \<Rightarrow> timestamp option \<Rightarrow> timestamp option" where
  "later_pending l r = (case (l, r) of
     (None, _) \<Rightarrow> r | (_, None) \<Rightarrow> l
   | (Some a, Some b) \<Rightarrow> if str_le (ts_text a) (ts_text b) then Some b else Some a)"

definition mergeCandidates :: "host \<Rightarrow> source_event list \<Rightarrow> candidate \<Rightarrow> candidate \<Rightarrow> candidate option" where
  "mergeCandidates h all left right =
     (if list_ex (\<lambda>e. eventIdentity e \<in> set (map eventIdentity (cand_events left))) (cand_events right)
      then None
      else Some (candidateFromBindings h all
        (merge_bindings h (cand_bindings left) (cand_bindings right))
        (later_pending (pendingUntil left) (pendingUntil right))
        (semanticDecisions left @ semanticDecisions right)))"

subsection \<open>Signatures and deduplication\<close>

definition signature_entry :: "source_event \<Rightarrow> json" where
  "signature_entry event = JArr [JStr (clauseId event), JStr (eventIdentity event)]"

definition candidateSignature :: "candidate \<Rightarrow> string" where
  "candidateSignature c = stringify (JArr
     (sort_by (key_cmp stringify str_cmp) (map signature_entry (cand_events c))))"

definition candidateDedupeKey :: "candidate \<Rightarrow> string" where
  "candidateDedupeKey c = stringify (JArr
     [JStr (candidateSignature c),
      case pendingUntil c of None \<Rightarrow> JNull | Some t \<Rightarrow> JStr (ts_text t)])"

fun dedupe_loop :: "nat \<Rightarrow> string list \<Rightarrow> candidate list \<Rightarrow> candidate list \<Rightarrow> candidate list \<times> bool" where
  "dedupe_loop cap seen vals [] = (vals, False)"
| "dedupe_loop cap seen vals (c # cs) =
     (let key = candidateDedupeKey c in
      if key \<in> set seen then dedupe_loop cap seen vals cs
      else if cap \<le> length vals then (vals, True)
      else dedupe_loop cap (key # seen) (vals @ [c]) cs)"

definition dedupe :: "candidate list \<Rightarrow> nat \<Rightarrow> candidate list \<times> bool" where
  "dedupe candidates cap = dedupe_loop cap [] [] candidates"

subsection \<open>Bound events of a candidate\<close>

definition bound_sorted :: "host \<Rightarrow> candidate \<Rightarrow> string \<Rightarrow> source_event list" where
  "bound_sorted h c ref = sort_by (eventOrder h) (bound (cand_bindings c) ref)"

definition nth_opt :: "'a list \<Rightarrow> nat \<Rightarrow> 'a option" where
  "nth_opt xs i = (if i < length xs then Some (xs ! i) else None)"

definition last_opt :: "'a list \<Rightarrow> 'a option" where
  "last_opt xs = (if xs = [] then None else Some (last xs))"

definition selectedEvent :: "host \<Rightarrow> candidate \<Rightarrow> string \<Rightarrow> selector \<Rightarrow> nat option \<Rightarrow> source_event option" where
  "selectedEvent h c ref sel n =
     (let es = bound_sorted h c ref in
      case sel of
        SelFirst \<Rightarrow> nth_opt es 0
      | SelLast \<Rightarrow> last_opt es
      | SelNth \<Rightarrow> nth_opt es (case n of None \<Rightarrow> 0 | Some i \<Rightarrow> i))"

definition latestBoundEvent :: "host \<Rightarrow> candidate \<Rightarrow> string \<Rightarrow> source_event option" where
  "latestBoundEvent h c ref = last_opt (bound_sorted h c ref)"

text \<open>\<open>merged.set(eventIdentity(event), event)\<close> over the events in order: the place of the
  first and the value of the last of each identity.\<close>

definition merge_by_identity :: "source_event list \<Rightarrow> source_event list" where
  "merge_by_identity es = map snd (fold (\<lambda>e m. map_put (eventIdentity e) e m) es [])"

definition withBindingEvents ::
  "host \<Rightarrow> source_event list \<Rightarrow> candidate \<Rightarrow> string \<Rightarrow> source_event list \<Rightarrow> candidate"
where
  "withBindingEvents h all c ref es =
     (let b = cloneBindings (cand_bindings c);
          merged = merge_by_identity (bound b ref @ es)
      in candidateFromBindings h all (obj_put ref (sort_by (eventOrder h) merged) b)
           (pendingUntil c) (semanticDecisions c))"

subsection \<open>Identity\<close>

definition event_ok :: "source_event \<Rightarrow> bool" where
  "event_ok e \<longleftrightarrow> json_ok (JObj (subscriptionArguments e)) \<and> json_ok (JObj (event_data e))"

lemma eventIdentity_eq_iff:
  assumes "event_ok a" and "event_ok b"
  shows "eventIdentity a = eventIdentity b \<longleftrightarrow>
    serverId a = serverId b \<and> sourceEventId a = sourceEventId b \<and>
    same_json (JObj (subscriptionArguments a)) (JObj (subscriptionArguments b))"
proof -
  let ?j = "\<lambda>e. JArr [case serverId e of None \<Rightarrow> JNull | Some s \<Rightarrow> JStr s,
      JStr (sourceEventId e), stableValue (JObj (subscriptionArguments e))]"
  have ok: "json_ok (?j e)" if "event_ok e" for e
    using that stable_ok [of "JObj (subscriptionArguments e)"]
    by (simp add: event_ok_def split: option.split)
  have "eventIdentity a = eventIdentity b \<longleftrightarrow> ?j a = ?j b"
    unfolding eventIdentity_def using stringify_inj [OF ok ok, OF assms] .
  also have "\<dots> \<longleftrightarrow> serverId a = serverId b \<and> sourceEventId a = sourceEventId b \<and>
      stableValue (JObj (subscriptionArguments a)) = stableValue (JObj (subscriptionArguments b))"
    by (auto split: option.splits simp del: stableValue.simps)
  also have "stableValue (JObj (subscriptionArguments a)) = stableValue (JObj (subscriptionArguments b)) \<longleftrightarrow>
      same_json (JObj (subscriptionArguments a)) (JObj (subscriptionArguments b))"
    using assms by (intro stableValue_eq_iff) (simp_all add: event_ok_def)
  finally show ?thesis .
qed

subsection \<open>The position cache\<close>

lemma first_index_append:
  "first_index k (xs @ ys) i =
     (if k \<in> indexedKey ` set xs then first_index k xs i else first_index k ys (i + int (length xs)))"
  by (induction xs arbitrary: i) (auto simp: algebra_simps)

lemma first_index_absent: "k \<notin> indexedKey ` set xs \<Longrightarrow> first_index k xs i = -1"
  by (induction xs arbitrary: i) auto

lemma first_index_present: "k \<in> indexedKey ` set xs \<Longrightarrow> i \<le> first_index k xs i \<and> first_index k xs i < i + int (length xs)"
proof (induction xs arbitrary: i)
  case (Cons a xs)
  show ?case
  proof (cases "indexedKey a = k")
    case False
    then have "i + 1 \<le> first_index k xs (i + 1) \<and> first_index k xs (i + 1) < i + 1 + int (length xs)"
      using Cons.IH [of "i + 1"] Cons.prems by auto
    then show ?thesis using False by simp
  qed simp
qed simp

definition cache_ok :: "source_event list \<Rightarrow> index_cache \<Rightarrow> bool" where
  "cache_ok all st \<longleftrightarrow> cache_scanned st \<le> length all \<and>
     (\<forall>k. map_of (cache_indexes st) k =
        (if k \<in> indexedKey ` set (take (cache_scanned st) all)
         then Some (first_index k all 0) else None))"

lemma cache_ok_empty: "cache_ok all \<lparr>cache_indexes = [], cache_scanned = 0\<rparr>"
  by (simp add: cache_ok_def)

lemma index_scan_ok:
  assumes "cache_ok all st" and "drop (cache_scanned st) all = rest"
    and "key \<notin> indexedKey ` set (take (cache_scanned st) all)"
  shows "fst (index_scan key rest st) = first_index key all 0 \<and> cache_ok all (snd (index_scan key rest st))"
  using assms
proof (induction rest arbitrary: st)
  case Nil
  then show ?case by (simp add: first_index_absent)
next
  case (Cons e rest)
  let ?n = "cache_scanned st"
  have n: "?n < length all" using Cons.prems(2) by (cases "?n < length all") auto
  have e: "all ! ?n = e" and rest: "drop (Suc ?n) all = rest"
    using Cons.prems(2) n by (metis Cons_nth_drop_Suc list.inject)+
  have take: "take (Suc ?n) all = take ?n all @ [e]" using n e by (simp add: take_Suc_conv_app_nth)
  have new: "first_index (indexedKey e) all 0 = int ?n"
    if "indexedKey e \<notin> indexedKey ` set (take ?n all)"
  proof -
    have "all = take ?n all @ e # rest" using Cons.prems(2) by (metis append_take_drop_id)
    then have "first_index (indexedKey e) all 0 = first_index (indexedKey e) (e # rest) (int (length (take ?n all)))"
      using that first_index_append [of "indexedKey e" "take ?n all" "e # rest" 0] by simp
    then show ?thesis using n by simp
  qed
  let ?idx = "if indexedKey e \<in> fst ` set (cache_indexes st) then cache_indexes st
      else map_put (indexedKey e) (int ?n) (cache_indexes st)"
  let ?st = "\<lparr>cache_indexes = ?idx, cache_scanned = Suc ?n\<rparr>"
  have known: "indexedKey e \<in> fst ` set (cache_indexes st) \<longleftrightarrow> indexedKey e \<in> indexedKey ` set (take ?n all)"
    using Cons.prems(1) unfolding cache_ok_def by (metis map_of_eq_None_iff option.distinct(1))
  have ok: "cache_ok all ?st"
    using Cons.prems(1) n new known by (auto simp: cache_ok_def take map_of_map_put)
  show ?case
  proof (cases "indexedKey e = key")
    case True
    then have "map_of ?idx key = Some (first_index key all 0)"
      using ok take by (auto simp: cache_ok_def)
    then show ?thesis using True ok
      by (cases "key \<in> fst ` set (cache_indexes st)") (simp_all add: Let_def)
  next
    case False
    then show ?thesis
      using Cons.IH [OF ok] Cons.prems(3) rest by (simp add: Let_def take)
  qed
qed

text \<open>
  The cached lookup always gives the first position of the event in the input and keeps
  the cache consistent, whatever was looked up before.
\<close>

theorem indexFor_reference:
  assumes "cache_ok all st"
  shows "fst (indexFor all event st) = index_of all event \<and> cache_ok all (snd (indexFor all event st))"
proof (cases "map_of (cache_indexes st) (indexedKey event)")
  case None
  then have "indexedKey event \<notin> indexedKey ` set (take (cache_scanned st) all)"
    using assms by (auto simp: cache_ok_def split: if_splits)
  then show ?thesis
    using index_scan_ok [OF assms refl] None by (simp add: indexFor_def index_of_def)
next
  case (Some i)
  then have "i = first_index (indexedKey event) all 0"
    using assms by (auto simp: cache_ok_def split: if_splits)
  then show ?thesis using Some assms by (simp add: indexFor_def index_of_def)
qed

lemma index_of_range:
  "index_of all e = -1 \<or> (0 \<le> index_of all e \<and> index_of all e < int (length all))"
  using first_index_present [of "indexedKey e" all 0] first_index_absent [of "indexedKey e" all 0]
  by (cases "indexedKey e \<in> indexedKey ` set all") (auto simp: index_of_def)

lemma index_of_member: "e \<in> set all \<Longrightarrow> 0 \<le> index_of all e"
  using first_index_present [of "indexedKey e" all 0] by (auto simp: index_of_def)

subsection \<open>Deduplication\<close>

lemma dedupe_loop_spec:
  "dedupe_loop cap sn vals cs =
     (vals @ take (cap - length vals) (first_by candidateDedupeKey sn cs),
      cap - length vals < length (first_by candidateDedupeKey sn cs))"
  if "length vals \<le> cap"
  using that
proof (induction cs arbitrary: sn vals)
  case (Cons c cs)
  show ?case
  proof (cases "candidateDedupeKey c \<in> set sn \<or> cap \<le> length vals")
    case True
    then show ?thesis using Cons by (auto simp: Let_def)
  next
    case False
    then obtain n where "cap - length vals = Suc n" "cap - Suc (length vals) = n"
      by (metis Suc_diff_Suc not_le)
    then show ?thesis
      using False Cons.IH [of "vals @ [c]" "candidateDedupeKey c # sn"] by (auto simp: Let_def)
  qed
qed simp

text \<open>
  Deduplication keeps the first candidate of every signature and deadline, in order, up
  to the cap, and reports truncation exactly when the cap dropped one.
\<close>

theorem dedupe_spec:
  "dedupe cs cap = (take cap (first_by candidateDedupeKey [] cs),
     cap < length (first_by candidateDedupeKey [] cs))"
  using dedupe_loop_spec [of "[]" cap "[]" cs] by (simp add: dedupe_def)

subsection \<open>Signatures\<close>

lemma json_ok_entry [simp]: "json_ok (signature_entry e)"
  by (simp add: signature_entry_def)

lemma signature_entry_inj:
  "signature_entry a = signature_entry b \<longleftrightarrow> clauseId a = clauseId b \<and> eventIdentity a = eventIdentity b"
  by (simp add: signature_entry_def)

lemma sort_entries_perm:
  assumes "mset xs = mset ys" and "\<forall>x \<in> set xs. json_ok x"
  shows "sort_by (key_cmp stringify str_cmp) xs = sort_by (key_cmp stringify str_cmp) ys"
proof (rule comparator_law.sort_by_perm [OF comparator_law_key_cmp [OF code_units.comparator_law_axioms] assms(1)])
  fix x y
  assume xy: "x \<in> set xs" "y \<in> set xs"
    and "key_cmp stringify str_cmp x y \<le> 0" "key_cmp stringify str_cmp y x \<le> 0"
  then have "str_cmp (stringify x) (stringify y) = 0"
    using code_units.cmp_flip [of "stringify x" "stringify y"]
      code_units.cmp_flip [of "stringify y" "stringify x"] by (simp add: key_cmp_def)
  then show "x = y" using xy assms(2) stringify_inj by simp
qed

lemma signature_iff:
  "candidateSignature c = candidateSignature d \<longleftrightarrow>
     image_mset (\<lambda>e. (clauseId e, eventIdentity e)) (mset (cand_events c)) =
     image_mset (\<lambda>e. (clauseId e, eventIdentity e)) (mset (cand_events d))"
proof -
  let ?es = "\<lambda>c. map signature_entry (cand_events c)"
  let ?s = "\<lambda>c. sort_by (key_cmp stringify str_cmp) (?es c)"
  have ok: "json_ok (JArr (?s c))" for c by (simp add: list_all_iff)
  have "candidateSignature c = candidateSignature d \<longleftrightarrow> ?s c = ?s d"
    unfolding candidateSignature_def using stringify_inj [OF ok ok] by simp
  also have "\<dots> \<longleftrightarrow> mset (?es c) = mset (?es d)"
  proof
    assume "?s c = ?s d"
    then have "mset (?s c) = mset (?s d)" by simp
    then show "mset (?es c) = mset (?es d)" by (simp only: mset_sort_by)
  next
    assume "mset (?es c) = mset (?es d)"
    then show "?s c = ?s d" by (rule sort_entries_perm) simp
  qed
  also have "\<dots> \<longleftrightarrow> image_mset (\<lambda>e. (clauseId e, eventIdentity e)) (mset (cand_events c)) =
     image_mset (\<lambda>e. (clauseId e, eventIdentity e)) (mset (cand_events d))"
  proof -
    let ?f = "\<lambda>p. JArr [JStr (fst p), JStr (snd p)]"
    have f: "mset (?es c) = image_mset ?f (image_mset (\<lambda>e. (clauseId e, eventIdentity e)) (mset (cand_events c)))" for c
      by (simp add: signature_entry_def [abs_def] image_mset.compositionality comp_def)
    have inj: "inj (image_mset ?f)" by (rule multiset.inj_map) (auto intro!: injI)
    show ?thesis unfolding f by (rule inj_eq [OF inj])
  qed
  finally show ?thesis .
qed

subsection \<open>Bindings as maps\<close>

definition all_bound :: "bindings \<Rightarrow> source_event set" where
  "all_bound b = set (concat (map snd b))"

lemma distinct_from_entries: "distinct (map fst m) \<Longrightarrow> distinct (map fst (from_entries m))"
proof -
  assume d: "distinct (map fst m)"
  have "mset (map fst (from_entries m)) = mset (map fst m)"
    by (simp only: mset_map mset_from_entries [OF d])
  then show ?thesis using d mset_eq_imp_distinct_iff by blast
qed

lemma map_of_from_entries: "distinct (map fst m) \<Longrightarrow> map_of (from_entries m) = map_of m"
proof -
  assume d: "distinct (map fst m)"
  then have "distinct (map fst (from_entries m))" by (rule distinct_from_entries)
  then show ?thesis using map_of_inject_set [of "from_entries m" m] d by simp
qed

lemma bound_Nil [simp]: "bound [] ref = []"
  by (simp add: bound_def)

lemma bound_Cons [simp]: "bound ((k, es) # b) ref = (if ref = k then es else bound b ref)"
  by (simp add: bound_def)

lemma bound_absent: "ref \<notin> fst ` set b \<Longrightarrow> bound b ref = []"
  by (simp add: bound_def map_of_eq_None_iff [THEN iffD2])

lemma bound_obj_put [simp]: "bound (obj_put ref es b) ref' = (if ref' = ref then es else bound b ref')"
  by (simp add: bound_def map_of_obj_put)

lemma bound_cloneBindings [simp]: "distinct (map fst b) \<Longrightarrow> bound (cloneBindings b) ref = bound b ref"
  by (simp add: bound_def cloneBindings_def map_of_from_entries)

lemma all_bound_eq: "distinct (map fst b) \<Longrightarrow> all_bound b = (\<Union>ref. set (bound b ref))"
proof -
  assume d: "distinct (map fst b)"
  have "e \<in> all_bound b \<longleftrightarrow> (\<exists>ref es. map_of b ref = Some es \<and> e \<in> set es)" for e
    by (simp add: all_bound_def Bex_def map_of_eq_Some_iff [OF d])
  moreover have "e \<in> set (bound b ref) \<longleftrightarrow> (\<exists>es. map_of b ref = Some es \<and> e \<in> set es)" for e ref
    by (cases "map_of b ref") (simp_all add: bound_def)
  ultimately have "e \<in> all_bound b \<longleftrightarrow> e \<in> (\<Union>ref. set (bound b ref))" for e
    by simp
  then show ?thesis by (rule set_eqI)
qed

lemma distinct_merge_fold:
  "distinct (map fst b) \<Longrightarrow>
   distinct (map fst (fold (\<lambda>(ref, es) b. obj_put ref (f b ref es) b) r b))"
  by (induction r arbitrary: b) (auto simp: distinct_obj_put split: prod.splits)

lemma bound_merge_fold:
  "distinct (map fst r) \<Longrightarrow>
   bound (fold (\<lambda>(ref, es) b. obj_put ref (sort_by (eventOrder h) (bound b ref @ es)) b) r b) ref =
     (if ref \<in> fst ` set r then sort_by (eventOrder h) (bound b ref @ bound r ref) else bound b ref)"
proof (induction r arbitrary: b)
  case (Cons x r)
  obtain k es where x: "x = (k, es)" by (cases x)
  have "bound r k = []" using Cons.prems x by (auto intro: bound_absent)
  then show ?case
    using Cons.IH [of "obj_put k (sort_by (eventOrder h) (bound b k @ es)) b"] Cons.prems
    by (auto simp: x)
qed simp

lemma distinct_merge_bindings:
  "distinct (map fst l) \<Longrightarrow> distinct (map fst (merge_bindings h l r))"
  unfolding merge_bindings_def cloneBindings_def
  by (rule distinct_merge_fold) (rule distinct_from_entries)

lemma mset_bound_merge:
  "distinct (map fst l) \<Longrightarrow> distinct (map fst r) \<Longrightarrow>
   mset (bound (merge_bindings h l r) ref) = mset (bound l ref) + mset (bound r ref)"
  by (simp add: merge_bindings_def bound_merge_fold bound_absent)

lemma all_bound_merge:
  assumes "distinct (map fst l)" and "distinct (map fst r)"
  shows "all_bound (merge_bindings h l r) = all_bound l \<union> all_bound r"
proof -
  have "set (bound (merge_bindings h l r) ref) = set (bound l ref) \<union> set (bound r ref)" for ref
    by (metis mset_bound_merge [OF assms] set_mset_mset set_mset_union)
  then show ?thesis
    using assms by (auto simp: all_bound_eq distinct_merge_bindings)
qed

subsection \<open>Well-formed candidates\<close>

lemma stableEvents_identities: "eventIdentity ` set (stableEvents h b) = eventIdentity ` all_bound b"
  by (simp add: stableEvents_def first_by_keys all_bound_def)

lemma stableEvents_distinct: "distinct (map eventIdentity (stableEvents h b))"
proof -
  have "mset (map eventIdentity (stableEvents h b)) =
      mset (map eventIdentity (first_by eventIdentity [] (concat (map snd b))))"
    by (simp add: stableEvents_def)
  then show ?thesis using first_by_distinct mset_eq_imp_distinct_iff by blast
qed

lemma stableEvents_subset: "set (stableEvents h b) \<subseteq> all_bound b"
  using first_by_subset [of eventIdentity "[]" "concat (map snd b)"]
  by (simp add: stableEvents_def all_bound_def)

text \<open>
  The invariant of every candidate: its events and positions are those of its bindings, and
  every bound event is an input event of the clause it is bound to.
\<close>

definition cand_wf :: "host \<Rightarrow> source_event list \<Rightarrow> candidate \<Rightarrow> bool" where
  "cand_wf h all c \<longleftrightarrow>
     distinct (map fst (cand_bindings c)) \<and>
     cand_events c = stableEvents h (cand_bindings c) \<and>
     startIndex c = min_of (filter (\<lambda>i. 0 \<le> i) (map (index_of all) (cand_events c))) \<and>
     endIndex c = max_of (filter (\<lambda>i. 0 \<le> i) (map (index_of all) (cand_events c))) \<and>
     (\<forall>ref. \<forall>e \<in> set (bound (cand_bindings c) ref). clauseId e = ref \<and> e \<in> set all)"

lemma cand_wf_from_bindings:
  assumes "distinct (map fst b)" and "\<And>ref e. e \<in> set (bound b ref) \<Longrightarrow> clauseId e = ref \<and> e \<in> set all"
  shows "cand_wf h all (candidateFromBindings h all b p ds)"
  using assms by (simp add: cand_wf_def candidateFromBindings_def Let_def)

lemma cand_wf_empty: "cand_wf h all emptyCandidate"
  by (simp add: cand_wf_def emptyCandidate_def stableEvents_def bound_def)

lemma cand_wf_update [simp]:
  "cand_wf h all (c\<lparr>pendingUntil := p\<rparr>) = cand_wf h all c"
  "cand_wf h all (c\<lparr>semanticDecisions := ds\<rparr>) = cand_wf h all c"
  by (simp_all add: cand_wf_def)

lemma cand_wf_events:
  assumes "cand_wf h all c"
  shows "set (cand_events c) \<subseteq> set all"
    and "distinct (map eventIdentity (cand_events c))"
    and "eventIdentity ` set (cand_events c) = eventIdentity ` all_bound (cand_bindings c)"
proof -
  have "all_bound (cand_bindings c) \<subseteq> set all"
    using assms by (auto simp: cand_wf_def all_bound_eq)
  then show "set (cand_events c) \<subseteq> set all"
    using assms stableEvents_subset by (fastforce simp: cand_wf_def)
  show "distinct (map eventIdentity (cand_events c))"
    "eventIdentity ` set (cand_events c) = eventIdentity ` all_bound (cand_bindings c)"
    using assms stableEvents_distinct stableEvents_identities by (simp_all add: cand_wf_def)
qed

lemma merge_Some:
  assumes l: "cand_wf h all l" and r: "cand_wf h all r" and m: "mergeCandidates h all l r = Some m"
  shows "cand_wf h all m"
    and "eventIdentity ` set (cand_events l) \<inter> eventIdentity ` set (cand_events r) = {}"
    and "mset (map eventIdentity (cand_events m)) =
      mset (map eventIdentity (cand_events l)) + mset (map eventIdentity (cand_events r))"
    and "\<And>ref. mset (bound (cand_bindings m) ref) =
      mset (bound (cand_bindings l) ref) + mset (bound (cand_bindings r) ref)"
proof -
  let ?b = "merge_bindings h (cand_bindings l) (cand_bindings r)"
  have dist: "distinct (map fst (cand_bindings l))" "distinct (map fst (cand_bindings r))"
    using l r by (auto simp: cand_wf_def)
  have disj: "\<not> list_ex (\<lambda>e. eventIdentity e \<in> set (map eventIdentity (cand_events l))) (cand_events r)"
    and bm: "cand_bindings m = ?b" and em: "cand_events m = stableEvents h ?b"
    using m by (auto simp: mergeCandidates_def candidateFromBindings_def Let_def split: if_splits)
  show bound: "mset (bound (cand_bindings m) ref) =
      mset (bound (cand_bindings l) ref) + mset (bound (cand_bindings r) ref)" for ref
    by (simp add: bm mset_bound_merge [OF dist])
  show D: "eventIdentity ` set (cand_events l) \<inter> eventIdentity ` set (cand_events r) = {}"
    using disj by (auto simp: list_ex_iff) (metis imageI)
  have "clauseId e = ref \<and> e \<in> set all" if "e \<in> set (bound ?b ref)" for e ref
  proof -
    have "e \<in> set (bound (cand_bindings l) ref) \<union> set (bound (cand_bindings r) ref)"
      using that mset_bound_merge [OF dist, of h ref] by (metis set_mset_mset set_mset_union)
    then show ?thesis using l r by (auto simp: cand_wf_def)
  qed
  then show "cand_wf h all m"
    using m dist disj by (auto simp: mergeCandidates_def intro!: cand_wf_from_bindings
        distinct_merge_bindings split: if_splits)
  have ids: "mset (map eventIdentity (cand_events c)) = mset_set (eventIdentity ` all_bound (cand_bindings c))"
    if "cand_events c = stableEvents h (cand_bindings c)" for c
    using that stableEvents_distinct [of h "cand_bindings c"] stableEvents_identities [of h "cand_bindings c"]
    by (metis list.set_map mset_set_set)
  have fin: "finite (eventIdentity ` all_bound b)" for b
    by (simp add: all_bound_def)
  have "eventIdentity ` all_bound (cand_bindings l) \<inter> eventIdentity ` all_bound (cand_bindings r) = {}"
    using D cand_wf_events(3) [OF l] cand_wf_events(3) [OF r] by simp
  then have disj': "mset_set (eventIdentity ` all_bound ?b) =
      mset_set (eventIdentity ` all_bound (cand_bindings l)) + mset_set (eventIdentity ` all_bound (cand_bindings r))"
    by (simp add: all_bound_merge [OF dist] image_Un mset_set_Union fin)
  have wl: "cand_events l = stableEvents h (cand_bindings l)"
    and wr: "cand_events r = stableEvents h (cand_bindings r)"
    and wm: "cand_events m = stableEvents h (cand_bindings m)"
    using l r em bm by (auto simp: cand_wf_def)
  show "mset (map eventIdentity (cand_events m)) =
      mset (map eventIdentity (cand_events l)) + mset (map eventIdentity (cand_events r))"
    unfolding ids [OF wl] ids [OF wr] ids [OF wm] bm disj' ..
qed

lemma withBindingEvents_wf:
  assumes c: "cand_wf h all c" and w: "\<And>e. e \<in> set ws \<Longrightarrow> clauseId e = ref \<and> e \<in> set all"
  shows "cand_wf h all (withBindingEvents h all c ref ws)"
proof -
  have sub: "set (merge_by_identity es) \<subseteq> set es" for es
  proof -
    have "snd ` set (fold (\<lambda>e m. map_put (eventIdentity e) e m) es m) \<subseteq> snd ` set m \<union> set es"
      for m :: "(string \<times> source_event) list"
    proof (induction es arbitrary: m)
      case (Cons e es)
      have "snd ` set (map_put (eventIdentity e) e m) \<subseteq> insert e (snd ` set m)"
        using image_mono [OF set_map_put [of "eventIdentity e" e m], of snd] by simp
      then show ?case using Cons.IH [of "map_put (eventIdentity e) e m"]
        by (simp add: subset_iff) blast
    qed simp
    from this [of "[]"] show ?thesis by (simp add: merge_by_identity_def)
  qed
  have d: "distinct (map fst (cand_bindings c))" using c by (simp add: cand_wf_def)
  show ?thesis
    unfolding withBindingEvents_def Let_def
  proof (rule cand_wf_from_bindings)
    show "distinct (map fst (obj_put ref
        (sort_by (eventOrder h) (merge_by_identity (bound (cloneBindings (cand_bindings c)) ref @ ws)))
        (cloneBindings (cand_bindings c))))"
      by (intro distinct_obj_put) (simp add: cloneBindings_def distinct_from_entries d)
    fix ref' e
    assume "e \<in> set (bound (obj_put ref
        (sort_by (eventOrder h) (merge_by_identity (bound (cloneBindings (cand_bindings c)) ref @ ws)))
        (cloneBindings (cand_bindings c))) ref')"
    note e = this
    show "clauseId e = ref' \<and> e \<in> set all"
    proof (cases "ref' = ref")
      case True
      then have "e \<in> set (merge_by_identity (bound (cand_bindings c) ref @ ws))"
        using e d by simp
      then have "e \<in> set (bound (cand_bindings c) ref) \<union> set ws"
        using sub [of "bound (cand_bindings c) ref @ ws"] by auto
      then show ?thesis using c w True by (auto simp: cand_wf_def)
    next
      case False
      then have "e \<in> set (bound (cand_bindings c) ref')" using e d by simp
      then show ?thesis using c by (simp add: cand_wf_def)
    qed
  qed
qed

lemma eventOrder_law:
  assumes "comparator_law (collate h)"
  shows "comparator_law (eventOrder h)"
  unfolding eventOrder_def
  by (intro comparator_law_then_by comparator_law_key_cmp assms int_order.comparator_law_axioms)

subsection \<open>Properties\<close>

text \<open>
  The evaluator and the composite engine agree on when two events are the same physical
  event: same server, same identifier and, key order aside, same subscription arguments.
\<close>

theorem identity_agreement:
  assumes "event_ok a" and "event_ok (asSourceEvent cid e)" and "ce_serverId e \<noteq> Some []"
  shows "sameEventIdentity a e \<longleftrightarrow> eventIdentity a = eventIdentity (asSourceEvent cid e)"
  using assms eventIdentity_eq_iff [OF assms(1,2)] sameSubscriptionArguments_iff
  by (auto simp: sameEventIdentity_def event_ok_def asSourceEvent_def truthy_str_def)

text \<open>
  Two candidates merge exactly when they share no physical event; the result uses every
  event of both once, binds to each clause the events both bound to it, and is well formed.
\<close>

theorem mergeCandidates_spec:
  assumes "cand_wf h all l" and "cand_wf h all r"
  shows "(mergeCandidates h all l r = None \<longleftrightarrow>
      eventIdentity ` set (cand_events l) \<inter> eventIdentity ` set (cand_events r) \<noteq> {}) \<and>
    (\<forall>m. mergeCandidates h all l r = Some m \<longrightarrow>
      cand_wf h all m \<and>
      mset (map eventIdentity (cand_events m)) =
        mset (map eventIdentity (cand_events l)) + mset (map eventIdentity (cand_events r)) \<and>
      (\<forall>ref. mset (bound (cand_bindings m) ref) =
        mset (bound (cand_bindings l) ref) + mset (bound (cand_bindings r) ref)))"
proof -
  have "mergeCandidates h all l r = None \<longleftrightarrow>
      eventIdentity ` set (cand_events l) \<inter> eventIdentity ` set (cand_events r) \<noteq> {}"
    by (auto simp: mergeCandidates_def list_ex_iff) (metis imageI)
  then show ?thesis
    using merge_Some(1,3,4) [OF assms] by (intro conjI allI impI) simp_all
qed

text \<open>
  Two candidates have the same signature exactly when they consist of the same events of
  the same clauses; the order of the events does not matter.
\<close>

theorem candidateSignature_iff:
  "candidateSignature c = candidateSignature d \<longleftrightarrow>
     image_mset (\<lambda>e. (clauseId e, eventIdentity e)) (mset (cand_events c)) =
     image_mset (\<lambda>e. (clauseId e, eventIdentity e)) (mset (cand_events d))"
  by (rule signature_iff)

subsection \<open>Instances\<close>

definition sample_pair :: "candidate \<times> candidate" where
  "sample_pair = (let all = [sample_event ''a'' ''1'' 1, sample_event ''b'' ''2'' 2] in
     (candidateFromBindings sample_host all [(''a'', [all ! 0])] None [],
      candidateFromBindings sample_host all [(''b'', [all ! 1])] None []))"

lemma identity_agreement_witness:
  "sameEventIdentity (sample_event ''a'' ''1'' 1)
     \<lparr>ce_traceId = ''u'', ce_sourceEventId = ''1'', ce_name = ''e'', ce_occurredAt = Ts ''x'' 5,
      ce_receivedAt = None, ce_provider = None, ce_serverId = None, ce_subscriptionArguments = [],
      ce_payloadHash = None, ce_data = []\<rparr>"
proof -
  have "is_double 1" by code_simp
  then show ?thesis
    by (subst identity_agreement [where cid = "''b''"])
      (auto simp: event_ok_def sample_event_def asSourceEvent_def truthy_str_def eventIdentity_def)
qed

lemma indexFor_reference_witness:
  "fst (indexFor [sample_event ''a'' ''1'' 1, sample_event ''b'' ''2'' 2] (sample_event ''b'' ''2'' 2)
     \<lparr>cache_indexes = [], cache_scanned = 0\<rparr>) = 1"
proof -
  have "index_of [sample_event ''a'' ''1'' 1, sample_event ''b'' ''2'' 2] (sample_event ''b'' ''2'' 2) = 1"
    by code_simp
  then show ?thesis using indexFor_reference [OF cache_ok_empty] by metis
qed

lemma mergeCandidates_spec_witness:
  "mergeCandidates sample_host [sample_event ''a'' ''1'' 1, sample_event ''b'' ''2'' 2]
     (fst sample_pair) (snd sample_pair) \<noteq> None"
proof -
  let ?all = "[sample_event ''a'' ''1'' 1, sample_event ''b'' ''2'' 2]"
  have wf: "cand_wf sample_host ?all (fst sample_pair)" "cand_wf sample_host ?all (snd sample_pair)"
    unfolding sample_pair_def Let_def fst_conv snd_conv
    by (rule cand_wf_from_bindings; auto simp: sample_event_def split: if_splits)+
  have "eventIdentity ` set (cand_events (fst sample_pair)) \<inter>
      eventIdentity ` set (cand_events (snd sample_pair)) = {}"
    by code_simp
  then show ?thesis using mergeCandidates_spec [OF wf] by blast
qed

end
