(* ===== verification/Js_Exact.thy ===== *)
theory Js_Exact
  imports Js_Number
begin

text \<open>
  Where binary64 arithmetic on whole numbers is exact: integers below \<open>2 ^ 53\<close>, their
  differences, and the floor of their quotients. The instants and durations of the program
  are in this range.
\<close>

lemma rpow2_1 [simp]: "rpow2 1 = 2"
  by (simp add: rpow2_def)

lemma rpow2_nat: "rpow2 (int n) = 2 ^ n"
  by (simp add: rpow2_def)

lemma rpow2_minus_nat: "rpow2 (- int n) = 1 / 2 ^ n"
  by (simp add: rpow2_def)

lemma rpow2_strict_mono: "a < b \<Longrightarrow> rpow2 a < rpow2 b"
proof -
  assume "a < b"
  then obtain n where n: "b = a + int (Suc n)"
    by (metis zless_iff_Suc_zadd)
  have "(1::rat) < 2 ^ Suc n" by (rule one_less_power) simp_all
  then show ?thesis using rpow2_pos [of a] by (simp only: n rpow2_add rpow2_nat) simp
qed

lemma rpow2_less_iff: "rpow2 a < rpow2 b \<longleftrightarrow> a < b"
  by (metis linorder_less_linear order_less_asym rpow2_strict_mono)

lemma nlog2_bounds: "1 \<le> n \<Longrightarrow> 0 \<le> nlog2 n \<and> rpow2 (nlog2 n) \<le> of_int n \<and> of_int n < rpow2 (nlog2 n + 1)"
proof (induction n rule: nlog2.induct)
  case (1 n)
  show ?case
  proof (cases "n < 2")
    case True
    then have "n = 1" using 1 by simp
    then show ?thesis by (simp add: nlog2.simps rpow2_def)
  next
    case False
    have ih: "0 \<le> nlog2 (n div 2)" "rpow2 (nlog2 (n div 2)) \<le> of_int (n div 2)"
      "of_int (n div 2) < rpow2 (nlog2 (n div 2) + 1)"
      using 1 False by auto
    have step: "rpow2 (1 + e) = 2 * rpow2 e" for e by (simp add: rpow2_add)
    let ?N = "nlog2 (n div 2)"
    have up: "of_int (n div 2) + 1 \<le> rpow2 (?N + 1)"
    proof -
      have eq: "rpow2 (?N + 1) = of_int (2 ^ nat (?N + 1))" using ih(1) by (simp add: rpow2_def)
      have "n div 2 < 2 ^ nat (?N + 1)" using ih(3) unfolding eq of_int_less_iff .
      then have "n div 2 + 1 \<le> 2 ^ nat (?N + 1)" by simp
      then have "rat_of_int (n div 2 + 1) \<le> of_int (2 ^ nat (?N + 1))" by (simp only: of_int_le_iff)
      then show ?thesis unfolding eq by simp
    qed
    have b: "2 * of_int (n div 2) \<le> (of_int n :: rat)" "(of_int n :: rat) < 2 * (of_int (n div 2) + 1)"
    proof -
      have "2 * (n div 2) \<le> n" "n < 2 * (n div 2 + 1)" by simp_all
      then have "rat_of_int (2 * (n div 2)) \<le> of_int n" "rat_of_int n < of_int (2 * (n div 2 + 1))"
        by (simp_all only: of_int_le_iff of_int_less_iff)
      then show "2 * of_int (n div 2) \<le> (of_int n :: rat)" "(of_int n :: rat) < 2 * (of_int (n div 2) + 1)"
        by simp_all
    qed
    have "nlog2 n = 1 + ?N" using False by (simp add: nlog2.simps [of n])
    then show ?thesis
      using ih(1,2) up b step [of ?N] step [of "?N + 1"] by (simp add: add.commute add.left_commute)
  qed
qed

lemma rpow2_ilog2_le: "0 < q \<Longrightarrow> rpow2 (ilog2 q) \<le> q"
proof -
  assume q: "0 < q"
  obtain n d where nd: "quotient_of q = (n, d)" by (cases "quotient_of q")
  have d: "0 < d" and qd: "q = of_int n / of_int d"
    using nd quotient_of_denom_pos quotient_of_div by blast+
  have n: "0 < n" using q d qd by (simp add: zero_less_divide_iff)
  have N: "rpow2 (nlog2 n) \<le> of_int n" and D: "of_int d < rpow2 (nlog2 d + 1)"
    using nlog2_bounds [of n] nlog2_bounds [of d] n d by auto
  have "rpow2 (nlog2 n - nlog2 d - 1) * rpow2 (nlog2 d + 1) = rpow2 (nlog2 n)"
    by (simp add: rpow2_add [symmetric])
  then have "rpow2 (nlog2 n - nlog2 d - 1) * of_int d \<le> of_int n"
    using D N rpow2_pos [of "nlog2 n - nlog2 d - 1"]
    by (smt (verit, best) less_eq_rat_def mult_le_cancel_left_pos order_trans)
  then have "rpow2 (nlog2 n - nlog2 d - 1) \<le> q"
    using d qd by (simp add: pos_le_divide_eq)
  then show ?thesis by (auto simp: ilog2_def nd Let_def)
qed

lemma round_half_even_close: "of_int (round_half_even q) \<le> q + 1 / 2" "q - 1 / 2 \<le> of_int (round_half_even q)"
  by (auto simp: round_half_even_def Let_def) linarith+

lemma round_half_even_ge: "of_int m \<le> q \<Longrightarrow> m \<le> round_half_even q"
proof -
  assume "of_int m \<le> q"
  then have "m \<le> \<lfloor>q\<rfloor>" by (simp add: le_floor_iff)
  then show ?thesis by (auto simp: round_half_even_def Let_def)
qed

definition whole_limit :: int where
  "whole_limit = 9007199254740992"

lemma rpow2_53: "rpow2 53 = of_int whole_limit"
  by (simp add: rpow2_def whole_limit_def)

text \<open>Below \<open>2 ^ 53\<close> the grid of rounding is at least as fine as the whole numbers.\<close>

lemma small_exponent:
  assumes "q \<noteq> 0" and "\<bar>q\<bar> < of_int whole_limit"
  obtains k where "max (ilog2 \<bar>q\<bar>) (-1022) - 52 = - int k"
proof -
  have "rpow2 (ilog2 \<bar>q\<bar>) < rpow2 53"
    using rpow2_ilog2_le [of "\<bar>q\<bar>"] assms rpow2_53 by simp
  then have "ilog2 \<bar>q\<bar> < 53" by (simp only: rpow2_less_iff)
  then show ?thesis using that [of "nat (52 - max (ilog2 \<bar>q\<bar>) (-1022))"] by simp
qed

lemma to_double_small:
  assumes "q \<noteq> 0" and "\<bar>q\<bar> < of_int whole_limit"
    and k: "max (ilog2 \<bar>q\<bar>) (-1022) - 52 = - int k"
  shows "to_double q = Fin (of_int (round_half_even (q * 2 ^ k)) / 2 ^ k)"
proof -
  let ?r = "rat_of_int (round_half_even (q * 2 ^ k)) / 2 ^ k"
  have u: "rpow2 (- int k) = 1 / 2 ^ k" by (rule rpow2_minus_nat)
  have pos: "(0::rat) < 2 ^ k" and one: "(1::rat) \<le> 2 ^ k" by simp_all
  have "\<bar>rat_of_int (round_half_even (q * 2 ^ k))\<bar> \<le> \<bar>q * 2 ^ k\<bar> + 1 / 2"
    using round_half_even_close [of "q * 2 ^ k"] by linarith
  also have "\<dots> \<le> (\<bar>q\<bar> + 1) * 2 ^ k"
    using one by (simp add: abs_mult distrib_right) (use one in linarith)
  finally have "\<bar>?r\<bar> \<le> \<bar>q\<bar> + 1"
    using pos by (simp add: abs_mult divide_le_eq)
  also have "\<dots> < of_int whole_limit + 1" using assms(2) by simp
  also have "\<dots> \<le> rpow2 54" by (simp add: rpow2_def whole_limit_def)
  also have "\<dots> < rpow2 1024" by (rule rpow2_strict_mono) simp
  finally have "\<not> rpow2 1024 \<le> \<bar>?r\<bar>" by simp
  then show ?thesis using assms(1) by (simp add: to_double_def Let_def k u)
qed

lemma to_double_whole:
  assumes "\<bar>i\<bar> < whole_limit"
  shows "to_double (of_int i) = Fin (of_int i)"
proof (cases "i = 0")
  case False
  have b: "\<bar>rat_of_int i\<bar> < of_int whole_limit"
    using assms by (metis of_int_abs of_int_less_iff)
  obtain k where k: "max (ilog2 \<bar>rat_of_int i\<bar>) (-1022) - 52 = - int k"
    using small_exponent [of "of_int i"] False b by auto
  have "rat_of_int i * 2 ^ k = of_int (i * 2 ^ k)" by simp
  then have "round_half_even (rat_of_int i * 2 ^ k) = i * 2 ^ k"
    by (simp only: round_half_even_of_int)
  then show ?thesis using to_double_small [OF _ b k] False by simp
qed simp

lemma to_double_floor:
  assumes b: "0 < b" and a: "\<bar>a\<bar> < whole_limit" and "b < whole_limit"
  shows "num_floor (to_double (of_int a / of_int b)) = Fin (of_int (a div b))"
proof (cases "a = 0")
  case False
  let ?q = "rat_of_int a / of_int b"
  have ab: "rat_of_int \<bar>a\<bar> < of_int whole_limit" using a by (simp only: of_int_less_iff)
  have q: "?q \<noteq> 0" "\<bar>?q\<bar> < of_int whole_limit"
  proof -
    have "1 \<le> rat_of_int b" using b by simp
    then have "\<bar>?q\<bar> \<le> rat_of_int \<bar>a\<bar>"
      using b mult_left_mono [of 1 "rat_of_int b" "\<bar>rat_of_int a\<bar>"] by (simp add: divide_le_eq)
    then show "\<bar>?q\<bar> < of_int whole_limit" using ab by simp
  qed (use False b in simp)
  obtain k where k: "max (ilog2 \<bar>?q\<bar>) (-1022) - 52 = - int k"
    using small_exponent [OF q] by blast
  let ?x = "?q * 2 ^ k" and ?f = "a div b"
  have pos: "(0::rat) < 2 ^ k" by simp
  have fl: "\<lfloor>?q\<rfloor> = ?f" by (simp add: floor_divide_of_int_eq)
  have low: "?f * 2 ^ k \<le> round_half_even ?x"
  proof (rule round_half_even_ge)
    have "rat_of_int ?f \<le> ?q" using fl by linarith
    then have "rat_of_int ?f * 2 ^ k \<le> ?x" by (rule mult_right_mono) simp
    then show "rat_of_int (?f * 2 ^ k) \<le> ?x" by (simp only: of_int_mult of_int_power of_int_numeral)
  qed
  have gap: "?q + 1 / of_int b \<le> of_int (?f + 1)"
  proof -
    have "a + 1 \<le> (?f + 1) * b"
      using pos_mod_bound [OF b, of a] div_mult_mod_eq [of a b] unfolding distrib_right by linarith
    then have "rat_of_int (a + 1) \<le> of_int ((?f + 1) * b)" by (simp only: of_int_le_iff)
    then have "(rat_of_int a + 1) / of_int b \<le> of_int (?f + 1)"
      using b by (simp add: divide_le_eq)
    then show ?thesis by (simp add: add_divide_distrib)
  qed
  have fine: "1 / 2 < 2 ^ k / rat_of_int b"
  proof -
    have "rat_of_int b < rpow2 (int k + 1)"
    proof (cases "ilog2 \<bar>?q\<bar> < -1022")
      case True
      then have "int k = 1074" using k by simp
      then have "rpow2 53 < rpow2 (int k + 1)" by (intro rpow2_strict_mono) simp
      moreover have "rat_of_int b < of_int whole_limit" using assms(3) by (simp only: of_int_less_iff)
      ultimately show ?thesis using rpow2_53 by simp
    next
      case False
      then have e: "ilog2 \<bar>?q\<bar> = 52 - int k" using k by simp
      have "rpow2 (52 - int k) \<le> \<bar>?q\<bar>" using rpow2_ilog2_le [of "\<bar>?q\<bar>"] q(1) e by simp
      also have "\<bar>?q\<bar> = rat_of_int \<bar>a\<bar> / of_int b" using b by simp
      finally have "rpow2 (52 - int k) * of_int b < rpow2 53"
        using b ab rpow2_53 by (simp add: le_divide_eq)
      also have "rpow2 53 = rpow2 (52 - int k) * rpow2 (int k + 1)"
        by (simp add: rpow2_add [symmetric])
      finally show ?thesis using rpow2_pos [of "52 - int k"] by simp
    qed
    moreover have "rpow2 (int k + 1) = 2 * 2 ^ k" by (simp add: rpow2_add rpow2_nat)
    ultimately show ?thesis using b by (simp add: less_divide_eq)
  qed
  have "rat_of_int (round_half_even ?x) < of_int ((?f + 1) * 2 ^ k)"
  proof -
    have "rat_of_int (round_half_even ?x) \<le> ?x + 1 / 2" by (rule round_half_even_close)
    also have "\<dots> < ?x + 2 ^ k / of_int b" using fine by simp
    also have "\<dots> = (?q + 1 / of_int b) * 2 ^ k" by (simp add: distrib_right)
    also have "\<dots> \<le> of_int (?f + 1) * 2 ^ k" using gap pos by (intro mult_right_mono) simp_all
    finally show ?thesis by simp
  qed
  then have high: "round_half_even ?x < (?f + 1) * 2 ^ k" by (simp only: of_int_less_iff)
  have "\<lfloor>rat_of_int (round_half_even ?x) / 2 ^ k\<rfloor> = ?f"
  proof (rule floor_unique)
    have "rat_of_int (?f * 2 ^ k) \<le> of_int (round_half_even ?x)" using low by (simp only: of_int_le_iff)
    then show "rat_of_int ?f \<le> of_int (round_half_even ?x) / 2 ^ k"
      using pos by (simp add: le_divide_eq)
    have "rat_of_int (round_half_even ?x) < of_int ((?f + 1) * 2 ^ k)" using high by (simp only: of_int_less_iff)
    then show "rat_of_int (round_half_even ?x) / 2 ^ k < of_int ?f + 1"
      using pos by (simp add: divide_less_eq)
  qed
  then show ?thesis using to_double_small [OF q k] by simp
qed simp

end
