(* ===== verification/Pattern_Value.thy ===== *)
theory Pattern_Value
  imports Candidate Pattern_Ast Js_Exact
begin

text \<open>
  The value level of \<open>src/patternV2/evaluator.ts\<close>: arithmetic over the bound events, the
  comparisons, aggregates and state conditions on a candidate, its windows, and the calendar
  and deadline computations.
\<close>

subsection \<open>Arithmetic\<close>

definition numeric :: "json option \<Rightarrow> jsnum option" where
  "numeric v = (case v of Some (JNum n) \<Rightarrow> if is_finite n then Some n else None | _ \<Rightarrow> None)"

fun all_numeric :: "json option list \<Rightarrow> jsnum list option" where
  "all_numeric [] = Some []"
| "all_numeric (v # vs) = (case (numeric v, all_numeric vs) of
     (Some n, Some ns) \<Rightarrow> Some (n # ns) | _ \<Rightarrow> None)"

definition arithmetic :: "arith_op \<Rightarrow> json option list \<Rightarrow> json option" where
  "arithmetic op args = (case all_numeric args of
     None \<Rightarrow> None
   | Some resolved \<Rightarrow> (case op of
       AAbs \<Rightarrow> Some (JNum (num_abs (hd resolved)))
     | AAdd \<Rightarrow> Some (JNum (foldl num_add (Fin 0) resolved))
     | ASubtract \<Rightarrow> Some (JNum (foldl num_sub (hd resolved) (tl resolved)))
     | AMultiply \<Rightarrow> Some (JNum (foldl num_mul (Fin 1) resolved))
     | ADivide \<Rightarrow> if list_ex (\<lambda>n. num_eq n (Fin 0)) (tl resolved) then None
                  else Some (JNum (foldl num_div (hd resolved) (tl resolved)))))"

primrec evaluateValue :: "host \<Rightarrow> candidate \<Rightarrow> arith_value \<Rightarrow> json option" where
  "evaluateValue h c (VLiteral v) = Some v"
| "evaluateValue h c (VField ref path sel n) =
     (case selectedEvent h c ref sel n of None \<Rightarrow> None
      | Some e \<Rightarrow> read_path (JObj (event_data e)) path)"
| "evaluateValue h c (VOccurredAt ref sel n) =
     (case selectedEvent h c ref sel n of None \<Rightarrow> None
      | Some e \<Rightarrow> Some (JNum (num_of_int (event_ms e))))"
| "evaluateValue h c (VArith op args) = arithmetic op (map (evaluateValue h c) args)"

primrec arithmeticNodeCost :: "arith_value \<Rightarrow> nat" where
  "arithmeticNodeCost (VLiteral v) = 1"
| "arithmeticNodeCost (VField ref path sel n) = 1"
| "arithmeticNodeCost (VOccurredAt ref sel n) = 1"
| "arithmeticNodeCost (VArith op args) = 1 + sum_list (map arithmeticNodeCost args)"

definition compareNumeric :: "jsnum \<Rightarrow> num_op \<Rightarrow> jsnum \<Rightarrow> bool" where
  "compareNumeric actual op expected = (case op of
     NEq \<Rightarrow> num_eq actual expected
   | NNeq \<Rightarrow> \<not> num_eq actual expected
   | NGt \<Rightarrow> num_less expected actual
   | NGte \<Rightarrow> num_le expected actual
   | NLt \<Rightarrow> num_less actual expected
   | NLte \<Rightarrow> num_le actual expected)"

subsection \<open>Comparisons\<close>

definition compare_expected :: "host \<Rightarrow> candidate \<Rightarrow> compare_spec \<Rightarrow> json option" where
  "compare_expected h c s = (case cmp_right s of
     Some v \<Rightarrow> evaluateValue h c v
   | None \<Rightarrow> (case cmp_values s of Some (v # vs) \<Rightarrow> Some v | _ \<Rightarrow> None))"

definition compare_general :: "host \<Rightarrow> compare_spec \<Rightarrow> json option \<Rightarrow> json \<Rightarrow> bool" where
  "compare_general h s actual expected = (case cmp_op s of
     CNum NEq \<Rightarrow> strict_eq actual (Some expected)
   | CNum NNeq \<Rightarrow> \<not> strict_eq actual (Some expected)
   | CNum op \<Rightarrow> (case (as_number actual, as_number (Some expected)) of
         (Some a, Some b) \<Rightarrow> compareNumeric a op b | _ \<Rightarrow> False)
   | CContains \<Rightarrow> (case actual of
         Some (JStr s) \<Rightarrow> contains_str s (js_string expected)
       | Some (JArr vs) \<Rightarrow> js_includes vs (Some expected)
       | _ \<Rightarrow> False)
   | CStartsWith \<Rightarrow> (case as_string actual of
         Some a \<Rightarrow> starts_with a (if expected = JNull then [] else js_string expected) | None \<Rightarrow> False)
   | CEndsWith \<Rightarrow> (case as_string actual of
         Some a \<Rightarrow> ends_with a (if expected = JNull then [] else js_string expected) | None \<Rightarrow> False)
   | CRegex \<Rightarrow> (case (as_string actual, as_string (Some expected)) of
         (Some a, Some p) \<Rightarrow>
           regex_test h p (case cmp_flags s of None \<Rightarrow> [] | Some f \<Rightarrow> f) a = Some True
       | _ \<Rightarrow> False)
   | _ \<Rightarrow> False)"

definition compareValue :: "host \<Rightarrow> candidate \<Rightarrow> compare_spec \<Rightarrow> json option \<Rightarrow> bool" where
  "compareValue h c s actual =
     (if cmp_op s = CIsNull then actual = Some JNull \<or> actual = None
      else if cmp_op s = CType then
        (case cmp_expectedType s of None \<Rightarrow> False | Some ty \<Rightarrow> has_type actual ty)
      else if actual = None then False
      else if cmp_op s = CIn \<or> cmp_op s = CNotIn then
        (let present = list_ex (\<lambda>v. strict_eq (Some v) actual)
               (case cmp_values s of None \<Rightarrow> [] | Some vs \<Rightarrow> vs)
         in if cmp_op s = CIn then present else \<not> present)
      else if cmp_op s = CBetween then
        (case (cmp_lower s, cmp_upper s) of
           (Some l, Some u) \<Rightarrow> between actual l u | _ \<Rightarrow> False)
      else (case compare_expected h c s of
              None \<Rightarrow> False | Some expected \<Rightarrow> compare_general h s actual expected))"

subsection \<open>Aggregates\<close>

text \<open>The event record itself as a value, for an aggregate without a path.\<close>

definition opt_field :: "string \<Rightarrow> json option \<Rightarrow> jobj" where
  "opt_field k v = (case v of None \<Rightarrow> [] | Some j \<Rightarrow> [(k, j)])"

definition event_json :: "source_event \<Rightarrow> json" where
  "event_json e = JObj (
     [(''clauseId'', JStr (clauseId e)), (''traceId'', JStr (traceId e)),
      (''sourceEventId'', JStr (sourceEventId e)), (''eventName'', JStr (eventName e)),
      (''occurredAt'', JStr (ts_text (occurredAt e)))] @
     opt_field ''receivedAt'' (map_option (\<lambda>t. JStr (ts_text t)) (receivedAt e)) @
     opt_field ''provider'' (map_option JStr (provider e)) @
     opt_field ''serverId'' (map_option JStr (serverId e)) @
     [(''subscriptionArguments'', JObj (subscriptionArguments e))] @
     opt_field ''payloadHash'' (map_option JStr (payloadHash e)) @
     [(''data'', JObj (event_data e))])"

definition aggregateValues :: "host \<Rightarrow> candidate \<Rightarrow> string \<Rightarrow> string option \<Rightarrow> json list" where
  "aggregateValues h c ref path =
     List.map_filter (\<lambda>e. if truthy_str path then read_path (JObj (event_data e)) (the path)
         else Some (event_json e)) (bound_sorted h c ref)"

definition num_cmp :: "jsnum \<Rightarrow> jsnum \<Rightarrow> int" where
  "num_cmp a b = (if num_less a b then -1 else if num_less b a then 1 else 0)"

definition num_index :: "jsnum \<Rightarrow> nat" where
  "num_index n = (case n of Fin q \<Rightarrow> nat \<lfloor>q\<rfloor> | _ \<Rightarrow> 0)"

definition num_sum :: "jsnum list \<Rightarrow> jsnum" where
  "num_sum ns = foldl num_add (Fin 0) ns"

definition num_count :: "'a list \<Rightarrow> jsnum" where
  "num_count xs = num_of_int (int (length xs))"

text \<open>\<open>x ** 2\<close> is modelled as the correctly rounded square.\<close>

definition num_stddev :: "jsnum list \<Rightarrow> jsnum" where
  "num_stddev ns =
     (let mean = num_div (num_sum ns) (num_count ns);
          variance = num_div (foldl (\<lambda>s v. num_add s (num_mul (num_sub v mean) (num_sub v mean))) (Fin 0) ns)
            (num_count ns)
      in num_sqrt variance)"

definition num_percentile :: "jsnum list \<Rightarrow> jsnum \<Rightarrow> jsnum" where
  "num_percentile ns p =
     (let ordered = sort_by num_cmp ns in
      if length ordered = 1 then ordered ! 0
      else let position = num_mul (num_of_int (int (length ordered) - 1)) p;
               lower = num_floor position; upper = num_ceil position
           in if num_eq lower upper then ordered ! num_index lower
              else let weight = num_sub position lower
                   in num_add (num_mul (ordered ! num_index lower) (num_sub (Fin 1) weight))
                        (num_mul (ordered ! num_index upper) weight))"

definition evaluatePatternAggregate :: "host \<Rightarrow> candidate \<Rightarrow> aggregate_spec \<Rightarrow> json option" where
  "evaluatePatternAggregate h c s =
     (let vals = aggregateValues h c (agg_ref s) (agg_path s) in
      case agg_function s of
        FCount \<Rightarrow> Some (JNum (num_count (bound (cand_bindings c) (agg_ref s))))
      | FCountDistinct \<Rightarrow> Some (JNum (num_count (remdups (map stringify vals))))
      | FFirst \<Rightarrow> nth_opt vals 0
      | FLast \<Rightarrow> last_opt vals
      | FNth \<Rightarrow> nth_opt vals (case agg_nth s of None \<Rightarrow> 0 | Some n \<Rightarrow> n)
      | f \<Rightarrow> (case all_numeric (map Some vals) of
           None \<Rightarrow> None
         | Some [] \<Rightarrow> None
         | Some ns \<Rightarrow> Some (JNum (case f of
             FSum \<Rightarrow> num_sum ns
           | FAvg \<Rightarrow> num_div (num_sum ns) (num_count ns)
           | FMin \<Rightarrow> foldl num_min PosInf ns
           | FMax \<Rightarrow> foldl num_max NegInf ns
           | FStddev \<Rightarrow> num_stddev ns
           | _ \<Rightarrow> num_percentile ns (case agg_percentile s of None \<Rightarrow> Fin (1/2) | Some p \<Rightarrow> p)))))"

definition aggregateMatches :: "host \<Rightarrow> candidate \<Rightarrow> aggregate_spec \<Rightarrow> num_op \<Rightarrow> jsnum \<Rightarrow> bool" where
  "aggregateMatches h c s op v =
     (case as_number (evaluatePatternAggregate h c s) of
        None \<Rightarrow> False | Some actual \<Rightarrow> compareNumeric actual op v)"

definition evaluatePatternMeasure :: "host \<Rightarrow> candidate \<Rightarrow> pattern_measure \<Rightarrow> json option" where
  "evaluatePatternMeasure h c m = (case meas_expression m of
     MAggregate s \<Rightarrow> evaluatePatternAggregate h c s
   | MValue v \<Rightarrow> evaluateValue h c v)"

subsection \<open>State conditions\<close>

definition state_measured :: "state_op \<Rightarrow> jsnum \<Rightarrow> jsnum \<Rightarrow> jsnum option" where
  "state_measured op before after = (case op of
     SIncreasedBy \<Rightarrow> Some (num_sub after before)
   | SDecreasedBy \<Rightarrow> Some (num_sub before after)
   | SDelta \<Rightarrow> Some (num_sub after before)
   | _ \<Rightarrow> if num_eq before (Fin 0) then None
          else Some (num_mul (num_div (num_sub after before) (num_abs before)) (Fin 100)))"

definition stateMatches :: "host \<Rightarrow> candidate \<Rightarrow> state_spec \<Rightarrow> bool" where
  "stateMatches h c s =
     (let es = bound_sorted h c (st_ref s);
          vals = map (\<lambda>e. read_path (JObj (event_data e)) (st_path s)) es
      in if length es < 2 then False
         else if st_op s = SStableFor then
           list_all (\<lambda>v. strict_eq v (hd vals)) (tl vals) \<and>
           (case st_forMs s of None \<Rightarrow> 0 | Some ms \<Rightarrow> ms) \<le> event_ms (last es) - event_ms (hd es)
         else let previous = vals ! (length vals - 2); current = last vals in
           if st_op s = SChanged then \<not> strict_eq previous current
           else if st_op s = SChangedFrom then
             strict_eq previous (st_from s) \<and> strict_eq current (st_to s)
           else (case (numeric previous, numeric current, st_value s) of
             (Some before, Some after, Some v) \<Rightarrow>
               (if st_op s = SCrossesAbove then num_le before v \<and> num_less v after
                else if st_op s = SCrossesBelow then num_le v before \<and> num_less after v
                else (case state_measured (st_op s) before after of
                        None \<Rightarrow> False | Some m \<Rightarrow> compareNumeric m (st_comparator s) v))
           | _ \<Rightarrow> False))"

subsection \<open>Windows\<close>

definition event_times :: "candidate \<Rightarrow> int list" where
  "event_times c = map event_ms (cand_events c)"

text \<open>\<open>Math.floor((time - offset) / size)\<close> in binary64.\<close>

definition bucket :: "int \<Rightarrow> int \<Rightarrow> int \<Rightarrow> jsnum" where
  "bucket time off sz =
     num_floor (num_div (num_sub (num_of_int time) (num_of_int off)) (num_of_int sz))"

text \<open>Truncating division of \<open>BigInt\<close>, corrected to floor division as the code does.\<close>

definition bigint_floor :: "int \<Rightarrow> int \<Rightarrow> int" where
  "bigint_floor delta hop = (if 0 \<le> delta then delta div hop else - ((- delta + hop - 1) div hop))"

fun gaps_within :: "int \<Rightarrow> int list \<Rightarrow> bool" where
  "gaps_within gap (a # b # ts) = (b - a \<le> gap \<and> gaps_within gap (b # ts))"
| "gaps_within gap ts = True"

definition windowMatches :: "candidate \<Rightarrow> pattern_window \<Rightarrow> bool" where
  "windowMatches c w =
     (if cand_events c = [] then True
      else let times = event_times c; earliest = min_of times; latest = max_of times in
        case w of
          WWithin sz \<Rightarrow> latest - earliest \<le> sz
        | WSliding sz \<Rightarrow> latest - earliest \<le> sz
        | WSession gap \<Rightarrow> gaps_within gap (sort_by int_cmp times)
        | WCount sz \<Rightarrow> 0 \<le> startIndex c \<and> endIndex c - startIndex c + 1 \<le> sz
        | WTumbling sz off \<Rightarrow> num_eq (bucket earliest off sz) (bucket latest off sz)
        | WHopping sz hop off \<Rightarrow>
            let start = bigint_floor (earliest - off) hop * hop + off
            in latest - sz + 1 \<le> start \<and> latest < start + sz)"

subsection \<open>Calendar and deadlines\<close>

definition clock_minutes :: "string \<Rightarrow> int" where
  "clock_minutes s = (let (h, m) = clock_hm s in h * 60 + m)"

definition calendarNodeMatches :: "host \<Rightarrow> calendar_spec \<Rightarrow> source_event \<Rightarrow> js_error + bool" where
  "calendarNodeMatches h s event =
     (case zonedParts (zones h) (time_clip (event_ms event)) (cal_timezone s) of
        Inl e \<Rightarrow> Inl e
      | Inr parts \<Rightarrow>
          let minutes = zp_hour parts * 60 + zp_minute parts in
          Inr (if \<not> opt_all (\<lambda>ws. zp_weekday parts \<in> set (map Some ws)) (cal_weekdays s) then False
            else if \<not> opt_all (\<lambda>ds. zp_date parts \<in> set ds) (cal_dates s) then False
            else if \<not> opt_all (\<lambda>(a, b). str_le a (zp_date parts) \<and> str_le (zp_date parts) b) (cal_dateRange s)
              then False
            else if \<not> opt_all (\<lambda>ds. zp_day parts \<in> set ds) (cal_dayOfMonth s) then False
            else (case (cal_before s, cal_after s) of
                (Some b, Some a) \<Rightarrow>
                  let before = clock_minutes b; after = clock_minutes a in
                  if after \<le> before then after \<le> minutes \<and> minutes \<le> before
                  else after \<le> minutes \<or> minutes \<le> before
              | (Some b, None) \<Rightarrow> minutes \<le> clock_minutes b
              | (None, Some a) \<Rightarrow> clock_minutes a \<le> minutes
              | (None, None) \<Rightarrow> True)))"

text \<open>The due date of an absence; \<open>None\<close> is the invalid date.\<close>

definition absenceNodeDueAt :: "host \<Rightarrow> absence_spec \<Rightarrow> source_event \<Rightarrow> js_error + int option" where
  "absenceNodeDueAt h s anchor =
     (case opt_duration (abs_forMs s) of
        ms # _ \<Rightarrow> Inr (time_clip (event_ms anchor + ms))
      | [] \<Rightarrow>
          let tz = (case abs_timezone s of None \<Rightarrow> [] | Some z \<Rightarrow> z);
              local = (case abs_untilLocalTime s of None \<Rightarrow> [] | Some l \<Rightarrow> l)
          in case zonedParts (zones h) (time_clip (event_ms anchor)) tz of
             Inl e \<Rightarrow> Inl e
           | Inr parts \<Rightarrow>
               (case localDateTimeToUtc (zones h) (zp_year parts) (zp_month parts) (zp_day parts) local tz of
                  Inl e \<Rightarrow> Inl e
                | Inr due \<Rightarrow> Inr (case due of
                    Some t \<Rightarrow> if t < event_ms anchor then time_clip (event_ms anchor) else Some t
                  | None \<Rightarrow> None)))"

subsection \<open>Input of semantic conditions\<close>

definition semanticSource :: "host \<Rightarrow> candidate \<Rightarrow> string list \<Rightarrow> jobj" where
  "semanticSource h c refs =
     fold (\<lambda>ref source.
       let es = bound_sorted h c ref in
       case es of
         [] \<Rightarrow> source
       | [e] \<Rightarrow> obj_put ref (JObj (event_data e)) source
       | _ \<Rightarrow> obj_put (ref @ ''Events'') (JArr (map (\<lambda>e. JObj (event_data e)) es))
               (obj_put ref (JObj (event_data (last es))) source)) refs []"

subsection \<open>What the windows mean\<close>

lemma foldl_min: "foldl min x xs = Min (set (x # xs))" for x :: int
proof (induction xs arbitrary: x)
  case (Cons y ys)
  have "foldl min x (y # ys) = Min (insert (min x y) (set ys))" using Cons.IH by simp
  also have "\<dots> = Min (set (x # y # ys))" by (cases "ys = []") (simp_all add: min.assoc)
  finally show ?case .
qed simp

lemma foldl_max: "foldl max x xs = Max (set (x # xs))" for x :: int
proof (induction xs arbitrary: x)
  case (Cons y ys)
  have "foldl max x (y # ys) = Max (insert (max x y) (set ys))" using Cons.IH by simp
  also have "\<dots> = Max (set (x # y # ys))" by (cases "ys = []") (simp_all add: max.assoc)
  finally show ?case .
qed simp

lemma min_of_Min: "xs \<noteq> [] \<Longrightarrow> min_of xs = Min (set xs)"
  by (cases xs) (simp_all only: min_of.simps foldl_min)

lemma max_of_Max: "xs \<noteq> [] \<Longrightarrow> max_of xs = Max (set xs)"
  by (cases xs) (simp_all only: max_of.simps foldl_max)

lemma bigint_floor_div: "0 < hop \<Longrightarrow> bigint_floor d hop = d div hop"
proof (cases "0 \<le> d")
  case False
  assume h: "0 < hop"
  let ?q = "d div hop" and ?r = "d mod hop"
  have "- d + hop - 1 = (hop - 1 - ?r) + (- ?q) * hop"
    using div_mult_mod_eq [of d hop] by (simp add: algebra_simps)
  moreover have "0 \<le> hop - 1 - ?r" "hop - 1 - ?r < hop"
    using h pos_mod_bound [OF h, of d] pos_mod_sign [OF h, of d] by linarith+
  ultimately have "(- d + hop - 1) div hop = - ?q"
    using h by (simp only: div_mult_self1 div_pos_pos_trivial)
  then show ?thesis using False by (simp add: bigint_floor_def)
qed (simp add: bigint_floor_def)

lemma times_bounds:
  assumes "cand_events c \<noteq> []"
  shows "(\<forall>e \<in> set (cand_events c). lo \<le> event_ms e) \<longleftrightarrow> lo \<le> min_of (event_times c)"
    and "(\<forall>e \<in> set (cand_events c). event_ms e < hi) \<longleftrightarrow> max_of (event_times c) < hi"
  using assms by (auto simp: min_of_Min max_of_Max event_times_def)

lemma min_le_max:
  "cand_events c \<noteq> [] \<Longrightarrow> min_of (event_times c) \<le> max_of (event_times c)"
proof -
  assume "cand_events c \<noteq> []"
  then have ne: "event_times c \<noteq> []" by (simp add: event_times_def)
  then have "Min (set (event_times c)) \<le> Max (set (event_times c))"
    using Min_in [of "set (event_times c)"] by simp
  then show ?thesis using ne by (simp add: min_of_Min max_of_Max)
qed

text \<open>
  A hopping window holds exactly when some window of the grid contains every event, even
  though the code only looks at the last grid start before the first event.
\<close>

theorem hopping_window_iff:
  assumes "cand_events c \<noteq> []" and "0 < hop"
  shows "windowMatches c (WHopping sz hop off) \<longleftrightarrow>
    (\<exists>k. \<forall>e \<in> set (cand_events c). off + k * hop \<le> event_ms e \<and> event_ms e < off + k * hop + sz)"
    (is "?lhs \<longleftrightarrow> (\<exists>k. ?in k)")
proof -
  let ?lo = "min_of (event_times c)" and ?hi = "max_of (event_times c)"
  let ?k = "(?lo - off) div hop"
  have grid: "?in k \<longleftrightarrow> off + k * hop \<le> ?lo \<and> ?hi < off + k * hop + sz" for k
    using times_bounds(1) [OF assms(1), of "off + k * hop"]
      times_bounds(2) [OF assms(1), of "off + k * hop + sz"] by blast
  have k: "off + ?k * hop \<le> ?lo"
    using assms(2) div_mult_mod_eq [of "?lo - off" hop] pos_mod_sign [OF assms(2), of "?lo - off"] by linarith
  have last: "k * hop \<le> ?k * hop" if "off + k * hop \<le> ?lo" for k
  proof -
    have "k = (k * hop) div hop" using assms(2) by simp
    also have "\<dots> \<le> ?k" using that assms(2) by (intro zdiv_mono1) simp_all
    finally show ?thesis using assms(2) by simp
  qed
  have "?lhs \<longleftrightarrow> ?hi < off + ?k * hop + sz"
    using assms by (auto simp: windowMatches_def Let_def bigint_floor_div)
  also have "\<dots> \<longleftrightarrow> (\<exists>k. off + k * hop \<le> ?lo \<and> ?hi < off + k * hop + sz)"
  proof
    assume "\<exists>k. off + k * hop \<le> ?lo \<and> ?hi < off + k * hop + sz"
    then obtain j where "off + j * hop \<le> ?lo" "?hi < off + j * hop + sz" by blast
    then show "?hi < off + ?k * hop + sz" using last [of j] by linarith
  qed (use k in blast)
  finally show ?thesis using grid by simp
qed

text \<open>
  A tumbling window, computed in binary64, holds exactly when all events fall into one
  bucket of the grid, for the instants a date can have.
\<close>

theorem tumbling_window_iff:
  assumes "cand_events c \<noteq> []" and "0 < sz" and "sz < whole_limit" and "\<bar>off\<bar> < whole_limit"
    and "\<And>e. e \<in> set (cand_events c) \<Longrightarrow> \<bar>event_ms e\<bar> \<le> max_time \<and> \<bar>event_ms e - off\<bar> < whole_limit"
  shows "windowMatches c (WTumbling sz off) \<longleftrightarrow>
    (\<exists>k. \<forall>e \<in> set (cand_events c). off + k * sz \<le> event_ms e \<and> event_ms e < off + (k + 1) * sz)"
    (is "?lhs \<longleftrightarrow> (\<exists>k. ?in k)")
proof -
  let ?lo = "min_of (event_times c)" and ?hi = "max_of (event_times c)"
  have mem: "?lo \<in> event_ms ` set (cand_events c)" "?hi \<in> event_ms ` set (cand_events c)"
    using assms(1) Min_in [of "event_ms ` set (cand_events c)"] Max_in [of "event_ms ` set (cand_events c)"]
    by (simp_all add: min_of_Min max_of_Max event_times_def)
  have max: "max_time < whole_limit" by (simp add: max_time_def whole_limit_def)
  have exact: "bucket t off sz = Fin (of_int ((t - off) div sz))"
    if "t \<in> event_ms ` set (cand_events c)" for t
  proof -
    have t: "\<bar>t\<bar> < whole_limit" "\<bar>t - off\<bar> < whole_limit" using assms(5) that max by force+
    have "num_sub (num_of_int t) (num_of_int off) = Fin (of_int (t - off))"
      using to_double_whole [OF t(1)] to_double_whole [OF assms(4)] to_double_whole [OF t(2)]
      by (simp add: num_sub_def num_of_int_def)
    moreover have "num_of_int sz = Fin (of_int sz)"
      using to_double_whole [of sz] assms(2,3) by (simp add: num_of_int_def)
    ultimately show ?thesis
      using to_double_floor [OF assms(2) t(2) assms(3)] assms(2) by (simp add: bucket_def)
  qed
  have "?lhs \<longleftrightarrow> (?lo - off) div sz = (?hi - off) div sz"
    using assms(1) exact mem by (simp add: windowMatches_def Let_def)
  also have "\<dots> \<longleftrightarrow> (\<exists>k. off + k * sz \<le> ?lo \<and> ?hi < off + (k + 1) * sz)"
  proof
    assume eq: "(?lo - off) div sz = (?hi - off) div sz"
    have "off + (?lo - off) div sz * sz \<le> ?lo"
      using div_mult_mod_eq [of "?lo - off" sz] pos_mod_sign [OF assms(2), of "?lo - off"] by linarith
    moreover have "?hi < off + ((?hi - off) div sz + 1) * sz"
      using div_mult_mod_eq [of "?hi - off" sz] pos_mod_bound [OF assms(2), of "?hi - off"]
      unfolding distrib_right by linarith
    ultimately show "\<exists>k. off + k * sz \<le> ?lo \<and> ?hi < off + (k + 1) * sz" using eq by metis
  next
    assume "\<exists>k. off + k * sz \<le> ?lo \<and> ?hi < off + (k + 1) * sz"
    then obtain k where "off + k * sz \<le> ?lo" "?hi < off + (k + 1) * sz" by blast
    then have k: "k * sz \<le> ?lo - off" "?hi - off < (k + 1) * sz" by linarith+
    have "k \<le> (?lo - off) div sz"
      using zdiv_mono1 [OF k(1) assms(2)] assms(2) by simp
    moreover have "(?hi - off) div sz * sz < (k + 1) * sz"
      using k(2) div_mult_mod_eq [of "?hi - off" sz] pos_mod_sign [OF assms(2), of "?hi - off"] by linarith
    then have "(?hi - off) div sz < k + 1" using assms(2) by (simp only: mult_less_cancel_right_pos)
    moreover have "(?lo - off) div sz \<le> (?hi - off) div sz"
      using min_le_max [OF assms(1)] assms(2) by (intro zdiv_mono1) simp_all
    ultimately show "(?lo - off) div sz = (?hi - off) div sz" by simp
  qed
  also have "\<dots> \<longleftrightarrow> (\<exists>k. ?in k)"
    using times_bounds [OF assms(1)] by (metis (no_types, lifting))
  finally show ?thesis .
qed

subsection \<open>Instances\<close>

definition sample_triple :: candidate where
  "sample_triple = (let es = [sample_event ''a'' ''1'' 1, sample_event ''a'' ''2'' 2, sample_event ''a'' ''3'' 4]
     in candidateFromBindings sample_host es [(''a'', es)] None [])"

lemma sample_triple_events:
  "cand_events sample_triple = [sample_event ''a'' ''1'' 1, sample_event ''a'' ''2'' 2, sample_event ''a'' ''3'' 4]"
  by code_simp

lemma sample_event_ms [simp]: "event_ms (sample_event c i s) = s * 1000"
  by (simp add: event_ms_def sample_event_def)

lemma hopping_window_iff_witness: "windowMatches sample_triple (WHopping 4000 1000 500)"
  by (subst hopping_window_iff) (simp_all add: sample_triple_events exI [of _ 0])

lemma tumbling_window_iff_witness: "windowMatches sample_triple (WTumbling 5000 0)"
  by (subst tumbling_window_iff)
    (auto simp: sample_triple_events whole_limit_def max_time_def intro: exI [of _ 0])

end
