(* ===== verification/Evaluator.thy ===== *)
theory Evaluator
  imports Pattern_Value
begin

text \<open>
  The node evaluator of \<open>src/patternV2/evaluator.ts\<close>. The fields of \<open>EvaluationContext\<close> that
  never change during an evaluation are the environment, the others the state; every loop of
  \<open>evaluateNode\<close> is a function over the list it iterates, and every \<open>break\<close>, \<open>continue\<close> and
  early \<open>return\<close> is a branch of it.
\<close>

subsection \<open>What the host supplies to an evaluation\<close>

text \<open>
  The evaluator of natural-language conditions, the admission gate, the durable decision
  cache and the clock are outside the program. Each interaction with one of them is numbered,
  and an answer may depend on that number, so that nothing is assumed about them.
\<close>

datatype admission_reply = Approves | Denies | NotBoolean | AdmissionThrows js_error

record admission_request =
  adm_namespace :: string
  adm_nodeId :: string
  adm_candidateSignature :: string
  adm_evaluatorIdentity :: string
  adm_inputBytes :: nat
  adm_instructionBytes :: nat

record semantic_evaluator =
  sev_cacheIdentity :: "string option"
  sev_evaluate :: "nat \<Rightarrow> string \<Rightarrow> (string \<times> json option) list \<Rightarrow> semantic_reply"

record durable_cache =
  dur_get :: "nat \<Rightarrow> string \<Rightarrow> js_error + semantic_decision option"
  dur_set :: "nat \<Rightarrow> string \<Rightarrow> semantic_decision \<Rightarrow> js_error option"

record env =
  env_host :: host
  env_events :: "source_event list"
  env_incomplete :: "string list"
  env_now :: int
  env_maxCandidates :: nat
  env_maxSemanticEvaluations :: nat
  env_maxWorkSteps :: nat
  env_allowedLatenessMs :: int
  env_evaluator :: "semantic_evaluator option"
  env_durable :: "durable_cache option"
  env_admission :: "(nat \<Rightarrow> admission_request \<Rightarrow> admission_reply) option"
  env_namespace :: string
  env_contextRevision :: string
  env_cacheTtlMs :: "int option"
  env_deadlineAt :: "jsnum option"
  env_clock :: "nat \<Rightarrow> jsnum"

record semantic_trace =
  tr_nodeId :: string
  tr_candidateSignature :: string
  tr_decision :: semantic_decision

record ctx =
  ctx_incompletePending :: "candidate list"
  ctx_semanticEvaluations :: nat
  ctx_cacheHits :: nat
  ctx_cacheMisses :: nat
  ctx_truncated :: bool
  ctx_workSteps :: nat
  ctx_workExhausted :: bool
  ctx_semanticCache :: "(string \<times> semantic_decision) list"
  ctx_trace :: "semantic_trace list"
  ctx_io :: nat

type_synonym 'a eval = "(ctx, 'a) comp"

definition initial_ctx :: ctx where
  "initial_ctx = \<lparr>ctx_incompletePending = [], ctx_semanticEvaluations = 0, ctx_cacheHits = 0,
     ctx_cacheMisses = 0, ctx_truncated = False, ctx_workSteps = 0, ctx_workExhausted = False,
     ctx_semanticCache = [], ctx_trace = [], ctx_io = 0\<rparr>"

subsection \<open>Work and truncation\<close>

definition consumeWork :: "env \<Rightarrow> nat \<Rightarrow> bool eval" where
  "consumeWork env units = (\<lambda>s.
     if ctx_workExhausted s then (Inr False, s)
     else let s' = s\<lparr>ctx_workSteps := ctx_workSteps s + units\<rparr> in
       if ctx_workSteps s' \<le> env_maxWorkSteps env then (Inr True, s')
       else (Inr False, s'\<lparr>ctx_workExhausted := True, ctx_truncated := True\<rparr>))"

definition set_truncated :: "unit eval" where
  "set_truncated = modS (\<lambda>s. s\<lparr>ctx_truncated := True\<rparr>)"

text \<open>\<open>context.truncated ||= b\<close>.\<close>

definition truncate_if :: "bool \<Rightarrow> unit eval" where
  "truncate_if b = (if b then set_truncated else ret ())"

definition is_truncated :: "bool eval" where
  "is_truncated = (\<lambda>s. (Inr (ctx_truncated s), s))"

definition is_exhausted :: "bool eval" where
  "is_exhausted = (\<lambda>s. (Inr (ctx_workExhausted s), s))"

text \<open>The number of the next interaction with the outside.\<close>

definition next_io :: "nat eval" where
  "next_io = (\<lambda>s. (Inr (ctx_io s), s\<lparr>ctx_io := ctx_io s + 1\<rparr>))"

text \<open>The bucket of \<open>eventsByRef\<close>: the ordered events of a clause.\<close>

definition events_by_ref :: "env \<Rightarrow> string \<Rightarrow> source_event list" where
  "events_by_ref env ref = filter (\<lambda>e. clauseId e = ref) (env_events env)"

definition eventsForRef :: "env \<Rightarrow> string \<Rightarrow> source_event list eval" where
  "eventsForRef env ref =
     seq (consumeWork env (length (events_by_ref env ref)))
       (\<lambda>ok. ret (if ok then events_by_ref env ref else []))"

definition distinctEventsForRef :: "env \<Rightarrow> string \<Rightarrow> source_event list eval" where
  "distinctEventsForRef env ref =
     seq (eventsForRef env ref) (\<lambda>es. ret (first_by eventIdentity [] es))"

text \<open>Filters whose predicate may throw.\<close>

fun filterE :: "('a \<Rightarrow> js_error + bool) \<Rightarrow> 'a list \<Rightarrow> 'a list eval" where
  "filterE p [] = ret []"
| "filterE p (x # xs) =
     seq (liftE (p x)) (\<lambda>b. seq (filterE p xs) (\<lambda>ys. ret (if b then x # ys else ys)))"

fun mapE :: "('a \<Rightarrow> js_error + 'b) \<Rightarrow> 'a list \<Rightarrow> 'b list eval" where
  "mapE f [] = ret []"
| "mapE f (x # xs) = seq (liftE (f x)) (\<lambda>y. seq (mapE f xs) (\<lambda>ys. ret (y # ys)))"

subsection \<open>Attached witnesses\<close>

definition bound_count :: "candidate \<Rightarrow> nat" where
  "bound_count c = sum_list (map (\<lambda>b. length (snd b)) (cand_bindings c))"

fun attach_loop :: "env \<Rightarrow> string \<Rightarrow> source_event list \<Rightarrow> candidate list \<Rightarrow> candidate list eval" where
  "attach_loop env ref ws [] = ret []"
| "attach_loop env ref ws (c # cs) =
     seq (consumeWork env (max 1 (length ws + bound_count c)))
       (\<lambda>ok. if \<not> ok then ret []
          else seq (attach_loop env ref ws cs)
            (\<lambda>out. ret (withBindingEvents (env_host env) (env_events env) c ref ws # out)))"

definition attachBindingsBounded :: "env \<Rightarrow> candidate list \<Rightarrow> string \<Rightarrow> source_event list \<Rightarrow> candidate list eval" where
  "attachBindingsBounded env children ref ws = attach_loop env ref ws children"

subsection \<open>Incomplete sources\<close>

text \<open>
  Whether a node of the forbidden branch refers to a source that is not complete. The order
  of the traversal does not matter for its answer.
\<close>

primrec mentions_incomplete :: "string list \<Rightarrow> pattern_node \<Rightarrow> bool" where
  "mentions_incomplete inc (EventN ref) = (ref \<in> set inc)"
| "mentions_incomplete inc (AllOf cs) = list_ex (\<lambda>b. b) (map (mentions_incomplete inc) cs)"
| "mentions_incomplete inc (AnyOf cs) = list_ex (\<lambda>b. b) (map (mentions_incomplete inc) cs)"
| "mentions_incomplete inc (SequenceN cs ct) = list_ex (\<lambda>b. b) (map (mentions_incomplete inc) cs)"
| "mentions_incomplete inc (RepeatN c mn mx md ct) = mentions_incomplete inc c"
| "mentions_incomplete inc (OptionalN c md) = mentions_incomplete inc c"
| "mentions_incomplete inc (NotNext c f) = (mentions_incomplete inc c \<or> mentions_incomplete inc f)"
| "mentions_incomplete inc (NotFollowedBy i c f ms) = (mentions_incomplete inc c \<or> mentions_incomplete inc f)"
| "mentions_incomplete inc (WindowN w c) = mentions_incomplete inc c"
| "mentions_incomplete inc (CalendarN s c) = (cal_ref s \<in> set inc \<or> mentions_incomplete inc c)"
| "mentions_incomplete inc (AbsenceN s c) = (abs_ref s \<in> set inc \<or> mentions_incomplete inc c)"
| "mentions_incomplete inc (NotPresent c ref) = (ref \<in> set inc \<or> mentions_incomplete inc c)"
| "mentions_incomplete inc (AfterN c ref aref) = (ref \<in> set inc \<or> mentions_incomplete inc c)"
| "mentions_incomplete inc (UntilN c ref bref) = (ref \<in> set inc \<or> mentions_incomplete inc c)"
| "mentions_incomplete inc (DebounceN i c ref ms) = (ref \<in> set inc \<or> mentions_incomplete inc c)"
| "mentions_incomplete inc (ThresholdN c ref k) = (ref \<in> set inc \<or> mentions_incomplete inc c)"
| "mentions_incomplete inc (RateN c ref k ms) = (ref \<in> set inc \<or> mentions_incomplete inc c)"
| "mentions_incomplete inc (DistinctN c ref path k) = (ref \<in> set inc \<or> mentions_incomplete inc c)"
| "mentions_incomplete inc (CompareN s c) = mentions_incomplete inc c"
| "mentions_incomplete inc (AggregateN s op v c) = (agg_ref s \<in> set inc \<or> mentions_incomplete inc c)"
| "mentions_incomplete inc (StateN s c) = (st_ref s \<in> set inc \<or> mentions_incomplete inc c)"
| "mentions_incomplete inc (SemanticN s c) = mentions_incomplete inc c"

definition forbiddenNeedsIncompleteSource :: "env \<Rightarrow> pattern_node \<Rightarrow> bool" where
  "forbiddenNeedsIncompleteSource env node =
     (env_incomplete env \<noteq> [] \<and> mentions_incomplete (env_incomplete env) node)"

text \<open>
  The loops that keep reevaluation hints for bases that cannot be decided now. \<open>entry\<close> is the
  test at the top of the loop body (\<open>break\<close>, \<open>continue\<close> or go on), \<open>mk\<close> the deadline to keep
  the base with, \<open>None\<close> for a base that is passed over after all.
\<close>

datatype loop_entry = Break | Continue | GoOn

fun defer_loop ::
  "env \<Rightarrow> (candidate \<Rightarrow> loop_entry) \<Rightarrow> (candidate \<Rightarrow> js_error + timestamp option) \<Rightarrow>
   candidate list \<Rightarrow> unit eval"
where
  "defer_loop env entry mk [] = ret ()"
| "defer_loop env entry mk (b # bs) =
     (case entry b of
        Break \<Rightarrow> ret ()
      | Continue \<Rightarrow> defer_loop env entry mk bs
      | GoOn \<Rightarrow> seq (consumeWork env 1) (\<lambda>ok. if \<not> ok then ret ()
          else seq getS (\<lambda>s.
            if env_maxCandidates env \<le> length (ctx_incompletePending s) then set_truncated
            else seq (liftE (mk b)) (\<lambda>deadline. case deadline of
                None \<Rightarrow> defer_loop env entry mk bs
              | Some t \<Rightarrow>
                  seq (modS (\<lambda>s. s\<lparr>ctx_incompletePending :=
                         ctx_incompletePending s @ [b\<lparr>pendingUntil := Some t\<rparr>]\<rparr>))
                    (\<lambda>_. defer_loop env entry mk bs)))))"

text \<open>The common shape of the incomplete branches: nothing is decided, the run is truncated.\<close>

definition defer_all ::
  "env \<Rightarrow> (candidate \<Rightarrow> loop_entry) \<Rightarrow> (candidate \<Rightarrow> js_error + timestamp option) \<Rightarrow>
   candidate list eval \<Rightarrow> candidate list eval"
where
  "defer_all env entry mk child =
     seq child (\<lambda>bases. seq is_truncated (\<lambda>t. if t then ret []
       else seq (defer_loop env entry mk bases) (\<lambda>_. seq set_truncated (\<lambda>_. ret []))))"

definition break_if_empty :: "candidate \<Rightarrow> loop_entry" where
  "break_if_empty b = (if cand_events b = [] then Break else GoOn)"

definition continue_if_empty :: "candidate \<Rightarrow> loop_entry" where
  "continue_if_empty b = (if cand_events b = [] then Continue else GoOn)"

definition last_occurredAt :: "candidate \<Rightarrow> js_error + timestamp option" where
  "last_occurredAt b = Inr (Some (occurredAt (last (cand_events b))))"

text \<open>\<open>{...base, ...(now < finalAt ? {pendingUntil: ...} : {})}\<close>; \<open>None\<close> is the invalid date.\<close>

definition until_final :: "env \<Rightarrow> int option \<Rightarrow> candidate \<Rightarrow> js_error + candidate" where
  "until_final env finalAt c = (case finalAt of
     None \<Rightarrow> Inr c
   | Some t \<Rightarrow> if env_now env < t then
       (case toISOString (time_clip t) of Inl e \<Rightarrow> Inl e | Inr ts \<Rightarrow> Inr (c\<lparr>pendingUntil := Some ts\<rparr>))
       else Inr c)"

subsection \<open>Event and union nodes\<close>

fun event_loop :: "env \<Rightarrow> string \<Rightarrow> string list \<Rightarrow> candidate list \<Rightarrow> source_event list \<Rightarrow> candidate list eval" where
  "event_loop env ref sn vals [] = ret vals"
| "event_loop env ref sn vals (e # es) =
     seq (consumeWork env 1) (\<lambda>ok.
       if \<not> ok then ret vals
       else if eventIdentity e \<in> set sn then event_loop env ref sn vals es
       else if env_maxCandidates env \<le> length vals then seq set_truncated (\<lambda>_. ret vals)
       else event_loop env ref (eventIdentity e # sn)
         (vals @ [candidateFromBindings (env_host env) (env_events env) [(ref, [e])] None []]) es)"

definition eval_event :: "env \<Rightarrow> string \<Rightarrow> candidate list eval" where
  "eval_event env ref = seq (eventsForRef env ref) (event_loop env ref [] [])"

text \<open>The inner loop of \<open>anyOf\<close> over the candidates of a child; the flag is its \<open>return\<close>.\<close>

fun any_inner :: "env \<Rightarrow> string list \<Rightarrow> candidate list \<Rightarrow> candidate list \<Rightarrow> (bool \<times> string list \<times> candidate list) eval" where
  "any_inner env sn vals [] = ret (False, sn, vals)"
| "any_inner env sn vals (c # cs) =
     seq (consumeWork env 1) (\<lambda>ok.
       if \<not> ok then ret (False, sn, vals)
       else let key = candidateDedupeKey c in
         if key \<in> set sn then any_inner env sn vals cs
         else if env_maxCandidates env \<le> length vals
           then seq set_truncated (\<lambda>_. ret (True, key # sn, vals))
         else any_inner env (key # sn) (vals @ [c]) cs)"

fun any_outer :: "env \<Rightarrow> string list \<Rightarrow> candidate list \<Rightarrow> candidate list eval list \<Rightarrow> candidate list eval" where
  "any_outer env sn vals [] = ret vals"
| "any_outer env sn vals (child # rest) =
     seq is_exhausted (\<lambda>x. if x then ret vals
       else seq child (\<lambda>cs. seq (any_inner env sn vals cs) (\<lambda>(stop, sn', vals').
         if stop then ret vals'
         else seq is_exhausted (\<lambda>y. if y then ret vals' else any_outer env sn' vals' rest))))"

subsection \<open>Conjunction\<close>

text \<open>
  The two nested loops of \<open>allOf\<close> are one loop over the pairs, since both breaks leave both;
  the flag is the local \<open>truncated\<close>.
\<close>

fun join_all :: "env \<Rightarrow> string list \<Rightarrow> candidate list \<Rightarrow> (candidate \<times> candidate) list \<Rightarrow> (bool \<times> candidate list) eval" where
  "join_all env sn vals [] = ret (False, vals)"
| "join_all env sn vals ((left, right) # pairs) =
     seq (consumeWork env 1) (\<lambda>ok.
       if \<not> ok then ret (False, vals)
       else (case mergeCandidates (env_host env) (env_events env) left right of
           None \<Rightarrow> join_all env sn vals pairs
         | Some merged \<Rightarrow>
             let key = candidateDedupeKey merged in
             if key \<in> set sn then join_all env sn vals pairs
             else if env_maxCandidates env \<le> length vals then ret (True, vals)
             else join_all env (key # sn) (vals @ [merged]) pairs))"

fun all_outer :: "env \<Rightarrow> candidate list \<Rightarrow> candidate list eval list \<Rightarrow> candidate list eval" where
  "all_outer env current [] = ret current"
| "all_outer env current (child # rest) =
     seq child (\<lambda>nxt. seq (join_all env [] [] (List.product current nxt)) (\<lambda>(t, combined).
       seq (truncate_if t) (\<lambda>_. if combined = [] then ret [] else all_outer env combined rest)))"

subsection \<open>Sequence\<close>

definition empty_preference :: "pattern_node \<Rightarrow> preference" where
  "empty_preference child = (case child of
     OptionalN c md \<Rightarrow> md
   | RepeatN c mn mx md ct \<Rightarrow> if mn = 0 then md else Lazy
   | _ \<Rightarrow> Lazy)"

definition rank_cmp :: "preference \<Rightarrow> candidate \<times> nat \<Rightarrow> candidate \<times> nat \<Rightarrow> int" where
  "rank_cmp pref a b =
     (let aEmpty = (cand_events (fst a) = []); bEmpty = (cand_events (fst b) = []);
          by_rank = int (snd a) - int (snd b)
      in if aEmpty \<noteq> bEmpty then
           (if pref = Greedy then of_bool aEmpty - of_bool bEmpty else of_bool bEmpty - of_bool aEmpty)
         else if \<not> aEmpty then
           (if startIndex (fst a) \<noteq> startIndex (fst b) then startIndex (fst a) - startIndex (fst b) else by_rank)
         else by_rank)"

definition ranked_successors :: "preference \<Rightarrow> candidate list \<Rightarrow> candidate list" where
  "ranked_successors pref nxt = map fst (sort_by (rank_cmp pref) (zip nxt [0..<length nxt]))"

definition sequence_key :: "candidate \<Rightarrow> string" where
  "sequence_key c = join_with ''#'' [candidateSignature c,
     case pendingUntil c of None \<Rightarrow> ''-'' | Some t \<Rightarrow> ts_text t]"

text \<open>Whether the order and contiguity of a sequence admit \<open>right\<close> after \<open>left\<close>.\<close>

definition follows :: "contiguity \<Rightarrow> candidate \<Rightarrow> candidate \<Rightarrow> bool" where
  "follows contig left right \<longleftrightarrow>
     (cand_events right \<noteq> [] \<and> cand_events left \<noteq> [] \<longrightarrow>
        endIndex left < startIndex right \<and>
        (contig = Next \<longrightarrow> startIndex right = endIndex left + 1))"

text \<open>How a pass over the successors of one left candidate ends.\<close>

datatype join_end = JoinOn | JoinStop | JoinCap

fun seq_inner ::
  "env \<Rightarrow> contiguity \<Rightarrow> candidate \<Rightarrow> string list \<Rightarrow> candidate list \<Rightarrow> candidate list \<Rightarrow>
   (join_end \<times> string list \<times> candidate list) eval"
where
  "seq_inner env contig left sn vals [] = ret (JoinOn, sn, vals)"
| "seq_inner env contig left sn vals (right # rs) =
     seq (consumeWork env 1) (\<lambda>ok.
       if \<not> ok then ret (JoinStop, sn, vals)
       else if \<not> follows contig left right then seq_inner env contig left sn vals rs
       else (let firstOnly = (contig = FollowedBy) in
         case mergeCandidates (env_host env) (env_events env) left right of
           None \<Rightarrow> if firstOnly then ret (JoinOn, sn, vals) else seq_inner env contig left sn vals rs
         | Some merged \<Rightarrow>
             let key = sequence_key merged in
             if key \<in> set sn then
               (if firstOnly then ret (JoinOn, sn, vals) else seq_inner env contig left sn vals rs)
             else if env_maxCandidates env \<le> length vals then ret (JoinCap, key # sn, vals)
             else if firstOnly then ret (JoinOn, key # sn, vals @ [merged])
             else seq_inner env contig left (key # sn) (vals @ [merged]) rs))"

fun seq_join ::
  "env \<Rightarrow> contiguity \<Rightarrow> candidate list \<Rightarrow> string list \<Rightarrow> candidate list \<Rightarrow> candidate list \<Rightarrow>
   (bool \<times> candidate list) eval"
where
  "seq_join env contig ranked sn vals [] = ret (False, vals)"
| "seq_join env contig ranked sn vals (left # ls) =
     seq (seq_inner env contig left sn vals ranked) (\<lambda>(e, sn', vals').
       case e of JoinOn \<Rightarrow> seq_join env contig ranked sn' vals' ls
       | JoinStop \<Rightarrow> ret (False, vals') | JoinCap \<Rightarrow> ret (True, vals'))"

fun seq_outer ::
  "env \<Rightarrow> contiguity \<Rightarrow> candidate list \<Rightarrow> (preference \<times> candidate list eval) list \<Rightarrow> candidate list eval"
where
  "seq_outer env contig current [] = ret current"
| "seq_outer env contig current ((pref, child) # rest) =
     seq child (\<lambda>nxt. seq (seq_join env contig (ranked_successors pref nxt) [] [] current)
       (\<lambda>(t, combined). seq (truncate_if t)
         (\<lambda>_. if combined = [] then ret [] else seq_outer env contig combined rest)))"

definition eval_sequence ::
  "env \<Rightarrow> contiguity \<Rightarrow> (preference \<times> candidate list eval) list \<Rightarrow> candidate list eval"
where
  "eval_sequence env contig children = (case children of
     [] \<Rightarrow> ret []
   | (pref, first) # rest \<Rightarrow> seq first (\<lambda>current. seq_outer env contig current rest))"

subsection \<open>Repetition\<close>

text \<open>The local variables of a repeat: its output, its own limit flag, its exploration steps.\<close>

record rep =
  rep_output :: "(candidate \<times> nat) list"
  rep_limit :: bool
  rep_steps :: nat

type_synonym 'a rep_eval = "(ctx \<times> rep, 'a) comp"

definition onCtx :: "'a eval \<Rightarrow> 'a rep_eval" where
  "onCtx m = (\<lambda>(s, r). case m s of (x, s') \<Rightarrow> (x, (s', r)))"

definition rep_stop :: "unit rep_eval" where
  "rep_stop = modS (\<lambda>(s, r). (s\<lparr>ctx_truncated := True\<rparr>, r\<lparr>rep_limit := True\<rparr>))"

definition consumeStep :: "env \<Rightarrow> bool rep_eval" where
  "consumeStep env =
     seq (modS (\<lambda>(s, r). (s, r\<lparr>rep_steps := rep_steps r + 1\<rparr>)))
       (\<lambda>_. seq getS (\<lambda>(s, r).
          if rep_steps r \<le> env_maxCandidates env * 32 then ret True
          else seq rep_stop (\<lambda>_. ret False)))"

text \<open>\<open>consumeWork(context) && consumeStep()\<close>.\<close>

definition rep_tick :: "env \<Rightarrow> bool rep_eval" where
  "rep_tick env = seq (onCtx (consumeWork env 1)) (\<lambda>ok. if ok then consumeStep env else ret False)"

text \<open>The collection of compatible indexes; \<open>None\<close> when the walk returns from inside it.\<close>

fun rep_compatible ::
  "env \<Rightarrow> repeat_contiguity \<Rightarrow> candidate list \<Rightarrow> candidate \<Rightarrow> nat list \<Rightarrow> nat list \<Rightarrow> nat list option rep_eval"
where
  "rep_compatible env contig units selected acc [] = ret (Some acc)"
| "rep_compatible env contig units selected acc (i # is) =
     seq (rep_tick env) (\<lambda>ok.
       if \<not> ok then ret None
       else (let started = (cand_events selected \<noteq> []); unit = units ! i in
         if started \<and> startIndex unit \<le> endIndex selected
           then rep_compatible env contig units selected acc is
         else if started \<and> contig = Consecutive \<and> startIndex unit \<noteq> endIndex selected + 1
           then ret (Some acc)
         else if started \<and> contig = Relaxed then ret (Some (acc @ [i]))
         else rep_compatible env contig units selected (acc @ [i]) is))"

text \<open>The loop over the compatible indexes; \<open>go\<close> is the recursive call.\<close>

fun rep_extend ::
  "env \<Rightarrow> candidate list \<Rightarrow> candidate \<Rightarrow> (nat \<Rightarrow> candidate \<Rightarrow> unit rep_eval) \<Rightarrow> nat list \<Rightarrow> unit rep_eval"
where
  "rep_extend env units selected go [] = ret ()"
| "rep_extend env units selected go (i # is) =
     seq (rep_tick env) (\<lambda>ok.
       if \<not> ok then ret ()
       else (case mergeCandidates (env_host env) (env_events env) selected (units ! i) of
           None \<Rightarrow> rep_extend env units selected go is
         | Some merged \<Rightarrow>
             seq (go (i + 1) merged) (\<lambda>_. seq getS (\<lambda>(s, r).
               if rep_limit r then ret () else rep_extend env units selected go is))))"

definition max_search_depth :: nat where
  "max_search_depth = 256"

text \<open>
  \<open>walk\<close>. Every recursive call has a higher count and none is made from count 256 on, so that
  the fuel of the initial call is never used up (\<open>rep_walk_fuel\<close> below).
\<close>

primrec rep_walk ::
  "nat \<Rightarrow> env \<Rightarrow> nat \<Rightarrow> nat \<Rightarrow> repeat_contiguity \<Rightarrow> candidate list \<Rightarrow> nat \<Rightarrow> candidate \<Rightarrow> nat \<Rightarrow> unit rep_eval"
where
  "rep_walk 0 env mn mx contig units start selected cnt = ret ()"
| "rep_walk (Suc fuel) env mn mx contig units start selected cnt =
     seq getS (\<lambda>(s, r).
       if rep_limit r then ret ()
       else if cnt + length units < mn + start then ret ()
       else seq (if mn \<le> cnt
                 then modS (\<lambda>(s, r). (s, r\<lparr>rep_output := rep_output r @ [(selected, cnt)]\<rparr>)) else ret ())
         (\<lambda>_. seq getS (\<lambda>(s, r).
           if mn \<le> cnt \<and> env_maxCandidates env \<le> length (rep_output r) then rep_stop
           else if mx \<le> cnt \<or> length units \<le> start then ret ()
           else if max_search_depth \<le> cnt then rep_stop
           else seq (rep_compatible env contig units selected [] [start..<length units])
             (\<lambda>idxs. case idxs of None \<Rightarrow> ret ()
              | Some is \<Rightarrow> rep_extend env units selected
                  (\<lambda>i merged. rep_walk fuel env mn mx contig units i merged (cnt + 1)) is))))"

definition unit_cmp :: "candidate \<Rightarrow> candidate \<Rightarrow> int" where
  "unit_cmp = then_by (key_cmp startIndex int_cmp) (key_cmp endIndex int_cmp)"

definition output_cmp :: "preference \<Rightarrow> candidate \<times> nat \<Rightarrow> candidate \<times> nat \<Rightarrow> int" where
  "output_cmp md = then_by
     (\<lambda>a b. if md = Greedy then int (snd b) - int (snd a) else int (snd a) - int (snd b))
     (key_cmp (\<lambda>p. startIndex (fst p)) int_cmp)"

definition eval_repeat ::
  "env \<Rightarrow> nat \<Rightarrow> nat option \<Rightarrow> preference \<Rightarrow> repeat_contiguity \<Rightarrow> candidate list eval \<Rightarrow> candidate list eval"
where
  "eval_repeat env mn mx md contig child =
     seq child (\<lambda>cs.
       let units = sort_by unit_cmp (filter (\<lambda>c. cand_events c \<noteq> []) cs);
           top = min (case mx of None \<Rightarrow> length units | Some m \<Rightarrow> m) (length units);
           out0 = (if mn = 0 then [(emptyCandidate, 0)] else [])
       in if length units < mn then ret []
          else (\<lambda>s. case rep_walk (max_search_depth + 1) env mn top contig units 0 emptyCandidate 0
                        (s, \<lparr>rep_output = out0, rep_limit = False, rep_steps = 0\<rparr>) of
              (Inl e, (s', r)) \<Rightarrow> (Inl e, s')
            | (Inr _, (s', r)) \<Rightarrow>
                (case dedupe (map fst (sort_by (output_cmp md) (rep_output r))) (env_maxCandidates env) of
                   (vals, t) \<Rightarrow> seq (truncate_if t) (\<lambda>_. ret vals) s')))"

definition eval_optional :: "env \<Rightarrow> preference \<Rightarrow> candidate list eval \<Rightarrow> candidate list eval" where
  "eval_optional env md child =
     seq child (\<lambda>cs.
       case dedupe (if md = Greedy then cs @ [emptyCandidate] else emptyCandidate # cs) (env_maxCandidates env) of
         (vals, t) \<Rightarrow> seq (truncate_if t) (\<lambda>_. ret vals))"

subsection \<open>Filters\<close>

definition eval_window :: "env \<Rightarrow> pattern_window \<Rightarrow> candidate list eval \<Rightarrow> candidate list eval" where
  "eval_window env w child = seq child (\<lambda>cs. ret (filter (\<lambda>c. windowMatches c w) cs))"

definition eval_calendar :: "env \<Rightarrow> calendar_spec \<Rightarrow> candidate list eval \<Rightarrow> candidate list eval" where
  "eval_calendar env s child = seq child (filterE (\<lambda>c.
     case latestBoundEvent (env_host env) c (cal_ref s) of
       None \<Rightarrow> Inr False | Some e \<Rightarrow> calendarNodeMatches (env_host env) s e))"

definition ordered_refs :: "env \<Rightarrow> (int \<Rightarrow> int \<Rightarrow> bool) \<Rightarrow> string \<Rightarrow> string \<Rightarrow> candidate \<Rightarrow> bool" where
  "ordered_refs env rel ref other c =
     (case (latestBoundEvent (env_host env) c ref, latestBoundEvent (env_host env) c other) of
        (Some e, Some a) \<Rightarrow> rel (event_ms e) (event_ms a) | _ \<Rightarrow> False)"

definition eval_after :: "env \<Rightarrow> string \<Rightarrow> string \<Rightarrow> candidate list eval \<Rightarrow> candidate list eval" where
  "eval_after env ref aref child = seq child (\<lambda>cs. ret (filter (ordered_refs env (\<lambda>e a. a < e) ref aref) cs))"

definition eval_until :: "env \<Rightarrow> string \<Rightarrow> string \<Rightarrow> candidate list eval \<Rightarrow> candidate list eval" where
  "eval_until env ref bref child = seq child (\<lambda>cs. ret (filter (ordered_refs env (\<lambda>e b. e \<le> b) ref bref) cs))"

fun compare_loop :: "env \<Rightarrow> compare_spec \<Rightarrow> nat \<Rightarrow> candidate list \<Rightarrow> candidate list eval" where
  "compare_loop env s cost [] = ret []"
| "compare_loop env s cost (c # cs) =
     seq (consumeWork env cost) (\<lambda>ok. if \<not> ok then ret []
       else seq (compare_loop env s cost cs) (\<lambda>out.
         ret (if compareValue (env_host env) c s (evaluateValue (env_host env) c (cmp_left s))
              then c # out else out)))"

definition compare_cost :: "compare_spec \<Rightarrow> nat" where
  "compare_cost s = arithmeticNodeCost (cmp_left s) +
     (case cmp_right s of None \<Rightarrow> 0 | Some v \<Rightarrow> arithmeticNodeCost v)"

definition eval_compare :: "env \<Rightarrow> compare_spec \<Rightarrow> candidate list eval \<Rightarrow> candidate list eval" where
  "eval_compare env s child = seq child (compare_loop env s (compare_cost s))"

definition eval_aggregate :: "env \<Rightarrow> aggregate_spec \<Rightarrow> num_op \<Rightarrow> jsnum \<Rightarrow> candidate list eval \<Rightarrow> candidate list eval" where
  "eval_aggregate env s op v child =
     seq child (\<lambda>cs. ret (filter (\<lambda>c. aggregateMatches (env_host env) c s op v) cs))"

definition eval_state :: "env \<Rightarrow> state_spec \<Rightarrow> candidate list eval \<Rightarrow> candidate list eval" where
  "eval_state env s child = seq child (\<lambda>cs. ret (filter (\<lambda>c. stateMatches (env_host env) c s) cs))"

subsection \<open>Counting nodes\<close>

definition eval_threshold :: "env \<Rightarrow> string \<Rightarrow> nat \<Rightarrow> candidate list eval \<Rightarrow> candidate list eval" where
  "eval_threshold env ref need child =
     seq (distinctEventsForRef env ref) (\<lambda>es.
       if length es < need then ret []
       else seq child (\<lambda>cs. attachBindingsBounded env cs ref (take need es)))"

text \<open>The events with the first \<open>need\<close> different scalar values at the path.\<close>

fun distinct_choose :: "string \<Rightarrow> nat \<Rightarrow> string list \<Rightarrow> source_event list \<Rightarrow> source_event list \<Rightarrow> string list \<times> source_event list" where
  "distinct_choose path need vs chosen [] = (vs, chosen)"
| "distinct_choose path need vs chosen (e # es) =
     (case read_path (JObj (event_data e)) path of
        Some v \<Rightarrow>
          if \<not> (has_type (Some v) TString \<or> has_type (Some v) TNumber \<or> has_type (Some v) TBoolean)
            then distinct_choose path need vs chosen es
          else if stringify v \<in> set vs then distinct_choose path need vs chosen es
          else let vs' = stringify v # vs; chosen2 = chosen @ [e] in
            if need \<le> length vs' then (vs', chosen2)
            else distinct_choose path need vs' chosen2 es
      | None \<Rightarrow> distinct_choose path need vs chosen es)"

definition eval_distinct :: "env \<Rightarrow> string \<Rightarrow> string \<Rightarrow> nat \<Rightarrow> candidate list eval \<Rightarrow> candidate list eval" where
  "eval_distinct env ref path need child =
     seq (eventsForRef env ref) (\<lambda>es.
       case distinct_choose path need [] [] es of
         (vs, chosen) \<Rightarrow> if length vs < need then ret []
           else seq child (\<lambda>cs. attachBindingsBounded env cs ref chosen))"

definition take_last :: "nat \<Rightarrow> 'a list \<Rightarrow> 'a list" where
  "take_last n xs = drop (length xs - n) xs"

definition eval_rate :: "env \<Rightarrow> string \<Rightarrow> nat \<Rightarrow> int \<Rightarrow> candidate list eval \<Rightarrow> candidate list eval" where
  "eval_rate env ref need perMs child =
     seq (distinctEventsForRef env ref) (\<lambda>es.
       if es = [] then ret []
       else let latest = max_of (map event_ms es);
                inWindow = filter (\<lambda>e. latest - event_ms e \<le> perMs) es
            in if length inWindow < need then ret []
               else seq child (\<lambda>cs. attachBindingsBounded env cs ref (take_last need inWindow)))"

definition eval_debounce :: "env \<Rightarrow> string \<Rightarrow> int \<Rightarrow> candidate list eval \<Rightarrow> candidate list eval" where
  "eval_debounce env ref forMs child =
     seq (eventsForRef env ref) (\<lambda>es. case last_opt es of
       None \<Rightarrow> ret []
     | Some latest \<Rightarrow>
         let finalAt = event_ms latest + forMs + env_allowedLatenessMs env in
         seq child (\<lambda>cs. seq (attachBindingsBounded env cs ref [latest])
           (mapE (until_final env (Some finalAt)))))"

subsection \<open>Negation\<close>

text \<open>
  The loops that let a base pass unless one of the forbidden items blocks it. \<open>None\<close> is the
  early return of the whole node when the work budget runs out.
\<close>

fun blocked_by :: "env \<Rightarrow> ('a \<Rightarrow> bool) \<Rightarrow> 'a list \<Rightarrow> bool option eval" where
  "blocked_by env blocks [] = ret (Some False)"
| "blocked_by env blocks (f # fs) =
     seq (consumeWork env 1) (\<lambda>ok.
       if \<not> ok then ret None
       else if blocks f then ret (Some True) else blocked_by env blocks fs)"

fun unblocked ::
  "env \<Rightarrow> (candidate \<Rightarrow> js_error + ('a \<Rightarrow> bool) option) \<Rightarrow> (candidate \<Rightarrow> js_error + candidate) \<Rightarrow>
   'a list \<Rightarrow> candidate list \<Rightarrow> candidate list \<Rightarrow> candidate list eval"
where
  "unblocked env blocks finish forbidden out [] = ret out"
| "unblocked env blocks finish forbidden out (base # bases) =
     seq (liftE (blocks base)) (\<lambda>b. case b of
       None \<Rightarrow> unblocked env blocks finish forbidden out bases
     | Some f \<Rightarrow> seq (blocked_by env f forbidden) (\<lambda>r. case r of
           None \<Rightarrow> ret []
         | Some True \<Rightarrow> unblocked env blocks finish forbidden out bases
         | Some False \<Rightarrow> seq (liftE (finish base))
             (\<lambda>c. unblocked env blocks finish forbidden (out @ [c]) bases)))"

definition present_blocks :: "env \<Rightarrow> candidate \<Rightarrow> js_error + (source_event \<Rightarrow> bool) option" where
  "present_blocks env base = Inr (Some (\<lambda>e.
     startIndex base \<le> index_of (env_events env) e \<and> index_of (env_events env) e \<le> endIndex base))"

definition eval_notPresent :: "env \<Rightarrow> string \<Rightarrow> candidate list eval \<Rightarrow> candidate list eval" where
  "eval_notPresent env ref child =
     (if ref \<in> set (env_incomplete env) then defer_all env break_if_empty last_occurredAt child
      else seq (eventsForRef env ref) (\<lambda>forbidden. seq child (\<lambda>children.
        seq is_truncated (\<lambda>t. if t then ret []
          else unblocked env (present_blocks env) Inr forbidden [] children))))"

definition absence_blocks :: "env \<Rightarrow> absence_spec \<Rightarrow> candidate \<Rightarrow> js_error + (source_event \<Rightarrow> bool) option" where
  "absence_blocks env s base =
     (case latestBoundEvent (env_host env) base (abs_afterRef s) of
        None \<Rightarrow> Inr None
      | Some anchor \<Rightarrow> (case absenceNodeDueAt (env_host env) s anchor of
          Inl e \<Rightarrow> Inl e
        | Inr due \<Rightarrow> Inr (Some (\<lambda>e. event_ms anchor \<le> event_ms e \<and>
            (case due of None \<Rightarrow> False | Some d \<Rightarrow> event_ms e \<le> d)))))"

definition absence_finish :: "env \<Rightarrow> absence_spec \<Rightarrow> candidate \<Rightarrow> js_error + candidate" where
  "absence_finish env s base =
     (case latestBoundEvent (env_host env) base (abs_afterRef s) of
        None \<Rightarrow> Inr base
      | Some anchor \<Rightarrow> (case absenceNodeDueAt (env_host env) s anchor of
          Inl e \<Rightarrow> Inl e
        | Inr due \<Rightarrow> until_final env (map_option (\<lambda>d. d + env_allowedLatenessMs env) due) base))"

definition absence_hint :: "env \<Rightarrow> absence_spec \<Rightarrow> candidate \<Rightarrow> js_error + timestamp option" where
  "absence_hint env s base =
     (case latestBoundEvent (env_host env) base (abs_afterRef s) of
        None \<Rightarrow> Inr None
      | Some anchor \<Rightarrow> (case absenceNodeDueAt (env_host env) s anchor of
          Inl e \<Rightarrow> Inl e
        | Inr due \<Rightarrow> (case toISOString (case due of None \<Rightarrow> None
              | Some d \<Rightarrow> time_clip (d + env_allowedLatenessMs env)) of
            Inl e \<Rightarrow> Inl e | Inr t \<Rightarrow> Inr (Some t))))"

definition eval_absence :: "env \<Rightarrow> absence_spec \<Rightarrow> candidate list eval \<Rightarrow> candidate list eval" where
  "eval_absence env s child =
     (if abs_ref s \<in> set (env_incomplete env)
      then defer_all env (\<lambda>_. GoOn) (absence_hint env s) child
      else seq child (\<lambda>bases. seq (eventsForRef env (abs_ref s)) (\<lambda>forbidden.
        seq is_truncated (\<lambda>t. if t then ret []
          else unblocked env (absence_blocks env s) (absence_finish env s) forbidden [] bases))))"

definition next_blocks :: "candidate \<Rightarrow> js_error + (candidate \<Rightarrow> bool) option" where
  "next_blocks base = Inr (if cand_events base = [] then None
     else Some (\<lambda>f. cand_events f \<noteq> [] \<and> startIndex f = endIndex base + 1))"

definition eval_notNext :: "env \<Rightarrow> bool \<Rightarrow> candidate list eval \<Rightarrow> candidate list eval \<Rightarrow> candidate list eval" where
  "eval_notNext env incomplete child forbidden =
     (if incomplete then defer_all env break_if_empty last_occurredAt child
      else seq child (\<lambda>bases. seq forbidden (\<lambda>fs. seq is_truncated (\<lambda>t. if t then ret []
        else unblocked env next_blocks Inr fs [] bases))))"

definition followed_blocks :: "int \<Rightarrow> candidate \<Rightarrow> js_error + (candidate \<Rightarrow> bool) option" where
  "followed_blocks withinMs base = Inr (if cand_events base = [] then None
     else let anchor = event_ms (last (cand_events base)) in
       Some (\<lambda>f. cand_events f \<noteq> [] \<and> anchor < event_ms (hd (cand_events f)) \<and>
         event_ms (last (cand_events f)) \<le> anchor + withinMs))"

definition followed_finish :: "env \<Rightarrow> int \<Rightarrow> candidate \<Rightarrow> js_error + candidate" where
  "followed_finish env withinMs base =
     until_final env (Some (event_ms (last (cand_events base)) + withinMs + env_allowedLatenessMs env)) base"

definition followed_hint :: "env \<Rightarrow> int \<Rightarrow> candidate \<Rightarrow> js_error + timestamp option" where
  "followed_hint env withinMs base =
     (case toISOString (time_clip (event_ms (last (cand_events base)) + withinMs + env_allowedLatenessMs env)) of
        Inl e \<Rightarrow> Inl e | Inr t \<Rightarrow> Inr (Some t))"

definition eval_notFollowedBy ::
  "env \<Rightarrow> bool \<Rightarrow> int \<Rightarrow> candidate list eval \<Rightarrow> candidate list eval \<Rightarrow> candidate list eval"
where
  "eval_notFollowedBy env incomplete withinMs child forbidden =
     (if incomplete then defer_all env continue_if_empty (followed_hint env withinMs) child
      else seq child (\<lambda>bases. seq forbidden (\<lambda>fs. seq is_truncated (\<lambda>t. if t then ret []
        else unblocked env (followed_blocks withinMs) (followed_finish env withinMs) fs [] bases))))"

subsection \<open>Semantic nodes\<close>

definition trim_ws :: "string \<Rightarrow> string" where
  "trim_ws s = (let ws = (\<lambda>c. (of_char c :: nat) \<in> {9, 10, 11, 12, 13, 32, 160}) in
     rev (dropWhile ws (rev (dropWhile ws s))))"

definition evaluator_identity :: "env \<Rightarrow> string" where
  "evaluator_identity env = (case env_evaluator env of None \<Rightarrow> []
     | Some ev \<Rightarrow> (case sev_cacheIdentity ev of None \<Rightarrow> [] | Some i \<Rightarrow> i))"

fun uncertain_str :: "uncertain_policy \<Rightarrow> string" where
  "uncertain_str UEscalate = ''escalate''"
| "uncertain_str UReject = ''reject''"
| "uncertain_str UMatch = ''match''"

definition str_json_list :: "string list \<Rightarrow> json" where
  "str_json_list ss = JArr (map JStr ss)"

definition durableSemanticCacheKey :: "env \<Rightarrow> semantic_spec \<Rightarrow> candidate \<Rightarrow> string option" where
  "durableSemanticCacheKey env s c =
     (let identity = trim_ws (evaluator_identity env) in
      if identity = [] \<or> env_namespace env = [] then None
      else Some (stringify (stableValue (JObj (
        [(''schema'', JStr (if env_cacheTtlMs env = None \<and> env_contextRevision env = []
            then ''pattern-v2-semantic-cache.v1'' else ''pattern-v2-semantic-cache.v2'')),
         (''namespace'', JStr (env_namespace env))] @
        (if env_contextRevision env \<noteq> [] then [(''contextRevision'', JStr (env_contextRevision env))] else []) @
        (case env_cacheTtlMs env of None \<Rightarrow> []
         | Some ttl \<Rightarrow>
             [(''expiryWindow'', JNum (num_floor (num_div (num_of_int (env_now env)) (num_of_int ttl)))),
              (''ttlMs'', JNum (num_of_int ttl))]) @
        [(''evaluator'', JStr identity),
         (''node'', JObj [(''id'', JStr (sem_id s)), (''refs'', str_json_list (sem_refs s)),
            (''instruction'', JStr (sem_instruction s)), (''input'', str_json_list (sem_input s)),
            (''matchThreshold'', JNum (sem_matchThreshold s)),
            (''rejectThreshold'', JNum (sem_rejectThreshold s)),
            (''uncertain'', JStr (uncertain_str (sem_uncertain s)))]),
         (''candidate'', JArr (map (\<lambda>e. JObj
            [(''clauseId'', JStr (clauseId e)),
             (''serverId'', case serverId e of None \<Rightarrow> JNull | Some i \<Rightarrow> JStr i),
             (''sourceEventId'', JStr (sourceEventId e)),
             (''subscriptionArguments'', JObj (subscriptionArguments e))]) (cand_events c)))])))))"

definition localSemanticCacheKey :: "semantic_spec \<Rightarrow> candidate \<Rightarrow> string" where
  "localSemanticCacheKey s c = join_with '':'' [sem_id s, candidateSignature c, sem_instruction s,
     stringify (str_json_list (sem_input s)), num_str (sem_matchThreshold s),
     num_str (sem_rejectThreshold s), uncertain_str (sem_uncertain s)]"

text \<open>
  How the search for a decision ends: with one, with the candidate passed over because the
  outcome stays unknown (the run is then truncated).
\<close>

definition unresolved :: "semantic_decision option eval" where
  "unresolved = seq set_truncated (\<lambda>_. ret None)"

text \<open>Lookup in the cache of this evaluation, then in the durable cache.\<close>

definition cached_decision :: "env \<Rightarrow> string \<Rightarrow> string option \<Rightarrow> semantic_decision option eval" where
  "cached_decision env localKey durableKey =
     seq getS (\<lambda>s. case map_of (ctx_semanticCache s) localKey of
       Some d \<Rightarrow> seq (modS (\<lambda>s. s\<lparr>ctx_cacheHits := ctx_cacheHits s + 1\<rparr>)) (\<lambda>_. ret (Some d))
     | None \<Rightarrow> (case (durableKey, env_durable env) of
         (Some key, Some dc) \<Rightarrow> seq next_io (\<lambda>n. seq (liftE (dur_get dc n key)) (\<lambda>r. case r of
             None \<Rightarrow> ret None
           | Some d \<Rightarrow> seq (modS (\<lambda>s. s\<lparr>ctx_cacheHits := ctx_cacheHits s + 1,
                 ctx_semanticCache := map_put localKey d (ctx_semanticCache s)\<rparr>))
               (\<lambda>_. ret (Some d))))
       | _ \<Rightarrow> ret None))"

definition read_clock :: "env \<Rightarrow> jsnum eval" where
  "read_clock env = seq next_io (\<lambda>n. ret (env_clock env n))"

text \<open>\<open>evaluationDeadlineAt !== null && performance.now() >= evaluationDeadlineAt\<close>.\<close>

definition past_deadline :: "env \<Rightarrow> bool eval" where
  "past_deadline env = (case env_deadlineAt env of None \<Rightarrow> ret False
     | Some d \<Rightarrow> seq (read_clock env) (\<lambda>t. ret (num_le d t)))"

definition admitted :: "env \<Rightarrow> semantic_spec \<Rightarrow> candidate \<Rightarrow> bool eval" where
  "admitted env s c = (case env_admission env of None \<Rightarrow> ret True
     | Some reserve \<Rightarrow> seq next_io (\<lambda>n.
         case reserve n \<lparr>adm_namespace = env_namespace env, adm_nodeId = sem_id s,
             adm_candidateSignature = candidateSignature c,
             adm_evaluatorIdentity = evaluator_identity env,
             adm_inputBytes = utf8_size (map of_char (stringify (projected_json
               (projectSemanticInput (semanticSource (env_host env) c (sem_refs s)) (sem_input s))))),
             adm_instructionBytes = utf8_size (map of_char (sem_instruction s))\<rparr> of
           Approves \<Rightarrow> ret True
         | Denies \<Rightarrow> ret False
         | NotBoolean \<Rightarrow> throw (JsError KTypeError None ''Semantic admission must return a boolean'')
         | AdmissionThrows e \<Rightarrow> throw e))"

text \<open>The time left for a call and whether it is the batch that limits it.\<close>

definition call_budget :: "env \<Rightarrow> semantic_spec \<Rightarrow> (bool \<times> jsnum) eval" where
  "call_budget env s = (case env_deadlineAt env of
     None \<Rightarrow> ret (False, num_of_int (sem_timeoutMs s))
   | Some d \<Rightarrow> seq (read_clock env) (\<lambda>t.
       let batchRemaining = num_floor (num_sub d t);
           batchLimited = num_le batchRemaining (num_of_int (sem_timeoutMs s))
       in ret (batchLimited, if batchLimited then batchRemaining else num_of_int (sem_timeoutMs s))))"

definition batch_timeout :: string where
  "batch_timeout = ''EI_SEMANTIC_BATCH_TIMEOUT''"

text \<open>
  \<open>withTimeout(new SemanticConditionEngine(evaluator).evaluate(...))\<close>: the outcome of the race
  between the evaluator and the timer.
\<close>

definition call_evaluator ::
  "env \<Rightarrow> semantic_evaluator \<Rightarrow> semantic_spec \<Rightarrow> candidate \<Rightarrow> bool \<Rightarrow> jsnum \<Rightarrow> nat \<Rightarrow> js_error + semantic_decision"
where
  "call_evaluator env ev s c batchLimited remaining n =
     (case sev_evaluate ev n (sem_instruction s)
         (projectSemanticInput (semanticSource (env_host env) c (sem_refs s)) (sem_input s)) of
        Settles r \<Rightarrow> decide s r
      | Rejects e \<Rightarrow> Inl e
      | StaysOpen \<Rightarrow> Inl (JsError KError (if batchLimited then Some batch_timeout else None)
          (''Semantic node '' @ sem_id s @ '' timed out after '' @ num_str remaining @ ''ms'')))"

text \<open>\<open>durableSemanticCache.set\<close> may throw.\<close>

definition store_decision :: "env \<Rightarrow> string \<Rightarrow> string option \<Rightarrow> semantic_decision \<Rightarrow> unit eval" where
  "store_decision env localKey durableKey d =
     seq (modS (\<lambda>s. s\<lparr>ctx_semanticCache := map_put localKey d (ctx_semanticCache s)\<rparr>)) (\<lambda>_.
       case (durableKey, env_durable env) of
         (Some key, Some dc) \<Rightarrow> seq next_io (\<lambda>n.
           case dur_set dc n key d of None \<Rightarrow> ret () | Some e \<Rightarrow> throw e)
       | _ \<Rightarrow> ret ())"

definition new_decision ::
  "env \<Rightarrow> semantic_evaluator \<Rightarrow> semantic_spec \<Rightarrow> candidate \<Rightarrow> string \<Rightarrow> string option \<Rightarrow> semantic_decision option eval"
where
  "new_decision env ev s c localKey durableKey =
     seq getS (\<lambda>st.
     if env_maxSemanticEvaluations env \<le> ctx_semanticEvaluations st then unresolved
     else seq (past_deadline env) (\<lambda>late. if late then unresolved
     else seq (admitted env s c) (\<lambda>approved. if \<not> approved then unresolved
     else seq (call_budget env s) (\<lambda>(batchLimited, remaining).
       if num_le remaining (Fin 0) then unresolved
       else seq (modS (\<lambda>s. s\<lparr>ctx_cacheMisses := ctx_cacheMisses s + 1,
                ctx_semanticEvaluations := ctx_semanticEvaluations s + 1\<rparr>)) (\<lambda>_.
         seq next_io (\<lambda>n. case call_evaluator env ev s c batchLimited remaining n of
           Inl e \<Rightarrow> if err_code e = Some batch_timeout then unresolved else throw e
         | Inr d \<Rightarrow> seq (if sem_cache s then store_decision env localKey durableKey d else ret ())
             (\<lambda>_. ret (Some d))))))))"

fun semantic_loop :: "env \<Rightarrow> semantic_spec \<Rightarrow> candidate list \<Rightarrow> candidate list \<Rightarrow> candidate list eval" where
  "semantic_loop env s out [] = ret out"
| "semantic_loop env s out (c # cs) =
     (case env_evaluator env of
        None \<Rightarrow> if sem_onUnavailable s = OnReject then semantic_loop env s out cs
                else throw (JsError KError None (''Semantic node '' @ sem_id s @ '' requires a SemanticEvaluator''))
      | Some ev \<Rightarrow>
          let localKey = localSemanticCacheKey s c;
              durableKey = (if sem_cache s then durableSemanticCacheKey env s c else None)
          in seq (cached_decision env localKey durableKey) (\<lambda>hit.
             seq (case hit of Some d \<Rightarrow> ret (Some d) | None \<Rightarrow> new_decision env ev s c localKey durableKey)
               (\<lambda>decision. case decision of
                  None \<Rightarrow> semantic_loop env s out cs
                | Some d \<Rightarrow>
                    seq (modS (\<lambda>x. x\<lparr>ctx_trace := ctx_trace x @
                        [\<lparr>tr_nodeId = sem_id s, tr_candidateSignature = candidateSignature c, tr_decision = d\<rparr>]\<rparr>))
                      (\<lambda>_. if dec_matched d
                        then semantic_loop env s
                          (out @ [c\<lparr>semanticDecisions := semanticDecisions c @ [(sem_id s, d)]\<rparr>]) cs
                        else semantic_loop env s out cs))))"

definition eval_semantic :: "env \<Rightarrow> semantic_spec \<Rightarrow> candidate list eval \<Rightarrow> candidate list eval" where
  "eval_semantic env s child = seq child (semantic_loop env s [])"

subsection \<open>The node evaluator\<close>

text \<open>\<open>if (!consumeWork(context)) return [];\<close> at the top of every node.\<close>

definition enter_node :: "env \<Rightarrow> candidate list eval \<Rightarrow> candidate list eval" where
  "enter_node env body = seq (consumeWork env 1) (\<lambda>ok. if ok then body else ret [])"

primrec evaluateNode :: "env \<Rightarrow> pattern_node \<Rightarrow> candidate list eval" where
  "evaluateNode env (EventN ref) = enter_node env (eval_event env ref)"
| "evaluateNode env (AnyOf cs) = enter_node env (any_outer env [] [] (map (evaluateNode env) cs))"
| "evaluateNode env (AllOf cs) = enter_node env (all_outer env [emptyCandidate] (map (evaluateNode env) cs))"
| "evaluateNode env (SequenceN cs ct) = enter_node env
     (eval_sequence env ct (zip (map empty_preference cs) (map (evaluateNode env) cs)))"
| "evaluateNode env (RepeatN c mn mx md ct) = enter_node env (eval_repeat env mn mx md ct (evaluateNode env c))"
| "evaluateNode env (OptionalN c md) = enter_node env (eval_optional env md (evaluateNode env c))"
| "evaluateNode env (WindowN w c) = enter_node env (eval_window env w (evaluateNode env c))"
| "evaluateNode env (CalendarN s c) = enter_node env (eval_calendar env s (evaluateNode env c))"
| "evaluateNode env (NotPresent c ref) = enter_node env (eval_notPresent env ref (evaluateNode env c))"
| "evaluateNode env (AfterN c ref aref) = enter_node env (eval_after env ref aref (evaluateNode env c))"
| "evaluateNode env (UntilN c ref bref) = enter_node env (eval_until env ref bref (evaluateNode env c))"
| "evaluateNode env (ThresholdN c ref k) = enter_node env (eval_threshold env ref k (evaluateNode env c))"
| "evaluateNode env (DistinctN c ref path k) = enter_node env (eval_distinct env ref path k (evaluateNode env c))"
| "evaluateNode env (RateN c ref k ms) = enter_node env (eval_rate env ref k ms (evaluateNode env c))"
| "evaluateNode env (DebounceN i c ref ms) = enter_node env (eval_debounce env ref ms (evaluateNode env c))"
| "evaluateNode env (AbsenceN s c) = enter_node env (eval_absence env s (evaluateNode env c))"
| "evaluateNode env (NotNext c f) = enter_node env
     (eval_notNext env (forbiddenNeedsIncompleteSource env f) (evaluateNode env c) (evaluateNode env f))"
| "evaluateNode env (NotFollowedBy i c f ms) = enter_node env
     (eval_notFollowedBy env (forbiddenNeedsIncompleteSource env f) ms (evaluateNode env c) (evaluateNode env f))"
| "evaluateNode env (CompareN s c) = enter_node env (eval_compare env s (evaluateNode env c))"
| "evaluateNode env (AggregateN s op v c) = enter_node env (eval_aggregate env s op v (evaluateNode env c))"
| "evaluateNode env (StateN s c) = enter_node env (eval_state env s (evaluateNode env c))"
| "evaluateNode env (SemanticN s c) = enter_node env (eval_semantic env s (evaluateNode env c))"

subsection \<open>The evaluation of a definition\<close>

record eval_options =
  opt_evaluator :: "semantic_evaluator option"
  opt_now :: int
  opt_allowedLatenessMs :: int
  opt_durable :: "durable_cache option"
  opt_namespace :: string
  opt_admission :: "(nat \<Rightarrow> admission_request \<Rightarrow> admission_reply) option"
  opt_contextRevision :: string
  opt_cacheTtlMs :: "int option"
  opt_maxBatchElapsedMs :: "int option"
  opt_incomplete :: "string list"
  opt_clock :: "nat \<Rightarrow> jsnum"

record evaluation =
  ev_matches :: "candidate list"
  ev_pending :: "candidate list"
  ev_incompletePending :: "candidate list"
  ev_semanticEvaluations :: nat
  ev_cacheHits :: nat
  ev_cacheMisses :: nat
  ev_trace :: "semantic_trace list"
  ev_truncated :: bool

definition MAX_EVALUATION_INPUT_EVENTS :: nat where
  "MAX_EVALUATION_INPUT_EVENTS = 50000"

definition MAX_EVALUATION_WORK_STEPS :: nat where
  "MAX_EVALUATION_WORK_STEPS = 250000"

definition max_work_steps :: "nat \<Rightarrow> nat" where
  "max_work_steps maxCandidates = min MAX_EVALUATION_WORK_STEPS (max 4096 (maxCandidates * 128))"

definition make_env :: "host \<Rightarrow> pattern_definition \<Rightarrow> source_event list \<Rightarrow> eval_options \<Rightarrow> env" where
  "make_env h d evs opts =
     \<lparr>env_host = h, env_events = sort_by (eventOrder h) evs, env_incomplete = opt_incomplete opts,
      env_now = opt_now opts, env_maxCandidates = ex_maxCandidates (pat_execution d),
      env_maxSemanticEvaluations = ex_maxSemanticEvaluations (pat_execution d),
      env_maxWorkSteps = max_work_steps (ex_maxCandidates (pat_execution d)),
      env_allowedLatenessMs = opt_allowedLatenessMs opts, env_evaluator = opt_evaluator opts,
      env_durable = opt_durable opts, env_admission = opt_admission opts,
      env_namespace = opt_namespace opts, env_contextRevision = opt_contextRevision opts,
      env_cacheTtlMs = opt_cacheTtlMs opts,
      env_deadlineAt = map_option (\<lambda>ms. num_add (opt_clock opts 0) (num_of_int ms)) (opt_maxBatchElapsedMs opts),
      env_clock = opt_clock opts\<rparr>"

definition options_error :: "eval_options \<Rightarrow> js_error option" where
  "options_error opts =
     (if 128 < length (opt_contextRevision opts) \<or>
         \<not> opt_all (\<lambda>ttl. 1000 \<le> ttl \<and> ttl \<le> 86400000) (opt_cacheTtlMs opts)
      then Some (range_error ''Invalid semantic context revision or cache TTL'')
      else if \<not> opt_all (\<lambda>ms. 10 \<le> ms \<and> ms \<le> 600000) (opt_maxBatchElapsedMs opts)
      then Some (range_error ''Invalid semantic batch elapsed-time budget'')
      else None)"

text \<open>\<open>candidate.pendingUntil && Date.parse(candidate.pendingUntil) > now.getTime()\<close>.\<close>

definition still_pending :: "int \<Rightarrow> candidate \<Rightarrow> bool" where
  "still_pending now c = (case pendingUntil c of None \<Rightarrow> False | Some t \<Rightarrow> now < ts_ms t)"

definition finish_evaluation :: "env \<Rightarrow> candidate list \<Rightarrow> ctx \<Rightarrow> evaluation" where
  "finish_evaluation env cs s =
     (case dedupe cs (env_maxCandidates env) of (vals, t) \<Rightarrow>
       \<lparr>ev_matches = filter (\<lambda>c. \<not> still_pending (env_now env) c) vals,
        ev_pending = filter (still_pending (env_now env)) vals,
        ev_incompletePending = ctx_incompletePending s,
        ev_semanticEvaluations = ctx_semanticEvaluations s,
        ev_cacheHits = ctx_cacheHits s, ev_cacheMisses = ctx_cacheMisses s,
        ev_trace = ctx_trace s, ev_truncated = (ctx_truncated s \<or> t)\<rparr>)"

definition evaluatePatternV2 ::
  "host \<Rightarrow> pattern_definition \<Rightarrow> source_event list \<Rightarrow> eval_options \<Rightarrow> js_error + evaluation"
where
  "evaluatePatternV2 h d evs opts =
     (case options_error opts of Some e \<Rightarrow> Inl e
      | None \<Rightarrow>
          if MAX_EVALUATION_INPUT_EVENTS < length evs \<or> \<not> boundedAst (pat_root d)
          then Inr \<lparr>ev_matches = [], ev_pending = [], ev_incompletePending = [], ev_semanticEvaluations = 0,
                 ev_cacheHits = 0, ev_cacheMisses = 0, ev_trace = [], ev_truncated = True\<rparr>
          else let env = make_env h d evs opts in
            (case evaluateNode env (pat_root d) (initial_ctx\<lparr>ctx_io := 1\<rparr>) of
               (Inl e, s) \<Rightarrow> Inl e
             | (Inr cs, s) \<Rightarrow> Inr (finish_evaluation env cs s)))"

definition patternV2CandidateSignature :: "candidate \<Rightarrow> string" where
  "patternV2CandidateSignature c = candidateSignature c"

end
