(* ===== verification/Evaluator_Closure.thy ===== *)
theory Evaluator_Closure
  imports Evaluator
begin

text \<open>
  What every candidate of an evaluation satisfies. The interface between the evaluator and a
  property of candidates is a locale: a family of predicates, indexed by the clauses a
  candidate has to bind, that is closed under the operations with which the evaluator builds
  candidates. Inside it, one induction over the pattern shows that all candidates of a node
  are in the family at the clauses the schema promises for that node.
\<close>

subsection \<open>Results of computations\<close>

definition yields :: "('s, 'a) comp \<Rightarrow> ('a \<Rightarrow> bool) \<Rightarrow> bool" where
  "yields m P \<longleftrightarrow> (\<forall>s x t. m s = (Inr x, t) \<longrightarrow> P x)"

named_theorems yields_intros \<open>rules for the result of a computation\<close>

lemma yieldsD: "yields m P \<Longrightarrow> m s = (Inr x, t) \<Longrightarrow> P x"
  by (auto simp: yields_def)

lemma yieldsI: "(\<And>s x t. m s = (Inr x, t) \<Longrightarrow> P x) \<Longrightarrow> yields m P"
  by (simp add: yields_def)

lemma yields_ret [yields_intros]: "P x \<Longrightarrow> yields (ret x) P"
  by (simp add: yields_def)

lemma yields_throw [yields_intros]: "yields (throw e) P"
  by (simp add: yields_def)

lemma yields_seq: "yields m P \<Longrightarrow> (\<And>x. P x \<Longrightarrow> yields (f x) Q) \<Longrightarrow> yields (seq m f) Q"
  unfolding yields_def by (auto simp: seq_eq_Inr_iff) blast

lemma yields_any [yields_intros]: "yields m (\<lambda>_. True)"
  by (simp add: yields_def)

lemma yields_seq_any: "(\<And>x. yields (f x) Q) \<Longrightarrow> yields (seq m f) Q"
  by (rule yields_seq [OF yields_any])

lemma yields_seq_pair:
  "yields m (\<lambda>(a, b). P a b) \<Longrightarrow> (\<And>a b. P a b \<Longrightarrow> yields (f a b) Q) \<Longrightarrow> yields (seq m (\<lambda>(a, b). f a b)) Q"
  by (erule yields_seq) auto

lemma yields_seq_triple:
  "yields m (\<lambda>(a, b, c). P a b c) \<Longrightarrow> (\<And>a b c. P a b c \<Longrightarrow> yields (f a b c) Q) \<Longrightarrow>
   yields (seq m (\<lambda>(a, b, c). f a b c)) Q"
  by (erule yields_seq) auto

lemma yields_mono: "yields m P \<Longrightarrow> (\<And>x. P x \<Longrightarrow> Q x) \<Longrightarrow> yields m Q"
  by (auto simp: yields_def)

lemma yields_if [yields_intros]: "(b \<Longrightarrow> yields m P) \<Longrightarrow> (\<not> b \<Longrightarrow> yields n P) \<Longrightarrow> yields (if b then m else n) P"
  by simp

lemma yields_liftE: "(\<And>x. r = Inr x \<Longrightarrow> P x) \<Longrightarrow> yields (liftE r) P"
  by (simp add: yields_def)

subsection \<open>Loops over candidates\<close>

abbreviation all_cands :: "(candidate \<Rightarrow> bool) \<Rightarrow> candidate list \<Rightarrow> bool" where
  "all_cands P cs \<equiv> \<forall>c \<in> set cs. P c"

lemma yields_eventsForRef: "yields (eventsForRef env ref) (\<lambda>es. set es \<subseteq> set (events_by_ref env ref))"
  unfolding eventsForRef_def by (rule yields_seq_any, rule yields_ret) auto

lemma yields_distinctEventsForRef:
  "yields (distinctEventsForRef env ref) (\<lambda>es. set es \<subseteq> set (events_by_ref env ref))"
  unfolding distinctEventsForRef_def
  by (rule yields_seq [OF yields_eventsForRef], rule yields_ret) (use first_by_subset in fastforce)

lemma yields_filterE: "yields (filterE p cs) (\<lambda>ys. set ys \<subseteq> set cs)"
proof (induction cs)
  case Nil
  show ?case unfolding filterE.simps by (rule yields_ret) simp
next
  case (Cons c cs)
  show ?case
    unfolding filterE.simps
    by (rule yields_seq_any, rule yields_seq [OF Cons.IH], rule yields_ret) auto
qed

lemma yields_mapE:
  assumes "\<And>c d. c \<in> set cs \<Longrightarrow> f c = Inr d \<Longrightarrow> P d"
  shows "yields (mapE f cs) (all_cands P)"
  using assms
proof (induction cs)
  case Nil
  show ?case unfolding mapE.simps by (rule yields_ret) simp
next
  case (Cons c cs)
  have c: "yields (liftE (f c)) P" by (rule yields_liftE) (rule Cons.prems [of c], auto)
  have cs: "yields (mapE f cs) (all_cands P)" by (rule Cons.IH, rule Cons.prems) auto
  show ?case
    unfolding mapE.simps
    by (rule yields_seq [OF c], rule yields_seq [OF cs], rule yields_ret) simp
qed

lemma yields_attach:
  assumes "\<And>c. c \<in> set cs \<Longrightarrow> P (withBindingEvents (env_host env) (env_events env) c ref ws)"
  shows "yields (attachBindingsBounded env cs ref ws) (all_cands P)"
  unfolding attachBindingsBounded_def using assms
proof (induction cs)
  case Nil
  show ?case unfolding attach_loop.simps by (rule yields_ret) simp
next
  case (Cons c cs)
  have cs: "yields (attach_loop env ref ws cs) (all_cands P)" using Cons by simp
  show ?case
    unfolding attach_loop.simps
    by (intro yields_seq_any yields_if yields_ret yields_seq [OF cs]) (use Cons.prems in auto)
qed

lemma yields_event_loop:
  assumes "\<And>e. e \<in> set es \<Longrightarrow> P (candidateFromBindings (env_host env) (env_events env) [(ref, [e])] None [])"
    and "all_cands P vals"
  shows "yields (event_loop env ref sn vals es) (all_cands P)"
  using assms
proof (induction es arbitrary: sn vals)
  case (Cons e es)
  show ?case
    unfolding event_loop.simps
    by (intro yields_seq_any yields_if) (use Cons in \<open>auto intro!: yields_ret yields_seq_any Cons.IH\<close>)
qed (simp add: yields_ret)

lemma yields_any_inner:
  assumes "all_cands P cs" and "all_cands P vals"
  shows "yields (any_inner env sn vals cs) (\<lambda>(stop, sn', vs). all_cands P vs)"
  using assms
proof (induction cs arbitrary: sn vals)
  case (Cons c cs)
  show ?case
    unfolding any_inner.simps Let_def
    by (intro yields_seq_any yields_if) (use Cons in \<open>auto intro!: yields_ret yields_seq_any Cons.IH\<close>)
qed (simp add: yields_ret)

lemma yields_any_outer:
  assumes "\<And>m. m \<in> set ms \<Longrightarrow> yields m (all_cands P)" and "all_cands P vals"
  shows "yields (any_outer env sn vals ms) (all_cands P)"
  using assms
proof (induction ms arbitrary: sn vals)
  case (Cons m ms)
  have m: "yields m (all_cands P)" using Cons.prems by simp
  show ?case
    unfolding any_outer.simps
  proof (rule yields_seq_any, rule yields_if)
    fix x
    show "yields (seq m (\<lambda>cs. seq (any_inner env sn vals cs) (\<lambda>(stop, sn', vals').
        if stop then ret vals' else seq is_exhausted (\<lambda>y. if y then ret vals' else any_outer env sn' vals' ms))))
      (all_cands P)"
    proof (rule yields_seq [OF m], rule yields_seq)
      show "yields (any_inner env sn vals cs) (\<lambda>(stop, sn', vs). all_cands P vs)" if "all_cands P cs" for cs
        using that Cons.prems by (intro yields_any_inner) auto
      show "yields (case r of (stop, sn', vals') \<Rightarrow> if stop then ret vals'
          else seq is_exhausted (\<lambda>y. if y then ret vals' else any_outer env sn' vals' ms)) (all_cands P)"
        if "(\<lambda>(stop, sn', vs). all_cands P vs) r" for r
        using that Cons by (cases r) (auto intro!: yields_ret yields_seq_any yields_if Cons.IH)
    qed
  qed (use Cons.prems in \<open>simp add: yields_ret\<close>)
qed (simp add: yields_ret)

lemma yields_join_all:
  assumes "\<And>l r m. (l, r) \<in> set ps \<Longrightarrow> mergeCandidates (env_host env) (env_events env) l r = Some m \<Longrightarrow> P m"
    and "all_cands P vals"
  shows "yields (join_all env sn vals ps) (\<lambda>(t, vs). all_cands P vs)"
  using assms
proof (induction ps arbitrary: sn vals)
  case Nil
  show ?case unfolding join_all.simps by (rule yields_ret) (use Nil in simp)
next
  case (Cons p ps)
  obtain l r where p: "p = (l, r)" by (cases p)
  have step: "yields (join_all env sn' vals' ps) (\<lambda>(t, vs). all_cands P vs)" if "all_cands P vals'" for sn' vals'
    by (rule Cons.IH) (use Cons.prems that in auto)
  show ?case
  proof (cases "mergeCandidates (env_host env) (env_events env) l r")
    case None
    show ?thesis
      unfolding p join_all.simps None option.case
      by (intro yields_seq_any yields_if step yields_ret) (use Cons.prems in auto)
  next
    case (Some m)
    have "P m" by (rule Cons.prems(1) [of l r]) (use p Some in auto)
    then show ?thesis
      unfolding p join_all.simps Some option.case Let_def
      by (intro yields_seq_any yields_if step yields_ret) (use Cons.prems in auto)
  qed
qed


lemma yields_seq_inner:
  assumes "\<And>r m. r \<in> set rs \<Longrightarrow> mergeCandidates (env_host env) (env_events env) left r = Some m \<Longrightarrow> P m"
    and "all_cands P vals"
  shows "yields (seq_inner env contig left sn vals rs) (\<lambda>(e, sn', vs). all_cands P vs)"
  using assms
proof (induction rs arbitrary: sn vals)
  case Nil
  show ?case unfolding seq_inner.simps by (rule yields_ret) (use Nil in simp)
next
  case (Cons r rs)
  have step: "yields (seq_inner env contig left sn' vals' rs) (\<lambda>(e, sn', vs). all_cands P vs)"
    if "all_cands P vals'" for sn' vals'
    by (rule Cons.IH) (use Cons.prems that in auto)
  show ?case
  proof (cases "mergeCandidates (env_host env) (env_events env) left r")
    case None
    show ?thesis
      unfolding seq_inner.simps Let_def None option.case
      by (intro yields_seq_any yields_if step yields_ret) (use Cons.prems in auto)
  next
    case (Some m)
    have "P m" by (rule Cons.prems(1) [of r]) (use Some in auto)
    then show ?thesis
      unfolding seq_inner.simps Some option.case Let_def
      by (intro yields_seq_any yields_if step yields_ret) (use Cons.prems in auto)
  qed
qed

lemma yields_seq_join:
  assumes "\<And>l r m. l \<in> set ls \<Longrightarrow> r \<in> set rs \<Longrightarrow>
      mergeCandidates (env_host env) (env_events env) l r = Some m \<Longrightarrow> P m"
    and "all_cands P vals"
  shows "yields (seq_join env contig rs sn vals ls) (\<lambda>(t, vs). all_cands P vs)"
  using assms
proof (induction ls arbitrary: sn vals)
  case Nil
  show ?case unfolding seq_join.simps by (rule yields_ret) (use Nil in simp)
next
  case (Cons l ls)
  have step: "yields (seq_join env contig rs sn' vals' ls) (\<lambda>(t, vs). all_cands P vs)"
    if "all_cands P vals'" for sn' vals'
    by (rule Cons.IH) (use Cons.prems that in auto)
  have inner: "yields (seq_inner env contig l sn vals rs) (\<lambda>(e, sn', vs). all_cands P vs)"
    by (rule yields_seq_inner) (use Cons.prems in auto)
  show ?case
    unfolding seq_join.simps
    by (rule yields_seq_triple [OF inner]) (auto intro: step yields_ret split: join_end.split)
qed

lemma yields_defer_all: "yields (defer_all env entry mk child) (\<lambda>cs. cs = [])"
  unfolding defer_all_def by (intro yields_seq_any yields_if yields_ret) auto

lemma yields_unblocked:
  assumes "\<And>c d. c \<in> set bases \<Longrightarrow> finish c = Inr d \<Longrightarrow> P d" and "all_cands P out"
  shows "yields (unblocked env blocks finish fs out bases) (all_cands P)"
  using assms
proof (induction bases arbitrary: out)
  case Nil
  show ?case unfolding unblocked.simps by (rule yields_ret) (use Nil in simp)
next
  case (Cons b bases)
  have step: "yields (unblocked env blocks finish fs out' bases) (all_cands P)" if "all_cands P out'" for out'
    by (rule Cons.IH) (use Cons.prems that in auto)
  have fin: "yields (liftE (finish b)) P" by (rule yields_liftE) (rule Cons.prems(1) [of b], auto)
  have pass: "yields (seq (liftE (finish b)) (\<lambda>c. unblocked env blocks finish fs (out @ [c]) bases)) (all_cands P)"
    by (rule yields_seq [OF fin], rule step) (use Cons.prems in auto)
  have skip: "yields (unblocked env blocks finish fs out bases) (all_cands P)"
    by (rule step) (use Cons.prems in auto)
  show ?case
    unfolding unblocked.simps
    by (rule yields_seq_any) (auto split: option.split bool.split intro!: yields_seq_any pass skip yields_ret)
qed

subsection \<open>Invariants of the state\<close>

abbreviation preserves :: "('s \<Rightarrow> bool) \<Rightarrow> ('s, 'a) comp \<Rightarrow> bool" where
  "preserves I \<equiv> stable (\<lambda>s t. I s \<longrightarrow> I t)"

lemma preserves_rel [simp]: "reflp (\<lambda>s t. I s \<longrightarrow> I t)" "transp (\<lambda>s t. I s \<longrightarrow> I t)"
  by (auto intro: reflpI transpI)

lemma preserves_seq: "preserves I m \<Longrightarrow> (\<And>x. preserves I (f x)) \<Longrightarrow> preserves I (seq m f)"
  by (rule stable_seq) simp

lemma preserves_seq_yields:
  "preserves I m \<Longrightarrow> yields m P \<Longrightarrow> (\<And>x. P x \<Longrightarrow> preserves I (f x)) \<Longrightarrow> preserves I (seq m f)"
  unfolding stable_def yields_def seq_def by (auto split: prod.split sum.split) (metis snd_conv)+

lemma preserves_ret: "preserves I (ret x)"
  by (simp add: stable_def)

lemma preserves_modS: "(\<And>s. I s \<Longrightarrow> I (f s)) \<Longrightarrow> preserves I (modS f)"
  by (simp add: stable_def)

lemma preserves_getS: "preserves I getS"
  by (simp add: stable_def)

lemma preserves_if: "(b \<Longrightarrow> preserves I m) \<Longrightarrow> (\<not> b \<Longrightarrow> preserves I n) \<Longrightarrow> preserves I (if b then m else n)"
  by simp

lemma preserves_pair: "(\<And>a b. preserves I (f a b)) \<Longrightarrow> preserves I (case x of (a, b) \<Rightarrow> f a b)"
  by (cases x) simp

lemmas preserves_intros = preserves_seq preserves_ret preserves_getS preserves_if preserves_pair

definition out_ok :: "(candidate \<Rightarrow> bool) \<Rightarrow> ctx \<times> rep \<Rightarrow> bool" where
  "out_ok P = (\<lambda>(s, r). \<forall>p \<in> set (rep_output r). P (fst p))"

lemma out_ok_onCtx: "preserves (out_ok P) (onCtx m)"
  by (auto simp: stable_def onCtx_def out_ok_def split: prod.split)

lemma out_ok_stop: "preserves (out_ok P) rep_stop"
  unfolding rep_stop_def by (rule preserves_modS) (auto simp: out_ok_def)

lemma out_ok_tick: "preserves (out_ok P) (rep_tick env)"
  unfolding rep_tick_def consumeStep_def
  by (intro preserves_intros out_ok_onCtx out_ok_stop preserves_modS) (auto simp: out_ok_def)

lemma out_ok_compatible: "preserves (out_ok P) (rep_compatible env contig units selected acc is)"
proof (induction "is" arbitrary: acc)
  case (Cons i "is")
  show ?case
    unfolding rep_compatible.simps Let_def by (intro preserves_intros out_ok_tick Cons.IH)
qed (simp add: stable_def)

lemma yields_compatible:
  "yields (rep_compatible env contig units selected acc is)
     (\<lambda>r. case r of None \<Rightarrow> True | Some js \<Rightarrow> set js \<subseteq> set acc \<union> set is)"
proof (induction "is" arbitrary: acc)
  case Nil
  show ?case unfolding rep_compatible.simps by (rule yields_ret) simp
next
  case (Cons i "is")
  have step: "yields (rep_compatible env contig units selected acc' is)
      (\<lambda>r. case r of None \<Rightarrow> True | Some js \<Rightarrow> set js \<subseteq> set acc \<union> set (i # is))"
    if "set acc' \<subseteq> insert i (set acc)" for acc'
    by (rule yields_mono [OF Cons.IH]) (use that in \<open>auto split: option.splits\<close>)
  show ?case
    unfolding rep_compatible.simps Let_def
    by (intro yields_seq_any yields_if step yields_ret) auto
qed

lemma out_ok_extend:
  assumes "\<And>i m. i \<in> set is \<Longrightarrow> mergeCandidates (env_host env) (env_events env) selected (units ! i) = Some m \<Longrightarrow>
    preserves (out_ok P) (go (i + 1) m)"
  shows "preserves (out_ok P) (rep_extend env units selected go is)"
  using assms
proof (induction "is")
  case Nil
  show ?case unfolding rep_extend.simps by (rule preserves_ret)
next
  case (Cons i "is")
  have rest: "preserves (out_ok P) (rep_extend env units selected go is)"
    by (rule Cons.IH) (use Cons.prems in auto)
  have go: "preserves (out_ok P) (go (Suc i) m)"
    if "mergeCandidates (env_host env) (env_events env) selected (units ! i) = Some m" for m
    using Cons.prems [of i m] that by simp
  show ?case
    unfolding rep_extend.simps
    by (intro preserves_intros out_ok_tick)
      (auto split: option.split prod.split intro!: preserves_intros rest go)
qed

lemma dedupe_subset: "dedupe cs cap = (vals, t) \<Longrightarrow> set vals \<subseteq> set cs"
  using dedupe_loop_spec [of "[]" cap "[]" cs] first_by_subset set_take_subset
  by (fastforce simp: dedupe_def)

text \<open>The output of a walk: \<open>Q n c\<close> is what is known of a selection of \<open>n\<close> units.\<close>

lemma rep_walk_preserves:
  assumes "Q cnt selected"
    and "\<And>n c. mn \<le> n \<Longrightarrow> Q n c \<Longrightarrow> P c"
    and "\<And>n c u m. Q n c \<Longrightarrow> u \<in> set units \<Longrightarrow>
      mergeCandidates (env_host env) (env_events env) c u = Some m \<Longrightarrow> Q (n + 1) m"
  shows "preserves (out_ok P) (rep_walk fuel env mn mx contig units start selected cnt)"
  using assms(1)
proof (induction fuel arbitrary: start selected cnt)
  case 0
  show ?case by (simp add: stable_def)
next
  case (Suc fuel)
  let ?go = "\<lambda>i merged. rep_walk fuel env mn mx contig units i merged (cnt + 1)"
  have push: "preserves (out_ok P) (if mn \<le> cnt
      then modS (\<lambda>(s, r). (s, r\<lparr>rep_output := rep_output r @ [(selected, cnt)]\<rparr>)) else ret ())"
    by (intro preserves_intros preserves_modS) (use assms(2) Suc.prems in \<open>auto simp: out_ok_def\<close>)
  have ext: "preserves (out_ok P) (rep_extend env units selected ?go is)"
    if "set is \<subseteq> {start..<length units}" for "is"
  proof (rule out_ok_extend)
    fix i m
    assume "i \<in> set is" and m: "mergeCandidates (env_host env) (env_events env) selected (units ! i) = Some m"
    then have "units ! i \<in> set units" using that by auto
    then have "Q (cnt + 1) m" using assms(3) Suc.prems m by blast
    then show "preserves (out_ok P) (?go (i + 1) m)" by (rule Suc.IH)
  qed
  have comp: "preserves (out_ok P) (seq (rep_compatible env contig units selected [] [start..<length units])
      (\<lambda>idxs. case idxs of None \<Rightarrow> ret () | Some is \<Rightarrow> rep_extend env units selected ?go is))"
    by (rule preserves_seq_yields [OF out_ok_compatible yields_compatible])
      (use ext in \<open>auto split: option.split intro: preserves_ret\<close>)
  show ?case
    unfolding rep_walk.simps
    by (intro preserves_intros push out_ok_stop comp)
qed

subsection \<open>The interface\<close>

locale candidate_closure =
  fixes env :: env and good :: "string set \<Rightarrow> candidate \<Rightarrow> bool"
  assumes good_mono: "good R c \<Longrightarrow> S \<subseteq> R \<Longrightarrow> good S c"
    and good_empty: "good {} emptyCandidate"
    and good_event: "e \<in> set (events_by_ref env ref) \<Longrightarrow>
      good {ref} (candidateFromBindings (env_host env) (env_events env) [(ref, [e])] None [])"
    and good_merge: "good A l \<Longrightarrow> good B r \<Longrightarrow>
      mergeCandidates (env_host env) (env_events env) l r = Some m \<Longrightarrow> good (A \<union> B) m"
    and good_attach: "good R c \<Longrightarrow> ws \<noteq> [] \<Longrightarrow> set ws \<subseteq> set (events_by_ref env ref) \<Longrightarrow>
      good (insert ref R) (withBindingEvents (env_host env) (env_events env) c ref ws)"
    and good_pending: "good R c \<Longrightarrow> good R (c\<lparr>pendingUntil := p\<rparr>)"
    and good_decision: "good R c \<Longrightarrow> dec_matched d \<Longrightarrow>
      good R (c\<lparr>semanticDecisions := semanticDecisions c @ [(i, d)]\<rparr>)"
begin

abbreviation results :: "candidate list eval \<Rightarrow> string set \<Rightarrow> bool" where
  "results m R \<equiv> yields m (all_cands (good R))"

lemma results_subset: "results m R \<Longrightarrow> S \<subseteq> R \<Longrightarrow> results m S"
  by (erule yields_mono) (blast intro: good_mono)

lemma results_event: "results (eval_event env ref) {ref}"
  unfolding eval_event_def
  by (rule yields_seq [OF yields_eventsForRef], rule yields_event_loop) (use good_event in auto)

lemma results_any:
  "(\<And>m. m \<in> set ms \<Longrightarrow> results m R) \<Longrightarrow> results (any_outer env [] [] ms) R"
  by (rule yields_any_outer) auto

lemma results_join:
  assumes "all_cands (good A) ls" and "all_cands (good B) rs"
  shows "yields (join_all env [] [] (List.product ls rs)) (\<lambda>(t, vs). all_cands (good (A \<union> B)) vs)"
  by (rule yields_join_all) (use assms in \<open>auto simp: set_product intro: good_merge\<close>)

lemma results_all:
  assumes "list_all2 (\<lambda>m R. results m R) ms Rs" and "all_cands (good A) current"
  shows "results (all_outer env current ms) (A \<union> \<Union>(set Rs))"
  using assms
proof (induction ms Rs arbitrary: current A rule: list_all2_induct)
  case Nil
  then show ?case by (simp add: yields_def)
next
  case (Cons m ms R Rs)
  show ?case
    unfolding all_outer.simps
  proof (rule yields_seq [OF Cons.hyps(1)])
    fix nxt
    assume "all_cands (good R) nxt"
    then have j: "yields (join_all env [] [] (List.product current nxt)) (\<lambda>(t, vs). all_cands (good (A \<union> R)) vs)"
      by (rule results_join [OF Cons.prems])
    show "results (seq (join_all env [] [] (List.product current nxt)) (\<lambda>(t, combined).
        seq (truncate_if t) (\<lambda>_. if combined = [] then ret [] else all_outer env combined ms)))
      (A \<union> \<Union>(set (R # Rs)))"
    proof (rule yields_seq_pair [OF j])
      fix t combined
      assume *: "all_cands (good (A \<union> R)) combined"
      have "results (all_outer env combined ms) (A \<union> \<Union>(set (R # Rs)))"
        using Cons.IH [OF *] by (simp add: Un_assoc)
      then show "results (seq (truncate_if t) (\<lambda>_. if combined = [] then ret [] else all_outer env combined ms))
          (A \<union> \<Union>(set (R # Rs)))"
        by (auto intro!: yields_seq_any yields_ret)
    qed
  qed
qed

lemma results_seq_outer:
  assumes "list_all2 (\<lambda>m R. results (snd m) R) ms Rs" and "all_cands (good A) current"
  shows "results (seq_outer env contig current ms) (A \<union> \<Union>(set Rs))"
  using assms
proof (induction ms Rs arbitrary: current A rule: list_all2_induct)
  case Nil
  then show ?case by (simp add: yields_def)
next
  case (Cons m ms R Rs)
  obtain pref child where m: "m = (pref, child)" by (cases m)
  have child: "results child R" using Cons.hyps m by simp
  show ?case
    unfolding m seq_outer.simps
  proof (rule yields_seq [OF child])
    fix nxt
    assume n: "all_cands (good R) nxt"
    have "set (ranked_successors pref nxt) \<subseteq> set nxt"
      by (auto simp: ranked_successors_def dest: set_zip_leftD)
    then have j: "yields (seq_join env contig (ranked_successors pref nxt) [] [] current)
        (\<lambda>(t, vs). all_cands (good (A \<union> R)) vs)"
      by (intro yields_seq_join) (use n Cons.prems in \<open>auto intro!: good_merge\<close>)
    show "results (seq (seq_join env contig (ranked_successors pref nxt) [] [] current) (\<lambda>(t, combined).
        seq (truncate_if t) (\<lambda>_. if combined = [] then ret [] else seq_outer env contig combined ms)))
      (A \<union> \<Union>(set (R # Rs)))"
    proof (rule yields_seq_pair [OF j])
      fix t combined
      assume *: "all_cands (good (A \<union> R)) combined"
      have "results (seq_outer env contig combined ms) (A \<union> \<Union>(set (R # Rs)))"
        using Cons.IH [OF *] by (simp add: Un_assoc)
      then show "results (seq (truncate_if t) (\<lambda>_. if combined = [] then ret [] else seq_outer env contig combined ms))
          (A \<union> \<Union>(set (R # Rs)))"
        by (auto intro!: yields_seq_any yields_ret)
    qed
  qed
qed

lemma results_sequence:
  assumes "list_all2 (\<lambda>m R. results (snd m) R) ms Rs"
  shows "results (eval_sequence env contig ms) (\<Union>(set Rs))"
proof (cases ms)
  case Nil
  then show ?thesis by (simp add: eval_sequence_def yields_def)
next
  case (Cons m ms')
  then obtain pref child R Rs' where m: "m = (pref, child)" and Rs: "Rs = R # Rs'"
    and child: "results child R" and rest: "list_all2 (\<lambda>m R. results (snd m) R) ms' Rs'"
    using assms by (cases m) (auto simp: list_all2_Cons1)
  show ?thesis
    unfolding eval_sequence_def Cons m list.case prod.case Rs
    by (rule yields_seq [OF child]) (use results_seq_outer [OF rest] in simp)
qed

lemma results_repeat:
  assumes "results child R"
  shows "results (eval_repeat env mn mx md contig child) (if 0 < mn then R else {})"
  unfolding eval_repeat_def
proof (rule yields_seq [OF assms])
  fix cs
  assume cs: "all_cands (good R) cs"
  define units where "units = sort_by unit_cmp (filter (\<lambda>c. cand_events c \<noteq> []) cs)"
  define P where "P = good (if 0 < mn then R else {})"
  have units: "all_cands (good R) units" using cs by (auto simp: units_def)
  have walk: "preserves (out_ok P) (rep_walk fuel env mn mx' contig units st emptyCandidate 0)" for fuel mx' st
  proof (rule rep_walk_preserves [where Q = "\<lambda>n c. good (if 0 < n then R else {}) c"])
    show "good (if 0 < (0::nat) then R else {}) emptyCandidate" by (simp add: good_empty)
    show "P c" if "mn \<le> n" and "good (if 0 < n then R else {}) c" for n c
      using that good_mono [of R c "{}"] by (auto simp: P_def split: if_splits)
    show "good (if 0 < n + 1 then R else {}) m"
      if "good (if 0 < n then R else {}) c" and u: "u \<in> set units"
        and m: "mergeCandidates (env_host env) (env_events env) c u = Some m" for n :: nat and c u m
    proof -
      have "good {} c" using that(1) by (rule good_mono) simp
      then have "good ({} \<union> R) m" by (rule good_merge) (use units u m in auto)
      then show ?thesis by simp
    qed
  qed
  have out0: "out_ok P (s, \<lparr>rep_output = if mn = 0 then [(emptyCandidate, 0)] else [],
      rep_limit = False, rep_steps = 0\<rparr>)" for s
    by (simp add: out_ok_def P_def good_empty)
  let ?m = "\<lambda>s. case rep_walk (max_search_depth + 1) env mn
        (min (case mx of None \<Rightarrow> length units | Some m \<Rightarrow> m) (length units)) contig units 0 emptyCandidate 0
        (s, \<lparr>rep_output = if mn = 0 then [(emptyCandidate, 0)] else [], rep_limit = False, rep_steps = 0\<rparr>) of
      (Inl e, (s', r)) \<Rightarrow> (Inl e, s')
    | (Inr _, (s', r)) \<Rightarrow>
        (case dedupe (map fst (sort_by (output_cmp md) (rep_output r))) (env_maxCandidates env) of
           (vals, t) \<Rightarrow> seq (truncate_if t) (\<lambda>_. ret vals) s')"
  have "yields ?m (all_cands P)"
  proof (rule yieldsI)
    fix s x t
    assume run: "?m s = (Inr x, t)"
    obtain a s' r where w: "rep_walk (max_search_depth + 1) env mn
        (min (case mx of None \<Rightarrow> length units | Some m \<Rightarrow> m) (length units)) contig units 0 emptyCandidate 0
        (s, \<lparr>rep_output = if mn = 0 then [(emptyCandidate, 0)] else [], rep_limit = False, rep_steps = 0\<rparr>) = (a, (s', r))"
      by (rule prod_cases3)
    have ok: "out_ok P (s', r)"
      using stableD [OF walk w] out0 by simp
    obtain vals b where d: "dedupe (map fst (sort_by (output_cmp md) (rep_output r))) (env_maxCandidates env) = (vals, b)"
      by (cases "dedupe (map fst (sort_by (output_cmp md) (rep_output r))) (env_maxCandidates env)")
    have "x = vals"
      using run unfolding w by (auto simp: d seq_eq_Inr_iff simp del: rep_walk.simps split: sum.splits)
    then show "all_cands P x"
      using ok dedupe_subset [OF d] by (auto simp: out_ok_def)
  qed
  then show "results (let units = sort_by unit_cmp (filter (\<lambda>c. cand_events c \<noteq> []) cs);
      top = min (case mx of None \<Rightarrow> length units | Some m \<Rightarrow> m) (length units);
      out0 = (if mn = 0 then [(emptyCandidate, 0)] else [])
    in if length units < mn then ret []
       else (\<lambda>s. case rep_walk (max_search_depth + 1) env mn top contig units 0 emptyCandidate 0
                     (s, \<lparr>rep_output = out0, rep_limit = False, rep_steps = 0\<rparr>) of
           (Inl e, (s', r)) \<Rightarrow> (Inl e, s')
         | (Inr _, (s', r)) \<Rightarrow>
             (case dedupe (map fst (sort_by (output_cmp md) (rep_output r))) (env_maxCandidates env) of
                (vals, t) \<Rightarrow> seq (truncate_if t) (\<lambda>_. ret vals) s'))) (if 0 < mn then R else {})"
    unfolding Let_def units_def [symmetric] P_def by (intro yields_if yields_ret) auto
qed

lemma results_optional: "results child R \<Longrightarrow> results (eval_optional env md child) {}"
  unfolding eval_optional_def
proof (rule yields_seq)
  assume "results child R"
  then show "results child {}" by (rule results_subset) simp
next
  fix cs
  assume cs: "all_cands (good {}) cs"
  obtain vals b where d: "dedupe (if md = Greedy then cs @ [emptyCandidate] else emptyCandidate # cs)
      (env_maxCandidates env) = (vals, b)"
    by (cases "dedupe (if md = Greedy then cs @ [emptyCandidate] else emptyCandidate # cs) (env_maxCandidates env)")
  have "all_cands (good {}) vals"
    using dedupe_subset [OF d] cs good_empty by (auto split: if_splits)
  then show "results (case dedupe (if md = Greedy then cs @ [emptyCandidate] else emptyCandidate # cs)
      (env_maxCandidates env) of (vals, t) \<Rightarrow> seq (truncate_if t) (\<lambda>_. ret vals)) {}"
    unfolding d prod.case by (intro yields_seq_any yields_ret)
qed

lemma results_filterE: "results child R \<Longrightarrow> results (seq child (filterE p)) R"
  by (erule yields_seq, rule yields_mono [OF yields_filterE]) blast

lemma results_filter: "results child R \<Longrightarrow> results (seq child (\<lambda>cs. ret (filter p cs))) R"
  by (erule yields_seq, rule yields_ret) auto

lemma results_compare:
  "yields (compare_loop env s cost cs) (\<lambda>ys. set ys \<subseteq> set cs)"
proof (induction cs)
  case Nil
  show ?case unfolding compare_loop.simps by (rule yields_ret) simp
next
  case (Cons c cs)
  show ?case
    unfolding compare_loop.simps
    by (intro yields_seq_any yields_if yields_seq [OF Cons.IH] yields_ret) auto
qed

lemma results_attach:
  assumes "all_cands (good R) cs" and "ws \<noteq> []" and "set ws \<subseteq> set (events_by_ref env ref)"
  shows "results (attachBindingsBounded env cs ref ws) (insert ref R)"
  by (rule yields_attach) (use assms good_attach in auto)

lemma results_threshold:
  assumes child: "results child R" and need: "1 \<le> need"
  shows "results (eval_threshold env ref need child) (insert ref R)"
  unfolding eval_threshold_def
proof (rule yields_seq [OF yields_distinctEventsForRef])
  fix es
  assume es: "set es \<subseteq> set (events_by_ref env ref)"
  have "results (attachBindingsBounded env cs ref (take need es)) (insert ref R)"
    if "all_cands (good R) cs" "need \<le> length es" for cs
    by (rule results_attach) (use that es need set_take_subset [of need es] in \<open>cases es; auto\<close>)+
  then show "results (if length es < need then ret []
      else seq child (\<lambda>cs. attachBindingsBounded env cs ref (take need es))) (insert ref R)"
    by (intro yields_if yields_seq [OF child] yields_ret) auto
qed

lemma distinct_choose_ok:
  "distinct_choose path need vs chosen es = (vs', chosen') \<Longrightarrow>
   set chosen' \<subseteq> set chosen \<union> set es \<and> length chosen + length vs' = length chosen' + length vs"
proof (induction es arbitrary: vs chosen)
  case Nil
  then show ?case by simp
next
  case (Cons e es)
  consider (skip) "distinct_choose path need vs chosen (e # es) = distinct_choose path need vs chosen es"
    | (stop) v where "distinct_choose path need vs chosen (e # es) = (stringify v # vs, chosen @ [e])"
    | (take) v where "distinct_choose path need vs chosen (e # es) =
        distinct_choose path need (stringify v # vs) (chosen @ [e]) es"
  proof (cases "read_path (JObj (event_data e)) path")
    case None
    then show ?thesis using skip by simp
  next
    case (Some v)
    define typed where "typed = (has_type (Some v) TString \<or> has_type (Some v) TNumber \<or> has_type (Some v) TBoolean)"
    show ?thesis
      using skip stop [of v] take [of v] Some
      by (cases typed; cases "stringify v \<in> set vs"; cases "need \<le> Suc (length vs)")
        (simp_all add: Let_def flip: typed_def)
  qed
  then show ?case
  proof cases
    case skip
    then show ?thesis using Cons.IH [of vs chosen] Cons.prems by auto
  next
    case (stop v)
    then show ?thesis using Cons.prems by auto
  next
    case (take v)
    then show ?thesis using Cons.IH [of "stringify v # vs" "chosen @ [e]"] Cons.prems by auto
  qed
qed

lemma results_distinct:
  assumes child: "results child R" and need: "1 \<le> need"
  shows "results (eval_distinct env ref path need child) (insert ref R)"
  unfolding eval_distinct_def
proof (rule yields_seq [OF yields_eventsForRef])
  fix es
  assume es: "set es \<subseteq> set (events_by_ref env ref)"
  obtain vs chosen where d: "distinct_choose path need [] [] es = (vs, chosen)" by (cases "distinct_choose path need [] [] es")
  have "results (attachBindingsBounded env cs ref chosen) (insert ref R)"
    if "all_cands (good R) cs" "need \<le> length vs" for cs
    by (rule results_attach) (use that es need distinct_choose_ok [OF d] in auto)
  then show "results (case distinct_choose path need [] [] es of (vs, chosen) \<Rightarrow>
      if length vs < need then ret [] else seq child (\<lambda>cs. attachBindingsBounded env cs ref chosen)) (insert ref R)"
    unfolding d prod.case by (intro yields_if yields_seq [OF child] yields_ret) auto
qed

lemma results_rate:
  assumes child: "results child R" and need: "1 \<le> need"
  shows "results (eval_rate env ref need perMs child) (insert ref R)"
  unfolding eval_rate_def
proof (rule yields_seq [OF yields_distinctEventsForRef])
  fix es
  assume es: "set es \<subseteq> set (events_by_ref env ref)"
  define ws where "ws = filter (\<lambda>e. max_of (map event_ms es) - event_ms e \<le> perMs) es"
  have "results (attachBindingsBounded env cs ref (take_last need ws)) (insert ref R)"
    if "all_cands (good R) cs" "need \<le> length ws" for cs
  proof (rule results_attach [OF that(1)])
    show "take_last need ws \<noteq> []" using that need by (auto simp: take_last_def)
    have "set (take_last need ws) \<subseteq> set ws" by (simp add: take_last_def set_drop_subset)
    then show "set (take_last need ws) \<subseteq> set (events_by_ref env ref)" using es by (auto simp: ws_def)
  qed
  then show "results (if es = [] then ret [] else let latest = max_of (map event_ms es);
      inWindow = filter (\<lambda>e. latest - event_ms e \<le> perMs) es
    in if length inWindow < need then ret []
       else seq child (\<lambda>cs. attachBindingsBounded env cs ref (take_last need inWindow))) (insert ref R)"
    unfolding Let_def ws_def [symmetric]
    by (intro yields_if yields_seq [OF child] yields_ret) auto
qed

lemma good_until_final: "until_final env t c = Inr d \<Longrightarrow> good R c \<Longrightarrow> good R d"
  by (auto simp: until_final_def intro: good_pending split: option.splits if_splits sum.splits)

lemma results_debounce:
  assumes child: "results child R"
  shows "results (eval_debounce env ref forMs child) (insert ref R)"
  unfolding eval_debounce_def
proof (rule yields_seq [OF yields_eventsForRef])
  fix es
  assume es: "set es \<subseteq> set (events_by_ref env ref)"
  have "results (let finalAt = event_ms e + forMs + env_allowedLatenessMs env in
      seq child (\<lambda>cs. seq (attachBindingsBounded env cs ref [e]) (mapE (until_final env (Some finalAt)))))
    (insert ref R)" if "e \<in> set es" for e
    unfolding Let_def
  proof (rule yields_seq [OF child])
    fix cs
    assume "all_cands (good R) cs"
    then have "results (attachBindingsBounded env cs ref [e]) (insert ref R)"
      by (rule results_attach) (use that es in auto)
    then show "results (seq (attachBindingsBounded env cs ref [e])
        (mapE (until_final env (Some (event_ms e + forMs + env_allowedLatenessMs env))))) (insert ref R)"
      by (rule yields_seq, intro yields_mapE) (auto intro: good_until_final)
  qed
  moreover have "last_opt es = Some e \<Longrightarrow> e \<in> set es" for e by (auto simp: last_opt_def split: if_splits)
  ultimately show "results (case last_opt es of None \<Rightarrow> ret []
      | Some latest \<Rightarrow> let finalAt = event_ms latest + forMs + env_allowedLatenessMs env in
          seq child (\<lambda>cs. seq (attachBindingsBounded env cs ref [latest]) (mapE (until_final env (Some finalAt)))))
    (insert ref R)"
    by (auto split: option.split intro: yields_ret)
qed

lemma results_defer: "results (defer_all env entry mk child) R"
  by (rule yields_mono [OF yields_defer_all]) simp

lemma results_unblocked:
  "all_cands (good R) bases \<Longrightarrow> (\<And>c d. finish c = Inr d \<Longrightarrow> good R c \<Longrightarrow> good R d) \<Longrightarrow>
   results (unblocked env blocks finish fs [] bases) R"
  by (rule yields_unblocked) auto

lemma results_notPresent: "results child R \<Longrightarrow> results (eval_notPresent env ref child) R"
  unfolding eval_notPresent_def
  by (intro yields_if results_defer, rule yields_seq_any, erule yields_seq,
    intro yields_seq_any yields_if yields_ret results_unblocked) auto

lemma results_absence: "results child R \<Longrightarrow> results (eval_absence env s child) R"
  unfolding eval_absence_def
  by (intro yields_if results_defer, erule yields_seq, intro yields_seq_any yields_if yields_ret
    results_unblocked)
    (auto simp: absence_finish_def intro: good_until_final split: option.splits sum.splits)

lemma results_notNext: "results child R \<Longrightarrow> results (eval_notNext env inc child forbidden) R"
  unfolding eval_notNext_def
  by (intro yields_if results_defer, erule yields_seq, intro yields_seq_any yields_if yields_ret
    results_unblocked) auto

lemma results_notFollowedBy: "results child R \<Longrightarrow> results (eval_notFollowedBy env inc ms child forbidden) R"
  unfolding eval_notFollowedBy_def
  by (intro yields_if results_defer, erule yields_seq, intro yields_seq_any yields_if yields_ret
    results_unblocked) (auto simp: followed_finish_def intro: good_until_final)

lemma results_semantic_loop:
  "all_cands (good R) cs \<Longrightarrow> all_cands (good R) out \<Longrightarrow> results (semantic_loop env s out cs) R"
proof (induction cs arbitrary: out)
  case Nil
  show ?case unfolding semantic_loop.simps by (rule yields_ret) (use Nil in simp)
next
  case (Cons c cs)
  have step: "results (semantic_loop env s out' cs) R" if "all_cands (good R) out'" for out'
    by (rule Cons.IH) (use Cons.prems that in auto)
  have c: "good R c" and out: "all_cands (good R) out" using Cons.prems by auto
  have "results (case d of None \<Rightarrow> semantic_loop env s out cs
      | Some d \<Rightarrow> seq (modS (\<lambda>x. x\<lparr>ctx_trace := ctx_trace x @
            [\<lparr>tr_nodeId = sem_id s, tr_candidateSignature = candidateSignature c, tr_decision = d\<rparr>]\<rparr>))
          (\<lambda>_. if dec_matched d
            then semantic_loop env s
              (out @ [c\<lparr>semanticDecisions := semanticDecisions c @ [(sem_id s, d)]\<rparr>]) cs
            else semantic_loop env s out cs)) R" for d
    by (cases d) (simp_all only: option.case, intro step out,
      intro yields_seq_any yields_if step, use out good_decision [OF c] in auto)
  note decided = this
  show ?case
  proof (cases "env_evaluator env")
    case None
    show ?thesis unfolding semantic_loop.simps None option.case by (intro yields_if step out yields_throw)
  next
    case (Some ev)
    show ?thesis
      unfolding semantic_loop.simps Some option.case Let_def
      by (rule yields_seq_any, rule yields_seq_any, rule decided)
  qed
qed

lemma results_semantic: "results child R \<Longrightarrow> results (eval_semantic env s child) R"
  unfolding eval_semantic_def by (erule yields_seq, rule results_semantic_loop) auto

lemma results_enter: "results body R \<Longrightarrow> results (enter_node env body) R"
  unfolding enter_node_def by (intro yields_seq_any yields_if yields_ret) auto

theorem results_evaluateNode: "node_ok n \<Longrightarrow> results (evaluateNode env n) (set (guaranteed n))"
proof (induction n)
  case (EventN ref)
  show ?case unfolding evaluateNode.simps by (rule results_enter) (simp add: results_event)
next
  case (AnyOf cs)
  have "results m (set (common_refs (map guaranteed cs)))" if mem: "m \<in> set (map (evaluateNode env) cs)" for m
  proof -
    obtain c where c: "c \<in> set cs" and m: "m = evaluateNode env c"
      using mem by auto
    have "results m (set (guaranteed c))" using AnyOf c m by (auto simp: list_all_iff)
    then show ?thesis by (rule results_subset) (use c in \<open>auto simp: set_common_refs\<close>)
  qed
  then show ?case unfolding evaluateNode.simps guaranteed.simps by (intro results_enter results_any)
next
  case (AllOf cs)
  have "list_all2 (\<lambda>m R. results m R) (map (evaluateNode env) cs) (map (\<lambda>c. set (guaranteed c)) cs)"
    using AllOf by (auto simp: list_all2_conv_all_nth list_all_iff)
  then have "results (all_outer env [emptyCandidate] (map (evaluateNode env) cs))
      ({} \<union> \<Union>(set (map (\<lambda>c. set (guaranteed c)) cs)))"
    by (rule results_all) (simp add: good_empty)
  then show ?case unfolding evaluateNode.simps by (intro results_enter) simp
next
  case (SequenceN cs ct)
  have "list_all2 (\<lambda>m R. results (snd m) R) (zip (map empty_preference cs) (map (evaluateNode env) cs))
      (map (\<lambda>c. set (guaranteed c)) cs)"
    using SequenceN by (auto simp: list_all2_conv_all_nth list_all_iff)
  then have "results (eval_sequence env ct (zip (map empty_preference cs) (map (evaluateNode env) cs)))
      (\<Union>(set (map (\<lambda>c. set (guaranteed c)) cs)))"
    by (rule results_sequence)
  then show ?case unfolding evaluateNode.simps by (intro results_enter) simp
next
  case (RepeatN c mn mx md ct)
  then have "results (eval_repeat env mn mx md ct (evaluateNode env c)) (if 0 < mn then set (guaranteed c) else {})"
    by (intro results_repeat) simp
  then show ?case unfolding evaluateNode.simps by (intro results_enter) (auto split: if_splits)
next
  case (OptionalN c md)
  then show ?case
    unfolding evaluateNode.simps by (intro results_enter) (use results_optional in auto)
next
  case (WindowN w c)
  then show ?case
    unfolding evaluateNode.simps eval_window_def by (intro results_enter) (simp add: results_filter)
next
  case (CalendarN s c)
  then show ?case
    unfolding evaluateNode.simps eval_calendar_def by (intro results_enter) (simp add: results_filterE)
next
  case (CompareN s c)
  then have "results (evaluateNode env c) (set (guaranteed c))" by simp
  then have "results (eval_compare env s (evaluateNode env c)) (set (guaranteed c))"
    unfolding eval_compare_def
    by (rule yields_seq, intro yields_mono [OF results_compare]) blast
  then show ?case unfolding evaluateNode.simps by (intro results_enter) simp
next
  case (AggregateN s op v c)
  then show ?case
    unfolding evaluateNode.simps eval_aggregate_def by (intro results_enter) (simp add: results_filter)
next
  case (StateN s c)
  then show ?case
    unfolding evaluateNode.simps eval_state_def by (intro results_enter) (simp add: results_filter)
next
  case (AfterN c ref aref)
  then show ?case
    unfolding evaluateNode.simps eval_after_def by (intro results_enter) (simp add: results_filter)
next
  case (UntilN c ref bref)
  then show ?case
    unfolding evaluateNode.simps eval_until_def by (intro results_enter) (simp add: results_filter)
qed (auto intro!: results_enter results_notPresent results_absence results_notNext results_notFollowedBy
  results_threshold results_distinct results_rate results_debounce results_semantic)

end

end
