(* ===== verification/Evaluator_Relation.thy ===== *)
theory Evaluator_Relation
  imports Evaluator_Closure
begin

text \<open>
  How an evaluation changes its context. The interface is a reflexive and transitive relation
  that holds across every single write of the evaluator; one induction over the pattern then
  gives it for the evaluation of every node, thrown exceptions included. It is interpreted for
  the monotone fields of the context and for its budgets.
\<close>

text \<open>The steps before a call to the evaluator do not touch the number of calls.\<close>

abbreviation keeps_calls :: "'a eval \<Rightarrow> bool" where
  "keeps_calls \<equiv> stable (\<lambda>s t. ctx_semanticEvaluations t = ctx_semanticEvaluations s)"

lemma keeps_calls_read_clock: "keeps_calls (read_clock env)"
  by (simp add: stable_def read_clock_def next_io_def seq_def)

lemma keeps_calls_past_deadline: "keeps_calls (past_deadline env)"
  by (simp add: stable_def past_deadline_def read_clock_def next_io_def seq_def split: option.split)

lemma keeps_calls_admitted: "keeps_calls (admitted env s c)"
  by (simp add: stable_def admitted_def next_io_def seq_def split: option.split admission_reply.split)

lemma keeps_calls_call_budget: "keeps_calls (call_budget env s)"
  by (simp add: stable_def call_budget_def read_clock_def next_io_def seq_def Let_def split: option.split)

locale ctx_closure =
  fixes env :: env and R :: "ctx \<Rightarrow> ctx \<Rightarrow> bool"
  assumes R_refl: "R s s"
    and R_trans: "R s t \<Longrightarrow> R t u \<Longrightarrow> R s u"
    and R_work: "\<not> ctx_workExhausted s \<Longrightarrow> ctx_workSteps s + k \<le> env_maxWorkSteps env \<Longrightarrow>
      R s (s\<lparr>ctx_workSteps := ctx_workSteps s + k\<rparr>)"
    and R_exhaust: "\<not> ctx_workExhausted s \<Longrightarrow>
      R s (s\<lparr>ctx_workSteps := ctx_workSteps s + k, ctx_workExhausted := True, ctx_truncated := True\<rparr>)"
    and R_truncate: "R s (s\<lparr>ctx_truncated := True\<rparr>)"
    and R_pending: "length (ctx_incompletePending s) < env_maxCandidates env \<Longrightarrow>
      R s (s\<lparr>ctx_incompletePending := ctx_incompletePending s @ [c]\<rparr>)"
    and R_hit: "R s (s\<lparr>ctx_cacheHits := ctx_cacheHits s + 1\<rparr>)"
    and R_hit_put: "R s (s\<lparr>ctx_cacheHits := ctx_cacheHits s + 1, ctx_semanticCache := map_put key d (ctx_semanticCache s)\<rparr>)"
    and R_put: "R s (s\<lparr>ctx_semanticCache := map_put key d (ctx_semanticCache s)\<rparr>)"
    and R_call: "ctx_semanticEvaluations s < env_maxSemanticEvaluations env \<Longrightarrow>
      R s (s\<lparr>ctx_cacheMisses := ctx_cacheMisses s + 1, ctx_semanticEvaluations := ctx_semanticEvaluations s + 1\<rparr>)"
    and R_trace: "R s (s\<lparr>ctx_trace := ctx_trace s @ [x]\<rparr>)"
    and R_io: "R s (s\<lparr>ctx_io := ctx_io s + 1\<rparr>)"
begin

abbreviation ok :: "'a eval \<Rightarrow> bool" where "ok m \<equiv> stable R m"

lemma rel [simp]: "reflp R" "transp R"
  by (auto intro: reflpI transpI R_refl R_trans)

lemma ok_ret: "ok (ret x)" and ok_throw: "ok (throw e)" and ok_liftE: "ok (liftE r)" and ok_getS: "ok getS"
  by (simp_all add: stable_ret stable_throw stable_liftE stable_getS)

lemma ok_seq: "ok m \<Longrightarrow> (\<And>x. ok (f x)) \<Longrightarrow> ok (seq m f)"
  by (rule stable_seq) simp_all

lemma ok_if: "(b \<Longrightarrow> ok m) \<Longrightarrow> (\<not> b \<Longrightarrow> ok n) \<Longrightarrow> ok (if b then m else n)"
  by simp

lemma ok_pair: "(\<And>a b. ok (f a b)) \<Longrightarrow> ok (case x of (a, b) \<Rightarrow> f a b)"
  by (cases x) simp

lemma ok_triple: "(\<And>a b c. ok (f a b c)) \<Longrightarrow> ok (case x of (a, b, c) \<Rightarrow> f a b c)"
  by (cases x) simp

lemma ok_option: "ok m \<Longrightarrow> (\<And>x. ok (f x)) \<Longrightarrow> ok (case x of None \<Rightarrow> m | Some y \<Rightarrow> f y)"
  by (cases x) simp_all

lemma ok_sum: "(\<And>e. ok (f e)) \<Longrightarrow> (\<And>x. ok (g x)) \<Longrightarrow> ok (case r of Inl e \<Rightarrow> f e | Inr x \<Rightarrow> g x)"
  by (cases r) simp_all

lemma ok_modS: "(\<And>s. R s (f s)) \<Longrightarrow> ok (modS f)"
  by (simp add: stable_def)

lemma ok_work: "ok (consumeWork env k)"
  by (auto simp: stable_def consumeWork_def Let_def R_refl R_work R_exhaust)

lemma ok_set_truncated: "ok set_truncated"
  unfolding set_truncated_def by (rule ok_modS) (rule R_truncate)

lemma ok_truncate_if: "ok (truncate_if b)"
  unfolding truncate_if_def by (intro ok_if ok_set_truncated ok_ret)

lemma ok_is_truncated: "ok is_truncated" and ok_is_exhausted: "ok is_exhausted"
  by (simp_all add: stable_def is_truncated_def is_exhausted_def R_refl)

lemma ok_next_io: "ok next_io"
  using R_io by (simp add: stable_def next_io_def)

lemmas ok_intros = ok_ret ok_throw ok_liftE ok_getS ok_seq ok_if ok_pair ok_option ok_work ok_set_truncated
  ok_truncate_if ok_is_truncated ok_is_exhausted ok_next_io

lemma ok_eventsForRef: "ok (eventsForRef env ref)"
  unfolding eventsForRef_def by (intro ok_intros)

lemma ok_distinctEventsForRef: "ok (distinctEventsForRef env ref)"
  unfolding distinctEventsForRef_def by (intro ok_intros ok_eventsForRef)

lemma ok_filterE: "ok (filterE p xs)"
proof (induction xs)
  case Nil show ?case unfolding filterE.simps by (rule ok_ret)
next
  case (Cons x xs) show ?case unfolding filterE.simps by (intro ok_intros Cons.IH)
qed

lemma ok_mapE: "ok (mapE f xs)"
proof (induction xs)
  case Nil show ?case unfolding mapE.simps by (rule ok_ret)
next
  case (Cons x xs) show ?case unfolding mapE.simps by (intro ok_intros Cons.IH)
qed

lemma ok_attach: "ok (attachBindingsBounded env cs ref ws)"
  unfolding attachBindingsBounded_def
proof (induction cs)
  case Nil show ?case unfolding attach_loop.simps by (rule ok_ret)
next
  case (Cons c cs) show ?case unfolding attach_loop.simps by (intro ok_intros Cons.IH)
qed

lemma ok_event_loop: "ok (event_loop env ref sn vals es)"
proof (induction es arbitrary: sn vals)
  case Nil show ?case unfolding event_loop.simps by (rule ok_ret)
next
  case (Cons e es) show ?case unfolding event_loop.simps by (intro ok_intros Cons.IH)
qed

lemma ok_any_inner: "ok (any_inner env sn vals cs)"
proof (induction cs arbitrary: sn vals)
  case Nil show ?case unfolding any_inner.simps by (rule ok_ret)
next
  case (Cons c cs) show ?case unfolding any_inner.simps Let_def by (intro ok_intros Cons.IH)
qed

lemma ok_any_outer: "(\<And>m. m \<in> set ms \<Longrightarrow> ok m) \<Longrightarrow> ok (any_outer env sn vals ms)"
proof (induction ms arbitrary: sn vals)
  case Nil show ?case unfolding any_outer.simps by (rule ok_ret)
next
  case (Cons m ms)
  have m: "ok m" and rest: "ok (any_outer env sn' vals' ms)" for sn' vals' using Cons by auto
  show ?case unfolding any_outer.simps by (intro ok_intros ok_any_inner m rest)
qed

lemma ok_join_all: "ok (join_all env sn vals ps)"
proof (induction ps arbitrary: sn vals)
  case Nil show ?case unfolding join_all.simps by (rule ok_ret)
next
  case (Cons p ps)
  obtain l r where p: "p = (l, r)" by (cases p)
  show ?case unfolding p join_all.simps Let_def by (intro ok_intros Cons.IH)
qed

lemma ok_all_outer: "(\<And>m. m \<in> set ms \<Longrightarrow> ok m) \<Longrightarrow> ok (all_outer env current ms)"
proof (induction ms arbitrary: current)
  case Nil show ?case unfolding all_outer.simps by (rule ok_ret)
next
  case (Cons m ms)
  have m: "ok m" and rest: "ok (all_outer env current' ms)" for current' using Cons by auto
  show ?case unfolding all_outer.simps by (intro ok_intros ok_join_all m rest)
qed

lemma ok_seq_inner: "ok (seq_inner env contig left sn vals rs)"
proof (induction rs arbitrary: sn vals)
  case Nil show ?case unfolding seq_inner.simps by (rule ok_ret)
next
  case (Cons r rs) show ?case unfolding seq_inner.simps Let_def by (intro ok_intros Cons.IH)
qed

lemma ok_seq_join: "ok (seq_join env contig rs sn vals ls)"
proof (induction ls arbitrary: sn vals)
  case Nil show ?case unfolding seq_join.simps by (rule ok_ret)
next
  case (Cons l ls)
  have "ok (case e of JoinOn \<Rightarrow> seq_join env contig rs sn' vals' ls
      | JoinStop \<Rightarrow> ret (False, vals') | JoinCap \<Rightarrow> ret (True, vals'))" for e sn' vals'
    by (cases e) (simp_all add: ok_ret Cons.IH)
  then show ?case unfolding seq_join.simps by (intro ok_seq ok_seq_inner ok_triple)
qed

lemma ok_seq_outer: "(\<And>p. p \<in> set ms \<Longrightarrow> ok (snd p)) \<Longrightarrow> ok (seq_outer env contig current ms)"
proof (induction ms arbitrary: current)
  case Nil show ?case unfolding seq_outer.simps by (rule ok_ret)
next
  case (Cons p ms)
  obtain pref m where p: "p = (pref, m)" by (cases p)
  have m: "ok m" and rest: "ok (seq_outer env contig current' ms)" for current'
    using Cons.IH Cons.prems [of p] Cons.prems by (auto simp: p)
  show ?case unfolding p seq_outer.simps by (intro ok_intros ok_seq_join m rest)
qed

lemma ok_sequence: "(\<And>p. p \<in> set ms \<Longrightarrow> ok (snd p)) \<Longrightarrow> ok (eval_sequence env contig ms)"
proof (cases ms)
  case Nil
  then show ?thesis by (simp add: eval_sequence_def ok_ret)
next
  case (Cons p ms')
  assume all: "\<And>p. p \<in> set ms \<Longrightarrow> ok (snd p)"
  obtain pref m where p: "p = (pref, m)" by (cases p)
  have rest: "ok (snd q)" if "q \<in> set ms'" for q using all [of q] that by (simp add: Cons)
  have "ok m" using all [of p] by (simp add: Cons p)
  then show ?thesis
    unfolding eval_sequence_def Cons p list.case prod.case
    by (rule ok_seq) (rule ok_seq_outer, rule rest)
qed

subsection \<open>Repetition\<close>

abbreviation rok :: "'a rep_eval \<Rightarrow> bool" where "rok m \<equiv> stable (\<lambda>x y. R (fst x) (fst y)) m"

lemma rrel [simp]: "reflp (\<lambda>x y. R (fst x) (fst y))" "transp (\<lambda>x y. R (fst x) (fst y))"
  by (auto intro: reflpI transpI R_refl R_trans)

lemma rok_seq: "rok m \<Longrightarrow> (\<And>x. rok (f x)) \<Longrightarrow> rok (seq m f)"
  by (rule stable_seq) simp_all

lemma rok_ret: "rok (ret x)" and rok_getS: "rok getS"
  by (simp_all add: stable_ret stable_getS)

lemma rok_if: "(b \<Longrightarrow> rok m) \<Longrightarrow> (\<not> b \<Longrightarrow> rok n) \<Longrightarrow> rok (if b then m else n)"
  by simp

lemma rok_pair: "(\<And>a b. rok (f a b)) \<Longrightarrow> rok (case x of (a, b) \<Rightarrow> f a b)"
  by (cases x) simp

lemma rok_option: "rok m \<Longrightarrow> (\<And>x. rok (f x)) \<Longrightarrow> rok (case x of None \<Rightarrow> m | Some y \<Rightarrow> f y)"
  by (cases x) simp_all

lemma rok_onCtx: "ok m \<Longrightarrow> rok (onCtx m)"
  by (auto simp: stable_def onCtx_def split: prod.split) (metis snd_conv)

lemma rok_modS: "(\<And>x. R (fst x) (fst (f x))) \<Longrightarrow> rok (modS f)"
  by (simp add: stable_def)

lemma rok_stop: "rok rep_stop"
  unfolding rep_stop_def by (rule rok_modS) (auto simp: R_truncate)

lemmas rok_intros = rok_seq rok_ret rok_getS rok_if rok_pair rok_option rok_stop

lemma rok_tick: "rok (rep_tick env)"
  unfolding rep_tick_def consumeStep_def
  by (intro rok_intros rok_onCtx ok_work rok_modS) (auto simp: R_refl)

lemma rok_compatible: "rok (rep_compatible env contig units selected acc is)"
proof (induction "is" arbitrary: acc)
  case Nil show ?case unfolding rep_compatible.simps by (rule rok_ret)
next
  case (Cons i "is") show ?case unfolding rep_compatible.simps Let_def by (intro rok_intros rok_tick Cons.IH)
qed

lemma rok_extend: "(\<And>i m. rok (go i m)) \<Longrightarrow> rok (rep_extend env units selected go is)"
proof (induction "is")
  case Nil show ?case unfolding rep_extend.simps by (rule rok_ret)
next
  case (Cons i "is")
  have rest: "rok (rep_extend env units selected go is)" using Cons by simp
  show ?case unfolding rep_extend.simps by (intro rok_intros rok_tick rest Cons.prems)
qed

lemma rok_walk: "rok (rep_walk fuel env mn mx contig units start selected cnt)"
proof (induction fuel arbitrary: start selected cnt)
  case 0 show ?case unfolding rep_walk.simps by (rule rok_ret)
next
  case (Suc fuel)
  have push: "rok (modS (\<lambda>(s, r). (s, r\<lparr>rep_output := rep_output r @ [(selected, cnt)]\<rparr>)))"
    by (rule rok_modS) (auto simp: R_refl)
  show ?case unfolding rep_walk.simps by (intro rok_intros push rok_compatible rok_extend Suc.IH)
qed

lemma ok_repeat_run:
  "ok (\<lambda>s. case rep_walk fuel env mn limit contig units 0 emptyCandidate 0 (s, r0) of
      (Inl e, (s', r)) \<Rightarrow> (Inl e, s')
    | (Inr _, (s', r)) \<Rightarrow>
        (case dedupe (map fst (sort_by (output_cmp md) (rep_output r))) cap of
           (vals, t) \<Rightarrow> seq (truncate_if t) (\<lambda>_. ret vals) s'))"
proof (rule stableI)
  fix s
  obtain a s' r where w: "rep_walk fuel env mn limit contig units 0 emptyCandidate 0 (s, r0) = (a, (s', r))"
    by (rule prod_cases3)
  obtain vals t where d: "dedupe (map fst (sort_by (output_cmp md) (rep_output r))) cap = (vals, t)"
    by (cases "dedupe (map fst (sort_by (output_cmp md) (rep_output r))) cap")
  have R: "R s s'" using stableD [OF rok_walk w] by simp
  have "ok (seq (truncate_if t) (\<lambda>_. ret vals))" by (intro ok_seq ok_truncate_if ok_ret)
  then have "R s' (snd (seq (truncate_if t) (\<lambda>_. ret vals) s'))" by (simp add: stable_def)
  then show "R s (snd (case rep_walk fuel env mn limit contig units 0 emptyCandidate 0 (s, r0) of
      (Inl e, (s', r)) \<Rightarrow> (Inl e, s')
    | (Inr _, (s', r)) \<Rightarrow>
        (case dedupe (map fst (sort_by (output_cmp md) (rep_output r))) cap of
           (vals, t) \<Rightarrow> seq (truncate_if t) (\<lambda>_. ret vals) s')))"
    unfolding w using R R_trans [OF R] by (cases a) (simp_all add: d)
qed

lemma ok_repeat: "ok child \<Longrightarrow> ok (eval_repeat env mn mx md contig child)"
  unfolding eval_repeat_def Let_def by (intro ok_seq ok_if ok_ret ok_repeat_run)

subsection \<open>Filters, counts and negation\<close>

lemma ok_optional: "ok child \<Longrightarrow> ok (eval_optional env md child)"
  unfolding eval_optional_def by (intro ok_seq ok_pair ok_truncate_if ok_ret)

lemma ok_compare: "ok child \<Longrightarrow> ok (eval_compare env s child)"
proof -
  have "ok (compare_loop env s cost cs)" for cost cs
  proof (induction cs)
    case Nil show ?case unfolding compare_loop.simps by (rule ok_ret)
  next
    case (Cons c cs) show ?case unfolding compare_loop.simps by (intro ok_intros Cons.IH)
  qed
  then show "ok child \<Longrightarrow> ok (eval_compare env s child)"
    unfolding eval_compare_def by (intro ok_seq)
qed

lemma ok_filters:
  assumes "ok child"
  shows "ok (eval_window env w child)" and "ok (eval_calendar env s1 child)" and "ok (eval_after env ref aref child)"
    and "ok (eval_until env ref bref child)" and "ok (eval_aggregate env s2 nop v child)" and "ok (eval_state env s3 child)"
  unfolding eval_window_def eval_calendar_def eval_after_def eval_until_def eval_aggregate_def eval_state_def
  by (intro ok_seq assms ok_filterE ok_ret)+

lemma ok_counts:
  assumes "ok child"
  shows "ok (eval_threshold env ref need child)" and "ok (eval_distinct env ref path need child)"
    and "ok (eval_rate env ref need ms child)" and "ok (eval_debounce env ref ms child)"
  unfolding eval_threshold_def eval_distinct_def eval_rate_def eval_debounce_def Let_def
  by (intro ok_intros ok_eventsForRef ok_distinctEventsForRef ok_attach ok_mapE assms)+

lemma ok_defer_loop: "ok (defer_loop env entry mk bs)"
proof (induction bs)
  case Nil show ?case unfolding defer_loop.simps by (rule ok_ret)
next
  case (Cons b bs)
  have add: "ok (\<lambda>s. (if env_maxCandidates env \<le> length (ctx_incompletePending s) then set_truncated
      else seq (liftE (mk b)) (\<lambda>deadline. case deadline of None \<Rightarrow> defer_loop env entry mk bs
        | Some t \<Rightarrow> seq (modS (\<lambda>s. s\<lparr>ctx_incompletePending := ctx_incompletePending s @ [b\<lparr>pendingUntil := Some t\<rparr>]\<rparr>))
            (\<lambda>_. defer_loop env entry mk bs))) s)"
  proof (rule stableI)
    fix s
    show "R s (snd ((if env_maxCandidates env \<le> length (ctx_incompletePending s) then set_truncated
      else seq (liftE (mk b)) (\<lambda>deadline. case deadline of None \<Rightarrow> defer_loop env entry mk bs
        | Some t \<Rightarrow> seq (modS (\<lambda>s. s\<lparr>ctx_incompletePending := ctx_incompletePending s @ [b\<lparr>pendingUntil := Some t\<rparr>]\<rparr>))
            (\<lambda>_. defer_loop env entry mk bs))) s))"
    proof (cases "env_maxCandidates env \<le> length (ctx_incompletePending s)")
      case True
      then show ?thesis using ok_set_truncated by (simp add: stable_def)
    next
      case False
      then have p: "R s (s\<lparr>ctx_incompletePending := ctx_incompletePending s @ [c]\<rparr>)" for c by (intro R_pending) simp
      have "R s' (snd (defer_loop env entry mk bs s'))" for s' using Cons.IH by (simp add: stable_def)
      then show ?thesis
        using False R_trans [OF p] R_refl by (auto simp: seq_def split: sum.split option.split)
    qed
  qed
  have step: "ok (seq getS (\<lambda>s. if env_maxCandidates env \<le> length (ctx_incompletePending s) then set_truncated
      else seq (liftE (mk b)) (\<lambda>deadline. case deadline of None \<Rightarrow> defer_loop env entry mk bs
        | Some t \<Rightarrow> seq (modS (\<lambda>s. s\<lparr>ctx_incompletePending := ctx_incompletePending s @ [b\<lparr>pendingUntil := Some t\<rparr>]\<rparr>))
            (\<lambda>_. defer_loop env entry mk bs))))"
    using add by (simp add: seq_def stable_def)
  have "ok (seq (consumeWork env 1) (\<lambda>ok. if \<not> ok then ret () else seq getS (\<lambda>s.
      if env_maxCandidates env \<le> length (ctx_incompletePending s) then set_truncated
      else seq (liftE (mk b)) (\<lambda>deadline. case deadline of None \<Rightarrow> defer_loop env entry mk bs
        | Some t \<Rightarrow> seq (modS (\<lambda>s. s\<lparr>ctx_incompletePending := ctx_incompletePending s @ [b\<lparr>pendingUntil := Some t\<rparr>]\<rparr>))
            (\<lambda>_. defer_loop env entry mk bs)))))"
    by (rule ok_seq, rule ok_work, rule ok_if, rule ok_ret, rule step)
  then show ?case
    unfolding defer_loop.simps by (cases "entry b") (simp_all only: loop_entry.case ok_ret Cons.IH)
qed

lemma ok_defer_all: "ok child \<Longrightarrow> ok (defer_all env entry mk child)"
  unfolding defer_all_def by (intro ok_intros ok_defer_loop)

lemma ok_blocked_by: "ok (blocked_by env blocks fs)"
proof (induction fs)
  case Nil show ?case unfolding blocked_by.simps by (rule ok_ret)
next
  case (Cons f fs) show ?case unfolding blocked_by.simps by (intro ok_intros Cons.IH)
qed

lemma ok_unblocked: "ok (unblocked env blocks finish fs out bases)"
proof (induction bases arbitrary: out)
  case Nil show ?case unfolding unblocked.simps by (rule ok_ret)
next
  case (Cons b bases)
  have decided: "ok (case r of None \<Rightarrow> ret [] | Some True \<Rightarrow> unblocked env blocks finish fs out bases
      | Some False \<Rightarrow> seq (liftE (finish b)) (\<lambda>c. unblocked env blocks finish fs (out @ [c]) bases))" for r
    by (auto split: option.split bool.split intro!: ok_ret Cons.IH ok_seq ok_liftE)
  show ?case
    unfolding unblocked.simps
    by (rule ok_seq, rule ok_liftE, rule ok_option, rule Cons.IH, rule ok_seq, rule ok_blocked_by, rule decided)
qed

lemma ok_negation:
  assumes "ok child"
  shows "ok (eval_notPresent env ref child)" and "ok (eval_absence env s child)"
    and "ok forbidden \<Longrightarrow> ok (eval_notNext env inc child forbidden)"
    and "ok forbidden \<Longrightarrow> ok (eval_notFollowedBy env inc ms child forbidden)"
  unfolding eval_notPresent_def eval_absence_def eval_notNext_def eval_notFollowedBy_def
  by (intro ok_intros ok_eventsForRef ok_defer_all ok_unblocked assms; assumption)+

subsection \<open>Semantic nodes\<close>

lemma ok_unresolved: "ok unresolved"
  unfolding unresolved_def by (intro ok_seq ok_set_truncated ok_ret)

lemma ok_read_clock: "ok (read_clock env)"
  unfolding read_clock_def by (intro ok_intros)

lemma ok_past_deadline: "ok (past_deadline env)"
  unfolding past_deadline_def by (intro ok_intros ok_read_clock)

lemma ok_admitted: "ok (admitted env s c)"
proof -
  have "ok (case r of Approves \<Rightarrow> ret True | Denies \<Rightarrow> ret False | NotBoolean \<Rightarrow> throw e | AdmissionThrows e \<Rightarrow> throw e)" for r e
    by (cases r) (simp_all add: ok_ret ok_throw)
  then show ?thesis unfolding admitted_def by (intro ok_option ok_ret ok_seq ok_next_io)
qed

lemma ok_call_budget: "ok (call_budget env s)"
  unfolding call_budget_def Let_def by (intro ok_intros ok_read_clock)

lemma ok_cached: "ok (cached_decision env localKey durableKey)"
proof -
  have hit: "ok (modS (\<lambda>s. s\<lparr>ctx_cacheHits := ctx_cacheHits s + 1\<rparr>))"
    "ok (modS (\<lambda>s. s\<lparr>ctx_cacheHits := ctx_cacheHits s + 1, ctx_semanticCache := map_put key d (ctx_semanticCache s)\<rparr>))" for key d
    by (rule ok_modS, rule R_hit R_hit_put)+
  show ?thesis unfolding cached_decision_def by (intro ok_intros hit)
qed

lemma ok_store: "ok (store_decision env localKey durableKey d)"
  unfolding store_decision_def by (intro ok_intros ok_modS R_put)

lemma ok_new_decision: "ok (new_decision env ev s c localKey durableKey)"
proof -
  define call where "call = (\<lambda>batchLimited remaining. seq (modS (\<lambda>s. s\<lparr>ctx_cacheMisses := ctx_cacheMisses s + 1,
        ctx_semanticEvaluations := ctx_semanticEvaluations s + 1\<rparr>)) (\<lambda>_.
      seq next_io (\<lambda>n. case call_evaluator env ev s c batchLimited remaining n of
        Inl e \<Rightarrow> if err_code e = Some batch_timeout then unresolved else throw e
      | Inr d \<Rightarrow> seq (if sem_cache s then store_decision env localKey durableKey d else ret ())
          (\<lambda>_. ret (Some d)))))"
  have eq: "new_decision env ev s c localKey durableKey = seq getS (\<lambda>st.
     if env_maxSemanticEvaluations env \<le> ctx_semanticEvaluations st then unresolved
     else seq (past_deadline env) (\<lambda>late. if late then unresolved
     else seq (admitted env s c) (\<lambda>approved. if \<not> approved then unresolved
     else seq (call_budget env s) (\<lambda>(batchLimited, remaining).
       if num_le remaining (Fin 0) then unresolved else call batchLimited remaining))))"
    by (simp only: new_decision_def call_def)
  have after: "ok (seq next_io (\<lambda>n. case call_evaluator env ev s c b r n of
        Inl e \<Rightarrow> if err_code e = Some batch_timeout then unresolved else throw e
      | Inr d \<Rightarrow> seq (if sem_cache s then store_decision env localKey durableKey d else ret ())
          (\<lambda>_. ret (Some d))))" for b r
    by (intro ok_seq ok_next_io ok_sum ok_if ok_unresolved ok_throw ok_ret ok_store)
  have call: "R x (snd (call b r x))" if "ctx_semanticEvaluations x < env_maxSemanticEvaluations env" for b r x
    using R_trans [OF R_call [OF that]] after [of b r] unfolding call_def stable_def by (simp add: seq_Inr)
  show ?thesis
  proof (rule stableI)
    fix x
    show "R x (snd (new_decision env ev s c localKey durableKey x))"
    proof (cases "env_maxSemanticEvaluations env \<le> ctx_semanticEvaluations x")
      case True
      then show ?thesis using ok_unresolved by (simp add: eq stable_def)
    next
      case False
      obtain l x1 where l: "past_deadline env x = (l, x1)" by (cases "past_deadline env x")
      obtain a x2 where a: "admitted env s c x1 = (a, x2)" by (cases "admitted env s c x1")
      obtain bl x3 where bl: "call_budget env s x2 = (bl, x3)" by (cases "call_budget env s x2")
      have R: "R x x1" "R x1 x2" "R x2 x3"
        by (rule stableD [OF ok_past_deadline l], rule stableD [OF ok_admitted a], rule stableD [OF ok_call_budget bl])
      then have R': "R x x2" "R x x3" using R_trans by blast+
      have calls: "ctx_semanticEvaluations x3 < env_maxSemanticEvaluations env"
        using stableD [OF keeps_calls_past_deadline l] stableD [OF keeps_calls_admitted a]
          stableD [OF keeps_calls_call_budget bl] False by simp
      have un: "R x (snd (unresolved y))" if "R x y" for y
        using ok_unresolved R_trans [OF that] by (simp add: stable_def)
      have run: "R x (snd (call b r x3))" for b r by (rule R_trans [OF R'(2) call [OF calls]])
      show ?thesis
        using False R R' un run unfolding eq
        by (cases l; cases a; cases bl) (auto simp: l a bl seq_def split: prod.split)
    qed
  qed
qed

lemma ok_semantic_loop: "ok (semantic_loop env s out cs)"
proof (induction cs arbitrary: out)
  case Nil show ?case unfolding semantic_loop.simps by (rule ok_ret)
next
  case (Cons c cs)
  have tr: "ok (modS (\<lambda>x. x\<lparr>ctx_trace := ctx_trace x @ [y]\<rparr>))" for y by (rule ok_modS) (rule R_trace)
  show ?case
    unfolding semantic_loop.simps Let_def
    by (intro ok_intros ok_cached ok_new_decision tr Cons.IH)
qed

lemma ok_semantic: "ok child \<Longrightarrow> ok (eval_semantic env s child)"
  unfolding eval_semantic_def by (intro ok_seq ok_semantic_loop)

subsection \<open>All nodes\<close>

lemma ok_enter: "ok body \<Longrightarrow> ok (enter_node env body)"
  unfolding enter_node_def by (intro ok_intros)

theorem ok_evaluateNode: "ok (evaluateNode env n)"
proof (induction n)
  case (EventN ref)
  show ?case unfolding evaluateNode.simps eval_event_def by (intro ok_enter ok_seq ok_eventsForRef ok_event_loop)
next
  case (AllOf cs)
  then show ?case unfolding evaluateNode.simps by (intro ok_enter ok_all_outer) auto
next
  case (AnyOf cs)
  then show ?case unfolding evaluateNode.simps by (intro ok_enter ok_any_outer) auto
next
  case (SequenceN cs ct)
  then show ?case unfolding evaluateNode.simps by (intro ok_enter ok_sequence) (fastforce dest: set_zip_rightD)
qed (auto intro!: ok_enter ok_repeat ok_optional ok_filters ok_counts ok_compare ok_negation ok_semantic)

end

end
