(* ===== verification/Evaluator_Samples.thy ===== *)
theory Evaluator_Samples
  imports Evaluator
begin

text \<open>
  Concrete evaluations on which the properties of the evaluator are instantiated: a sequence
  guarded by a natural-language condition, and the options and events it runs on.
\<close>

definition sample_execution :: "nat \<Rightarrow> execution_policy" where
  "sample_execution cap = \<lparr>ex_maxCandidates = cap, ex_maxSemanticEvaluations = 2, ex_maxBufferedEvents = 10\<rparr>"

definition sample_pattern :: "nat \<Rightarrow> pattern_node \<Rightarrow> pattern_definition" where
  "sample_pattern cap n = \<lparr>pat_root = n, pat_partitionBy = [],
     pat_selection = \<lparr>sel_overlap_allow = True, sel_afterMatch = KeepAll, sel_maxMatchesPerEvent = 10\<rparr>,
     pat_execution = sample_execution cap\<rparr>"

lemma sample_pattern_root [simp]: "pat_root (sample_pattern cap n) = n"
  by (simp add: sample_pattern_def)

text \<open>An evaluator that is certain of everything it is asked.\<close>

definition certain_evaluator :: semantic_evaluator where
  "certain_evaluator = \<lparr>sev_cacheIdentity = None,
     sev_evaluate = (\<lambda>n i inp. Settles (sample_evaluation 1))\<rparr>"

definition sample_options :: eval_options where
  "sample_options = \<lparr>opt_evaluator = Some certain_evaluator, opt_now = 100000, opt_allowedLatenessMs = 0,
     opt_durable = None, opt_namespace = [], opt_admission = None, opt_contextRevision = [],
     opt_cacheTtlMs = None, opt_maxBatchElapsedMs = None, opt_incomplete = [], opt_clock = (\<lambda>n. Fin 0)\<rparr>"

definition sample_root :: pattern_node where
  "sample_root = SemanticN sample_condition (SequenceN [EventN ''a'', EventN ''b''] FollowedBy)"

definition sample_input :: "source_event list" where
  "sample_input = [sample_event ''a'' ''1'' 1, sample_event ''b'' ''2'' 2]"

lemma sample_root_ok: "node_ok sample_root"
  by code_simp

lemma sample_event_simps [simp]:
  "clauseId (sample_event c i s) = c" "event_ms (sample_event c i s) = s * 1000"
  "sourceEventId (sample_event c i s) = i"
  by (simp_all add: sample_event_def event_ms_def)

lemma sample_input_sorted: "sort_by (eventOrder sample_host) sample_input = sample_input"
  by code_simp

text \<open>The environment of the sample evaluations.\<close>

definition sample_env :: "nat \<Rightarrow> env" where
  "sample_env work = \<lparr>env_host = sample_host, env_events = sample_input, env_incomplete = [],
     env_now = 100000, env_maxCandidates = 4, env_maxSemanticEvaluations = 2, env_maxWorkSteps = work,
     env_allowedLatenessMs = 0, env_evaluator = Some certain_evaluator, env_durable = None,
     env_admission = None, env_namespace = [], env_contextRevision = [], env_cacheTtlMs = None,
     env_deadlineAt = None, env_clock = (\<lambda>n. Fin 0)\<rparr>"

lemma make_sample_env: "make_env sample_host (sample_pattern 4 n) sample_input sample_options = sample_env 4096"
  by (simp add: make_env_def sample_options_def sample_pattern_def sample_execution_def sample_env_def
    sample_input_sorted max_work_steps_def MAX_EVALUATION_WORK_STEPS_def)

text \<open>The two candidates of the events and the one of the sequence.\<close>

definition sample_single :: "string \<Rightarrow> string \<Rightarrow> int \<Rightarrow> candidate" where
  "sample_single c i s = candidateFromBindings sample_host sample_input [(c, [sample_event c i s])] None []"

definition sample_pair_match :: candidate where
  "sample_pair_match = the (mergeCandidates sample_host sample_input (sample_single ''a'' ''1'' 1) (sample_single ''b'' ''2'' 2))"

lemma sample_merge:
  "mergeCandidates sample_host sample_input (sample_single ''a'' ''1'' 1) (sample_single ''b'' ''2'' 2) = Some sample_pair_match"
  by (simp add: sample_pair_match_def) code_simp

lemma sample_follows: "follows FollowedBy (sample_single ''a'' ''1'' 1) (sample_single ''b'' ''2'' 2)"
  by code_simp

lemma sample_pair_facts: "pendingUntil sample_pair_match = None" "semanticDecisions sample_pair_match = []"
  "map clauseId (cand_events sample_pair_match) = [''a'', ''b'']"
  by code_simp+

lemma sample_ranked: "ranked_successors Lazy [c] = [c]"
  by (simp add: ranked_successors_def)

lemma sample_event_run:
  assumes "(c, i, t) \<in> {(''a'', ''1'', 1), (''b'', ''2'', 2)}" and "\<not> ctx_workExhausted s" and "ctx_workSteps s + 3 \<le> n"
  shows "evaluateNode (sample_env n) (EventN c) s =
    (Inr [sample_single c i t], s\<lparr>ctx_workSteps := ctx_workSteps s + 3\<rparr>)"
  using assms
  by (auto simp: enter_node_def eval_event_def eventsForRef_def events_by_ref_def consumeWork_def
    sample_env_def sample_input_def sample_single_def seq_def Let_def)

lemma sample_sequence_run:
  assumes "\<not> ctx_workExhausted s" and "ctx_workSteps s + 8 \<le> n"
  shows "evaluateNode (sample_env n) (SequenceN [EventN ''a'', EventN ''b''] FollowedBy) s =
    (Inr [sample_pair_match], s\<lparr>ctx_workSteps := ctx_workSteps s + 8\<rparr>)"
proof -
  have env: "env_host (sample_env n) = sample_host" "env_events (sample_env n) = sample_input"
    "env_maxCandidates (sample_env n) = 4" "env_maxWorkSteps (sample_env n) = n"
    by (simp_all add: sample_env_def)
  have a: "evaluateNode (sample_env n) (EventN ''a'') s' =
      (Inr [sample_single ''a'' ''1'' 1], s'\<lparr>ctx_workSteps := ctx_workSteps s' + 3\<rparr>)"
    and b: "evaluateNode (sample_env n) (EventN ''b'') s' =
      (Inr [sample_single ''b'' ''2'' 2], s'\<lparr>ctx_workSteps := ctx_workSteps s' + 3\<rparr>)"
    if "\<not> ctx_workExhausted s'" "ctx_workSteps s' + 3 \<le> n" for s'
    using that by (intro sample_event_run; simp)+
  show ?thesis
    unfolding evaluateNode.simps(4) using assms
    by (simp add: enter_node_def consumeWork_def env seq_def Let_def eval_sequence_def empty_preference_def
      a b sample_ranked sample_follows sample_merge truncate_if_def del: evaluateNode.simps)
qed

definition sample_decision :: semantic_decision where
  "sample_decision = projr (decide sample_condition (sample_evaluation 1))"

lemma sample_decide: "decide sample_condition (sample_evaluation 1) = Inr sample_decision"
  by (simp add: sample_decision_def decide_def sample_condition_def sample_evaluation_def Let_def num_le_def)

lemma sample_decision_matched: "dec_matched sample_decision"
  by (simp add: sample_decision_def decide_def sample_condition_def sample_evaluation_def Let_def num_le_def)

definition sample_match :: candidate where
  "sample_match = sample_pair_match\<lparr>semanticDecisions := [(''s'', sample_decision)]\<rparr>"

lemma sample_semantic_run:
  assumes "\<not> ctx_workExhausted s" and "ctx_workSteps s + 9 \<le> n" and "ctx_semanticCache s = []"
    and "ctx_semanticEvaluations s = 0"
  shows "\<exists>t. evaluateNode (sample_env n) sample_root s = (Inr [sample_match], t) \<and>
    ctx_truncated t = ctx_truncated s \<and> ctx_incompletePending t = ctx_incompletePending s"
proof -
  have seq1: "evaluateNode (sample_env n) (SequenceN [EventN ''a'', EventN ''b''] FollowedBy) s' =
      (Inr [sample_pair_match], s'\<lparr>ctx_workSteps := ctx_workSteps s' + 8\<rparr>)"
    if "\<not> ctx_workExhausted s'" "ctx_workSteps s' + 8 \<le> n" for s'
    using that by (rule sample_sequence_run)
  have env: "env_evaluator (sample_env n) = Some certain_evaluator" "env_deadlineAt (sample_env n) = None"
    "env_admission (sample_env n) = None" "env_maxSemanticEvaluations (sample_env n) = 2"
    "env_maxWorkSteps (sample_env n) = n" "env_durable (sample_env n) = None"
    by (simp_all add: sample_env_def)
  have sem: "sem_id sample_condition = ''s''" "sem_timeoutMs sample_condition = 5000" "sem_cache sample_condition"
    by (simp_all add: sample_condition_def)
  have key: "durableSemanticCacheKey (sample_env n) sample_condition sample_pair_match = None"
    by (simp add: durableSemanticCacheKey_def Let_def evaluator_identity_def env certain_evaluator_def trim_ws_def)
  have time: "\<not> num_le (num_of_int 5000) (Fin 0)" by code_simp
  show ?thesis
    unfolding sample_root_def evaluateNode.simps(22)
    using assms
    by (simp add: enter_node_def consumeWork_def env sem key seq_def Let_def eval_semantic_def seq1
      cached_decision_def new_decision_def past_deadline_def admitted_def call_budget_def next_io_def
      call_evaluator_def certain_evaluator_def sample_decide store_decision_def sample_decision_matched
      sample_match_def sample_pair_facts time del: evaluateNode.simps)
qed

definition sample_result :: evaluation where
  "sample_result = projr (evaluatePatternV2 sample_host (sample_pattern 4 sample_root) sample_input sample_options)"

lemma sample_run:
  "evaluatePatternV2 sample_host (sample_pattern 4 sample_root) sample_input sample_options = Inr sample_result"
  "ev_matches sample_result = [sample_match]" "ev_truncated sample_result = False"
proof -
  obtain t where t: "evaluateNode (sample_env 4096) sample_root (initial_ctx\<lparr>ctx_io := 1\<rparr>) = (Inr [sample_match], t)"
    "\<not> ctx_truncated t" "ctx_incompletePending t = []"
    using sample_semantic_run [of "initial_ctx\<lparr>ctx_io := 1\<rparr>" 4096] by (auto simp: initial_ctx_def)
  have ok: "options_error sample_options = None" by code_simp
  have small: "\<not> MAX_EVALUATION_INPUT_EVENTS < length sample_input"
    by (simp add: MAX_EVALUATION_INPUT_EVENTS_def sample_input_def)
  have ast: "boundedAst sample_root" by code_simp
  have "evaluatePatternV2 sample_host (sample_pattern 4 sample_root) sample_input sample_options =
      Inr (finish_evaluation (sample_env 4096) [sample_match] t)"
    using ok small ast t unfolding evaluatePatternV2_def Let_def
    by (simp add: make_sample_env)
  moreover have "ev_matches (finish_evaluation (sample_env 4096) [sample_match] t) = [sample_match]"
    "ev_truncated (finish_evaluation (sample_env 4096) [sample_match] t) = False"
    using t by (simp_all add: finish_evaluation_def dedupe_def Let_def sample_env_def still_pending_def
      sample_match_def sample_pair_facts)
  ultimately show "evaluatePatternV2 sample_host (sample_pattern 4 sample_root) sample_input sample_options = Inr sample_result"
    "ev_matches sample_result = [sample_match]" "ev_truncated sample_result = False"
    by (simp_all add: sample_result_def)
qed

end
