(* ===== verification/Evaluator_Results.thy ===== *)
theory Evaluator_Results
  imports Evaluator_Closure Evaluator_Samples
begin

text \<open>
  What a reported candidate is: the closure interface of the evaluator, interpreted for the
  well-formedness of candidates with the clauses they bind, and for the semantic decisions they
  carry.
\<close>

subsection \<open>Bindings\<close>

definition binds :: "env \<Rightarrow> string set \<Rightarrow> candidate \<Rightarrow> bool" where
  "binds env R c \<longleftrightarrow> cand_wf (env_host env) (env_events env) c \<and>
     (\<forall>ref \<in> R. bound (cand_bindings c) ref \<noteq> [])"

lemma merge_by_identity_nonempty: "es \<noteq> [] \<Longrightarrow> merge_by_identity es \<noteq> []"
proof -
  have "fold (\<lambda>e m. map_put (eventIdentity e) e m) es m \<noteq> []" if "m \<noteq> [] \<or> es \<noteq> []"
    for m :: "(string \<times> source_event) list"
    using that
  proof (induction es arbitrary: m)
    case (Cons e es)
    have "map_put (eventIdentity e) e m \<noteq> []" by (cases m) (auto split: if_splits)
    then show ?case unfolding fold_Cons comp_apply by (intro Cons.IH) simp
  qed simp
  then show "es \<noteq> [] \<Longrightarrow> merge_by_identity es \<noteq> []" by (simp add: merge_by_identity_def)
qed

interpretation binds: candidate_closure env "binds env" for env
proof
  fix R S c
  assume "binds env R c" and "S \<subseteq> R"
  then show "binds env S c" by (auto simp: binds_def)
next
  show "binds env {} emptyCandidate" by (simp add: binds_def cand_wf_empty)
next
  fix e ref
  assume "e \<in> set (events_by_ref env ref)"
  then have "clauseId e = ref" "e \<in> set (env_events env)" by (auto simp: events_by_ref_def)
  then show "binds env {ref} (candidateFromBindings (env_host env) (env_events env) [(ref, [e])] None [])"
    by (auto simp: binds_def candidateFromBindings_def Let_def cand_wf_def)
next
  fix A l B r m
  assume l: "binds env A l" and r: "binds env B r"
    and m: "mergeCandidates (env_host env) (env_events env) l r = Some m"
  then have wf: "cand_wf (env_host env) (env_events env) l" "cand_wf (env_host env) (env_events env) r"
    by (auto simp: binds_def)
  have "bound (cand_bindings m) ref \<noteq> []" if "ref \<in> A \<union> B" for ref
    using merge_Some(4) [OF wf m, of ref] that l r by (auto simp: binds_def)
  then show "binds env (A \<union> B) m" using merge_Some(1) [OF wf m] by (simp add: binds_def)
next
  fix R c ws ref
  assume c: "binds env R c" and ws: "ws \<noteq> []" "set ws \<subseteq> set (events_by_ref env ref)"
  then have wf: "cand_wf (env_host env) (env_events env) c" by (simp add: binds_def)
  then have d: "distinct (map fst (cand_bindings c))" by (simp add: cand_wf_def)
  have "cand_wf (env_host env) (env_events env) (withBindingEvents (env_host env) (env_events env) c ref ws)"
    by (rule withBindingEvents_wf [OF wf]) (use ws in \<open>auto simp: events_by_ref_def\<close>)
  moreover have "bound (cand_bindings (withBindingEvents (env_host env) (env_events env) c ref ws)) x \<noteq> []"
    if "x \<in> insert ref R" for x
    using that c d ws merge_by_identity_nonempty
    by (auto simp: withBindingEvents_def candidateFromBindings_def Let_def binds_def)
  ultimately show "binds env (insert ref R) (withBindingEvents (env_host env) (env_events env) c ref ws)"
    by (simp add: binds_def)
qed (simp_all add: binds_def)

subsection \<open>Decisions\<close>

definition decided :: "string set \<Rightarrow> candidate \<Rightarrow> bool" where
  "decided R c \<longleftrightarrow> (\<forall>d \<in> set (semanticDecisions c). dec_matched (snd d))"

interpretation decided: candidate_closure env decided for env
proof
  fix A l B r m
  assume "decided A l" "decided B r" and m: "mergeCandidates (env_host env) (env_events env) l r = Some m"
  moreover have "semanticDecisions m = semanticDecisions l @ semanticDecisions r"
    using m by (auto simp: mergeCandidates_def candidateFromBindings_def Let_def split: if_splits)
  ultimately show "decided (A \<union> B) m" unfolding decided_def by auto
qed (auto simp: decided_def emptyCandidate_def candidateFromBindings_def withBindingEvents_def Let_def)

subsection \<open>The evaluation\<close>

lemma evaluation_cases:
  assumes "evaluatePatternV2 h d evs opts = Inr ev" and "c \<in> set (ev_matches ev @ ev_pending ev)"
  obtains s cs t where "evaluateNode (make_env h d evs opts) (pat_root d) s = (Inr cs, t)" and "c \<in> set cs"
proof -
  obtain cs t where run: "evaluateNode (make_env h d evs opts) (pat_root d) (initial_ctx\<lparr>ctx_io := 1\<rparr>) = (Inr cs, t)"
    and ev: "ev = finish_evaluation (make_env h d evs opts) cs t"
    using assms by (auto simp: evaluatePatternV2_def Let_def split: option.splits if_splits prod.splits sum.splits)
  obtain vals b where dd: "dedupe cs (env_maxCandidates (make_env h d evs opts)) = (vals, b)"
    by (cases "dedupe cs (env_maxCandidates (make_env h d evs opts))")
  have "c \<in> set vals" using assms(2) by (auto simp: ev finish_evaluation_def dd)
  then show thesis using that [OF run] dedupe_subset [OF dd] by blast
qed

lemma env_events_make [simp]: "set (env_events (make_env h d evs opts)) = set evs"
  by (simp add: make_env_def)

text \<open>
  C31: every reported match, pending ones included, binds every clause that the schema promises
  to be bound, to events of the input that belong to that clause.
\<close>

theorem guaranteed_bindings_bound:
  assumes "evaluatePatternV2 h d evs opts = Inr ev" and "node_ok (pat_root d)"
    and "c \<in> set (ev_matches ev @ ev_pending ev)" and "ref \<in> set (collectGuaranteedPatternBindings (pat_root d))"
  shows "bound (cand_bindings c) ref \<noteq> [] \<and>
    (\<forall>e \<in> set (bound (cand_bindings c) ref). e \<in> set evs \<and> clauseId e = ref)"
proof -
  let ?env = "make_env h d evs opts"
  obtain s cs t where run: "evaluateNode ?env (pat_root d) s = (Inr cs, t)" and c: "c \<in> set cs"
    using assms(1,3) by (rule evaluation_cases)
  have "binds ?env (set (guaranteed (pat_root d))) c"
    using yieldsD [OF binds.results_evaluateNode [OF assms(2)] run] c by blast
  then show ?thesis
    using assms(4) env_events_make [of h d evs opts]
    by (auto simp: binds_def cand_wf_def collectGuaranteedPatternBindings_def)
qed

text \<open>
  C32: the evidence of a reported match consists of input events, no physical event occurs in it
  twice, and it covers exactly the bindings of the match.
\<close>

theorem evidence_sound:
  assumes "evaluatePatternV2 h d evs opts = Inr ev" and "node_ok (pat_root d)"
    and "c \<in> set (ev_matches ev @ ev_pending ev)"
  shows "set (cand_events c) \<subseteq> set evs \<and> distinct (map eventIdentity (cand_events c)) \<and>
    eventIdentity ` set (cand_events c) =
      eventIdentity ` (\<Union>b \<in> set (cand_bindings c). set (snd b))"
proof -
  let ?env = "make_env h d evs opts"
  obtain s cs t where run: "evaluateNode ?env (pat_root d) s = (Inr cs, t)" and c: "c \<in> set cs"
    using assms(1,3) by (rule evaluation_cases)
  have "binds ?env (set (guaranteed (pat_root d))) c"
    using yieldsD [OF binds.results_evaluateNode [OF assms(2)] run] c by blast
  then have "cand_wf h (env_events ?env) c" by (simp add: binds_def make_env_def)
  from cand_wf_events [OF this] show ?thesis by (simp add: all_bound_def)
qed

text \<open>
  A match that carries decisions of semantic conditions carries only decisions that matched.
\<close>

theorem reported_decisions_matched:
  assumes "evaluatePatternV2 h d evs opts = Inr ev" and "node_ok (pat_root d)"
    and "c \<in> set (ev_matches ev @ ev_pending ev)" and "(i, dec) \<in> set (semanticDecisions c)"
  shows "dec_matched dec"
proof -
  let ?env = "make_env h d evs opts"
  obtain s cs t where run: "evaluateNode ?env (pat_root d) s = (Inr cs, t)" and c: "c \<in> set cs"
    using assms(1,3) by (rule evaluation_cases)
  have "decided (set (guaranteed (pat_root d))) c"
    using yieldsD [OF decided.results_evaluateNode [OF assms(2)] run] c by blast
  then show ?thesis using assms(4) by (auto simp: decided_def)
qed

subsection \<open>Witnesses\<close>

lemma sample_reported: "sample_match \<in> set (ev_matches sample_result @ ev_pending sample_result)"
  by (simp add: sample_run)

lemma sample_pattern_ok: "node_ok (pat_root (sample_pattern 4 sample_root))"
  by (simp add: sample_root_ok)

lemma guaranteed_bindings_bound_witness: "bound (cand_bindings sample_match) ''b'' \<noteq> []"
proof -
  have "''b'' \<in> set (collectGuaranteedPatternBindings (pat_root (sample_pattern 4 sample_root)))"
    unfolding sample_pattern_root by code_simp
  from guaranteed_bindings_bound [OF sample_run(1) sample_pattern_ok sample_reported this] show ?thesis
    by blast
qed

lemma evidence_sound_witness: "set (cand_events sample_match) \<subseteq> set sample_input"
  using evidence_sound [OF sample_run(1) sample_pattern_ok sample_reported] by blast

lemma reported_decisions_matched_witness: "dec_matched sample_decision"
  by (rule reported_decisions_matched [OF sample_run(1) sample_pattern_ok sample_reported, of "''s''"])
    (simp add: sample_match_def)

end
