(* ===== verification/Evaluator_Bounds.thy ===== *)
theory Evaluator_Bounds
  imports Evaluator_Relation Evaluator_Results
begin

text \<open>
  The budgets of an evaluation and what it reports when they run out: the interpretations of
  the context interface, the caps on candidates, and the fail-closed behaviour of the nodes
  that conclude from the absence of events.
\<close>

subsection \<open>Monotone fields\<close>

definition grows :: "ctx \<Rightarrow> ctx \<Rightarrow> bool" where
  "grows s t \<longleftrightarrow> (ctx_truncated s \<longrightarrow> ctx_truncated t) \<and> (ctx_workExhausted s \<longrightarrow> ctx_workExhausted t) \<and>
     (ctx_workExhausted t \<longrightarrow> ctx_workExhausted s \<or> ctx_truncated t) \<and>
     ctx_workSteps s \<le> ctx_workSteps t \<and> ctx_semanticEvaluations s \<le> ctx_semanticEvaluations t \<and>
     prefix (ctx_trace s) (ctx_trace t) \<and> prefix (ctx_incompletePending s) (ctx_incompletePending t)"

interpretation grows: ctx_closure env grows for env
  by unfold_locales (auto simp: grows_def intro: prefix_order.trans)

subsection \<open>Budgets\<close>

definition in_budget :: "env \<Rightarrow> ctx \<Rightarrow> bool" where
  "in_budget env s \<longleftrightarrow> ctx_semanticEvaluations s \<le> env_maxSemanticEvaluations env \<and>
     length (ctx_incompletePending s) \<le> env_maxCandidates env \<and>
     (ctx_workExhausted s \<longrightarrow> ctx_truncated s) \<and>
     (\<not> ctx_workExhausted s \<longrightarrow> ctx_workSteps s \<le> env_maxWorkSteps env)"

interpretation in_budget: ctx_closure env "\<lambda>s t. in_budget env s \<longrightarrow> in_budget env t" for env
  by unfold_locales (auto simp: in_budget_def)

lemma in_budget_initial: "in_budget env (initial_ctx\<lparr>ctx_io := n\<rparr>)"
  by (simp add: in_budget_def initial_ctx_def)

lemma evaluation_run:
  assumes "evaluatePatternV2 h d evs opts = Inr ev" and "\<not> (MAX_EVALUATION_INPUT_EVENTS < length evs \<or> \<not> boundedAst (pat_root d))"
  obtains cs t where
    "evaluateNode (make_env h d evs opts) (pat_root d) (initial_ctx\<lparr>ctx_io := 1\<rparr>) = (Inr cs, t)"
    and "ev = finish_evaluation (make_env h d evs opts) cs t"
  using assms that by (auto simp: evaluatePatternV2_def Let_def split: option.splits prod.splits sum.splits)

lemma finish_reported:
  "length (ev_matches (finish_evaluation env cs s)) + length (ev_pending (finish_evaluation env cs s)) \<le> env_maxCandidates env"
  "distinct (map candidateDedupeKey (ev_matches (finish_evaluation env cs s) @ ev_pending (finish_evaluation env cs s)))"
proof -
  define vals where "vals = take (env_maxCandidates env) (first_by candidateDedupeKey [] cs)"
  have d: "dedupe cs (env_maxCandidates env) = (vals, env_maxCandidates env < length (first_by candidateDedupeKey [] cs))"
    using dedupe_loop_spec [of "[]" "env_maxCandidates env" "[]" cs] by (simp add: dedupe_def vals_def)
  have dist: "distinct (map candidateDedupeKey vals)"
    using first_by_distinct [of candidateDedupeKey "[]" cs] by (simp add: vals_def distinct_take flip: take_map)
  show "length (ev_matches (finish_evaluation env cs s)) + length (ev_pending (finish_evaluation env cs s)) \<le> env_maxCandidates env"
    using sum_length_filter_compl [of "still_pending (env_now env)" vals]
    by (simp add: finish_evaluation_def d vals_def)
  show "distinct (map candidateDedupeKey (ev_matches (finish_evaluation env cs s) @ ev_pending (finish_evaluation env cs s)))"
    using dist by (auto simp: finish_evaluation_def d distinct_map inj_on_def)
qed



subsection \<open>Caps on candidates\<close>

abbreviation capped :: "env \<Rightarrow> candidate list eval \<Rightarrow> bool" where
  "capped env m \<equiv> yields m (\<lambda>cs. length cs \<le> env_maxCandidates env)"

lemma capped_shrink:
  "capped env m \<Longrightarrow> (\<And>cs. yields (f cs) (\<lambda>ys. length ys \<le> length cs)) \<Longrightarrow> capped env (seq m f)"
proof (erule yields_seq)
  fix cs :: "candidate list"
  assume f: "\<And>cs. yields (f cs) (\<lambda>ys. length ys \<le> length cs)" and "length cs \<le> env_maxCandidates env"
  then show "capped env (f cs)" by (intro yields_mono [OF f]) simp
qed

lemma length_filterE: "yields (filterE p xs) (\<lambda>ys. length ys \<le> length xs)"
proof (induction xs)
  case Nil show ?case unfolding filterE.simps by (rule yields_ret) simp
next
  case (Cons x xs)
  show ?case unfolding filterE.simps by (rule yields_seq_any, rule yields_seq [OF Cons.IH], rule yields_ret) auto
qed

lemma length_mapE: "yields (mapE f xs) (\<lambda>ys. length ys \<le> length xs)"
proof (induction xs)
  case Nil show ?case unfolding mapE.simps by (rule yields_ret) simp
next
  case (Cons x xs)
  show ?case unfolding mapE.simps by (rule yields_seq_any, rule yields_seq [OF Cons.IH], rule yields_ret) auto
qed

lemma length_attach: "yields (attachBindingsBounded env cs ref ws) (\<lambda>ys. length ys \<le> length cs)"
  unfolding attachBindingsBounded_def
proof (induction cs)
  case Nil show ?case unfolding attach_loop.simps by (rule yields_ret) simp
next
  case (Cons c cs)
  show ?case
    unfolding attach_loop.simps
    by (intro yields_seq_any yields_if yields_ret yields_seq [OF Cons.IH]) auto
qed

lemma length_event_loop: "length vals \<le> env_maxCandidates env \<Longrightarrow> capped env (event_loop env ref sn vals es)"
proof (induction es arbitrary: sn vals)
  case Nil show ?case unfolding event_loop.simps by (rule yields_ret) (rule Nil)
next
  case (Cons e es)
  show ?case
    unfolding event_loop.simps
    by (intro yields_seq_any yields_if yields_ret Cons.IH) (use Cons.prems in auto)
qed

lemma length_any_inner:
  "length vals \<le> env_maxCandidates env \<Longrightarrow>
   yields (any_inner env sn vals cs) (\<lambda>(stop, sn', vs). length vs \<le> env_maxCandidates env)"
proof (induction cs arbitrary: sn vals)
  case Nil show ?case unfolding any_inner.simps by (rule yields_ret) (use Nil in simp)
next
  case (Cons c cs)
  show ?case
    unfolding any_inner.simps Let_def
    by (intro yields_seq_any yields_if yields_ret Cons.IH) (use Cons.prems in auto)
qed

lemma capped_any: "length vals \<le> env_maxCandidates env \<Longrightarrow> capped env (any_outer env sn vals ms)"
proof (induction ms arbitrary: sn vals)
  case Nil show ?case unfolding any_outer.simps by (rule yields_ret) (rule Nil)
next
  case (Cons m ms)
  show ?case
    unfolding any_outer.simps
    by (rule yields_seq_any, rule yields_if, rule yields_ret, rule Cons.prems, rule yields_seq_any,
      rule yields_seq_triple [OF length_any_inner [OF Cons.prems]])
      (intro yields_if yields_ret yields_seq_any Cons.IH; assumption)
qed

lemma length_join_all:
  "length vals \<le> env_maxCandidates env \<Longrightarrow>
   yields (join_all env sn vals ps) (\<lambda>(t, vs). length vs \<le> env_maxCandidates env)"
proof (induction ps arbitrary: sn vals)
  case Nil show ?case unfolding join_all.simps by (rule yields_ret) (use Nil in simp)
next
  case (Cons p ps)
  obtain l r where p: "p = (l, r)" by (cases p)
  show ?case
    unfolding p join_all.simps Let_def
    by (rule yields_seq_any, rule yields_if, rule yields_ret, use Cons.prems in simp,
      cases "mergeCandidates (env_host env) (env_events env) l r"; simp only: option.case;
      intro yields_if yields_ret Cons.IH; use Cons.prems in auto)
qed

lemma capped_all: "length current \<le> env_maxCandidates env \<Longrightarrow> capped env (all_outer env current ms)"
proof (induction ms arbitrary: current)
  case Nil show ?case unfolding all_outer.simps by (rule yields_ret) (rule Nil)
next
  case (Cons m ms)
  show ?case
    unfolding all_outer.simps
  proof (rule yields_seq_any, rule yields_seq_pair, rule length_join_all)
    show "capped env (seq (truncate_if t) (\<lambda>_. if combined = [] then ret [] else all_outer env combined ms))"
      if "length combined \<le> env_maxCandidates env" for t combined
      by (intro yields_seq_any yields_if yields_ret Cons.IH that) simp
  qed simp
qed

lemma length_seq_inner:
  "length vals \<le> env_maxCandidates env \<Longrightarrow>
   yields (seq_inner env contig left sn vals rs) (\<lambda>(e, sn', vs). length vs \<le> env_maxCandidates env)"
proof (induction rs arbitrary: sn vals)
  case Nil show ?case unfolding seq_inner.simps by (rule yields_ret) (use Nil in simp)
next
  case (Cons r rs)
  show ?case
    unfolding seq_inner.simps Let_def
    by (rule yields_seq_any, rule yields_if, rule yields_ret, use Cons.prems in simp,
      rule yields_if, rule Cons.IH, rule Cons.prems,
      cases "mergeCandidates (env_host env) (env_events env) left r"; simp only: option.case;
      intro yields_if yields_ret Cons.IH; use Cons.prems in auto)
qed

lemma length_seq_join:
  "length vals \<le> env_maxCandidates env \<Longrightarrow>
   yields (seq_join env contig rs sn vals ls) (\<lambda>(t, vs). length vs \<le> env_maxCandidates env)"
proof (induction ls arbitrary: sn vals)
  case Nil show ?case unfolding seq_join.simps by (rule yields_ret) (use Nil in simp)
next
  case (Cons l ls)
  show ?case
    unfolding seq_join.simps
    by (rule yields_seq_triple [OF length_seq_inner [OF Cons.prems]])
      (auto split: join_end.split intro: yields_ret Cons.IH)
qed

lemma capped_seq: "length current \<le> env_maxCandidates env \<Longrightarrow> capped env (seq_outer env contig current ms)"
proof (induction ms arbitrary: current)
  case Nil show ?case unfolding seq_outer.simps by (rule yields_ret) (rule Nil)
next
  case (Cons p ms)
  obtain pref m where p: "p = (pref, m)" by (cases p)
  show ?case
    unfolding p seq_outer.simps
  proof (rule yields_seq_any, rule yields_seq_pair, rule length_seq_join)
    show "capped env (seq (truncate_if t) (\<lambda>_. if combined = [] then ret [] else seq_outer env contig combined ms))"
      if "length combined \<le> env_maxCandidates env" for t combined
      by (intro yields_seq_any yields_if yields_ret Cons.IH that) simp
  qed simp
qed

lemma length_dedupe: "dedupe cs cap = (vals, t) \<Longrightarrow> length vals \<le> cap"
  using dedupe_loop_spec [of "[]" cap "[]" cs] by (auto simp: dedupe_def)

lemma capped_repeat: "capped env (eval_repeat env mn mx md contig child)"
proof -
  have w: "capped env (\<lambda>s. case rep_walk fuel env mn lim contig units 0 emptyCandidate 0 (s, r0) of
      (Inl e, (s', r)) \<Rightarrow> (Inl e, s')
    | (Inr _, (s', r)) \<Rightarrow>
        (case dedupe (map fst (sort_by (output_cmp md) (rep_output r))) (env_maxCandidates env) of
           (vals, t) \<Rightarrow> seq (truncate_if t) (\<lambda>_. ret vals) s'))" for fuel lim units r0
    by (rule yieldsI) (auto simp: seq_eq_Inr_iff dest: length_dedupe split: prod.splits sum.splits)
  show ?thesis
    unfolding eval_repeat_def Let_def by (intro yields_seq_any yields_if yields_ret w) auto
qed

lemma length_unblocked: "yields (unblocked env blocks finish fs out bases) (\<lambda>ys. length ys \<le> length out + length bases)"
proof (induction bases arbitrary: out)
  case Nil show ?case unfolding unblocked.simps by (rule yields_ret) simp
next
  case (Cons b bases)
  have skip: "yields (unblocked env blocks finish fs out bases) (\<lambda>ys. length ys \<le> length out + length (b # bases))"
    by (rule yields_mono [OF Cons.IH]) simp
  have pass: "yields (unblocked env blocks finish fs (out @ [c]) bases) (\<lambda>ys. length ys \<le> length out + length (b # bases))" for c
    by (rule yields_mono [OF Cons.IH]) simp
  show ?case
    unfolding unblocked.simps
    by (rule yields_seq_any) (auto split: option.split bool.split intro!: yields_seq_any pass [simplified] skip [simplified] yields_ret)
qed

lemma capped_unblocked:
  "length cs \<le> env_maxCandidates env \<Longrightarrow> capped env (unblocked env blocks finish fs [] cs)"
  by (rule yields_mono [OF length_unblocked]) simp

lemma capped_defer: "capped env (defer_all env entry mk child)"
  by (rule yields_mono [OF yields_defer_all]) simp

lemma capped_negation:
  assumes "capped env child"
  shows "capped env (eval_notPresent env ref child)" and "capped env (eval_absence env s child)"
    and "capped env (eval_notNext env inc child forbidden)" and "capped env (eval_notFollowedBy env inc ms child forbidden)"
proof -
  have fin: "capped env (seq is_truncated (\<lambda>t. if t then ret [] else unblocked env blocks finish fs [] cs))"
    if "length cs \<le> env_maxCandidates env" for cs fs and blocks :: "candidate \<Rightarrow> js_error + ('x \<Rightarrow> bool) option" and finish
    by (intro yields_seq_any yields_if yields_ret capped_unblocked that) simp
  show "capped env (eval_notPresent env ref child)"
    unfolding eval_notPresent_def by (intro yields_if capped_defer, rule yields_seq_any, rule yields_seq [OF assms], rule fin)
  show "capped env (eval_absence env s child)"
    unfolding eval_absence_def by (intro yields_if capped_defer, rule yields_seq [OF assms], rule yields_seq_any, rule fin)
  show "capped env (eval_notNext env inc child forbidden)"
    unfolding eval_notNext_def by (intro yields_if capped_defer, rule yields_seq [OF assms], rule yields_seq_any, rule fin)
  show "capped env (eval_notFollowedBy env inc ms child forbidden)"
    unfolding eval_notFollowedBy_def by (intro yields_if capped_defer, rule yields_seq [OF assms], rule yields_seq_any, rule fin)
qed

lemma length_semantic: "yields (semantic_loop env s out cs) (\<lambda>ys. length ys \<le> length out + length cs)"
proof (induction cs arbitrary: out)
  case Nil show ?case unfolding semantic_loop.simps by (rule yields_ret) simp
next
  case (Cons c cs)
  have skip: "yields (semantic_loop env s out cs) (\<lambda>ys. length ys \<le> length out + length (c # cs))"
    by (rule yields_mono [OF Cons.IH]) simp
  have pass: "yields (semantic_loop env s (out @ [c']) cs) (\<lambda>ys. length ys \<le> length out + length (c # cs))" for c'
    by (rule yields_mono [OF Cons.IH]) simp
  have decided: "yields (case d of None \<Rightarrow> semantic_loop env s out cs
      | Some d \<Rightarrow> seq (modS (f d)) (\<lambda>_. if dec_matched d then semantic_loop env s (out @ [c' d]) cs
            else semantic_loop env s out cs)) (\<lambda>ys. length ys \<le> length out + length (c # cs))" for d f c'
    by (cases d) (simp_all only: option.case, rule skip, intro yields_seq_any yields_if pass skip)
  show ?case
  proof (cases "env_evaluator env")
    case None
    show ?thesis unfolding semantic_loop.simps None option.case by (intro yields_if skip yields_throw)
  next
    case (Some ev)
    show ?thesis
      unfolding semantic_loop.simps Some option.case Let_def by (rule yields_seq_any, rule yields_seq_any, rule decided)
  qed
qed

lemma length_compare: "yields (compare_loop env s cost cs) (\<lambda>ys. length ys \<le> length cs)"
proof (induction cs)
  case Nil show ?case unfolding compare_loop.simps by (rule yields_ret) simp
next
  case (Cons c cs)
  show ?case
    unfolding compare_loop.simps by (intro yields_seq_any yields_if yields_ret yields_seq [OF Cons.IH]) auto
qed

lemma capped_filters:
  assumes "capped env child"
  shows "capped env (eval_window env w child)" and "capped env (eval_calendar env s1 child)"
    and "capped env (eval_after env ref aref child)" and "capped env (eval_until env ref bref child)"
    and "capped env (eval_aggregate env s2 nop v child)" and "capped env (eval_state env s3 child)"
    and "capped env (eval_compare env s4 child)" and "capped env (eval_semantic env s5 child)"
  unfolding eval_window_def eval_calendar_def eval_after_def eval_until_def eval_aggregate_def eval_state_def
    eval_compare_def eval_semantic_def
  by (rule capped_shrink [OF assms]; (rule length_filterE length_compare | (rule yields_ret, simp)
    | (rule yields_mono [OF length_semantic], simp)))+

lemma capped_counts:
  assumes "capped env child"
  shows "capped env (eval_threshold env ref need child)" and "capped env (eval_distinct env ref path need child)"
    and "capped env (eval_rate env ref need ms child)" and "capped env (eval_debounce env ref ms child)"
proof -
  have a: "capped env (seq child (\<lambda>cs. attachBindingsBounded env cs ref' ws))" for ref' ws
    by (rule capped_shrink [OF assms length_attach])
  have d: "capped env (seq child (\<lambda>cs. seq (attachBindingsBounded env cs ref' ws) (mapE f)))" for ref' ws f
    using capped_shrink [OF a length_mapE] by (simp add: seq_assoc)
  show "capped env (eval_threshold env ref need child)"
    unfolding eval_threshold_def by (intro yields_seq_any yields_if yields_ret a) simp
  show "capped env (eval_distinct env ref path need child)"
    unfolding eval_distinct_def by (rule yields_seq_any) (auto intro!: yields_if yields_ret a split: prod.split)
  show "capped env (eval_rate env ref need ms child)"
    unfolding eval_rate_def Let_def by (intro yields_seq_any yields_if yields_ret a) simp_all
  show "capped env (eval_debounce env ref ms child)"
    unfolding eval_debounce_def Let_def by (rule yields_seq_any) (auto intro!: yields_ret d split: option.split)
qed

lemma capped_enter: "capped env body \<Longrightarrow> capped env (enter_node env body)"
  unfolding enter_node_def by (intro yields_seq_any yields_if yields_ret) auto

lemma capped_optional: "capped env (eval_optional env md child)"
  unfolding eval_optional_def
  by (rule yields_seq_any) (auto split: prod.split dest: length_dedupe intro!: yields_seq_any yields_ret)

lemma evaluateNode_capped: "1 \<le> env_maxCandidates env \<Longrightarrow> capped env (evaluateNode env n)"
proof (induction n)
  case (EventN ref)
  show ?case unfolding evaluateNode.simps eval_event_def
    by (intro capped_enter yields_seq_any length_event_loop) simp
next
  case (SequenceN cs ct)
  show ?case
  proof (cases cs)
    case Nil
    then show ?thesis
      unfolding evaluateNode.simps eval_sequence_def by (intro capped_enter) (simp add: yields_def)
  next
    case (Cons c cs')
    have c: "capped env (evaluateNode env c)" using SequenceN Cons by simp
    show ?thesis
      unfolding evaluateNode.simps eval_sequence_def Cons list.map zip_Cons_Cons list.case prod.case
      by (intro capped_enter yields_seq [OF c] capped_seq)
  qed
qed (auto intro!: capped_enter capped_any capped_all capped_repeat capped_optional capped_filters capped_counts
  capped_negation)

subsection \<open>The fuel of a repetition\<close>

lemma rep_walk_fuel:
  "max_search_depth < fuel + cnt \<Longrightarrow> 0 < fuel \<Longrightarrow>
   rep_walk (fuel + k) env mn mx contig units start selected cnt = rep_walk fuel env mn mx contig units start selected cnt"
proof (induction fuel arbitrary: start selected cnt)
  case (Suc fuel)
  show ?case
  proof (cases "max_search_depth \<le> cnt")
    case True
    then show ?thesis by (simp add: add_Suc cong: if_cong)
  next
    case False
    have "rep_walk (fuel + k) env mn mx contig units i merged (cnt + 1) =
        rep_walk fuel env mn mx contig units i merged (cnt + 1)" for i merged
      using False Suc.prems by (intro Suc.IH) simp_all
    then show ?thesis by (simp only: add_Suc rep_walk.simps)
  qed
qed simp

text \<open>
  C36: the search of a repetition never runs out of fuel: with any more of it the walk from the
  start is the same computation, since it does not go deeper than 256 units.
\<close>

theorem repeat_fuel_enough:
  "rep_walk (max_search_depth + 1 + k) env mn mx contig units start selected 0 =
   rep_walk (max_search_depth + 1) env mn mx contig units start selected 0"
  by (rule rep_walk_fuel) simp_all

end
