(* ===== verification/Evaluator_Negation.thy ===== *)
theory Evaluator_Negation
  imports Evaluator_Bounds
begin

text \<open>
  The nodes that conclude from the absence of events. They are fail-closed: a run that was
  truncated anywhere, or that lacks a source which could have delivered a forbidden event,
  reports no match for them.
\<close>

text \<open>The sources that have to be complete for a node to conclude an absence.\<close>

fun concludes_absence :: "pattern_node \<Rightarrow> bool" where
  "concludes_absence (NotPresent c ref) = True"
| "concludes_absence (AbsenceN s c) = True"
| "concludes_absence (NotNext c f) = True"
| "concludes_absence (NotFollowedBy i c f ms) = True"
| "concludes_absence _ = False"

fun lacks_source :: "env \<Rightarrow> pattern_node \<Rightarrow> bool" where
  "lacks_source env (NotPresent c ref) = (ref \<in> set (env_incomplete env))"
| "lacks_source env (AbsenceN s c) = (abs_ref s \<in> set (env_incomplete env))"
| "lacks_source env (NotNext c f) = forbiddenNeedsIncompleteSource env f"
| "lacks_source env (NotFollowedBy i c f ms) = forbiddenNeedsIncompleteSource env f"
| "lacks_source env _ = False"

subsection \<open>Loops\<close>

lemma consumeWork_cases:
  obtains (granted) t where "consumeWork env k s = (Inr True, t)" and "ctx_truncated t = ctx_truncated s"
  | (denied) t where "consumeWork env k s = (Inr False, t)" and "ctx_workExhausted s \<Longrightarrow> t = s"
      and "\<not> ctx_workExhausted s \<Longrightarrow> ctx_truncated t"
  by (cases "ctx_workExhausted s"; cases "ctx_workSteps s + k \<le> env_maxWorkSteps env")
    (auto simp: consumeWork_def)

lemma blocked_by_truncated:
  "blocked_by env f fs s = (Inr (Some b), t) \<Longrightarrow> ctx_truncated t = ctx_truncated s"
proof (induction fs arbitrary: s)
  case (Cons x fs)
  show ?case
  proof (cases rule: consumeWork_cases [of env "Suc 0" s])
    case (granted s')
    then show ?thesis using Cons by (auto simp: seq_eq_Inr_iff split: if_splits)
  next
    case (denied s')
    then show ?thesis using Cons.prems by (auto simp: seq_eq_Inr_iff)
  qed
qed auto

lemma is_truncated_iff [simp]: "is_truncated s = (Inr x, t) \<longleftrightarrow> x = ctx_truncated s \<and> t = s"
  by (auto simp: is_truncated_def)

lemma unblocked_truncated:
  "unblocked env blocks finish fs out bases s = (Inr cs, t) \<Longrightarrow> \<not> ctx_truncated s \<Longrightarrow> ctx_truncated t \<Longrightarrow> cs = []"
proof (induction bases arbitrary: out s)
  case (Cons b bases)
  consider (skip) "unblocked env blocks finish fs out bases s = (Inr cs, t)"
    | (block) f where "seq (blocked_by env f fs) (\<lambda>r. case r of None \<Rightarrow> ret []
         | Some True \<Rightarrow> unblocked env blocks finish fs out bases
         | Some False \<Rightarrow> seq (liftE (finish b)) (\<lambda>c. unblocked env blocks finish fs (out @ [c]) bases)) s = (Inr cs, t)"
  proof (cases "blocks b")
    case (Inl e)
    then show ?thesis using Cons.prems(1) by simp
  next
    case (Inr x)
    then show ?thesis using Cons.prems(1) skip block by (cases x) simp_all
  qed
  then show ?case
  proof cases
    case skip
    then show ?thesis using Cons by blast
  next
    case (block f)
    then obtain r s1 where r: "blocked_by env f fs s = (Inr r, s1)"
      and go: "(case r of None \<Rightarrow> ret []
         | Some True \<Rightarrow> unblocked env blocks finish fs out bases
         | Some False \<Rightarrow> seq (liftE (finish b)) (\<lambda>c. unblocked env blocks finish fs (out @ [c]) bases)) s1 = (Inr cs, t)"
      by (auto simp: seq_eq_Inr_iff)
    show ?thesis
    proof (cases r)
      case None
      then show ?thesis using go by simp
    next
      case (Some x)
      then have "\<not> ctx_truncated s1" using blocked_by_truncated [of env f fs s x s1] r Cons.prems by simp
      then show ?thesis
        using go Some Cons.IH Cons.prems(3) by (cases x) (auto simp: seq_eq_Inr_iff)
    qed
  qed
qed auto

lemma defer_all_end:
  "defer_all env entry mk child s = (Inr cs, t) \<Longrightarrow> cs = [] \<and> ctx_truncated t"
  by (auto simp: defer_all_def seq_eq_Inr_iff set_truncated_def split: if_splits)

lemma enter_node_end:
  assumes "enter_node env body s = (Inr cs, t)" and "ctx_workExhausted s \<longrightarrow> ctx_truncated s"
  obtains "cs = []" and "ctx_truncated t" | u where "body u = (Inr cs, t)" and "ctx_truncated u = ctx_truncated s"
proof (cases rule: consumeWork_cases [of env 1 s])
  case (granted u)
  then show ?thesis using assms(1) that(2) [of u] by (simp add: enter_node_def)
next
  case (denied u)
  then have "cs = []" "t = u" using assms(1) by (auto simp: enter_node_def seq_eq_Inr_iff)
  then show ?thesis using denied assms(2) by (cases "ctx_workExhausted s") (auto intro: that(1))
qed

subsection \<open>Nodes\<close>

lemma negation_truncated:
  assumes "concludes_absence n" and "evaluateNode env n s = (Inr cs, t)" and "ctx_truncated t"
    and "ctx_workExhausted s \<longrightarrow> ctx_truncated s"
  shows "cs = []"
  using assms(1,2,3)
  by (cases n)
    (auto elim!: enter_node_end [OF _ assms(4)] dest: unblocked_truncated defer_all_end
      simp: eval_notPresent_def eval_absence_def eval_notNext_def eval_notFollowedBy_def seq_eq_Inr_iff
      split: if_splits)

lemma negation_incomplete:
  assumes "lacks_source env n" and "evaluateNode env n s = (Inr cs, t)"
    and "ctx_workExhausted s \<longrightarrow> ctx_truncated s"
  shows "cs = [] \<and> ctx_truncated t"
  using assms(1,2)
  by (cases n)
    (auto elim!: enter_node_end [OF _ assms(3)] dest: defer_all_end
      simp: eval_notPresent_def eval_absence_def eval_notNext_def eval_notFollowedBy_def)

subsection \<open>Evaluations\<close>

lemma length_first_by: "length (first_by k sn xs) \<le> length xs"
  by (induction xs arbitrary: sn) (auto intro: le_SucI)

text \<open>The cap at the end drops nothing, since every node keeps to it.\<close>

lemma finish_truncated:
  assumes "evaluateNode (make_env h d evs opts) (pat_root d) s = (Inr cs, t)" and "1 \<le> ex_maxCandidates (pat_execution d)"
  shows "ev_truncated (finish_evaluation (make_env h d evs opts) cs t) = ctx_truncated t"
proof -
  let ?env = "make_env h d evs opts"
  have "1 \<le> env_maxCandidates ?env" using assms(2) by (simp add: make_env_def)
  from yieldsD [OF evaluateNode_capped [OF this] assms(1)]
  have "length cs \<le> env_maxCandidates ?env" .
  then have "\<not> env_maxCandidates ?env < length (first_by candidateDedupeKey [] cs)"
    using length_first_by [of candidateDedupeKey "[]" cs] by linarith
  then show ?thesis
    using dedupe_loop_spec [of "[]" "env_maxCandidates ?env" "[]" cs] by (simp add: finish_evaluation_def dedupe_def)
qed

lemma finish_empty: "ev_matches (finish_evaluation env [] t) = [] \<and> ev_pending (finish_evaluation env [] t) = []"
  by (simp add: finish_evaluation_def dedupe_def)


text \<open>While a source of a forbidden event is incomplete, an evaluation reports nothing and says so.\<close>

lemma negation_evaluation:
  assumes "evaluatePatternV2 h d evs opts = Inr ev" and "lacks_source (make_env h d evs opts) (pat_root d)"
  shows "ev_matches ev = [] \<and> ev_pending ev = [] \<and> ev_truncated ev"
proof (cases "MAX_EVALUATION_INPUT_EVENTS < length evs \<or> \<not> boundedAst (pat_root d)")
  case True
  then show ?thesis using assms(1) by (auto simp: evaluatePatternV2_def Let_def split: option.splits)
next
  case False
  let ?env = "make_env h d evs opts"
  obtain cs t where run: "evaluateNode ?env (pat_root d) (initial_ctx\<lparr>ctx_io := 1\<rparr>) = (Inr cs, t)"
    and ev: "ev = finish_evaluation ?env cs t"
    using assms(1) False by (rule evaluation_run)
  have "cs = [] \<and> ctx_truncated t" using negation_incomplete [OF assms(2) run] by (simp add: initial_ctx_def)
  then show ?thesis using finish_empty [of ?env t] by (simp add: ev) (simp add: finish_evaluation_def split: prod.split)
qed

text \<open>A negation whose forbidden source is incomplete.\<close>

definition sample_gap_options :: eval_options where
  "sample_gap_options = sample_options\<lparr>opt_incomplete := [''b'']\<rparr>"

definition sample_negation :: pattern_definition where
  "sample_negation = sample_pattern 4 (NotPresent (EventN ''a'') ''b'')"

lemma sample_negation_run:
  obtains ev where "evaluatePatternV2 sample_host sample_negation sample_input sample_gap_options = Inr ev"
    and "ev_truncated ev"
proof -
  have opts: "options_error sample_gap_options = None" by code_simp
  have ast: "boundedAst (NotPresent (EventN ''a'') ''b'')" by code_simp
  have small: "\<not> MAX_EVALUATION_INPUT_EVENTS < length sample_input"
    by (simp add: MAX_EVALUATION_INPUT_EVENTS_def sample_input_def)
  let ?env = "make_env sample_host sample_negation sample_input sample_gap_options"
  have env: "?env = (sample_env 4096)\<lparr>env_incomplete := [''b'']\<rparr>"
    by (simp add: make_env_def sample_gap_options_def sample_options_def sample_negation_def sample_pattern_def
      sample_execution_def sample_env_def sample_input_sorted max_work_steps_def MAX_EVALUATION_WORK_STEPS_def)
  have "\<exists>cs t. evaluateNode ?env (NotPresent (EventN ''a'') ''b'') (initial_ctx\<lparr>ctx_io := 1\<rparr>) = (Inr cs, t)"
    unfolding env
    by (simp add: enter_node_def consumeWork_def sample_env_def initial_ctx_def eval_notPresent_def defer_all_def
      eval_event_def eventsForRef_def events_by_ref_def sample_input_def seq_def Let_def break_if_empty_def
      is_truncated_def set_truncated_def last_occurredAt_def cong: if_cong split: if_splits)
  then obtain cs t where run: "evaluateNode ?env (NotPresent (EventN ''a'') ''b'') (initial_ctx\<lparr>ctx_io := 1\<rparr>) = (Inr cs, t)"
    by blast
  have "lacks_source ?env (NotPresent (EventN ''a'') ''b'')" by (simp add: env)
  then have "ctx_truncated t" using negation_incomplete [OF _ run] by (simp add: initial_ctx_def)
  then have "ev_truncated (finish_evaluation ?env cs t)" by (simp add: finish_evaluation_def split: prod.split)
  moreover have "evaluatePatternV2 sample_host sample_negation sample_input sample_gap_options =
      Inr (finish_evaluation ?env cs t)"
    using opts ast small run by (simp add: evaluatePatternV2_def Let_def sample_negation_def)
  ultimately show thesis using that by blast
qed


end
