(* ===== verification/Delivery_Gap.thy ===== *)
theory Delivery_Gap
  imports Trigger_Definition Evaluator_Negation
begin

text \<open>
  \<open>src/composite/deliveryGap.ts\<close> and \<open>gapFingerprint.ts\<close>: which clauses of a trigger lack a
  complete source, as far as a conclusion from absence depends on them, and the fingerprint of
  the delivery states that fences the commit of a match.
\<close>

subsection \<open>State\<close>

record gap_state =
  gs_connectionId :: string
  gs_serverId :: string
  gs_eventName :: string
  gs_arguments :: "jobj option"
  gs_truncated :: "bool option"
  gs_gapUnresolved :: "bool option"
  gs_completenessRevision :: "nat option"

text \<open>\<open>left ?? {}\<close>, in canonical form.\<close>

definition canonical_arguments :: "jobj option \<Rightarrow> json" where
  "canonical_arguments a = stableValue (JObj (case a of None \<Rightarrow> [] | Some kvs \<Rightarrow> kvs))"

definition sameSourceArguments :: "jobj option \<Rightarrow> jobj option \<Rightarrow> bool" where
  "sameSourceArguments left right \<longleftrightarrow>
     stringify (canonical_arguments left) = stringify (canonical_arguments right)"

subsection \<open>Sources of forbidden events\<close>

text \<open>
  The references of a forbidden branch: every \<open>ref\<close> and \<open>afterRef\<close> property of a node. The
  order in which the sets are filled plays no role.
\<close>

primrec branch_refs :: "pattern_node \<Rightarrow> string list" where
  "branch_refs (EventN ref) = [ref]"
| "branch_refs (AllOf cs) = concat (map branch_refs cs)"
| "branch_refs (AnyOf cs) = concat (map branch_refs cs)"
| "branch_refs (SequenceN cs ct) = concat (map branch_refs cs)"
| "branch_refs (RepeatN c mn mx md ct) = branch_refs c"
| "branch_refs (OptionalN c md) = branch_refs c"
| "branch_refs (NotNext c f) = branch_refs c @ branch_refs f"
| "branch_refs (NotFollowedBy i c f ms) = branch_refs c @ branch_refs f"
| "branch_refs (WindowN w c) = branch_refs c"
| "branch_refs (CalendarN s c) = cal_ref s # branch_refs c"
| "branch_refs (AbsenceN s c) = abs_ref s # abs_afterRef s # branch_refs c"
| "branch_refs (NotPresent c ref) = ref # branch_refs c"
| "branch_refs (AfterN c ref aref) = ref # aref # branch_refs c"
| "branch_refs (UntilN c ref bref) = ref # branch_refs c"
| "branch_refs (DebounceN i c ref ms) = ref # branch_refs c"
| "branch_refs (ThresholdN c ref k) = ref # branch_refs c"
| "branch_refs (RateN c ref k ms) = ref # branch_refs c"
| "branch_refs (DistinctN c ref path k) = ref # branch_refs c"
| "branch_refs (CompareN s c) = branch_refs c"
| "branch_refs (AggregateN s op v c) = agg_ref s # branch_refs c"
| "branch_refs (StateN s c) = st_ref s # branch_refs c"
| "branch_refs (SemanticN s c) = branch_refs c"

primrec negative_visits :: "pattern_node \<Rightarrow> string list" where
  "negative_visits (EventN ref) = []"
| "negative_visits (AllOf cs) = concat (map negative_visits cs)"
| "negative_visits (AnyOf cs) = concat (map negative_visits cs)"
| "negative_visits (SequenceN cs ct) = concat (map negative_visits cs)"
| "negative_visits (RepeatN c mn mx md ct) = negative_visits c"
| "negative_visits (OptionalN c md) = negative_visits c"
| "negative_visits (NotNext c f) = branch_refs f @ negative_visits c @ negative_visits f"
| "negative_visits (NotFollowedBy i c f ms) = branch_refs f @ negative_visits c @ negative_visits f"
| "negative_visits (WindowN w c) = negative_visits c"
| "negative_visits (CalendarN s c) = negative_visits c"
| "negative_visits (AbsenceN s c) = abs_ref s # negative_visits c"
| "negative_visits (NotPresent c ref) = ref # negative_visits c"
| "negative_visits (AfterN c ref aref) = negative_visits c"
| "negative_visits (UntilN c ref bref) = negative_visits c"
| "negative_visits (DebounceN i c ref ms) = negative_visits c"
| "negative_visits (ThresholdN c ref k) = negative_visits c"
| "negative_visits (RateN c ref k ms) = negative_visits c"
| "negative_visits (DistinctN c ref path k) = negative_visits c"
| "negative_visits (CompareN s c) = negative_visits c"
| "negative_visits (AggregateN s op v c) = negative_visits c"
| "negative_visits (StateN s c) = negative_visits c"
| "negative_visits (SemanticN s c) = negative_visits c"

definition negativeForbiddenSourceRefs :: "pattern_node \<Rightarrow> string list" where
  "negativeForbiddenSourceRefs node = uniq (negative_visits node)"

subsection \<open>Gaps\<close>

definition gap_open :: "gap_state \<Rightarrow> bool" where
  "gap_open s \<longleftrightarrow> gs_gapUnresolved s = Some True \<or> gs_truncated s = Some True"

definition clauseMatchesGap :: "trigger_clause \<Rightarrow> gap_state \<Rightarrow> bool" where
  "clauseMatchesGap c g \<longleftrightarrow> clause_event c = gs_eventName g \<and>
     (\<not> truthy_str (clause_serverId c) \<or> clause_serverId c = Some (gs_serverId g)) \<and>
     sameSourceArguments (Some (clause_arguments c)) (gs_arguments g)"

definition incompleteNegativeRefs :: "trigger_definition \<Rightarrow> gap_state list \<Rightarrow> string list \<Rightarrow> string list" where
  "incompleteNegativeRefs d states connectionIds =
     (let negative = negativeForbiddenSourceRefs (pat_root (td_pattern d)) in
      if negative = [] then []
      else uniq (map clause_id (filter (\<lambda>c. clause_id c \<in> set negative \<and>
        list_ex (\<lambda>s. gap_open s \<and> (connectionIds = [] \<or> gs_connectionId s \<in> set connectionIds) \<and>
          clauseMatchesGap c s) states) (td_clauses d))))"

definition MAX_SCOPE_MCP_STATES :: nat where
  "MAX_SCOPE_MCP_STATES = 16384"

definition gap_element :: "gap_state \<Rightarrow> json" where
  "gap_element s = JArr [JStr (gs_connectionId s), JStr (gs_serverId s), JStr (gs_eventName s),
     canonical_arguments (gs_arguments s), JBool (gap_open s),
     JNum (num_of_int (case gs_completenessRevision s of None \<Rightarrow> 0 | Some n \<Rightarrow> int n))]"

definition mcpGapSnapshot :: "gap_state list \<Rightarrow> js_error + string" where
  "mcpGapSnapshot states =
     (if MAX_SCOPE_MCP_STATES < length states
      then Inl (JsError KError None ''MCP delivery state exceeds bounded gap snapshot capacity'')
      else Inr (stringify (JArr (map JStr
        (sort_by str_cmp (map (\<lambda>s. stringify (gap_element s)) states))))))"

subsection \<open>The projected sources are enough\<close>

text \<open>
  The engine hands the evaluator only the clauses of \<open>incompleteNegativeRefs\<close>. That loses
  nothing: what a node of the pattern needs to conclude an absence is among the sources the
  projection keeps.
\<close>

primrec pattern_nodes :: "pattern_node \<Rightarrow> pattern_node list" where
  "pattern_nodes (EventN ref) = [EventN ref]"
| "pattern_nodes (AllOf cs) = AllOf cs # concat (map pattern_nodes cs)"
| "pattern_nodes (AnyOf cs) = AnyOf cs # concat (map pattern_nodes cs)"
| "pattern_nodes (SequenceN cs ct) = SequenceN cs ct # concat (map pattern_nodes cs)"
| "pattern_nodes (RepeatN c mn mx md ct) = RepeatN c mn mx md ct # pattern_nodes c"
| "pattern_nodes (OptionalN c md) = OptionalN c md # pattern_nodes c"
| "pattern_nodes (NotNext c f) = NotNext c f # pattern_nodes c @ pattern_nodes f"
| "pattern_nodes (NotFollowedBy i c f ms) = NotFollowedBy i c f ms # pattern_nodes c @ pattern_nodes f"
| "pattern_nodes (WindowN w c) = WindowN w c # pattern_nodes c"
| "pattern_nodes (CalendarN s c) = CalendarN s c # pattern_nodes c"
| "pattern_nodes (AbsenceN s c) = AbsenceN s c # pattern_nodes c"
| "pattern_nodes (NotPresent c ref) = NotPresent c ref # pattern_nodes c"
| "pattern_nodes (AfterN c ref aref) = AfterN c ref aref # pattern_nodes c"
| "pattern_nodes (UntilN c ref bref) = UntilN c ref bref # pattern_nodes c"
| "pattern_nodes (DebounceN i c ref ms) = DebounceN i c ref ms # pattern_nodes c"
| "pattern_nodes (ThresholdN c ref k) = ThresholdN c ref k # pattern_nodes c"
| "pattern_nodes (RateN c ref k ms) = RateN c ref k ms # pattern_nodes c"
| "pattern_nodes (DistinctN c ref path k) = DistinctN c ref path k # pattern_nodes c"
| "pattern_nodes (CompareN s c) = CompareN s c # pattern_nodes c"
| "pattern_nodes (AggregateN s op v c) = AggregateN s op v c # pattern_nodes c"
| "pattern_nodes (StateN s c) = StateN s c # pattern_nodes c"
| "pattern_nodes (SemanticN s c) = SemanticN s c # pattern_nodes c"

lemma pattern_nodes_self: "n \<in> set (pattern_nodes n)"
  by (cases n) auto

lemma mentions_restrict:
  "set (branch_refs n) \<subseteq> N \<Longrightarrow> mentions_incomplete (filter (\<lambda>r. r \<in> N) inc) n = mentions_incomplete inc n"
proof (induction n)
  case (AllOf cs)
  then show ?case by (fastforce simp: list_ex_iff)
next
  case (AnyOf cs)
  then show ?case by (fastforce simp: list_ex_iff)
next
  case (SequenceN cs ct)
  then show ?case by (fastforce simp: list_ex_iff)
qed auto

lemma mentions_Nil: "\<not> mentions_incomplete [] n"
  by (induction n) (auto simp: list_ex_iff)

lemma mentions_mono: "mentions_incomplete inc n \<Longrightarrow> set inc \<subseteq> set jnc \<Longrightarrow> mentions_incomplete jnc n"
  by (induction n) (auto simp: list_ex_iff)

definition absence_refs :: "pattern_node \<Rightarrow> string list" where
  "absence_refs n = (case n of NotPresent c ref \<Rightarrow> [ref] | AbsenceN s c \<Rightarrow> [abs_ref s]
     | NotNext c f \<Rightarrow> branch_refs f | NotFollowedBy i c f ms \<Rightarrow> branch_refs f | _ \<Rightarrow> [])"

lemma absence_refs_visited: "m \<in> set (pattern_nodes n) \<Longrightarrow> set (absence_refs m) \<subseteq> set (negative_visits n)"
proof (induction n)
  case (AllOf cs)
  then show ?case by (fastforce simp: absence_refs_def)
next
  case (AnyOf cs)
  then show ?case by (fastforce simp: absence_refs_def)
next
  case (SequenceN cs ct)
  then show ?case by (fastforce simp: absence_refs_def)
qed (auto simp: absence_refs_def)

lemma forbidden_iff: "forbiddenNeedsIncompleteSource env f = mentions_incomplete (env_incomplete env) f"
  using mentions_Nil by (auto simp: forbiddenNeedsIncompleteSource_def)

text \<open>
  C39: for every node of a pattern, restricting the incomplete sources to the references of its
  forbidden events does not change whether the node lacks a source.
\<close>

theorem negative_refs_sufficient:
  assumes "n \<in> set (pattern_nodes (pat_root d))"
  shows "lacks_source (env\<lparr>env_incomplete := filter (\<lambda>r. r \<in> set (negativeForbiddenSourceRefs (pat_root d))) inc\<rparr>) n =
    lacks_source (env\<lparr>env_incomplete := inc\<rparr>) n"
proof -
  have "set (absence_refs n) \<subseteq> set (negativeForbiddenSourceRefs (pat_root d))"
    using absence_refs_visited [OF assms] by (simp add: negativeForbiddenSourceRefs_def)
  then show ?thesis
    by (cases n) (simp_all add: absence_refs_def forbidden_iff mentions_restrict)
qed

lemma negative_refs_sufficient_witness:
  "lacks_source ((sample_env 9)\<lparr>env_incomplete := filter (\<lambda>r. r \<in> set (negativeForbiddenSourceRefs (pat_root sample_negation))) [''b'']\<rparr>)
     (NotPresent (EventN ''a'') ''b'')"
proof -
  have "NotPresent (EventN ''a'') ''b'' \<in> set (pattern_nodes (pat_root sample_negation))"
    by (simp add: sample_negation_def sample_pattern_def)
  from negative_refs_sufficient [OF this, where env = "sample_env 9" and inc = "[''b'']"] show ?thesis by simp
qed

subsection \<open>A gap silences a negation\<close>

lemma incompleteNegativeRefs_iff:
  "r \<in> set (incompleteNegativeRefs d states conns) \<longleftrightarrow>
     r \<in> set (negative_visits (pat_root (td_pattern d))) \<and>
     (\<exists>c \<in> set (td_clauses d). \<exists>s \<in> set states. clause_id c = r \<and> gap_open s \<and>
        (conns = [] \<or> gs_connectionId s \<in> set conns) \<and> clauseMatchesGap c s)"
proof -
  have "negativeForbiddenSourceRefs (pat_root (td_pattern d)) = [] \<longleftrightarrow> negative_visits (pat_root (td_pattern d)) = []"
    by (metis negativeForbiddenSourceRefs_def set_empty set_uniq)
  then show ?thesis
    by (auto simp: incompleteNegativeRefs_def negativeForbiddenSourceRefs_def Let_def list_ex_iff)
qed

text \<open>The sources a node has to know completely, one at a time.\<close>

definition needs_source :: "pattern_node \<Rightarrow> string \<Rightarrow> bool" where
  "needs_source n ref \<longleftrightarrow> (case n of NotPresent c r \<Rightarrow> r = ref | AbsenceN s c \<Rightarrow> abs_ref s = ref
     | NotNext c f \<Rightarrow> mentions_incomplete [ref] f | NotFollowedBy i c f ms \<Rightarrow> mentions_incomplete [ref] f
     | _ \<Rightarrow> False)"

lemma needs_lacks:
  assumes "needs_source n ref" and "ref \<in> set (env_incomplete env)"
  shows "lacks_source env n"
  using assms by (cases n) (auto simp: needs_source_def forbidden_iff intro: mentions_mono)

lemma mentions_ref: "mentions_incomplete [r] n \<Longrightarrow> r \<in> set (branch_refs n)"
  by (induction n) (auto simp: list_ex_iff)

lemma needs_absence_refs: "needs_source n ref \<Longrightarrow> ref \<in> set (absence_refs n)"
  by (cases n) (auto simp: needs_source_def absence_refs_def dest: mentions_ref)


definition gap_trigger :: trigger_definition where
  "gap_trigger = sample_trigger\<lparr>td_pattern := sample_negation\<rparr>"

definition sample_gap :: gap_state where
  "sample_gap = \<lparr>gs_connectionId = ''c'', gs_serverId = ''s'', gs_eventName = ''b.event'', gs_arguments = None,
     gs_truncated = None, gs_gapUnresolved = Some True, gs_completenessRevision = Some 1\<rparr>"


subsection \<open>The fingerprint\<close>

definition gap_view :: "gap_state \<Rightarrow> string \<times> string \<times> string \<times> json \<times> bool \<times> nat" where
  "gap_view s = (gs_connectionId s, gs_serverId s, gs_eventName s, canonical_arguments (gs_arguments s),
     gap_open s, (case gs_completenessRevision s of None \<Rightarrow> 0 | Some n \<Rightarrow> n))"

text \<open>A delivery state as the store keeps it: parsed arguments and a safe revision.\<close>

definition gap_state_ok :: "gap_state \<Rightarrow> bool" where
  "gap_state_ok s \<longleftrightarrow> json_ok (JObj (case gs_arguments s of None \<Rightarrow> [] | Some kvs \<Rightarrow> kvs)) \<and>
     (case gs_completenessRevision s of None \<Rightarrow> True | Some n \<Rightarrow> int n < 2 ^ 53)"

lemma is_double_nat: "int n < 2 ^ 53 \<Longrightarrow> is_double (of_nat n)"
  using is_double_safe [of "int n"] by simp

lemma gap_element_ok:
  assumes "gap_state_ok s"
  shows "json_ok (gap_element s)"
proof -
  have "json_ok (canonical_arguments (gs_arguments s))"
    using assms unfolding gap_state_ok_def canonical_arguments_def by (intro stable_ok) blast
  moreover have "\<exists>q. num_of_int (case gs_completenessRevision s of None \<Rightarrow> 0 | Some n \<Rightarrow> int n) = Fin q \<and> is_double q"
    using assms by (auto simp: gap_state_ok_def num_of_int_safe is_double_nat split: option.splits)
  ultimately show ?thesis by (auto simp: gap_element_def)
qed

lemma gap_element_iff:
  assumes "gap_state_ok s" "gap_state_ok t"
  shows "stringify (gap_element s) = stringify (gap_element t) \<longleftrightarrow> gap_view s = gap_view t"
proof -
  have "gap_element s = gap_element t \<longleftrightarrow> gap_view s = gap_view t"
    using assms num_of_int_safe
    by (auto simp: gap_element_def gap_view_def gap_state_ok_def split: option.splits)
  then show ?thesis using stringify_inj [OF gap_element_ok gap_element_ok] assms by blast
qed

lemma image_mset_iff:
  assumes "\<forall>x \<in> A. \<forall>y \<in> A. f x = f y \<longleftrightarrow> g x = g y" and "set_mset M \<subseteq> A" and "set_mset N \<subseteq> A"
  shows "image_mset f M = image_mset f N \<longleftrightarrow> image_mset g M = image_mset g N"
proof -
  have factor: "image_mset v M = image_mset v N"
    if "image_mset u M = image_mset u N" "\<forall>x \<in> A. \<forall>y \<in> A. u x = u y \<longrightarrow> v x = v y" for u :: "'a \<Rightarrow> 'd" and v :: "'a \<Rightarrow> 'e"
  proof -
    have "v x = v (inv_into A u (u x))" if "x \<in> A" for x
      using that \<open>\<forall>x \<in> A. \<forall>y \<in> A. u x = u y \<longrightarrow> v x = v y\<close>
      by (metis f_inv_into_f image_eqI inv_into_into)
    then have "image_mset v K = image_mset (v \<circ> inv_into A u) (image_mset u K)" if "set_mset K \<subseteq> A" for K
      using that by (auto simp: multiset.map_comp intro!: image_mset_cong)
    then show ?thesis using assms(2,3) that(1) by simp
  qed
  show ?thesis using factor [of f g] factor [of g f] assms(1) by blast
qed

lemma snapshot_iff:
  assumes "\<forall>s \<in> set ss \<union> set ts. gap_state_ok s"
    and "length ss \<le> MAX_SCOPE_MCP_STATES" and "length ts \<le> MAX_SCOPE_MCP_STATES"
  shows "mcpGapSnapshot ss = mcpGapSnapshot ts \<longleftrightarrow>
    image_mset gap_view (mset ss) = image_mset gap_view (mset ts)"
proof -
  let ?p = "\<lambda>s. stringify (gap_element s)"
  let ?l = "\<lambda>xs. sort_by str_cmp (map ?p xs)"
  have arr: "json_ok (JArr (map JStr xs))" for xs by (simp add: list_all_iff)
  have "mcpGapSnapshot ss = mcpGapSnapshot ts \<longleftrightarrow> JArr (map JStr (?l ss)) = JArr (map JStr (?l ts))"
    using assms(2,3) stringify_inj [OF arr arr] by (simp add: mcpGapSnapshot_def del: stringify.simps)
  also have "\<dots> \<longleftrightarrow> ?l ss = ?l ts"
    by (auto dest: map_injective simp: inj_def)
  also have "\<dots> \<longleftrightarrow> mset (map ?p ss) = mset (map ?p ts)"
    by (metis mset_sort_by str_sort_perm)
  also have "\<dots> \<longleftrightarrow> image_mset gap_view (mset ss) = image_mset gap_view (mset ts)"
    unfolding mset_map
    by (rule image_mset_iff [where A = "set ss \<union> set ts"]) (use assms(1) gap_element_iff in auto)
  finally show ?thesis .
qed

text \<open>
  Two snapshots agree exactly when the states agree, as multisets, on the source, its
  arguments, whether a gap is open and the completeness revision; no two different delivery
  states share a fingerprint.
\<close>

theorem mcpGapSnapshot_iff:
  assumes "\<forall>s \<in> set ss \<union> set ts. gap_state_ok s"
    and "length ss \<le> MAX_SCOPE_MCP_STATES" and "length ts \<le> MAX_SCOPE_MCP_STATES"
  shows "mcpGapSnapshot ss = mcpGapSnapshot ts \<longleftrightarrow>
    image_mset gap_view (mset ss) = image_mset gap_view (mset ts)"
  using assms by (rule snapshot_iff)

lemma mcpGapSnapshot_iff_witness:
  "mcpGapSnapshot [sample_gap] \<noteq> mcpGapSnapshot [sample_gap\<lparr>gs_completenessRevision := Some 2\<rparr>]"
  using mcpGapSnapshot_iff [of "[sample_gap]" "[sample_gap\<lparr>gs_completenessRevision := Some 2\<rparr>]"]
  by (simp add: gap_state_ok_def sample_gap_def MAX_SCOPE_MCP_STATES_def gap_view_def)

end
