(* ===== verification/Mcp_Store.thy ===== *)
theory Mcp_Store
  imports Store_Table Delivery_Gap
begin

text \<open>
  The delivery states and the occurrence log of MCP event sources in
  \<open>scripts/lib/persistent-event-store.mjs\<close>: what the store remembers of each subscription, how
  a gap is opened and closed, and the revision that makes every write visible to the
  fingerprint of \<open>gapFingerprint.ts\<close>. One operation reads the clock once. The source arguments
  are those that passed \<open>safeMcpSourceArguments\<close>.
\<close>

subsection \<open>Delivery states\<close>

record mcp_client_state =
  ms_connectionId :: string
  ms_serverId :: string
  ms_eventName :: string
  ms_arguments :: jobj
  ms_subscriptionId :: "string option"
  ms_deliveryMode :: string
  ms_cursor :: "string option"
  ms_updatedAt :: string
  ms_completenessRevision :: int
  ms_nextPollAt :: "string option"
  ms_lastEventAt :: "string option"
  ms_lastError :: "string option"
  ms_sourceAvailability :: "(string \<times> string option) option"
  ms_truncated :: "bool option"
  ms_gapUnresolved :: bool
  ms_gapDetectedAt :: "string option"
  ms_reconciliationEvidenceId :: "string option"
  ms_reconciledAt :: "string option"

text \<open>A line of \<open>mcp-client-states.jsonl\<close>; every field may be missing.\<close>

record mcp_line =
  ml_connectionId :: "string option"
  ml_serverId :: "string option"
  ml_eventName :: "string option"
  ml_arguments :: "jobj option"
  ml_subscriptionId :: "string option"
  ml_deliveryMode :: "string option"
  ml_cursor :: "string option"
  ml_updatedAt :: "string option"
  ml_completenessRevision :: "int option"
  ml_nextPollAt :: "string option"
  ml_lastEventAt :: "string option"
  ml_lastError :: "string option"
  ml_sourceAvailability :: "string option"
  ml_sourceAvailabilityObservedAt :: "string option"
  ml_truncated :: "bool option"
  ml_gapUnresolved :: "bool option"
  ml_gapDetectedAt :: "string option"
  ml_reconciliationEvidenceId :: "string option"
  ml_reconciledAt :: "string option"

text \<open>The argument of \<open>putMcpClientState\<close>.\<close>

record mcp_state_input =
  mi_connectionId :: "string option"
  mi_serverId :: "string option"
  mi_eventName :: "string option"
  mi_arguments :: jobj
  mi_subscriptionId :: "string option"
  mi_deliveryMode :: "string option"
  mi_cursor :: "string option"
  mi_nextPollAt :: "string option"
  mi_lastEventAt :: "string option"
  mi_lastError :: "string option"
  mi_sourceAvailability :: "string option"
  mi_truncated :: "bool option"
  mi_gapUnresolved :: "bool option"
  mi_gapDetectedAt :: "string option"
  mi_gapReconciled :: "bool option"
  mi_reconciliationEvidenceId :: "string option"
  mi_expectedCompletenessRevision :: "int option"

type_synonym mcp_table = "(string, mcp_client_state, mcp_line) table"

text \<open>\<open>a || b\<close> on strings that may be missing, and \<open>a ? a : undefined\<close>.\<close>

definition str_or :: "string option \<Rightarrow> string \<Rightarrow> string" where
  "str_or a b = (case a of Some s \<Rightarrow> if s \<noteq> [] then s else b | None \<Rightarrow> b)"

definition opt_or :: "string option \<Rightarrow> string option \<Rightarrow> string option" where
  "opt_or a b = (if truthy_str a then a else if truthy_str b then b else None)"

definition epoch_text :: string where
  "epoch_text = ''1970-01-01T00:00:00.000Z''"

definition MAX_SAFE_INTEGER :: int where
  "MAX_SAFE_INTEGER = 9007199254740991"

definition availabilities :: "string list" where
  "availabilities = [''available'', ''not_found'']"

definition plain_error :: "string \<Rightarrow> js_error" where
  "plain_error m = JsError KError None m"

definition mcpClientStateKey :: "string \<Rightarrow> string \<Rightarrow> jobj \<Rightarrow> string" where
  "mcpClientStateKey connectionId name args =
     connectionId @ ''::'' @ name @ ''::'' @ stringify (stableValue (JObj args))"

definition mcp_key :: "mcp_client_state \<Rightarrow> string" where
  "mcp_key s = mcpClientStateKey (ms_connectionId s) (ms_eventName s) (ms_arguments s)"

subsection \<open>Reading the file\<close>

definition load_mcp_state :: "mcp_line \<Rightarrow> js_error + mcp_client_state option" where
  "load_mcp_state raw =
     (if \<not> truthy_str (ml_connectionId raw) \<or> \<not> truthy_str (ml_eventName raw) then Inr None
      else let revision = (case ml_completenessRevision raw of None \<Rightarrow> 0 | Some n \<Rightarrow> n);
               connection = the (ml_connectionId raw)
      in if MAX_SAFE_INTEGER < \<bar>revision\<bar> \<or> revision < 0
         then Inl (plain_error ''Invalid persisted MCP completeness revision'')
         else Inr (Some \<lparr>ms_connectionId = connection,
           ms_serverId = str_or (ml_serverId raw) connection,
           ms_eventName = the (ml_eventName raw),
           ms_arguments = (case ml_arguments raw of None \<Rightarrow> [] | Some a \<Rightarrow> a),
           ms_subscriptionId = opt_or (ml_subscriptionId raw) None,
           ms_deliveryMode = str_or (ml_deliveryMode raw) ''poll'',
           ms_cursor = ml_cursor raw,
           ms_updatedAt = str_or (ml_updatedAt raw) epoch_text,
           ms_completenessRevision = revision,
           ms_nextPollAt = opt_or (ml_nextPollAt raw) None,
           ms_lastEventAt = opt_or (ml_lastEventAt raw) None,
           ms_lastError = opt_or (ml_lastError raw) None,
           ms_sourceAvailability = (case ml_sourceAvailability raw of
               Some a \<Rightarrow> if a \<in> set availabilities then Some (a, ml_sourceAvailabilityObservedAt raw) else None
             | None \<Rightarrow> None),
           ms_truncated = ml_truncated raw,
           ms_gapUnresolved = (ml_gapUnresolved raw = Some True \<or>
             (ml_gapUnresolved raw = None \<and> ml_truncated raw = Some True)),
           ms_gapDetectedAt = ml_gapDetectedAt raw,
           ms_reconciliationEvidenceId = ml_reconciliationEvidenceId raw,
           ms_reconciledAt = ml_reconciledAt raw\<rparr>))"

definition load_mcp_line ::
  "mcp_line \<Rightarrow> (string \<times> mcp_client_state) list \<Rightarrow> js_error + (string \<times> mcp_client_state) list"
where
  "load_mcp_line raw m = (case load_mcp_state raw of Inl e \<Rightarrow> Inl e | Inr None \<Rightarrow> Inr m
     | Inr (Some s) \<Rightarrow> Inr (map_put (mcp_key s) s m))"

definition mcp_state_line :: "mcp_client_state \<Rightarrow> mcp_line" where
  "mcp_state_line s = \<lparr>ml_connectionId = Some (ms_connectionId s), ml_serverId = Some (ms_serverId s),
     ml_eventName = Some (ms_eventName s), ml_arguments = Some (ms_arguments s),
     ml_subscriptionId = ms_subscriptionId s, ml_deliveryMode = Some (ms_deliveryMode s),
     ml_cursor = ms_cursor s, ml_updatedAt = Some (ms_updatedAt s),
     ml_completenessRevision = Some (ms_completenessRevision s), ml_nextPollAt = ms_nextPollAt s,
     ml_lastEventAt = ms_lastEventAt s, ml_lastError = ms_lastError s,
     ml_sourceAvailability = map_option fst (ms_sourceAvailability s),
     ml_sourceAvailabilityObservedAt = Option.bind (ms_sourceAvailability s) snd,
     ml_truncated = ms_truncated s, ml_gapUnresolved = Some (ms_gapUnresolved s),
     ml_gapDetectedAt = ms_gapDetectedAt s,
     ml_reconciliationEvidenceId = ms_reconciliationEvidenceId s, ml_reconciledAt = ms_reconciledAt s\<rparr>"

definition mcp_state_valid :: "mcp_client_state \<Rightarrow> bool" where
  "mcp_state_valid s \<longleftrightarrow> ms_connectionId s \<noteq> [] \<and> ms_serverId s \<noteq> [] \<and> ms_eventName s \<noteq> [] \<and>
     ms_deliveryMode s \<noteq> [] \<and> ms_updatedAt s \<noteq> [] \<and> ms_subscriptionId s \<noteq> Some [] \<and>
     ms_nextPollAt s \<noteq> Some [] \<and> ms_lastEventAt s \<noteq> Some [] \<and> ms_lastError s \<noteq> Some [] \<and>
     0 \<le> ms_completenessRevision s \<and> ms_completenessRevision s \<le> MAX_SAFE_INTEGER \<and>
     (case ms_sourceAvailability s of None \<Rightarrow> True | Some (a, t) \<Rightarrow> a \<in> set availabilities)"

lemma opt_or_None: "s \<noteq> Some [] \<Longrightarrow> opt_or s None = s"
  by (cases s) (auto simp: opt_or_def truthy_str_def)

lemma opt_or_truthy: "opt_or a b \<noteq> Some []"
  by (auto simp: opt_or_def truthy_str_def)

lemma str_or_Some: "s \<noteq> [] \<Longrightarrow> str_or (Some s) t = s"
  by (simp add: str_or_def)

lemma str_or_nonempty: "t \<noteq> [] \<Longrightarrow> str_or s t \<noteq> []"
  by (simp add: str_or_def split: option.splits)

lemma load_mcp_state_line: "mcp_state_valid s \<Longrightarrow> load_mcp_state (mcp_state_line s) = Inr (Some s)"
  by (cases s)
    (auto simp: load_mcp_state_def mcp_state_line_def mcp_state_valid_def truthy_str_def opt_or_None str_or_Some
      Let_def split: option.splits)

interpretation mcp_states: durable_table mcp_key mcp_state_valid mcp_state_line load_mcp_line
  by unfold_locales (simp add: load_mcp_line_def load_mcp_state_line)

subsection \<open>Operations\<close>

definition getMcpClientState :: "mcp_table \<Rightarrow> string \<Rightarrow> string \<Rightarrow> jobj \<Rightarrow> mcp_client_state option" where
  "getMcpClientState t connectionId name args = tab_get t (mcpClientStateKey connectionId name args)"

definition listMcpClientStates :: "mcp_table \<Rightarrow> string option \<Rightarrow> mcp_client_state list" where
  "listMcpClientStates t connectionId =
     filter (\<lambda>s. \<not> truthy_str connectionId \<or> connectionId = Some (ms_connectionId s)) (tab_values t)"

definition has_gap :: "mcp_client_state option \<Rightarrow> bool" where
  "has_gap previous = (case previous of None \<Rightarrow> False
     | Some p \<Rightarrow> ms_gapUnresolved p \<or> ms_truncated p = Some True)"

text \<open>The checks of a request to close a gap; \<open>None\<close> when it may go on.\<close>

definition reconcile_error :: "mcp_state_input \<Rightarrow> mcp_client_state option \<Rightarrow> int \<Rightarrow> js_error option" where
  "reconcile_error input previous priorRevision =
     (if mi_gapReconciled input \<noteq> Some True then None
      else if (case mi_reconciliationEvidenceId input of None \<Rightarrow> True | Some i \<Rightarrow> trim_ws i = [])
        then Some (plain_error ''Gap reconciliation requires host evidence ID'')
      else case mi_expectedCompletenessRevision input of
          None \<Rightarrow> Some (plain_error ''Gap reconciliation requires expected completeness revision'')
        | Some n \<Rightarrow>
            if MAX_SAFE_INTEGER < \<bar>n\<bar> \<or> n < 0
            then Some (plain_error ''Gap reconciliation requires expected completeness revision'')
            else if n \<noteq> priorRevision
              then Some (JsError KError (Some ''MCP_EVENTS_GAP_REVISION_CONFLICT'')
                ''Gap reconciliation completeness revision conflict'')
            else if \<not> has_gap previous
              then Some (plain_error ''Gap reconciliation requires an unresolved gap'')
            else None)"

definition next_mcp_state ::
  "string \<Rightarrow> mcp_state_input \<Rightarrow> mcp_client_state option \<Rightarrow> int \<Rightarrow> mcp_client_state"
where
  "next_mcp_state now input previous priorRevision =
     (let connection = str_or (mi_connectionId input) []; reconciled = mi_gapReconciled input = Some True;
          gapNow = mi_truncated input = Some True \<or> mi_gapUnresolved input = Some True \<or> has_gap previous
      in \<lparr>ms_connectionId = connection,
       ms_serverId = str_or (mi_serverId input) (str_or (map_option ms_serverId previous) connection),
       ms_eventName = str_or (mi_eventName input) [],
       ms_arguments = mi_arguments input,
       ms_subscriptionId = (if truthy_str (mi_subscriptionId input) then mi_subscriptionId input
         else Option.bind previous ms_subscriptionId),
       ms_deliveryMode = str_or (mi_deliveryMode input) (str_or (map_option ms_deliveryMode previous) ''poll''),
       ms_cursor = mi_cursor input,
       ms_updatedAt = now,
       ms_completenessRevision = priorRevision + 1,
       ms_nextPollAt = opt_or (mi_nextPollAt input) (Option.bind previous ms_nextPollAt),
       ms_lastEventAt = opt_or (mi_lastEventAt input) (Option.bind previous ms_lastEventAt),
       ms_lastError = opt_or (mi_lastError input) None,
       ms_sourceAvailability = (case mi_sourceAvailability input of
           Some a \<Rightarrow> if a \<in> set availabilities then Some (a, Some now) else Option.bind previous ms_sourceAvailability
         | None \<Rightarrow> Option.bind previous ms_sourceAvailability),
       ms_truncated = (if reconciled then Some False
         else case mi_truncated input of Some b \<Rightarrow> Some b | None \<Rightarrow> Option.bind previous ms_truncated),
       ms_gapUnresolved = (\<not> reconciled \<and> gapNow),
       ms_gapDetectedAt = (if gapNow then Some (case Option.bind previous ms_gapDetectedAt of Some d \<Rightarrow> d
           | None \<Rightarrow> (case mi_gapDetectedAt input of Some d \<Rightarrow> d | None \<Rightarrow> now)) else None),
       ms_reconciliationEvidenceId = (if reconciled then mi_reconciliationEvidenceId input else None),
       ms_reconciledAt = (if reconciled then Some now else None)\<rparr>)"

definition putMcpClientState ::
  "string \<Rightarrow> mcp_state_input \<Rightarrow> mcp_table \<Rightarrow> (js_error + mcp_client_state) \<times> mcp_table"
where
  "putMcpClientState now input t =
     (let connection = str_or (mi_connectionId input) []; name = str_or (mi_eventName input) [];
          previous = getMcpClientState t connection name (mi_arguments input);
          priorRevision = (case previous of None \<Rightarrow> 0 | Some p \<Rightarrow> ms_completenessRevision p)
      in if connection = [] \<or> name = []
         then (Inl (plain_error ''MCP client state requires connectionId and eventName''), t)
         else if MAX_SAFE_INTEGER < \<bar>priorRevision\<bar> \<or> priorRevision < 0 \<or> priorRevision = MAX_SAFE_INTEGER
         then (Inl (plain_error ''Invalid or exhausted MCP completeness revision''), t)
         else case reconcile_error input previous priorRevision of
           Some e \<Rightarrow> (Inl e, t)
         | None \<Rightarrow>
             let state = next_mcp_state now input previous priorRevision
             in (Inr state, tab_put (mcpClientStateKey connection name (mi_arguments input)) state
                  (mcp_state_line state) t))"

lemma next_mcp_state_sel [simp]:
  "ms_completenessRevision (next_mcp_state now input previous r) = r + 1"
  "ms_arguments (next_mcp_state now input previous r) = mi_arguments input"
  "ms_connectionId (next_mcp_state now input previous r) = str_or (mi_connectionId input) []"
  "ms_eventName (next_mcp_state now input previous r) = str_or (mi_eventName input) []"
  by (simp_all add: next_mcp_state_def Let_def)

subsection \<open>Writes\<close>

definition revision_of :: "mcp_client_state option \<Rightarrow> int" where
  "revision_of previous = (case previous of None \<Rightarrow> 0 | Some p \<Rightarrow> ms_completenessRevision p)"

lemma put_mcp_cases:
  obtains (error) e where "putMcpClientState now input t = (Inl e, t)"
  | (written) s k previous where "putMcpClientState now input t = (Inr s, tab_put k s (mcp_state_line s) t)"
      and "k = mcp_key s" and "previous = tab_get t k" and "ms_connectionId s \<noteq> []" and "ms_eventName s \<noteq> []"
      and "reconcile_error input previous (revision_of previous) = None"
      and "s = next_mcp_state now input previous (revision_of previous)"
      and "revision_of previous < MAX_SAFE_INTEGER"
proof -
  define c n where "c = str_or (mi_connectionId input) []" and "n = str_or (mi_eventName input) []"
  define k where "k = mcpClientStateKey c n (mi_arguments input)"
  define r where "r = revision_of (tab_get t k)"
  define s where "s = next_mcp_state now input (tab_get t k) r"
  have sel: "ms_connectionId s = c" "ms_eventName s = n" "mcp_key s = k"
    by (simp_all add: mcp_key_def s_def k_def c_def n_def)
  have run: "putMcpClientState now input t =
      (if c = [] \<or> n = [] then (Inl (plain_error ''MCP client state requires connectionId and eventName''), t)
       else if MAX_SAFE_INTEGER < \<bar>r\<bar> \<or> r < 0 \<or> r = MAX_SAFE_INTEGER
       then (Inl (plain_error ''Invalid or exhausted MCP completeness revision''), t)
       else case reconcile_error input (tab_get t k) r of Some e \<Rightarrow> (Inl e, t)
         | None \<Rightarrow> (Inr s, tab_put k s (mcp_state_line s) t))"
    unfolding putMcpClientState_def getMcpClientState_def Let_def s_def r_def revision_of_def k_def c_def n_def by (rule refl)
  show thesis
  proof (cases "c = [] \<or> n = [] \<or> MAX_SAFE_INTEGER < \<bar>r\<bar> \<or> r < 0 \<or> r = MAX_SAFE_INTEGER")
    case True
    then obtain e where "putMcpClientState now input t = (Inl e, t)" unfolding run by (cases "c = [] \<or> n = []") auto
    then show ?thesis by (rule error)
  next
    case False
    then have r: "0 \<le> r" "r < MAX_SAFE_INTEGER" by linarith+
    show ?thesis
    proof (cases "reconcile_error input (tab_get t k) r")
      case None
      show ?thesis
        by (rule written [of s k "tab_get t k"]) (use False None sel r in \<open>simp_all add: run flip: r_def s_def\<close>)
    next
      case (Some e)
      then show ?thesis using False r by (intro error) (simp add: run)
    qed
  qed
qed

lemma next_mcp_state_valid:
  assumes "now \<noteq> []" and "\<And>p. previous = Some p \<Longrightarrow> mcp_state_valid p" and "0 \<le> r" and "r < MAX_SAFE_INTEGER"
    and "str_or (mi_connectionId input) [] \<noteq> []" and "str_or (mi_eventName input) [] \<noteq> []"
  shows "mcp_state_valid (next_mcp_state now input previous r)"
  using assms
  by (cases previous)
    (auto simp: next_mcp_state_def mcp_state_valid_def Let_def opt_or_truthy truthy_str_def str_or_nonempty split: option.splits)

lemma put_mcp_durable:
  assumes "mcp_states.durable t" and "now \<noteq> []" and "putMcpClientState now input t = (r, t')"
  shows "mcp_states.durable t'"
proof (cases rule: put_mcp_cases [of now input t])
  case (error e)
  then show ?thesis using assms by simp
next
  case (written s k previous)
  have prev: "mcp_state_valid p" if "previous = Some p" for p
    using mcp_states.durable_get [OF assms(1), of k p] that written(3) by simp
  then have "0 \<le> revision_of previous"
    by (auto simp: mcp_state_valid_def revision_of_def split: option.splits)
  moreover have "str_or (mi_connectionId input) [] \<noteq> []" "str_or (mi_eventName input) [] \<noteq> []"
    using written(4,5,7) by (metis next_mcp_state_sel(3), metis next_mcp_state_sel(4))
  ultimately have "mcp_state_valid s"
    using next_mcp_state_valid [OF assms(2) prev] written(7,8) by blast
  from mcp_states.durable_put [OF assms(1) this written(2)] show ?thesis using assms(3) written(1) by simp
qed

subsection \<open>Gaps stay open\<close>

lemma next_mcp_state_gap:
  "ms_gapUnresolved (next_mcp_state now input previous r) \<longleftrightarrow> mi_gapReconciled input \<noteq> Some True \<and>
     (mi_truncated input = Some True \<or> mi_gapUnresolved input = Some True \<or> has_gap previous)"
  "mi_gapReconciled input = Some True \<Longrightarrow> ms_truncated (next_mcp_state now input previous r) = Some False"
  "mi_gapReconciled input = Some True \<Longrightarrow>
     ms_reconciliationEvidenceId (next_mcp_state now input previous r) = mi_reconciliationEvidenceId input"
  "has_gap (Some p) \<Longrightarrow> ms_gapDetectedAt p = Some d \<Longrightarrow>
     ms_gapDetectedAt (next_mcp_state now input (Some p) r) = Some d"
  by (auto simp: next_mcp_state_def Let_def)

lemma reconcile_error_None:
  assumes "reconcile_error input previous r = None" and "mi_gapReconciled input = Some True"
  shows "mi_expectedCompletenessRevision input = Some r"
    and "\<exists>i. mi_reconciliationEvidenceId input = Some i \<and> trim_ws i \<noteq> []"
  using assms by (auto simp: reconcile_error_def split: option.splits if_splits)

text \<open>
  C29: a gap is closed by nothing but a reconciliation that names the current revision and
  host evidence; every other write of the subscription keeps it open with its first
  detection time, and no write touches another subscription.
\<close>

theorem gap_until_reconciled:
  assumes "putMcpClientState now input t = (Inr s, t')" and "tab_get t k = Some p" and "has_gap (Some p)"
  shows "(k \<noteq> mcp_key s \<longrightarrow> tab_get t' k = Some p) \<and>
    (k = mcp_key s \<and> mi_gapReconciled input \<noteq> Some True \<longrightarrow>
       tab_get t' k = Some s \<and> has_gap (Some s) \<and>
       (ms_gapDetectedAt p \<noteq> None \<longrightarrow> ms_gapDetectedAt s = ms_gapDetectedAt p)) \<and>
    (k = mcp_key s \<and> mi_gapReconciled input = Some True \<longrightarrow>
       mi_expectedCompletenessRevision input = Some (ms_completenessRevision p) \<and>
       (\<exists>i. ms_reconciliationEvidenceId s = Some i \<and> trim_ws i \<noteq> []) \<and> \<not> has_gap (Some s))"
proof (cases rule: put_mcp_cases [of now input t])
  case (error e)
  then show ?thesis using assms(1) by simp
next
  case (written s' k' previous)
  have s: "s' = s" "t' = tab_put k' s (mcp_state_line s) t" "k' = mcp_key s" using written(1,2) assms(1) by auto
  have next_s: "s = next_mcp_state now input previous (revision_of previous)" using written(7) s(1) by blast
  show ?thesis
  proof (cases "k = k'")
    case True
    then have prev: "previous = Some p" "revision_of previous = ms_completenessRevision p"
      using written(3) assms(2) by (simp_all add: revision_of_def)
    have "reconcile_error input (Some p) (ms_completenessRevision p) = None"
      using written(6) unfolding prev(2) unfolding prev(1) .
    moreover have new: "s = next_mcp_state now input (Some p) (ms_completenessRevision p)"
      using next_s unfolding prev(2) unfolding prev(1) .
    ultimately have closed: "mi_gapReconciled input = Some True \<Longrightarrow>
        mi_expectedCompletenessRevision input = Some (ms_completenessRevision p) \<and>
        (\<exists>i. ms_reconciliationEvidenceId s = Some i \<and> trim_ws i \<noteq> []) \<and> \<not> has_gap (Some s)"
      using reconcile_error_None [of input "Some p" "ms_completenessRevision p"]
        next_mcp_state_gap(1-3) [where now = now and input = input and previous = "Some p" and r = "ms_completenessRevision p"]
      by (simp add: has_gap_def)
    from new have keep: "has_gap (Some s)" "ms_gapDetectedAt p = Some d \<Longrightarrow> ms_gapDetectedAt s = Some d"
      if "mi_gapReconciled input \<noteq> Some True" for d
      using that assms(3) next_mcp_state_gap(1) [where now = now and input = input and previous = "Some p" and r = "ms_completenessRevision p"]
        next_mcp_state_gap(4) [OF assms(3)]
      by (simp_all add: has_gap_def)
    have "ms_gapDetectedAt p \<noteq> None \<longrightarrow> ms_gapDetectedAt s = ms_gapDetectedAt p"
      if "mi_gapReconciled input \<noteq> Some True"
      using keep(2) [OF that] by (cases "ms_gapDetectedAt p") simp_all
    then show ?thesis using True s closed keep(1) by simp
  qed (use s assms(2) in auto)
qed

text \<open>The fingerprint reads these fields of a delivery state.\<close>

definition gap_of :: "mcp_client_state \<Rightarrow> gap_state" where
  "gap_of s = \<lparr>gs_connectionId = ms_connectionId s, gs_serverId = ms_serverId s, gs_eventName = ms_eventName s,
     gs_arguments = Some (ms_arguments s), gs_truncated = ms_truncated s,
     gs_gapUnresolved = Some (ms_gapUnresolved s),
     gs_completenessRevision = Some (nat (ms_completenessRevision s))\<rparr>"

definition getMcpGapStateAndSnapshot :: "mcp_table \<Rightarrow> js_error + (mcp_client_state list \<times> string)" where
  "getMcpGapStateAndSnapshot t =
     (let states = listMcpClientStates t None
      in case mcpGapSnapshot (map gap_of states) of Inl e \<Rightarrow> Inl e | Inr snapshot \<Rightarrow> Inr (states, snapshot))"

subsection \<open>Every write changes the fingerprint\<close>

definition total_revision :: "mcp_table \<Rightarrow> int" where
  "total_revision t = sum_list (map ms_completenessRevision (tab_values t))"

lemma sum_map_put:
  "distinct (map fst m) \<Longrightarrow> sum_list (map (f \<circ> snd) (map_put k v m)) =
     sum_list (map (f \<circ> snd) m) + f v - (case map_of m k of None \<Rightarrow> (0 :: int) | Some x \<Rightarrow> f x)"
  by (induction m rule: map_put.induct) (auto split: option.splits dest: map_of_SomeD)

lemma put_total_revision:
  assumes "distinct (map fst (tab_map t))" and "putMcpClientState now input t = (Inr s, t')"
  shows "total_revision t' = total_revision t + 1"
proof (cases rule: put_mcp_cases [of now input t])
  case (error e)
  then show ?thesis using assms(2) by simp
next
  case (written s' k previous)
  have t': "t' = tab_put k s (mcp_state_line s) t" and "s' = s" using written(1) assms(2) by auto
  then have rev: "ms_completenessRevision s = revision_of previous + 1"
    using written(7) by (metis next_mcp_state_sel(1))
  have "total_revision t' = total_revision t + ms_completenessRevision s - revision_of previous"
    using sum_map_put [OF assms(1), of ms_completenessRevision k s] written(3)
    by (simp add: t' total_revision_def tab_values_def tab_put_def tab_get_def revision_of_def)
  then show ?thesis using rev by simp
qed

text \<open>Any number of writes, each with arguments that are JSON; a failed one changes nothing.\<close>

inductive mcp_writes :: "mcp_table \<Rightarrow> mcp_table \<Rightarrow> bool" for t where
  none: "mcp_writes t t"
| more: "mcp_writes t u \<Longrightarrow> now \<noteq> [] \<Longrightarrow> json_ok (JObj (mi_arguments input)) \<Longrightarrow>
    putMcpClientState now input u = (r, v) \<Longrightarrow> mcp_writes t v"

definition mcp_sound :: "mcp_table \<Rightarrow> bool" where
  "mcp_sound t \<longleftrightarrow> mcp_states.durable t \<and> (\<forall>s \<in> set (tab_values t). json_ok (JObj (ms_arguments s)))"

lemma put_mcp_sound:
  assumes "mcp_sound t" and "now \<noteq> []" and "json_ok (JObj (mi_arguments input))"
    and "putMcpClientState now input t = (r, t')"
  shows "mcp_sound t' \<and> total_revision t \<le> total_revision t'"
proof -
  have d: "mcp_states.durable t'" "distinct (map fst (tab_map t))"
    using put_mcp_durable assms mcp_states.durable_distinct by (auto simp: mcp_sound_def)
  show ?thesis
  proof (cases rule: put_mcp_cases [of now input t])
    case (error e)
    then show ?thesis using assms by simp
  next
    case (written s k previous)
    have r: "r = Inr s" and t': "t' = tab_put k s (mcp_state_line s) t" using written(1) assms(4) by auto
    have "ms_arguments s = mi_arguments input" using written(7) by (metis next_mcp_state_sel(2))
    then have "\<forall>s \<in> set (tab_values t'). json_ok (JObj (ms_arguments s))"
      using assms(1,3) tab_values_put [of k s "mcp_state_line s" t] by (auto simp: t' mcp_sound_def)
    moreover have "total_revision t' = total_revision t + 1"
      using put_total_revision [OF d(2)] assms(4) r by blast
    ultimately show ?thesis using d(1) by (simp add: mcp_sound_def)
  qed
qed

lemma writes_sound: "mcp_writes t u \<Longrightarrow> mcp_sound t \<Longrightarrow> mcp_sound u \<and> total_revision t \<le> total_revision u"
proof (induction rule: mcp_writes.induct)
  case (more u now input r v)
  then show ?case using put_mcp_sound [OF _ more.hyps(2,3,4)] by force
qed simp

lemma sound_gap_state: "mcp_sound t \<Longrightarrow> s \<in> set (tab_values t) \<Longrightarrow> gap_state_ok (gap_of s)"
proof -
  assume t: "mcp_sound t" "s \<in> set (tab_values t)"
  then have "mcp_state_valid s"
    by (auto simp: mcp_sound_def mcp_states.durable_def tab_values_def)
  then show ?thesis
    using t by (auto simp: gap_state_ok_def gap_of_def mcp_state_valid_def MAX_SAFE_INTEGER_def mcp_sound_def)
qed

lemma snapshot_total:
  assumes "mcp_sound t" "mcp_sound u"
    and "getMcpGapStateAndSnapshot t = Inr (ss, f)" and "getMcpGapStateAndSnapshot u = Inr (ts, f)"
  shows "total_revision t = total_revision u"
proof -
  let ?v = "\<lambda>s. gap_view (gap_of s)"
  have all: "listMcpClientStates x None = tab_values x" for x
    by (simp add: listMcpClientStates_def truthy_str_def)
  have snap: "mcpGapSnapshot (map gap_of (tab_values t)) = mcpGapSnapshot (map gap_of (tab_values u))"
    and len: "length (map gap_of (tab_values t)) \<le> MAX_SCOPE_MCP_STATES"
      "length (map gap_of (tab_values u)) \<le> MAX_SCOPE_MCP_STATES"
    using assms(3,4) unfolding getMcpGapStateAndSnapshot_def all Let_def
    by (auto split: sum.splits) (auto simp: mcpGapSnapshot_def split: if_splits)
  have ok: "\<forall>s \<in> set (map gap_of (tab_values t)) \<union> set (map gap_of (tab_values u)). gap_state_ok s"
    using assms(1,2) by (auto intro: sound_gap_state)
  have views: "mset (map ?v (tab_values t)) = mset (map ?v (tab_values u))"
    using snapshot_iff [OF ok len] snap by (simp add: multiset.map_comp comp_def)
  let ?last = "\<lambda>(a, b, c, d, e, n). int n"
  have sum: "total_revision x = sum_list (map ?last (map ?v (tab_values x)))" if "mcp_sound x" for x
  proof -
    have "ms_completenessRevision s = ?last (?v s)" if "s \<in> set (tab_values x)" for s
      using \<open>mcp_sound x\<close> that
      by (auto simp: gap_view_def gap_of_def mcp_sound_def mcp_states.durable_def tab_values_def mcp_state_valid_def)
    then show ?thesis by (simp add: total_revision_def cong: map_cong)
  qed
  have "sum_mset (image_mset ?last (mset (map ?v (tab_values t)))) =
      sum_mset (image_mset ?last (mset (map ?v (tab_values u))))"
    by (simp only: views)
  then show ?thesis
    unfolding sum [OF assms(1)] sum [OF assms(2)] by (simp only: mset_map [symmetric] sum_mset_sum_list)
qed

text \<open>
  C25: a fingerprint never comes back. Once any delivery state was written, even one that
  closed a gap again, no later state of the store has the fingerprint from before.
\<close>

theorem snapshot_never_repeats:
  assumes "mcp_sound t" and "mcp_writes t u" and "putMcpClientState now input u = (Inr s, v)"
    and "now \<noteq> []" and "json_ok (JObj (mi_arguments input))" and "mcp_writes v w"
    and "getMcpGapStateAndSnapshot t = Inr (ss, f)"
  shows "getMcpGapStateAndSnapshot w \<noteq> Inr (ts, f)"
proof
  assume same: "getMcpGapStateAndSnapshot w = Inr (ts, f)"
  have u: "mcp_sound u" "total_revision t \<le> total_revision u" using writes_sound assms(1,2) by auto
  have v: "mcp_sound v" using put_mcp_sound [OF u(1) assms(4,5,3)] by blast
  have "total_revision v = total_revision u + 1"
    using put_total_revision [OF _ assms(3)] u(1) mcp_states.durable_distinct by (auto simp: mcp_sound_def)
  moreover have w: "mcp_sound w" "total_revision v \<le> total_revision w" using writes_sound [OF assms(6) v] by auto
  moreover have "total_revision t = total_revision w" by (rule snapshot_total [OF assms(1) w(1) assms(7) same])
  ultimately show False using u(2) by simp
qed

text \<open>
  After any writes, failed ones included, reading the file back gives the map that is in
  memory, in the same order, and compacting the file changes neither.
\<close>

theorem mcp_states_survive_restart:
  assumes "mcp_sound t" and "mcp_writes t u"
  shows "tab_init load_mcp_line (tab_file u) = Inr u \<and>
    tab_init load_mcp_line (tab_file (tab_compact mcp_state_line u)) = Inr (tab_compact mcp_state_line u)"
  using writes_sound [OF assms(2,1)] mcp_states.durable_init mcp_states.durable_compact by (auto simp: mcp_sound_def)

text \<open>A subscription whose gap is closed again.\<close>

definition sample_poll :: mcp_state_input where
  "sample_poll = \<lparr>mi_connectionId = Some ''c'', mi_serverId = None, mi_eventName = Some ''b.event'', mi_arguments = [],
     mi_subscriptionId = None, mi_deliveryMode = None, mi_cursor = Some ''7'', mi_nextPollAt = None,
     mi_lastEventAt = None, mi_lastError = None, mi_sourceAvailability = None, mi_truncated = Some True,
     mi_gapUnresolved = None, mi_gapDetectedAt = None, mi_gapReconciled = None,
     mi_reconciliationEvidenceId = None, mi_expectedCompletenessRevision = None\<rparr>"

definition empty_table :: "('k, 'r, 'l) table" where
  "empty_table = \<lparr>tab_map = [], tab_file = []\<rparr>"

definition sample_mcp :: mcp_table where
  "sample_mcp = snd (putMcpClientState ''now'' sample_poll empty_table)"

definition sample_reconcile :: mcp_state_input where
  "sample_reconcile = sample_poll\<lparr>mi_truncated := None, mi_gapReconciled := Some True,
     mi_reconciliationEvidenceId := Some ''proof'', mi_expectedCompletenessRevision := Some 1\<rparr>"

lemma empty_mcp_sound: "mcp_sound empty_table"
  using mcp_states.durable_empty by (simp add: mcp_sound_def empty_table_def tab_values_def)

lemma sample_poll_ok: "json_ok (JObj (mi_arguments sample_poll))"
  by (simp add: sample_poll_def)

lemma sample_mcp_run:
  "\<exists>s. putMcpClientState ''now'' sample_poll empty_table = (Inr s, sample_mcp)"
proof -
  have "isl (fst (putMcpClientState ''now'' sample_poll empty_table)) = False" by code_simp
  then show ?thesis unfolding sample_mcp_def by (metis prod.collapse sum.collapse(2))
qed

lemma mcp_states_survive_restart_witness: "tab_init load_mcp_line (tab_file sample_mcp) = Inr sample_mcp"
proof -
  obtain s where "putMcpClientState ''now'' sample_poll empty_table = (Inr s, sample_mcp)" using sample_mcp_run ..
  then have "mcp_writes empty_table sample_mcp"
    using mcp_writes.more [OF mcp_writes.none _ sample_poll_ok] by fastforce
  from mcp_states_survive_restart [OF empty_mcp_sound this] show ?thesis by blast
qed

lemma gap_until_reconciled_witness:
  "\<exists>s t'. putMcpClientState ''later'' sample_reconcile sample_mcp = (Inr s, t') \<and> \<not> has_gap (Some s)"
proof -
  have "isl (fst (putMcpClientState ''later'' sample_reconcile sample_mcp)) = False" by code_simp
  then obtain s t' where run: "putMcpClientState ''later'' sample_reconcile sample_mcp = (Inr s, t')"
    by (metis prod.collapse sum.collapse(2))
  have "has_gap (tab_get sample_mcp (mcpClientStateKey ''c'' ''b.event'' []))" by code_simp
  then obtain p where p: "tab_get sample_mcp (mcpClientStateKey ''c'' ''b.event'' []) = Some p" "has_gap (Some p)"
    by (cases "tab_get sample_mcp (mcpClientStateKey ''c'' ''b.event'' [])") (auto simp: has_gap_def)
  have "mcp_key (projr (fst (putMcpClientState ''later'' sample_reconcile sample_mcp))) = mcpClientStateKey ''c'' ''b.event'' []"
    by code_simp
  then have "mcpClientStateKey ''c'' ''b.event'' [] = mcp_key s" by (simp add: run)
  then show ?thesis
    using gap_until_reconciled [OF run p] run by (auto simp: sample_reconcile_def)
qed

lemma snapshot_never_repeats_witness:
  "\<exists>f w. getMcpGapStateAndSnapshot empty_table = Inr ([], f) \<and>
     getMcpGapStateAndSnapshot w \<noteq> Inr ([], f) \<and> mcp_writes empty_table w"
proof -
  obtain s where run: "putMcpClientState ''now'' sample_poll empty_table = (Inr s, sample_mcp)" using sample_mcp_run ..
  have "getMcpGapStateAndSnapshot empty_table = Inr ([], ''[]'')"
    by (simp add: getMcpGapStateAndSnapshot_def listMcpClientStates_def empty_table_def tab_values_def
      mcpGapSnapshot_def MAX_SCOPE_MCP_STATES_def)
  then show ?thesis
    using snapshot_never_repeats [OF empty_mcp_sound mcp_writes.none run _ sample_poll_ok mcp_writes.none]
      mcp_writes.more [OF mcp_writes.none _ sample_poll_ok run] by fastforce
qed

subsection \<open>Occurrences\<close>

record mcp_event =
  me_eventId :: string
  me_name :: string
  me_timestamp :: timestamp
  me_data :: jobj
  me_cursor :: "string option option"
  me_meta :: "jobj option"

record mcp_occurrence =
  oc_sequence :: int
  oc_serverId :: string
  oc_subscriptionId :: "string option"
  oc_event :: mcp_event

text \<open>\<open>mcpOccurrences\<close> with its file, and \<open>mcpOccurrenceKeys\<close>.\<close>

record occurrence_log =
  ol_records :: "mcp_occurrence list"
  ol_keys :: "string list"
  ol_file :: "mcp_occurrence list"

record append_reply =
  ar_accepted :: bool
  ar_sequence :: "int option"
  ar_event :: mcp_event

definition sub_text :: "string option \<Rightarrow> string" where
  "sub_text s = (case s of None \<Rightarrow> [] | Some x \<Rightarrow> x)"

definition occurrence_key :: "string \<Rightarrow> string option \<Rightarrow> string \<Rightarrow> string" where
  "occurrence_key server subscription eventId = server @ '':'' @ sub_text subscription @ '':'' @ eventId"

definition key_of_occurrence :: "mcp_occurrence \<Rightarrow> string" where
  "key_of_occurrence r = occurrence_key (oc_serverId r) (oc_subscriptionId r) (me_eventId (oc_event r))"

definition latestMcpEventSequence :: "occurrence_log \<Rightarrow> int" where
  "latestMcpEventSequence l = (if ol_records l = [] then 0 else oc_sequence (last (ol_records l)))"

definition same_occurrence :: "string \<Rightarrow> string option \<Rightarrow> string \<Rightarrow> mcp_occurrence \<Rightarrow> bool" where
  "same_occurrence server subscription eventId r \<longleftrightarrow>
     oc_serverId r = server \<and> oc_subscriptionId r = subscription \<and> me_eventId (oc_event r) = eventId"

definition appendMcpOccurrence ::
  "string \<Rightarrow> mcp_event \<Rightarrow> string option \<Rightarrow> occurrence_log \<Rightarrow> append_reply \<times> occurrence_log"
where
  "appendMcpOccurrence server event subscription l =
     (let k = occurrence_key server subscription (me_eventId event);
          existing = find (same_occurrence server subscription (me_eventId event)) (ol_records l)
      in if k \<in> set (ol_keys l)
         then (\<lparr>ar_accepted = False, ar_sequence = map_option oc_sequence existing,
                ar_event = (case existing of None \<Rightarrow> event | Some r \<Rightarrow> oc_event r)\<rparr>, l)
         else let sequence = latestMcpEventSequence l + 1;
                  r = \<lparr>oc_sequence = sequence, oc_serverId = server, oc_subscriptionId = subscription, oc_event = event\<rparr>
              in (\<lparr>ar_accepted = True, ar_sequence = Some sequence, ar_event = event\<rparr>,
                  \<lparr>ol_records = ol_records l @ [r], ol_keys = ol_keys l @ [k], ol_file = ol_file l @ [r]\<rparr>))"

definition listMcpOccurrencesAfter :: "occurrence_log \<Rightarrow> int \<Rightarrow> mcp_occurrence list" where
  "listMcpOccurrencesAfter l sequence = filter (\<lambda>r. sequence < oc_sequence r) (ol_records l)"

text \<open>\<open>init\<close>: the lines in file order, then sorted by sequence.\<close>

definition init_occurrences :: "mcp_occurrence list \<Rightarrow> js_error + occurrence_log" where
  "init_occurrences file =
     (if list_ex (\<lambda>r. oc_sequence r < 1) file then Inl (plain_error ''Invalid persisted MCP event sequence'')
      else Inr \<lparr>ol_records = sort_by (key_cmp oc_sequence int_cmp) file,
             ol_keys = uniq (map key_of_occurrence file), ol_file = file\<rparr>)"

text \<open>The log numbers its records 1, 2, ... and knows the key of each.\<close>

definition occurrences_ok :: "occurrence_log \<Rightarrow> bool" where
  "occurrences_ok l \<longleftrightarrow> map oc_sequence (ol_records l) = map int [1..<Suc (length (ol_records l))] \<and>
     ol_keys l = map key_of_occurrence (ol_records l) \<and> distinct (ol_keys l) \<and> ol_file l = ol_records l"

lemma latest_occurrence: "occurrences_ok l \<Longrightarrow> latestMcpEventSequence l = int (length (ol_records l))"
  by (cases "ol_records l" rule: rev_cases) (auto simp: occurrences_ok_def latestMcpEventSequence_def)

lemma append_occurrence_ok:
  assumes "occurrences_ok l"
  shows "occurrences_ok (snd (appendMcpOccurrence server event subscription l))"
  using assms latest_occurrence [OF assms]
  by (auto simp: occurrences_ok_def appendMcpOccurrence_def key_of_occurrence_def Let_def)

lemma uniq_distinct: "distinct xs \<Longrightarrow> uniq xs = xs"
proof -
  have "distinct xs \<Longrightarrow> set xs \<inter> set sn = {} \<Longrightarrow> first_by (\<lambda>x. x) sn xs = xs" for sn
    by (induction xs arbitrary: sn) auto
  then show "distinct xs \<Longrightarrow> uniq xs = xs" by (simp add: uniq_def)
qed

lemma sorted_sequence: "sorted_wrt (\<lambda>a b. key_cmp oc_sequence int_cmp a b \<le> 0) rs"
  if "map oc_sequence rs = map int [1..<Suc (length rs)]" for rs
proof -
  have "sorted (map oc_sequence rs)" unfolding that by (simp add: sorted_map sorted_wrt_iff_nth_less del: upt_Suc)
  then show ?thesis by (simp add: sorted_map key_cmp_def int_cmp_def)
qed

text \<open>A colon-free server and subscription identify an occurrence.\<close>

lemma occurrence_key_inj:
  assumes "CHR '':'' \<notin> set a \<union> set a'" and "CHR '':'' \<notin> set (sub_text b) \<union> set (sub_text b')"
    and "occurrence_key a b c = occurrence_key a' b' c'"
  shows "a = a' \<and> sub_text b = sub_text b' \<and> c = c'"
proof -
  have cut: "x = x' \<and> y = y'" if "x @ '':'' @ y = x' @ '':'' @ y'" "CHR '':'' \<notin> set x \<union> set x'" for x x' y y' :: string
    using that
  proof (induction x arbitrary: x')
    case Nil
    then show ?case by (cases x') auto
  next
    case (Cons d x)
    then show ?case by (cases x') auto
  qed
  show ?thesis using assms cut [of a _ a'] cut [of "sub_text b" c "sub_text b'" c'] by (auto simp: occurrence_key_def)
qed

text \<open>
  The occurrence log numbers the accepted occurrences without gaps, keeps their file equal
  to the memory, and reads back from it; where server and subscription names have no colon, an
  occurrence is accepted exactly when none with its server, subscription and event id was.
\<close>

theorem occurrence_log_exact:
  assumes "occurrences_ok l" and "appendMcpOccurrence server event subscription l = (reply, l')"
    and "subscription \<noteq> Some []" and "CHR '':'' \<notin> set server \<union> set (sub_text subscription)"
    and "\<forall>r \<in> set (ol_records l). oc_subscriptionId r \<noteq> Some [] \<and>
       CHR '':'' \<notin> set (oc_serverId r) \<union> set (sub_text (oc_subscriptionId r))"
  shows "occurrences_ok l' \<and> init_occurrences (ol_file l') = Inr l' \<and>
    (ar_accepted reply \<longleftrightarrow> \<not> list_ex (same_occurrence server subscription (me_eventId event)) (ol_records l)) \<and>
    (ar_accepted reply \<longrightarrow> ar_sequence reply = Some (int (length (ol_records l')))) \<and>
    (\<not> ar_accepted reply \<longrightarrow> l' = l \<and> ar_sequence reply \<noteq> None)"
proof -
  have ok: "occurrences_ok l'" using append_occurrence_ok [OF assms(1), of server event subscription] assms(2) by simp
  have same: "occurrence_key server subscription (me_eventId event) = key_of_occurrence r \<longleftrightarrow>
      same_occurrence server subscription (me_eventId event) r" if "r \<in> set (ol_records l)" for r
  proof
    assume "occurrence_key server subscription (me_eventId event) = key_of_occurrence r"
    then have "server = oc_serverId r \<and> sub_text subscription = sub_text (oc_subscriptionId r) \<and>
        me_eventId event = me_eventId (oc_event r)"
      using occurrence_key_inj [of server "oc_serverId r" subscription "oc_subscriptionId r"] assms(4,5) that
      by (simp add: key_of_occurrence_def)
    then show "same_occurrence server subscription (me_eventId event) r"
      using assms(3,5) that by (cases subscription; cases "oc_subscriptionId r") (auto simp: same_occurrence_def sub_text_def)
  qed (auto simp: same_occurrence_def key_of_occurrence_def)
  then have found: "occurrence_key server subscription (me_eventId event) \<in> set (ol_keys l) \<longleftrightarrow>
      list_ex (same_occurrence server subscription (me_eventId event)) (ol_records l)"
    using assms(1) by (auto simp: occurrences_ok_def list_ex_iff)
  have restored: "init_occurrences (ol_file l') = Inr l'"
  proof -
    have l': "map oc_sequence (ol_records l') = map int [1..<Suc (length (ol_records l'))]"
      "ol_keys l' = map key_of_occurrence (ol_records l')" "distinct (ol_keys l')" "ol_file l' = ol_records l'"
      using ok by (auto simp: occurrences_ok_def)
    have "comparator_law (key_cmp oc_sequence int_cmp)"
      by (rule comparator_law_key_cmp [OF int_order.comparator_law_axioms])
    then have "sort_by (key_cmp oc_sequence int_cmp) (ol_records l') = ol_records l'"
      by (rule comparator_law.sort_by_sorted) (rule sorted_sequence [OF l'(1)])
    moreover have "\<not> list_ex (\<lambda>r. oc_sequence r < 1) (ol_records l')"
    proof -
      have "oc_sequence ` set (ol_records l') \<subseteq> int ` {1..<Suc (length (ol_records l'))}"
        using l'(1) by (metis atLeastLessThan_upt image_set order_refl)
      then show ?thesis by (force simp: list_ex_iff)
    qed
    ultimately show ?thesis using l'(2-4) uniq_distinct by (cases l') (simp add: init_occurrences_def)
  qed
  have seq: "ar_accepted reply \<longrightarrow> ar_sequence reply = Some (int (length (ol_records l')))"
    using assms(2) latest_occurrence [OF assms(1)] by (auto simp: appendMcpOccurrence_def Let_def split: if_splits)
  have acc: "ar_accepted reply \<longleftrightarrow> \<not> list_ex (same_occurrence server subscription (me_eventId event)) (ol_records l)"
    using assms(2) found by (auto simp: appendMcpOccurrence_def Let_def split: if_splits)
  have rej: "l' = l \<and> ar_sequence reply \<noteq> None" if "\<not> ar_accepted reply"
  proof -
    have "find (same_occurrence server subscription (me_eventId event)) (ol_records l) \<noteq> None"
      using that acc by (auto simp: list_ex_iff find_None_iff)
    then show ?thesis using that assms(2) by (auto simp: appendMcpOccurrence_def Let_def split: if_splits)
  qed
  show ?thesis using ok restored seq acc rej by blast
qed

lemma occurrence_log_exact_witness:
  "ar_accepted (fst (appendMcpOccurrence ''s'' \<lparr>me_eventId = ''i'', me_name = ''n'', me_timestamp = Ts ''x'' 0,
     me_data = [], me_cursor = None, me_meta = None\<rparr> None \<lparr>ol_records = [], ol_keys = [], ol_file = []\<rparr>))"
proof -
  let ?e = "\<lparr>me_eventId = ''i'', me_name = ''n'', me_timestamp = Ts ''x'' 0, me_data = [], me_cursor = None, me_meta = None\<rparr>"
  obtain reply l' where run: "appendMcpOccurrence ''s'' ?e None \<lparr>ol_records = [], ol_keys = [], ol_file = []\<rparr> = (reply, l')"
    by (cases "appendMcpOccurrence ''s'' ?e None \<lparr>ol_records = [], ol_keys = [], ol_file = []\<rparr>")
  show ?thesis using occurrence_log_exact [OF _ run] by (simp add: run occurrences_ok_def sub_text_def)
qed

text \<open>With a colon in a name two different occurrences share a key, and the second is lost.\<close>

lemma occurrence_key_collision:
  "let e = (\<lambda>i. \<lparr>me_eventId = i, me_name = ''n'', me_timestamp = Ts ''x'' 0, me_data = [], me_cursor = None, me_meta = None\<rparr>);
       l = snd (appendMcpOccurrence ''s'' (e ''b:c'') (Some ''a'') \<lparr>ol_records = [], ol_keys = [], ol_file = []\<rparr>)
   in appendMcpOccurrence ''s'' (e ''c'') (Some ''a:b'') l =
        (\<lparr>ar_accepted = False, ar_sequence = None, ar_event = e ''c''\<rparr>, l)"
  by code_simp

end
