(* ===== verification/Match_Store.thy ===== *)
theory Match_Store
  imports Mcp_Store
begin

text \<open>
  The match records of \<open>triggerSchemas.ts\<close> and their table in
  \<open>scripts/lib/persistent-event-store.mjs\<close>: the append-only history, the current record of each
  match, the conditional appends and the bounded readings.
\<close>

subsection \<open>Records\<close>

record pattern_decision =
  pd_evaluator :: string
  pd_outcome :: semantic_outcome
  pd_probability :: jsnum
  pd_matched :: bool
  pd_shouldEscalate :: bool
  pd_inputFields :: "string list"
  pd_providerEvidence :: "jobj option"
  pd_evaluatedAt :: timestamp

datatype match_status = Partial | Matched | Emitted | Fired | Expired

datatype match_role = RoleBuffer | RoleMatch

record pattern_match_state =
  pm_role :: match_role
  pm_signature :: "string option"
  pm_maxObservedOccurredAt :: "timestamp option"
  pm_completedAt :: "timestamp option"
  pm_semanticDecisions :: "(string \<times> pattern_decision) list"

record trigger_match =
  tm_matchId :: string
  tm_triggerId :: string
  tm_triggerVersion :: string
  tm_status :: match_status
  tm_partitionKey :: "string option"
  tm_openedAt :: timestamp
  tm_expiresAt :: timestamp
  tm_updatedAt :: timestamp
  tm_sourceEvents :: "source_event list"
  tm_semanticDecision :: "pattern_decision option"
  tm_patternState :: "pattern_match_state option"
  tm_firedWakeId :: "string option"
  tm_derivedEventIds :: "string list"

subsection \<open>The JSON text of a record\<close>

fun status_text :: "match_status \<Rightarrow> string" where
  "status_text Partial = ''partial''"
| "status_text Matched = ''matched''"
| "status_text Emitted = ''emitted''"
| "status_text Fired = ''fired''"
| "status_text Expired = ''expired''"

fun outcome_text :: "semantic_outcome \<Rightarrow> string" where
  "outcome_text OMatch = ''match''"
| "outcome_text OReject = ''reject''"
| "outcome_text OUncertain = ''uncertain''"

definition ts_json :: "timestamp \<Rightarrow> json" where
  "ts_json t = JStr (ts_text t)"

definition nullable :: "string option \<Rightarrow> json" where
  "nullable s = (case s of None \<Rightarrow> JNull | Some x \<Rightarrow> JStr x)"

definition decision_json :: "pattern_decision \<Rightarrow> json" where
  "decision_json d = JObj ([(''evaluator'', JStr (pd_evaluator d)), (''outcome'', JStr (outcome_text (pd_outcome d))),
     (''probability'', JNum (pd_probability d)), (''matched'', JBool (pd_matched d)),
     (''shouldEscalate'', JBool (pd_shouldEscalate d)), (''inputFields'', JArr (map JStr (pd_inputFields d)))] @
     opt_field ''providerEvidence'' (map_option JObj (pd_providerEvidence d)) @
     [(''evaluatedAt'', ts_json (pd_evaluatedAt d))])"

definition pattern_state_json :: "pattern_match_state \<Rightarrow> json" where
  "pattern_state_json p = JObj ([(''version'', JStr ''2''),
     (''role'', JStr (case pm_role p of RoleBuffer \<Rightarrow> ''buffer'' | RoleMatch \<Rightarrow> ''match''))] @
     opt_field ''signature'' (map_option JStr (pm_signature p)) @
     opt_field ''maxObservedOccurredAt'' (map_option ts_json (pm_maxObservedOccurredAt p)) @
     opt_field ''completedAt'' (map_option ts_json (pm_completedAt p)) @
     [(''semanticDecisions'', JArr (map (\<lambda>(i, d). JObj [(''nodeId'', JStr i), (''decision'', decision_json d)])
        (pm_semanticDecisions p)))])"

definition match_json :: "trigger_match \<Rightarrow> json" where
  "match_json m = JObj ([(''protocolVersion'', JStr ''0.2.0''), (''schemaVersion'', JStr ''trigger.v0.2''),
     (''matchId'', JStr (tm_matchId m)), (''triggerId'', JStr (tm_triggerId m)),
     (''triggerVersion'', JStr (tm_triggerVersion m)), (''status'', JStr (status_text (tm_status m))),
     (''partitionKey'', nullable (tm_partitionKey m)), (''openedAt'', ts_json (tm_openedAt m)),
     (''expiresAt'', ts_json (tm_expiresAt m)), (''updatedAt'', ts_json (tm_updatedAt m)),
     (''sourceEvents'', JArr (map event_json (tm_sourceEvents m))),
     (''semanticDecision'', case tm_semanticDecision m of None \<Rightarrow> JNull | Some d \<Rightarrow> decision_json d)] @
     opt_field ''patternState'' (map_option pattern_state_json (tm_patternState m)) @
     [(''firedWakeId'', nullable (tm_firedWakeId m)), (''derivedEventIds'', JArr (map JStr (tm_derivedEventIds m)))])"

definition match_text :: "trigger_match \<Rightarrow> string" where
  "match_text m = stringify (match_json m)"

subsection \<open>The table\<close>

text \<open>Its lines are the records; \<open>triggerMatchHistory\<close> holds the same list as the file.\<close>

type_synonym match_table = "(string, trigger_match, trigger_match) table"

definition load_match :: "trigger_match \<Rightarrow> (string \<times> trigger_match) list \<Rightarrow> js_error + (string \<times> trigger_match) list" where
  "load_match r m = Inr (map_put (tm_matchId r) r m)"

interpretation trigger_matches: durable_table tm_matchId "\<lambda>r. True" "\<lambda>r. r" load_match
  by unfold_locales (simp add: load_match_def)

definition put_match :: "trigger_match \<Rightarrow> match_table \<Rightarrow> match_table" where
  "put_match r t = tab_put (tm_matchId r) r r t"

definition appendTriggerMatch :: "trigger_match \<Rightarrow> match_table \<Rightarrow> trigger_match \<times> match_table" where
  "appendTriggerMatch r t = (r, put_match r t)"

definition getTriggerMatch :: "match_table \<Rightarrow> string \<Rightarrow> trigger_match option" where
  "getTriggerMatch t i = tab_get t i"

record cas_reply =
  cas_applied :: bool
  cas_record :: "trigger_match option"

definition compareAndAppendTriggerMatch ::
  "trigger_match \<Rightarrow> match_status list \<Rightarrow> match_table \<Rightarrow> cas_reply \<times> match_table"
where
  "compareAndAppendTriggerMatch r expected t =
     (case getTriggerMatch t (tm_matchId r) of
        None \<Rightarrow> (\<lparr>cas_applied = False, cas_record = None\<rparr>, t)
      | Some current \<Rightarrow>
          if tm_status current \<notin> set expected then (\<lparr>cas_applied = False, cas_record = Some current\<rparr>, t)
          else (\<lparr>cas_applied = True, cas_record = Some r\<rparr>, put_match r t))"

definition appendTriggerMatchIfMcpGapUnchanged ::
  "trigger_match \<Rightarrow> string \<Rightarrow> trigger_match \<Rightarrow> mcp_table \<Rightarrow> match_table \<Rightarrow> (js_error + bool) \<times> match_table"
where
  "appendTriggerMatchIfMcpGapUnchanged r expectedSnapshot expectedBuffer mcp t =
     (case getMcpGapStateAndSnapshot mcp of
        Inl e \<Rightarrow> (Inl e, t)
      | Inr (states, snapshot) \<Rightarrow>
          if snapshot \<noteq> expectedSnapshot then (Inr False, t)
          else case getTriggerMatch t (tm_matchId expectedBuffer) of
              None \<Rightarrow> (Inr False, t)
            | Some current \<Rightarrow>
                if match_text current \<noteq> match_text expectedBuffer then (Inr False, t)
                else (Inr True, put_match r t))"

definition listTriggerMatches :: "match_table \<Rightarrow> string option \<Rightarrow> trigger_match list" where
  "listTriggerMatches t triggerId =
     filter (\<lambda>r. \<not> truthy_str triggerId \<or> triggerId = Some (tm_triggerId r)) (tab_values t)"

definition listTriggerMatchHistory :: "match_table \<Rightarrow> string option \<Rightarrow> trigger_match list" where
  "listTriggerMatchHistory t matchId =
     filter (\<lambda>r. \<not> truthy_str matchId \<or> matchId = Some (tm_matchId r)) (tab_file t)"

text \<open>\<open>getLatestTriggerMatch\<close>: the loop that keeps the best record seen so far.\<close>

definition match_rank :: "trigger_match \<Rightarrow> nat" where
  "match_rank r = (case tm_status r of Fired \<Rightarrow> 5 | Emitted \<Rightarrow> 4 | Matched \<Rightarrow> 3
     | Partial \<Rightarrow> (if map_option pm_role (tm_patternState r) = Some RoleMatch then 2 else 1) | Expired \<Rightarrow> 0)"

definition better_match :: "trigger_match \<Rightarrow> trigger_match \<Rightarrow> bool" where
  "better_match r best \<longleftrightarrow> ts_ms (tm_updatedAt best) < ts_ms (tm_updatedAt r) \<or>
     (ts_ms (tm_updatedAt r) = ts_ms (tm_updatedAt best) \<and> match_rank best < match_rank r)"

fun best_match :: "(trigger_match \<Rightarrow> bool) \<Rightarrow> trigger_match option \<Rightarrow> trigger_match list \<Rightarrow> trigger_match option" where
  "best_match of_trigger best [] = best"
| "best_match of_trigger best (r # rs) =
     (if \<not> of_trigger r then best_match of_trigger best rs
      else case best of
          None \<Rightarrow> best_match of_trigger (Some r) rs
        | Some b \<Rightarrow> best_match of_trigger (if better_match r b then Some r else best) rs)"

definition of_version :: "string \<Rightarrow> string \<Rightarrow> trigger_match \<Rightarrow> bool" where
  "of_version triggerId version r \<longleftrightarrow> tm_triggerId r = triggerId \<and> tm_triggerVersion r = version"

definition getLatestTriggerMatch :: "match_table \<Rightarrow> string \<Rightarrow> string \<Rightarrow> trigger_match option" where
  "getLatestTriggerMatch t triggerId version = best_match (of_version triggerId version) None (tab_values t)"

text \<open>\<open>getRecentTriggerMatchHistory\<close>, with \<open>history-window.mjs\<close>.\<close>

record history_window =
  hw_records :: "trigger_match list"
  hw_hasMore :: bool
  hw_limit :: nat

definition validateHistoryWindowLimit :: "int \<Rightarrow> js_error + nat" where
  "validateHistoryWindowLimit n =
     (if n < 1 \<or> 500 < n
      then Inl (JsError KRangeError (Some ''EVENT_INTELLIGENCE_HISTORY_LIMIT_INVALID'')
        ''History window limit must be an integer from 1 to 500'')
      else Inr (nat n))"

definition getRecentTriggerMatchHistory :: "match_table \<Rightarrow> string \<Rightarrow> int \<Rightarrow> js_error + history_window" where
  "getRecentTriggerMatchHistory t matchId n =
     (case validateHistoryWindowLimit n of Inl e \<Rightarrow> Inl e
      | Inr k \<Rightarrow>
          let matches = filter (\<lambda>r. tm_matchId r = matchId) (tab_file t)
          in Inr \<lparr>hw_records = drop (length matches - k) matches, hw_hasMore = k < length matches, hw_limit = k\<rparr>)"

definition inspection_bytes :: "trigger_match \<Rightarrow> nat" where
  "inspection_bytes r = utf8_size (map of_char (match_text r))"

definition getBoundedInspectionMatch ::
  "match_table \<Rightarrow> string \<Rightarrow> string \<Rightarrow> string option \<Rightarrow> int \<Rightarrow> js_error + trigger_match option"
where
  "getBoundedInspectionMatch t triggerId version matchId maxRowBytes =
     (if triggerId = [] \<or> version = [] \<or> matchId = Some [] \<or> maxRowBytes < 1024 \<or> 131072 < maxRowBytes
      then Inl (range_error ''Invalid bounded match inspection'')
      else case (case matchId of Some i \<Rightarrow> tab_get t i | None \<Rightarrow> getLatestTriggerMatch t triggerId version) of
          None \<Rightarrow> Inr None
        | Some r \<Rightarrow>
            if tm_triggerId r \<noteq> triggerId \<or> tm_triggerVersion r \<noteq> version \<or>
               (matchId \<noteq> None \<and> matchId \<noteq> Some (tm_matchId r)) then Inr None
            else if maxRowBytes < int (inspection_bytes r)
              then Inl (JsError KError (Some ''EVENT_INTELLIGENCE_INSPECTION_BUDGET_EXCEEDED'')
                ''Selected match exceeds inspection byte budget'')
            else Inr (Some r))"

subsection \<open>The current record of a match\<close>

definition latest_of :: "('r \<Rightarrow> 'k) \<Rightarrow> 'r list \<Rightarrow> 'k \<Rightarrow> 'r option" where
  "latest_of key rs k = (let own = filter (\<lambda>r. key r = k) rs in if own = [] then None else Some (last own))"

lemma latest_of_snoc: "latest_of key (rs @ [r]) = (latest_of key rs)(key r \<mapsto> r)"
  by (auto simp: latest_of_def fun_eq_iff)

text \<open>A match is what the last line of its history says.\<close>

lemma load_all_matches:
  "load_all load_match rs m = Inr m' \<Longrightarrow> map_of m' = (\<lambda>k. case latest_of tm_matchId rs k of None \<Rightarrow> map_of m k | Some r \<Rightarrow> Some r)"
proof (induction rs arbitrary: m' rule: rev_induct)
  case (snoc r rs)
  then obtain m0 where m0: "load_all load_match rs m = Inr m0" and "m' = map_put (tm_matchId r) r m0"
    unfolding load_all_append by (cases "load_all load_match rs m") (auto simp: load_match_def [of r])
  then show ?case using snoc.IH [OF m0] by (auto simp: latest_of_snoc map_of_map_put fun_eq_iff)
qed (simp add: latest_of_def)

lemma current_is_latest: "trigger_matches.durable t \<Longrightarrow> tab_get t = latest_of tm_matchId (tab_file t)"
  using load_all_matches [of "tab_file t" "[]" "tab_map t"]
  by (auto simp: trigger_matches.durable_def tab_get_def fun_eq_iff split: option.splits)

subsection \<open>The best record of a trigger\<close>

definition match_score :: "trigger_match \<Rightarrow> int \<times> nat" where
  "match_score r = (ts_ms (tm_updatedAt r), match_rank r)"

lemma better_match_less: "better_match a b \<longleftrightarrow>
    fst (match_score b) < fst (match_score a) \<or> (fst (match_score b) = fst (match_score a) \<and> snd (match_score b) < snd (match_score a))"
  by (auto simp: better_match_def match_score_def)

lemma best_match_spec:
  "best_match P best rs = r \<Longrightarrow> (\<And>b. best = Some b \<Longrightarrow> P b) \<Longrightarrow>
     (case r of None \<Rightarrow> best = None \<and> (\<forall>x \<in> set rs. \<not> P x)
      | Some m \<Rightarrow> P m \<and> (m \<in> set rs \<or> best = Some m) \<and>
          (\<forall>x \<in> set rs. P x \<longrightarrow> \<not> better_match x m) \<and> (\<forall>b. best = Some b \<longrightarrow> \<not> better_match b m))"
proof (induction P best rs rule: best_match.induct)
  case (1 P best)
  then show ?case by (cases r) (auto simp: better_match_def)
next
  case (2 P best x rs)
  show ?case
  proof (cases "P x")
    case False
    then show ?thesis using 2 by (auto split: option.splits)
  next
    case True
    show ?thesis
    proof (cases best)
      case None
      then have go: "best_match P (Some x) rs = r" using 2(4) True by simp
      from 2(2) [of, OF _ None go] True show ?thesis
        by (cases r) (auto simp: None)
    next
      case (Some b)
      have "P b" using 2(5) Some by simp
      have go: "best_match P (if better_match x b then Some x else best) rs = r"
        using 2(4) True Some by (simp split: if_splits)
      have trans: "better_match u w" if "better_match u v" "better_match v w" for u v w
        using that unfolding better_match_less by linarith
      have cut: "better_match u v \<or> better_match v w" if "better_match u w" for u v w
        using that unfolding better_match_less by linarith
      have irrefl: "\<not> better_match u u" for u by (simp add: better_match_less)
      from 2(3) [OF _ Some go] True \<open>P b\<close> Some show ?thesis
        by (cases r; cases "better_match x b") (use trans [of x b] cut [of x _ b] irrefl [of x] in \<open>auto\<close>)
    qed
  qed
qed

text \<open>
  The record shown for a trigger version is a current one of that version, no other of its
  current records is more recent, and among those of the same instant none is further
  in its life; there is none exactly when no match of the version exists.
\<close>

theorem latest_match_best:
  assumes "trigger_matches.durable t"
  shows "case getLatestTriggerMatch t i v of
      None \<Rightarrow> (\<forall>k r. getTriggerMatch t k = Some r \<longrightarrow> \<not> of_version i v r)
    | Some m \<Rightarrow> of_version i v m \<and> getTriggerMatch t (tm_matchId m) = Some m \<and>
        latest_of tm_matchId (tab_file t) (tm_matchId m) = Some m \<and>
        (\<forall>k r. getTriggerMatch t k = Some r \<and> of_version i v r \<longrightarrow>
           ts_ms (tm_updatedAt r) \<le> ts_ms (tm_updatedAt m) \<and>
           (ts_ms (tm_updatedAt r) = ts_ms (tm_updatedAt m) \<longrightarrow> match_rank r \<le> match_rank m))"
proof -
  have vals: "r \<in> set (tab_values t) \<longleftrightarrow> (\<exists>k. tab_get t k = Some r)" for r
    by (rule tab_values_get) (rule trigger_matches.durable_distinct [OF assms])
  note spec = best_match_spec [OF refl, of None "of_version i v" "tab_values t"]
  show ?thesis
  proof (cases "getLatestTriggerMatch t i v")
    case None
    then show ?thesis using spec vals by (auto simp: getLatestTriggerMatch_def getTriggerMatch_def)
  next
    case (Some m)
    then have m: "of_version i v m" "m \<in> set (tab_values t)"
      "\<forall>x \<in> set (tab_values t). of_version i v x \<longrightarrow> \<not> better_match x m"
      using spec by (auto simp: getLatestTriggerMatch_def)
    then have "tab_get t (tm_matchId m) = Some m"
      using vals trigger_matches.durable_get [OF assms] by metis
    then show ?thesis
      using Some m vals current_is_latest [OF assms] by (force simp: getTriggerMatch_def better_match_def)
  qed
qed

subsection \<open>The fenced commit\<close>

lemma writes_move: "mcp_writes t u \<Longrightarrow> mcp_sound t \<Longrightarrow> u = t \<or> total_revision t < total_revision u"
proof (induction rule: mcp_writes.induct)
  case (more u now input r v)
  have u: "mcp_sound u" "total_revision t \<le> total_revision u" using writes_sound more by auto
  show ?case
  proof (cases rule: put_mcp_cases [of now input u])
    case (error e)
    then show ?thesis using more by auto
  next
    case (written s k previous)
    have "putMcpClientState now input u = (Inr s, v)" using written(1) more.hyps(4) by simp
    then have "total_revision v = total_revision u + 1"
      using put_total_revision u(1) mcp_states.durable_distinct by (auto simp: mcp_sound_def)
    then show ?thesis using u(2) by simp
  qed
qed simp

text \<open>
  C24: a match is committed only against the delivery state and the buffer it was evaluated
  with. When the conditional append succeeds, the table of delivery states is the one whose
  fingerprint was taken, whatever was attempted in between, the buffer is current and
  unchanged, and the record is appended; otherwise nothing is written.
\<close>

theorem fenced_commit:
  assumes "mcp_sound mcp" and "getMcpGapStateAndSnapshot mcp = Inr (states, snapshot)"
    and "mcp_writes mcp mcp'" and "appendTriggerMatchIfMcpGapUnchanged r snapshot buffer mcp' t = (result, t')"
  shows "(result = Inr True \<longrightarrow> mcp' = mcp \<and> t' = put_match r t \<and>
      (\<exists>current. getTriggerMatch t (tm_matchId buffer) = Some current \<and> match_text current = match_text buffer)) \<and>
    (result \<noteq> Inr True \<longrightarrow> t' = t)"
proof -
  have same: "mcp' = mcp" if "getMcpGapStateAndSnapshot mcp' = Inr (ss, snapshot)" for ss
  proof -
    have "mcp_sound mcp'" using writes_sound [OF assms(3,1)] by simp
    then have "total_revision mcp = total_revision mcp'" using snapshot_total [OF assms(1) _ assms(2) that] by simp
    then show ?thesis using writes_move [OF assms(3,1)] by auto
  qed
  show ?thesis
  proof (cases "getMcpGapStateAndSnapshot mcp'")
    case (Inl e)
    then show ?thesis using assms(4) by (auto simp: appendTriggerMatchIfMcpGapUnchanged_def)
  next
    case (Inr p)
    then obtain ss f where p: "getMcpGapStateAndSnapshot mcp' = Inr (ss, f)" by (cases p) auto
    then show ?thesis
      using assms(4) same [of ss]
      by (auto simp: appendTriggerMatchIfMcpGapUnchanged_def split: option.splits if_splits)
  qed
qed

text \<open>An empty buffer that becomes a match.\<close>

definition sample_buffer :: trigger_match where
  "sample_buffer = \<lparr>tm_matchId = ''m'', tm_triggerId = ''t'', tm_triggerVersion = ''1'', tm_status = Partial,
     tm_partitionKey = None, tm_openedAt = Ts ''o'' 0, tm_expiresAt = Ts ''e'' 10, tm_updatedAt = Ts ''u'' 5,
     tm_sourceEvents = [], tm_semanticDecision = None, tm_patternState = None, tm_firedWakeId = None,
     tm_derivedEventIds = []\<rparr>"

lemma sample_matches: "trigger_matches.durable (put_match sample_buffer empty_table)"
  unfolding put_match_def empty_table_def
  by (rule trigger_matches.durable_put [OF trigger_matches.durable_empty]) simp_all

lemma latest_match_best_witness: "getLatestTriggerMatch (put_match sample_buffer empty_table) ''t'' ''2'' = None"
  using latest_match_best [OF sample_matches, of "''t''" "''2''"]
  by (simp add: getLatestTriggerMatch_def put_match_def empty_table_def tab_put_def tab_values_def of_version_def sample_buffer_def)

lemma fenced_commit_witness:
  "snd (appendTriggerMatchIfMcpGapUnchanged (sample_buffer\<lparr>tm_matchId := ''n''\<rparr>) ''[]'' sample_buffer empty_table
     (put_match sample_buffer empty_table)) =
   put_match (sample_buffer\<lparr>tm_matchId := ''n''\<rparr>) (put_match sample_buffer empty_table)"
proof -
  have snap: "getMcpGapStateAndSnapshot empty_table = Inr ([], ''[]'')"
    by (simp add: getMcpGapStateAndSnapshot_def listMcpClientStates_def empty_table_def tab_values_def
      mcpGapSnapshot_def MAX_SCOPE_MCP_STATES_def)
  have "getTriggerMatch (put_match sample_buffer empty_table) (tm_matchId sample_buffer) = Some sample_buffer"
    by (simp add: getTriggerMatch_def put_match_def)
  then have "fst (appendTriggerMatchIfMcpGapUnchanged (sample_buffer\<lparr>tm_matchId := ''n''\<rparr>) ''[]'' sample_buffer empty_table
      (put_match sample_buffer empty_table)) = Inr True"
    by (simp add: appendTriggerMatchIfMcpGapUnchanged_def snap)
  then show ?thesis
    using fenced_commit [OF empty_mcp_sound snap mcp_writes.none surjective_pairing] by blast
qed

end
