(* ===== verification/Wake_Store.thy ===== *)
theory Wake_Store
  imports Match_Store
begin

text \<open>
  Wake deliveries of \<open>scripts/lib/persistent-event-store.mjs\<close>: the durable state machine that
  hands a wake to one worker at a time. A claim raises \<open>attemptCount\<close>, which is the generation
  that every later report has to name (\<open>wake-claim-generation.mjs\<close>). The operations of a store
  are queued one after the other, so each is one step.
\<close>

subsection \<open>Records\<close>

datatype delivery_status = WPending | WClaimed | WRetryPending | WDelivered | WDeadLetter

record wake_delivery =
  wd_wakeId :: string
  wd_matchId :: string
  wd_triggerId :: string
  wd_triggerVersion :: string
  wd_runtime :: string
  wd_status :: delivery_status
  wd_attemptCount :: nat
  wd_nextAttemptAt :: timestamp
  wd_leaseOwner :: "string option"
  wd_leaseUntil :: "timestamp option"
  wd_runtimeReceiptId :: "string option"
  wd_lastError :: "string option"
  wd_createdAt :: timestamp
  wd_updatedAt :: timestamp

text \<open>
  A line of \<open>wake-deliveries.jsonl\<close>; every field may be missing. A timestamp is never an empty
  text. \<open>attemptCount\<close> is \<open>None\<close> when the line has none or one that is not a natural number.
\<close>

record delivery_line =
  dl_wakeId :: "string option"
  dl_matchId :: "string option"
  dl_triggerId :: "string option"
  dl_triggerVersion :: "string option"
  dl_runtime :: "string option"
  dl_status :: "string option"
  dl_attemptCount :: "nat option"
  dl_nextAttemptAt :: "timestamp option"
  dl_leaseOwner :: "string option"
  dl_leaseUntil :: "timestamp option"
  dl_runtimeReceiptId :: "string option"
  dl_lastError :: "string option"
  dl_createdAt :: "timestamp option"
  dl_updatedAt :: "timestamp option"

type_synonym wake_table = "(string, wake_delivery, delivery_line) table"

fun delivery_text :: "delivery_status \<Rightarrow> string" where
  "delivery_text WPending = ''pending''"
| "delivery_text WClaimed = ''claimed''"
| "delivery_text WRetryPending = ''retry_pending''"
| "delivery_text WDelivered = ''delivered''"
| "delivery_text WDeadLetter = ''dead_letter''"

definition delivery_status_of :: "string option \<Rightarrow> delivery_status" where
  "delivery_status_of s =
     (if s = Some ''claimed'' then WClaimed else if s = Some ''retry_pending'' then WRetryPending
      else if s = Some ''delivered'' then WDelivered else if s = Some ''dead_letter'' then WDeadLetter else WPending)"

definition epoch :: timestamp where
  "epoch = Ts epoch_text 0"

definition ts_or :: "timestamp option \<Rightarrow> timestamp \<Rightarrow> timestamp" where
  "ts_or a b = (case a of Some t \<Rightarrow> t | None \<Rightarrow> b)"

subsection \<open>Reading the file\<close>

definition nonblank :: "string option \<Rightarrow> string" where
  "nonblank s = (case s of Some v \<Rightarrow> if trim_ws v \<noteq> [] then v else [] | None \<Rightarrow> [])"

definition load_delivery ::
  "delivery_line \<Rightarrow> (string \<times> wake_delivery) list \<Rightarrow> js_error + (string \<times> wake_delivery) list"
where
  "load_delivery raw m =
     (if \<not> truthy_str (dl_wakeId raw) \<or> \<not> truthy_str (dl_runtime raw) \<or> \<not> truthy_str (dl_matchId raw) then Inr m
      else Inr (map_put (the (dl_wakeId raw)) \<lparr>wd_wakeId = the (dl_wakeId raw), wd_matchId = str_or (dl_matchId raw) [],
        wd_triggerId = str_or (dl_triggerId raw) [], wd_triggerVersion = nonblank (dl_triggerVersion raw),
        wd_runtime = the (dl_runtime raw), wd_status = delivery_status_of (dl_status raw),
        wd_attemptCount = (case dl_attemptCount raw of None \<Rightarrow> 0 | Some n \<Rightarrow> n),
        wd_nextAttemptAt = ts_or (dl_nextAttemptAt raw) (ts_or (dl_updatedAt raw) epoch),
        wd_leaseOwner = opt_or (dl_leaseOwner raw) None, wd_leaseUntil = dl_leaseUntil raw,
        wd_runtimeReceiptId = opt_or (dl_runtimeReceiptId raw) None,
        wd_lastError = opt_or (dl_lastError raw) None, wd_createdAt = ts_or (dl_createdAt raw) epoch,
        wd_updatedAt = ts_or (dl_updatedAt raw) epoch\<rparr> m))"

definition to_delivery_line :: "wake_delivery \<Rightarrow> delivery_line" where
  "to_delivery_line r = \<lparr>dl_wakeId = Some (wd_wakeId r), dl_matchId = Some (wd_matchId r),
     dl_triggerId = Some (wd_triggerId r), dl_triggerVersion = Some (wd_triggerVersion r),
     dl_runtime = Some (wd_runtime r), dl_status = Some (delivery_text (wd_status r)),
     dl_attemptCount = Some (wd_attemptCount r), dl_nextAttemptAt = Some (wd_nextAttemptAt r),
     dl_leaseOwner = wd_leaseOwner r, dl_leaseUntil = wd_leaseUntil r,
     dl_runtimeReceiptId = wd_runtimeReceiptId r, dl_lastError = wd_lastError r,
     dl_createdAt = Some (wd_createdAt r), dl_updatedAt = Some (wd_updatedAt r)\<rparr>"

definition delivery_valid :: "wake_delivery \<Rightarrow> bool" where
  "delivery_valid r \<longleftrightarrow> wd_wakeId r \<noteq> [] \<and> wd_matchId r \<noteq> [] \<and> wd_runtime r \<noteq> [] \<and>
     (wd_triggerVersion r = [] \<or> trim_ws (wd_triggerVersion r) \<noteq> []) \<and> wd_leaseOwner r \<noteq> Some [] \<and>
     wd_runtimeReceiptId r \<noteq> Some [] \<and> wd_lastError r \<noteq> Some []"

lemma delivery_status_text [simp]: "delivery_status_of (Some (delivery_text s)) = s"
  by (cases s) (simp_all add: delivery_status_of_def)

interpretation deliveries: durable_table wd_wakeId delivery_valid to_delivery_line load_delivery
proof
  fix r :: wake_delivery and m
  assume "delivery_valid r"
  then show "load_delivery (to_delivery_line r) m = Inr (map_put (wd_wakeId r) r m)"
    by (cases r) (auto simp: load_delivery_def to_delivery_line_def delivery_valid_def truthy_str_def str_or_def
      nonblank_def ts_or_def opt_or_None)
qed

subsection \<open>Operations\<close>

definition getWakeDelivery :: "wake_table \<Rightarrow> string \<Rightarrow> wake_delivery option" where
  "getWakeDelivery t wakeId = tab_get t wakeId"

definition put_delivery :: "wake_delivery \<Rightarrow> wake_table \<Rightarrow> wake_table" where
  "put_delivery r t = tab_put (wd_wakeId r) r (to_delivery_line r) t"

record ensure_input =
  ei_wakeId :: string
  ei_matchId :: string
  ei_triggerId :: string
  ei_triggerVersion :: "string option"
  ei_runtime :: string
  ei_now :: timestamp

definition ensureWakeDelivery :: "ensure_input \<Rightarrow> wake_table \<Rightarrow> (js_error + wake_delivery) \<times> wake_table" where
  "ensureWakeDelivery input t =
     (case getWakeDelivery t (ei_wakeId input) of
        Some existing \<Rightarrow> (Inr existing, t)
      | None \<Rightarrow>
          let version = nonblank (ei_triggerVersion input)
          in if ei_wakeId input = [] \<or> ei_matchId input = [] \<or> ei_runtime input = [] \<or> version = []
             then (Inl (plain_error ''Wake delivery requires wakeId, matchId, runtime and explicit triggerVersion''), t)
             else let r = \<lparr>wd_wakeId = ei_wakeId input, wd_matchId = ei_matchId input,
                        wd_triggerId = ei_triggerId input, wd_triggerVersion = version,
                        wd_runtime = ei_runtime input, wd_status = WPending, wd_attemptCount = 0,
                        wd_nextAttemptAt = ei_now input, wd_leaseOwner = None, wd_leaseUntil = None,
                        wd_runtimeReceiptId = None, wd_lastError = None, wd_createdAt = ei_now input,
                        wd_updatedAt = ei_now input\<rparr>
                  in (Inr r, put_delivery r t))"

text \<open>\<open>Math.max(1000, Number(leaseMs) || 30000)\<close>.\<close>

definition lease_span :: "int \<Rightarrow> int" where
  "lease_span leaseMs = max 1000 (if leaseMs = 0 then 30000 else leaseMs)"

definition delivery_ready :: "int \<Rightarrow> wake_delivery \<Rightarrow> bool" where
  "delivery_ready nowMs r \<longleftrightarrow>
     ((wd_status r = WPending \<or> wd_status r = WRetryPending) \<and> ts_ms (wd_nextAttemptAt r) \<le> nowMs) \<or>
     (wd_status r = WClaimed \<and> (case wd_leaseUntil r of None \<Rightarrow> False | Some u \<Rightarrow> ts_ms u \<le> nowMs))"

definition claimWakeDelivery ::
  "string \<Rightarrow> string \<Rightarrow> timestamp \<Rightarrow> int \<Rightarrow> wake_table \<Rightarrow> (js_error + wake_delivery option) \<times> wake_table"
where
  "claimWakeDelivery wakeId workerId now leaseMs t =
     (if wakeId = [] \<or> workerId = []
      then (Inl (plain_error ''Wake delivery claim requires wakeId and workerId''), t)
      else case getWakeDelivery t wakeId of
          None \<Rightarrow> (Inr None, t)
        | Some current \<Rightarrow>
            if wd_status current = WDelivered \<or> wd_status current = WDeadLetter then (Inr None, t)
            else if \<not> delivery_ready (ts_ms now) current then (Inr None, t)
            else case toISOString (time_clip (ts_ms now + lease_span leaseMs)) of
                Inl e \<Rightarrow> (Inl e, t)
              | Inr until \<Rightarrow>
                  let r = current\<lparr>wd_status := WClaimed, wd_attemptCount := wd_attemptCount current + 1,
                        wd_leaseOwner := Some workerId, wd_leaseUntil := Some until, wd_updatedAt := now\<rparr>
                  in (Inr (Some r), put_delivery r t))"

text \<open>The \<open>attemptCount\<close> of a report is \<open>None\<close> unless it is an integer.\<close>

definition assertWakeClaimGeneration ::
  "wake_delivery \<Rightarrow> string \<Rightarrow> int option \<Rightarrow> bool \<Rightarrow> js_error + unit"
where
  "assertWakeClaimGeneration r workerId attemptCount allowDelivered =
     (case attemptCount of
        None \<Rightarrow> Inl (JsError KError (Some ''WAKE_DELIVERY_CLAIM_GENERATION_REQUIRED'')
          ''Wake delivery requires a claim attemptCount'')
      | Some n \<Rightarrow>
          if n < 1 \<or> MAX_SAFE_INTEGER < n
          then Inl (JsError KError (Some ''WAKE_DELIVERY_CLAIM_GENERATION_REQUIRED'')
            ''Wake delivery requires a claim attemptCount'')
          else let current = int (wd_attemptCount r) = n
          in if allowDelivered \<and> wd_status r = WDelivered \<and> current then Inr ()
             else if \<not> current \<or> wd_status r \<noteq> WClaimed \<or> wd_leaseOwner r \<noteq> Some workerId
             then Inl (JsError KError (Some ''WAKE_DELIVERY_CLAIM_LOST'')
               (''Wake delivery '' @ wd_wakeId r @ '' claim generation is no longer current''))
             else Inr ())"

definition completeWakeDelivery ::
  "string \<Rightarrow> string \<Rightarrow> int option \<Rightarrow> string \<Rightarrow> timestamp \<Rightarrow> wake_table \<Rightarrow>
   (js_error + wake_delivery option) \<times> wake_table"
where
  "completeWakeDelivery wakeId workerId attemptCount receipt now t =
     (case getWakeDelivery t wakeId of
        None \<Rightarrow> (Inr None, t)
      | Some current \<Rightarrow>
          (case assertWakeClaimGeneration current workerId attemptCount True of
             Inl e \<Rightarrow> (Inl e, t)
           | Inr _ \<Rightarrow>
               if wd_status current = WDelivered then (Inr (Some current), t)
               else let r = current\<lparr>wd_status := WDelivered, wd_runtimeReceiptId := Some receipt,
                          wd_leaseOwner := None, wd_leaseUntil := None, wd_nextAttemptAt := now,
                          wd_lastError := None, wd_updatedAt := now\<rparr>
                    in (Inr (Some r), put_delivery r t)))"

text \<open>\<open>Math.max(1, Number(maxAttempts) || 5)\<close>; \<open>message\<close> is the text of the error.\<close>

definition attempt_limit :: "int \<Rightarrow> int" where
  "attempt_limit maxAttempts = max 1 (if maxAttempts = 0 then 5 else maxAttempts)"

definition failWakeDelivery ::
  "string \<Rightarrow> string \<Rightarrow> int option \<Rightarrow> string \<Rightarrow> timestamp \<Rightarrow> int \<Rightarrow> timestamp \<Rightarrow> wake_table \<Rightarrow>
   (js_error + wake_delivery option) \<times> wake_table"
where
  "failWakeDelivery wakeId workerId attemptCount message now maxAttempts nextAttemptAt t =
     (case getWakeDelivery t wakeId of
        None \<Rightarrow> (Inr None, t)
      | Some current \<Rightarrow>
          (case assertWakeClaimGeneration current workerId attemptCount False of
             Inl e \<Rightarrow> (Inl e, t)
           | Inr _ \<Rightarrow>
               let terminal = attempt_limit maxAttempts \<le> int (wd_attemptCount current);
                   r = current\<lparr>wd_status := (if terminal then WDeadLetter else WRetryPending),
                     wd_leaseOwner := None, wd_leaseUntil := None,
                     wd_nextAttemptAt := (if terminal then now else nextAttemptAt),
                     wd_lastError := Some message, wd_updatedAt := now\<rparr>
               in (Inr (Some r), put_delivery r t)))"

text \<open>
  The deliveries to look at: those that can be claimed, and delivered ones whose wake record or
  match record was not brought up to date. \<open>final\<close> tells whether the latest wake record is
  delivered.
\<close>

definition delivery_due :: "(string \<Rightarrow> bool) \<Rightarrow> match_table \<Rightarrow> int \<Rightarrow> wake_delivery \<Rightarrow> bool" where
  "delivery_due final matches nowMs r = (case wd_status r of
     WPending \<Rightarrow> ts_ms (wd_nextAttemptAt r) \<le> nowMs
   | WRetryPending \<Rightarrow> ts_ms (wd_nextAttemptAt r) \<le> nowMs
   | WClaimed \<Rightarrow> (case wd_leaseUntil r of None \<Rightarrow> False | Some u \<Rightarrow> ts_ms u \<le> nowMs)
   | WDelivered \<Rightarrow> \<not> final (wd_wakeId r) \<or> map_option tm_status (getTriggerMatch matches (wd_matchId r)) \<noteq> Some Fired
   | WDeadLetter \<Rightarrow> False)"

definition listDueWakeDeliveries ::
  "host \<Rightarrow> (string \<Rightarrow> bool) \<Rightarrow> match_table \<Rightarrow> timestamp \<Rightarrow> wake_table \<Rightarrow> wake_delivery list"
where
  "listDueWakeDeliveries h final matches now t =
     sort_by (then_by (key_cmp (ts_ms \<circ> wd_nextAttemptAt) int_cmp) (key_cmp wd_wakeId (collate h)))
       (filter (delivery_due final matches (ts_ms now)) (tab_values t))"

subsection \<open>Runs of the store\<close>

text \<open>
  A step is one operation, a compaction or a restart that reads the file. Receipts and error
  messages are not empty.
\<close>

inductive wake_step :: "wake_table \<Rightarrow> wake_table \<Rightarrow> bool" where
  ensure: "ensureWakeDelivery input t = (r, t') \<Longrightarrow> wake_step t t'"
| claim: "claimWakeDelivery w worker now ms t = (r, t') \<Longrightarrow> wake_step t t'"
| complete: "completeWakeDelivery w worker n receipt now t = (r, t') \<Longrightarrow> receipt \<noteq> [] \<Longrightarrow> wake_step t t'"
| fail: "failWakeDelivery w worker n message now most later t = (r, t') \<Longrightarrow> message \<noteq> [] \<Longrightarrow> wake_step t t'"
| compact: "wake_step t (tab_compact to_delivery_line t)"
| restart: "tab_init load_delivery (tab_file t) = Inr t' \<Longrightarrow> wake_step t t'"

abbreviation wake_run :: "wake_table \<Rightarrow> wake_table \<Rightarrow> bool" where
  "wake_run \<equiv> wake_step\<^sup>*\<^sup>*"

text \<open>How one delivery may change.\<close>

definition finished :: "wake_delivery \<Rightarrow> bool" where
  "finished r \<longleftrightarrow> wd_status r = WDelivered \<or> wd_status r = WDeadLetter"

definition progress :: "wake_delivery \<Rightarrow> wake_delivery \<Rightarrow> bool" where
  "progress r r' \<longleftrightarrow> wd_wakeId r' = wd_wakeId r \<and> wd_matchId r' = wd_matchId r \<and>
     wd_triggerId r' = wd_triggerId r \<and> wd_triggerVersion r' = wd_triggerVersion r \<and>
     wd_runtime r' = wd_runtime r \<and> wd_attemptCount r \<le> wd_attemptCount r' \<and> (finished r \<longrightarrow> r' = r) \<and>
     (wd_attemptCount r' = wd_attemptCount r \<and> wd_status r' = WClaimed \<longrightarrow> r' = r) \<and>
     (wd_status r' = WPending \<longrightarrow> r' = r)"

lemma progress_refl [simp]: "progress r r"
  by (simp add: progress_def)

lemma progress_trans: "progress a b \<Longrightarrow> progress b c \<Longrightarrow> progress a c"
  unfolding progress_def by (smt (verit, best) le_antisym order_trans)

subsection \<open>What each operation does\<close>

text \<open>Every operation leaves the table as it is or replaces one record by a valid successor.\<close>

definition updates :: "wake_table \<Rightarrow> wake_table \<Rightarrow> bool" where
  "updates t t' \<longleftrightarrow> t' = t \<or> (\<exists>r. t' = put_delivery r t \<and> delivery_valid r \<and>
     (\<forall>c. getWakeDelivery t (wd_wakeId r) = Some c \<longrightarrow> progress c r))"

lemma updates_same [simp]: "updates t t"
  by (simp add: updates_def)

lemma updatesI:
  assumes "getWakeDelivery t (wd_wakeId r) = Some c" and "delivery_valid r" and "progress c r"
  shows "updates t (put_delivery r t)"
  using assms by (auto simp: updates_def)

lemma ensure_updates: "ensureWakeDelivery input t = (r, t') \<Longrightarrow> updates t t'"
  by (auto simp: ensureWakeDelivery_def updates_def delivery_valid_def nonblank_def Let_def
      split: option.splits if_splits)

lemma generation_current:
  assumes "assertWakeClaimGeneration r worker n late = Inr u"
  shows "n = Some (int (wd_attemptCount r))"
    and "\<not> (late \<and> wd_status r = WDelivered) \<Longrightarrow> wd_status r = WClaimed \<and> wd_leaseOwner r = Some worker"
  using assms by (auto simp: assertWakeClaimGeneration_def Let_def split: option.splits if_splits)

lemma claim_cases:
  obtains (rejected) e where "claimWakeDelivery w worker now ms t = (e, t)" and "\<forall>c. e \<noteq> Inr (Some c)"
  | (claimed) c until where "getWakeDelivery t w = Some c" and "delivery_ready (ts_ms now) c" and "\<not> finished c"
      and "toISOString (time_clip (ts_ms now + lease_span ms)) = Inr until" and "worker \<noteq> []" and "w \<noteq> []"
      and "claimWakeDelivery w worker now ms t =
        (Inr (Some (c\<lparr>wd_status := WClaimed, wd_attemptCount := wd_attemptCount c + 1,
            wd_leaseOwner := Some worker, wd_leaseUntil := Some until, wd_updatedAt := now\<rparr>)),
         put_delivery (c\<lparr>wd_status := WClaimed, wd_attemptCount := wd_attemptCount c + 1,
            wd_leaseOwner := Some worker, wd_leaseUntil := Some until, wd_updatedAt := now\<rparr>) t)"
proof (cases "w = [] \<or> worker = []")
  case True
  then show thesis using rejected by (simp add: claimWakeDelivery_def)
next
  case False
  show thesis
  proof (cases "getWakeDelivery t w")
    case None
    then show thesis using False rejected by (simp add: claimWakeDelivery_def)
  next
    case (Some c)
    show thesis
    proof (cases "\<not> finished c \<and> delivery_ready (ts_ms now) c")
      case no: False
      then show thesis using Some False by (intro rejected) (auto simp: claimWakeDelivery_def finished_def)
    next
      case ready: True
      show thesis
      proof (cases "toISOString (time_clip (ts_ms now + lease_span ms))")
        case (Inl e)
        then show thesis using Some False ready by (intro rejected) (auto simp: claimWakeDelivery_def finished_def)
      next
        case (Inr until)
        then show thesis
          using Some False ready by (intro claimed) (auto simp: claimWakeDelivery_def finished_def Let_def)
      qed
    qed
  qed
qed

lemma deliveries_key:
  assumes "deliveries.durable t" and "getWakeDelivery t w = Some c"
  shows "wd_wakeId c = w" and "delivery_valid c"
  using deliveries.durable_get [OF assms(1)] assms(2) by (auto simp: getWakeDelivery_def)

lemma claim_updates:
  assumes "deliveries.durable t" and "claimWakeDelivery w worker now ms t = (r, t')"
  shows "updates t t'"
proof (cases rule: claim_cases [of w worker now ms t])
  case (claimed c until)
  let ?r = "c\<lparr>wd_status := WClaimed, wd_attemptCount := wd_attemptCount c + 1,
    wd_leaseOwner := Some worker, wd_leaseUntil := Some until, wd_updatedAt := now\<rparr>"
  have "updates t (put_delivery ?r t)"
    by (rule updatesI [of t ?r c])
      (use claimed deliveries_key [OF assms(1) claimed(1)] in \<open>auto simp: delivery_valid_def progress_def\<close>)
  then show ?thesis using assms(2) claimed(7) by simp
qed (use assms in \<open>simp add: updates_def\<close>)

lemma complete_updates:
  assumes "deliveries.durable t" and "completeWakeDelivery w worker n receipt now t = (r, t')" and "receipt \<noteq> []"
  shows "updates t t'"
proof (cases "getWakeDelivery t w")
  case None
  then show ?thesis using assms(2) by (simp add: completeWakeDelivery_def updates_def)
next
  case (Some c)
  show ?thesis
  proof (cases "assertWakeClaimGeneration c worker n True")
    case (Inl e)
    then show ?thesis using Some assms(2) by (simp add: completeWakeDelivery_def updates_def)
  next
    case (Inr u)
    show ?thesis
    proof (cases "wd_status c = WDelivered")
      case False
      then have claimed: "wd_status c = WClaimed" using generation_current(2) [OF Inr] by simp
      let ?r = "c\<lparr>wd_status := WDelivered, wd_runtimeReceiptId := Some receipt, wd_leaseOwner := None,
        wd_leaseUntil := None, wd_nextAttemptAt := now, wd_lastError := None, wd_updatedAt := now\<rparr>"
      have "updates t (put_delivery ?r t)"
        by (rule updatesI [of t ?r c])
          (use Some claimed assms(3) deliveries_key [OF assms(1) Some] in
            \<open>auto simp: delivery_valid_def progress_def finished_def\<close>)
      moreover have "t' = put_delivery ?r t"
        using assms(2) Some Inr False by (simp add: completeWakeDelivery_def Let_def)
      ultimately show ?thesis by simp
    qed (use Some Inr assms(2) in \<open>simp add: completeWakeDelivery_def updates_def\<close>)
  qed
qed

lemma fail_updates:
  assumes "deliveries.durable t" and "failWakeDelivery w worker n message now most later t = (r, t')" and "message \<noteq> []"
  shows "updates t t'"
proof (cases "getWakeDelivery t w")
  case None
  then show ?thesis using assms(2) by (simp add: failWakeDelivery_def updates_def)
next
  case (Some c)
  show ?thesis
  proof (cases "assertWakeClaimGeneration c worker n False")
    case (Inl e)
    then show ?thesis using Some assms(2) by (simp add: failWakeDelivery_def updates_def)
  next
    case (Inr u)
    then have claimed: "wd_status c = WClaimed" using generation_current(2) [OF Inr] by simp
    define terminal where "terminal = (attempt_limit most \<le> int (wd_attemptCount c))"
    let ?r = "c\<lparr>wd_status := (if terminal then WDeadLetter else WRetryPending), wd_leaseOwner := None,
      wd_leaseUntil := None, wd_nextAttemptAt := (if terminal then now else later),
      wd_lastError := Some message, wd_updatedAt := now\<rparr>"
    have "updates t (put_delivery ?r t)"
      by (rule updatesI [of t ?r c])
        (use Some claimed assms(3) deliveries_key [OF assms(1) Some] in
          \<open>auto simp: delivery_valid_def progress_def finished_def\<close>)
    moreover have "t' = put_delivery ?r t"
      using assms(2) Some Inr by (simp add: failWakeDelivery_def Let_def flip: terminal_def)
    ultimately show ?thesis by simp
  qed
qed

lemma updates_durable: "deliveries.durable t \<Longrightarrow> updates t t' \<Longrightarrow> deliveries.durable t'"
  using deliveries.durable_put by (auto simp: updates_def put_delivery_def)

lemma updates_progress:
  assumes "updates t t'" and "getWakeDelivery t w = Some c"
  shows "\<exists>c'. getWakeDelivery t' w = Some c' \<and> progress c c'"
  using assms by (auto simp: updates_def put_delivery_def getWakeDelivery_def)

lemma step_progress:
  assumes "wake_step t t'" and "deliveries.durable t"
  shows "deliveries.durable t' \<and>
    (\<forall>w c. getWakeDelivery t w = Some c \<longrightarrow> (\<exists>c'. getWakeDelivery t' w = Some c' \<and> progress c c'))"
  using assms
proof cases
  case compact
  then show ?thesis using deliveries.durable_compact [OF assms(2)] by (auto simp: getWakeDelivery_def)
next
  case restart
  then have "t' = t" using deliveries.durable_init [OF assms(2)] by simp
  then show ?thesis using assms(2) by auto
qed (use assms(2) ensure_updates claim_updates complete_updates fail_updates updates_durable updates_progress in meson)+

lemma run_progress:
  assumes "wake_run t t'" and "deliveries.durable t"
  shows "deliveries.durable t' \<and>
    (\<forall>w c. getWakeDelivery t w = Some c \<longrightarrow> (\<exists>c'. getWakeDelivery t' w = Some c' \<and> progress c c'))"
  using assms
proof (induction rule: rtranclp_induct)
  case (step u v)
  then show ?case using step_progress [OF step.hyps(2)] by (meson progress_trans)
qed auto

subsection \<open>Claims are fenced\<close>

lemma claim_result:
  assumes "deliveries.durable t" and "claimWakeDelivery w worker now ms t = (Inr (Some c), t')"
  shows "getWakeDelivery t' w = Some c" and "wd_status c = WClaimed" and "wd_leaseOwner c = Some worker"
    and "\<exists>u. wd_leaseUntil c = Some u \<and> ts_ms u = ts_ms now + lease_span ms"
    and "\<exists>b. getWakeDelivery t w = Some b \<and> delivery_ready (ts_ms now) b \<and> wd_attemptCount c = Suc (wd_attemptCount b)"
    and "wd_wakeId c = w"
proof -
  have "getWakeDelivery t' w = Some c \<and> wd_status c = WClaimed \<and> wd_leaseOwner c = Some worker \<and>
    (\<exists>u. wd_leaseUntil c = Some u \<and> ts_ms u = ts_ms now + lease_span ms) \<and>
    (\<exists>b. getWakeDelivery t w = Some b \<and> delivery_ready (ts_ms now) b \<and> wd_attemptCount c = Suc (wd_attemptCount b)) \<and>
    wd_wakeId c = w"
  proof (cases rule: claim_cases [of w worker now ms t])
    case (rejected e)
    then show ?thesis using assms(2) by auto
  next
    case (claimed b until)
    have "ts_ms until = ts_ms now + lease_span ms"
      using claimed(4) by (auto simp: toISOString_def time_clip_def split: if_splits)
    then show ?thesis
      using claimed assms(2) deliveries_key [OF assms(1) claimed(1)] by (auto simp: put_delivery_def getWakeDelivery_def)
  qed
  then show "getWakeDelivery t' w = Some c" and "wd_status c = WClaimed" and "wd_leaseOwner c = Some worker"
    and "\<exists>u. wd_leaseUntil c = Some u \<and> ts_ms u = ts_ms now + lease_span ms"
    and "\<exists>b. getWakeDelivery t w = Some b \<and> delivery_ready (ts_ms now) b \<and> wd_attemptCount c = Suc (wd_attemptCount b)"
    and "wd_wakeId c = w"
    by blast+
qed

lemma claim_step: "claimWakeDelivery w worker now ms t = (r, t') \<Longrightarrow> wake_run t t'"
  by (rule r_into_rtranclp) (rule wake_step.claim)

definition lost :: "js_error + 'a \<Rightarrow> bool" where
  "lost r \<longleftrightarrow> (\<exists>e. r = Inl e \<and> err_code e = Some ''WAKE_DELIVERY_CLAIM_LOST'')"

lemma generation_lost:
  assumes "n \<noteq> int (wd_attemptCount r)" and "1 \<le> n" and "n \<le> MAX_SAFE_INTEGER"
  shows "lost (assertWakeClaimGeneration r worker (Some n) late)"
  using assms by (auto simp: assertWakeClaimGeneration_def lost_def Let_def)

text \<open>
  C21: once a wake was claimed again, a report for the earlier claim is refused for ever, also
  one of the same worker: whatever happened since, neither completing nor failing it with the
  old generation changes the store.
\<close>

theorem stale_claim_powerless:
  assumes "deliveries.durable t" and "claimWakeDelivery w worker now ms t = (Inr (Some c), t1)"
    and "wake_run t1 u" and "claimWakeDelivery w other now' ms' u = (Inr (Some c'), u1)" and "wake_run u1 v"
    and "int (wd_attemptCount c) \<le> MAX_SAFE_INTEGER"
  shows "wd_attemptCount c < wd_attemptCount c' \<and>
    (\<forall>r v'. completeWakeDelivery w worker (Some (int (wd_attemptCount c))) receipt stamp v = (r, v') \<longrightarrow> lost r \<and> v' = v) \<and>
    (\<forall>r v'. failWakeDelivery w worker (Some (int (wd_attemptCount c))) message stamp most later v = (r, v') \<longrightarrow> lost r \<and> v' = v)"
proof -
  have t1: "deliveries.durable t1" using run_progress [OF claim_step [OF assms(2)] assms(1)] by blast
  have u: "deliveries.durable u" using run_progress [OF assms(3) t1] by blast
  obtain b where b: "getWakeDelivery u w = Some b" "progress c b"
    using run_progress [OF assms(3) t1] claim_result(1) [OF assms(1,2)] by blast
  have "wd_attemptCount c' = Suc (wd_attemptCount b)"
    using claim_result(5) [OF u assms(4)] b(1) by auto
  then have gt: "wd_attemptCount c < wd_attemptCount c'" using b(2) by (simp add: progress_def)
  have u1: "deliveries.durable u1" using run_progress [OF claim_step [OF assms(4)] u] by blast
  obtain d where d: "getWakeDelivery v w = Some d" "progress c' d"
    using run_progress [OF assms(5) u1] claim_result(1) [OF u assms(4)] by blast
  have "1 \<le> int (wd_attemptCount c)" using claim_result(5) [OF assms(1,2)] by auto
  moreover have "int (wd_attemptCount c) \<noteq> int (wd_attemptCount d)" using gt d(2) by (simp add: progress_def)
  ultimately have "lost (assertWakeClaimGeneration d worker (Some (int (wd_attemptCount c))) late)" for late
    using generation_lost assms(6) by blast
  from this [of True] this [of False] show ?thesis
    using gt d(1) by (auto simp: completeWakeDelivery_def failWakeDelivery_def lost_def)
qed

text \<open>
  C22: while a claim is out, no other worker is admitted. A later claim of the same wake has a
  higher generation, and it succeeds only after the lease of the earlier one has run out, or
  after the earlier holder reported a failure, or after a claim in between.
\<close>

theorem claims_exclusive:
  assumes "deliveries.durable t" and "claimWakeDelivery w worker now ms t = (Inr (Some c), t1)"
    and "wake_run t1 u" and "claimWakeDelivery w other now' ms' u = (Inr (Some c'), u1)"
  shows "wd_attemptCount c < wd_attemptCount c' \<and>
    (ts_ms now + lease_span ms \<le> ts_ms now' \<or>
     (\<exists>b. getWakeDelivery u w = Some b \<and> (wd_attemptCount b = wd_attemptCount c \<longrightarrow> wd_status b = WRetryPending)))"
proof -
  have t1: "deliveries.durable t1" using run_progress [OF claim_step [OF assms(2)] assms(1)] by blast
  have u: "deliveries.durable u" using run_progress [OF assms(3) t1] by blast
  obtain b where b: "getWakeDelivery u w = Some b" "progress c b"
    using run_progress [OF assms(3) t1] claim_result(1) [OF assms(1,2)] by blast
  have c': "wd_attemptCount c' = Suc (wd_attemptCount b)" "delivery_ready (ts_ms now') b"
    using claim_result(5) [OF u assms(4)] b(1) by auto
  then have "wd_attemptCount c < wd_attemptCount c'" using b(2) by (simp add: progress_def)
  moreover have "ts_ms now + lease_span ms \<le> ts_ms now' \<or> (wd_attemptCount b = wd_attemptCount c \<longrightarrow> wd_status b = WRetryPending)"
  proof (cases "wd_attemptCount b = wd_attemptCount c \<and> wd_status b = WClaimed")
    case True
    then have "b = c" using b(2) by (simp add: progress_def)
    then show ?thesis using c'(2) True claim_result(4) [OF assms(1,2)] by (auto simp: delivery_ready_def)
  next
    case False
    have "wd_status b \<noteq> WPending"
      using b(2) claim_result(2) [OF assms(1,2)] by (auto simp: progress_def)
    then show ?thesis using c'(2) False by (auto simp: delivery_ready_def)
  qed
  ultimately show ?thesis using b(1) by blast
qed

text \<open>
  A delivery that was completed stays as it is. After a successful completion every later
  state of the store has the same record with the same receipt, nobody is admitted to the
  wake again, and a report of a failure is refused.
\<close>

theorem completion_final:
  assumes "deliveries.durable t" and "completeWakeDelivery w worker n receipt now t = (Inr (Some c), t1)"
    and "receipt \<noteq> []" and "wake_run t1 u"
  shows "wd_status c = WDelivered \<and> getWakeDelivery u w = Some c \<and>
    (\<forall>other stamp ms. \<exists>e. claimWakeDelivery w other stamp ms u = (e, u) \<and> (\<forall>d. e \<noteq> Inr (Some d))) \<and>
    (\<forall>other k message stamp most later. \<exists>e. failWakeDelivery w other k message stamp most later u = (Inl e, u))"
proof -
  have c: "wd_status c = WDelivered" "getWakeDelivery t1 w = Some c"
  proof -
    obtain b where b: "getWakeDelivery t w = Some b" and g: "assertWakeClaimGeneration b worker n True = Inr ()"
      using assms(2) by (auto simp: completeWakeDelivery_def split: option.splits sum.splits)
    show "wd_status c = WDelivered" "getWakeDelivery t1 w = Some c"
      using assms(2) b g deliveries_key [OF assms(1) b]
      by (auto simp: completeWakeDelivery_def put_delivery_def getWakeDelivery_def Let_def split: if_splits)
  qed
  have t1: "deliveries.durable t1"
    using updates_durable [OF assms(1) complete_updates [OF assms(1,2,3)]] .
  have u: "getWakeDelivery u w = Some c"
    using run_progress [OF assms(4) t1] c by (auto simp: progress_def finished_def)
  have lost: "\<exists>e. assertWakeClaimGeneration c other k False = Inl e" for other k
    using c(1) by (auto simp: assertWakeClaimGeneration_def Let_def split: option.splits)
  have fail: "\<exists>e. failWakeDelivery w other k message stamp most later u = (Inl e, u)" for other k message stamp most later
  proof -
    obtain e where "assertWakeClaimGeneration c other k False = Inl e" using lost by blast
    then show ?thesis using u by (simp add: failWakeDelivery_def)
  qed
  have "\<exists>e. claimWakeDelivery w other stamp ms u = (e, u) \<and> (\<forall>d. e \<noteq> Inr (Some d))" for other stamp ms
    using u c(1) by (auto simp: claimWakeDelivery_def)
  then show ?thesis using c(1) u fail by blast
qed

text \<open>
  The retry scheduler sees exactly the deliveries that can be claimed: a claim at an
  instant succeeds if and only if the delivery is listed as due at that instant and not
  delivered yet.
\<close>

theorem due_iff_claimable:
  assumes "deliveries.durable t" and "w \<noteq> []" and "worker \<noteq> []" and "\<bar>ts_ms now + lease_span ms\<bar> \<le> max_time"
  shows "(\<exists>c t'. claimWakeDelivery w worker now ms t = (Inr (Some c), t')) \<longleftrightarrow>
    (\<exists>r \<in> set (listDueWakeDeliveries h final matches now t). wd_wakeId r = w \<and> wd_status r \<noteq> WDelivered)"
proof -
  have until: "\<exists>u. toISOString (time_clip (ts_ms now + lease_span ms)) = Inr u"
    using assms(4) by (simp add: time_clip_def toISOString_def)
  have due: "delivery_due final matches (ts_ms now) r \<and> wd_status r \<noteq> WDelivered \<longleftrightarrow>
      delivery_ready (ts_ms now) r \<and> \<not> finished r" for r
    by (cases "wd_status r") (auto simp: delivery_due_def delivery_ready_def finished_def)
  have "r \<in> set (tab_values t) \<and> wd_wakeId r = w \<longleftrightarrow> getWakeDelivery t w = Some r" for r
    using tab_values_get [OF deliveries.durable_distinct [OF assms(1)]] deliveries.durable_get [OF assms(1)]
    by (auto simp: getWakeDelivery_def)
  then have listed: "(\<exists>r \<in> set (listDueWakeDeliveries h final matches now t). wd_wakeId r = w \<and> wd_status r \<noteq> WDelivered) \<longleftrightarrow>
      (\<exists>r. getWakeDelivery t w = Some r \<and> delivery_ready (ts_ms now) r \<and> \<not> finished r)"
    using due by (auto simp: listDueWakeDeliveries_def)
  show ?thesis
  proof
    assume "\<exists>c t'. claimWakeDelivery w worker now ms t = (Inr (Some c), t')"
    then obtain c t' where run: "claimWakeDelivery w worker now ms t = (Inr (Some c), t')" by blast
    show "\<exists>r \<in> set (listDueWakeDeliveries h final matches now t). wd_wakeId r = w \<and> wd_status r \<noteq> WDelivered"
      unfolding listed
    proof (cases rule: claim_cases [of w worker now ms t])
      case (rejected e)
      then show "\<exists>r. getWakeDelivery t w = Some r \<and> delivery_ready (ts_ms now) r \<and> \<not> finished r" using run by auto
    next
      case (claimed b until)
      from claimed(1-3) show "\<exists>r. getWakeDelivery t w = Some r \<and> delivery_ready (ts_ms now) r \<and> \<not> finished r" by blast
    qed
  next
    assume "\<exists>r \<in> set (listDueWakeDeliveries h final matches now t). wd_wakeId r = w \<and> wd_status r \<noteq> WDelivered"
    then obtain r u where "getWakeDelivery t w = Some r" "delivery_ready (ts_ms now) r" "\<not> finished r"
      "toISOString (time_clip (ts_ms now + lease_span ms)) = Inr u"
      using listed until by auto
    then show "\<exists>c t'. claimWakeDelivery w worker now ms t = (Inr (Some c), t')"
      using assms(2,3) by (auto simp: claimWakeDelivery_def finished_def Let_def)
  qed
qed


subsection \<open>A run\<close>

definition sample_ensure :: ensure_input where
  "sample_ensure = \<lparr>ei_wakeId = ''w'', ei_matchId = ''m'', ei_triggerId = ''t'', ei_triggerVersion = Some ''1'',
     ei_runtime = ''r'', ei_now = Ts ''0'' 0\<rparr>"

definition wake_table0 :: wake_table where
  "wake_table0 = snd (ensureWakeDelivery sample_ensure empty_table)"

definition wake_table1 :: wake_table where
  "wake_table1 = snd (claimWakeDelivery ''w'' ''a'' (Ts ''0'' 0) 1000 wake_table0)"

definition wake_table2 :: wake_table where
  "wake_table2 = snd (claimWakeDelivery ''w'' ''b'' (Ts ''2000'' 2000) 1000 wake_table1)"

definition sample_record :: "delivery_status \<Rightarrow> nat \<Rightarrow> string \<Rightarrow> int \<Rightarrow> timestamp \<Rightarrow> wake_delivery" where
  "sample_record st n owner until now = \<lparr>wd_wakeId = ''w'', wd_matchId = ''m'', wd_triggerId = ''t'', wd_triggerVersion = ''1'',
     wd_runtime = ''r'', wd_status = st, wd_attemptCount = n, wd_nextAttemptAt = Ts ''0'' 0, wd_leaseOwner = Some owner,
     wd_leaseUntil = Some (Ts (iso_text until) until), wd_runtimeReceiptId = None, wd_lastError = None,
     wd_createdAt = Ts ''0'' 0, wd_updatedAt = now\<rparr>"

lemma wake_table0_durable: "deliveries.durable wake_table0"
proof -
  have e: "deliveries.durable empty_table" using deliveries.durable_empty by (simp add: empty_table_def)
  have "ensureWakeDelivery sample_ensure empty_table = (fst (ensureWakeDelivery sample_ensure empty_table), wake_table0)"
    by (simp add: wake_table0_def)
  from updates_durable [OF e ensure_updates [OF this]] show ?thesis .
qed

lemma wake_table1: "claimWakeDelivery ''w'' ''a'' (Ts ''0'' 0) 1000 wake_table0 =
    (Inr (Some (sample_record WClaimed 1 ''a'' 1000 (Ts ''0'' 0))), wake_table1)"
  by code_simp

lemma wake_table2: "claimWakeDelivery ''w'' ''b'' (Ts ''2000'' 2000) 1000 wake_table1 =
    (Inr (Some (sample_record WClaimed 2 ''b'' 3000 (Ts ''2000'' 2000))), wake_table2)"
  by code_simp

lemma stale_claim_powerless_witness:
  "lost (fst (completeWakeDelivery ''w'' ''a'' (Some 1) ''x'' (Ts ''3000'' 3000) wake_table2))"
proof -
  have "int (wd_attemptCount (sample_record WClaimed 1 ''a'' 1000 (Ts ''0'' 0))) = 1" by (simp add: sample_record_def)
  then show ?thesis
    using stale_claim_powerless [OF wake_table0_durable wake_table1 rtranclp.rtrancl_refl wake_table2 rtranclp.rtrancl_refl]
    by (simp add: MAX_SAFE_INTEGER_def) (metis surjective_pairing)
qed

lemma claims_exclusive_witness: "(0::int) + lease_span 1000 \<le> 2000"
proof -
  have "getWakeDelivery wake_table1 ''w'' = Some (sample_record WClaimed 1 ''a'' 1000 (Ts ''0'' 0))"
    using claim_result(1) [OF wake_table0_durable wake_table1] .
  then show ?thesis
    using claims_exclusive [OF wake_table0_durable wake_table1 rtranclp.rtrancl_refl wake_table2]
    by (auto simp: sample_record_def)
qed

lemma wake_table1_durable: "deliveries.durable wake_table1"
  using run_progress [OF claim_step [OF wake_table1] wake_table0_durable] by blast

lemma completion_final_witness:
  "\<exists>c. getWakeDelivery (snd (completeWakeDelivery ''w'' ''a'' (Some 1) ''x'' (Ts ''5'' 5) wake_table1)) ''w'' = Some c"
proof -
  have "case completeWakeDelivery ''w'' ''a'' (Some 1) ''x'' (Ts ''5'' 5) wake_table1 of (Inr (Some c), t) \<Rightarrow> True | _ \<Rightarrow> False"
    by code_simp
  then obtain c t where run: "completeWakeDelivery ''w'' ''a'' (Some 1) ''x'' (Ts ''5'' 5) wake_table1 = (Inr (Some c), t)"
    by (auto split: prod.splits sum.splits option.splits)
  show ?thesis
    using completion_final [OF wake_table1_durable run _ rtranclp.rtrancl_refl] by (simp add: run)
qed

lemma due_iff_claimable_witness:
  "\<exists>r \<in> set (listDueWakeDeliveries sample_host (\<lambda>_. False) empty_table (Ts ''0'' 0) wake_table0). wd_wakeId r = ''w''"
proof -
  have "\<bar>ts_ms (Ts ''0'' 0) + lease_span 1000\<bar> \<le> max_time" by (simp add: lease_span_def max_time_def)
  from due_iff_claimable [OF wake_table0_durable _ _ this, of "''w''" "''a''"] wake_table1 show ?thesis by fastforce
qed


end
