(* ===== verification/Lease_Store.thy ===== *)
theory Lease_Store
  imports Wake_Store
begin

text \<open>
  Partition leases of \<open>scripts/lib/persistent-event-store.mjs\<close>: at most one worker evaluates a
  partition of a trigger at a time.
\<close>

subsection \<open>Records\<close>

record partition_lease =
  pl_partitionKey :: string
  pl_workerId :: string
  pl_leaseUntil :: timestamp
  pl_updatedAt :: timestamp

text \<open>A line of \<open>partition-leases.jsonl\<close>: a lease, or the note that it was released.\<close>

record lease_line =
  ll_partitionKey :: "string option"
  ll_workerId :: "string option"
  ll_leaseUntil :: "timestamp option"
  ll_updatedAt :: "timestamp option"
  ll_released :: bool

type_synonym lease_table = "(string, partition_lease, lease_line) table"

definition load_lease ::
  "lease_line \<Rightarrow> (string \<times> partition_lease) list \<Rightarrow> js_error + (string \<times> partition_lease) list"
where
  "load_lease raw m =
     (if \<not> truthy_str (ll_partitionKey raw) then Inr m
      else let k = the (ll_partitionKey raw) in
        if ll_released raw then Inr (filter (\<lambda>e. fst e \<noteq> k) m)
        else if \<not> truthy_str (ll_workerId raw) then Inr m
        else case ll_leaseUntil raw of None \<Rightarrow> Inr m
          | Some u \<Rightarrow> Inr (map_put k \<lparr>pl_partitionKey = k, pl_workerId = the (ll_workerId raw),
                pl_leaseUntil = u, pl_updatedAt = ts_or (ll_updatedAt raw) epoch\<rparr> m))"

definition to_lease_line :: "partition_lease \<Rightarrow> lease_line" where
  "to_lease_line r = \<lparr>ll_partitionKey = Some (pl_partitionKey r), ll_workerId = Some (pl_workerId r),
     ll_leaseUntil = Some (pl_leaseUntil r), ll_updatedAt = Some (pl_updatedAt r), ll_released = False\<rparr>"

definition release_line :: "string \<Rightarrow> string \<Rightarrow> timestamp \<Rightarrow> lease_line" where
  "release_line k worker now = \<lparr>ll_partitionKey = Some k, ll_workerId = Some worker, ll_leaseUntil = None,
     ll_updatedAt = Some now, ll_released = True\<rparr>"

definition lease_valid :: "partition_lease \<Rightarrow> bool" where
  "lease_valid r \<longleftrightarrow> pl_partitionKey r \<noteq> [] \<and> pl_workerId r \<noteq> []"

interpretation leases: durable_table pl_partitionKey lease_valid to_lease_line load_lease
proof
  fix r :: partition_lease and m
  assume "lease_valid r"
  then show "load_lease (to_lease_line r) m = Inr (map_put (pl_partitionKey r) r m)"
    by (cases r) (simp add: load_lease_def to_lease_line_def lease_valid_def truthy_str_def ts_or_def)
qed

subsection \<open>Operations\<close>

text \<open>Keys and workers are trimmed; one that is missing is the empty text.\<close>

definition getPartitionLease :: "lease_table \<Rightarrow> string \<Rightarrow> partition_lease option" where
  "getPartitionLease t k = tab_get t k"

definition put_lease :: "partition_lease \<Rightarrow> lease_table \<Rightarrow> lease_table" where
  "put_lease r t = tab_put (pl_partitionKey r) r (to_lease_line r) t"

definition claimPartitionLease ::
  "string \<Rightarrow> string \<Rightarrow> timestamp \<Rightarrow> int \<Rightarrow> lease_table \<Rightarrow> (js_error + partition_lease option) \<times> lease_table"
where
  "claimPartitionLease key worker now leaseMs t =
     (let k = trim_ws key; owner = trim_ws worker in
      if k = [] \<or> owner = []
      then (Inl (plain_error ''Partition lease requires partitionKey and workerId''), t)
      else if (case getPartitionLease t k of None \<Rightarrow> False
             | Some c \<Rightarrow> pl_workerId c \<noteq> owner \<and> ts_ms now < ts_ms (pl_leaseUntil c)) then (Inr None, t)
      else case toISOString (time_clip (ts_ms now + lease_span leaseMs)) of
          Inl e \<Rightarrow> (Inl e, t)
        | Inr until \<Rightarrow>
            let r = \<lparr>pl_partitionKey = k, pl_workerId = owner, pl_leaseUntil = until, pl_updatedAt = now\<rparr>
            in (Inr (Some r), put_lease r t))"

definition renewPartitionLease ::
  "string \<Rightarrow> string \<Rightarrow> timestamp \<Rightarrow> int \<Rightarrow> lease_table \<Rightarrow> (js_error + partition_lease option) \<times> lease_table"
where
  "renewPartitionLease key worker now leaseMs t =
     (let k = trim_ws key; owner = trim_ws worker in
      case getPartitionLease t k of
        None \<Rightarrow> (Inr None, t)
      | Some c \<Rightarrow>
          if pl_workerId c \<noteq> owner then (Inr None, t)
          else case toISOString (time_clip (ts_ms now + lease_span leaseMs)) of
              Inl e \<Rightarrow> (Inl e, t)
            | Inr until \<Rightarrow>
                let r = c\<lparr>pl_leaseUntil := until, pl_updatedAt := now\<rparr> in (Inr (Some r), put_lease r t))"

definition releasePartitionLease :: "string \<Rightarrow> string \<Rightarrow> timestamp \<Rightarrow> lease_table \<Rightarrow> bool \<times> lease_table" where
  "releasePartitionLease key worker now t =
     (let k = trim_ws key; owner = trim_ws worker in
      case getPartitionLease t k of
        None \<Rightarrow> (False, t)
      | Some c \<Rightarrow>
          if pl_workerId c \<noteq> owner then (False, t)
          else (True, tab_remove k (release_line k owner now) t))"

subsection \<open>Runs\<close>

datatype lease_op =
    Claim string string timestamp int
  | Renew string string timestamp int
  | Release string string timestamp
  | CompactLeases
  | Restart

fun lease_exec :: "lease_op \<Rightarrow> lease_table \<Rightarrow> lease_table" where
  "lease_exec (Claim k w now ms) t = snd (claimPartitionLease k w now ms t)"
| "lease_exec (Renew k w now ms) t = snd (renewPartitionLease k w now ms t)"
| "lease_exec (Release k w now) t = snd (releasePartitionLease k w now t)"
| "lease_exec CompactLeases t = tab_compact to_lease_line t"
| "lease_exec Restart t = (case tab_init load_lease (tab_file t) of Inl e \<Rightarrow> t | Inr t' \<Rightarrow> t')"

definition lease_run :: "lease_op list \<Rightarrow> lease_table \<Rightarrow> lease_table" where
  "lease_run ops t = fold lease_exec ops t"

lemma put_lease_durable: "leases.durable t \<Longrightarrow> lease_valid r \<Longrightarrow> leases.durable (put_lease r t)"
  unfolding put_lease_def by (rule leases.durable_put) simp_all

lemma lease_of_key:
  "leases.durable t \<Longrightarrow> getPartitionLease t k = Some c \<Longrightarrow> pl_partitionKey c = k \<and> lease_valid c"
  using leases.durable_get [of t k c] by (simp add: getPartitionLease_def)

lemma claim_lease_cases:
  obtains (rejected) r where "claimPartitionLease key worker now ms t = (r, t)" and "\<forall>l. r \<noteq> Inr (Some l)"
  | (claimed) l where "claimPartitionLease key worker now ms t = (Inr (Some l), put_lease l t)"
      and "pl_partitionKey l = trim_ws key" and "pl_workerId l = trim_ws worker" and "trim_ws key \<noteq> []"
      and "trim_ws worker \<noteq> []" and "ts_ms (pl_leaseUntil l) = ts_ms now + lease_span ms"
      and "\<And>c. getPartitionLease t (trim_ws key) = Some c \<Longrightarrow> pl_workerId c = trim_ws worker \<or> ts_ms (pl_leaseUntil c) \<le> ts_ms now"
proof -
  let ?k = "trim_ws key" and ?owner = "trim_ws worker"
  consider "?k = [] \<or> ?owner = []" | (busy) c where "?k \<noteq> []" "?owner \<noteq> []" "getPartitionLease t ?k = Some c"
      "pl_workerId c \<noteq> ?owner" "ts_ms now < ts_ms (pl_leaseUntil c)"
    | (free) "?k \<noteq> []" "?owner \<noteq> []" "\<And>c. getPartitionLease t ?k = Some c \<Longrightarrow> pl_workerId c = ?owner \<or> ts_ms (pl_leaseUntil c) \<le> ts_ms now"
    by (meson linorder_not_less)
  then show thesis
  proof cases
    case 1
    then show ?thesis by (intro rejected [of "Inl (plain_error ''Partition lease requires partitionKey and workerId'')"])
      (auto simp: claimPartitionLease_def Let_def)
  next
    case busy
    then show ?thesis by (intro rejected [of "Inr None"]) (simp_all add: claimPartitionLease_def Let_def)
  next
    case free
    have pass: "\<not> (case getPartitionLease t ?k of None \<Rightarrow> False
        | Some c \<Rightarrow> pl_workerId c \<noteq> ?owner \<and> ts_ms now < ts_ms (pl_leaseUntil c))"
      using free(3) by (cases "getPartitionLease t ?k") auto
    show ?thesis
    proof (cases "toISOString (time_clip (ts_ms now + lease_span ms))")
      case (Inl e)
      then show ?thesis
        by (intro rejected [of "Inl e"]) (simp_all add: claimPartitionLease_def Let_def free(1,2) pass)
    next
      case (Inr until)
      have u: "ts_ms until = ts_ms now + lease_span ms"
        using Inr by (auto simp: toISOString_def time_clip_def split: if_splits)
      show ?thesis
        by (rule claimed [of "\<lparr>pl_partitionKey = ?k, pl_workerId = ?owner, pl_leaseUntil = until, pl_updatedAt = now\<rparr>"])
          (use free Inr u in \<open>simp_all add: claimPartitionLease_def Let_def pass\<close>)
    qed
  qed
qed

lemma lease_exec_durable:
  assumes "leases.durable t"
  shows "leases.durable (lease_exec op t)"
proof (cases op)
  case (Claim k w now ms)
  then show ?thesis
    using assms put_lease_durable by (cases rule: claim_lease_cases [of k w now ms t]) (auto simp: lease_valid_def)
next
  case (Renew k w now ms)
  have "leases.durable (snd (renewPartitionLease k w now ms t))"
  proof (cases "getPartitionLease t (trim_ws k)")
    case (Some c)
    then have "lease_valid (c\<lparr>pl_leaseUntil := u, pl_updatedAt := now\<rparr>)" for u
      using lease_of_key [OF assms Some] by (auto simp: lease_valid_def)
    then show ?thesis
      using Some assms put_lease_durable by (auto simp: renewPartitionLease_def Let_def split: sum.splits)
  qed (use assms in \<open>simp add: renewPartitionLease_def\<close>)
  then show ?thesis using Renew by simp
next
  case (Release k w now)
  have "leases.durable (tab_remove (trim_ws k) (release_line (trim_ws k) (trim_ws w) now) t)" if "trim_ws k \<noteq> []"
    by (rule leases.durable_remove [OF assms]) (use that in \<open>simp add: load_lease_def release_line_def truthy_str_def\<close>)
  then show ?thesis
    using Release assms lease_of_key [OF assms, of "trim_ws k"]
    by (cases "getPartitionLease t (trim_ws k)") (auto simp: releasePartitionLease_def Let_def lease_valid_def)
next
  case CompactLeases
  then show ?thesis using leases.durable_compact [OF assms] by simp
next
  case Restart
  then show ?thesis using leases.durable_init [OF assms] assms by simp
qed

text \<open>An operation by another worker, at a time at which the lease still runs.\<close>

fun foreign :: "string \<Rightarrow> string \<Rightarrow> int \<Rightarrow> lease_op \<Rightarrow> bool" where
  "foreign k owner until (Claim key w now ms) = (trim_ws key = k \<longrightarrow> trim_ws w \<noteq> owner \<and> ts_ms now < until)"
| "foreign k owner until (Renew key w now ms) = (trim_ws key = k \<longrightarrow> trim_ws w \<noteq> owner)"
| "foreign k owner until (Release key w now) = (trim_ws key = k \<longrightarrow> trim_ws w \<noteq> owner)"
| "foreign k owner until _ = True"

lemma lease_exec_foreign:
  assumes "leases.durable t" and "getPartitionLease t k = Some l"
    and "foreign k (pl_workerId l) (ts_ms (pl_leaseUntil l)) op"
  shows "getPartitionLease (lease_exec op t) k = Some l"
proof (cases op)
  case (Claim key w now ms)
  show ?thesis
  proof (cases rule: claim_lease_cases [of key w now ms t])
    case (claimed c)
    have "trim_ws key \<noteq> k" using claimed(7) [of l] assms(2,3) Claim by auto
    then show ?thesis using assms(2) claimed(1,2) Claim by (simp add: put_lease_def getPartitionLease_def)
  qed (use assms(2) Claim in simp)
next
  case (Renew key w now ms)
  have "getPartitionLease (snd (renewPartitionLease key w now ms t)) k = Some l"
  proof (cases "getPartitionLease t (trim_ws key)")
    case (Some c)
    have "pl_partitionKey c = trim_ws key" using lease_of_key [OF assms(1) Some] by simp
    then show ?thesis
      using assms(2,3) Some Renew
      by (auto simp: renewPartitionLease_def Let_def put_lease_def getPartitionLease_def split: sum.splits)
  qed (use assms(2) in \<open>simp add: renewPartitionLease_def\<close>)
  then show ?thesis using Renew by simp
next
  case (Release key w now)
  then show ?thesis
    using assms(2,3) by (auto simp: releasePartitionLease_def Let_def getPartitionLease_def split: option.splits)
next
  case CompactLeases
  then show ?thesis using assms(2) by (simp add: getPartitionLease_def)
next
  case Restart
  then show ?thesis using assms(1,2) leases.durable_init [OF assms(1)] by simp
qed

lemma lease_run_foreign:
  assumes "leases.durable t" and "getPartitionLease t k = Some l"
    and "\<forall>op \<in> set ops. foreign k (pl_workerId l) (ts_ms (pl_leaseUntil l)) op"
  shows "leases.durable (lease_run ops t) \<and> getPartitionLease (lease_run ops t) k = Some l"
  using assms
proof (induction ops arbitrary: t)
  case (Cons op ops)
  then show ?case
    using lease_exec_durable [of t op] lease_exec_foreign [of t k l op] by (simp add: lease_run_def)
qed (simp add: lease_run_def)

text \<open>
  C23: a lease is exclusive for its whole span. After a worker was granted a partition, no run
  of operations by others, restarts and compactions included, takes it away before the lease
  ends: it is still held by that worker, and every claim of another worker in that time is
  turned down and changes nothing.
\<close>

theorem lease_exclusive:
  assumes "leases.durable t" and "claimPartitionLease key worker now ms t = (Inr (Some l), t1)"
    and "\<forall>op \<in> set ops. foreign (pl_partitionKey l) (pl_workerId l) (ts_ms now + lease_span ms) op"
    and "trim_ws other \<noteq> trim_ws worker" and "ts_ms stamp < ts_ms now + lease_span ms"
  shows "getPartitionLease (lease_run ops t1) (trim_ws key) = Some l \<and>
    (\<exists>r. claimPartitionLease key other stamp ms' (lease_run ops t1) = (r, lease_run ops t1) \<and> (\<forall>c. r \<noteq> Inr (Some c)))"
proof -
  have l: "pl_partitionKey l = trim_ws key" "pl_workerId l = trim_ws worker"
    "ts_ms (pl_leaseUntil l) = ts_ms now + lease_span ms" "t1 = put_lease l t" "lease_valid l"
    using assms(2) by (cases rule: claim_lease_cases [of key worker now ms t]; auto simp: lease_valid_def)+
  have "leases.durable t1" using put_lease_durable [OF assms(1)] l by simp
  moreover have "getPartitionLease t1 (trim_ws key) = Some l"
    by (simp add: l(4) put_lease_def getPartitionLease_def l(1))
  ultimately have held: "getPartitionLease (lease_run ops t1) (trim_ws key) = Some l"
    using lease_run_foreign [of t1 "trim_ws key" l ops] assms(3) l(1,3) by simp
  moreover have "\<exists>r. claimPartitionLease key other stamp ms' (lease_run ops t1) = (r, lease_run ops t1) \<and> (\<forall>c. r \<noteq> Inr (Some c))"
  proof (cases rule: claim_lease_cases [of key other stamp ms' "lease_run ops t1"])
    case (claimed c)
    then show ?thesis using claimed(7) [OF held] assms(4,5) l(2,3) by simp
  qed blast
  ultimately show ?thesis ..
qed

lemma lease_exclusive_witness:
  "\<exists>l. getPartitionLease (lease_run [Claim ''p'' ''b'' (Ts ''500'' 500) 1000, Restart]
      (snd (claimPartitionLease ''p'' ''a'' (Ts ''0'' 0) 1000 empty_table))) ''p'' = Some l \<and> pl_workerId l = ''a''"
proof -
  let ?l = "\<lparr>pl_partitionKey = ''p'', pl_workerId = ''a'', pl_leaseUntil = Ts (iso_text 1000) 1000, pl_updatedAt = Ts ''0'' 0\<rparr>"
  have run: "claimPartitionLease ''p'' ''a'' (Ts ''0'' 0) 1000 empty_table = (Inr (Some ?l), put_lease ?l empty_table)"
    by code_simp
  have e: "leases.durable empty_table" using leases.durable_empty by (simp add: empty_table_def)
  have keys: "trim_ws ''p'' = ''p''" "trim_ws ''a'' = ''a''" "trim_ws ''b'' = ''b''" "lease_span 1000 = 1000" by code_simp+
  have "\<forall>op \<in> set [Claim ''p'' ''b'' (Ts ''500'' 500) 1000, Restart]. foreign (pl_partitionKey ?l) (pl_workerId ?l)
      (ts_ms (Ts ''0'' 0) + lease_span 1000) op"
    by (simp add: keys)
  from lease_exclusive [OF e run this, of "''b''" "Ts ''1'' 1"] show ?thesis by (simp add: run keys)
qed

text \<open>The file of leases reads back as the map in memory, releases and compactions included.\<close>

lemma leases_survive_restart:
  assumes "leases.durable t"
  shows "tab_init load_lease (tab_file (lease_run ops t)) = Inr (lease_run ops t)"
proof -
  have "leases.durable (lease_run ops t)"
    using assms by (induction ops arbitrary: t) (simp_all add: lease_run_def lease_exec_durable)
  then show ?thesis by (rule leases.durable_init)
qed

end
