(* ===== verification/Derived_Graph.thy ===== *)
theory Derived_Graph
  imports Trigger_Definition
begin

text \<open>
  \<open>src/composite/derivedGraph.ts\<close>: a trigger may emit a derived event that other triggers
  consume, and a definition that would close a cycle is refused. The search is depth first
  with the sets \<open>visiting\<close> and \<open>visited\<close>, which live through the whole search; the fuel is
  its recursion depth.
\<close>

subsection \<open>The graph\<close>

definition DERIVED_SERVER_ID :: string where
  "DERIVED_SERVER_ID = ''event-intelligence:derived''"

definition eventNode :: "string \<Rightarrow> string option \<Rightarrow> string" where
  "eventNode name server =
     (case server of Some s \<Rightarrow> if s \<noteq> [] then s else DERIVED_SERVER_ID | None \<Rightarrow> DERIVED_SERVER_ID) @
     ''::'' @ name"

type_synonym derived_graph = "(string \<times> string list) list"

definition edges_of :: "derived_graph \<Rightarrow> string \<Rightarrow> string list" where
  "edges_of g node = (case map_of g node of None \<Rightarrow> [] | Some ns \<Rightarrow> ns)"

text \<open>\<open>edges.add(output)\<close> on an insertion-ordered set.\<close>

definition set_add :: "'a \<Rightarrow> 'a list \<Rightarrow> 'a list" where
  "set_add x xs = (if x \<in> set xs then xs else xs @ [x])"

definition add_edge :: "string \<Rightarrow> string \<Rightarrow> derived_graph \<Rightarrow> derived_graph" where
  "add_edge input output g = map_put input (set_add output (edges_of g input)) g"

definition add_definition :: "trigger_definition \<Rightarrow> derived_graph \<Rightarrow> derived_graph" where
  "add_definition d g = (case td_derivedEvent d of None \<Rightarrow> g
     | Some e \<Rightarrow> fold (\<lambda>c. add_edge (eventNode (clause_event c) (clause_serverId c))
         (eventNode (de_name e) (Some DERIVED_SERVER_ID))) (td_clauses d) g)"

definition counts_as_installed :: "(string \<Rightarrow> string \<Rightarrow> string option) \<Rightarrow> trigger_definition \<Rightarrow> bool" where
  "counts_as_installed getState d = (case getState (td_triggerId d) (td_version d) of None \<Rightarrow> True
     | Some status \<Rightarrow> status = ''active'' \<or> status = ''paused'')"

definition derived_graph ::
  "trigger_definition list \<Rightarrow> trigger_definition \<Rightarrow> (string \<Rightarrow> string \<Rightarrow> string option) \<Rightarrow> derived_graph"
where
  "derived_graph existing candidate getState =
     fold add_definition (filter (\<lambda>d. td_derivedEvent d \<noteq> None)
       (filter (counts_as_installed getState) existing @ [candidate])) []"

subsection \<open>The search\<close>

text \<open>\<open>visiting\<close> and \<open>visited\<close>; \<open>None\<close> is a search out of fuel.\<close>

type_synonym marks = "string list \<times> string list"

fun dfs_any :: "(string \<Rightarrow> marks \<Rightarrow> (bool \<times> marks) option) \<Rightarrow> string list \<Rightarrow> marks \<Rightarrow> (bool \<times> marks) option" where
  "dfs_any visit [] m = Some (False, m)"
| "dfs_any visit (n # ns) m = (case visit n m of
     None \<Rightarrow> None
   | Some (True, m') \<Rightarrow> Some (True, m')
   | Some (False, m') \<Rightarrow> dfs_any visit ns m')"

primrec dfs :: "nat \<Rightarrow> derived_graph \<Rightarrow> string \<Rightarrow> marks \<Rightarrow> (bool \<times> marks) option" where
  "dfs 0 g node m = None"
| "dfs (Suc k) g node m =
     (if node \<in> set (fst m) then Some (True, m)
      else if node \<in> set (snd m) then Some (False, m)
      else case dfs_any (dfs k g) (edges_of g node) (node # fst m, snd m) of
        None \<Rightarrow> None
      | Some (True, m') \<Rightarrow> Some (True, m')
      | Some (False, m') \<Rightarrow> Some (False, (removeAll node (fst m'), node # snd m')))"

fun search_cycle :: "nat \<Rightarrow> derived_graph \<Rightarrow> string list \<Rightarrow> marks \<Rightarrow> string option option" where
  "search_cycle k g [] m = Some None"
| "search_cycle k g (n # ns) m = (case dfs k g n m of
     None \<Rightarrow> None
   | Some (True, m') \<Rightarrow> Some (Some n)
   | Some (False, m') \<Rightarrow> search_cycle k g ns m')"

definition graph_nodes :: "derived_graph \<Rightarrow> string list" where
  "graph_nodes g = map fst g @ concat (map snd g)"

definition derived_cycle_error :: "string \<Rightarrow> js_error" where
  "derived_cycle_error node = JsError KError (Some ''TRIGGER_DERIVED_EVENT_CYCLE'')
     (''Derived event graph contains a cycle involving '' @ node)"

text \<open>A path in the search has at most every node of the graph once, then one step more.\<close>

definition assertNoDerivedEventCycle ::
  "trigger_definition list \<Rightarrow> trigger_definition \<Rightarrow> (string \<Rightarrow> string \<Rightarrow> string option) \<Rightarrow> (js_error + unit) option"
where
  "assertNoDerivedEventCycle existing candidate getState =
     (let g = derived_graph existing candidate getState
      in map_option (\<lambda>r. case r of None \<Rightarrow> Inr () | Some n \<Rightarrow> Inl (derived_cycle_error n))
           (search_cycle (Suc (length (graph_nodes g))) g (map fst g) ([], [])))"

subsection \<open>Edges\<close>

definition edge_rel :: "derived_graph \<Rightarrow> (string \<times> string) set" where
  "edge_rel g = {(a, b). b \<in> set (edges_of g a)}"

text \<open>An installed trigger turns an event one of its clauses accepts into its derived event.\<close>

definition derives :: "trigger_definition set \<Rightarrow> (string \<times> string) set" where
  "derives ds = {(eventNode (clause_event c) (clause_serverId c), eventNode (de_name e) (Some DERIVED_SERVER_ID)) |d c e.
     d \<in> ds \<and> c \<in> set (td_clauses d) \<and> td_derivedEvent d = Some e}"

lemma edge_rel_add_edge [simp]: "edge_rel (add_edge a b g) = insert (a, b) (edge_rel g)"
  by (auto simp: edge_rel_def add_edge_def edges_of_def map_of_map_put set_add_def split: if_splits option.splits)

lemma edge_rel_clauses:
  "edge_rel (fold (\<lambda>c. add_edge (f c) b) cs g) = edge_rel g \<union> {(f c, b) |c. c \<in> set cs}"
  by (induction cs arbitrary: g) auto

lemma edge_rel_definition: "edge_rel (add_definition d g) = edge_rel g \<union> derives {d}"
  by (auto simp: add_definition_def edge_rel_clauses derives_def split: option.splits)

lemma derives_insert: "derives (insert d ds) = derives {d} \<union> derives ds"
  unfolding derives_def by blast

lemma edge_rel_definitions: "edge_rel (fold add_definition ds g) = edge_rel g \<union> derives (set ds)"
proof (induction ds arbitrary: g)
  case (Cons d ds)
  then show ?case using derives_insert [of d "set ds"] by (simp add: edge_rel_definition) blast
qed (simp add: derives_def)

lemma edge_rel_derived_graph:
  "edge_rel (derived_graph existing candidate getState) =
     derives (insert candidate {d \<in> set existing. counts_as_installed getState d})"
  unfolding derived_graph_def edge_rel_definitions
  by (auto simp: derives_def edge_rel_def edges_of_def)

lemma edge_nodes: "(a, b) \<in> edge_rel g \<Longrightarrow> a \<in> set (map fst g) \<and> a \<in> set (graph_nodes g) \<and> b \<in> set (graph_nodes g)"
proof -
  assume "(a, b) \<in> edge_rel g"
  then obtain ns where "(a, ns) \<in> set g" "b \<in> set ns"
    by (cases "map_of g a") (auto simp: edge_rel_def edges_of_def dest: map_of_SomeD)
  then show ?thesis by (force simp: graph_nodes_def)
qed

subsection \<open>Correctness of the search\<close>

text \<open>
  Finished nodes are closed under edges, on no cycle and not under way; every node under way
  reaches the current one.
\<close>

definition marks_ok :: "derived_graph \<Rightarrow> marks \<Rightarrow> bool" where
  "marks_ok g m \<longleftrightarrow> edge_rel g `` set (snd m) \<subseteq> set (snd m) \<and>
     (\<forall>v \<in> set (snd m). (v, v) \<notin> (edge_rel g)\<^sup>+) \<and> set (fst m) \<inter> set (snd m) = {}"

definition under_way :: "derived_graph \<Rightarrow> marks \<Rightarrow> string \<Rightarrow> bool" where
  "under_way g m n \<longleftrightarrow> (\<forall>v \<in> set (fst m). (v, n) \<in> (edge_rel g)\<^sup>+)"

definition finishes :: "derived_graph \<Rightarrow> marks \<Rightarrow> string set \<Rightarrow> (bool \<times> marks) option \<Rightarrow> bool" where
  "finishes g m ns r \<longleftrightarrow> (case r of None \<Rightarrow> False
     | Some (True, m') \<Rightarrow> (\<exists>c. (c, c) \<in> (edge_rel g)\<^sup>+)
     | Some (False, m') \<Rightarrow> marks_ok g m' \<and> fst m' = fst m \<and> set (snd m) \<union> ns \<subseteq> set (snd m'))"

lemma finishes_weaken:
  assumes "finishes g m' ns r" and "fst m' = fst m" and "set (snd m) \<union> ns0 \<subseteq> set (snd m')"
  shows "finishes g m (ns0 \<union> ns) r"
proof (cases r)
  case (Some p)
  then show ?thesis using assms by (cases p; cases "fst p") (auto simp: finishes_def)
qed (use assms in \<open>simp add: finishes_def\<close>)

lemma dfs_any_finishes:
  assumes "\<And>n m. n \<in> set ns \<Longrightarrow> marks_ok g m \<Longrightarrow> fst m = vg \<Longrightarrow> finishes g m {n} (visit n m)"
    and "marks_ok g m" and "fst m = vg"
  shows "finishes g m (set ns) (dfs_any visit ns m)"
  using assms
proof (induction ns arbitrary: m)
  case (Cons n ns)
  have v: "finishes g m {n} (visit n m)" using Cons.prems by simp
  show ?case
  proof (cases "visit n m")
    case None
    then show ?thesis using v by (simp add: finishes_def)
  next
    case (Some p)
    obtain b m' where p: "p = (b, m')" by (cases p)
    show ?thesis
    proof (cases b)
      case True
      then show ?thesis using v Some p by (simp add: finishes_def)
    next
      case False
      then have ok: "marks_ok g m'" "fst m' = vg" "set (snd m) \<union> {n} \<subseteq> set (snd m')"
        using v Some p Cons.prems(3) by (auto simp: finishes_def)
      have "finishes g m' (set ns) (dfs_any visit ns m')"
        by (rule Cons.IH [OF _ ok(1,2)], rule Cons.prems(1)) simp_all
      then have "finishes g m ({n} \<union> set ns) (dfs_any visit ns m')"
        by (rule finishes_weaken) (use ok Cons.prems(3) in simp_all)
      then show ?thesis using Some p False by simp
    qed
  qed
qed (simp add: finishes_def)

lemma closed_trancl: "(a, b) \<in> E\<^sup>+ \<Longrightarrow> E `` V \<subseteq> V \<Longrightarrow> E `` {a} \<subseteq> V \<Longrightarrow> b \<in> V"
  by (induction rule: trancl_induct) auto

text \<open>A node whose successors are all finished is finished too.\<close>

lemma marks_ok_finish:
  assumes "marks_ok g (n # vg, vd)" and "edge_rel g `` {n} \<subseteq> set vd" and "n \<notin> set vg"
  shows "marks_ok g (vg, n # vd)"
proof -
  have "(n, n) \<notin> (edge_rel g)\<^sup>+"
    using closed_trancl [of n n "edge_rel g" "set vd"] assms by (auto simp: marks_ok_def)
  then show ?thesis using assms by (auto simp: marks_ok_def)
qed

lemma dfs_finishes:
  assumes "marks_ok g m" and "under_way g m n" and "n \<in> set (graph_nodes g)"
    and "card (set (graph_nodes g) - set (fst m)) < k"
  shows "finishes g m {n} (dfs k g n m)"
  using assms
proof (induction k arbitrary: n m)
  case (Suc k)
  consider "n \<in> set (fst m)" | "n \<notin> set (fst m)" "n \<in> set (snd m)" | (new) "n \<notin> set (fst m)" "n \<notin> set (snd m)"
    by blast
  then show ?case
  proof cases
    case new
    let ?m = "(n # fst m, snd m)"
    have ok: "marks_ok g ?m" using Suc.prems(1) new by (auto simp: marks_ok_def)
    have "card (set (graph_nodes g) - set (n # fst m)) < card (set (graph_nodes g) - set (fst m))"
      by (rule psubset_card_mono) (use new Suc.prems(3) in auto)
    then have fuel: "card (set (graph_nodes g) - set (n # fst m)) < k" using Suc.prems(4) by linarith
    have visit: "finishes g m' {n'} (dfs k g n' m')"
      if "n' \<in> set (edges_of g n)" "marks_ok g m'" "fst m' = n # fst m" for n' m'
    proof (rule Suc.IH)
      have e: "(n, n') \<in> edge_rel g" using that(1) by (simp add: edge_rel_def)
      then show "under_way g m' n'"
        using Suc.prems(2) that(3) by (auto simp: under_way_def intro: trancl_into_trancl)
      show "n' \<in> set (graph_nodes g)" using edge_nodes [OF e] by simp
      show "card (set (graph_nodes g) - set (fst m')) < k" using fuel that(3) by simp
    qed (rule that(2))
    have all: "finishes g ?m (set (edges_of g n)) (dfs_any (dfs k g) (edges_of g n) ?m)"
      by (rule dfs_any_finishes [OF visit ok]) simp_all
    show ?thesis
    proof (cases "dfs_any (dfs k g) (edges_of g n) ?m")
      case None
      then show ?thesis using all by (simp add: finishes_def)
    next
      case (Some p)
      obtain b m' where p: "p = (b, m')" by (cases p)
      show ?thesis
      proof (cases b)
        case True
        then show ?thesis using all Some p new by (simp add: finishes_def)
      next
        case False
        then have r: "marks_ok g m'" "fst m' = n # fst m" "set (snd m) \<union> set (edges_of g n) \<subseteq> set (snd m')"
          using all Some p by (auto simp: finishes_def)
        have "marks_ok g (fst m, n # snd m')"
          by (rule marks_ok_finish) (use r new in \<open>auto simp: edge_rel_def intro: prod.expand\<close>, metis prod.collapse)
        then show ?thesis using Some p False new r by (auto simp: finishes_def)
      qed
    qed
  qed (use Suc.prems in \<open>auto simp: finishes_def under_way_def\<close>)
qed simp

lemma search_cycle_result:
  assumes "marks_ok g m" and "fst m = []" and "set ns \<subseteq> set (graph_nodes g)"
  shows "case search_cycle (Suc (length (graph_nodes g))) g ns m of None \<Rightarrow> False
    | Some None \<Rightarrow> (\<forall>n \<in> set ns \<union> set (snd m). (n, n) \<notin> (edge_rel g)\<^sup>+)
    | Some (Some n) \<Rightarrow> (\<exists>c. (c, c) \<in> (edge_rel g)\<^sup>+)"
  using assms
proof (induction ns arbitrary: m)
  case Nil
  then show ?case by (auto simp: marks_ok_def)
next
  case (Cons n ns)
  have "finishes g m {n} (dfs (Suc (length (graph_nodes g))) g n m)"
    by (rule dfs_finishes) (use Cons.prems in \<open>auto simp: under_way_def less_Suc_eq_le intro: card_length\<close>)
  then obtain b m' where r: "dfs (Suc (length (graph_nodes g))) g n m = Some (b, m')"
    and t: "b \<Longrightarrow> \<exists>c. (c, c) \<in> (edge_rel g)\<^sup>+"
    and f: "\<not> b \<Longrightarrow> marks_ok g m' \<and> fst m' = [] \<and> set (snd m) \<union> {n} \<subseteq> set (snd m')"
    using Cons.prems(2) by (auto simp: finishes_def split: option.splits bool.splits prod.splits)
  show ?case
  proof (cases b)
    case True
    then show ?thesis using r t by simp
  next
    case False
    then have "marks_ok g m'" "fst m' = []" "set ns \<subseteq> set (graph_nodes g)" using f Cons.prems(3) by simp_all
    from Cons.IH [OF this] show ?thesis
      using r False f by (auto split: option.splits simp del: dfs.simps)
  qed
qed


end
