(* ===== verification/Trigger_Store.thy ===== *)
theory Trigger_Store
  imports Lease_Store Derived_Graph
begin

text \<open>
  The remaining tables of \<open>scripts/lib/persistent-event-store.mjs\<close> that the engine works on:
  trigger definitions, trigger states, temporal deadlines and derived events. One operation
  reads the clock once.
\<close>

subsection \<open>Trigger definitions\<close>

type_synonym trigger_table = "(string, trigger_definition, trigger_definition) table"

definition trigger_key :: "string \<Rightarrow> string \<Rightarrow> string" where
  "trigger_key triggerId version = triggerId @ ''@'' @ version"

definition key_of_trigger :: "trigger_definition \<Rightarrow> string" where
  "key_of_trigger d = trigger_key (td_triggerId d) (td_version d)"

definition load_trigger ::
  "trigger_definition \<Rightarrow> (string \<times> trigger_definition) list \<Rightarrow> js_error + (string \<times> trigger_definition) list"
where
  "load_trigger d m = Inr (map_put (key_of_trigger d) d m)"

interpretation triggers: durable_table key_of_trigger "\<lambda>d. True" "\<lambda>d. d" load_trigger
  by unfold_locales (simp add: load_trigger_def)

text \<open>The definition comes parsed, its clause arguments after \<open>safeMcpSourceArguments\<close>.\<close>

definition putTrigger :: "trigger_definition \<Rightarrow> trigger_table \<Rightarrow> (js_error + trigger_definition) \<times> trigger_table" where
  "putTrigger d t =
     (if tab_get t (key_of_trigger d) \<noteq> None
      then (Inl (JsError KError (Some ''TRIGGER_ALREADY_EXISTS'')
        (''Trigger '' @ key_of_trigger d @ '' already exists'')), t)
      else (Inr d, tab_put (key_of_trigger d) d d t))"

definition getTrigger :: "trigger_table \<Rightarrow> string \<Rightarrow> string \<Rightarrow> trigger_definition option" where
  "getTrigger t triggerId version = tab_get t (trigger_key triggerId version)"

definition listTriggers :: "trigger_table \<Rightarrow> trigger_definition list" where
  "listTriggers t = tab_values t"

subsection \<open>Trigger states\<close>

datatype trigger_status = Active | Paused | Completed | Expired_Trigger | Deleted

fun trigger_status_text :: "trigger_status \<Rightarrow> string" where
  "trigger_status_text Active = ''active''"
| "trigger_status_text Paused = ''paused''"
| "trigger_status_text Completed = ''completed''"
| "trigger_status_text Expired_Trigger = ''expired''"
| "trigger_status_text Deleted = ''deleted''"

record trigger_state =
  ts_triggerId :: string
  ts_version :: string
  ts_status :: trigger_status
  ts_updatedAt :: "string option"
  ts_actor :: "json option"
  ts_owner :: "json option"
  ts_connectionIds :: "string list"
  ts_fireCount :: int
  ts_lastFiredAt :: "timestamp option"
  ts_revision :: int

text \<open>A line of \<open>trigger-states.jsonl\<close>; \<open>None\<close> is a missing or null field.\<close>

record state_line =
  sl_triggerId :: "string option"
  sl_version :: "string option"
  sl_status :: "string option"
  sl_updatedAt :: "string option"
  sl_actor :: "json option"
  sl_owner :: "json option"
  sl_connectionIds :: "string list option"
  sl_fireCount :: "int option"
  sl_lastFiredAt :: "timestamp option"
  sl_revision :: "int option"

type_synonym state_table = "(string, trigger_state, state_line) table"

definition trigger_status_of :: "string option \<Rightarrow> trigger_status" where
  "trigger_status_of s =
     (if s = Some ''paused'' then Paused else if s = Some ''completed'' then Completed
      else if s = Some ''expired'' then Expired_Trigger else if s = Some ''deleted'' then Deleted else Active)"

definition natural :: "int option \<Rightarrow> int" where
  "natural n = (case n of Some i \<Rightarrow> if 0 \<le> i then i else 0 | None \<Rightarrow> 0)"

definition load_state ::
  "state_line \<Rightarrow> (string \<times> trigger_state) list \<Rightarrow> js_error + (string \<times> trigger_state) list"
where
  "load_state raw m =
     (if \<not> truthy_str (sl_triggerId raw) \<or> \<not> truthy_str (sl_version raw) then Inr m
      else Inr (map_put (trigger_key (the (sl_triggerId raw)) (the (sl_version raw)))
        \<lparr>ts_triggerId = the (sl_triggerId raw), ts_version = the (sl_version raw),
         ts_status = trigger_status_of (sl_status raw), ts_updatedAt = Some (str_or (sl_updatedAt raw) epoch_text),
         ts_actor = sl_actor raw, ts_owner = sl_owner raw,
         ts_connectionIds = (case sl_connectionIds raw of None \<Rightarrow> [] | Some cs \<Rightarrow> cs),
         ts_fireCount = natural (sl_fireCount raw), ts_lastFiredAt = sl_lastFiredAt raw,
         ts_revision = natural (sl_revision raw)\<rparr> m))"

definition to_state_line :: "trigger_state \<Rightarrow> state_line" where
  "to_state_line s = \<lparr>sl_triggerId = Some (ts_triggerId s), sl_version = Some (ts_version s),
     sl_status = Some (trigger_status_text (ts_status s)), sl_updatedAt = ts_updatedAt s,
     sl_actor = ts_actor s, sl_owner = ts_owner s, sl_connectionIds = Some (ts_connectionIds s),
     sl_fireCount = Some (ts_fireCount s), sl_lastFiredAt = ts_lastFiredAt s, sl_revision = Some (ts_revision s)\<rparr>"

definition state_valid :: "trigger_state \<Rightarrow> bool" where
  "state_valid s \<longleftrightarrow> ts_triggerId s \<noteq> [] \<and> ts_version s \<noteq> [] \<and> truthy_str (ts_updatedAt s) \<and>
     0 \<le> ts_fireCount s \<and> 0 \<le> ts_revision s"

lemma trigger_status_text [simp]: "trigger_status_of (Some (trigger_status_text s)) = s"
  by (cases s) (simp_all add: trigger_status_of_def)

definition key_of_state :: "trigger_state \<Rightarrow> string" where
  "key_of_state s = trigger_key (ts_triggerId s) (ts_version s)"

interpretation states: durable_table key_of_state state_valid to_state_line load_state
proof
  fix s :: trigger_state and m
  assume "state_valid s"
  then show "load_state (to_state_line s) m = Inr (map_put (key_of_state s) s m)"
    by (cases s) (auto simp: load_state_def to_state_line_def state_valid_def key_of_state_def truthy_str_def
      str_or_def natural_def split: option.splits if_splits)
qed

text \<open>Without a stored state a trigger is active and was never fired.\<close>

definition getTriggerState :: "state_table \<Rightarrow> string \<Rightarrow> string \<Rightarrow> trigger_state" where
  "getTriggerState t triggerId version = (case tab_get t (trigger_key triggerId version) of
     Some s \<Rightarrow> s
   | None \<Rightarrow> \<lparr>ts_triggerId = triggerId, ts_version = version, ts_status = Active, ts_updatedAt = None,
       ts_actor = None, ts_owner = None, ts_connectionIds = [], ts_fireCount = 0, ts_lastFiredAt = None,
       ts_revision = 0\<rparr>)"

text \<open>The metadata of \<open>setTriggerState\<close>; for \<open>lastFiredAt\<close> null and missing differ.\<close>

record state_metadata =
  md_owner :: "json option"
  md_connectionIds :: "string list option"
  md_fireCount :: "int option"
  md_lastFiredAt :: "timestamp option option"

definition setTriggerState ::
  "string \<Rightarrow> string \<Rightarrow> trigger_status \<Rightarrow> json option \<Rightarrow> state_metadata \<Rightarrow> string \<Rightarrow> state_table \<Rightarrow>
   trigger_state \<times> state_table"
where
  "setTriggerState triggerId version status actor md now t =
     (let previous = tab_get t (trigger_key triggerId version);
          s = \<lparr>ts_triggerId = triggerId, ts_version = version, ts_status = status, ts_updatedAt = Some now,
            ts_actor = actor,
            ts_owner = (case md_owner md of Some w \<Rightarrow> Some w | None \<Rightarrow> Option.bind previous ts_owner),
            ts_connectionIds = (case md_connectionIds md of Some cs \<Rightarrow> cs
              | None \<Rightarrow> (case previous of None \<Rightarrow> [] | Some p \<Rightarrow> ts_connectionIds p)),
            ts_fireCount = (case md_fireCount md of Some n \<Rightarrow> n
              | None \<Rightarrow> (case previous of None \<Rightarrow> 0 | Some p \<Rightarrow> ts_fireCount p)),
            ts_lastFiredAt = (case md_lastFiredAt md of Some f \<Rightarrow> f | None \<Rightarrow> Option.bind previous ts_lastFiredAt),
            ts_revision = (case previous of None \<Rightarrow> 0 | Some p \<Rightarrow> ts_revision p) + 1\<rparr>
      in (s, tab_put (trigger_key triggerId version) s (to_state_line s) t))"

subsection \<open>Temporal deadlines\<close>

datatype deadline_status = DPending | DCancelled | DFired

fun deadline_text :: "deadline_status \<Rightarrow> string" where
  "deadline_text DPending = ''pending''"
| "deadline_text DCancelled = ''cancelled''"
| "deadline_text DFired = ''fired''"

record temporal_deadline =
  dd_deadlineId :: string
  dd_triggerId :: string
  dd_triggerVersion :: string
  dd_matchId :: string
  dd_conditionId :: string
  dd_dueAt :: timestamp
  dd_status :: deadline_status
  dd_createdAt :: string
  dd_updatedAt :: string

record deadline_line =
  td_line_deadlineId :: "string option"
  td_line_triggerId :: "string option"
  td_line_triggerVersion :: "string option"
  td_line_matchId :: "string option"
  td_line_conditionId :: "string option"
  td_line_dueAt :: timestamp
  td_line_status :: "string option"
  td_line_createdAt :: "string option"
  td_line_updatedAt :: "string option"

type_synonym deadline_table = "(string, temporal_deadline, deadline_line) table"

definition deadline_status_of :: "string option \<Rightarrow> deadline_status" where
  "deadline_status_of s =
     (if s = Some ''cancelled'' then DCancelled else if s = Some ''fired'' then DFired else DPending)"

definition load_deadline ::
  "deadline_line \<Rightarrow> (string \<times> temporal_deadline) list \<Rightarrow> js_error + (string \<times> temporal_deadline) list"
where
  "load_deadline raw m =
     (if \<not> truthy_str (td_line_deadlineId raw) \<or> \<not> truthy_str (td_line_triggerId raw) \<or>
         \<not> truthy_str (td_line_matchId raw) \<or> \<not> truthy_str (td_line_conditionId raw) then Inr m
      else Inr (map_put (the (td_line_deadlineId raw))
        \<lparr>dd_deadlineId = the (td_line_deadlineId raw), dd_triggerId = the (td_line_triggerId raw),
         dd_triggerVersion = str_or (td_line_triggerVersion raw) ''1'', dd_matchId = the (td_line_matchId raw),
         dd_conditionId = the (td_line_conditionId raw), dd_dueAt = td_line_dueAt raw,
         dd_status = deadline_status_of (td_line_status raw),
         dd_createdAt = str_or (td_line_createdAt raw) epoch_text,
         dd_updatedAt = str_or (td_line_updatedAt raw) epoch_text\<rparr> m))"

definition to_deadline_line :: "temporal_deadline \<Rightarrow> deadline_line" where
  "to_deadline_line d = \<lparr>td_line_deadlineId = Some (dd_deadlineId d), td_line_triggerId = Some (dd_triggerId d),
     td_line_triggerVersion = Some (dd_triggerVersion d), td_line_matchId = Some (dd_matchId d),
     td_line_conditionId = Some (dd_conditionId d), td_line_dueAt = dd_dueAt d,
     td_line_status = Some (deadline_text (dd_status d)), td_line_createdAt = Some (dd_createdAt d),
     td_line_updatedAt = Some (dd_updatedAt d)\<rparr>"

definition deadline_valid :: "temporal_deadline \<Rightarrow> bool" where
  "deadline_valid d \<longleftrightarrow> dd_deadlineId d \<noteq> [] \<and> dd_triggerId d \<noteq> [] \<and> dd_triggerVersion d \<noteq> [] \<and>
     dd_matchId d \<noteq> [] \<and> dd_conditionId d \<noteq> [] \<and> dd_createdAt d \<noteq> [] \<and> dd_updatedAt d \<noteq> []"

lemma deadline_status_text [simp]: "deadline_status_of (Some (deadline_text s)) = s"
  by (cases s) (simp_all add: deadline_status_of_def)

interpretation deadlines: durable_table dd_deadlineId deadline_valid to_deadline_line load_deadline
proof
  fix d :: temporal_deadline and m
  assume "deadline_valid d"
  then show "load_deadline (to_deadline_line d) m = Inr (map_put (dd_deadlineId d) d m)"
    by (cases d) (auto simp: load_deadline_def to_deadline_line_def deadline_valid_def truthy_str_def str_or_def)
qed

definition getTemporalDeadline :: "deadline_table \<Rightarrow> string \<Rightarrow> temporal_deadline option" where
  "getTemporalDeadline t i = tab_get t i"

record deadline_filter =
  df_triggerId :: "string option"
  df_matchId :: "string option"
  df_status :: "deadline_status option"

definition listTemporalDeadlines :: "deadline_table \<Rightarrow> deadline_filter \<Rightarrow> temporal_deadline list" where
  "listTemporalDeadlines t f = filter (\<lambda>d.
     (\<not> truthy_str (df_triggerId f) \<or> df_triggerId f = Some (dd_triggerId d)) \<and>
     (\<not> truthy_str (df_matchId f) \<or> df_matchId f = Some (dd_matchId d)) \<and>
     (case df_status f of None \<Rightarrow> True | Some s \<Rightarrow> dd_status d = s)) (tab_values t)"

definition listDueTemporalDeadlines :: "deadline_table \<Rightarrow> int \<Rightarrow> temporal_deadline list" where
  "listDueTemporalDeadlines t nowMs = sort_by (key_cmp (ts_ms \<circ> dd_dueAt) int_cmp)
     (filter (\<lambda>d. ts_ms (dd_dueAt d) \<le> nowMs)
       (listTemporalDeadlines t \<lparr>df_triggerId = None, df_matchId = None, df_status = Some DPending\<rparr>))"

record deadline_input =
  di_deadlineId :: string
  di_triggerId :: string
  di_triggerVersion :: string
  di_matchId :: string
  di_conditionId :: string
  di_dueAt :: timestamp
  di_status :: "deadline_status option"

definition putTemporalDeadline ::
  "deadline_input \<Rightarrow> string \<Rightarrow> deadline_table \<Rightarrow> (js_error + temporal_deadline) \<times> deadline_table"
where
  "putTemporalDeadline input now t =
     (if di_deadlineId input = [] \<or> di_triggerId input = [] \<or> di_matchId input = [] \<or> di_conditionId input = []
      then (Inl (plain_error ''Temporal deadline requires deadlineId, triggerId, matchId and conditionId''), t)
      else let existing = tab_get t (di_deadlineId input);
               d = \<lparr>dd_deadlineId = di_deadlineId input, dd_triggerId = di_triggerId input,
                 dd_triggerVersion = (if di_triggerVersion input = [] then ''1'' else di_triggerVersion input),
                 dd_matchId = di_matchId input, dd_conditionId = di_conditionId input, dd_dueAt = di_dueAt input,
                 dd_status = (case di_status input of Some s \<Rightarrow> s
                   | None \<Rightarrow> (case existing of None \<Rightarrow> DPending | Some e \<Rightarrow> dd_status e)),
                 dd_createdAt = str_or (map_option dd_createdAt existing) now, dd_updatedAt = now\<rparr>
           in (Inr d, tab_put (di_deadlineId input) d (to_deadline_line d) t))"

definition setTemporalDeadlineStatus ::
  "string \<Rightarrow> deadline_status \<Rightarrow> string \<Rightarrow> deadline_table \<Rightarrow> (js_error + temporal_deadline option) \<times> deadline_table"
where
  "setTemporalDeadlineStatus deadlineId status now t =
     (case getTemporalDeadline t deadlineId of
        None \<Rightarrow> (Inr None, t)
      | Some e \<Rightarrow>
          (case putTemporalDeadline \<lparr>di_deadlineId = dd_deadlineId e, di_triggerId = dd_triggerId e,
               di_triggerVersion = dd_triggerVersion e, di_matchId = dd_matchId e,
               di_conditionId = dd_conditionId e, di_dueAt = dd_dueAt e, di_status = Some status\<rparr> now t of
             (Inl err, t') \<Rightarrow> (Inl err, t')
           | (Inr d, t') \<Rightarrow> (Inr (Some d), t')))"

lemma put_deadline_durable:
  assumes "deadlines.durable t" and "now \<noteq> []" and "putTemporalDeadline input now t = (r, t')"
  shows "deadlines.durable t'"
proof (cases "di_deadlineId input = [] \<or> di_triggerId input = [] \<or> di_matchId input = [] \<or> di_conditionId input = []")
  case True
  then show ?thesis using assms by (auto simp: putTemporalDeadline_def)
next
  case False
  then obtain d where t': "t' = tab_put (di_deadlineId input) d (to_deadline_line d) t" and id: "dd_deadlineId d = di_deadlineId input"
    and v: "deadline_valid d"
    using assms(2,3) by (auto simp: putTemporalDeadline_def Let_def deadline_valid_def str_or_def split: option.splits if_splits)
  show ?thesis unfolding t' by (rule deadlines.durable_put [OF assms(1) v]) (simp add: id)
qed

lemma set_deadline_durable:
  assumes "deadlines.durable t" and "now \<noteq> []" and "setTemporalDeadlineStatus i s now t = (r, t')"
  shows "deadlines.durable t'"
  using assms put_deadline_durable [OF assms(1,2)]
  by (auto simp: setTemporalDeadlineStatus_def split: option.splits prod.splits sum.splits)

lemma set_state_durable:
  assumes "states.durable t" and "i \<noteq> []" and "v \<noteq> []" and "now \<noteq> []" and "\<forall>n. md_fireCount md = Some n \<longrightarrow> 0 \<le> n"
  shows "states.durable (snd (setTriggerState i v st actor md now t))"
proof -
  let ?s = "fst (setTriggerState i v st actor md now t)"
  have t': "snd (setTriggerState i v st actor md now t) = tab_put (trigger_key i v) ?s (to_state_line ?s) t"
    by (simp add: setTriggerState_def Let_def)
  have "state_valid p" if "tab_get t (trigger_key i v) = Some p" for p
    using states.durable_get [OF assms(1) that] by simp
  then have "state_valid ?s"
    using assms(2-5) by (auto simp: setTriggerState_def Let_def state_valid_def truthy_str_def split: option.splits)
  moreover have "trigger_key i v = key_of_state ?s" by (simp add: setTriggerState_def Let_def key_of_state_def)
  ultimately show ?thesis unfolding t' by (rule states.durable_put [OF assms(1)])
qed

end
