(* ===== verification/Audit_Chain.thy ===== *)
theory Audit_Chain
  imports Match_Store
begin

text \<open>
  The audit log: canonical JSON and the lifecycle table of a wake (\<open>canonical.ts\<close>,
  \<open>lifecycle.ts\<close>), the chain of records each of which carries the hash of the one before
  (\<open>audit.ts\<close>), and its file in \<open>scripts/lib/persistent-event-store.mjs\<close>. SHA-256 of the UTF-8
  bytes of a text, in hexadecimal, is a parameter.
\<close>

type_synonym hash_function = "string \<Rightarrow> string"

subsection \<open>Canonical JSON\<close>

fun normalize_json :: "host \<Rightarrow> json \<Rightarrow> json" where
  "normalize_json h (JArr vs) = JArr (map (normalize_json h) vs)"
| "normalize_json h (JObj kvs) =
     JObj (from_entries (map (\<lambda>kv. (fst kv, normalize_json h (snd kv))) (sort_by (key_cmp fst (collate h)) kvs)))"
| "normalize_json h v = v"

definition canonicalJson :: "host \<Rightarrow> json \<Rightarrow> string" where
  "canonicalJson h v = stringify (normalize_json h v)"

text \<open>\<open>sha256Hex\<close> of a value that is not a text.\<close>

definition sha256Hex_value :: "host \<Rightarrow> hash_function \<Rightarrow> json \<Rightarrow> string" where
  "sha256Hex_value h sha v = (case v of JStr s \<Rightarrow> sha s | _ \<Rightarrow> sha (canonicalJson h v))"

subsection \<open>The lifecycle of a wake\<close>

datatype lifecycle_state = Wake_Queued | Wake_Delivered | Dead_Letter

fun allowedTransitions :: "lifecycle_state \<Rightarrow> lifecycle_state list" where
  "allowedTransitions Wake_Queued = [Wake_Delivered, Dead_Letter]"
| "allowedTransitions Wake_Delivered = []"
| "allowedTransitions Dead_Letter = []"

definition canTransition :: "lifecycle_state \<Rightarrow> lifecycle_state \<Rightarrow> bool" where
  "canTransition a b = (b \<in> set (allowedTransitions a))"

fun lifecycle_text :: "lifecycle_state \<Rightarrow> string" where
  "lifecycle_text Wake_Queued = ''wake_queued''"
| "lifecycle_text Wake_Delivered = ''wake_delivered''"
| "lifecycle_text Dead_Letter = ''dead_letter''"

definition assertTransition :: "lifecycle_state \<Rightarrow> lifecycle_state \<Rightarrow> js_error option" where
  "assertTransition a b = (if canTransition a b then None
     else Some (plain_error (''Invalid event-intelligence lifecycle transition: '' @ lifecycle_text a @
       '' -> '' @ lifecycle_text b)))"

subsection \<open>Records\<close>

text \<open>The states are optional and nullable: \<open>None\<close> is a missing field, \<open>Some None\<close> is null.\<close>

record audit_input =
  ai_auditId :: string
  ai_traceId :: string
  ai_timestamp :: timestamp
  ai_kind :: string
  ai_entityType :: string
  ai_entityId :: string
  ai_fromState :: "lifecycle_state option option"
  ai_toState :: "lifecycle_state option option"
  ai_details :: jobj

record audit_record =
  ar_input :: audit_input
  ar_sequence :: nat
  ar_previousHash :: "string option"
  ar_hash :: string

definition AUDIT_KINDS :: "string list" where
  "AUDIT_KINDS = [''event.late_dropped'', ''event.buffer_overflow'', ''wake.queued'', ''wake.delivered'',
     ''wake.retry_scheduled'', ''wake.dead_letter'', ''trigger.partial'', ''trigger.correlation'',
     ''trigger.matched'', ''trigger.fired'', ''trigger.emitted'', ''trigger.expired'', ''trigger.created'',
     ''trigger.paused'', ''trigger.resumed'', ''trigger.updated'', ''trigger.deleted'', ''trigger.completed'',
     ''trigger.lifecycle_expired'', ''event_source.registered'', ''derived_event.created'',
     ''derived_event.replayed'', ''derived_contract.created'', ''derived_contract.producer_registered'',
     ''derived_contract.conflict'', ''error'']"

definition ENTITY_TYPES :: "string list" where
  "ENTITY_TYPES = [''event'', ''wake'', ''subscription'', ''runtime'', ''trigger_match'', ''trigger'',
     ''event_source'', ''derived_event'', ''derived_contract'']"

text \<open>\<open>/^[a-f0-9]{64}$/\<close>.\<close>

definition hex64 :: "string \<Rightarrow> bool" where
  "hex64 s \<longleftrightarrow> length s = 64 \<and> list_all (\<lambda>c. is_digit c \<or> c \<in> set ''abcdef'') s"

definition audit_id :: "string \<Rightarrow> bool" where
  "audit_id s \<longleftrightarrow> s \<noteq> [] \<and> length s \<le> 200"

text \<open>\<open>AuditRecordSchema\<close>; the details are an object and the timestamp is one.\<close>

definition audit_record_ok :: "audit_record \<Rightarrow> bool" where
  "audit_record_ok r \<longleftrightarrow> (let i = ar_input r in
     audit_id (ai_auditId i) \<and> audit_id (ai_traceId i) \<and> ai_kind i \<in> set AUDIT_KINDS \<and>
     ai_entityType i \<in> set ENTITY_TYPES \<and> audit_id (ai_entityId i) \<and>
     opt_all hex64 (ar_previousHash r) \<and> hex64 (ar_hash r))"

definition parseAuditRecord :: "audit_record \<Rightarrow> js_error + audit_record" where
  "parseAuditRecord r = (if audit_record_ok r then Inr r
     else Inl (JsError KError None ''Invalid audit record''))"

definition state_field :: "string \<Rightarrow> lifecycle_state option option \<Rightarrow> jobj" where
  "state_field k s = (case s of None \<Rightarrow> [] | Some v \<Rightarrow> [(k, nullable (map_option lifecycle_text v))])"

definition unsigned_json :: "audit_input \<Rightarrow> nat \<Rightarrow> string option \<Rightarrow> json" where
  "unsigned_json i n prev = JObj ([(''auditId'', JStr (ai_auditId i)), (''sequence'', JNum (num_of_int (int n))),
     (''traceId'', JStr (ai_traceId i)), (''timestamp'', JStr (ts_text (ai_timestamp i))),
     (''kind'', JStr (ai_kind i)), (''entityType'', JStr (ai_entityType i)), (''entityId'', JStr (ai_entityId i))] @
     state_field ''fromState'' (ai_fromState i) @ state_field ''toState'' (ai_toState i) @
     [(''details'', JObj (ai_details i)), (''previousHash'', nullable prev)])"

definition audit_text :: "host \<Rightarrow> audit_record \<Rightarrow> string" where
  "audit_text h r = canonicalJson h (unsigned_json (ar_input r) (ar_sequence r) (ar_previousHash r))"

definition buildAuditRecordAt ::
  "host \<Rightarrow> hash_function \<Rightarrow> audit_input \<Rightarrow> int \<Rightarrow> string option \<Rightarrow> js_error + audit_record"
where
  "buildAuditRecordAt h sha i n prev =
     (if MAX_SAFE_INTEGER < \<bar>n\<bar> \<or> n < 0 \<or> (n = 0) \<noteq> (prev = None) \<or> \<not> opt_all hex64 prev
      then Inl (JsError KTypeError None ''Invalid audit sequence/predecessor pair'')
      else case (case (ai_fromState i, ai_toState i) of
             (Some (Some a), Some (Some b)) \<Rightarrow> assertTransition a b
           | _ \<Rightarrow> None) of
          Some e \<Rightarrow> Inl e
        | None \<Rightarrow>
            let hash = sha (canonicalJson h (unsigned_json i (nat n) prev))
            in parseAuditRecord \<lparr>ar_input = i, ar_sequence = nat n, ar_previousHash = prev, ar_hash = hash\<rparr>)"

subsection \<open>The chain\<close>

definition head_hash :: "audit_record list \<Rightarrow> string option" where
  "head_hash chain = (if chain = [] then None else Some (ar_hash (last chain)))"

definition append_audit ::
  "host \<Rightarrow> hash_function \<Rightarrow> audit_input \<Rightarrow> audit_record list \<Rightarrow> (js_error + audit_record) \<times> audit_record list"
where
  "append_audit h sha i chain =
     (case buildAuditRecordAt h sha i (int (length chain)) (head_hash chain) of
        Inl e \<Rightarrow> (Inl e, chain)
      | Inr r \<Rightarrow> (Inr r, chain @ [r]))"

fun verify_loop :: "host \<Rightarrow> hash_function \<Rightarrow> nat \<Rightarrow> string option \<Rightarrow> audit_record list \<Rightarrow> bool" where
  "verify_loop h sha index prev [] = True"
| "verify_loop h sha index prev (r # rs) =
     (if ar_sequence r \<noteq> index then False
      else if ar_previousHash r \<noteq> prev then False
      else if ar_hash r \<noteq> sha (audit_text h r) then False
      else verify_loop h sha (index + 1) (Some (ar_hash r)) rs)"

definition verify_audit :: "host \<Rightarrow> hash_function \<Rightarrow> audit_record list \<Rightarrow> bool" where
  "verify_audit h sha chain = verify_loop h sha 0 None chain"

text \<open>The file of the log: one record a line; \<open>init\<close> refuses a chain that does not verify.\<close>

definition init_audit :: "host \<Rightarrow> hash_function \<Rightarrow> audit_record list \<Rightarrow> js_error + audit_record list" where
  "init_audit h sha file =
     (if \<not> list_all audit_record_ok file then Inl (JsError KError None ''Invalid audit record'')
      else if \<not> verify_audit h sha file then Inl (plain_error ''Persistent audit chain verification failed'')
      else Inr file)"

definition listAudit :: "audit_record list \<Rightarrow> string option \<Rightarrow> int \<Rightarrow> audit_record list" where
  "listAudit chain trace afterSequence =
     filter (\<lambda>r. \<not> truthy_str trace \<or> trace = Some (ai_traceId (ar_input r)))
       (filter (\<lambda>r. afterSequence < int (ar_sequence r)) chain)"

subsection \<open>What canonical JSON keeps\<close>

lemma sorted_keys:
  assumes "distinct (map fst m)"
  shows "distinct (map fst (map (\<lambda>kv. (fst kv, f (snd kv))) (sort_by cmp m)))"
proof -
  have "mset (map fst (sort_by cmp m)) = mset (map fst m)" by simp
  then have "distinct (map fst (sort_by cmp m))" using assms by (metis mset_eq_imp_distinct_iff)
  then show ?thesis by (simp add: comp_def)
qed

lemma mset_sorted_values:
  "distinct (map fst m) \<Longrightarrow> mset (from_entries (map (\<lambda>kv. (fst kv, f (snd kv))) (sort_by cmp m))) =
     mset (map (\<lambda>kv. (fst kv, f (snd kv))) m)"
  using mset_from_entries [OF sorted_keys [of m f cmp]] by simp

lemma map_of_map_snd: "map_of (map (\<lambda>kv. (fst kv, f (snd kv))) m) k = map_option f (map_of m k)"
  by (induction m) auto

text \<open>Whatever the collation of the process does, equal canonical forms mean equal values.\<close>

lemma normalize_same:
  "json_ok a \<Longrightarrow> json_ok b \<Longrightarrow> normalize_json h a = normalize_json h b \<Longrightarrow> same_json a b"
proof (induction a arbitrary: b)
  case (JArr vs)
  show ?case
  proof (cases b)
    case b: (JArr ws)
    then have "map (normalize_json h) vs = map (normalize_json h) ws" using JArr.prems by simp
    then show ?thesis
      using JArr b by (auto simp: list_all2_conv_all_nth list_eq_iff_nth_eq list_all_length)
  qed (use JArr.prems in auto)
next
  case (JObj kvs)
  show ?case
  proof (cases b)
    case b: (JObj lws)
    let ?n = "map (\<lambda>kv. (fst kv, normalize_json h (snd kv)))"
    have d: "distinct (map fst kvs)" "distinct (map fst lws)" using JObj.prems b by simp_all
    then have dn: "distinct (map fst (?n kvs))" "distinct (map fst (?n lws))" by (simp_all add: comp_def)
    have "from_entries (?n (sort_by (key_cmp fst (collate h)) kvs)) = from_entries (?n (sort_by (key_cmp fst (collate h)) lws))"
      using JObj.prems(3) b by simp
    from arg_cong [OF this, of mset] have "mset (?n kvs) = mset (?n lws)"
      by (simp only: mset_sorted_values d)
    then have same: "length kvs = length lws" "\<And>kv. kv \<in> set kvs \<Longrightarrow> map_of (?n lws) (fst kv) = Some (normalize_json h (snd kv))"
      using mset_eq_iff_lookup [OF dn] by auto
    have ok: "json_ok u" if "map_of lws k = Some u" for k u
      using JObj.prems(2) b map_of_SomeD [OF that] by (auto simp: list_all_iff)
    have "case map_of lws (fst kv) of None \<Rightarrow> False | Some u \<Rightarrow> same_json (snd kv) u" if kv: "kv \<in> set kvs" for kv
    proof (cases "map_of lws (fst kv)")
      case None
      then show ?thesis using same(2) [OF kv] by (simp add: map_of_map_snd)
    next
      case (Some u)
      have "json_ok (snd kv)" using JObj.prems(1) kv by (auto simp: list_all_iff)
      moreover have "normalize_json h (snd kv) = normalize_json h u" using same(2) [OF kv] Some by (simp add: map_of_map_snd)
      ultimately show ?thesis
        using JObj.IH [OF kv, of "snd kv" u] ok [OF Some] Some by (cases kv) (simp add: snds.intros)
    qed
    then show ?thesis using b same(1) by simp
  qed (use JObj.prems in auto)
qed (case_tac b; auto)+

lemma json_ok_normalize: "json_ok a \<Longrightarrow> json_ok (normalize_json h a)"
proof (induction a)
  case (JObj kvs)
  let ?f = "\<lambda>kv. (fst kv, normalize_json h (snd kv))"
  let ?es = "from_entries (map ?f (sort_by (key_cmp fst (collate h)) kvs))"
  have d: "distinct (map fst kvs)" using JObj.prems by simp
  have m: "mset ?es = mset (map ?f kvs)" by (rule mset_sorted_values [OF d])
  have "mset (map fst ?es) = image_mset fst (mset (map ?f kvs))" by (simp only: mset_map m)
  also have "\<dots> = mset (map fst kvs)" by (simp add: image_mset.compositionality comp_def)
  finally have keys: "mset (map fst ?es) = mset (map fst kvs)" .
  have "distinct (map fst ?es)" using mset_eq_imp_distinct_iff [OF keys] d by simp
  moreover have "json_ok (snd e)" if "e \<in> set ?es" for e
  proof -
    have "e \<in> set (map ?f kvs)" using that arg_cong [OF m, of set_mset] by (simp only: set_mset_mset)
    then obtain kv where kv: "kv \<in> set kvs" and e: "snd e = normalize_json h (snd kv)" by auto
    have "json_ok (snd kv)" using JObj.prems kv by (auto simp: list_all_iff)
    then show ?thesis using JObj.IH [OF kv, of "snd kv"] e by (cases kv) (simp add: snds.intros)
  qed
  ultimately show ?case by (simp only: normalize_json.simps json_ok.simps list_all_iff) simp
qed (auto simp: list_all_iff)

lemma canonicalJson_same:
  assumes "json_ok a" and "json_ok b" and "canonicalJson h a = canonicalJson h b"
  shows "same_json a b"
proof (rule normalize_same [OF assms(1,2)])
  show "normalize_json h a = normalize_json h b"
    using assms(3) stringify_inj [OF json_ok_normalize [OF assms(1)] json_ok_normalize [OF assms(2)], of h h]
    by (simp add: canonicalJson_def)
qed

subsection \<open>Evidence of tampering\<close>

text \<open>Equal records: all fields, the details up to the order of their keys.\<close>

definition same_audit_input :: "audit_input \<Rightarrow> audit_input \<Rightarrow> bool" where
  "same_audit_input i j \<longleftrightarrow> ai_auditId i = ai_auditId j \<and> ai_traceId i = ai_traceId j \<and>
     ts_text (ai_timestamp i) = ts_text (ai_timestamp j) \<and> ai_kind i = ai_kind j \<and>
     ai_entityType i = ai_entityType j \<and> ai_entityId i = ai_entityId j \<and> ai_fromState i = ai_fromState j \<and>
     ai_toState i = ai_toState j \<and> same_json (JObj (ai_details i)) (JObj (ai_details j))"

definition same_audit :: "audit_record \<Rightarrow> audit_record \<Rightarrow> bool" where
  "same_audit r q \<longleftrightarrow> same_audit_input (ar_input r) (ar_input q) \<and> ar_sequence r = ar_sequence q \<and>
     ar_previousHash r = ar_previousHash q \<and> ar_hash r = ar_hash q"

lemma lifecycle_text_inj [simp]: "lifecycle_text a = lifecycle_text b \<longleftrightarrow> a = b"
  by (cases a; cases b) simp_all

lemma lifecycle_texts_inj [simp]: "map_option lifecycle_text a = map_option lifecycle_text b \<longleftrightarrow> a = b"
  by (cases a; cases b) simp_all

lemma nullable_inj [simp]: "nullable a = nullable b \<longleftrightarrow> a = b"
  by (cases a; cases b) (simp_all add: nullable_def)

lemma same_json_nullable [simp]: "same_json (nullable a) v \<longleftrightarrow> nullable a = v"
  by (cases a) (auto simp: nullable_def)

lemma unsigned_same:
  "same_json (unsigned_json i n p) (unsigned_json j n q) \<Longrightarrow> same_audit_input i j \<and> p = q"
  by (cases "ai_fromState i"; cases "ai_fromState j"; cases "ai_toState i"; cases "ai_toState j")
    (simp_all add: unsigned_json_def state_field_def same_audit_input_def del: map_option_case)

lemma json_ok_unsigned:
  assumes "json_ok (JObj (ai_details i))" and "n < 2 ^ 53"
  shows "json_ok (unsigned_json i n p)"
proof -
  have small: "\<bar>int n\<bar> < 2 ^ 53" using assms(2) by simp
  have "json_ok (JNum (num_of_int (int n)))" using num_of_int_safe [OF small] is_double_safe [OF small] by simp
  moreover have "json_ok (nullable s)" for s by (cases s) (simp_all add: nullable_def)
  ultimately show ?thesis
    using assms(1) by (cases "ai_fromState i"; cases "ai_toState i") (simp_all add: unsigned_json_def state_field_def)
qed

lemma verify_loop_append:
  "verify_loop h sha n p (xs @ [r]) \<longleftrightarrow> verify_loop h sha n p xs \<and> ar_sequence r = n + length xs \<and>
     ar_previousHash r = (if xs = [] then p else Some (ar_hash (last xs))) \<and> ar_hash r = sha (audit_text h r)"
  by (induction xs arbitrary: n p) auto

lemma verify_audit_append:
  "verify_audit h sha (xs @ [r]) \<longleftrightarrow> verify_audit h sha xs \<and> ar_sequence r = length xs \<and>
     ar_previousHash r = head_hash xs \<and> ar_hash r = sha (audit_text h r)"
  by (simp add: verify_audit_def verify_loop_append head_hash_def)


text \<open>
  The log is append-only and always loads. An append either throws and changes nothing, or
  adds one record that carries the input, the next sequence number and the hash of the record
  before; the file that results is accepted by the next start.
\<close>

theorem audit_append_only:
  assumes "init_audit h sha chain = Inr chain" and "append_audit h sha i chain = (result, chain')"
  shows "init_audit h sha chain' = Inr chain' \<and>
    (case result of Inl e \<Rightarrow> chain' = chain
     | Inr r \<Rightarrow> chain' = chain @ [r] \<and> ar_input r = i \<and> ar_sequence r = length chain \<and> ar_previousHash r = head_hash chain)"
proof (cases "buildAuditRecordAt h sha i (int (length chain)) (head_hash chain)")
  case (Inl e)
  then have "result = Inl e" and "chain' = chain" using assms(2) by (simp_all add: append_audit_def)
  then show ?thesis using assms(1) by simp
next
  case (Inr r)
  have r: "r = \<lparr>ar_input = i, ar_sequence = length chain, ar_previousHash = head_hash chain,
      ar_hash = sha (canonicalJson h (unsigned_json i (length chain) (head_hash chain)))\<rparr>" and "audit_record_ok r"
    using Inr by (auto simp: buildAuditRecordAt_def parseAuditRecord_def Let_def split: if_splits option.splits)
  then have "init_audit h sha (chain @ [r]) = Inr (chain @ [r])"
    using assms(1) by (simp add: init_audit_def verify_audit_append audit_text_def split: if_splits)
  moreover have "result = Inr r" and "chain' = chain @ [r]" using assms(2) Inr by (simp_all add: append_audit_def)
  ultimately show ?thesis by (simp add: r)
qed

text \<open>A chain of one record, under a hash that tells texts of even and odd length apart.\<close>

definition sample_audit :: "string \<Rightarrow> audit_input" where
  "sample_audit i = \<lparr>ai_auditId = i, ai_traceId = ''t'', ai_timestamp = Ts ''now'' 0, ai_kind = ''trigger.fired'',
     ai_entityType = ''trigger'', ai_entityId = ''e'', ai_fromState = None, ai_toState = Some (Some Wake_Queued),
     ai_details = [(''b'', JNull), (''a'', JBool True)]\<rparr>"

definition sample_sha :: hash_function where
  "sample_sha s = replicate 63 (CHR ''0'') @ (if even (length s) then ''1'' else ''2'')"

definition sample_chain :: "audit_record list" where
  "sample_chain = snd (append_audit sample_host sample_sha (sample_audit ''a'') [])"

lemma sample_chain_ok: "verify_audit sample_host sample_sha sample_chain" "length sample_chain = 1"
  "list_all (\<lambda>r. json_ok (JObj (ai_details (ar_input r)))) sample_chain"
proof -
  have one: "(case c of [r] \<Rightarrow> verify_audit sample_host sample_sha [r] \<and> json_ok (JObj (ai_details (ar_input r))) | _ \<Rightarrow> False) \<Longrightarrow>
      verify_audit sample_host sample_sha c \<and> length c = 1 \<and> list_all (\<lambda>r. json_ok (JObj (ai_details (ar_input r)))) c" for c
    by (simp split: list.splits)
  have "case sample_chain of [r] \<Rightarrow> verify_audit sample_host sample_sha [r] \<and> json_ok (JObj (ai_details (ar_input r))) | _ \<Rightarrow> False"
    by code_simp
  from one [OF this] show "verify_audit sample_host sample_sha sample_chain" "length sample_chain = 1"
    "list_all (\<lambda>r. json_ok (JObj (ai_details (ar_input r)))) sample_chain" by blast+
qed


lemma audit_append_only_witness:
  "init_audit sample_host sample_sha sample_chain = Inr sample_chain \<and> length sample_chain = 1"
proof -
  have e: "init_audit sample_host sample_sha [] = Inr []" by (simp add: init_audit_def verify_audit_def)
  show ?thesis
    using audit_append_only [OF e surjective_pairing, of "sample_audit ''a''"] sample_chain_ok(2)
    by (simp add: sample_chain_def)
qed

end
