(* ===== verification/Derived_Store.thy ===== *)
theory Derived_Store
  imports Trigger_Store Audit_Chain
begin

text \<open>
  Derived events, their contracts and wake records: the records of
  \<open>src/intelligenceProtocol/triggerSchemas.ts\<close> and \<open>schemas.ts\<close>, and their tables in
  \<open>scripts/lib/persistent-event-store.mjs\<close>.
\<close>

subsection \<open>Wake records\<close>

datatype wake_status = Queued | Delivered | Dead

record wake_record =
  wr_wakeId :: string
  wr_traceId :: string
  wr_decisionId :: "string option"
  wr_subscriptionId :: string
  wr_sourceEventId :: string
  wr_createdAt :: timestamp
  wr_target :: runtime_target
  wr_status :: wake_status
  wr_runtimeReceiptId :: "string option"

definition target_ok :: "runtime_target \<Rightarrow> bool" where
  "target_ok t \<longleftrightarrow> rt_runtime t \<noteq> [] \<and> rt_kind t \<noteq> [] \<and> length (rt_kind t) \<le> 100 \<and> audit_id (rt_id t)"

definition wake_record_ok :: "wake_record \<Rightarrow> bool" where
  "wake_record_ok r \<longleftrightarrow> audit_id (wr_wakeId r) \<and> audit_id (wr_traceId r) \<and> opt_all audit_id (wr_decisionId r) \<and>
     audit_id (wr_subscriptionId r) \<and> audit_id (wr_sourceEventId r) \<and> target_ok (wr_target r) \<and>
     opt_all audit_id (wr_runtimeReceiptId r)"

definition parseWakeRecord :: "wake_record \<Rightarrow> js_error + wake_record" where
  "parseWakeRecord r = (if wake_record_ok r then Inr r else Inl (JsError KError None ''Invalid wake record''))"

text \<open>The log of wake records: the list is also the content of \<open>wakes.jsonl\<close>.\<close>

definition appendWake :: "wake_record \<Rightarrow> wake_record list \<Rightarrow> wake_record list" where
  "appendWake r wakes = wakes @ [r]"

definition latestWake :: "wake_record list \<Rightarrow> string \<Rightarrow> wake_record option" where
  "latestWake wakes wakeId = find (\<lambda>r. wr_wakeId r = wakeId) (rev wakes)"

lemma latestWake_append:
  "latestWake (appendWake r wakes) wakeId = (if wr_wakeId r = wakeId then Some r else latestWake wakes wakeId)"
  by (simp add: latestWake_def appendWake_def)

subsection \<open>Derived events\<close>

text \<open>\<open>_derived\<close> of a source may hold any value, so the last two fields are values until they pass the schema.\<close>

record evidence_ref =
  er_serverId :: "string option"
  er_eventName :: string
  er_sourceEventId :: string
  er_traceId :: string
  er_occurredAt :: timestamp
  er_receivedAt :: "timestamp option"
  er_payloadHash :: "string option"
  er_contractVersion :: json
  er_schemaFingerprint :: json

record derived_event_record =
  dr_event :: correlatable_event
  dr_triggerId :: string
  dr_triggerVersion :: string
  dr_matchId :: string
  dr_directParents :: "evidence_ref list"
  dr_rootEvidence :: "evidence_ref list"
  dr_createdAt :: timestamp

definition null_or :: "(string \<Rightarrow> bool) \<Rightarrow> json \<Rightarrow> bool" where
  "null_or P v = (case v of JNull \<Rightarrow> True | JStr s \<Rightarrow> P s | _ \<Rightarrow> False)"

definition evidence_ok :: "evidence_ref \<Rightarrow> bool" where
  "evidence_ok e \<longleftrightarrow> opt_all audit_id (er_serverId e) \<and> er_eventName e \<noteq> [] \<and> audit_id (er_sourceEventId e) \<and>
     audit_id (er_traceId e) \<and> opt_all hex64 (er_payloadHash e) \<and> null_or (\<lambda>s. s \<noteq> []) (er_contractVersion e) \<and>
     null_or hex64 (er_schemaFingerprint e)"

definition correlatable_ok :: "correlatable_event \<Rightarrow> bool" where
  "correlatable_ok e \<longleftrightarrow> audit_id (ce_traceId e) \<and> audit_id (ce_sourceEventId e) \<and> ce_name e \<noteq> [] \<and>
     opt_all (\<lambda>s. s \<noteq> []) (ce_provider e) \<and> opt_all audit_id (ce_serverId e) \<and> opt_all hex64 (ce_payloadHash e)"

definition derived_record_ok :: "derived_event_record \<Rightarrow> bool" where
  "derived_record_ok r \<longleftrightarrow> correlatable_ok (dr_event r) \<and> audit_id (dr_triggerId r) \<and> dr_triggerVersion r \<noteq> [] \<and>
     audit_id (dr_matchId r) \<and> dr_directParents r \<noteq> [] \<and> list_all evidence_ok (dr_directParents r) \<and>
     dr_rootEvidence r \<noteq> [] \<and> list_all evidence_ok (dr_rootEvidence r)"

definition parseDerivedEventRecord :: "derived_event_record \<Rightarrow> js_error + derived_event_record" where
  "parseDerivedEventRecord r =
     (if derived_record_ok r then Inr r else Inl (JsError KError None ''Invalid derived event record''))"

type_synonym derived_table = "(string, derived_event_record, derived_event_record) table"

definition derived_key :: "string \<Rightarrow> string \<Rightarrow> string" where
  "derived_key server i = server @ ''::'' @ i"

definition key_of_derived :: "derived_event_record \<Rightarrow> string" where
  "key_of_derived r = derived_key (case ce_serverId (dr_event r) of None \<Rightarrow> [] | Some s \<Rightarrow> s) (ce_sourceEventId (dr_event r))"

definition load_derived ::
  "derived_event_record \<Rightarrow> (string \<times> derived_event_record) list \<Rightarrow> js_error + (string \<times> derived_event_record) list"
where
  "load_derived raw m = (case parseDerivedEventRecord raw of Inl e \<Rightarrow> Inl e
     | Inr r \<Rightarrow> Inr (map_put (key_of_derived r) r m))"

interpretation derived_events: durable_table key_of_derived derived_record_ok "\<lambda>r. r" load_derived
  by unfold_locales (simp add: load_derived_def parseDerivedEventRecord_def)

definition getDerivedEvent :: "derived_table \<Rightarrow> string \<Rightarrow> string \<Rightarrow> derived_event_record option" where
  "getDerivedEvent t i server = tab_get t (derived_key server i)"

record derived_filter =
  dq_triggerId :: "string option"
  dq_matchId :: "string option"
  dq_name :: "string option"

definition listDerivedEvents :: "derived_table \<Rightarrow> derived_filter \<Rightarrow> derived_event_record list" where
  "listDerivedEvents t q = filter (\<lambda>r.
     (truthy_str (dq_triggerId q) \<longrightarrow> Some (dr_triggerId r) = dq_triggerId q) \<and>
     (truthy_str (dq_matchId q) \<longrightarrow> Some (dr_matchId r) = dq_matchId q) \<and>
     (truthy_str (dq_name q) \<longrightarrow> Some (ce_name (dr_event r)) = dq_name q)) (tab_values t)"

record derived_receipt =
  dv_accepted :: bool
  dv_record :: derived_event_record

definition appendDerivedEvent ::
  "derived_event_record \<Rightarrow> derived_table \<Rightarrow> (js_error + derived_receipt) \<times> derived_table"
where
  "appendDerivedEvent raw t = (case parseDerivedEventRecord raw of Inl e \<Rightarrow> (Inl e, t)
     | Inr r \<Rightarrow> (case tab_get t (key_of_derived r) of
         Some existing \<Rightarrow> (Inr \<lparr>dv_accepted = False, dv_record = existing\<rparr>, t)
       | None \<Rightarrow> (Inr \<lparr>dv_accepted = True, dv_record = r\<rparr>, tab_put (key_of_derived r) r r t)))"

subsection \<open>Contracts of derived events\<close>

record derived_contract =
  dc_eventName :: string
  dc_contractVersion :: string
  dc_payloadSchema :: json
  dc_schemaFingerprint :: string
  dc_producers :: "(string \<times> string) list"
  dc_createdAt :: string
  dc_updatedAt :: string

text \<open>A line of \<open>derived-contracts.jsonl\<close>; a producer is its trigger and the version of it.\<close>

record contract_line =
  cl_eventName :: "string option"
  cl_contractVersion :: "string option"
  cl_payloadSchema :: "json option"
  cl_schemaFingerprint :: "string option"
  cl_producers :: "(string \<times> string) list option"
  cl_createdAt :: "string option"
  cl_updatedAt :: "string option"

type_synonym contract_table = "(string, derived_contract, contract_line) table"

definition contract_key :: "string \<Rightarrow> string \<Rightarrow> string" where
  "contract_key name version = name @ ''@'' @ version"

definition key_of_contract :: "derived_contract \<Rightarrow> string" where
  "key_of_contract c = contract_key (dc_eventName c) (dc_contractVersion c)"

text \<open>\<open>value && typeof value === 'object' ? value : {}\<close>.\<close>

definition object_or_empty :: "json option \<Rightarrow> json" where
  "object_or_empty v = (case v of Some (JObj kvs) \<Rightarrow> JObj kvs | Some (JArr vs) \<Rightarrow> JArr vs | _ \<Rightarrow> JObj [])"

lemma object_or_empty_idem [simp]: "object_or_empty (Some (object_or_empty v)) = object_or_empty v"
  by (simp add: object_or_empty_def split: option.splits json.splits)

definition load_contract ::
  "contract_line \<Rightarrow> (string \<times> derived_contract) list \<Rightarrow> js_error + (string \<times> derived_contract) list"
where
  "load_contract raw m =
     (if \<not> truthy_str (cl_eventName raw) \<or> \<not> truthy_str (cl_contractVersion raw) \<or> \<not> truthy_str (cl_schemaFingerprint raw)
      then Inr m
      else Inr (map_put (contract_key (the (cl_eventName raw)) (the (cl_contractVersion raw)))
        \<lparr>dc_eventName = the (cl_eventName raw), dc_contractVersion = the (cl_contractVersion raw),
         dc_payloadSchema = object_or_empty (cl_payloadSchema raw),
         dc_schemaFingerprint = the (cl_schemaFingerprint raw),
         dc_producers = (case cl_producers raw of None \<Rightarrow> [] | Some ps \<Rightarrow> ps),
         dc_createdAt = str_or (cl_createdAt raw) epoch_text, dc_updatedAt = str_or (cl_updatedAt raw) epoch_text\<rparr> m))"

definition to_contract_line :: "derived_contract \<Rightarrow> contract_line" where
  "to_contract_line c = \<lparr>cl_eventName = Some (dc_eventName c), cl_contractVersion = Some (dc_contractVersion c),
     cl_payloadSchema = Some (dc_payloadSchema c), cl_schemaFingerprint = Some (dc_schemaFingerprint c),
     cl_producers = Some (dc_producers c), cl_createdAt = Some (dc_createdAt c), cl_updatedAt = Some (dc_updatedAt c)\<rparr>"

definition contract_valid :: "derived_contract \<Rightarrow> bool" where
  "contract_valid c \<longleftrightarrow> dc_eventName c \<noteq> [] \<and> dc_contractVersion c \<noteq> [] \<and> dc_schemaFingerprint c \<noteq> [] \<and>
     object_or_empty (Some (dc_payloadSchema c)) = dc_payloadSchema c \<and> dc_createdAt c \<noteq> [] \<and> dc_updatedAt c \<noteq> []"

interpretation contracts: durable_table key_of_contract contract_valid to_contract_line load_contract
proof
  fix c :: derived_contract and m
  assume "contract_valid c"
  then show "load_contract (to_contract_line c) m = Inr (map_put (key_of_contract c) c m)"
    by (cases c) (simp add: load_contract_def to_contract_line_def contract_valid_def key_of_contract_def
      truthy_str_def str_or_def)
qed

definition getDerivedContract :: "contract_table \<Rightarrow> string \<Rightarrow> string \<Rightarrow> derived_contract option" where
  "getDerivedContract t name version = tab_get t (contract_key name version)"

text \<open>\<open>ncollate\<close> is \<open>localeCompare\<close> with the option \<open>numeric\<close>.\<close>

definition listDerivedContracts ::
  "host \<Rightarrow> (string \<Rightarrow> string \<Rightarrow> int) \<Rightarrow> contract_table \<Rightarrow> string option \<Rightarrow> derived_contract list"
where
  "listDerivedContracts h ncollate t name =
     sort_by (then_by (key_cmp dc_eventName (collate h)) (key_cmp dc_contractVersion ncollate))
       (filter (\<lambda>c. truthy_str name \<longrightarrow> Some (dc_eventName c) = name) (tab_values t))"

record contract_input =
  ci_eventName :: string
  ci_contractVersion :: string
  ci_payloadSchema :: json
  ci_schemaFingerprint :: string
  ci_producers :: "(string \<times> string) list option"

text \<open>\<open>created\<close> and \<open>updated\<close> are the two readings of the clock.\<close>

definition putDerivedContract ::
  "contract_input \<Rightarrow> string \<Rightarrow> string \<Rightarrow> contract_table \<Rightarrow> derived_contract \<times> contract_table"
where
  "putDerivedContract input created updated t =
     (let existing = getDerivedContract t (ci_eventName input) (ci_contractVersion input);
          c = \<lparr>dc_eventName = ci_eventName input, dc_contractVersion = ci_contractVersion input,
            dc_payloadSchema = object_or_empty (Some (ci_payloadSchema input)),
            dc_schemaFingerprint = ci_schemaFingerprint input,
            dc_producers = (case ci_producers input of Some ps \<Rightarrow> ps
              | None \<Rightarrow> (case existing of None \<Rightarrow> [] | Some e \<Rightarrow> dc_producers e)),
            dc_createdAt = (case existing of None \<Rightarrow> created | Some e \<Rightarrow> dc_createdAt e), dc_updatedAt = updated\<rparr>
      in (c, tab_put (key_of_contract c) c (to_contract_line c) t))"

lemma append_derived_durable:
  "derived_events.durable t \<Longrightarrow> appendDerivedEvent r t = (result, t') \<Longrightarrow> derived_events.durable t'"
  by (auto simp: appendDerivedEvent_def parseDerivedEventRecord_def split: option.splits if_splits
    intro!: derived_events.durable_put)

lemma put_contract_durable:
  assumes "contracts.durable t" and "ci_eventName input \<noteq> []" and "ci_contractVersion input \<noteq> []"
    and "ci_schemaFingerprint input \<noteq> []" and "created \<noteq> []" and "updated \<noteq> []"
    and "putDerivedContract input created updated t = (c, t')"
  shows "contracts.durable t'"
proof -
  have c: "t' = tab_put (key_of_contract c) c (to_contract_line c) t" using assms(7) by (auto simp: putDerivedContract_def Let_def)
  have "dc_createdAt e \<noteq> []" if "getDerivedContract t (ci_eventName input) (ci_contractVersion input) = Some e" for e
    using contracts.durable_get [OF assms(1), of _ e] that by (auto simp: getDerivedContract_def contract_valid_def)
  then have "contract_valid c"
    using assms(2-7) by (auto simp: putDerivedContract_def Let_def contract_valid_def split: option.splits)
  then show ?thesis unfolding c by (intro contracts.durable_put [OF assms(1)]) simp_all
qed

end
