(* ===== verification/Source_Store.thy ===== *)
theory Source_Store
  imports Derived_Store
begin

text \<open>
  The registry of event sources in \<open>scripts/lib/persistent-event-store.mjs\<close>: what a connection
  offers, with the schemas of its arguments and payloads.
\<close>

text \<open>Schemas and metadata are objects or arrays; a missing one is \<open>None\<close>.\<close>

record event_source =
  es_sourceId :: string
  es_connectionId :: string
  es_serverId :: string
  es_eventName :: string
  es_description :: "string option"
  es_delivery :: "string list"
  es_inputSchema :: "json option"
  es_payloadSchema :: "json option"
  es_enabled :: bool
  es_experimental :: bool
  es_metadata :: "json option"
  es_updatedAt :: string

text \<open>The argument of \<open>putEventSource\<close>, and a line of \<open>event-sources.jsonl\<close>.\<close>

record source_input =
  si_sourceId :: "string option"
  si_connectionId :: "string option"
  si_serverId :: "string option"
  si_eventName :: "string option"
  si_description :: "string option"
  si_delivery :: "string list option"
  si_inputSchema :: "json option"
  si_payloadSchema :: "json option"
  si_enabled :: "bool option"
  si_experimental :: "bool option"
  si_metadata :: "json option"
  si_updatedAt :: "string option"

type_synonym source_table = "(string, event_source, source_input) table"

text \<open>\<open>value && typeof value === 'object' ? value : undefined\<close>.\<close>

definition object_only :: "json option \<Rightarrow> json option" where
  "object_only v = (case v of Some (JObj kvs) \<Rightarrow> Some (JObj kvs) | Some (JArr vs) \<Rightarrow> Some (JArr vs) | _ \<Rightarrow> None)"

lemma object_only_idem [simp]: "object_only (object_only v) = object_only v"
  by (simp add: object_only_def split: option.splits json.splits)

definition load_source ::
  "source_input \<Rightarrow> (string \<times> event_source) list \<Rightarrow> js_error + (string \<times> event_source) list"
where
  "load_source raw m =
     (if \<not> truthy_str (si_sourceId raw) \<or> \<not> truthy_str (si_eventName raw) \<or> \<not> truthy_str (si_connectionId raw) then Inr m
      else Inr (map_put (the (si_sourceId raw))
        \<lparr>es_sourceId = the (si_sourceId raw), es_connectionId = the (si_connectionId raw),
         es_serverId = str_or (si_serverId raw) (the (si_connectionId raw)), es_eventName = the (si_eventName raw),
         es_description = opt_or (si_description raw) None,
         es_delivery = (case si_delivery raw of None \<Rightarrow> [''webhook''] | Some ds \<Rightarrow> ds),
         es_inputSchema = object_only (si_inputSchema raw), es_payloadSchema = object_only (si_payloadSchema raw),
         es_enabled = (si_enabled raw \<noteq> Some False), es_experimental = (si_experimental raw \<noteq> Some False),
         es_metadata = object_only (si_metadata raw), es_updatedAt = str_or (si_updatedAt raw) epoch_text\<rparr> m))"

definition to_source_line :: "event_source \<Rightarrow> source_input" where
  "to_source_line s = \<lparr>si_sourceId = Some (es_sourceId s), si_connectionId = Some (es_connectionId s),
     si_serverId = Some (es_serverId s), si_eventName = Some (es_eventName s), si_description = es_description s,
     si_delivery = Some (es_delivery s), si_inputSchema = es_inputSchema s, si_payloadSchema = es_payloadSchema s,
     si_enabled = Some (es_enabled s), si_experimental = Some (es_experimental s), si_metadata = es_metadata s,
     si_updatedAt = Some (es_updatedAt s)\<rparr>"

definition source_valid :: "event_source \<Rightarrow> bool" where
  "source_valid s \<longleftrightarrow> es_sourceId s \<noteq> [] \<and> es_connectionId s \<noteq> [] \<and> es_serverId s \<noteq> [] \<and> es_eventName s \<noteq> [] \<and>
     es_description s \<noteq> Some [] \<and> object_only (es_inputSchema s) = es_inputSchema s \<and>
     object_only (es_payloadSchema s) = es_payloadSchema s \<and> object_only (es_metadata s) = es_metadata s \<and>
     es_updatedAt s \<noteq> []"

interpretation event_sources: durable_table es_sourceId source_valid to_source_line load_source
proof
  fix s :: event_source and m
  assume "source_valid s"
  then show "load_source (to_source_line s) m = Inr (map_put (es_sourceId s) s m)"
    by (cases s) (auto simp: load_source_def to_source_line_def source_valid_def truthy_str_def str_or_def opt_or_None)
qed

text \<open>The argument of \<open>putEventSource\<close> has strings where it has anything.\<close>

definition source_of :: "source_input \<Rightarrow> string \<Rightarrow> event_source" where
  "source_of input now = (let text = (\<lambda>s. case s of None \<Rightarrow> ''undefined'' | Some v \<Rightarrow> v) in
     \<lparr>es_sourceId = text (si_sourceId input), es_connectionId = text (si_connectionId input),
      es_serverId = str_or (si_serverId input) (text (si_connectionId input)), es_eventName = text (si_eventName input),
      es_description = opt_or (si_description input) None,
      es_delivery = (case si_delivery input of None \<Rightarrow> [''webhook''] | Some ds \<Rightarrow> if ds = [] then [''webhook''] else ds),
      es_inputSchema = object_only (si_inputSchema input), es_payloadSchema = object_only (si_payloadSchema input),
      es_enabled = (si_enabled input \<noteq> Some False), es_experimental = (si_experimental input \<noteq> Some False),
      es_metadata = object_only (si_metadata input), es_updatedAt = now\<rparr>)"

definition putEventSource ::
  "source_input \<Rightarrow> string \<Rightarrow> source_table \<Rightarrow> (js_error + event_source) \<times> source_table"
where
  "putEventSource input now t = (let s = source_of input now in
     if es_sourceId s = [] \<or> es_connectionId s = [] \<or> es_eventName s = []
     then (Inl (plain_error ''event source requires sourceId, connectionId, eventName''), t)
     else (Inr s, tab_put (es_sourceId s) s (to_source_line s) t))"

text \<open>\<open>listEventSources\<close>; without connections, or with an empty list, it lists all.\<close>

definition listEventSources :: "source_table \<Rightarrow> string list \<Rightarrow> bool \<Rightarrow> event_source list" where
  "listEventSources t connectionIds enabledOnly =
     filter (\<lambda>s. enabledOnly \<longrightarrow> es_enabled s)
       (filter (\<lambda>s. connectionIds = [] \<or> es_connectionId s \<in> set connectionIds) (tab_values t))"

lemma put_source_durable:
  assumes "event_sources.durable t" and "now \<noteq> []" and "putEventSource input now t = (r, t')"
  shows "event_sources.durable t'"
proof -
  let ?s = "source_of input now"
  have valid: "source_valid ?s" if "es_sourceId ?s \<noteq> []" "es_connectionId ?s \<noteq> []" "es_eventName ?s \<noteq> []"
    using that assms(2)
    by (auto simp: source_valid_def source_of_def Let_def str_or_def opt_or_def truthy_str_def split: option.splits if_splits)
  show ?thesis
    using assms(1,3) event_sources.durable_put [OF assms(1) valid]
    by (auto simp: putEventSource_def Let_def split: if_splits)
qed

end
