(* ===== verification/Runtime_Support.thy ===== *)
theory Runtime_Support
  imports Source_Store
begin

text \<open>
  \<open>src/composite/runtimeSupport.ts\<close>: the deadlines of a match, the lifecycle of a trigger and
  the audit records of both, over the tables of the store. The methods of the engine and of this
  class run on one \<open>world\<close>: the tables of a scope, the number of clock readings and the wakes
  that were handed to the host so far.
\<close>

subsection \<open>The world of an engine\<close>

record world =
  w_triggers :: trigger_table
  w_states :: state_table
  w_matches :: match_table
  w_deadlines :: deadline_table
  w_mcp :: mcp_table
  w_leases :: lease_table
  w_audit :: "audit_record list"
  w_ticks :: nat
  w_wakes :: "wake_record list"
  w_deliveries :: wake_table
  w_derived :: derived_table
  w_contracts :: contract_table
  w_sources :: source_table
  w_calls :: "string list"
  w_occurrences :: occurrence_log

type_synonym 'a act = "(world, 'a) comp"

text \<open>What the process supplies: collation, SHA-256, and the clock, a time for each reading.\<close>

record runtime =
  ru_host :: host
  ru_sha :: hash_function
  ru_clock :: "nat \<Rightarrow> timestamp"

definition read_now :: "runtime \<Rightarrow> timestamp act" where
  "read_now ru = (\<lambda>w. (Inr (ru_clock ru (w_ticks w)), w\<lparr>w_ticks := w_ticks w + 1\<rparr>))"

definition readW :: "(world \<Rightarrow> 'a) \<Rightarrow> 'a act" where
  "readW f = (\<lambda>w. (Inr (f w), w))"

definition on_states :: "(state_table \<Rightarrow> 'a \<times> state_table) \<Rightarrow> 'a act" where
  "on_states f = (\<lambda>w. case f (w_states w) of (x, t) \<Rightarrow> (Inr x, w\<lparr>w_states := t\<rparr>))"

definition on_deadlines :: "(deadline_table \<Rightarrow> (js_error + 'a) \<times> deadline_table) \<Rightarrow> 'a act" where
  "on_deadlines f = (\<lambda>w. case f (w_deadlines w) of (x, t) \<Rightarrow> (x, w\<lparr>w_deadlines := t\<rparr>))"

definition appendAudit :: "runtime \<Rightarrow> audit_input \<Rightarrow> audit_record act" where
  "appendAudit ru i = (\<lambda>w. case append_audit (ru_host ru) (ru_sha ru) i (w_audit w) of
     (r, c) \<Rightarrow> (r, w\<lparr>w_audit := c\<rparr>))"

fun each :: "('a \<Rightarrow> unit act) \<Rightarrow> 'a list \<Rightarrow> unit act" where
  "each f [] = ret ()"
| "each f (x # xs) = seq (f x) (\<lambda>_. each f xs)"

text \<open>\<open>(await sha256Hex(text)).slice(0, 24)\<close> behind a prefix.\<close>

definition hash_id :: "runtime \<Rightarrow> string \<Rightarrow> string \<Rightarrow> string" where
  "hash_id ru tag text = tag @ take 24 (ru_sha ru text)"

subsection \<open>Audit records\<close>

definition auditTriggerLifecycle :: "runtime \<Rightarrow> trigger_definition \<Rightarrow> string \<Rightarrow> jobj \<Rightarrow> unit act" where
  "auditTriggerLifecycle ru d ak details =
     seq (read_now ru) (\<lambda>timestamp. seq (appendAudit ru
       \<lparr>ai_auditId = hash_id ru ''audit_''
          (td_triggerId d @ '':'' @ td_version d @ '':'' @ ak @ '':'' @ ts_text timestamp),
        ai_traceId = ''trigger:'' @ td_triggerId d, ai_timestamp = timestamp, ai_kind = ak,
        ai_entityType = ''trigger'', ai_entityId = td_triggerId d, ai_fromState = None, ai_toState = None,
        ai_details = from_entries ((''triggerVersion'', JStr (td_version d)) # details)\<rparr>) (\<lambda>_. ret ()))"

definition auditMatch :: "runtime \<Rightarrow> trigger_match \<Rightarrow> string \<Rightarrow> jobj \<Rightarrow> unit act" where
  "auditMatch ru r ak details =
     seq (readW (\<lambda>w. length (listTriggerMatches (w_matches w) None))) (\<lambda>n. seq (read_now ru) (\<lambda>timestamp.
       seq (appendAudit ru
         \<lparr>ai_auditId = hash_id ru ''audit_''
            (tm_matchId r @ '':'' @ ak @ '':'' @ ts_text (tm_updatedAt r) @ '':'' @ int_str (int n)),
          ai_traceId = (case tm_sourceEvents r of [] \<Rightarrow> tm_matchId r | e # _ \<Rightarrow> traceId e),
          ai_timestamp = timestamp, ai_kind = ak, ai_entityType = ''trigger_match'',
          ai_entityId = tm_matchId r, ai_fromState = None, ai_toState = None,
          ai_details = from_entries ([(''triggerId'', JStr (tm_triggerId r)),
            (''triggerVersion'', JStr (tm_triggerVersion r)), (''status'', JStr (status_text (tm_status r))),
            (''partitionKey'', nullable (tm_partitionKey r))] @ details)\<rparr>) (\<lambda>_. ret ())))"

subsection \<open>Deadlines of a match\<close>

record due_condition =
  du_conditionId :: string
  du_dueAt :: timestamp

definition deadline_id :: "runtime \<Rightarrow> trigger_definition \<Rightarrow> string \<Rightarrow> due_condition \<Rightarrow> string" where
  "deadline_id ru d matchId c = hash_id ru ''td_''
     (join_with '':'' [td_triggerId d, td_version d, matchId, du_conditionId c, ts_text (du_dueAt c)])"

definition put_deadline :: "runtime \<Rightarrow> deadline_input \<Rightarrow> unit act" where
  "put_deadline ru input = seq (read_now ru) (\<lambda>t.
     seq (on_deadlines (putTemporalDeadline input (ts_text t))) (\<lambda>_. ret ()))"

definition set_deadline :: "runtime \<Rightarrow> deadline_status \<Rightarrow> string \<Rightarrow> unit act" where
  "set_deadline ru status deadlineId = seq (read_now ru) (\<lambda>t.
     seq (on_deadlines (setTemporalDeadlineStatus deadlineId status (ts_text t))) (\<lambda>_. ret ()))"

definition schedule_one :: "runtime \<Rightarrow> trigger_definition \<Rightarrow> string \<Rightarrow> due_condition \<Rightarrow> unit act" where
  "schedule_one ru d matchId c =
     (let deadlineId = deadline_id ru d matchId c in
      seq (readW (\<lambda>w. getTemporalDeadline (w_deadlines w) deadlineId)) (\<lambda>existing.
        if map_option dd_status existing = Some DPending \<or> map_option dd_status existing = Some DFired then ret ()
        else put_deadline ru \<lparr>di_deadlineId = deadlineId, di_triggerId = td_triggerId d,
          di_triggerVersion = td_version d, di_matchId = matchId, di_conditionId = du_conditionId c,
          di_dueAt = du_dueAt c, di_status = Some DPending\<rparr>))"

definition scheduleDeadlines :: "runtime \<Rightarrow> trigger_definition \<Rightarrow> string \<Rightarrow> due_condition list \<Rightarrow> unit act" where
  "scheduleDeadlines ru d matchId cs = each (schedule_one ru d matchId) cs"

definition pending_of :: "string \<Rightarrow> world \<Rightarrow> temporal_deadline list" where
  "pending_of matchId w = listTemporalDeadlines (w_deadlines w)
     \<lparr>df_triggerId = None, df_matchId = Some matchId, df_status = Some DPending\<rparr>"

definition reconcileDeadlines :: "runtime \<Rightarrow> trigger_definition \<Rightarrow> string \<Rightarrow> due_condition list \<Rightarrow> unit act" where
  "reconcileDeadlines ru d matchId cs =
     (let expected = map (deadline_id ru d matchId) cs in
      seq (readW (pending_of matchId)) (\<lambda>pending.
        seq (each (set_deadline ru DCancelled)
          (filter (\<lambda>i. i \<notin> set expected) (map dd_deadlineId pending))) (\<lambda>_.
        scheduleDeadlines ru d matchId cs)))"

definition cancelDeadlinesForMatch :: "runtime \<Rightarrow> string \<Rightarrow> unit act" where
  "cancelDeadlinesForMatch ru matchId = seq (readW (pending_of matchId)) (\<lambda>pending.
     each (set_deadline ru DCancelled) (map dd_deadlineId pending))"

subsection \<open>The lifecycle of a trigger\<close>

definition system_actor :: json where
  "system_actor = JObj [(''type'', JStr ''system''), (''principal_id'', JStr ''event-intelligence:lifecycle'')]"

definition set_state :: "runtime \<Rightarrow> string \<Rightarrow> string \<Rightarrow> trigger_status \<Rightarrow> state_metadata \<Rightarrow> unit act" where
  "set_state ru triggerId version status md = seq (read_now ru) (\<lambda>t.
     seq (on_states (setTriggerState triggerId version status (Some system_actor) md (ts_text t))) (\<lambda>_. ret ()))"

definition kept_metadata :: "trigger_state \<Rightarrow> state_metadata" where
  "kept_metadata s = \<lparr>md_owner = ts_owner s, md_connectionIds = Some (ts_connectionIds s),
     md_fireCount = Some (ts_fireCount s), md_lastFiredAt = Some (ts_lastFiredAt s)\<rparr>"

text \<open>\<open>Math.min(expiresAt, leaseUntil)\<close>, infinite when there is neither.\<close>

definition lifecycle_over :: "lifecycle_policy \<Rightarrow> int \<Rightarrow> bool" where
  "lifecycle_over l nowMs \<longleftrightarrow> (case lc_expiresAt l of None \<Rightarrow> False | Some t \<Rightarrow> ts_ms t < nowMs) \<or>
     (case lc_leaseUntil l of None \<Rightarrow> False | Some t \<Rightarrow> ts_ms t < nowMs)"

definition lifecycle_spent :: "lifecycle_policy \<Rightarrow> int \<Rightarrow> bool" where
  "lifecycle_spent l fireCount \<longleftrightarrow> (lc_oneShot l \<and> 1 \<le> fireCount) \<or>
     (case lc_maxFirings l of None \<Rightarrow> False | Some n \<Rightarrow> int n \<le> fireCount)"

definition cooling_down :: "lifecycle_policy \<Rightarrow> trigger_state \<Rightarrow> int \<Rightarrow> bool" where
  "cooling_down l s nowMs \<longleftrightarrow> 0 < lc_cooldownMs l \<and>
     (case ts_lastFiredAt s of None \<Rightarrow> False | Some t \<Rightarrow> nowMs - ts_ms t < lc_cooldownMs l)"

definition opt_ts_json :: "timestamp option \<Rightarrow> json" where
  "opt_ts_json t = nullable (map_option ts_text t)"

definition lifecycleAllows :: "runtime \<Rightarrow> trigger_definition \<Rightarrow> trigger_state \<Rightarrow> int \<Rightarrow> bool act" where
  "lifecycleAllows ru d s nowMs =
     (let l = td_lifecycle d in
      if ts_status s \<noteq> Active then ret False
      else if lifecycle_over l nowMs then
        seq (set_state ru (td_triggerId d) (td_version d) Expired_Trigger (kept_metadata s)) (\<lambda>_.
        seq (auditTriggerLifecycle ru d ''trigger.lifecycle_expired''
          [(''expiresAt'', opt_ts_json (lc_expiresAt l)), (''leaseUntil'', opt_ts_json (lc_leaseUntil l))]) (\<lambda>_.
        ret False))
      else if lifecycle_spent l (ts_fireCount s) then
        seq (set_state ru (td_triggerId d) (td_version d) Completed (kept_metadata s)) (\<lambda>_. ret False)
      else ret (\<not> cooling_down l s nowMs))"

datatype effect = Wake_Effect | Derived_Effect

fun effect_text :: "effect \<Rightarrow> string" where
  "effect_text Wake_Effect = ''wake''"
| "effect_text Derived_Effect = ''derived_event''"

definition lifecycle_complete :: "lifecycle_policy \<Rightarrow> int \<Rightarrow> bool" where
  "lifecycle_complete l fireCount \<longleftrightarrow> lc_oneShot l \<or> lc_completeOnGoal l \<or>
     (case lc_maxFirings l of None \<Rightarrow> False | Some n \<Rightarrow> int n \<le> fireCount)"

definition completion_reason :: "lifecycle_policy \<Rightarrow> string" where
  "completion_reason l = (if lc_oneShot l then ''one_shot'' else if lc_completeOnGoal l then ''complete_on_goal''
     else ''max_firings'')"

definition advanceLifecycleAfterEffect :: "runtime \<Rightarrow> trigger_match \<Rightarrow> effect \<Rightarrow> string \<Rightarrow> unit act" where
  "advanceLifecycleAfterEffect ru m ak effectId =
     seq (readW (\<lambda>w. (getTrigger (w_triggers w) (tm_triggerId m) (tm_triggerVersion m),
       getTriggerState (w_states w) (tm_triggerId m) (tm_triggerVersion m)))) (\<lambda>(found, s).
     case found of None \<Rightarrow> ret () | Some d \<Rightarrow>
       if ts_status s \<noteq> Active then ret ()
       else let fireCount = ts_fireCount s + 1; l = td_lifecycle d; complete = lifecycle_complete l fireCount in
         seq (read_now ru) (\<lambda>effectAt.
         seq (set_state ru (tm_triggerId m) (tm_triggerVersion m) (if complete then Completed else Active)
           ((kept_metadata s)\<lparr>md_fireCount := Some fireCount, md_lastFiredAt := Some (Some effectAt)\<rparr>)) (\<lambda>_.
         if complete then auditTriggerLifecycle ru d ''trigger.completed''
             [(''reason'', JStr (completion_reason l)), (''fireCount'', JNum (num_of_int fireCount)),
              (''effectKind'', JStr (effect_text ak)), (''effectId'', JStr effectId)]
         else ret ())))"


subsection \<open>Reconciling deadlines\<close>

text \<open>What every action of this section leaves alone.\<close>

definition deadlines_only :: "world \<Rightarrow> world \<Rightarrow> bool" where
  "deadlines_only w w' \<longleftrightarrow> w' = w\<lparr>w_deadlines := w_deadlines w', w_ticks := w_ticks w'\<rparr> \<and> w_ticks w \<le> w_ticks w'"

lemma deadlines_only_refl [simp]: "deadlines_only w w"
  by (simp add: deadlines_only_def)

lemma deadlines_only_trans: "deadlines_only u v \<Longrightarrow> deadlines_only v w \<Longrightarrow> deadlines_only u w"
  by (cases u; cases v; cases w) (auto simp: deadlines_only_def)

definition empty_world :: world where
  "empty_world = \<lparr>w_triggers = empty_table, w_states = empty_table, w_matches = empty_table,
     w_deadlines = empty_table, w_mcp = empty_table, w_leases = empty_table, w_audit = [], w_ticks = 0,
     w_wakes = [], w_deliveries = empty_table, w_derived = empty_table, w_contracts = empty_table, w_sources = empty_table,
     w_calls = [], w_occurrences = \<lparr>ol_records = [], ol_keys = [], ol_file = []\<rparr>\<rparr>"

definition clock_runs :: "runtime \<Rightarrow> bool" where
  "clock_runs ru \<longleftrightarrow> (\<forall>n. ts_text (ru_clock ru n) \<noteq> [])"

abbreviation deadline_at :: "world \<Rightarrow> string \<Rightarrow> temporal_deadline option" where
  "deadline_at w \<equiv> getTemporalDeadline (w_deadlines w)"

abbreviation deadlines_ok :: "world \<Rightarrow> bool" where
  "deadlines_ok w \<equiv> deadlines.durable (w_deadlines w)"

lemma deadline_fields:
  "deadlines_ok w \<Longrightarrow> deadline_at w k = Some e \<Longrightarrow> dd_deadlineId e = k \<and> deadline_valid e"
  using deadlines.durable_get [of "w_deadlines w" k e] by (simp add: getTemporalDeadline_def)

lemma pending_iff:
  assumes "deadlines_ok w" and "m \<noteq> []"
  shows "e \<in> set (pending_of m w) \<longleftrightarrow>
    deadline_at w (dd_deadlineId e) = Some e \<and> dd_matchId e = m \<and> dd_status e = DPending"
proof -
  have "e \<in> set (tab_values (w_deadlines w)) \<longleftrightarrow> deadline_at w (dd_deadlineId e) = Some e"
    using tab_values_get [OF deadlines.durable_distinct [OF assms(1)], of e] deadline_fields [OF assms(1)]
    by (metis getTemporalDeadline_def)
  then show ?thesis using assms(2) by (auto simp: pending_of_def listTemporalDeadlines_def truthy_str_def)
qed

lemma put_deadline_run:
  assumes "clock_runs ru" and "deadlines_ok w" and "di_deadlineId i \<noteq> []" and "di_triggerId i \<noteq> []"
    and "di_matchId i \<noteq> []" and "di_conditionId i \<noteq> []" and "di_status i = Some s"
  obtains w' e where "put_deadline ru i w = (Inr (), w')" and "deadlines_ok w'" and "deadlines_only w w'"
    and "deadline_at w' = (deadline_at w)(di_deadlineId i \<mapsto> e)" and "dd_matchId e = di_matchId i" and "dd_status e = s"
proof -
  let ?t = "ts_text (ru_clock ru (w_ticks w))"
  obtain e where put: "putTemporalDeadline i ?t (w_deadlines w) = (Inr e, tab_put (di_deadlineId i) e (to_deadline_line e) (w_deadlines w))"
      and e: "dd_matchId e = di_matchId i" "dd_status e = s"
    using assms(3-7) by (simp add: putTemporalDeadline_def Let_def)
  let ?w = "w\<lparr>w_ticks := w_ticks w + 1, w_deadlines := tab_put (di_deadlineId i) e (to_deadline_line e) (w_deadlines w)\<rparr>"
  show ?thesis
  proof (rule that [of ?w e])
    show "put_deadline ru i w = (Inr (), ?w)"
      by (simp add: put_deadline_def read_now_def on_deadlines_def put seq_def)
    show "deadlines_ok ?w"
      using put_deadline_durable [OF assms(2) _ put] assms(1) by (simp add: clock_runs_def)
    show "deadline_at ?w = (deadline_at w)(di_deadlineId i \<mapsto> e)" by (simp add: getTemporalDeadline_def fun_eq_iff)
  qed (use e in \<open>simp_all add: deadlines_only_def\<close>)
qed

lemma set_deadline_run:
  assumes "clock_runs ru" and "deadlines_ok w"
  obtains w' where "set_deadline ru s k w = (Inr (), w')" and "deadlines_ok w'" and "deadlines_only w w'"
    and "\<And>j. j \<noteq> k \<Longrightarrow> deadline_at w' j = deadline_at w j"
    and "\<And>e'. deadline_at w' k = Some e' \<Longrightarrow> dd_status e' = s"
proof (cases "deadline_at w k")
  case None
  then show ?thesis
    by (intro that [of "w\<lparr>w_ticks := w_ticks w + 1\<rparr>"])
      (use assms(2) in \<open>auto simp: set_deadline_def read_now_def on_deadlines_def setTemporalDeadlineStatus_def seq_def deadlines_only_def\<close>)
next
  case (Some e)
  let ?t = "ts_text (ru_clock ru (w_ticks w))"
  have e: "dd_deadlineId e = k" "deadline_valid e" using deadline_fields [OF assms(2) Some] by blast+
  obtain e' where set: "setTemporalDeadlineStatus k s ?t (w_deadlines w) = (Inr (Some e'), tab_put k e' (to_deadline_line e') (w_deadlines w))"
      and "dd_status e' = s"
    using e Some by (simp add: setTemporalDeadlineStatus_def putTemporalDeadline_def deadline_valid_def Let_def)
  let ?w = "w\<lparr>w_ticks := w_ticks w + 1, w_deadlines := tab_put k e' (to_deadline_line e') (w_deadlines w)\<rparr>"
  show ?thesis
  proof (rule that [of ?w])
    show "set_deadline ru s k w = (Inr (), ?w)"
      by (simp add: set_deadline_def read_now_def on_deadlines_def set seq_def)
    show "deadlines_ok ?w"
      using set_deadline_durable [OF assms(2) _ set] assms(1) by (simp add: clock_runs_def)
  qed (use \<open>dd_status e' = s\<close> in \<open>simp_all add: deadlines_only_def getTemporalDeadline_def\<close>)
qed

lemma cancel_all:
  assumes "clock_runs ru"
  shows "deadlines_ok w \<Longrightarrow> \<exists>w'. each (set_deadline ru DCancelled) ks w = (Inr (), w') \<and> deadlines_ok w' \<and>
    deadlines_only w w' \<and> (\<forall>j. j \<notin> set ks \<longrightarrow> deadline_at w' j = deadline_at w j) \<and>
    (\<forall>j e. j \<in> set ks \<and> deadline_at w' j = Some e \<longrightarrow> dd_status e = DCancelled)"
proof (induction ks arbitrary: w)
  case (Cons k ks)
  obtain v where v: "set_deadline ru DCancelled k w = (Inr (), v)" "deadlines_ok v" "deadlines_only w v"
    "\<And>j. j \<noteq> k \<Longrightarrow> deadline_at v j = deadline_at w j" "\<And>e. deadline_at v k = Some e \<Longrightarrow> dd_status e = DCancelled"
    using set_deadline_run [OF assms Cons.prems, where s = DCancelled and k = k] by metis
  obtain w' where w': "each (set_deadline ru DCancelled) ks v = (Inr (), w')" "deadlines_ok w'" "deadlines_only v w'"
    "\<And>j. j \<notin> set ks \<Longrightarrow> deadline_at w' j = deadline_at v j"
    "\<And>j e. j \<in> set ks \<Longrightarrow> deadline_at w' j = Some e \<Longrightarrow> dd_status e = DCancelled"
    using Cons.IH [OF v(2)] by blast
  have "each (set_deadline ru DCancelled) (k # ks) w = (Inr (), w')" using v(1) w'(1) by simp
  moreover have "deadlines_only w w'" using deadlines_only_trans v(3) w'(3) by blast
  moreover have "dd_status e = DCancelled" if "j \<in> set (k # ks)" "deadline_at w' j = Some e" for j e
    using that v(5) w'(4,5) by (cases "j \<in> set ks") auto
  ultimately show ?case using v(4) w'(2,4) by auto
qed simp

definition armed :: "world \<Rightarrow> string \<Rightarrow> bool" where
  "armed w k \<longleftrightarrow> (\<exists>e. deadline_at w k = Some e \<and> (dd_status e = DPending \<or> dd_status e = DFired))"

lemma hash_id_not_Nil [simp]: "tag \<noteq> [] \<Longrightarrow> hash_id ru tag t \<noteq> []"
  by (simp add: hash_id_def)

lemma deadline_id_not_Nil [simp]: "deadline_id ru d m c \<noteq> []"
  by (simp add: deadline_id_def)

lemma schedule_one_run:
  assumes "clock_runs ru" and "deadlines_ok w" and "td_triggerId d \<noteq> []" and "m \<noteq> []" and "du_conditionId c \<noteq> []"
  obtains w' where "schedule_one ru d m c w = (Inr (), w')" and "deadlines_ok w'" and "deadlines_only w w'"
    and "\<And>j. j \<noteq> deadline_id ru d m c \<Longrightarrow> deadline_at w' j = deadline_at w j" and "armed w' (deadline_id ru d m c)"
proof (cases "armed w (deadline_id ru d m c)")
  case True
  then show ?thesis
    by (intro that [of w]) (auto simp: schedule_one_def readW_def armed_def seq_def Let_def assms(2))
next
  case False
  let ?i = "\<lparr>di_deadlineId = deadline_id ru d m c, di_triggerId = td_triggerId d, di_triggerVersion = td_version d,
    di_matchId = m, di_conditionId = du_conditionId c, di_dueAt = du_dueAt c, di_status = Some DPending\<rparr>"
  obtain w' e where w': "put_deadline ru ?i w = (Inr (), w')" "deadlines_ok w'" "deadlines_only w w'"
      "deadline_at w' = (deadline_at w)(deadline_id ru d m c \<mapsto> e)" "dd_status e = DPending"
    by (rule put_deadline_run [OF assms(1,2), of ?i DPending]) (use assms(3-5) in simp_all)
  have "schedule_one ru d m c w = (Inr (), w')"
    using False w'(1) by (auto simp: schedule_one_def readW_def armed_def seq_def Let_def)
  then show ?thesis by (rule that) (use w' in \<open>simp_all add: armed_def\<close>)
qed

lemma schedule_run:
  assumes "clock_runs ru" and "td_triggerId d \<noteq> []" and "m \<noteq> []"
  shows "deadlines_ok w \<Longrightarrow> \<forall>c \<in> set cs. du_conditionId c \<noteq> [] \<Longrightarrow>
    \<exists>w'. scheduleDeadlines ru d m cs w = (Inr (), w') \<and> deadlines_ok w' \<and> deadlines_only w w' \<and>
      (\<forall>j. j \<notin> set (map (deadline_id ru d m) cs) \<longrightarrow> deadline_at w' j = deadline_at w j) \<and>
      (\<forall>c \<in> set cs. armed w' (deadline_id ru d m c)) \<and> (\<forall>j. armed w j \<longrightarrow> armed w' j)"
proof (induction cs arbitrary: w)
  case (Cons c cs)
  obtain v where v: "schedule_one ru d m c w = (Inr (), v)" "deadlines_ok v" "deadlines_only w v"
    "\<And>j. j \<noteq> deadline_id ru d m c \<Longrightarrow> deadline_at v j = deadline_at w j" "armed v (deadline_id ru d m c)"
    using schedule_one_run [OF assms(1) Cons.prems(1) assms(2,3), of c] Cons.prems(2) by auto
  obtain w' where w': "scheduleDeadlines ru d m cs v = (Inr (), w')" "deadlines_ok w'" "deadlines_only v w'"
      "\<And>j. j \<notin> set (map (deadline_id ru d m) cs) \<Longrightarrow> deadline_at w' j = deadline_at v j"
      "\<And>c. c \<in> set cs \<Longrightarrow> armed w' (deadline_id ru d m c)" "\<And>j. armed v j \<Longrightarrow> armed w' j"
    using Cons.IH [OF v(2)] Cons.prems(2) by auto
  have "scheduleDeadlines ru d m (c # cs) w = (Inr (), w')" using v(1) w'(1) by (simp add: scheduleDeadlines_def)
  moreover have "deadlines_only w w'" using deadlines_only_trans v(3) w'(3) by blast
  moreover have "armed w' j" if "armed w j" for j
    using that v(4,5) w'(6) by (cases "j = deadline_id ru d m c") (auto simp: armed_def)
  ultimately show ?case using v(4,5) w'(2,4-6) by auto
qed (simp add: scheduleDeadlines_def)


definition sample_runtime :: runtime where
  "sample_runtime = \<lparr>ru_host = sample_host, ru_sha = sample_sha, ru_clock = (\<lambda>n. Ts ''now'' (int n))\<rparr>"

lemma sample_clock: "clock_runs sample_runtime"
  by (simp add: clock_runs_def sample_runtime_def)

lemma empty_deadlines: "deadlines_ok empty_world"
  using deadlines.durable_empty by (simp add: empty_world_def empty_table_def)


subsection \<open>The number of firings\<close>

text \<open>The most firings a policy allows: one for a one-shot trigger or a goal, else \<open>maxFirings\<close>.\<close>

definition fire_limit :: "lifecycle_policy \<Rightarrow> int option" where
  "fire_limit l = (if lc_oneShot l \<or> lc_completeOnGoal l then Some 1 else map_option int (lc_maxFirings l))"

definition within_limit :: "int \<Rightarrow> trigger_state \<Rightarrow> bool" where
  "within_limit n s \<longleftrightarrow> ts_fireCount s \<le> n \<and> (ts_status s = Active \<longrightarrow> ts_fireCount s < n)"

text \<open>The operations of the runtime on a trigger: the gate before an evaluation, the step after an effect.\<close>

datatype lifecycle_op = Gate string string int | Effect trigger_match effect string

fun lifecycle_exec :: "runtime \<Rightarrow> lifecycle_op \<Rightarrow> world \<Rightarrow> world" where
  "lifecycle_exec ru (Gate i v nowMs) w = (case getTrigger (w_triggers w) i v of None \<Rightarrow> w
     | Some d \<Rightarrow> snd (lifecycleAllows ru d (getTriggerState (w_states w) i v) nowMs w))"
| "lifecycle_exec ru (Effect m ak effectId) w = snd (advanceLifecycleAfterEffect ru m ak effectId w)"

definition state_view :: "world \<Rightarrow> string \<Rightarrow> trigger_status \<times> int" where
  "state_view w k = (case tab_get (w_states w) k of None \<Rightarrow> (Active, 0) | Some s \<Rightarrow> (ts_status s, ts_fireCount s))"

lemma state_view_get: "state_view w (trigger_key i v) =
    (ts_status (getTriggerState (w_states w) i v), ts_fireCount (getTriggerState (w_states w) i v))"
  by (simp add: state_view_def getTriggerState_def split: option.splits)

lemma set_state_view:
  assumes "md_fireCount md = Some n"
  obtains w' where "set_state ru i v st md w = (Inr (), w')" and "w_triggers w' = w_triggers w"
    and "state_view w' = (state_view w)(trigger_key i v := (st, n))"
  by (rule that [of "snd (set_state ru i v st md w)"])
    (simp_all add: set_state_def read_now_def on_states_def setTriggerState_def Let_def seq_def assms state_view_def fun_eq_iff)

lemma audit_frame:
  "w_triggers (snd (auditTriggerLifecycle ru d ak ds w)) = w_triggers w"
  "state_view (snd (auditTriggerLifecycle ru d ak ds w)) = state_view w"
  by (simp_all add: auditTriggerLifecycle_def read_now_def appendAudit_def seq_def state_view_def fun_eq_iff
    split: prod.splits sum.splits)

text \<open>What a step of the runtime does to a trigger: nothing, or one write of status and count.\<close>

lemma snd_seq_Inr: "m w = (Inr x, w') \<Longrightarrow> snd (seq m f w) = snd (f x w')"
  by simp

lemma snd_seq_ret: "snd (seq m (\<lambda>_. ret x) w) = snd (m w)"
  by (simp add: seq_def split: prod.splits sum.splits)

lemma gate_step:
  fixes ru d s nowMs w
  defines "w' \<equiv> snd (lifecycleAllows ru d s nowMs w)"
  shows "w_triggers w' = w_triggers w \<and> (state_view w' = state_view w \<or>
    (\<exists>st. st \<noteq> Active \<and> state_view w' = (state_view w)(trigger_key (td_triggerId d) (td_version d) := (st, ts_fireCount s))))"
proof -
  have md: "md_fireCount (kept_metadata s) = Some (ts_fireCount s)" by (simp add: kept_metadata_def)
  note run = set_state_view [OF md, where ru = ru and i = "td_triggerId d" and v = "td_version d" and w = w]
  obtain u where u: "set_state ru (td_triggerId d) (td_version d) Expired_Trigger (kept_metadata s) w = (Inr (), u)"
    "w_triggers u = w_triggers w" "state_view u = (state_view w)(trigger_key (td_triggerId d) (td_version d) := (Expired_Trigger, ts_fireCount s))"
    by (rule run)
  obtain c where c: "set_state ru (td_triggerId d) (td_version d) Completed (kept_metadata s) w = (Inr (), c)"
    "w_triggers c = w_triggers w" "state_view c = (state_view w)(trigger_key (td_triggerId d) (td_version d) := (Completed, ts_fireCount s))"
    by (rule run)
  show ?thesis
    using u c by (auto simp: w'_def lifecycleAllows_def Let_def snd_seq_ret audit_frame)
qed

lemma advance_step:
  fixes ru m ak e w
  defines "w' \<equiv> snd (advanceLifecycleAfterEffect ru m ak e w)" and "k \<equiv> trigger_key (tm_triggerId m) (tm_triggerVersion m)"
  shows "w_triggers w' = w_triggers w \<and> (state_view w' = state_view w \<or>
    (\<exists>d n. tab_get (w_triggers w) k = Some d \<and> state_view w k = (Active, n) \<and>
      state_view w' = (state_view w)(k := (if lifecycle_complete (td_lifecycle d) (n + 1) then Completed else Active, n + 1))))"
proof -
  let ?s = "getTriggerState (w_states w) (tm_triggerId m) (tm_triggerVersion m)"
  have view: "state_view w k = (ts_status ?s, ts_fireCount ?s)" by (simp add: k_def state_view_get)
  show ?thesis
  proof (cases "getTrigger (w_triggers w) (tm_triggerId m) (tm_triggerVersion m)")
    case None
    then show ?thesis by (simp add: w'_def advanceLifecycleAfterEffect_def readW_def seq_def)
  next
    case (Some d)
    show ?thesis
    proof (cases "ts_status ?s = Active")
      case False
      then show ?thesis using Some by (simp add: w'_def advanceLifecycleAfterEffect_def readW_def seq_def)
    next
      case True
      let ?n = "ts_fireCount ?s + 1"
      let ?st = "if lifecycle_complete (td_lifecycle d) ?n then Completed else Active"
      let ?w = "w\<lparr>w_ticks := w_ticks w + 1\<rparr>"
      let ?md = "(kept_metadata ?s)\<lparr>md_fireCount := Some ?n, md_lastFiredAt := Some (Some (ru_clock ru (w_ticks w)))\<rparr>"
      have md: "md_fireCount ?md = Some ?n" by simp
      note run = set_state_view [OF md, where ru = ru and i = "tm_triggerId m" and v = "tm_triggerVersion m"
        and st = ?st and w = ?w]
      obtain u where u: "set_state ru (tm_triggerId m) (tm_triggerVersion m) ?st ?md ?w = (Inr (), u)"
        "w_triggers u = w_triggers ?w" "state_view u = (state_view ?w)(k := (?st, ?n))"
        unfolding k_def by (rule run)
      have same: "state_view ?w = state_view w" by (simp add: state_view_def fun_eq_iff)
      have "w' = (if lifecycle_complete (td_lifecycle d) ?n then
          snd (auditTriggerLifecycle ru d ''trigger.completed'' [(''reason'', JStr (completion_reason (td_lifecycle d))),
            (''fireCount'', JNum (num_of_int ?n)), (''effectKind'', JStr (effect_text ak)), (''effectId'', JStr e)] u) else u)"
        using u(1) Some True by (simp add: w'_def advanceLifecycleAfterEffect_def readW_def read_now_def seq_def Let_def)
      then have "w_triggers w' = w_triggers w" "state_view w' = (state_view w)(k := (?st, ?n))"
        using u(2,3) same by (simp_all add: audit_frame)
      moreover have "tab_get (w_triggers w) k = Some d" using Some by (simp add: getTrigger_def k_def)
      ultimately show ?thesis using view True by auto
    qed
  qed
qed

definition counts_ok :: "string \<Rightarrow> trigger_definition \<Rightarrow> int \<Rightarrow> world \<Rightarrow> bool" where
  "counts_ok k d n w \<longleftrightarrow> triggers.durable (w_triggers w) \<and> tab_get (w_triggers w) k = Some d \<and>
     snd (state_view w k) \<le> n \<and> (fst (state_view w k) = Active \<longrightarrow> snd (state_view w k) < n)"

lemma lifecycle_exec_counts:
  assumes "counts_ok k d n w" and "fire_limit (td_lifecycle d) = Some n"
  shows "counts_ok k d n (lifecycle_exec ru op w)"
proof (cases op)
  case (Gate i v nowMs)
  show ?thesis
  proof (cases "getTrigger (w_triggers w) i v")
    case None
    then show ?thesis using assms(1) Gate by simp
  next
    case (Some d')
    have key: "trigger_key (td_triggerId d') (td_version d') = trigger_key i v"
      using triggers.durable_get [of "w_triggers w" "trigger_key i v" d'] assms(1) Some
      by (simp add: counts_ok_def getTrigger_def key_of_trigger_def)
    show ?thesis
      using gate_step [of ru d' "getTriggerState (w_states w) i v" nowMs w] assms(1) Gate Some
      by (auto simp: counts_ok_def key state_view_get)
  qed
next
  case (Effect m ak e)
  show ?thesis
    using advance_step [of ru m ak e w] assms Effect
    by (auto simp: counts_ok_def fire_limit_def lifecycle_complete_def split: if_splits)
qed

text \<open>
  C19: a trigger never fires more often than its policy allows. Under any run of lifecycle
  gates and effects, of this trigger and of others, with audit failures in between, the count of
  a limited trigger stays within its limit, and the trigger is no longer active once the limit is
  reached.
\<close>

theorem fire_count_bounded:
  assumes "triggers.durable (w_triggers w)" and "getTrigger (w_triggers w) i v = Some d"
    and "fire_limit (td_lifecycle d) = Some n" and "within_limit n (getTriggerState (w_states w) i v)"
  shows "within_limit n (getTriggerState (w_states (fold (lifecycle_exec ru) ops w)) i v)"
proof -
  have "counts_ok (trigger_key i v) d n w"
    using assms by (simp add: counts_ok_def getTrigger_def within_limit_def state_view_get)
  then have "counts_ok (trigger_key i v) d n (fold (lifecycle_exec ru) ops w)"
    by (induction ops arbitrary: w) (simp_all add: lifecycle_exec_counts assms(3))
  then show ?thesis by (simp add: counts_ok_def within_limit_def state_view_get)
qed

definition sample_one_shot :: trigger_definition where
  "sample_one_shot = sample_trigger\<lparr>td_lifecycle := plain_lifecycle\<lparr>lc_oneShot := True\<rparr>\<rparr>"

lemma fire_count_bounded_witness:
  "ts_fireCount (getTriggerState (w_states (fold (lifecycle_exec sample_runtime)
     [Gate ''t'' ''1'' 5, Effect sample_buffer Wake_Effect ''x'', Effect sample_buffer Wake_Effect ''y'']
     (empty_world\<lparr>w_triggers := snd (putTrigger sample_one_shot empty_table)\<rparr>))) ''t'' ''1'') \<le> 1"
proof -
  let ?w = "empty_world\<lparr>w_triggers := snd (putTrigger sample_one_shot empty_table)\<rparr>"
  have put: "snd (putTrigger sample_one_shot empty_table) = tab_put (key_of_trigger sample_one_shot) sample_one_shot sample_one_shot empty_table"
    by (simp add: putTrigger_def empty_table_def tab_get_def)
  have key: "key_of_trigger sample_one_shot = trigger_key ''t'' ''1''"
    by (simp add: key_of_trigger_def sample_one_shot_def sample_trigger_def)
  have "triggers.durable (w_triggers ?w)"
    by (simp add: put) (rule triggers.durable_put, simp_all add: empty_table_def triggers.durable_empty)
  moreover have "getTrigger (w_triggers ?w) ''t'' ''1'' = Some sample_one_shot"
    by (simp add: put getTrigger_def key)
  moreover have "fire_limit (td_lifecycle sample_one_shot) = Some 1" by (simp add: sample_one_shot_def fire_limit_def)
  moreover have "within_limit 1 (getTriggerState (w_states ?w) ''t'' ''1'')"
    by (simp add: within_limit_def getTriggerState_def empty_world_def empty_table_def tab_get_def)
  ultimately show ?thesis using fire_count_bounded by (meson within_limit_def)
qed

end
