(* ===== verification/Selection.thy ===== *)
theory Selection
  imports Runtime_Support
begin

text \<open>
  The selection of \<open>src/composite/engine.ts\<close>: which of the candidates that an evaluation
  reports become matches, and which events of the buffer survive them. This part of
  \<open>evaluatePatternBuffer\<close> reads no state; its inputs are the candidates, the events of the buffer,
  the signatures emitted so far and a limit.
\<close>

subsection \<open>Events of a buffer\<close>

definition sourceEventOrder :: "host \<Rightarrow> source_event \<Rightarrow> source_event \<Rightarrow> int" where
  "sourceEventOrder h left right =
     (if ts_ms (occurredAt left) - ts_ms (occurredAt right) \<noteq> 0 then ts_ms (occurredAt left) - ts_ms (occurredAt right)
      else if collate h (sourceEventId left) (sourceEventId right) \<noteq> 0
        then collate h (sourceEventId left) (sourceEventId right)
      else collate h (clauseId left) (clauseId right))"

definition patternPhysicalIdentity :: "source_event \<Rightarrow> string" where
  "patternPhysicalIdentity event = stringify (JArr
     [case serverId event of None \<Rightarrow> JNull | Some s \<Rightarrow> JStr s, JStr (sourceEventId event),
      stableValue (JObj (subscriptionArguments event))])"

text \<open>The identities of the engine are those of the evaluator.\<close>

lemma physical_identity: "patternPhysicalIdentity = eventIdentity"
  by (simp add: patternPhysicalIdentity_def eventIdentity_def fun_eq_iff)

lemma source_order: "sourceEventOrder h = eventOrder h"
  by (simp add: sourceEventOrder_def eventOrder_def then_by_def key_cmp_def int_cmp_def event_ms_def fun_eq_iff)

subsection \<open>Candidates for a match\<close>

definition candidateFitsTriggerWindow :: "candidate \<Rightarrow> int \<Rightarrow> bool" where
  "candidateFitsTriggerWindow c withinMs =
     (let times = map (ts_ms \<circ> occurredAt) (cand_events c)
      in if length times < 2 then True else max_of times - min_of times \<le> withinMs)"

definition fresh_cmp :: "nat \<times> candidate \<Rightarrow> nat \<times> candidate \<Rightarrow> int" where
  "fresh_cmp left right =
     (if startIndex (snd left) - startIndex (snd right) \<noteq> 0 then startIndex (snd left) - startIndex (snd right)
      else int (fst left) - int (fst right))"

definition fresh_candidates :: "int \<Rightarrow> string list \<Rightarrow> candidate list \<Rightarrow> candidate list" where
  "fresh_candidates withinMs previouslyEmitted matches =
     map snd (sort_by fresh_cmp
       (filter (\<lambda>(r, c). cand_events c \<noteq> [] \<and> patternV2CandidateSignature c \<notin> set previouslyEmitted)
         (enumerate 0 (filter (\<lambda>c. candidateFitsTriggerWindow c withinMs) matches))))"

text \<open>The limit of an evaluation, with the lifecycle of a trigger that has an effect.\<close>

definition selection_limit :: "trigger_definition \<Rightarrow> int \<Rightarrow> int" where
  "selection_limit d fireCount =
     (let start = int (sel_maxMatchesPerEvent (pat_selection (td_pattern d))); l = td_lifecycle d in
      if td_target d = None \<and> td_derivedEvent d = None then start
      else let goal = (if lc_oneShot l \<or> lc_completeOnGoal l then min start 1 else start);
               bounded = (case lc_maxFirings l of None \<Rightarrow> goal | Some n \<Rightarrow> min goal (max 0 (int n - fireCount)))
           in if 0 < lc_cooldownMs l then min bounded 1 else bounded)"

subsection \<open>The selection loop\<close>

text \<open>\<open>new Map(indexed.map((source, index) => [identity, index]))\<close>: the last index of an identity.\<close>

definition index_by_identity :: "source_event list \<Rightarrow> (string \<times> nat) list" where
  "index_by_identity indexed =
     fold (\<lambda>(i, e). map_put (patternPhysicalIdentity e) i) (enumerate 0 indexed) []"

definition bindingBoundary :: "host \<Rightarrow> (string \<times> nat) list \<Rightarrow> candidate \<Rightarrow> string \<Rightarrow> bool \<Rightarrow> nat option" where
  "bindingBoundary h indexes c ref edge_first =
     (let evs = sort_by (sourceEventOrder h) (bound (cand_bindings c) ref)
      in if evs = [] then None
         else map_of indexes (patternPhysicalIdentity (if edge_first then hd evs else last evs)))"

fun after_boundary :: "host \<Rightarrow> (string \<times> nat) list \<Rightarrow> after_match \<Rightarrow> candidate \<Rightarrow> nat option" where
  "after_boundary h indexes (SkipToFirst ref) c = bindingBoundary h indexes c ref True"
| "after_boundary h indexes (SkipToLast ref) c = bindingBoundary h indexes c ref False"
| "after_boundary h indexes _ c = None"

record selecting =
  sg_selected :: "candidate list"
  sg_occupied :: "string list"
  sg_skipPastLastThrough :: int
  sg_skipBefore :: int
  sg_skipStarts :: "int list"

definition start_selecting :: selecting where
  "start_selecting = \<lparr>sg_selected = [], sg_occupied = [], sg_skipPastLastThrough = -1, sg_skipBefore = -1,
     sg_skipStarts = []\<rparr>"

definition skipped :: "selection_policy \<Rightarrow> candidate \<Rightarrow> selecting \<Rightarrow> bool" where
  "skipped p c s \<longleftrightarrow> startIndex c \<le> sg_skipPastLastThrough s \<or> startIndex c < sg_skipBefore s \<or>
     startIndex c \<in> set (sg_skipStarts s) \<or>
     (\<not> sel_overlap_allow p \<and> list_ex (\<lambda>i. i \<in> set (sg_occupied s)) (map patternPhysicalIdentity (cand_events c)))"

definition take_candidate :: "host \<Rightarrow> (string \<times> nat) list \<Rightarrow> selection_policy \<Rightarrow> candidate \<Rightarrow> selecting \<Rightarrow> selecting" where
  "take_candidate h indexes p c s =
     (let t = s\<lparr>sg_selected := sg_selected s @ [c],
        sg_occupied := sg_occupied s @ map patternPhysicalIdentity (cand_events c)\<rparr>
      in case sel_afterMatch p of
           SkipPastLast \<Rightarrow> t\<lparr>sg_skipPastLastThrough := max (sg_skipPastLastThrough s) (endIndex c)\<rparr>
         | SkipToNext \<Rightarrow> t\<lparr>sg_skipStarts := startIndex c # sg_skipStarts s\<rparr>
         | KeepAll \<Rightarrow> t
         | a \<Rightarrow> (case after_boundary h indexes a c of None \<Rightarrow> t
             | Some b \<Rightarrow> t\<lparr>sg_skipBefore := max (sg_skipBefore s) (int b)\<rparr>))"

fun select_loop ::
  "host \<Rightarrow> (string \<times> nat) list \<Rightarrow> selection_policy \<Rightarrow> int \<Rightarrow> candidate list \<Rightarrow> selecting \<Rightarrow> selecting"
where
  "select_loop h indexes p maximum [] s = s"
| "select_loop h indexes p maximum (c # cs) s =
     (if maximum \<le> int (length (sg_selected s)) then s
      else if skipped p c s then select_loop h indexes p maximum cs s
      else select_loop h indexes p maximum cs (take_candidate h indexes p c s))"

definition select_candidates :: "host \<Rightarrow> selection_policy \<Rightarrow> int \<Rightarrow> source_event list \<Rightarrow> candidate list \<Rightarrow> candidate list" where
  "select_candidates h p maximum events fresh =
     sg_selected (select_loop h (index_by_identity (sort_by (sourceEventOrder h) events)) p maximum fresh start_selecting)"

subsection \<open>The events that stay in the buffer\<close>

definition first_start :: "candidate list \<Rightarrow> int" where
  "first_start selected =
     (if list_ex (\<lambda>i. 0 \<le> i) (concat (map (\<lambda>c. [startIndex c, endIndex c]) selected))
      then min_of (map startIndex selected) else -1)"

definition last_end :: "candidate list \<Rightarrow> int" where
  "last_end selected =
     (if list_ex (\<lambda>i. 0 \<le> i) (concat (map (\<lambda>c. [startIndex c, endIndex c]) selected))
      then max_of (map endIndex selected) else -1)"

definition shouldDropByIndex :: "host \<Rightarrow> (string \<times> nat) list \<Rightarrow> after_match \<Rightarrow> candidate list \<Rightarrow> nat \<Rightarrow> bool" where
  "shouldDropByIndex h indexes a selected i =
     (case a of
        SkipPastLast \<Rightarrow> int i \<le> last_end selected
      | SkipToNext \<Rightarrow> int i \<le> first_start selected
      | KeepAll \<Rightarrow> False
      | _ \<Rightarrow> (case List.map_filter (after_boundary h indexes a) selected of [] \<Rightarrow> False
          | bs \<Rightarrow> i < Max (set bs)))"

definition retained_events :: "host \<Rightarrow> selection_policy \<Rightarrow> source_event list \<Rightarrow> candidate list \<Rightarrow> source_event list" where
  "retained_events h p events selected =
     (let indexed = sort_by (sourceEventOrder h) events;
          indexes = index_by_identity indexed;
          consumed = (if sel_overlap_allow p then []
            else map patternPhysicalIdentity (concat (map cand_events selected)))
      in map snd (filter (\<lambda>(i, e). \<not> shouldDropByIndex h indexes (sel_afterMatch p) selected i \<and>
           patternPhysicalIdentity e \<notin> set consumed) (enumerate 0 indexed)))"

subsection \<open>What is selected\<close>

definition identities :: "candidate \<Rightarrow> string list" where
  "identities c = map patternPhysicalIdentity (cand_events c)"

text \<open>What two selected candidates, in this order, are to each other.\<close>

definition compatible_matches :: "selection_policy \<Rightarrow> candidate \<Rightarrow> candidate \<Rightarrow> bool" where
  "compatible_matches p a b \<longleftrightarrow>
     (\<not> sel_overlap_allow p \<longrightarrow> set (identities a) \<inter> set (identities b) = {}) \<and>
     (sel_afterMatch p = SkipPastLast \<longrightarrow> endIndex a < startIndex b) \<and>
     (sel_afterMatch p = SkipToNext \<longrightarrow> startIndex a \<noteq> startIndex b)"

lemma subseq_set: "subseq xs ys \<Longrightarrow> set xs \<subseteq> set ys"
  by (induction rule: list_emb.induct) auto

lemma sorted_wrt_subseq: "subseq xs ys \<Longrightarrow> sorted_wrt R ys \<Longrightarrow> sorted_wrt R xs"
  by (induction rule: list_emb.induct) (auto dest: subseq_set)

text \<open>The state of the loop: what it has selected, and what it remembers of each.\<close>

definition selecting_ok :: "host \<Rightarrow> (string \<times> nat) list \<Rightarrow> selection_policy \<Rightarrow> int \<Rightarrow> selecting \<Rightarrow> bool" where
  "selecting_ok h indexes p maximum s \<longleftrightarrow>
     set (sg_occupied s) = (\<Union>c \<in> set (sg_selected s). set (identities c)) \<and>
     (sel_afterMatch p = SkipPastLast \<longrightarrow> (\<forall>c \<in> set (sg_selected s). endIndex c \<le> sg_skipPastLastThrough s)) \<and>
     (sel_afterMatch p = SkipToNext \<longrightarrow> sg_skipStarts s = rev (map startIndex (sg_selected s))) \<and>
     (\<forall>c \<in> set (sg_selected s). \<forall>b. after_boundary h indexes (sel_afterMatch p) c = Some b \<longrightarrow> int b \<le> sg_skipBefore s) \<and>
     sorted_wrt (compatible_matches p) (sg_selected s) \<and> int (length (sg_selected s)) \<le> max 0 maximum"

lemma sg_selected_take [simp]: "sg_selected (take_candidate h indexes p c s) = sg_selected s @ [c]"
  by (simp add: take_candidate_def Let_def split: after_match.splits option.splits)

lemma sg_occupied_take [simp]: "sg_occupied (take_candidate h indexes p c s) = sg_occupied s @ identities c"
  by (simp add: take_candidate_def Let_def identities_def split: after_match.splits option.splits)

lemma take_candidate_ok:
  assumes "selecting_ok h indexes p maximum s" and "int (length (sg_selected s)) < maximum" and "\<not> skipped p c s"
  shows "selecting_ok h indexes p maximum (take_candidate h indexes p c s)"
proof -
  have "\<forall>a \<in> set (sg_selected s). compatible_matches p a c"
  proof
    fix a assume a: "a \<in> set (sg_selected s)"
    have "set (identities a) \<subseteq> set (sg_occupied s)" using assms(1) a by (auto simp: selecting_ok_def)
    moreover have "\<not> sel_overlap_allow p \<Longrightarrow> set (sg_occupied s) \<inter> set (identities c) = {}"
      using assms(3) by (auto simp: skipped_def identities_def list_ex_iff)
    moreover have "endIndex a < startIndex c" if "sel_afterMatch p = SkipPastLast"
    proof -
      have "endIndex a \<le> sg_skipPastLastThrough s" using assms(1) a that by (simp add: selecting_ok_def)
      then show ?thesis using assms(3) by (simp add: skipped_def)
    qed
    moreover have "startIndex a \<noteq> startIndex c" if "sel_afterMatch p = SkipToNext"
    proof -
      have "startIndex a \<in> set (sg_skipStarts s)" using assms(1) a that by (simp add: selecting_ok_def)
      then show ?thesis using assms(3) by (auto simp: skipped_def)
    qed
    ultimately show "compatible_matches p a c" by (auto simp: compatible_matches_def)
  qed
  then have "sorted_wrt (compatible_matches p) (sg_selected s @ [c])"
    using assms(1) by (simp add: sorted_wrt_append selecting_ok_def)
  moreover have "int b \<le> sg_skipBefore (take_candidate h indexes p c s)"
    if "a \<in> set (sg_selected s @ [c])" "after_boundary h indexes (sel_afterMatch p) a = Some b" for a b
    using that assms(1)
    by (cases "sel_afterMatch p") (auto simp: take_candidate_def Let_def selecting_ok_def le_max_iff_disj split: option.splits)
  moreover have "sel_afterMatch p = SkipPastLast \<Longrightarrow> endIndex a \<le> sg_skipPastLastThrough (take_candidate h indexes p c s)"
    if "a \<in> set (sg_selected s @ [c])" for a
    using that assms(1) by (auto simp: take_candidate_def Let_def selecting_ok_def le_max_iff_disj)
  moreover have "sel_afterMatch p = SkipToNext \<Longrightarrow>
      sg_skipStarts (take_candidate h indexes p c s) = rev (map startIndex (sg_selected s @ [c]))"
    using assms(1) by (simp add: take_candidate_def Let_def selecting_ok_def)
  ultimately show ?thesis using assms(1,2) unfolding selecting_ok_def by auto
qed

lemma skipped_mono: "skipped p c s \<Longrightarrow> skipped p c (take_candidate h indexes p d s)"
  by (auto simp: skipped_def take_candidate_def Let_def list_ex_iff split: after_match.splits option.splits)

lemma select_loop_ok:
  "selecting_ok h indexes p maximum s \<Longrightarrow> selecting_ok h indexes p maximum (select_loop h indexes p maximum cs s)"
  by (induction cs arbitrary: s) (auto simp: take_candidate_ok)

lemma select_loop_subseq:
  "\<exists>new. sg_selected (select_loop h indexes p maximum cs s) = sg_selected s @ new \<and> subseq new cs"
proof (induction cs arbitrary: s)
  case (Cons c cs)
  show ?case
  proof (cases "maximum \<le> int (length (sg_selected s)) \<or> skipped p c s")
    case True
    then show ?thesis using Cons [of s] by (auto intro: list_emb_Cons)
  next
    case False
    then show ?thesis using Cons [of "take_candidate h indexes p c s"] by auto
  qed
qed simp

lemma select_loop_skipped: "skipped p c s \<Longrightarrow> skipped p c (select_loop h indexes p maximum cs s)"
  by (induction cs arbitrary: s) (auto intro: skipped_mono)

lemma select_loop_greedy:
  assumes "int (length (sg_selected (select_loop h indexes p maximum cs s))) < maximum" and "c \<in> set cs"
  shows "c \<in> set (sg_selected (select_loop h indexes p maximum cs s)) \<or> skipped p c (select_loop h indexes p maximum cs s)"
  using assms
proof (induction cs arbitrary: s)
  case (Cons d cs)
  let ?t = "if skipped p d s then s else take_candidate h indexes p d s"
  have not_full: "int (length (sg_selected s)) < maximum"
    using Cons.prems(1) by (auto split: if_splits)
  then have step: "select_loop h indexes p maximum (d # cs) s = select_loop h indexes p maximum cs ?t" by simp
  show ?case
  proof (cases "c \<in> set cs")
    case True
    then show ?thesis using Cons.IH [of ?t] Cons.prems(1) step by simp
  next
    case False
    then have "c = d" using Cons.prems(2) by simp
    show ?thesis
    proof (cases "skipped p d s")
      case True
      then show ?thesis using step \<open>c = d\<close> select_loop_skipped [OF True] by simp
    next
      case False
      obtain new where "sg_selected (select_loop h indexes p maximum cs ?t) = sg_selected ?t @ new"
        using select_loop_subseq by blast
      then show ?thesis using step False \<open>c = d\<close> by simp
    qed
  qed
qed simp

lemma start_selecting_ok: "selecting_ok h indexes p maximum start_selecting"
  by (simp add: selecting_ok_def start_selecting_def)

lemma rank_law: "comparator_law fresh_cmp"
proof -
  have "fresh_cmp = then_by (key_cmp (startIndex \<circ> snd) int_cmp) (key_cmp (int \<circ> fst) int_cmp)"
    by (simp add: fresh_cmp_def then_by_def key_cmp_def int_cmp_def fun_eq_iff)
  then show ?thesis
    by (metis comparator_law_key_cmp comparator_law_then_by int_order.comparator_law_axioms)
qed

lemma fresh_spec:
  "c \<in> set (fresh_candidates w emitted ms) \<longleftrightarrow>
     c \<in> set ms \<and> cand_events c \<noteq> [] \<and> candidateFitsTriggerWindow c w \<and> patternV2CandidateSignature c \<notin> set emitted"
  "sorted_wrt (\<lambda>a b. startIndex a \<le> startIndex b) (fresh_candidates w emitted ms)"
proof -
  show "c \<in> set (fresh_candidates w emitted ms) \<longleftrightarrow>
     c \<in> set ms \<and> cand_events c \<noteq> [] \<and> candidateFitsTriggerWindow c w \<and> patternV2CandidateSignature c \<notin> set emitted"
  proof -
    have "snd ` set (filter (\<lambda>(r, c). P c) (enumerate n xs)) = set (filter P xs)" for n and P :: "candidate \<Rightarrow> bool" and xs
      by (induction xs arbitrary: n) (auto simp: image_insert)
    from this [of "\<lambda>c. cand_events c \<noteq> [] \<and> patternV2CandidateSignature c \<notin> set emitted" 0]
    show ?thesis by (auto simp only: fresh_candidates_def set_map set_sort_by set_filter)
  qed
  show "sorted_wrt (\<lambda>a b. startIndex a \<le> startIndex b) (fresh_candidates w emitted ms)"
    unfolding fresh_candidates_def sorted_wrt_map
    by (rule sorted_wrt_mono_rel [OF _ comparator_law.sorted_sort_by [OF rank_law]])
      (auto simp: fresh_cmp_def split: if_splits)
qed



subsection \<open>What stays in the buffer\<close>

lemma map_snd_filter_enumerate: "subseq (map snd (filter P (enumerate n xs))) xs"
  by (induction xs arbitrary: n) auto

lemma retained_spec:
  fixes h p events selected
  defines "kept \<equiv> retained_events h p events selected"
  shows "subseq kept (sort_by (sourceEventOrder h) events)" and "set kept \<subseteq> set events"
    and "\<lbrakk>\<not> sel_overlap_allow p; e \<in> set kept; c \<in> set selected\<rbrakk> \<Longrightarrow> patternPhysicalIdentity e \<notin> set (identities c)"
proof -
  show sub: "subseq kept (sort_by (sourceEventOrder h) events)"
    unfolding kept_def retained_events_def Let_def by (rule map_snd_filter_enumerate)
  show "set kept \<subseteq> set events" using subseq_set [OF sub] by simp
  show "patternPhysicalIdentity e \<notin> set (identities c)"
    if "\<not> sel_overlap_allow p" "e \<in> set kept" "c \<in> set selected"
    using that by (force simp: kept_def retained_events_def Let_def identities_def)
qed

end
