(* ===== verification/Engine.thy ===== *)
theory Engine
  imports Selection
begin

text \<open>
  \<open>src/composite/engine.ts\<close>: registration of a trigger, ingestion of an event, the buffer of a
  partition, its evaluation and the commit of matches, and the two effects of a match, over the
  tables of the JSONL store. Records that the engine builds pass their schema: their identifiers
  are bounded texts and their timestamps come from \<open>toISOString\<close>.
\<close>

subsection \<open>The engine\<close>

text \<open>
  The evaluator, the admission gate, the durable decision cache and the monotonic clock may
  answer differently at every evaluation, so each is indexed by the number of clock readings.
  \<open>en_meanwhile\<close> is what other workers do to the tables while an evaluation waits for them.
\<close>

record engine =
  en_ru :: runtime
  en_workerId :: string
  en_partitionLeaseMs :: int
  en_distributed :: bool
  en_evaluator :: "nat \<Rightarrow> semantic_evaluator option"
  en_admission :: "nat \<Rightarrow> (nat \<Rightarrow> admission_request \<Rightarrow> admission_reply) option"
  en_durable :: "nat \<Rightarrow> durable_cache option"
  en_elapsed :: "nat \<Rightarrow> nat \<Rightarrow> jsnum"
  en_contextRevision :: string
  en_cacheTtlMs :: "int option"
  en_maxBatchElapsedMs :: "int option"
  en_meanwhile :: "nat \<Rightarrow> world \<Rightarrow> world"

record engine_options =
  eo_workerId :: "string option"
  eo_partitionLeaseMs :: "int option"
  eo_contextRevision :: "string option"
  eo_cacheTtlMs :: "int option"
  eo_maxBatchElapsedMs :: "int option"

text \<open>The constructor; \<open>base\<close> has what is passed through unchanged.\<close>

definition constructEngine :: "engine \<Rightarrow> engine_options \<Rightarrow> js_error + engine" where
  "constructEngine base given =
     (if \<not> opt_all (\<lambda>r. length r \<le> 128) (eo_contextRevision given)
      then Inl (range_error ''Invalid semantic context revision'')
      else if \<not> opt_all (\<lambda>ttl. 1000 \<le> ttl \<and> ttl \<le> 86400000) (eo_cacheTtlMs given)
      then Inl (range_error ''Invalid semantic cache TTL'')
      else if \<not> opt_all (\<lambda>ms. 10 \<le> ms \<and> ms \<le> 600000) (eo_maxBatchElapsedMs given)
      then Inl (range_error ''Invalid semantic batch elapsed-time budget'')
      else Inr (base\<lparr>en_workerId := str_or (eo_workerId given) ''event-intelligence-engine'',
        en_partitionLeaseMs := max 1000 (case eo_partitionLeaseMs given of None \<Rightarrow> 300000
          | Some ms \<Rightarrow> if ms = 0 then 300000 else ms),
        en_contextRevision := (case eo_contextRevision given of None \<Rightarrow> [] | Some r \<Rightarrow> r),
        en_cacheTtlMs := eo_cacheTtlMs given, en_maxBatchElapsedMs := eo_maxBatchElapsedMs given\<rparr>))"

record ingest_result =
  ir_triggerId :: string
  ir_match :: "trigger_match option"
  ir_matched :: bool
  ir_fired :: bool

definition coded_error :: "string \<Rightarrow> string \<Rightarrow> js_error" where
  "coded_error code message = JsError KError (Some code) message"

subsection \<open>Registration\<close>

text \<open>The definition comes parsed. The cycle check always returns (\<open>derived_cycle_check\<close>).\<close>

definition register :: "engine \<Rightarrow> trigger_definition \<Rightarrow> trigger_definition act" where
  "register en d =
     seq (readW (\<lambda>w. (listTriggers (w_triggers w), w_states w))) (\<lambda>(existing, states).
     case assertNoDerivedEventCycle existing d
         (\<lambda>i v. Some (trigger_status_text (ts_status (getTriggerState states i v)))) of
       None \<Rightarrow> throw (plain_error ''Derived event cycle check did not return'')
     | Some (Inl e) \<Rightarrow> throw e
     | Some (Inr _) \<Rightarrow> (\<lambda>w. case putTrigger d (w_triggers w) of (r, t) \<Rightarrow> (r, w\<lparr>w_triggers := t\<rparr>)))"

subsection \<open>Reading matches\<close>

definition updated_cmp :: "trigger_match \<Rightarrow> trigger_match \<Rightarrow> int" where
  "updated_cmp a b = ts_ms (tm_updatedAt b) - ts_ms (tm_updatedAt a)"

definition latestMatch :: "string \<Rightarrow> world \<Rightarrow> trigger_match option" where
  "latestMatch matchId w = (case sort_by updated_cmp
     (filter (\<lambda>r. tm_matchId r = matchId) (listTriggerMatches (w_matches w) None)) of [] \<Rightarrow> None | r # _ \<Rightarrow> Some r)"

fun replay_rank :: "match_status \<Rightarrow> nat" where
  "replay_rank Fired = 4"
| "replay_rank Emitted = 3"
| "replay_rank Matched = 2"
| "replay_rank Partial = 1"
| "replay_rank Expired = 0"

definition replay_cmp :: "trigger_match \<Rightarrow> trigger_match \<Rightarrow> int" where
  "replay_cmp a b = (if replay_rank (tm_status b) \<noteq> replay_rank (tm_status a)
     then int (replay_rank (tm_status b)) - int (replay_rank (tm_status a)) else updated_cmp a b)"

definition replayed_match :: "trigger_definition \<Rightarrow> correlatable_event \<Rightarrow> world \<Rightarrow> trigger_match option" where
  "replayed_match d event w = (case sort_by replay_cmp
     (filter (\<lambda>r. tm_triggerVersion r = td_version d \<and> list_ex (\<lambda>s. sameEventIdentity s event) (tm_sourceEvents r))
       (listTriggerMatches (w_matches w) (Some (td_triggerId d)))) of [] \<Rightarrow> None | r # _ \<Rightarrow> Some r)"

subsection \<open>Partitions\<close>

fun scalar_type :: "json option \<Rightarrow> string option" where
  "scalar_type (Some (JStr s)) = Some ''string''"
| "scalar_type (Some (JNum n)) = Some ''number''"
| "scalar_type (Some (JBool b)) = Some ''boolean''"
| "scalar_type _ = None"

definition partition_component ::
  "string list \<Rightarrow> correlatable_event \<Rightarrow> partition_dimension \<Rightarrow> js_error + json"
where
  "partition_component clauseIds event dimension =
     (let fields = filter (\<lambda>(ref, path). ref \<in> set clauseIds) (dim_fields dimension);
          values = map (\<lambda>(ref, path). read_path (JObj (ce_data event)) path) fields
      in if fields = [] then Inl (plain_error (''Pattern partition '' @ dim_key dimension @
           '' has no field for incoming event '' @ ce_name event))
         else case (hd values, scalar_type (hd values)) of
             (Some v, Some ty) \<Rightarrow>
               if list_ex (\<lambda>u. scalar_type u \<noteq> Some ty \<or> \<not> strict_eq u (Some v)) values
               then Inl (plain_error (''Pattern partition '' @ dim_key dimension @
                 '' is ambiguous for incoming event '' @ ce_name event))
               else Inr (JObj [(''key'', JStr (dim_key dimension)), (''type'', JStr ty), (''value'', v)])
           | _ \<Rightarrow> Inl (plain_error (''Pattern partition '' @ dim_key dimension @ '' resolved to a non-scalar value'')))"

fun partition_components ::
  "string list \<Rightarrow> correlatable_event \<Rightarrow> partition_dimension list \<Rightarrow> js_error + json list"
where
  "partition_components clauseIds event [] = Inr []"
| "partition_components clauseIds event (d # ds) =
     (case partition_component clauseIds event d of Inl e \<Rightarrow> Inl e
      | Inr c \<Rightarrow> (case partition_components clauseIds event ds of Inl e \<Rightarrow> Inl e | Inr cs \<Rightarrow> Inr (c # cs)))"

definition patternPartitionKey ::
  "trigger_definition \<Rightarrow> trigger_clause list \<Rightarrow> correlatable_event \<Rightarrow> js_error + string option"
where
  "patternPartitionKey d matchingClauses event =
     (let dimensions = pat_partitionBy (td_pattern d) in
      if dimensions = [] then Inr None
      else case partition_components (map clause_id matchingClauses) event dimensions of
          Inl e \<Rightarrow> Inl e
        | Inr cs \<Rightarrow> Inr (Some (stringify (JArr cs))))"

text \<open>\<open>key ?? '-'\<close>.\<close>

definition key_or_dash :: "string option \<Rightarrow> string" where
  "key_or_dash key = (case key of None \<Rightarrow> ''-'' | Some k \<Rightarrow> k)"

definition patternBufferId :: "runtime \<Rightarrow> trigger_definition \<Rightarrow> string option \<Rightarrow> string" where
  "patternBufferId ru d key = hash_id ru ''tm_''
     (join_with '':'' [td_triggerId d, td_version d, key_or_dash key, ''pattern-v2-buffer''])"

subsection \<open>Semantic decisions\<close>

fun json_truthy :: "json \<Rightarrow> bool" where
  "json_truthy JNull = False"
| "json_truthy (JBool b) = b"
| "json_truthy (JNum n) = (n \<noteq> Fin 0 \<and> n \<noteq> NaN)"
| "json_truthy (JStr s) = (s \<noteq> [])"
| "json_truthy _ = True"

text \<open>The schema of the record takes an object only.\<close>

definition provider_evidence :: "json option \<Rightarrow> js_error + jobj option" where
  "provider_evidence m = (case m of None \<Rightarrow> Inr None
     | Some v \<Rightarrow> if \<not> json_truthy v then Inr None
        else (case v of JObj kvs \<Rightarrow> Inr (Some kvs) | _ \<Rightarrow> Inl (JsError KError None ''Invalid provider evidence'')))"

definition patternDecisionRecord ::
  "string \<times> semantic_decision \<Rightarrow> timestamp \<Rightarrow> js_error + (string \<times> pattern_decision)"
where
  "patternDecisionRecord item evaluatedAt =
     (case provider_evidence (dec_metadata (snd item)) of Inl e \<Rightarrow> Inl e
      | Inr evidence \<Rightarrow> Inr (fst item, \<lparr>pd_evaluator = dec_evaluator (snd item), pd_outcome = dec_outcome (snd item),
          pd_probability = dec_probability (snd item), pd_matched = dec_matched (snd item),
          pd_shouldEscalate = dec_shouldEscalate (snd item), pd_inputFields = sem_input (dec_condition (snd item)),
          pd_providerEvidence = evidence, pd_evaluatedAt = evaluatedAt\<rparr>))"

fun decision_records :: "(string \<times> semantic_decision) list \<Rightarrow> timestamp \<Rightarrow> js_error + (string \<times> pattern_decision) list" where
  "decision_records [] t = Inr []"
| "decision_records (x # xs) t = (case patternDecisionRecord x t of Inl e \<Rightarrow> Inl e
     | Inr r \<Rightarrow> (case decision_records xs t of Inl e \<Rightarrow> Inl e | Inr rs \<Rightarrow> Inr (r # rs)))"

subsection \<open>Evaluation of a buffer\<close>

definition gapEvaluationEvidence :: "trigger_definition \<Rightarrow> (string list \<times> string option) act" where
  "gapEvaluationEvidence d =
     (if negativeForbiddenSourceRefs (pat_root (td_pattern d)) = [] then ret ([], None)
      else seq (\<lambda>w. (getMcpGapStateAndSnapshot (w_mcp w), w)) (\<lambda>(states, snapshot).
        seq (readW (\<lambda>w. getTriggerState (w_states w) (td_triggerId d) (td_version d))) (\<lambda>s.
        ret (incompleteNegativeRefs d (map gap_of states) (ts_connectionIds s), Some snapshot))))"

definition evaluation_options :: "engine \<Rightarrow> trigger_definition \<Rightarrow> string list \<Rightarrow> int \<Rightarrow> nat \<Rightarrow> eval_options" where
  "evaluation_options en d incomplete evaluationNow n =
     \<lparr>opt_evaluator = en_evaluator en n, opt_now = evaluationNow,
      opt_allowedLatenessMs = (case td_allowedLatenessMs d of None \<Rightarrow> 0 | Some ms \<Rightarrow> ms),
      opt_durable = en_durable en n, opt_namespace = td_triggerId d @ ''@'' @ td_version d,
      opt_admission = en_admission en n, opt_contextRevision = en_contextRevision en,
      opt_cacheTtlMs = en_cacheTtlMs en, opt_maxBatchElapsedMs = en_maxBatchElapsedMs en,
      opt_incomplete = incomplete, opt_clock = en_elapsed en n\<rparr>"

text \<open>The call of the evaluator, with what happens to the tables until it settles.\<close>

definition run_evaluation :: "engine \<Rightarrow> trigger_definition \<Rightarrow> trigger_match \<Rightarrow> string list \<Rightarrow> int \<Rightarrow> evaluation act" where
  "run_evaluation en d buffer incomplete evaluationNow =
     (\<lambda>w. (evaluatePatternV2 (ru_host (en_ru en)) (td_pattern d) (tm_sourceEvents buffer)
        (evaluation_options en d incomplete evaluationNow (w_ticks w)), en_meanwhile en (w_ticks w) w))"

definition trace_details :: "evaluation \<Rightarrow> semantic_trace \<Rightarrow> jobj" where
  "trace_details ev s = (let dec = tr_decision s in
     [(''patternVersion'', JStr ''2''), (''semanticNodeId'', JStr (tr_nodeId s)),
      (''candidateSignature'', JStr (tr_candidateSignature s)), (''evaluator'', JStr (dec_evaluator dec)),
      (''outcome'', JStr (outcome_text (dec_outcome dec))), (''probability'', JNum (dec_probability dec)),
      (''matched'', JBool (dec_matched dec)), (''shouldEscalate'', JBool (dec_shouldEscalate dec)),
      (''semanticCacheHits'', JNum (num_of_int (int (ev_cacheHits ev)))),
      (''semanticCacheMisses'', JNum (num_of_int (int (ev_cacheMisses ev)))),
      (''inputFields'', JArr (map JStr (sem_input (dec_condition dec))))] @
     (case dec_metadata dec of None \<Rightarrow> [] | Some v \<Rightarrow> if json_truthy v then [(''providerEvidence'', v)] else []))"

definition wait_details :: "string \<Rightarrow> evaluation \<Rightarrow> jobj" where
  "wait_details reason ev =
     [(''reason'', JStr reason), (''patternVersion'', JStr ''2''),
      (''pendingCandidates'', JNum (num_of_int (int (length (ev_pending ev))))),
      (''semanticEvaluations'', JNum (num_of_int (int (ev_semanticEvaluations ev)))),
      (''truncated'', JBool (ev_truncated ev))]"

definition condition_of :: "candidate \<Rightarrow> string" where
  "condition_of c = ''pattern-v2:'' @ patternV2CandidateSignature c"

definition due_conditions :: "trigger_definition \<Rightarrow> evaluation \<Rightarrow> due_condition list" where
  "due_conditions d ev = concat (map (\<lambda>c. case pendingUntil c of None \<Rightarrow> []
     | Some t \<Rightarrow> if candidateFitsTriggerWindow c (td_withinMs d)
         then [\<lparr>du_conditionId = condition_of c, du_dueAt = t\<rparr>] else [])
     (ev_pending ev @ ev_incompletePending ev))"

definition emitted_signatures :: "trigger_definition \<Rightarrow> world \<Rightarrow> string list" where
  "emitted_signatures d w = concat (map (\<lambda>r. case tm_patternState r of None \<Rightarrow> []
     | Some p \<Rightarrow> if tm_triggerVersion r = td_version d \<and> pm_role p = RoleMatch \<and> truthy_str (pm_signature p)
         then [the (pm_signature p)] else [])
     (listTriggerMatches (w_matches w) (Some (td_triggerId d))))"

definition match_id :: "runtime \<Rightarrow> trigger_definition \<Rightarrow> trigger_match \<Rightarrow> candidate \<Rightarrow> string" where
  "match_id ru d buffer c = hash_id ru ''tm_'' (join_with '':'' [td_triggerId d, td_version d,
     key_or_dash (tm_partitionKey buffer), patternV2CandidateSignature c, ''pattern-v2-match''])"

text \<open>The largest instant, for the descending sorts of which only the first element is used.\<close>

definition latest_ms :: "int list \<Rightarrow> int option" where
  "latest_ms ts = (if ts = [] then None else Some (max_of ts))"

definition completed_ms :: "temporal_deadline list \<Rightarrow> int \<Rightarrow> candidate \<Rightarrow> int" where
  "completed_ms reached evaluationNow c =
     (case latest_ms (map (ts_ms \<circ> dd_dueAt) (filter (\<lambda>e. dd_conditionId e = condition_of c) reached)) of
        Some t \<Rightarrow> t
      | None \<Rightarrow> (case latest_ms (map (ts_ms \<circ> occurredAt) (cand_events c)) of Some t \<Rightarrow> t | None \<Rightarrow> evaluationNow))"

definition matched_record ::
  "runtime \<Rightarrow> trigger_definition \<Rightarrow> trigger_match \<Rightarrow> temporal_deadline list \<Rightarrow> int \<Rightarrow> timestamp \<Rightarrow> candidate \<Rightarrow>
   js_error + trigger_match"
where
  "matched_record ru d buffer reached evaluationNow nowIso c =
     (let openedAt = (case cand_events c of [] \<Rightarrow> tm_openedAt buffer | e # _ \<Rightarrow> occurredAt e) in
      case decision_records (semanticDecisions c) nowIso of Inl e \<Rightarrow> Inl e | Inr decisions \<Rightarrow>
      case toISOString (time_clip (completed_ms reached evaluationNow c)) of Inl e \<Rightarrow> Inl e | Inr completedAt \<Rightarrow>
      case toISOString (time_clip (ts_ms openedAt + td_withinMs d)) of Inl e \<Rightarrow> Inl e | Inr expiresAt \<Rightarrow>
        Inr \<lparr>tm_matchId = match_id ru d buffer c, tm_triggerId = td_triggerId d, tm_triggerVersion = td_version d,
          tm_status = Matched, tm_partitionKey = tm_partitionKey buffer, tm_openedAt = openedAt,
          tm_expiresAt = expiresAt, tm_updatedAt = nowIso, tm_sourceEvents = cand_events c,
          tm_semanticDecision = (if decisions = [] then None else Some (snd (last decisions))),
          tm_patternState = Some \<lparr>pm_role = RoleMatch, pm_signature = Some (patternV2CandidateSignature c),
            pm_maxObservedOccurredAt = None, pm_completedAt = Some completedAt, pm_semanticDecisions = decisions\<rparr>,
          tm_firedWakeId = None, tm_derivedEventIds = []\<rparr>)"

definition append_match :: "trigger_match \<Rightarrow> unit act" where
  "append_match r = (\<lambda>w. case appendTriggerMatch r (w_matches w) of (_, t) \<Rightarrow> (Inr (), w\<lparr>w_matches := t\<rparr>))"

text \<open>The append of a match: fenced when the pattern reads delivery evidence.\<close>

definition commit_match :: "string option \<Rightarrow> trigger_match \<Rightarrow> trigger_match \<Rightarrow> bool act" where
  "commit_match snapshot buffer r = (case snapshot of
     None \<Rightarrow> seq (append_match r) (\<lambda>_. ret True)
   | Some s \<Rightarrow> (\<lambda>w. case appendTriggerMatchIfMcpGapUnchanged r s buffer (w_mcp w) (w_matches w) of
       (reply, t) \<Rightarrow> (reply, w\<lparr>w_matches := t\<rparr>)))"

definition matched_details :: "evaluation \<Rightarrow> trigger_match \<Rightarrow> candidate \<Rightarrow> jobj" where
  "matched_details ev r c =
     [(''patternVersion'', JStr ''2''), (''signature'', JStr (patternV2CandidateSignature c)),
      (''semanticEvaluations'', JNum (num_of_int (int (ev_semanticEvaluations ev)))),
      (''truncated'', JBool (ev_truncated ev)),
      (''sourceEventIds'', JArr (map (JStr \<circ> sourceEventId) (tm_sourceEvents r)))]"

text \<open>What a stale fence leads to: a second evaluation of the current buffer, or a retry deadline.\<close>

definition is_buffer :: "trigger_match \<Rightarrow> bool" where
  "is_buffer r \<longleftrightarrow> map_option pm_role (tm_patternState r) = Some RoleBuffer"

definition after_stale ::
  "runtime \<Rightarrow> (trigger_match \<Rightarrow> ingest_result list act) option \<Rightarrow> trigger_definition \<Rightarrow> trigger_match \<Rightarrow>
   timestamp \<Rightarrow> candidate \<Rightarrow> ingest_result list act"
where
  "after_stale ru retry d buffer nowIso c = (case retry of
     Some again \<Rightarrow> seq (readW (latestMatch (tm_matchId buffer))) (\<lambda>latest. case latest of
         Some b \<Rightarrow> if tm_status b = Partial \<and> is_buffer b then again b else ret []
       | None \<Rightarrow> ret [])
   | None \<Rightarrow> seq (scheduleDeadlines ru d (tm_matchId buffer) [\<lparr>du_conditionId = condition_of c, du_dueAt = nowIso\<rparr>])
       (\<lambda>_. ret []))"

text \<open>
  The loop over the selected candidates. It ends with the results of all of them, or, at a
  stale fence, with the results so far and those of the second evaluation.
\<close>

fun commit_loop ::
  "runtime \<Rightarrow> (trigger_match \<Rightarrow> ingest_result list act) option \<Rightarrow> trigger_definition \<Rightarrow> trigger_match \<Rightarrow>
   string option \<Rightarrow> evaluation \<Rightarrow> temporal_deadline list \<Rightarrow> int \<Rightarrow> timestamp \<Rightarrow> candidate list \<Rightarrow>
   ingest_result list \<Rightarrow> (bool \<times> ingest_result list) act"
where
  "commit_loop ru retry d buffer snapshot ev reached evaluationNow nowIso [] results = ret (True, results)"
| "commit_loop ru retry d buffer snapshot ev reached evaluationNow nowIso (c # cs) results =
     seq (liftE (matched_record ru d buffer reached evaluationNow nowIso c)) (\<lambda>r.
     seq (commit_match snapshot buffer r) (\<lambda>committed.
     if \<not> committed then
       seq (after_stale ru retry d buffer nowIso c) (\<lambda>more. ret (False, results @ more))
     else seq (auditMatch ru r ''trigger.matched'' (matched_details ev r c)) (\<lambda>_.
       commit_loop ru retry d buffer snapshot ev reached evaluationNow nowIso cs
         (results @ [\<lparr>ir_triggerId = td_triggerId d, ir_match = Some r, ir_matched = True, ir_fired = False\<rparr>]))))"

definition updated_buffer ::
  "trigger_definition \<Rightarrow> trigger_match \<Rightarrow> timestamp \<Rightarrow> source_event list \<Rightarrow> js_error + trigger_match"
where
  "updated_buffer d buffer nowIso retained =
     (let openedAt = (case retained of [] \<Rightarrow> nowIso | e # _ \<Rightarrow> occurredAt e) in
      case toISOString (time_clip (ts_ms openedAt + td_withinMs d)) of Inl e \<Rightarrow> Inl e | Inr expiresAt \<Rightarrow>
        Inr (buffer\<lparr>tm_openedAt := openedAt, tm_expiresAt := expiresAt, tm_updatedAt := nowIso,
          tm_sourceEvents := retained\<rparr>))"

definition evaluate_pass ::
  "engine \<Rightarrow> (trigger_match \<Rightarrow> ingest_result list act) option \<Rightarrow> trigger_definition \<Rightarrow> trigger_match \<Rightarrow> int \<Rightarrow>
   ingest_result list act"
where
  "evaluate_pass en retry d buffer evaluationNow =
     (let ru = en_ru en; h = ru_host ru; p = pat_selection (td_pattern d) in
      seq (liftE (toISOString (time_clip evaluationNow))) (\<lambda>nowIso.
      seq (readW (\<lambda>w. filter (\<lambda>e. ts_ms (dd_dueAt e) \<le> evaluationNow) (pending_of (tm_matchId buffer) w))) (\<lambda>reached.
      seq (gapEvaluationEvidence d) (\<lambda>(incomplete, snapshot).
      seq (run_evaluation en d buffer incomplete evaluationNow) (\<lambda>ev.
      seq (each (\<lambda>s. auditMatch ru buffer ''trigger.correlation'' (trace_details ev s)) (ev_trace ev)) (\<lambda>_.
      seq (reconcileDeadlines ru d (tm_matchId buffer) (due_conditions d ev)) (\<lambda>_.
      seq (readW (emitted_signatures d)) (\<lambda>emitted.
      seq (readW (\<lambda>w. ts_fireCount (getTriggerState (w_states w) (td_triggerId d) (td_version d)))) (\<lambda>fireCount.
      let selected = select_candidates h p (selection_limit d fireCount) (tm_sourceEvents buffer)
            (fresh_candidates (td_withinMs d) emitted (ev_matches ev))
      in seq (commit_loop ru retry d buffer snapshot ev reached evaluationNow nowIso selected []) (\<lambda>(complete, results).
         if \<not> complete then ret results
         else seq (if selected = [] then ret ()
             else seq (liftE (updated_buffer d buffer nowIso (retained_events h p (tm_sourceEvents buffer) selected)))
               append_match) (\<lambda>_.
           if results \<noteq> [] then seq (auditMatch ru buffer ''trigger.partial'' (wait_details ''pattern_v2_selected'' ev))
             (\<lambda>_. ret results)
           else seq (auditMatch ru buffer ''trigger.partial'' (wait_details ''pattern_v2_wait'' ev))
             (\<lambda>_. ret [\<lparr>ir_triggerId = td_triggerId d, ir_match = Some buffer, ir_matched = False,
               ir_fired = False\<rparr>]))))))))))))"

fun evaluatePatternBuffer ::
  "engine \<Rightarrow> trigger_definition \<Rightarrow> int \<Rightarrow> nat \<Rightarrow> trigger_match \<Rightarrow> ingest_result list act"
where
  "evaluatePatternBuffer en d evaluationNow 0 buffer = evaluate_pass en None d buffer evaluationNow"
| "evaluatePatternBuffer en d evaluationNow (Suc budget) buffer =
     evaluate_pass en (Some (evaluatePatternBuffer en d evaluationNow budget)) d buffer evaluationNow"

end
