(* ===== verification/Engine_Ingest.thy ===== *)
theory Engine_Ingest
  imports Engine
begin

text \<open>
  The entry points of \<open>src/composite/engine.ts\<close>: an event goes through the lifecycle gate, the
  clauses and the replay check of every definition to the buffer of its partition; a timer goes to
  the buffer of its deadline; a match becomes fired or emitted once.
\<close>

subsection \<open>The buffer of a partition\<close>

definition add_source :: "correlatable_event \<Rightarrow> trigger_clause \<Rightarrow> source_event list \<Rightarrow> source_event list" where
  "add_source event c events =
     (if list_ex (\<lambda>s. clauseId s = clause_id c \<and> sameEventIdentity s event) events then events
      else events @ [asSourceEvent (clause_id c) event])"

definition buffered_events ::
  "host \<Rightarrow> trigger_match option \<Rightarrow> trigger_clause list \<Rightarrow> correlatable_event \<Rightarrow> source_event list"
where
  "buffered_events h existing clauses event = sort_by (sourceEventOrder h)
     (fold (add_source event) clauses (case existing of None \<Rightarrow> [] | Some b \<Rightarrow> tm_sourceEvents b))"

text \<open>The previous maximum is minus infinity when the buffer has none.\<close>

definition max_observed :: "trigger_match option \<Rightarrow> correlatable_event \<Rightarrow> source_event list \<Rightarrow> int" where
  "max_observed existing event events =
     max_of ((case Option.bind (Option.bind existing tm_patternState) pm_maxObservedOccurredAt of None \<Rightarrow> []
         | Some t \<Rightarrow> [ts_ms t]) @ [ts_ms (ce_occurredAt event)] @ map (ts_ms \<circ> occurredAt) events)"

definition physical_events :: "source_event list \<Rightarrow> nat" where
  "physical_events events = length (first_by patternPhysicalIdentity [] events)"

definition overflow_error :: "nat \<Rightarrow> js_error" where
  "overflow_error n = coded_error ''PATTERN_V2_BUFFER_LIMIT_EXCEEDED''
     (''Pattern v2 buffer exceeded maxBufferedEvents='' @ int_str (int n))"

definition audit_overflow ::
  "runtime \<Rightarrow> trigger_definition \<Rightarrow> string option \<Rightarrow> correlatable_event \<Rightarrow> timestamp \<Rightarrow> nat \<Rightarrow> unit act"
where
  "audit_overflow ru d key event nowIso buffered = seq (appendAudit ru
     \<lparr>ai_auditId = hash_id ru ''audit_'' (td_triggerId d @ '':'' @ td_version d @ '':pattern_buffer_overflow:'' @
        key_or_dash key @ '':'' @ ts_text nowIso),
      ai_traceId = ce_traceId event, ai_timestamp = nowIso, ai_kind = ''event.buffer_overflow'',
      ai_entityType = ''trigger'', ai_entityId = td_triggerId d, ai_fromState = None, ai_toState = None,
      ai_details = [(''triggerVersion'', JStr (td_version d)), (''patternVersion'', JStr ''2''),
        (''partitionKey'', nullable key), (''bufferedEvents'', JNum (num_of_int (int buffered))),
        (''maxBufferedEvents'', JNum (num_of_int (int (ex_maxBufferedEvents (pat_execution (td_pattern d))))))]\<rparr>)
     (\<lambda>_. ret ())"

definition audit_late ::
  "runtime \<Rightarrow> trigger_definition \<Rightarrow> correlatable_event \<Rightarrow> timestamp \<Rightarrow> int \<Rightarrow> int \<Rightarrow> unit act"
where
  "audit_late ru d event nowIso watermarkMs retentionFloor =
     seq (liftE (toISOString (time_clip watermarkMs))) (\<lambda>watermarkAt.
     seq (liftE (toISOString (time_clip retentionFloor))) (\<lambda>floorIso.
     seq (appendAudit ru
       \<lparr>ai_auditId = hash_id ru ''audit_'' (td_triggerId d @ '':'' @ td_version d @ '':pattern_late_event_dropped:'' @
          ce_sourceEventId event @ '':'' @ ts_text nowIso),
        ai_traceId = ce_traceId event, ai_timestamp = nowIso, ai_kind = ''event.late_dropped'',
        ai_entityType = ''trigger'', ai_entityId = td_triggerId d, ai_fromState = None, ai_toState = None,
        ai_details = [(''triggerVersion'', JStr (td_version d)), (''patternVersion'', JStr ''2''),
          (''sourceEventId'', JStr (ce_sourceEventId event)), (''occurredAt'', ts_json (ce_occurredAt event)),
          (''watermarkAt'', ts_json watermarkAt), (''retentionFloor'', ts_json floorIso)]\<rparr>) (\<lambda>_. ret ())))"

definition new_buffer ::
  "runtime \<Rightarrow> trigger_definition \<Rightarrow> string option \<Rightarrow> correlatable_event \<Rightarrow> timestamp \<Rightarrow> int \<Rightarrow> source_event list \<Rightarrow>
   js_error + trigger_match"
where
  "new_buffer ru d key event nowIso maxObserved events =
     (let openedAt = (case events of [] \<Rightarrow> ce_occurredAt event | e # _ \<Rightarrow> occurredAt e) in
      case toISOString (time_clip (ts_ms openedAt + td_withinMs d)) of Inl e \<Rightarrow> Inl e | Inr expiresAt \<Rightarrow>
      case toISOString (time_clip maxObserved) of Inl e \<Rightarrow> Inl e | Inr maxIso \<Rightarrow>
        Inr \<lparr>tm_matchId = patternBufferId ru d key, tm_triggerId = td_triggerId d, tm_triggerVersion = td_version d,
          tm_status = Partial, tm_partitionKey = key, tm_openedAt = openedAt, tm_expiresAt = expiresAt,
          tm_updatedAt = nowIso, tm_sourceEvents = events, tm_semanticDecision = None,
          tm_patternState = Some \<lparr>pm_role = RoleBuffer, pm_signature = None, pm_maxObservedOccurredAt = Some maxIso,
            pm_completedAt = None, pm_semanticDecisions = []\<rparr>,
          tm_firedWakeId = None, tm_derivedEventIds = []\<rparr>)"

text \<open>What the event makes of the buffer: too many events, an event that is too late, or a new buffer.\<close>

datatype buffer_outcome = Overflows nat | TooLate int int | Buffered int "source_event list"

definition buffer_step ::
  "host \<Rightarrow> trigger_definition \<Rightarrow> trigger_match option \<Rightarrow> trigger_clause list \<Rightarrow> correlatable_event \<Rightarrow> buffer_outcome"
where
  "buffer_step h d existing clauses event =
     (let events = buffered_events h existing clauses event;
          maxObserved = max_observed existing event events;
          watermarkMs = maxObserved - (case td_allowedLatenessMs d of None \<Rightarrow> 0 | Some ms \<Rightarrow> ms);
          retentionFloor = watermarkMs - td_withinMs d;
          kept = filter (\<lambda>e. retentionFloor \<le> ts_ms (occurredAt e)) events
      in if ex_maxBufferedEvents (pat_execution (td_pattern d)) < physical_events kept then Overflows (physical_events kept)
         else if ts_ms (ce_occurredAt event) < retentionFloor \<and>
             \<not> (case existing of None \<Rightarrow> False | Some b \<Rightarrow> list_ex (\<lambda>s. sameEventIdentity s event) (tm_sourceEvents b))
         then TooLate watermarkMs retentionFloor
         else Buffered maxObserved kept)"

definition applyPatternWithPartition ::
  "engine \<Rightarrow> trigger_definition \<Rightarrow> trigger_clause list \<Rightarrow> correlatable_event \<Rightarrow> string option \<Rightarrow> ingest_result list act"
where
  "applyPatternWithPartition en d clauses event key =
     (let ru = en_ru en in
      seq (read_now ru) (\<lambda>nowIso.
      seq (readW (latestMatch (patternBufferId ru d key))) (\<lambda>existing.
      case buffer_step (ru_host ru) d existing clauses event of
        Overflows n \<Rightarrow> seq (audit_overflow ru d key event nowIso n)
          (\<lambda>_. throw (overflow_error (ex_maxBufferedEvents (pat_execution (td_pattern d)))))
      | TooLate watermarkMs retentionFloor \<Rightarrow> seq (audit_late ru d event nowIso watermarkMs retentionFloor)
          (\<lambda>_. ret [\<lparr>ir_triggerId = td_triggerId d, ir_match = existing, ir_matched = False, ir_fired = False\<rparr>])
      | Buffered maxObserved events \<Rightarrow>
          seq (liftE (new_buffer ru d key event nowIso maxObserved events)) (\<lambda>buffer.
          seq (append_match buffer) (\<lambda>_. evaluatePatternBuffer en d (ts_ms nowIso) 1 buffer)))))"

subsection \<open>Leases\<close>

text \<open>\<open>try { m } finally { f }\<close>.\<close>

definition finally_do :: "'a act \<Rightarrow> 'b act \<Rightarrow> 'a act" where
  "finally_do m f = (\<lambda>w. case m w of (r, w') \<Rightarrow>
     (case f w' of (Inl e, w'') \<Rightarrow> (Inl e, w'') | (Inr _, w'') \<Rightarrow> (r, w'')))"

definition claim_lease :: "engine \<Rightarrow> string \<Rightarrow> partition_lease option act" where
  "claim_lease en leaseKey = seq (read_now (en_ru en)) (\<lambda>t w.
     case claimPartitionLease leaseKey (en_workerId en) t (en_partitionLeaseMs en) (w_leases w) of
       (r, l) \<Rightarrow> (r, w\<lparr>w_leases := l\<rparr>))"

definition release_lease :: "engine \<Rightarrow> string \<Rightarrow> bool act" where
  "release_lease en leaseKey = seq (read_now (en_ru en)) (\<lambda>t w.
     case releasePartitionLease leaseKey (en_workerId en) t (w_leases w) of
       (r, l) \<Rightarrow> (Inr r, w\<lparr>w_leases := l\<rparr>))"

definition applyPattern ::
  "engine \<Rightarrow> trigger_definition \<Rightarrow> trigger_clause list \<Rightarrow> correlatable_event \<Rightarrow> ingest_result list act"
where
  "applyPattern en d clauses event =
     seq (liftE (patternPartitionKey d clauses event)) (\<lambda>key.
     if \<not> en_distributed en then applyPatternWithPartition en d clauses event key
     else let leaseKey = join_with '':'' [td_triggerId d, td_version d, key_or_dash key] in
       seq (claim_lease en leaseKey) (\<lambda>lease. case lease of
         None \<Rightarrow> throw (coded_error ''PATTERN_PARTITION_LEASE_BUSY''
           (''Pattern partition is currently owned by another worker: '' @ leaseKey))
       | Some _ \<Rightarrow> finally_do (applyPatternWithPartition en d clauses event key) (release_lease en leaseKey)))"

subsection \<open>Events\<close>

definition requires_lifecycle_check :: "lifecycle_policy \<Rightarrow> bool" where
  "requires_lifecycle_check l \<longleftrightarrow> lc_expiresAt l \<noteq> None \<or> lc_leaseUntil l \<noteq> None \<or> lc_oneShot l \<or> lc_maxFirings l \<noteq> None"

fun is_regex :: "predicate_op \<Rightarrow> bool" where
  "is_regex (PRegex _ _) = True"
| "is_regex _ = False"

definition has_regex :: "trigger_definition \<Rightarrow> bool" where
  "has_regex d = list_ex (\<lambda>c. list_ex (is_regex \<circ> pred_op) (clause_where c)) (td_clauses d)"

definition matching_clauses :: "host \<Rightarrow> trigger_definition \<Rightarrow> correlatable_event \<Rightarrow> trigger_clause list" where
  "matching_clauses h d event = filter (\<lambda>c. clauseMatches h c event) (td_clauses d)"

definition replay_result :: "trigger_definition \<Rightarrow> trigger_match \<Rightarrow> ingest_result" where
  "replay_result d r = \<lparr>ir_triggerId = td_triggerId d, ir_match = Some r,
     ir_matched = (tm_status r \<in> {Matched, Emitted, Fired}), ir_fired = (tm_status r = Fired)\<rparr>"

definition ingest_definition ::
  "engine \<Rightarrow> correlatable_event \<Rightarrow> trigger_definition \<Rightarrow> ingest_result list act"
where
  "ingest_definition en event d =
     (let ru = en_ru en; matching = matching_clauses (ru_host ru) d event in
      if \<not> requires_lifecycle_check (td_lifecycle d) \<and> \<not> has_regex d \<and> matching = [] then ret []
      else seq (readW (\<lambda>w. getTriggerState (w_states w) (td_triggerId d) (td_version d))) (\<lambda>s.
        seq (read_now ru) (\<lambda>t.
        seq (lifecycleAllows ru d s (ts_ms t)) (\<lambda>allowed.
        if \<not> allowed \<or> matching = [] then ret []
        else seq (readW (replayed_match d event)) (\<lambda>replayed. case replayed of
            Some r \<Rightarrow> ret [replay_result d r]
          | None \<Rightarrow> applyPattern en d matching event)))))"

fun ingest_all ::
  "engine \<Rightarrow> correlatable_event \<Rightarrow> trigger_definition list \<Rightarrow> ingest_result list \<Rightarrow> ingest_result list act"
where
  "ingest_all en event [] results = ret results"
| "ingest_all en event (d # ds) results =
     seq (ingest_definition en event d) (\<lambda>rs. ingest_all en event ds (results @ rs))"

definition ingestTimerEvent :: "engine \<Rightarrow> correlatable_event \<Rightarrow> ingest_result list act" where
  "ingestTimerEvent en event =
     (let ru = en_ru en; deadlineId = (case map_of (ce_data event) ''deadlineId'' of None \<Rightarrow> []
        | Some JNull \<Rightarrow> [] | Some v \<Rightarrow> js_string v) in
      if deadlineId = [] then ret []
      else seq (readW (\<lambda>w. getTemporalDeadline (w_deadlines w) deadlineId)) (\<lambda>deadline. case deadline of
          None \<Rightarrow> ret []
        | Some dl \<Rightarrow>
          if dd_status dl \<noteq> DPending then ret []
          else seq (readW (\<lambda>w. getTrigger (w_triggers w) (dd_triggerId dl) (dd_triggerVersion dl))) (\<lambda>found. case found of
              None \<Rightarrow> ret []
            | Some d \<Rightarrow>
              seq (readW (\<lambda>w. getTriggerState (w_states w) (td_triggerId d) (td_version d))) (\<lambda>s.
              seq (read_now ru) (\<lambda>t.
              seq (lifecycleAllows ru d s (ts_ms t)) (\<lambda>allowed.
              if \<not> allowed then ret []
              else seq (readW (latestMatch (dd_matchId dl))) (\<lambda>m. case m of
                  None \<Rightarrow> ret []
                | Some b \<Rightarrow> if tm_status b = Partial \<and> is_buffer b
                    then evaluatePatternBuffer en d (ts_ms (ce_occurredAt event)) 1 b else ret [])))))))"

text \<open>The event comes parsed, as \<open>parseCorrelatableEvent\<close> leaves it.\<close>

definition ingest :: "engine \<Rightarrow> correlatable_event \<Rightarrow> ingest_result list act" where
  "ingest en event =
     (if ce_name event = ''event-intelligence.timer.reached'' then ingestTimerEvent en event
      else seq (readW (\<lambda>w. listTriggers (w_triggers w))) (\<lambda>ds. ingest_all en event ds []))"

subsection \<open>Effects\<close>

definition invalid_record :: js_error where
  "invalid_record = JsError KError None ''Invalid trigger match record''"

definition transition :: "trigger_match \<Rightarrow> cas_reply act" where
  "transition r = (\<lambda>w. case compareAndAppendTriggerMatch r [Matched] (w_matches w) of
     (reply, t) \<Rightarrow> (Inr reply, w\<lparr>w_matches := t\<rparr>))"

definition status_or_missing :: "trigger_match option \<Rightarrow> string" where
  "status_or_missing r = (case r of None \<Rightarrow> ''missing'' | Some m \<Rightarrow> status_text (tm_status m))"

text \<open>The common part of the two effects, after the transition was applied.\<close>

definition finish_effect :: "runtime \<Rightarrow> trigger_match \<Rightarrow> string \<Rightarrow> string \<Rightarrow> jobj \<Rightarrow> effect \<Rightarrow> string \<Rightarrow> trigger_match act" where
  "finish_effect ru r matchId ak details eff effectId =
     seq (cancelDeadlinesForMatch ru matchId) (\<lambda>_.
     seq (auditMatch ru r ak details) (\<lambda>_.
     seq (advanceLifecycleAfterEffect ru r eff effectId) (\<lambda>_. ret r)))"

definition markFired :: "engine \<Rightarrow> string \<Rightarrow> string \<Rightarrow> trigger_match act" where
  "markFired en matchId wakeId =
     (let ru = en_ru en in
      seq (readW (latestMatch matchId)) (\<lambda>latest. case latest of
        None \<Rightarrow> throw (plain_error (''Unknown trigger match: '' @ matchId))
      | Some m \<Rightarrow>
        if tm_status m = Fired then ret m
        else if tm_status m \<noteq> Matched then throw (plain_error
          (''Trigger match must be matched before firing; current='' @ status_text (tm_status m)))
        else seq (read_now ru) (\<lambda>t.
          if \<not> audit_id wakeId then throw invalid_record
          else let fired = m\<lparr>tm_status := Fired, tm_firedWakeId := Some wakeId, tm_updatedAt := t\<rparr> in
            seq (transition fired) (\<lambda>reply.
            if \<not> cas_applied reply then
              (case cas_record reply of
                 Some r \<Rightarrow> if tm_status r = Fired then ret r else throw (plain_error
                   (''Trigger match changed before firing; current='' @ status_or_missing (cas_record reply)))
               | None \<Rightarrow> throw (plain_error
                   (''Trigger match changed before firing; current='' @ status_or_missing None)))
            else finish_effect ru (case cas_record reply of Some r \<Rightarrow> r | None \<Rightarrow> fired) matchId ''trigger.fired''
              [(''wakeId'', JStr wakeId)] Wake_Effect wakeId))))"

definition markDerivedEmitted :: "engine \<Rightarrow> string \<Rightarrow> string \<Rightarrow> trigger_match act" where
  "markDerivedEmitted en matchId derivedEventId =
     (let ru = en_ru en in
      seq (readW (latestMatch matchId)) (\<lambda>latest. case latest of
        None \<Rightarrow> throw (plain_error (''Unknown trigger match: '' @ matchId))
      | Some m \<Rightarrow>
        if tm_status m = Emitted \<and> derivedEventId \<in> set (tm_derivedEventIds m) then ret m
        else if tm_status m \<noteq> Matched then throw (plain_error
          (''Trigger match must be matched before derived emission; current='' @ status_text (tm_status m)))
        else seq (read_now ru) (\<lambda>t.
          if \<not> audit_id derivedEventId then throw invalid_record
          else let emitted = m\<lparr>tm_status := Emitted, tm_updatedAt := t,
              tm_derivedEventIds := uniq (tm_derivedEventIds m @ [derivedEventId])\<rparr> in
            seq (transition emitted) (\<lambda>reply.
            if \<not> cas_applied reply then
              (case cas_record reply of
                 Some r \<Rightarrow> if tm_status r = Emitted \<and> derivedEventId \<in> set (tm_derivedEventIds r) then ret r
                   else throw (plain_error (''Trigger match changed before derived emission; current='' @
                     status_or_missing (cas_record reply)))
               | None \<Rightarrow> throw (plain_error (''Trigger match changed before derived emission; current='' @
                     status_or_missing None)))
            else finish_effect ru (case cas_record reply of Some r \<Rightarrow> r | None \<Rightarrow> emitted) matchId ''trigger.emitted''
              [(''derivedEventId'', JStr derivedEventId)] Derived_Effect derivedEventId))))"

end
