(* ===== verification/Engine_Frames.thy ===== *)
theory Engine_Frames
  imports Engine_Ingest
begin

text \<open>
  What the actions of the engine leave alone. A relation on worlds that is reflexive and
  transitive is kept by a whole handler when each of its actions keeps it, on every branch and
  with every exception; the relations here are the frames that the properties of the engine use.
\<close>

subsection \<open>Handlers keep a frame\<close>

locale frame =
  fixes R :: "world \<Rightarrow> world \<Rightarrow> bool"
  assumes R_refl: "R w w" and R_trans: "R u v \<Longrightarrow> R v w \<Longrightarrow> R u w"
begin

definition keeps :: "'a act \<Rightarrow> bool" where
  "keeps m \<longleftrightarrow> (\<forall>w. R w (snd (m w)))"

lemma keepsI: "(\<And>w. R w (snd (m w))) \<Longrightarrow> keeps m"
  by (simp add: keeps_def)

lemma keepsD: "keeps m \<Longrightarrow> m w = (r, w') \<Longrightarrow> R w w'"
  by (metis keeps_def snd_conv)

lemma keeps_still: "(\<And>w. snd (m w) = w) \<Longrightarrow> keeps m"
  by (simp add: keeps_def R_refl)

lemma keeps_ret: "keeps (ret x)" and keeps_throw: "keeps (throw e)" and keeps_liftE: "keeps (liftE r)"
  and keeps_readW: "keeps (readW f)"
  by (simp_all add: keeps_still readW_def)

lemma keeps_seq: "keeps m \<Longrightarrow> (\<And>x. keeps (f x)) \<Longrightarrow> keeps (seq m f)"
  by (auto simp: keeps_def seq_def intro: R_trans split: prod.splits sum.splits) (metis R_trans snd_conv)+

lemma keeps_if: "(b \<Longrightarrow> keeps m) \<Longrightarrow> (\<not> b \<Longrightarrow> keeps n) \<Longrightarrow> keeps (if b then m else n)"
  by simp

lemma keeps_option: "(x = None \<Longrightarrow> keeps m) \<Longrightarrow> (\<And>y. x = Some y \<Longrightarrow> keeps (f y)) \<Longrightarrow> keeps (case x of None \<Rightarrow> m | Some y \<Rightarrow> f y)"
  by (cases x) simp_all

lemma keeps_prod: "(\<And>a b. x = (a, b) \<Longrightarrow> keeps (f a b)) \<Longrightarrow> keeps (case x of (a, b) \<Rightarrow> f a b)"
  by (cases x) simp

lemma keeps_let: "keeps (f x) \<Longrightarrow> keeps (let y = x in f y)"
  by simp

lemma keeps_each: "(\<And>x. keeps (f x)) \<Longrightarrow> keeps (each f xs)"
  by (induction xs) (simp_all add: keeps_ret keeps_seq)

lemma keeps_finally: "keeps m \<Longrightarrow> keeps f \<Longrightarrow> keeps (finally_do m f)"
  by (auto simp: keeps_def finally_do_def split: prod.splits sum.splits) (metis R_trans snd_conv)+

text \<open>What is read from a world may be used for the actions that follow.\<close>

lemma keeps_read_at: "(\<And>w. R w (snd (g (f w) w))) \<Longrightarrow> keeps (seq (readW f) g)"
  by (rule keepsI) (simp add: readW_def seq_def)

lemma seq_at: "R w (snd (m w)) \<Longrightarrow> (\<And>x. keeps (f x)) \<Longrightarrow> R w (snd (seq m f w))"
  by (cases "m w"; cases "fst (m w)") (auto simp: seq_def keeps_def intro: R_trans)

lemmas keeps_rules = keeps_seq keeps_if keeps_option keeps_prod keeps_let keeps_each keeps_finally
  keeps_ret keeps_throw keeps_liftE keeps_readW

end

subsection \<open>What the runtime support leaves alone\<close>

text \<open>A frame that the tables of deadlines and leases, the audit log and the advance of the clock are outside of.\<close>

locale base_frame = frame +
  assumes R_ticks: "w_ticks w \<le> n \<Longrightarrow> R w (w\<lparr>w_ticks := n\<rparr>)" and R_deadlines: "R w (w\<lparr>w_deadlines := dt\<rparr>)"
    and R_audit: "R w (w\<lparr>w_audit := c\<rparr>)" and R_leases: "R w (w\<lparr>w_leases := l\<rparr>)"
begin

lemma keeps_primitives: "keeps (read_now ru)" "keeps (on_deadlines g)" "keeps (appendAudit ru i)"
  by (auto intro!: keepsI R_ticks R_deadlines R_audit simp: read_now_def on_deadlines_def appendAudit_def split: prod.splits)

lemma keeps_audit: "keeps (auditTriggerLifecycle ru d ak ds)" "keeps (auditMatch ru r ak ds)"
  unfolding auditTriggerLifecycle_def auditMatch_def by (intro keeps_rules keeps_primitives)+

lemma keeps_set: "keeps (put_deadline ru input)" "keeps (set_deadline ru status k)"
  unfolding put_deadline_def set_deadline_def by (intro keeps_rules keeps_primitives)+

lemma keeps_deadlines: "keeps (scheduleDeadlines ru d i cs)" "keeps (reconcileDeadlines ru d i cs)"
  "keeps (cancelDeadlinesForMatch ru i)"
  unfolding reconcileDeadlines_def scheduleDeadlines_def schedule_one_def cancelDeadlinesForMatch_def
  by (intro keeps_rules keeps_set)+

text \<open>An action on the table of leases alone; the result of the table operation may be an error or not.\<close>

lemma keeps_on_leases:
  "keeps (\<lambda>w. case f (w_leases w) of (r, l) \<Rightarrow> (r, w\<lparr>w_leases := l\<rparr>))"
  "keeps (\<lambda>w. case g (w_leases w) of (x, l) \<Rightarrow> (Inr x, w\<lparr>w_leases := l\<rparr>))"
  by (auto intro!: keepsI R_leases split: prod.splits)

lemma keeps_leases: "keeps (claim_lease en k)" "keeps (release_lease en k)"
  unfolding claim_lease_def release_lease_def by (intro keeps_seq keeps_primitives keeps_on_leases)+

lemma keeps_evidence: "keeps (gapEvaluationEvidence d)"
proof -
  have "keeps (\<lambda>w. (f w, w))" for f :: "world \<Rightarrow> js_error + 'a" by (simp add: keeps_still)
  then show ?thesis unfolding gapEvaluationEvidence_def by (intro keeps_rules)
qed

lemmas keeps_base = keeps_primitives keeps_audit keeps_set keeps_deadlines keeps_leases keeps_evidence

end

text \<open>The two operations of the runtime support that write the state of a trigger.\<close>

locale lifecycle_frame = base_frame +
  assumes keeps_gate: "keeps (lifecycleAllows ru d s nowMs)"
    and keeps_advance: "keeps (advanceLifecycleAfterEffect ru m ak e)"
begin

lemma keeps_finish: "keeps (finish_effect ru r i ak ds eff e)"
  unfolding finish_effect_def by (intro keeps_rules keeps_deadlines keeps_audit keeps_advance)

lemmas keeps_support = keeps_base keeps_gate keeps_advance keeps_finish

end

text \<open>A frame that the table of states is outside of, too.\<close>

locale support_frame = base_frame +
  assumes R_states: "R w (w\<lparr>w_states := st\<rparr>)"
begin

lemma keeps_on_states: "keeps (on_states f)"
  by (auto intro!: keepsI R_states simp: on_states_def split: prod.splits)

lemma keeps_set_state: "keeps (set_state ru i v st md)"
  unfolding set_state_def by (intro keeps_rules keeps_primitives keeps_on_states)

lemmas keeps_states = keeps_on_states keeps_set_state

end

sublocale support_frame < lifecycle_frame
  by unfold_locales
    (unfold lifecycleAllows_def advanceLifecycleAfterEffect_def, (intro keeps_rules keeps_states keeps_audit keeps_primitives)+)

subsection \<open>Actions that do not touch matches\<close>

definition quiet :: "world \<Rightarrow> world \<Rightarrow> bool" where
  "quiet w w' \<longleftrightarrow> w_matches w' = w_matches w \<and> w_triggers w' = w_triggers w \<and> w_mcp w' = w_mcp w"

interpretation quiet: support_frame quiet
  by unfold_locales (auto simp: quiet_def)

subsection \<open>Actions that hand nothing to the host\<close>

text \<open>The deliveries and the calls of the host stay as they are, or the log of wake records does.\<close>

definition unsent :: "world \<Rightarrow> world \<Rightarrow> bool" where
  "unsent w w' \<longleftrightarrow> w_deliveries w' = w_deliveries w \<and> w_calls w' = w_calls w"

definition unlogged :: "world \<Rightarrow> world \<Rightarrow> bool" where
  "unlogged w w' \<longleftrightarrow> w_wakes w' = w_wakes w"

interpretation unsent: support_frame unsent
  by unfold_locales (auto simp: unsent_def)

interpretation unlogged: support_frame unlogged
  by unfold_locales (auto simp: unlogged_def)

lemma kept_transition: "unsent.keeps (transition r)" "unlogged.keeps (transition r)"
  by (auto intro!: unsent.keepsI unlogged.keepsI simp: transition_def unsent_def unlogged_def split: prod.splits)

lemma unsent_effects: "unsent.keeps (markFired en i wakeId)" "unsent.keeps (markDerivedEmitted en i e)"
  unfolding markFired_def markDerivedEmitted_def Let_def
  by (intro unsent.keeps_rules unsent.keeps_support kept_transition)+

lemma unlogged_effects: "unlogged.keeps (markFired en i wakeId)" "unlogged.keeps (markDerivedEmitted en i e)"
  unfolding markFired_def markDerivedEmitted_def Let_def
  by (intro unlogged.keeps_rules unlogged.keeps_support kept_transition)+

end
