(* ===== verification/Engine_Effects.thy ===== *)
theory Engine_Effects
  imports Engine_Frames
begin

text \<open>
  The two effects of a match, and the partition of an event: a match becomes fired once, whoever
  reports the wake and how often, and events share a partition exactly when they agree on every
  dimension.
\<close>

subsection \<open>The current record of a match\<close>

lemma filter_by_key:
  assumes "distinct (map fst m)" and "\<forall>e \<in> set m. fst e = key (snd e)"
  shows "filter (\<lambda>r. key r = k) (map snd m) = (case map_of m k of None \<Rightarrow> [] | Some r \<Rightarrow> [r])"
  using assms
proof (induction m)
  case (Cons e m)
  have "map_of m k = None" if "fst e = k" using that Cons.prems(1) by (auto simp: map_of_eq_None_iff)
  then show ?case using Cons by (cases e) (auto split: option.splits)
qed simp

lemma latest_match_get:
  "trigger_matches.durable (w_matches w) \<Longrightarrow> latestMatch i w = getTriggerMatch (w_matches w) i"
  using filter_by_key [of "tab_map (w_matches w)" tm_matchId i]
  by (auto simp: latestMatch_def listTriggerMatches_def truthy_str_def tab_values_def getTriggerMatch_def tab_get_def
    trigger_matches.durable_def split: option.splits)

lemma put_match_durable: "trigger_matches.durable t \<Longrightarrow> trigger_matches.durable (put_match r t)"
  unfolding put_match_def by (rule trigger_matches.durable_put) simp_all

lemma get_put_match: "getTriggerMatch (put_match r t) = (getTriggerMatch t)(tm_matchId r \<mapsto> r)"
  by (simp add: getTriggerMatch_def put_match_def fun_eq_iff)

lemma match_key: "trigger_matches.durable t \<Longrightarrow> getTriggerMatch t i = Some r \<Longrightarrow> tm_matchId r = i"
  using trigger_matches.durable_get [of t i r] by (simp add: getTriggerMatch_def)

subsection \<open>A match fires once\<close>

lemma finish_effect_result: "finish_effect ru r i ak ds eff e w = (Inr x, w') \<Longrightarrow> x = r"
  by (auto simp: finish_effect_def seq_eq_Inr_iff)

definition fired_record :: "engine \<Rightarrow> string \<Rightarrow> trigger_match \<Rightarrow> world \<Rightarrow> trigger_match" where
  "fired_record en wakeId m w =
     m\<lparr>tm_status := Fired, tm_firedWakeId := Some wakeId, tm_updatedAt := ru_clock (en_ru en) (w_ticks w)\<rparr>"

lemma mark_fired_again:
  assumes "trigger_matches.durable (w_matches w)" and "getTriggerMatch (w_matches w) i = Some r" and "tm_status r = Fired"
  shows "markFired en i wakeId w = (Inr r, w)"
  using latest_match_get [OF assms(1)] assms(2,3) by (simp add: markFired_def Let_def readW_def seq_def)

lemma mark_fired_matched:
  assumes "trigger_matches.durable (w_matches w)" and "getTriggerMatch (w_matches w) i = Some m" and "tm_status m = Matched"
    and "audit_id wakeId"
  shows "markFired en i wakeId w = finish_effect (en_ru en) (fired_record en wakeId m w) i ''trigger.fired''
    [(''wakeId'', JStr wakeId)] Wake_Effect wakeId
    (w\<lparr>w_ticks := w_ticks w + 1, w_matches := put_match (fired_record en wakeId m w) (w_matches w)\<rparr>)"
proof -
  let ?r = "fired_record en wakeId m w" and ?w = "w\<lparr>w_ticks := w_ticks w + 1\<rparr>"
  have i: "tm_matchId ?r = i" using match_key [OF assms(1,2)] by (simp add: fired_record_def)
  have "transition ?r ?w = (Inr \<lparr>cas_applied = True, cas_record = Some ?r\<rparr>, ?w\<lparr>w_matches := put_match ?r (w_matches w)\<rparr>)"
    using assms(2,3) by (simp add: transition_def compareAndAppendTriggerMatch_def i)
  then show ?thesis
    using latest_match_get [OF assms(1), of i] assms(2-4)
    by (simp add: markFired_def readW_def read_now_def seq_def Let_def fired_record_def)
qed

lemma mark_fired_unchanged:
  assumes "trigger_matches.durable (w_matches w)"
    and "\<nexists>m. getTriggerMatch (w_matches w) i = Some m \<and> tm_status m = Matched \<and> audit_id wakeId"
    and "markFired en i wakeId w = (result, w')"
  shows "w_matches w' = w_matches w \<and> (\<forall>r. result = Inr r \<longrightarrow> getTriggerMatch (w_matches w) i = Some r \<and> tm_status r = Fired)"
proof (cases "getTriggerMatch (w_matches w) i")
  case None
  then show ?thesis using latest_match_get [OF assms(1)] assms(3) by (auto simp: markFired_def Let_def readW_def seq_def)
next
  case (Some m)
  show ?thesis
  proof (cases "tm_status m = Matched")
    case True
    then have "\<not> audit_id wakeId" using assms(2) Some by blast
    then show ?thesis
      using latest_match_get [OF assms(1)] Some True assms(3)
      by (auto simp: markFired_def Let_def readW_def read_now_def seq_def)
  next
    case False
    then show ?thesis
      using latest_match_get [OF assms(1)] Some assms(3)
      by (auto simp: markFired_def Let_def readW_def seq_def split: if_splits)
  qed
qed

lemma mark_fired_result:
  assumes "trigger_matches.durable (w_matches w)" and "markFired en i wakeId w = (Inr r, w')"
  shows "getTriggerMatch (w_matches w') i = Some r" and "tm_status r = Fired" and "trigger_matches.durable (w_matches w')"
proof -
  have "getTriggerMatch (w_matches w') i = Some r \<and> tm_status r = Fired \<and> trigger_matches.durable (w_matches w')"
  proof (cases "\<exists>m. getTriggerMatch (w_matches w) i = Some m \<and> tm_status m = Matched \<and> audit_id wakeId")
    case True
    then obtain m where m: "getTriggerMatch (w_matches w) i = Some m" "tm_status m = Matched" "audit_id wakeId" by blast
    let ?r = "fired_record en wakeId m w"
    have run: "finish_effect (en_ru en) ?r i ''trigger.fired'' [(''wakeId'', JStr wakeId)] Wake_Effect wakeId
        (w\<lparr>w_ticks := w_ticks w + 1, w_matches := put_match ?r (w_matches w)\<rparr>) = (Inr r, w')"
      using mark_fired_matched [OF assms(1) m, of en] assms(2) by simp
    then have "w_matches w' = put_match ?r (w_matches w)" and "r = ?r"
      using quiet.keepsD [OF quiet.keeps_finish run] finish_effect_result [OF run] by (simp_all add: quiet_def)
    moreover have "tm_matchId ?r = i" using match_key [OF assms(1) m(1)] by (simp add: fired_record_def)
    ultimately show ?thesis
      using put_match_durable [OF assms(1)] by (simp add: get_put_match) (simp add: fired_record_def)
  next
    case False
    then show ?thesis using mark_fired_unchanged [OF assms(1) False assms(2)] assms(1) by auto
  qed
  then show "getTriggerMatch (w_matches w') i = Some r" and "tm_status r = Fired" and "trigger_matches.durable (w_matches w')"
    by simp_all
qed


text \<open>An engine without evaluator, gate or cache, alone on its tables.\<close>

definition sample_engine :: engine where
  "sample_engine = \<lparr>en_ru = sample_runtime, en_workerId = ''w'', en_partitionLeaseMs = 300000, en_distributed = False,
     en_evaluator = (\<lambda>n. None), en_admission = (\<lambda>n. None), en_durable = (\<lambda>n. None), en_elapsed = (\<lambda>n k. Fin 0),
     en_contextRevision = [], en_cacheTtlMs = None, en_maxBatchElapsedMs = None, en_meanwhile = (\<lambda>n w. w)\<rparr>"


subsection \<open>Partitions\<close>

definition partition_value :: "trigger_clause list \<Rightarrow> correlatable_event \<Rightarrow> partition_dimension \<Rightarrow> json option" where
  "partition_value clauses event dimension = hd (map (\<lambda>(ref, path). read_path (JObj (ce_data event)) path)
     (filter (\<lambda>(ref, path). ref \<in> set (map clause_id clauses)) (dim_fields dimension)))"

lemma partition_component_Inr:
  assumes "partition_component (map clause_id clauses) event dimension = Inr c"
  obtains v where "partition_value clauses event dimension = Some v"
    and "c = JObj [(''key'', JStr (dim_key dimension)), (''type'', JStr (the (scalar_type (Some v)))), (''value'', v)]"
    and "\<And>ref path. \<lbrakk>(ref, path) \<in> set (dim_fields dimension); ref \<in> set (map clause_id clauses)\<rbrakk> \<Longrightarrow>
      strict_eq (read_path (JObj (ce_data event)) path) (Some v)"
proof -
  let ?fields = "filter (\<lambda>(ref, path). ref \<in> set (map clause_id clauses)) (dim_fields dimension)"
  let ?vals = "map (\<lambda>(ref, path). read_path (JObj (ce_data event)) path) ?fields"
  obtain v ty where v: "hd ?vals = Some v" "scalar_type (Some v) = Some ty"
      and same: "\<not> list_ex (\<lambda>u. scalar_type u \<noteq> Some ty \<or> \<not> strict_eq u (Some v)) ?vals"
      and c: "c = JObj [(''key'', JStr (dim_key dimension)), (''type'', JStr ty), (''value'', v)]"
    using assms unfolding partition_component_def Let_def
    by (auto simp del: set_map map_map split: if_splits option.splits)
  show ?thesis
  proof (rule that [of v])
    show "partition_value clauses event dimension = Some v" using v(1) by (simp add: partition_value_def)
    show "c = JObj [(''key'', JStr (dim_key dimension)), (''type'', JStr (the (scalar_type (Some v)))), (''value'', v)]"
      by (simp add: c v(2))
    show "strict_eq (read_path (JObj (ce_data event)) path) (Some v)"
      if "(ref, path) \<in> set (dim_fields dimension)" "ref \<in> set (map clause_id clauses)" for ref path
      using same that by (auto simp: list_ex_iff)
  qed
qed

lemma partition_components_Inr:
  "partition_components ids event ds = Inr cs \<Longrightarrow> list_all2 (\<lambda>d c. partition_component ids event d = Inr c) ds cs"
  by (induction ds arbitrary: cs) (auto split: sum.splits)

lemma partition_value_ok:
  assumes "json_ok (JObj (ce_data event))" and "partition_value clauses event dimension = Some v"
    and "partition_component (map clause_id clauses) event dimension = Inr c"
  shows "json_ok v"
proof -
  let ?fields = "filter (\<lambda>(ref, path). ref \<in> set (map clause_id clauses)) (dim_fields dimension)"
  have "?fields \<noteq> []" using assms(3) by (auto simp: partition_component_def Let_def)
  then obtain ref path rest where "?fields = (ref, path) # rest" by (cases ?fields) auto
  then have "read_path (JObj (ce_data event)) path = Some v" using assms(2) by (simp add: partition_value_def)
  then show ?thesis using json_at_ok [OF assms(1)] by (auto simp: read_path_def split: option.splits if_splits)
qed

text \<open>
  C27: the partition of an event is its value in every dimension. Two events for which a key is
  computed have the same key exactly when they agree in every dimension of the pattern, type
  included, and the value of a dimension is the one that every matching clause reads.
\<close>

theorem partition_key_iff:
  assumes "json_ok (JObj (ce_data e1))" and "json_ok (JObj (ce_data e2))"
    and "patternPartitionKey d cs1 e1 = Inr (Some k1)" and "patternPartitionKey d cs2 e2 = Inr (Some k2)"
  shows "(k1 = k2 \<longleftrightarrow> (\<forall>m \<in> set (pat_partitionBy (td_pattern d)). partition_value cs1 e1 m = partition_value cs2 e2 m)) \<and>
    (\<forall>m \<in> set (pat_partitionBy (td_pattern d)). \<forall>(ref, path) \<in> set (dim_fields m).
       ref \<in> set (map clause_id cs1) \<longrightarrow> strict_eq (read_path (JObj (ce_data e1)) path) (partition_value cs1 e1 m))"
proof -
  let ?ds = "pat_partitionBy (td_pattern d)"
  let ?js = "\<lambda>cs e. map (\<lambda>m. JObj [(''key'', JStr (dim_key m)), (''type'', JStr (the (scalar_type (partition_value cs e m)))),
    (''value'', the (partition_value cs e m))]) ?ds"
  have part: "k = stringify (JArr (?js cs e)) \<and> json_ok (JArr (?js cs e)) \<and>
      (\<forall>m \<in> set ?ds. partition_value cs e m \<noteq> None \<and> (\<forall>(ref, path) \<in> set (dim_fields m).
         ref \<in> set (map clause_id cs) \<longrightarrow> strict_eq (read_path (JObj (ce_data e)) path) (partition_value cs e m)))"
    if ok: "json_ok (JObj (ce_data e))" and key: "patternPartitionKey d cs e = Inr (Some k)" for cs e k
  proof -
    obtain js where js: "partition_components (map clause_id cs) e ?ds = Inr js" and k: "k = stringify (JArr js)"
      using key by (auto simp: patternPartitionKey_def Let_def split: if_splits sum.splits)
    have each: "list_all2 (\<lambda>m c. partition_component (map clause_id cs) e m = Inr c) ?ds js"
      by (rule partition_components_Inr [OF js])
    have one: "c = JObj [(''key'', JStr (dim_key m)), (''type'', JStr (the (scalar_type (partition_value cs e m)))),
          (''value'', the (partition_value cs e m))] \<and> json_ok c \<and> partition_value cs e m \<noteq> None \<and>
        (\<forall>(ref, path) \<in> set (dim_fields m). ref \<in> set (map clause_id cs) \<longrightarrow>
           strict_eq (read_path (JObj (ce_data e)) path) (partition_value cs e m))"
      if "partition_component (map clause_id cs) e m = Inr c" for m c
      using that
    proof (cases rule: partition_component_Inr)
      case (1 v)
      then show ?thesis using partition_value_ok [OF ok 1(1) that] by auto
    qed
    have js_eq: "js = ?js cs e"
      using each one by (auto simp: list_all2_conv_all_nth intro!: nth_equalityI)
    have oks: "list_all json_ok js" using each one by (fastforce simp: list_all2_conv_all_nth list_all_length)
    have ex: "\<exists>c. partition_component (map clause_id cs) e m = Inr c" if "m \<in> set ?ds" for m
      using each that by (auto simp: list_all2_conv_all_nth in_set_conv_nth)
    show ?thesis
    proof (intro conjI ballI)
      show "k = stringify (JArr (?js cs e))" by (simp only: k flip: js_eq)
      show "json_ok (JArr (?js cs e))" using oks by (simp only: json_ok.simps flip: js_eq)
    qed (use ex one in blast)+
  qed
  note p1 = part [OF assms(1,3)] and p2 = part [OF assms(2,4)]
  have "stringify (JArr (?js cs1 e1)) = stringify (JArr (?js cs2 e2)) \<longleftrightarrow> JArr (?js cs1 e1) = JArr (?js cs2 e2)"
    by (rule stringify_inj) (use p1 p2 in blast)+
  then have "k1 = k2 \<longleftrightarrow> ?js cs1 e1 = ?js cs2 e2"
    by (simp only: p1 [THEN conjunct1] p2 [THEN conjunct1] json.inject)
  moreover have "?js cs1 e1 = ?js cs2 e2 \<longleftrightarrow> (\<forall>m \<in> set ?ds. partition_value cs1 e1 m = partition_value cs2 e2 m)"
  proof -
    have some: "partition_value cs1 e1 m \<noteq> None" "partition_value cs2 e2 m \<noteq> None" if "m \<in> set ?ds" for m
      using p1 p2 that by blast+
    have "partition_value cs1 e1 m = partition_value cs2 e2 m"
      if "?js cs1 e1 = ?js cs2 e2" "m \<in> set ?ds" for m
    proof (rule option.expand)
      show "(partition_value cs1 e1 m = None) = (partition_value cs2 e2 m = None)" using some [OF that(2)] by auto
      show "the (partition_value cs1 e1 m) = the (partition_value cs2 e2 m)" using that by simp
    qed
    moreover have "?js cs1 e1 = ?js cs2 e2" if "\<forall>m \<in> set ?ds. partition_value cs1 e1 m = partition_value cs2 e2 m"
      using that by (intro map_cong) simp_all
    ultimately show ?thesis by blast
  qed
  ultimately show ?thesis using p1 by blast
qed

definition sample_arrival :: "string \<Rightarrow> string \<Rightarrow> int \<Rightarrow> json \<Rightarrow> correlatable_event" where
  "sample_arrival name i sec user =
     \<lparr>ce_traceId = ''t'', ce_sourceEventId = i, ce_name = name, ce_occurredAt = Ts i (sec * 1000), ce_receivedAt = None,
      ce_provider = None, ce_serverId = None, ce_subscriptionArguments = [], ce_payloadHash = None,
      ce_data = [(''user'', user)]\<rparr>"

lemma partition_key_iff_witness:
  "list_all (\<lambda>m. partition_value [plain_clause ''a''] (sample_arrival ''a.event'' ''1'' 1 (JStr ''u'')) m =
     partition_value [plain_clause ''b''] (sample_arrival ''b.event'' ''2'' 2 (JStr ''u'')) m)
     (pat_partitionBy (td_pattern sample_trigger))"
proof -
  let ?e1 = "sample_arrival ''a.event'' ''1'' 1 (JStr ''u'')" and ?e2 = "sample_arrival ''b.event'' ''2'' 2 (JStr ''u'')"
  let ?k = "''[{\"key\":\"user\",\"type\":\"string\",\"value\":\"u\"}]''"
  have ok: "json_ok (JObj (ce_data ?e1))" "json_ok (JObj (ce_data ?e2))" by (simp_all add: sample_arrival_def)
  have k: "patternPartitionKey sample_trigger [plain_clause ''a''] ?e1 = Inr (Some ?k)"
    "patternPartitionKey sample_trigger [plain_clause ''b''] ?e2 = Inr (Some ?k)"
    by code_simp+
  show ?thesis using partition_key_iff [OF ok k] by (simp add: list_all_iff)
qed

end
