(* ===== verification/Engine_Buffers.thy ===== *)
theory Engine_Buffers
  imports Engine_Effects
begin

text \<open>
  The buffer of a partition stays sorted, within its number of events and within the window and
  the allowed lateness of its trigger, whatever arrives: the step from one buffer to the next,
  and the invariant over every run of the engine.
\<close>

subsection \<open>The next buffer\<close>

definition lateness :: "trigger_definition \<Rightarrow> int" where
  "lateness d = (case td_allowedLatenessMs d of None \<Rightarrow> 0 | Some ms \<Rightarrow> ms)"

text \<open>What a buffer of a trigger owes, given the latest instant it has seen.\<close>

definition events_fit :: "host \<Rightarrow> trigger_definition \<Rightarrow> int \<Rightarrow> source_event list \<Rightarrow> bool" where
  "events_fit h d latest events \<longleftrightarrow> sorted_wrt (\<lambda>x y. sourceEventOrder h x y \<le> 0) events \<and>
     physical_events events \<le> ex_maxBufferedEvents (pat_execution (td_pattern d)) \<and>
     (\<forall>e \<in> set events. latest - lateness d - td_withinMs d \<le> ts_ms (occurredAt e) \<and> ts_ms (occurredAt e) \<le> latest)"

definition buffer_fits :: "host \<Rightarrow> trigger_definition \<Rightarrow> trigger_match \<Rightarrow> bool" where
  "buffer_fits h d b \<longleftrightarrow> (\<exists>t. Option.bind (tm_patternState b) pm_maxObservedOccurredAt = Some t \<and>
     events_fit h d (ts_ms t) (tm_sourceEvents b))"

lemma physical_events_card: "physical_events es = card (patternPhysicalIdentity ` set es)"
proof -
  have "length (first_by patternPhysicalIdentity [] es) = card (patternPhysicalIdentity ` set (first_by patternPhysicalIdentity [] es))"
    using first_by_distinct [of patternPhysicalIdentity "[]" es] by (metis distinct_card image_set length_map)
  then show ?thesis by (simp add: physical_events_def first_by_keys)
qed

lemma events_fit_subseq: "events_fit h d t es \<Longrightarrow> subseq es' es \<Longrightarrow> events_fit h d t es'"
  using subseq_set [of es' es] sorted_wrt_subseq [of es' es "\<lambda>x y. sourceEventOrder h x y \<le> 0"]
    card_mono [OF _ image_mono [OF subseq_set [of es' es], of patternPhysicalIdentity]]
  by (auto simp: events_fit_def physical_events_card)

lemma max_of_ge: "x \<in> set xs \<Longrightarrow> x \<le> max_of xs"
  by (cases "xs = []") (simp_all add: max_of_Max)

lemma source_order_law: "comparator_law (collate h) \<Longrightarrow> comparator_law (sourceEventOrder h)"
  unfolding source_order by (rule eventOrder_law)

lemma buffer_step_fits:
  assumes "comparator_law (collate h)" and "buffer_step h d existing clauses event = Buffered latest events"
  shows "events_fit h d latest events"
proof -
  let ?all = "buffered_events h existing clauses event"
  have latest: "latest = max_observed existing event ?all"
    and events: "events = filter (\<lambda>e. latest - lateness d - td_withinMs d \<le> ts_ms (occurredAt e)) ?all"
    and bound: "physical_events events \<le> ex_maxBufferedEvents (pat_execution (td_pattern d))"
    using assms(2) by (auto simp: buffer_step_def Let_def lateness_def split: if_splits)
  have "sorted_wrt (\<lambda>x y. sourceEventOrder h x y \<le> 0) ?all"
    unfolding buffered_events_def by (rule comparator_law.sorted_sort_by [OF source_order_law [OF assms(1)]])
  moreover have "ts_ms (occurredAt e) \<le> latest" if "e \<in> set ?all" for e
    unfolding latest max_observed_def using that by (intro max_of_ge) auto
  ultimately show ?thesis using bound by (auto simp: events_fit_def events sorted_wrt_filter)
qed

text \<open>Nothing but the window removes an event: what is recent enough stays, the new event included.\<close>

lemma add_source_mono: "set events \<subseteq> set (fold (add_source event) cs events)"
proof (induction cs arbitrary: events)
  case (Cons c cs)
  have "set events \<subseteq> set (add_source event c events)" by (auto simp: add_source_def)
  then show ?case using Cons [of "add_source event c events"] by simp
qed simp

lemma add_source_new:
  "c \<in> set cs \<Longrightarrow> \<exists>s \<in> set (fold (add_source event) cs events). clauseId s = clause_id c \<and> (sameEventIdentity s event \<or> s = asSourceEvent (clause_id c) event)"
proof (induction cs arbitrary: events)
  case (Cons k cs)
  show ?case
  proof (cases "c = k")
    case True
    have "\<exists>s \<in> set (add_source event k events). clauseId s = clause_id k \<and> (sameEventIdentity s event \<or> s = asSourceEvent (clause_id k) event)"
      by (auto simp: add_source_def list_ex_iff asSourceEvent_def)
    then show ?thesis using add_source_mono [of "add_source event k events" event cs] True by auto
  qed (use Cons in simp)
qed simp

lemma toISOString_ms: "toISOString (time_clip t) = Inr s \<Longrightarrow> ts_ms s = t"
  by (auto simp: toISOString_def time_clip_def split: if_splits)

lemma new_buffer_fits:
  assumes "events_fit h d latest events" and "new_buffer ru d key event nowIso latest events = Inr b"
  shows "buffer_fits h d b \<and> is_buffer b \<and> tm_triggerId b = td_triggerId d \<and> tm_triggerVersion b = td_version d"
  using assms by (auto simp: new_buffer_def Let_def buffer_fits_def is_buffer_def toISOString_ms split: sum.splits)

lemma updated_buffer_fits:
  assumes "comparator_law (collate h)" and "buffer_fits h d b"
    and "updated_buffer d' b nowIso (retained_events h p (tm_sourceEvents b) selected) = Inr b'"
  shows "buffer_fits h d b'"
proof -
  let ?kept = "retained_events h p (tm_sourceEvents b) selected"
  obtain t where t: "Option.bind (tm_patternState b) pm_maxObservedOccurredAt = Some t" "events_fit h d (ts_ms t) (tm_sourceEvents b)"
    using assms(2) by (auto simp: buffer_fits_def)
  have "sort_by (sourceEventOrder h) (tm_sourceEvents b) = tm_sourceEvents b"
    using t(2) by (intro comparator_law.sort_by_sorted [OF source_order_law [OF assms(1)]]) (simp add: events_fit_def)
  then have "subseq ?kept (tm_sourceEvents b)" using retained_spec(1) [of h p "tm_sourceEvents b" selected] by simp
  then have "events_fit h d (ts_ms t) ?kept" by (rule events_fit_subseq [OF t(2)])
  moreover have "tm_patternState b' = tm_patternState b" "tm_sourceEvents b' = ?kept"
    using assms(3) by (auto simp: updated_buffer_def Let_def split: sum.splits)
  ultimately show ?thesis using t(1) by (auto simp: buffer_fits_def)
qed

subsection \<open>The invariant\<close>

text \<open>For the definitions \<open>T\<close>: every current buffer fits the trigger it belongs to.\<close>

definition fits_in :: "host \<Rightarrow> trigger_table \<Rightarrow> trigger_match \<Rightarrow> bool" where
  "fits_in h T b \<longleftrightarrow> (is_buffer b \<longrightarrow>
     (\<forall>d. getTrigger T (tm_triggerId b) (tm_triggerVersion b) = Some d \<longrightarrow> buffer_fits h d b))"

definition buffers_ok :: "host \<Rightarrow> trigger_table \<Rightarrow> world \<Rightarrow> bool" where
  "buffers_ok h T w \<longleftrightarrow> w_triggers w = T \<and> triggers.durable T \<and> trigger_matches.durable (w_matches w) \<and>
     (\<forall>i b. getTriggerMatch (w_matches w) i = Some b \<longrightarrow> fits_in h T b)"

definition buffers_step :: "host \<Rightarrow> trigger_table \<Rightarrow> world \<Rightarrow> world \<Rightarrow> bool" where
  "buffers_step h T w w' \<longleftrightarrow> (buffers_ok h T w \<longrightarrow> buffers_ok h T w')"

interpretation fitting: frame "buffers_step h T" for h T
  by unfold_locales (auto simp: buffers_step_def)

lemma fitting_quiet: "quiet.keeps m \<Longrightarrow> fitting.keeps h T m"
  by (auto intro!: fitting.keepsI simp: quiet.keeps_def quiet_def buffers_step_def buffers_ok_def)

text \<open>What is read from a world in which the invariant holds may be assumed to satisfy it.\<close>

lemma fitting_readW:
  "(\<And>w. buffers_ok h T w \<Longrightarrow> fitting.keeps h T (g (f w))) \<Longrightarrow> fitting.keeps h T (seq (readW f) g)"
  by (rule fitting.keepsI) (auto simp: readW_def seq_def buffers_step_def fitting.keeps_def)

lemma buffers_ok_put:
  "buffers_ok h T w \<Longrightarrow> fits_in h T r \<Longrightarrow> buffers_ok h T (w\<lparr>w_matches := put_match r (w_matches w)\<rparr>)"
  by (auto simp: buffers_ok_def put_match_durable get_put_match)

lemma fitting_append: "fits_in h T r \<Longrightarrow> fitting.keeps h T (append_match r)"
  by (rule fitting.keepsI) (auto simp: append_match_def appendTriggerMatch_def buffers_step_def buffers_ok_put)

lemma fitting_commit: "fits_in h T r \<Longrightarrow> fitting.keeps h T (commit_match snapshot b r)"
proof (cases snapshot)
  case None
  then show ?thesis if "fits_in h T r"
    using that by (simp add: commit_match_def fitting.keeps_seq fitting.keeps_ret fitting_append)
next
  case (Some s)
  have "buffers_step h T w (w\<lparr>w_matches := w_matches w\<rparr>)" for w by (simp add: buffers_step_def)
  then show ?thesis if "fits_in h T r"
    using that Some
    by (auto intro!: fitting.keepsI simp: commit_match_def appendTriggerMatchIfMcpGapUnchanged_def buffers_step_def
      buffers_ok_put split: sum.splits option.splits prod.splits)
qed

lemma fitting_latest: "buffers_ok h T w \<Longrightarrow> latestMatch i w = Some b \<Longrightarrow> fits_in h T b"
  using latest_match_get [of w i] by (auto simp: buffers_ok_def)

lemma matched_record_fits: "matched_record ru d b reached n nowIso c = Inr r \<Longrightarrow> fits_in h T r"
  by (auto simp: matched_record_def Let_def fits_in_def is_buffer_def split: sum.splits)

definition undisturbed :: "host \<Rightarrow> trigger_table \<Rightarrow> engine \<Rightarrow> bool" where
  "undisturbed h T en \<longleftrightarrow> (\<forall>n w. buffers_ok h T w \<longrightarrow> buffers_ok h T (en_meanwhile en n w))"

lemma fitting_evaluation: "undisturbed h T en \<Longrightarrow> fitting.keeps h T (run_evaluation en d b incomplete n)"
  by (rule fitting.keepsI) (auto simp: run_evaluation_def undisturbed_def buffers_step_def)

lemma fitting_liftE: "(\<And>x. r = Inr x \<Longrightarrow> fitting.keeps h T (f x)) \<Longrightarrow> fitting.keeps h T (seq (liftE r) f)"
  by (cases r) (auto intro!: fitting.keepsI simp: fitting.keeps_def fitting.R_refl seq_def)

lemma fitting_stale:
  assumes "\<And>again b. retry = Some again \<Longrightarrow> fits_in h T b \<Longrightarrow> fitting.keeps h T (again b)"
  shows "fitting.keeps h T (after_stale ru retry d b nowIso c)"
proof (cases retry)
  case None
  then show ?thesis
    by (simp add: after_stale_def) (intro fitting.keeps_seq fitting.keeps_ret fitting_quiet quiet.keeps_deadlines)
next
  case (Some again)
  have "fitting.keeps h T (case latestMatch i w of None \<Rightarrow> ret []
      | Some b \<Rightarrow> if tm_status b = Partial \<and> is_buffer b then again b else ret [])"
    if "buffers_ok h T w" for w i
    using assms [OF Some] fitting_latest [OF that] by (auto intro!: fitting.keeps_option fitting.keeps_if fitting.keeps_ret)
  then show ?thesis unfolding Some after_stale_def option.case by (intro fitting_readW)
qed

lemma fitting_commit_loop:
  assumes "\<And>again b. retry = Some again \<Longrightarrow> fits_in h T b \<Longrightarrow> fitting.keeps h T (again b)"
  shows "fitting.keeps h T (commit_loop ru retry d b snapshot ev reached n nowIso cs results)"
proof (induction cs arbitrary: results)
  case (Cons c cs)
  have "fitting.keeps h T (auditMatch ru r ak ds)" for r ak ds by (rule fitting_quiet [OF quiet.keeps_audit(2)])
  then show ?case
    by (auto intro!: fitting_liftE fitting.keeps_seq fitting.keeps_if fitting.keeps_ret fitting_commit fitting_stale assms Cons
      dest: matched_record_fits)
qed (simp add: fitting.keeps_ret)

lemma fitting_pass:
  assumes "comparator_law (collate h)" and "ru_host (en_ru en) = h" and "undisturbed h T en" and "fits_in h T b"
    and "\<And>again b. retry = Some again \<Longrightarrow> fits_in h T b \<Longrightarrow> fitting.keeps h T (again b)"
  shows "fitting.keeps h T (evaluate_pass en retry d b n)"
proof -
  have upd: "fits_in h T b'" if "updated_buffer d b nowIso (retained_events h p (tm_sourceEvents b) selected) = Inr b'"
    for b' nowIso p selected
  proof -
    have same: "is_buffer b' = is_buffer b" "tm_triggerId b' = tm_triggerId b" "tm_triggerVersion b' = tm_triggerVersion b"
      using that by (auto simp: updated_buffer_def Let_def is_buffer_def split: sum.splits)
    then show ?thesis using assms(4) updated_buffer_fits [OF assms(1) _ that] by (simp add: fits_in_def)
  qed
  note actions = fitting_quiet [OF quiet.keeps_audit(2)] fitting_quiet [OF quiet.keeps_deadlines(2)] fitting_quiet [OF quiet.keeps_evidence]
    fitting_evaluation [OF assms(3)]
  have loop: "fitting.keeps h T (commit_loop ru retry d b snapshot ev reached n nowIso cs results)"
    for ru snapshot ev reached n nowIso cs results
    by (rule fitting_commit_loop) (rule assms(5))
  show ?thesis
    unfolding evaluate_pass_def Let_def assms(2)
    by ((rule fitting_liftE fitting.keeps_seq fitting.keeps_prod fitting.keeps_readW fitting.keeps_each
      fitting.keeps_if fitting.keeps_ret fitting_append loop actions | erule upd)+)
qed

lemma fitting_buffer:
  assumes "comparator_law (collate h)" and "ru_host (en_ru en) = h" and "undisturbed h T en"
  shows "fits_in h T b \<Longrightarrow> fitting.keeps h T (evaluatePatternBuffer en d n budget b)"
proof (induction budget arbitrary: b)
  case 0
  then show ?case using fitting_pass [OF assms, of b None] by simp
next
  case (Suc budget)
  show ?case unfolding evaluatePatternBuffer.simps
  proof (rule fitting_pass [OF assms Suc.prems])
    fix again b'
    assume "Some (evaluatePatternBuffer en d n budget) = Some again" and "fits_in h T b'"
    then show "fitting.keeps h T (again b')" using Suc.IH by auto
  qed
qed

lemma listed_definition:
  "triggers.durable T \<Longrightarrow> d \<in> set (listTriggers T) \<Longrightarrow> getTrigger T (td_triggerId d) (td_version d) = Some d"
  using tab_values_get [OF triggers.durable_distinct, of T d] triggers.durable_get [of T _ d]
  by (auto simp: listTriggers_def getTrigger_def key_of_trigger_def)

lemma fitting_partition:
  assumes "comparator_law (collate h)" and "ru_host (en_ru en) = h" and "undisturbed h T en"
    and "getTrigger T (td_triggerId d) (td_version d) = Some d"
  shows "fitting.keeps h T (applyPatternWithPartition en d cs event key)"
proof -
  have step: "fits_in h T b"
    if "buffer_step h d existing cs event = Buffered latest events" "new_buffer ru d key event nowIso latest events = Inr b"
    for existing latest events ru nowIso b
    using new_buffer_fits [OF buffer_step_fits [OF assms(1) that(1)] that(2)] assms(4) by (simp add: fits_in_def)
  have audit: "fitting.keeps h T (appendAudit ru i)" "fitting.keeps h T (read_now ru)" for ru i
    by (rule fitting_quiet, rule quiet.keeps_primitives)+
  have "fitting.keeps h T (case buffer_step h d existing cs event of
      Overflows n \<Rightarrow> seq (audit_overflow (en_ru en) d key event nowIso n)
        (\<lambda>_. throw (overflow_error (ex_maxBufferedEvents (pat_execution (td_pattern d)))))
    | TooLate watermarkMs retentionFloor \<Rightarrow> seq (audit_late (en_ru en) d event nowIso watermarkMs retentionFloor)
        (\<lambda>_. ret [\<lparr>ir_triggerId = td_triggerId d, ir_match = existing, ir_matched = False, ir_fired = False\<rparr>])
    | Buffered maxObserved events \<Rightarrow>
        seq (liftE (new_buffer (en_ru en) d key event nowIso maxObserved events)) (\<lambda>buffer.
        seq (append_match buffer) (\<lambda>_. evaluatePatternBuffer en d (ts_ms nowIso) 1 buffer)))" for existing nowIso
  proof (cases "buffer_step h d existing cs event")
    case (Overflows n)
    then show ?thesis
      by (simp add: audit_overflow_def) (intro fitting.keeps_seq audit fitting.keeps_ret fitting.keeps_throw)
  next
    case (TooLate x y)
    then show ?thesis
      by (simp add: audit_late_def) (intro fitting.keeps_seq audit fitting.keeps_ret fitting.keeps_liftE)
  next
    case (Buffered latest events)
    show ?thesis unfolding Buffered buffer_outcome.case
      by (rule fitting_liftE) (intro fitting.keeps_seq fitting_append fitting_buffer [OF assms(1-3)] step [OF Buffered])
  qed
  then show ?thesis
    unfolding applyPatternWithPartition_def Let_def assms(2)
    by (intro fitting.keeps_seq audit fitting.keeps_readW)
qed

lemma fitting_apply:
  assumes "comparator_law (collate h)" and "ru_host (en_ru en) = h" and "undisturbed h T en"
    and "getTrigger T (td_triggerId d) (td_version d) = Some d"
  shows "fitting.keeps h T (applyPattern en d cs event)"
  unfolding applyPattern_def Let_def
  by (intro fitting.keeps_seq fitting.keeps_liftE fitting.keeps_if fitting.keeps_option fitting.keeps_throw
    fitting.keeps_finally fitting_partition [OF assms] fitting_quiet [OF quiet.keeps_leases(1)] fitting_quiet [OF quiet.keeps_leases(2)])

lemma fitting_ingest:
  assumes "comparator_law (collate h)" and "ru_host (en_ru en) = h" and "undisturbed h T en"
  shows "fitting.keeps h T (ingest en event)"
proof -
  note applied = fitting_apply [OF assms] and buffer = fitting_buffer [OF assms]
  have quiet: "fitting.keeps h T (read_now ru)" "fitting.keeps h T (lifecycleAllows ru d s n)" for ru d s n
    by (rule fitting_quiet, rule quiet.keeps_support)+
  have one: "fitting.keeps h T (ingest_definition en event d)"
    if "getTrigger T (td_triggerId d) (td_version d) = Some d" for d
    unfolding ingest_definition_def Let_def
    by (intro fitting.keeps_seq fitting.keeps_if fitting.keeps_option fitting.keeps_ret fitting.keeps_readW quiet applied that)
  have all: "fitting.keeps h T (ingest_all en event ds results)"
    if "\<forall>d \<in> set ds. getTrigger T (td_triggerId d) (td_version d) = Some d" for ds results
    using that by (induction ds arbitrary: results) (auto intro!: fitting.keeps_ret fitting.keeps_seq one)
  have "fitting.keeps h T (ingest_all en event (listTriggers (w_triggers w)) [])" if "buffers_ok h T w" for w
    using that listed_definition by (intro all) (auto simp: buffers_ok_def)
  then have events: "fitting.keeps h T (seq (readW (\<lambda>w. listTriggers (w_triggers w))) (\<lambda>ds. ingest_all en event ds []))"
    by (rule fitting_readW)
  have timer_buffer: "fitting.keeps h T (case latestMatch i w of None \<Rightarrow> ret []
      | Some b \<Rightarrow> if tm_status b = Partial \<and> is_buffer b then evaluatePatternBuffer en d n 1 b else ret [])"
    if "buffers_ok h T w" for w i d n
    by (intro fitting.keeps_option fitting.keeps_if fitting.keeps_ret buffer fitting_latest [OF that])
  have timer: "fitting.keeps h T (ingestTimerEvent en event)"
    unfolding ingestTimerEvent_def Let_def
    by ((rule fitting.keeps_if fitting.keeps_ret fitting.keeps_option quiet
      | (rule fitting_readW, rule timer_buffer, assumption) | rule fitting.keeps_seq fitting.keeps_readW)+)
  show ?thesis unfolding ingest_def by (intro fitting.keeps_if timer events)
qed

lemma fitting_transition: "fits_in h T r \<Longrightarrow> fitting.keeps h T (transition r)"
  by (auto intro!: fitting.keepsI simp: transition_def compareAndAppendTriggerMatch_def buffers_step_def buffers_ok_put
    split: option.splits prod.splits)

lemma fits_in_same:
  "fits_in h T m \<Longrightarrow> tm_patternState r = tm_patternState m \<Longrightarrow> tm_sourceEvents r = tm_sourceEvents m \<Longrightarrow>
     tm_triggerId r = tm_triggerId m \<Longrightarrow> tm_triggerVersion r = tm_triggerVersion m \<Longrightarrow> fits_in h T r"
  by (simp add: fits_in_def is_buffer_def buffer_fits_def)

lemma fitting_effects: "fitting.keeps h T (markFired en i wakeId)" "fitting.keeps h T (markDerivedEmitted en i e)"
proof -
  have quiet: "fitting.keeps h T (read_now ru)" "fitting.keeps h T (finish_effect ru r j ak ds eff x)" for ru r j ak ds eff x
    by (rule fitting_quiet, rule quiet.keeps_support quiet.keeps_finish)+
  have stored: "fitting.keeps h T (transition (m\<lparr>tm_status := Fired, tm_firedWakeId := f, tm_updatedAt := t\<rparr>))"
    "fitting.keeps h T (transition (m\<lparr>tm_status := Emitted, tm_updatedAt := t, tm_derivedEventIds := ds\<rparr>))"
    if "buffers_ok h T w" "latestMatch i w = Some m" for w m f t ds
    by (rule fitting_transition, rule fits_in_same [OF fitting_latest [OF that]]; simp)+
  show "fitting.keeps h T (markFired en i wakeId)"
    unfolding markFired_def Let_def
    by (rule fitting_readW)
      (intro fitting.keeps_option fitting.keeps_if fitting.keeps_ret fitting.keeps_throw fitting.keeps_seq quiet stored)
  show "fitting.keeps h T (markDerivedEmitted en i e)"
    unfolding markDerivedEmitted_def Let_def
    by (rule fitting_readW)
      (intro fitting.keeps_option fitting.keeps_if fitting.keeps_ret fitting.keeps_throw fitting.keeps_seq quiet stored)
qed

text \<open>What is asked of an engine between two registrations.\<close>

datatype engine_op = Arrive correlatable_event | Wake_Fired string string | Derived_Emitted string string

fun engine_exec :: "engine \<Rightarrow> engine_op \<Rightarrow> world \<Rightarrow> world" where
  "engine_exec en (Arrive event) w = snd (ingest en event w)"
| "engine_exec en (Wake_Fired i wakeId) w = snd (markFired en i wakeId w)"
| "engine_exec en (Derived_Emitted i e) w = snd (markDerivedEmitted en i e w)"

lemma engine_exec_buffers:
  assumes "comparator_law (collate (ru_host (en_ru en)))" and "undisturbed (ru_host (en_ru en)) T en"
  shows "buffers_ok (ru_host (en_ru en)) T w \<Longrightarrow> buffers_ok (ru_host (en_ru en)) T (engine_exec en op w)"
  using fitting_ingest [OF assms(1) refl assms(2)] fitting_effects
  by (cases op) (auto simp: fitting.keeps_def buffers_step_def)

text \<open>
  C18: buffers stay bounded. Under every run of events, timers and effects, failed ones
  included, each current buffer of a trigger is in event order, holds at most the configured
  number of physical events, and none of them is older than the latest instant the partition has
  seen by more than the window and the allowed lateness.
\<close>

theorem buffers_bounded:
  assumes "comparator_law (collate (ru_host (en_ru en)))" and "undisturbed (ru_host (en_ru en)) (w_triggers w) en"
    and "buffers_ok (ru_host (en_ru en)) (w_triggers w) w"
    and "getTriggerMatch (w_matches (fold (engine_exec en) ops w)) i = Some b" and "is_buffer b"
    and "getTrigger (w_triggers w) (tm_triggerId b) (tm_triggerVersion b) = Some d"
  shows "\<exists>latest. Option.bind (tm_patternState b) pm_maxObservedOccurredAt = Some latest \<and>
    sorted_wrt (\<lambda>x y. sourceEventOrder (ru_host (en_ru en)) x y \<le> 0) (tm_sourceEvents b) \<and>
    card (patternPhysicalIdentity ` set (tm_sourceEvents b)) \<le> ex_maxBufferedEvents (pat_execution (td_pattern d)) \<and>
    (\<forall>e \<in> set (tm_sourceEvents b). ts_ms latest - lateness d - td_withinMs d \<le> ts_ms (occurredAt e) \<and>
       ts_ms (occurredAt e) \<le> ts_ms latest)"
proof -
  have "buffers_ok (ru_host (en_ru en)) T (fold (engine_exec en) ops w)"
    if "buffers_ok (ru_host (en_ru en)) T w" "undisturbed (ru_host (en_ru en)) T en" for T w
    using that(1) by (induction ops arbitrary: w) (simp_all add: engine_exec_buffers [OF assms(1) that(2)])
  then have "buffers_ok (ru_host (en_ru en)) (w_triggers w) (fold (engine_exec en) ops w)" using assms(2,3) by blast
  then have "buffer_fits (ru_host (en_ru en)) d b" using assms(4-6) by (auto simp: buffers_ok_def fits_in_def)
  then show ?thesis by (simp add: buffer_fits_def events_fit_def physical_events_card)
qed

text \<open>A buffer of two events in a table of one trigger.\<close>

definition sample_open_buffer :: trigger_match where
  "sample_open_buffer = sample_buffer\<lparr>tm_sourceEvents := [sample_event ''a'' ''1'' 1, sample_event ''b'' ''2'' 2],
     tm_patternState := Some \<lparr>pm_role = RoleBuffer, pm_signature = None, pm_maxObservedOccurredAt = Some (Ts ''2'' 2000),
       pm_completedAt = None, pm_semanticDecisions = []\<rparr>\<rparr>"

definition sample_world :: world where
  "sample_world = empty_world\<lparr>w_triggers := tab_put (trigger_key ''t'' ''1'') sample_trigger sample_trigger empty_table,
     w_matches := put_match sample_open_buffer empty_table\<rparr>"

lemma sample_world_trigger:
  "triggers.durable (w_triggers sample_world)" "getTrigger (w_triggers sample_world) ''t'' ''1'' = Some sample_trigger"
proof -
  have key: "key_of_trigger sample_trigger = trigger_key ''t'' ''1''" by (simp add: key_of_trigger_def sample_trigger_def)
  show "triggers.durable (w_triggers sample_world)"
    unfolding sample_world_def by simp (rule triggers.durable_put, simp_all add: key empty_table_def triggers.durable_empty)
  show "getTrigger (w_triggers sample_world) ''t'' ''1'' = Some sample_trigger"
    by (simp add: sample_world_def getTrigger_def)
qed

lemma sample_world_match: "getTriggerMatch (w_matches sample_world) i = (if i = ''m'' then Some sample_open_buffer else None)"
proof -
  have "tm_matchId sample_open_buffer = ''m''" by (simp add: sample_open_buffer_def sample_buffer_def)
  then show ?thesis by (simp add: sample_world_def get_put_match) (simp add: getTriggerMatch_def empty_table_def tab_get_def)
qed

lemma sample_world_ok: "buffers_ok sample_host (w_triggers sample_world) sample_world"
proof -
  have "events_fit sample_host sample_trigger 2000 (tm_sourceEvents sample_open_buffer)" by code_simp
  then have "buffer_fits sample_host sample_trigger sample_open_buffer"
    by (simp add: buffer_fits_def) (simp add: sample_open_buffer_def)
  moreover have "tm_triggerId sample_open_buffer = ''t''" "tm_triggerVersion sample_open_buffer = ''1''"
    by (simp_all add: sample_open_buffer_def sample_buffer_def)
  moreover have "trigger_matches.durable (w_matches sample_world)"
    using put_match_durable trigger_matches.durable_empty by (simp add: sample_world_def empty_table_def)
  ultimately show ?thesis
    using sample_world_trigger by (simp add: buffers_ok_def sample_world_match fits_in_def)
qed

lemma buffers_bounded_witness:
  "card (patternPhysicalIdentity ` set (tm_sourceEvents sample_open_buffer)) \<le> 10 \<and>
   getTriggerMatch (w_matches (engine_exec sample_engine (Wake_Fired ''m'' ''x'') sample_world)) ''m'' = Some sample_open_buffer"
proof -
  have d: "trigger_matches.durable (w_matches sample_world)" using sample_world_ok by (simp add: buffers_ok_def)
  have "w_matches (snd (markFired sample_engine ''m'' ''x'' sample_world)) = w_matches sample_world"
    using mark_fired_unchanged [OF d _ surjective_pairing, of "''m''" "''x''" sample_engine]
    by (simp add: sample_world_match sample_open_buffer_def sample_buffer_def)
  then have same: "getTriggerMatch (w_matches (fold (engine_exec sample_engine) [Wake_Fired ''m'' ''x''] sample_world)) ''m'' =
      Some sample_open_buffer"
    by (simp add: sample_world_match)
  have host: "ru_host (en_ru sample_engine) = sample_host" by (simp add: sample_engine_def sample_runtime_def)
  have law: "comparator_law (collate (ru_host (en_ru sample_engine)))" unfolding host by (rule sample_collation)
  have un: "undisturbed (ru_host (en_ru sample_engine)) (w_triggers sample_world) sample_engine"
    by (simp add: undisturbed_def sample_engine_def)
  have ok: "buffers_ok (ru_host (en_ru sample_engine)) (w_triggers sample_world) sample_world"
    unfolding host by (rule sample_world_ok)
  have buffer: "is_buffer sample_open_buffer" by (simp add: is_buffer_def sample_open_buffer_def)
  have trigger: "getTrigger (w_triggers sample_world) (tm_triggerId sample_open_buffer) (tm_triggerVersion sample_open_buffer) =
      Some sample_trigger"
    using sample_world_trigger(2) by (simp add: sample_open_buffer_def sample_buffer_def)
  have "ex_maxBufferedEvents (pat_execution (td_pattern sample_trigger)) = 10" by (simp add: sample_trigger_def)
  with buffers_bounded [OF law un ok same buffer trigger] same show ?thesis by auto
qed

end
