(* ===== verification/Json_Schema.thy ===== *)
theory Json_Schema
  imports Trigger_Definition Mcp_Store
begin

text \<open>
  \<open>scripts/lib/json-schema.mjs\<close>: the validator for the arguments of an event source. The first
  violation is thrown; \<open>None\<close> is a return.
\<close>

subsection \<open>The parts of a schema\<close>

fun first_error :: "('a \<Rightarrow> js_error option) \<Rightarrow> 'a list \<Rightarrow> js_error option" where
  "first_error f [] = None"
| "first_error f (x # xs) = (case f x of Some e \<Rightarrow> Some e | None \<Rightarrow> first_error f xs)"

lemma first_error_cong [fundef_cong]:
  "xs = ys \<Longrightarrow> (\<And>y. y \<in> set ys \<Longrightarrow> f y = g y) \<Longrightarrow> first_error f xs = first_error g ys"
  by (induction xs arbitrary: ys) (auto split: option.split)

lemma first_error_None [simp]: "first_error f xs = None \<longleftrightarrow> (\<forall>x \<in> set xs. f x = None)"
  by (induction xs) (auto split: option.splits)

definition schema_violation :: "string \<Rightarrow> string \<Rightarrow> js_error" where
  "schema_violation p what = plain_error (''JSON Schema violation at '' @ p @ '': '' @ what)"

definition fails :: "bool \<Rightarrow> js_error \<Rightarrow> js_error option" where
  "fails b e = (if b then Some e else None)"

text \<open>\<open>Object.is\<close> on values of which none shares an object with the other.\<close>

definition object_is :: "json \<Rightarrow> json \<Rightarrow> bool" where
  "object_is a b = (case a of JArr vs \<Rightarrow> False | JObj kvs \<Rightarrow> False | _ \<Rightarrow> a = b)"

definition schemaTypes :: "jobj \<Rightarrow> string list" where
  "schemaTypes s = (case map_of s ''type'' of None \<Rightarrow> [] | Some (JArr ts) \<Rightarrow> map js_string ts | Some t \<Rightarrow> [js_string t])"

definition is_integer :: "json \<Rightarrow> bool" where
  "is_integer v = (case v of JNum (Fin q) \<Rightarrow> q = of_int \<lfloor>q\<rfloor> | _ \<Rightarrow> False)"

definition finite_number :: "json \<Rightarrow> bool" where
  "finite_number v = (case v of JNum n \<Rightarrow> is_finite n | _ \<Rightarrow> False)"

definition type_matches :: "json \<Rightarrow> string \<Rightarrow> bool" where
  "type_matches v t =
     (if t = ''null'' then v = JNull
      else if t = ''array'' then (case v of JArr vs \<Rightarrow> True | _ \<Rightarrow> False)
      else if t = ''object'' then (case v of JObj kvs \<Rightarrow> True | _ \<Rightarrow> False)
      else if t = ''integer'' then is_integer v
      else if t = ''number'' then finite_number v
      else if t = ''string'' then (case v of JStr s \<Rightarrow> True | _ \<Rightarrow> False)
      else if t = ''boolean'' then (case v of JBool b \<Rightarrow> True | _ \<Rightarrow> False)
      else False)"

definition const_error :: "jobj \<Rightarrow> json \<Rightarrow> string \<Rightarrow> js_error option" where
  "const_error s v p = (case map_of s ''const'' of None \<Rightarrow> None
     | Some c \<Rightarrow> fails (\<not> object_is c v) (schema_violation p ''const mismatch''))"

definition enum_error :: "jobj \<Rightarrow> json \<Rightarrow> string \<Rightarrow> js_error option" where
  "enum_error s v p = (case map_of s ''enum'' of
     Some (JArr es) \<Rightarrow> fails (\<not> list_ex (\<lambda>c. object_is c v) es) (schema_violation p ''value not in enum'') | _ \<Rightarrow> None)"

definition type_error :: "jobj \<Rightarrow> json \<Rightarrow> string \<Rightarrow> js_error option" where
  "type_error s v p = (let types = schemaTypes s in
     fails (types \<noteq> [] \<and> \<not> list_ex (type_matches v) types) (schema_violation p (''expected '' @ join_with ''|'' types)))"

definition number_of :: "json option \<Rightarrow> jsnum option" where
  "number_of v = (case v of Some (JNum n) \<Rightarrow> Some n | _ \<Rightarrow> None)"

definition string_error :: "host \<Rightarrow> jobj \<Rightarrow> json \<Rightarrow> string \<Rightarrow> js_error option" where
  "string_error h s v p = (case v of
     JStr text \<Rightarrow>
       (let len = num_of_int (int (length text)) in
        if (case number_of (map_of s ''minLength'') of Some n \<Rightarrow> num_less len n | None \<Rightarrow> False)
        then Some (schema_violation p ''string too short'')
        else if (case number_of (map_of s ''maxLength'') of Some n \<Rightarrow> num_less n len | None \<Rightarrow> False)
        then Some (schema_violation p ''string too long'')
        else (case map_of s ''pattern'' of
            Some (JStr source) \<Rightarrow> (case regex_test h source [] text of
                None \<Rightarrow> Some (plain_error ''Invalid regular expression'')
              | Some ok \<Rightarrow> fails (\<not> ok) (schema_violation p ''pattern mismatch''))
          | _ \<Rightarrow> None))
   | _ \<Rightarrow> None)"

definition number_error :: "jobj \<Rightarrow> json \<Rightarrow> string \<Rightarrow> js_error option" where
  "number_error s v p = (case v of
     JNum n \<Rightarrow>
       if \<not> is_finite n then None
       else if (case number_of (map_of s ''minimum'') of Some k \<Rightarrow> num_less n k | None \<Rightarrow> False)
       then Some (schema_violation p ''below minimum'')
       else if (case number_of (map_of s ''maximum'') of Some k \<Rightarrow> num_less k n | None \<Rightarrow> False)
       then Some (schema_violation p ''above maximum'') else None
   | _ \<Rightarrow> None)"

definition required_keys :: "jobj \<Rightarrow> string list" where
  "required_keys s = (case map_of s ''required'' of Some (JArr ks) \<Rightarrow> map js_string ks | _ \<Rightarrow> [])"

definition required_error :: "jobj \<Rightarrow> jobj \<Rightarrow> string \<Rightarrow> js_error option" where
  "required_error s kvs p = first_error (\<lambda>k. fails (map_of kvs k = None)
     (schema_violation p (''missing required property '' @ k))) (required_keys s)"

definition schema_properties :: "jobj \<Rightarrow> jobj" where
  "schema_properties s = (case map_of s ''properties'' of Some (JObj ps) \<Rightarrow> ps | _ \<Rightarrow> [])"

definition additional_error :: "jobj \<Rightarrow> jobj \<Rightarrow> string \<Rightarrow> js_error option" where
  "additional_error s kvs p = (if map_of s ''additionalProperties'' = Some (JBool False)
     then first_error (\<lambda>k. fails (map_of (schema_properties s) k = None)
       (schema_violation p (''unexpected property '' @ k))) (map fst kvs)
     else None)"

definition schema_items :: "jobj \<Rightarrow> json option" where
  "schema_items s = (case map_of s ''items'' of Some (JObj i) \<Rightarrow> Some (JObj i) | _ \<Rightarrow> None)"

text \<open>\<open>a || b\<close> on violations: the first one is thrown.\<close>

definition or_else :: "js_error option \<Rightarrow> js_error option \<Rightarrow> js_error option" where
  "or_else a b = (case a of Some e \<Rightarrow> Some e | None \<Rightarrow> b)"

lemma or_else_None [simp]: "or_else a b = None \<longleftrightarrow> a = None \<and> b = None"
  by (simp add: or_else_def split: option.split)

subsection \<open>The validator\<close>

lemma map_of_size: "map_of s k = Some v \<Longrightarrow> size v < size (JObj s)"
  by (induction s) (auto split: if_splits)

lemma properties_size:
  assumes "kc \<in> set (schema_properties s)"
  shows "size (snd kc) < size (JObj s)"
proof -
  from assms have "\<exists>ps. map_of s ''properties'' = Some (JObj ps) \<and> kc \<in> set ps"
    by (cases "map_of s ''properties''"; cases "the (map_of s ''properties'')") (simp_all add: schema_properties_def)
  then obtain ps where ps: "map_of s ''properties'' = Some (JObj ps)" "kc \<in> set ps" by blast
  have "size (snd kc) < size (JObj ps)" using ps(2) by (induction ps) auto
  then show ?thesis using map_of_size [OF ps(1)] by simp
qed

lemma items_size: "schema_items s = Some i \<Longrightarrow> size i < size (JObj s)"
  by (auto simp: schema_items_def dest: map_of_size split: option.splits json.splits)

function assertJsonSchemaValue :: "host \<Rightarrow> json \<Rightarrow> json \<Rightarrow> string \<Rightarrow> js_error option" where
  "assertJsonSchemaValue h schema v p = (case schema of
     JObj s \<Rightarrow>
       or_else (const_error s v p) (or_else (enum_error s v p) (or_else (type_error s v p)
         (or_else (string_error h s v p) (or_else (number_error s v p)
           (case v of
              JObj kvs \<Rightarrow> or_else (required_error s kvs p)
                (or_else (first_error (\<lambda>kc. case map_of kvs (fst kc) of
                      Some u \<Rightarrow> (case snd kc of JObj c \<Rightarrow> assertJsonSchemaValue h (snd kc) u (p @ ''.'' @ fst kc) | _ \<Rightarrow> None)
                    | None \<Rightarrow> None) (schema_properties s))
                  (additional_error s kvs p))
            | JArr vs \<Rightarrow> (case schema_items s of None \<Rightarrow> None
                | Some item \<Rightarrow> first_error (\<lambda>iv. assertJsonSchemaValue h item (snd iv) (p @ ''['' @ int_str (int (fst iv)) @ '']''))
                    (enumerate 0 vs))
            | _ \<Rightarrow> None)))))
   | _ \<Rightarrow> None)"
  by pat_completeness auto
termination
  by (relation "measure (\<lambda>(h, schema, v, p). size schema)") (auto dest: properties_size items_size)

declare assertJsonSchemaValue.simps [simp del]

end
