(* ===== verification/Contract_Registry.thy ===== *)
theory Contract_Registry
  imports Runtime_Support
begin

text \<open>
  \<open>scripts/lib/derived-contract-registry.mjs\<close>: the contracts of derived events. A contract is the
  fingerprint of a payload schema under a name and a version, and the triggers that produce it.
\<close>

subsection \<open>Fingerprints\<close>

text \<open>Every array is sorted by the text of its elements, every object by its keys.\<close>

fun canonicalize :: "host \<Rightarrow> json \<Rightarrow> json" where
  "canonicalize h (JArr vs) = JArr (sort_by (key_cmp stringify (collate h)) (map (canonicalize h) vs))"
| "canonicalize h (JObj kvs) =
     JObj (from_entries (sort_by (key_cmp fst str_cmp) (map (\<lambda>kv. (fst kv, canonicalize h (snd kv))) kvs)))"
| "canonicalize h v = v"

definition fingerprint :: "runtime \<Rightarrow> json \<Rightarrow> string" where
  "fingerprint ru schema = sha256Hex_value (ru_host ru) (ru_sha ru) (canonicalize (ru_host ru) schema)"

subsection \<open>Compatibility\<close>

record contract_conflict =
  cf_eventName :: string
  cf_contractVersion :: string
  cf_existingFingerprint :: string
  cf_rejectedFingerprint :: string

definition conflict_error :: "contract_conflict \<Rightarrow> js_error" where
  "conflict_error c = JsError KError (Some ''DERIVED_CONTRACT_SCHEMA_CONFLICT'')
     (''Derived event contract conflict for '' @ contract_key (cf_eventName c) (cf_contractVersion c))"

definition conflict_details :: "contract_conflict \<Rightarrow> jobj" where
  "conflict_details c = [(''eventName'', JStr (cf_eventName c)), (''contractVersion'', JStr (cf_contractVersion c)),
     (''existingFingerprint'', JStr (cf_existingFingerprint c)), (''rejectedFingerprint'', JStr (cf_rejectedFingerprint c))]"

text \<open>\<open>payloadSchema\<close> is a value; \<open>payloadSchema ?? {}\<close> replaces null.\<close>

definition schema_or_empty :: "json \<Rightarrow> json" where
  "schema_or_empty v = (if v = JNull then JObj [] else v)"

definition check_contract ::
  "runtime \<Rightarrow> string \<Rightarrow> string \<Rightarrow> json \<Rightarrow> contract_table \<Rightarrow> contract_conflict + (json \<times> string \<times> derived_contract option)"
where
  "check_contract ru name version schema t =
     (let canonical = canonicalize (ru_host ru) (schema_or_empty schema);
          print = fingerprint ru canonical;
          existing = getDerivedContract t name version
      in case existing of
           None \<Rightarrow> Inr (canonical, print, None)
         | Some c \<Rightarrow> if dc_schemaFingerprint c \<noteq> print
             then Inl \<lparr>cf_eventName = name, cf_contractVersion = version,
               cf_existingFingerprint = dc_schemaFingerprint c, cf_rejectedFingerprint = print\<rparr>
             else Inr (canonical, print, Some c))"

definition assertCompatible ::
  "runtime \<Rightarrow> string \<Rightarrow> string \<Rightarrow> json \<Rightarrow> (contract_conflict + (json \<times> string \<times> derived_contract option)) act"
where
  "assertCompatible ru name version schema = readW (\<lambda>w. check_contract ru name version schema (w_contracts w))"

subsection \<open>Producers\<close>

definition producer_json :: "string \<times> string \<Rightarrow> json" where
  "producer_json p = JObj [(''triggerId'', JStr (fst p)), (''triggerVersion'', JStr (snd p))]"

definition with_producer :: "string \<times> string \<Rightarrow> (string \<times> string) list \<Rightarrow> (string \<times> string) list" where
  "with_producer p ps = (if p \<in> set ps then ps else ps @ [p])"

text \<open>\<open>new Date()\<close> is read for \<open>createdAt\<close> only when the contract is new.\<close>

definition put_contract :: "runtime \<Rightarrow> contract_input \<Rightarrow> derived_contract act" where
  "put_contract ru input =
     seq (readW (\<lambda>w. getDerivedContract (w_contracts w) (ci_eventName input) (ci_contractVersion input))) (\<lambda>existing.
     seq (case existing of None \<Rightarrow> read_now ru | Some c \<Rightarrow> ret (Ts (dc_createdAt c) 0)) (\<lambda>created.
     seq (read_now ru) (\<lambda>updated w. case putDerivedContract input (ts_text created) (ts_text updated) (w_contracts w) of
       (c, t) \<Rightarrow> (Inr c, w\<lparr>w_contracts := t\<rparr>))))"

text \<open>The callback for the audit log: kind, key of the contract, details.\<close>

type_synonym contract_audit = "string \<Rightarrow> string \<Rightarrow> jobj \<Rightarrow> unit act"

definition registerProducer ::
  "runtime \<Rightarrow> contract_audit \<Rightarrow> string \<Rightarrow> string \<Rightarrow> json \<Rightarrow> string \<times> string \<Rightarrow> (bool \<times> derived_contract) act"
where
  "registerProducer ru audit name version schema producer =
     seq (assertCompatible ru name version schema) (\<lambda>checked. case checked of
       Inl c \<Rightarrow> seq (audit ''derived_contract.conflict'' (contract_key name version)
           (conflict_details c @ [(''producer'', producer_json producer)])) (\<lambda>_. throw (conflict_error c))
     | Inr (canonical, print, existing) \<Rightarrow>
         seq (put_contract ru \<lparr>ci_eventName = name, ci_contractVersion = version, ci_payloadSchema = canonical,
           ci_schemaFingerprint = print,
           ci_producers = Some (with_producer producer (case existing of None \<Rightarrow> [] | Some c \<Rightarrow> dc_producers c))\<rparr>) (\<lambda>c.
         seq (audit (if existing = None then ''derived_contract.created'' else ''derived_contract.producer_registered'')
           (contract_key name version)
           [(''eventName'', JStr name), (''contractVersion'', JStr version), (''schemaFingerprint'', JStr print),
            (''producer'', producer_json producer), (''producerCount'', JNum (num_of_int (int (length (dc_producers c)))))]) (\<lambda>_.
         ret (existing \<noteq> None, c))))"

text \<open>
  \<open>resolveConsumer\<close> takes the promise of the asynchronous \<open>list\<close> for the list: \<open>find\<close> is undefined,
  and without a version \<open>length\<close> is neither 0 nor 1 and \<open>map\<close> is undefined.
\<close>

definition resolveConsumer :: "string option \<Rightarrow> js_error + derived_contract" where
  "resolveConsumer version = Inl (JsError KTypeError None
     (if truthy_str version then ''contracts.find is not a function'' else ''contracts.map is not a function''))"

end
