(* ===== verification/Derived_Coordinator.thy ===== *)
theory Derived_Coordinator
  imports Engine_Ingest
begin

text \<open>
  \<open>scripts/lib/derived-event-coordinator.mjs\<close>: a match of a trigger with a \<open>derivedEvent\<close> becomes
  an event of its own, stored once under an identity that depends on nothing but the match and
  the definition.
\<close>

definition DERIVED_EVENT_SERVER_ID :: string where
  "DERIVED_EVENT_SERVER_ID = ''event-intelligence:derived''"

subsection \<open>Evidence\<close>

definition object_field :: "json option \<Rightarrow> string \<Rightarrow> json option" where
  "object_field v k = (case v of Some (JObj kvs) \<Rightarrow> map_of kvs k | _ \<Rightarrow> None)"

definition or_null :: "json option \<Rightarrow> json" where
  "or_null v = (case v of None \<Rightarrow> JNull | Some u \<Rightarrow> u)"

definition evidenceRef :: "source_event \<Rightarrow> evidence_ref" where
  "evidenceRef e = (let stamp = map_of (event_data e) ''_derived'' in
     \<lparr>er_serverId = serverId e, er_eventName = eventName e, er_sourceEventId = sourceEventId e,
      er_traceId = traceId e, er_occurredAt = occurredAt e, er_receivedAt = receivedAt e,
      er_payloadHash = payloadHash e, er_contractVersion = or_null (object_field stamp ''contractVersion''),
      er_schemaFingerprint = or_null (object_field stamp ''schemaFingerprint'')\<rparr>)"

definition evidence_key :: "evidence_ref \<Rightarrow> string" where
  "evidence_key r = (case er_serverId r of None \<Rightarrow> [] | Some s \<Rightarrow> s) @ ''::'' @ er_eventName r @ ''::'' @ er_sourceEventId r"

definition evidence_cmp :: "host \<Rightarrow> evidence_ref \<Rightarrow> evidence_ref \<Rightarrow> int" where
  "evidence_cmp h = then_by (key_cmp (\<lambda>r. ts_text (er_occurredAt r)) (collate h))
     (then_by (key_cmp er_eventName (collate h)) (key_cmp er_sourceEventId (collate h)))"

definition dedupeEvidence :: "host \<Rightarrow> evidence_ref list \<Rightarrow> evidence_ref list" where
  "dedupeEvidence h refs = sort_by (evidence_cmp h) (first_by evidence_key [] refs)"

subsection \<open>The values of the event\<close>

definition event_cmp :: "host \<Rightarrow> source_event \<Rightarrow> source_event \<Rightarrow> int" where
  "event_cmp h = then_by (key_cmp event_ms int_cmp) (key_cmp sourceEventId (collate h))"

definition latestForClause :: "host \<Rightarrow> trigger_match \<Rightarrow> string \<Rightarrow> source_event option" where
  "latestForClause h m clause =
     (case sort_by (\<lambda>a b. event_cmp h b a) (filter (\<lambda>e. clauseId e = clause) (tm_sourceEvents m)) of
        [] \<Rightarrow> None | e # _ \<Rightarrow> Some e)"

definition add_to_clause :: "source_event \<Rightarrow> bindings \<Rightarrow> bindings" where
  "add_to_clause e b = obj_put (clauseId e) ((case map_of b (clauseId e) of None \<Rightarrow> [] | Some es \<Rightarrow> es) @ [e]) b"

definition patternCandidateForMatch :: "host \<Rightarrow> trigger_match \<Rightarrow> candidate" where
  "patternCandidateForMatch h m =
     (let events = tm_sourceEvents m;
          groups = fold add_to_clause events []
      in \<lparr>cand_bindings = map (\<lambda>(c, es). (c, sort_by (event_cmp h) es)) groups,
          cand_events = sort_by (event_cmp h) events, startIndex = (if events = [] then -1 else 0),
          endIndex = int (length events) - 1, pendingUntil = None, semanticDecisions = []\<rparr>)"

definition derivedOccurredAt :: "trigger_match \<Rightarrow> js_error + timestamp" where
  "derivedOccurredAt m =
     (case Option.bind (tm_patternState m) pm_completedAt of
        Some t \<Rightarrow> Inr t
      | None \<Rightarrow> if tm_sourceEvents m = [] then Inr (tm_updatedAt m)
          else toISOString (time_clip (Max (set (map event_ms (tm_sourceEvents m))))))"

text \<open>\<open>object[key] = value\<close> for a scalar: the setter of \<open>__proto__\<close> ignores it.\<close>

definition assign :: "string \<Rightarrow> json \<Rightarrow> jobj \<Rightarrow> jobj" where
  "assign key v m = (if key = ''__proto__'' then m else obj_put key v m)"

definition scalar_not_null :: "json \<Rightarrow> bool" where
  "scalar_not_null v \<longleftrightarrow> scalar v \<and> v \<noteq> JNull"

fun project_all :: "host \<Rightarrow> trigger_match \<Rightarrow> projection list \<Rightarrow> jobj \<Rightarrow> js_error + jobj" where
  "project_all h m [] acc = Inr acc"
| "project_all h m (p # ps) acc = (case latestForClause h m (proj_ref p) of
     None \<Rightarrow> Inl (plain_error (''Derived event projection source missing: '' @ proj_ref p))
   | Some e \<Rightarrow> (case read_path (JObj (event_data e)) (proj_path p) of
       None \<Rightarrow> project_all h m ps acc
     | Some v \<Rightarrow> if scalar_not_null v then project_all h m ps (assign (proj_key p) v acc)
         else Inl (plain_error (''Derived event projection must resolve to scalar: '' @ proj_ref p @ ''.'' @ proj_path p))))"

fun measure_all :: "host \<Rightarrow> candidate \<Rightarrow> pattern_measure list \<Rightarrow> jobj \<Rightarrow> js_error + jobj" where
  "measure_all h c [] acc = Inr acc"
| "measure_all h c (s # ss) acc = (case evaluatePatternMeasure h c s of
     Some v \<Rightarrow> if scalar v then measure_all h c ss (assign (meas_key s) v acc)
       else Inl (plain_error (''Derived event measure must resolve to scalar or null: '' @ meas_key s))
   | None \<Rightarrow> Inl (plain_error (''Derived event measure must resolve to scalar or null: '' @ meas_key s)))"

text \<open>Roots: the evidence of a stored derived event stands for the event itself.\<close>

fun root_refs :: "derived_table \<Rightarrow> source_event list \<Rightarrow> evidence_ref list" where
  "root_refs t [] = []"
| "root_refs t (e # es) =
     (case (if serverId e = Some DERIVED_EVENT_SERVER_ID then getDerivedEvent t (sourceEventId e) DERIVED_EVENT_SERVER_ID else None) of
        Some parent \<Rightarrow> dr_rootEvidence parent | None \<Rightarrow> [evidenceRef e]) @ root_refs t es"

subsection \<open>The record\<close>

definition derived_event_id :: "runtime \<Rightarrow> trigger_definition \<Rightarrow> derived_event_definition \<Rightarrow> string \<Rightarrow> string" where
  "derived_event_id ru d s matchId = ''derived_'' @ take 24 (sha256Hex_value (ru_host ru) (ru_sha ru) (JObj
     [(''triggerId'', JStr (td_triggerId d)), (''triggerVersion'', JStr (td_version d)), (''matchId'', JStr matchId),
      (''eventName'', JStr (de_name s)), (''contractVersion'', JStr (de_contractVersion s))]))"

definition derived_stamp :: "trigger_definition \<Rightarrow> derived_event_definition \<Rightarrow> trigger_match \<Rightarrow> string \<Rightarrow> json" where
  "derived_stamp d s m print = JObj [(''triggerId'', JStr (td_triggerId d)), (''triggerVersion'', JStr (td_version d)),
     (''matchId'', JStr (tm_matchId m)), (''partitionKey'', nullable (tm_partitionKey m)),
     (''contractVersion'', JStr (de_contractVersion s)), (''schemaFingerprint'', JStr print)]"

definition derived_data ::
  "trigger_definition \<Rightarrow> derived_event_definition \<Rightarrow> trigger_match \<Rightarrow> jobj \<Rightarrow> jobj \<Rightarrow> string \<Rightarrow> jobj"
where
  "derived_data d s m projected measured print =
     from_entries (de_constants s @ projected @ measured @ [(''_derived'', derived_stamp d s m print)])"

definition derived_values :: "host \<Rightarrow> derived_event_definition \<Rightarrow> trigger_match \<Rightarrow> js_error + (jobj \<times> jobj)" where
  "derived_values h s m = (case project_all h m (de_projections s) [] of
     Inl e \<Rightarrow> Inl e
   | Inr projected \<Rightarrow> (case measure_all h (patternCandidateForMatch h m) (de_measures s) [] of
       Inl e \<Rightarrow> Inl e | Inr measured \<Rightarrow> Inr (projected, measured)))"

definition derived_event_of ::
  "runtime \<Rightarrow> derived_event_definition \<Rightarrow> string \<Rightarrow> jobj \<Rightarrow> timestamp \<Rightarrow> timestamp \<Rightarrow> correlatable_event"
where
  "derived_event_of ru s eventId data occurred received = \<lparr>ce_traceId = ''derived:'' @ eventId, ce_sourceEventId = eventId,
     ce_name = de_name s, ce_occurredAt = occurred, ce_receivedAt = Some received, ce_provider = Some ''event-intelligence'',
     ce_serverId = Some DERIVED_EVENT_SERVER_ID, ce_subscriptionArguments = [],
     ce_payloadHash = Some (sha256Hex_value (ru_host ru) (ru_sha ru) (JObj data)), ce_data = data\<rparr>"

subsection \<open>Emission\<close>

datatype emission_status = Not_Applicable | Replayed | Created

record emission =
  em_status :: emission_status
  em_record :: "derived_event_record option"

definition audit_derived :: "runtime \<Rightarrow> derived_event_record \<Rightarrow> string \<Rightarrow> jobj \<Rightarrow> unit act" where
  "audit_derived ru r ak details =
     seq (readW (\<lambda>w. length (w_audit w))) (\<lambda>n. seq (read_now ru) (\<lambda>t. seq (appendAudit ru
       \<lparr>ai_auditId = ''audit_'' @ take 24 (sha256Hex_value (ru_host ru) (ru_sha ru) (JObj [(''kind'', JStr ak),
          (''sourceEventId'', JStr (ce_sourceEventId (dr_event r))), (''sequence'', JNum (num_of_int (int n)))])),
        ai_traceId = ce_traceId (dr_event r), ai_timestamp = t, ai_kind = ak, ai_entityType = ''derived_event'',
        ai_entityId = ce_sourceEventId (dr_event r), ai_fromState = None, ai_toState = None,
        ai_details = from_entries ([(''triggerId'', JStr (dr_triggerId r)), (''triggerVersion'', JStr (dr_triggerVersion r)),
          (''matchId'', JStr (dr_matchId r)), (''eventName'', JStr (ce_name (dr_event r)))] @ details)\<rparr>) (\<lambda>_. ret ())))"

definition append_derived :: "derived_event_record \<Rightarrow> derived_receipt act" where
  "append_derived r = (\<lambda>w. case appendDerivedEvent r (w_derived w) of (x, t) \<Rightarrow> (x, w\<lparr>w_derived := t\<rparr>))"

definition store_derived :: "runtime \<Rightarrow> derived_event_record \<Rightarrow> emission act" where
  "store_derived ru r =
     seq (append_derived r) (\<lambda>receipt.
     if \<not> dv_accepted receipt then
       seq (audit_derived ru (dv_record receipt) ''derived_event.replayed'' [(''reason'', JStr ''store_dedup'')]) (\<lambda>_.
       ret \<lparr>em_status = Replayed, em_record = Some (dv_record receipt)\<rparr>)
     else
       seq (audit_derived ru r ''derived_event.created''
         [(''parentCount'', JNum (num_of_int (int (length (dr_directParents r))))),
          (''rootEvidenceCount'', JNum (num_of_int (int (length (dr_rootEvidence r)))))]) (\<lambda>_.
       ret \<lparr>em_status = Created, em_record = Some r\<rparr>))"

definition create_derived ::
  "runtime \<Rightarrow> trigger_match \<Rightarrow> trigger_definition \<Rightarrow> derived_event_definition \<Rightarrow> string \<Rightarrow> emission act"
where
  "create_derived ru m d s eventId =
     seq (readW (\<lambda>w. root_refs (w_derived w) (tm_sourceEvents m))) (\<lambda>roots.
     seq (liftE (derived_values (ru_host ru) s m)) (\<lambda>(projected, measured).
     seq (readW (\<lambda>w. getDerivedContract (w_contracts w) (de_name s) (de_contractVersion s))) (\<lambda>contract.
     case contract of
       None \<Rightarrow> throw (coded_error ''DERIVED_CONTRACT_NOT_FOUND''
         (''Derived contract missing for '' @ contract_key (de_name s) (de_contractVersion s)))
     | Some c \<Rightarrow>
         let data = derived_data d s m projected measured (dc_schemaFingerprint c) in
         seq (liftE (derivedOccurredAt m)) (\<lambda>occurred.
         seq (read_now ru) (\<lambda>received.
         seq (read_now ru) (\<lambda>createdAt.
         seq (liftE (parseDerivedEventRecord
           \<lparr>dr_event = derived_event_of ru s eventId data occurred received, dr_triggerId = td_triggerId d,
            dr_triggerVersion = td_version d, dr_matchId = tm_matchId m,
            dr_directParents = dedupeEvidence (ru_host ru) (map evidenceRef (tm_sourceEvents m)),
            dr_rootEvidence = dedupeEvidence (ru_host ru) roots, dr_createdAt = createdAt\<rparr>)) (store_derived ru)))))))"

definition emitMatched :: "runtime \<Rightarrow> trigger_match \<Rightarrow> trigger_definition \<Rightarrow> emission act" where
  "emitMatched ru m d = (case td_derivedEvent d of
     None \<Rightarrow> ret \<lparr>em_status = Not_Applicable, em_record = None\<rparr>
   | Some s \<Rightarrow>
       if tm_status m \<noteq> Matched then ret \<lparr>em_status = Not_Applicable, em_record = None\<rparr>
       else let eventId = derived_event_id ru d s (tm_matchId m) in
         seq (readW (\<lambda>w. getDerivedEvent (w_derived w) eventId DERIVED_EVENT_SERVER_ID)) (\<lambda>existing.
         case existing of
           Some r \<Rightarrow> seq (audit_derived ru r ''derived_event.replayed''
               [(''reason'', JStr ''stable_event_id_already_persisted'')]) (\<lambda>_.
             ret \<lparr>em_status = Replayed, em_record = Some r\<rparr>)
         | None \<Rightarrow> create_derived ru m d s eventId))"

end
