(* ===== verification/Source_Check.thy ===== *)
theory Source_Check
  imports Json_Schema Contract_Registry Derived_Coordinator
begin

text \<open>
  The checks of \<open>scripts/lib/trigger-control-plane.mjs\<close> on a new definition: its clauses have a
  source, their arguments and paths are those the source advertises, and the schema of the event
  it derives is built from theirs.
\<close>

subsection \<open>Paths into a schema\<close>

text \<open>The names that \<open>in\<close> finds on every object, and those it finds on every array besides.\<close>

definition object_names :: "string list" where
  "object_names = [''constructor'', ''__defineGetter__'', ''__defineSetter__'', ''hasOwnProperty'', ''__lookupGetter__'',
     ''__lookupSetter__'', ''isPrototypeOf'', ''propertyIsEnumerable'', ''toString'', ''valueOf'', ''__proto__'',
     ''toLocaleString'']"

definition array_names :: "string list" where
  "array_names = [''at'', ''concat'', ''copyWithin'', ''fill'', ''find'', ''findIndex'', ''findLast'', ''findLastIndex'',
     ''lastIndexOf'', ''pop'', ''push'', ''reverse'', ''shift'', ''unshift'', ''slice'', ''sort'', ''splice'', ''includes'',
     ''indexOf'', ''join'', ''keys'', ''entries'', ''val'' @ ''ues'', ''forEach'', ''filter'', ''flat'', ''flatMap'', ''map'',
     ''every'', ''some'', ''reduce'', ''reduceRight'', ''toReversed'', ''toSorted'', ''toSpliced'', ''with'']"

text \<open>\<open>Inherited\<close> is a function or an object of the runtime without own schema keywords.\<close>

datatype schema_node = No_Node | Inherited | Node json

definition schema_child :: "json \<Rightarrow> string \<Rightarrow> schema_node" where
  "schema_child properties part = (case properties of
     JObj ps \<Rightarrow> (case map_of ps part of Some v \<Rightarrow> Node v | None \<Rightarrow> if part \<in> set object_names then Inherited else No_Node)
   | JArr vs \<Rightarrow>
       if is_index_key part \<and> digits_val part < int (length vs) then Node (vs ! nat (digits_val part))
       else if part = ''length'' then Node (JNum (num_of_int (int (length vs))))
       else if part \<in> set (object_names @ array_names) then Inherited else No_Node
   | _ \<Rightarrow> No_Node)"

fun schema_steps :: "schema_node \<Rightarrow> string list \<Rightarrow> schema_node" where
  "schema_steps node [] = node"
| "schema_steps (Node (JObj kvs)) (part # parts) = (case map_of kvs ''properties'' of
     None \<Rightarrow> No_Node | Some ps \<Rightarrow> schema_steps (schema_child ps part) parts)"
| "schema_steps node (part # parts) = No_Node"

definition getSchemaNode :: "json option \<Rightarrow> string \<Rightarrow> schema_node" where
  "getSchemaNode schema path = (case schema of
     Some (JObj kvs) \<Rightarrow> schema_steps (Node (JObj kvs)) (split_on CHR ''.'' path)
   | _ \<Rightarrow> No_Node)"

definition truthy_node :: "schema_node \<Rightarrow> bool" where
  "truthy_node n = (case n of No_Node \<Rightarrow> False | Inherited \<Rightarrow> True | Node v \<Rightarrow> json_truthy v)"

text \<open>\<open>Object.keys(schema).length\<close> is not zero.\<close>

definition has_keys :: "json option \<Rightarrow> bool" where
  "has_keys v = (case v of Some (JObj kvs) \<Rightarrow> kvs \<noteq> [] | Some (JArr vs) \<Rightarrow> vs \<noteq> [] | _ \<Rightarrow> False)"

subsection \<open>Fields of a pattern\<close>

type_synonym field_visit = "string \<times> string \<times> string"

primrec walkPatternValue :: "arith_value \<Rightarrow> (string \<times> string) list" where
  "walkPatternValue (VLiteral v) = []"
| "walkPatternValue (VField ref path sel n) = [(ref, path)]"
| "walkPatternValue (VOccurredAt ref sel n) = []"
| "walkPatternValue (VArith op args) = concat (map walkPatternValue args)"

definition value_fields :: "arith_value \<Rightarrow> field_visit list" where
  "value_fields v = map (\<lambda>(ref, path). (ref, path, ''pattern value'')) (walkPatternValue v)"

text \<open>The input of a semantic node is a reference and a path behind a dot.\<close>

definition semantic_fields :: "string list \<Rightarrow> field_visit list" where
  "semantic_fields inputs = concat (map (\<lambda>s. case split_on CHR ''.'' s of
     ref # parts \<Rightarrow> if ref \<noteq> [] \<and> parts \<noteq> [] then [(ref, join_with ''.'' parts, ''pattern semantic input'')] else []
   | [] \<Rightarrow> []) inputs)"

primrec walkPatternNode :: "pattern_node \<Rightarrow> field_visit list" where
  "walkPatternNode (EventN ref) = []"
| "walkPatternNode (AllOf cs) = concat (map walkPatternNode cs)"
| "walkPatternNode (AnyOf cs) = concat (map walkPatternNode cs)"
| "walkPatternNode (SequenceN cs ct) = concat (map walkPatternNode cs)"
| "walkPatternNode (RepeatN c mn mx md ct) = walkPatternNode c"
| "walkPatternNode (OptionalN c md) = walkPatternNode c"
| "walkPatternNode (NotNext c f) = walkPatternNode c @ walkPatternNode f"
| "walkPatternNode (NotFollowedBy i c f ms) = walkPatternNode c @ walkPatternNode f"
| "walkPatternNode (WindowN w c) = walkPatternNode c"
| "walkPatternNode (CalendarN s c) = walkPatternNode c"
| "walkPatternNode (AbsenceN s c) = walkPatternNode c"
| "walkPatternNode (NotPresent c ref) = walkPatternNode c"
| "walkPatternNode (AfterN c ref aref) = walkPatternNode c"
| "walkPatternNode (UntilN c ref bref) = walkPatternNode c"
| "walkPatternNode (DebounceN i c ref ms) = walkPatternNode c"
| "walkPatternNode (ThresholdN c ref k) = walkPatternNode c"
| "walkPatternNode (RateN c ref k ms) = walkPatternNode c"
| "walkPatternNode (DistinctN c ref path k) = (ref, path, ''pattern distinct'') # walkPatternNode c"
| "walkPatternNode (CompareN s c) = value_fields (cmp_left s) @
     (case cmp_right s of None \<Rightarrow> [] | Some v \<Rightarrow> value_fields v) @ walkPatternNode c"
| "walkPatternNode (AggregateN s op v c) =
     (case agg_path s of None \<Rightarrow> [] | Some path \<Rightarrow> [(agg_ref s, path, ''pattern aggregate'')]) @ walkPatternNode c"
| "walkPatternNode (StateN s c) = (st_ref s, st_path s, ''pattern state'') # walkPatternNode c"
| "walkPatternNode (SemanticN s c) = semantic_fields (sem_input s) @ walkPatternNode c"

subsection \<open>Sources\<close>

definition source_name :: "event_source \<Rightarrow> string" where
  "source_name s = es_serverId s @ ''/'' @ es_eventName s"

definition assertSubscriptionArguments :: "host \<Rightarrow> event_source \<Rightarrow> jobj \<Rightarrow> string \<Rightarrow> js_error option" where
  "assertSubscriptionArguments h s args purpose =
     (if \<not> has_keys (es_inputSchema s) then None
      else map_option (\<lambda>e. coded_error ''TRIGGER_SOURCE_ARGUMENTS_INVALID''
          (purpose @ '' arguments are invalid for '' @ source_name s @ '': '' @ err_message e))
        (assertJsonSchemaValue h (the (es_inputSchema s)) (JObj args) ''$''))"

definition assertAdvertisedPath :: "event_source option \<Rightarrow> string \<Rightarrow> string \<Rightarrow> js_error option" where
  "assertAdvertisedPath found path purpose = (case found of None \<Rightarrow> None | Some s \<Rightarrow>
     fails (has_keys (es_payloadSchema s) \<and> \<not> truthy_node (getSchemaNode (es_payloadSchema s) path))
       (coded_error ''TRIGGER_SOURCE_FIELD_UNAVAILABLE''
         (purpose @ '' field unavailable: '' @ source_name s @ ''.'' @ path)))"

text \<open>\<open>String(source.metadata?.contractVersion || '')\<close>.\<close>

definition text_or_empty :: "json option \<Rightarrow> string" where
  "text_or_empty v = (case v of Some u \<Rightarrow> if json_truthy u then js_string u else [] | None \<Rightarrow> [])"

definition source_version :: "event_source \<Rightarrow> string" where
  "source_version s = text_or_empty (object_field (es_metadata s) ''contractVersion'')"

definition source_versions :: "event_source list \<Rightarrow> string list" where
  "source_versions ss = uniq (map source_version (filter
     (\<lambda>s. case object_field (es_metadata s) ''contractVersion'' of Some v \<Rightarrow> json_truthy v | None \<Rightarrow> False) ss))"

text \<open>
  The source of a clause, and the clause: a clause on a derived event without a version gets the
  only version there is.
\<close>

definition resolveSource :: "event_source list \<Rightarrow> trigger_clause \<Rightarrow> js_error + (event_source \<times> trigger_clause)" where
  "resolveSource sources c =
     (if \<not> truthy_str (clause_serverId c)
      then Inl (coded_error ''TRIGGER_SOURCE_SCOPE_REQUIRED'' (''Trigger clause '' @ clause_id c @ '' must declare serverId''))
      else let server = the (clause_serverId c);
          candidates = filter (\<lambda>s. es_eventName s = clause_event c \<and> es_serverId s = server) sources;
          versions = source_versions candidates
      in if candidates = []
         then Inl (coded_error ''TRIGGER_EVENT_SOURCE_UNAVAILABLE''
           (''Event source unavailable: '' @ server @ ''/'' @ clause_event c))
         else if server \<noteq> DERIVED_EVENT_SERVER_ID then Inr (hd candidates, c)
         else if truthy_str (clause_contractVersion c) then
           (let exact = filter (\<lambda>s. source_version s = the (clause_contractVersion c)) candidates
            in if exact = [] then Inl (coded_error ''DERIVED_CONTRACT_NOT_FOUND''
                (''Derived contract unavailable: '' @ clause_event c @ ''@'' @ the (clause_contractVersion c)))
               else Inr (hd exact, c))
         else if length versions = 1 then
           (let exact = filter (\<lambda>s. source_version s = hd versions) candidates
            in Inr (hd exact, c\<lparr>clause_contractVersion := Some (hd versions)\<rparr>))
         else if 1 < length versions then Inl (coded_error ''DERIVED_CONTRACT_AMBIGUOUS''
           (''Derived event consumer is ambiguous for '' @ clause_event c @ ''; explicit contractVersion required''))
         else Inr (hd candidates, c))"

text \<open>The loop over the clauses, which are updated in place.\<close>

fun check_clauses ::
  "host \<Rightarrow> event_source list \<Rightarrow> trigger_clause list \<Rightarrow> js_error + trigger_clause list"
where
  "check_clauses h sources [] = Inr []"
| "check_clauses h sources (c # cs) = (case resolveSource sources c of
     Inl e \<Rightarrow> Inl e
   | Inr (s, c') \<Rightarrow>
       (case or_else (assertSubscriptionArguments h s (clause_arguments c) (''Trigger clause '' @ clause_id c))
           (first_error (\<lambda>p. assertAdvertisedPath (Some s) (pred_path p) (''Predicate '' @ clause_id c)) (clause_where c)) of
          Some e \<Rightarrow> Inl e
        | None \<Rightarrow> (case check_clauses h sources cs of Inl e \<Rightarrow> Inl e | Inr cs' \<Rightarrow> Inr (c' # cs'))))"

definition clauseForRef :: "trigger_clause list \<Rightarrow> string \<Rightarrow> trigger_clause option" where
  "clauseForRef cs ref = find (\<lambda>c. clause_id c = ref) cs"

definition check_field :: "event_source list \<Rightarrow> trigger_clause list \<Rightarrow> string \<Rightarrow> string \<Rightarrow> string \<Rightarrow> js_error option" where
  "check_field sources cs ref path purpose = (case clauseForRef cs ref of
     None \<Rightarrow> None
   | Some c \<Rightarrow> (case resolveSource sources c of Inl e \<Rightarrow> Some e
       | Inr (s, c') \<Rightarrow> assertAdvertisedPath (Some s) path purpose))"

definition partition_fields :: "trigger_definition \<Rightarrow> field_visit list" where
  "partition_fields d = concat (map (\<lambda>p. map (\<lambda>(ref, path). (ref, path, ''Pattern partition '' @ dim_key p)) (dim_fields p))
     (pat_partitionBy (td_pattern d)))"

definition measure_fields :: "derived_event_definition \<Rightarrow> field_visit list" where
  "measure_fields s = concat (map (\<lambda>m. let purpose = ''Derived measure '' @ meas_key m in
     case meas_expression m of
       MAggregate a \<Rightarrow> if truthy_str (agg_path a) then [(agg_ref a, the (agg_path a), purpose)] else []
     | MValue v \<Rightarrow> map (\<lambda>(ref, path). (ref, path, purpose)) (walkPatternValue v)) (de_measures s))"

text \<open>\<open>Array.isArray(node.type) ? node.type : [node.type]\<close> has \<open>object\<close> or \<open>array\<close>.\<close>

definition structured_node :: "schema_node \<Rightarrow> bool" where
  "structured_node n = (case n of
     Node (JObj kvs) \<Rightarrow> (case map_of kvs ''type'' of
         Some (JArr ts) \<Rightarrow> JStr ''object'' \<in> set ts \<or> JStr ''array'' \<in> set ts
       | Some t \<Rightarrow> t = JStr ''object'' \<or> t = JStr ''array''
       | None \<Rightarrow> False)
   | _ \<Rightarrow> False)"

definition check_projection :: "event_source list \<Rightarrow> trigger_clause list \<Rightarrow> projection \<Rightarrow> js_error option" where
  "check_projection sources cs p = (let field = proj_ref p @ ''.'' @ proj_path p in
     case clauseForRef cs (proj_ref p) of
       None \<Rightarrow> None
     | Some c \<Rightarrow> (case resolveSource sources c of
         Inl e \<Rightarrow> Some e
       | Inr (s, c') \<Rightarrow>
           if \<not> has_keys (es_payloadSchema s) then None
           else let node = getSchemaNode (es_payloadSchema s) (proj_path p) in
             if \<not> truthy_node node then Some (coded_error ''TRIGGER_DERIVED_PROJECTION_FIELD_UNAVAILABLE''
               (''Derived projection field unavailable: '' @ field))
             else fails (structured_node node) (coded_error ''TRIGGER_DERIVED_PROJECTION_NON_SCALAR''
               (''Derived projection must be scalar: '' @ field))))"

definition check_fields :: "event_source list \<Rightarrow> trigger_clause list \<Rightarrow> field_visit list \<Rightarrow> js_error option" where
  "check_fields sources cs visits = first_error (\<lambda>(ref, path, purpose). check_field sources cs ref path purpose) visits"

definition check_sources :: "host \<Rightarrow> event_source list \<Rightarrow> trigger_definition \<Rightarrow> js_error + trigger_definition" where
  "check_sources h sources d = (case check_clauses h sources (td_clauses d) of
     Inl e \<Rightarrow> Inl e
   | Inr cs \<Rightarrow> (case or_else (check_fields sources cs (partition_fields d))
         (or_else (check_fields sources cs (walkPatternNode (pat_root (td_pattern d))))
           (case td_derivedEvent d of None \<Rightarrow> None | Some s \<Rightarrow>
              or_else (check_fields sources cs (measure_fields s))
                (first_error (check_projection sources cs) (de_projections s)))) of
        Some e \<Rightarrow> Inl e | None \<Rightarrow> Inr (d\<lparr>td_clauses := cs\<rparr>)))"

text \<open>\<open>[...new Set(ids.map(String).filter(Boolean))]\<close>.\<close>

definition connection_ids :: "string list \<Rightarrow> string list" where
  "connection_ids ids = uniq (filter (\<lambda>i. i \<noteq> []) ids)"

definition connection_required :: js_error where
  "connection_required = coded_error ''TRIGGER_CONNECTION_REQUIRED'' ''At least one active event-source connection is required''"

definition assertSourcesAvailable :: "host \<Rightarrow> source_table \<Rightarrow> trigger_definition \<Rightarrow> string list \<Rightarrow> js_error + trigger_definition" where
  "assertSourcesAvailable h t d ids = (let allowed = connection_ids ids in
     if allowed = [] then Inl connection_required else check_sources h (listEventSources t allowed True) d)"

subsection \<open>The schema of a derived event\<close>

definition type_schema :: "string \<Rightarrow> json" where
  "type_schema t = JObj [(''type'', JStr t)]"

definition scalarSchemaForConstant :: "json \<Rightarrow> json" where
  "scalarSchemaForConstant v = (case v of
     JStr s \<Rightarrow> type_schema ''string'' | JBool b \<Rightarrow> type_schema ''boolean''
   | JNum n \<Rightarrow> type_schema (if is_integer v then ''integer'' else ''number'') | _ \<Rightarrow> JObj [])"

definition stamp_schema :: json where
  "stamp_schema = JObj [(''type'', JStr ''object''),
     (''properties'', JObj [(''triggerId'', type_schema ''string''), (''triggerVersion'', type_schema ''string''),
       (''matchId'', type_schema ''string''), (''partitionKey'', JObj [(''type'', JArr [JStr ''string'', JStr ''null''])]),
       (''contractVersion'', type_schema ''string''), (''schemaFingerprint'', type_schema ''string'')]),
     (''required'', JArr (map JStr [''triggerId'', ''triggerVersion'', ''matchId'', ''contractVersion'', ''schemaFingerprint'']))]"

definition source_for_clause :: "event_source list \<Rightarrow> trigger_clause \<Rightarrow> event_source option" where
  "source_for_clause sources c = find (\<lambda>s. es_eventName s = clause_event c \<and> Some (es_serverId s) = clause_serverId c \<and>
     (\<not> truthy_str (clause_contractVersion c) \<or> Some (source_version s) = clause_contractVersion c)) sources"

text \<open>\<open>getSchemaNode(...) ?? {}\<close>; an inherited function has no JSON text, so its property is left out.\<close>

definition schemaForRefPath :: "event_source list \<Rightarrow> trigger_clause list \<Rightarrow> string \<Rightarrow> string \<Rightarrow> json option" where
  "schemaForRefPath sources cs ref path =
     (case getSchemaNode (Option.bind (Option.bind (clauseForRef cs ref) (source_for_clause sources)) es_payloadSchema) path of
        No_Node \<Rightarrow> Some (JObj []) | Inherited \<Rightarrow> None | Node v \<Rightarrow> Some (if v = JNull then JObj [] else v))"

definition schemaForMeasureExpression :: "event_source list \<Rightarrow> trigger_clause list \<Rightarrow> measure_expression \<Rightarrow> json option" where
  "schemaForMeasureExpression sources cs e = (case e of
     MValue (VLiteral v) \<Rightarrow> Some (if v = JNull then type_schema ''null'' else scalarSchemaForConstant v)
   | MValue (VField ref path sel n) \<Rightarrow> schemaForRefPath sources cs ref path
   | MValue v \<Rightarrow> Some (type_schema ''number'')
   | MAggregate a \<Rightarrow>
       if agg_function a \<in> {FCount, FCountDistinct} then Some (type_schema ''integer'')
       else if agg_function a \<in> {FSum, FAvg, FMin, FMax, FStddev, FPercentile} then Some (type_schema ''number'')
       else schemaForRefPath sources cs (agg_ref a) (case agg_path a of Some p \<Rightarrow> p | None \<Rightarrow> ''undefined''))"

definition assign_schema :: "string \<times> json option \<Rightarrow> jobj \<Rightarrow> jobj" where
  "assign_schema kv m = (case snd kv of Some v \<Rightarrow> assign (fst kv) v m | None \<Rightarrow> filter (\<lambda>e. fst e \<noteq> fst kv) m)"

definition output_properties :: "event_source list \<Rightarrow> trigger_clause list \<Rightarrow> derived_event_definition \<Rightarrow> jobj" where
  "output_properties sources cs s = fold assign_schema
     (map (\<lambda>kv. (fst kv, Some (scalarSchemaForConstant (snd kv)))) (de_constants s) @
      map (\<lambda>m. (meas_key m, schemaForMeasureExpression sources cs (meas_expression m))) (de_measures s) @
      map (\<lambda>p. (proj_key p, schemaForRefPath sources cs (proj_ref p) (proj_path p))) (de_projections s))
     [(''_derived'', stamp_schema)]"

definition buildDerivedOutputPayloadSchema :: "source_table \<Rightarrow> trigger_definition \<Rightarrow> derived_event_definition \<Rightarrow> json" where
  "buildDerivedOutputPayloadSchema t d s = JObj [(''type'', JStr ''object''),
     (''properties'', JObj (output_properties (listEventSources t [] False) (td_clauses d) s)),
     (''required'', JArr (map JStr (''_derived'' # map fst (de_constants s) @ map meas_key (de_measures s))))]"

end
