(* ===== verification/Control_Plane.thy ===== *)
theory Control_Plane
  imports Source_Check
begin

text \<open>
  \<open>scripts/lib/trigger-control-plane.mjs\<close>: the operations by which principals create, replace,
  delete, pause and resume triggers and register event sources.
\<close>

subsection \<open>Principals\<close>

record principal =
  pr_type :: string
  pr_principalId :: string
  pr_tenantId :: "string option"

definition principal_json :: "principal \<Rightarrow> json" where
  "principal_json p = JObj ([(''type'', JStr (pr_type p)), (''principal_id'', JStr (pr_principalId p))] @
     (case pr_tenantId p of None \<Rightarrow> [] | Some t \<Rightarrow> [(''tenant_id'', JStr t)]))"

definition actorIdentity :: "json option \<Rightarrow> js_error + principal" where
  "actorIdentity actor = (case actor of
     Some (JObj kvs) \<Rightarrow>
       (let kind_text = text_or_empty (map_of kvs ''type''); i = text_or_empty (map_of kvs ''principal_id'');
            tenant = text_or_empty (map_of kvs ''tenant_id'')
        in if kind_text = [] \<or> i = [] then Inl (plain_error ''actor.type and actor.principal_id are required'')
           else Inr \<lparr>pr_type = kind_text, pr_principalId = i, pr_tenantId = (if tenant = [] then None else Some tenant)\<rparr>)
   | Some (JArr vs) \<Rightarrow> Inl (plain_error ''actor.type and actor.principal_id are required'')
   | _ \<Rightarrow> Inl (plain_error ''actor is required''))"

text \<open>The owner of a state may be any value.\<close>

definition samePrincipal :: "json option \<Rightarrow> principal \<Rightarrow> bool" where
  "samePrincipal left right \<longleftrightarrow> (case left of None \<Rightarrow> False | Some v \<Rightarrow> json_truthy v) \<and>
     text_or_empty (object_field left ''type'') = pr_type right \<and>
     text_or_empty (object_field left ''principal_id'') = pr_principalId right \<and>
     text_or_empty (object_field left ''tenant_id'') = (case pr_tenantId right of Some t \<Rightarrow> t | None \<Rightarrow> [])"

definition unconfirmed :: "principal \<Rightarrow> string option \<Rightarrow> bool" where
  "unconfirmed actor confirmationId \<longleftrightarrow> pr_type actor = ''agent'' \<and>
     (case confirmationId of None \<Rightarrow> True | Some c \<Rightarrow> trim_ws c = [])"

subsection \<open>The control plane\<close>

record control_plane =
  cp_engine :: engine
  cp_workerId :: string
  cp_mutationLeaseMs :: int

abbreviation cp_ru :: "control_plane \<Rightarrow> runtime" where
  "cp_ru cp \<equiv> en_ru (cp_engine cp)"

text \<open>\<open>Math.max(1000, Number(mutationLeaseMs) || 300000)\<close>.\<close>

definition constructControlPlane :: "engine \<Rightarrow> string \<Rightarrow> int \<Rightarrow> control_plane" where
  "constructControlPlane en workerId leaseMs = \<lparr>cp_engine = en, cp_workerId = workerId,
     cp_mutationLeaseMs = max 1000 (if leaseMs = 0 then 300000 else leaseMs)\<rparr>"

definition audit_control :: "runtime \<Rightarrow> string \<Rightarrow> string \<Rightarrow> string \<Rightarrow> string \<Rightarrow> jobj \<Rightarrow> unit act" where
  "audit_control ru ak entityType entityId trace details =
     seq (read_now ru) (\<lambda>t. seq (readW (\<lambda>w. length (w_audit w))) (\<lambda>n. seq (appendAudit ru
       \<lparr>ai_auditId = hash_id ru ''audit_''
          (ak @ '':'' @ entityType @ '':'' @ entityId @ '':'' @ ts_text t @ '':'' @ int_str (int n)),
        ai_traceId = trace, ai_timestamp = t, ai_kind = ak, ai_entityType = entityType, ai_entityId = entityId,
        ai_fromState = None, ai_toState = None, ai_details = from_entries details\<rparr>) (\<lambda>_. ret ())))"

definition audit_trigger :: "runtime \<Rightarrow> string \<Rightarrow> string \<Rightarrow> jobj \<Rightarrow> unit act" where
  "audit_trigger ru ak triggerId details = audit_control ru ak ''trigger'' triggerId (''trigger:'' @ triggerId) details"

definition audit_contract :: "runtime \<Rightarrow> contract_audit" where
  "audit_contract ru ak key details = audit_control ru ak ''derived_contract'' key (''derived-contract:'' @ key) details"

text \<open>\<open>withTriggerMutationLease\<close>; only a distributed store has leases that exclude other processes.\<close>

definition claim_control :: "control_plane \<Rightarrow> string \<Rightarrow> partition_lease option act" where
  "claim_control cp key = seq (read_now (cp_ru cp)) (\<lambda>t w.
     case claimPartitionLease key (cp_workerId cp) t (cp_mutationLeaseMs cp) (w_leases w) of
       (r, l) \<Rightarrow> (r, w\<lparr>w_leases := l\<rparr>))"

definition release_control :: "control_plane \<Rightarrow> string \<Rightarrow> bool act" where
  "release_control cp key = seq (read_now (cp_ru cp)) (\<lambda>t w.
     case releasePartitionLease key (cp_workerId cp) t (w_leases w) of (r, l) \<Rightarrow> (Inr r, w\<lparr>w_leases := l\<rparr>))"

definition withTriggerMutationLease :: "control_plane \<Rightarrow> string \<Rightarrow> string \<Rightarrow> 'a act \<Rightarrow> 'a act" where
  "withTriggerMutationLease cp triggerId version operation =
     (if \<not> en_distributed (cp_engine cp) then operation
      else let key = ''control:'' @ triggerId @ '':'' @ version in
        seq (claim_control cp key) (\<lambda>lease. case lease of
          None \<Rightarrow> throw (coded_error ''TRIGGER_MUTATION_BUSY''
            (''Trigger mutation is currently owned by another worker: '' @ triggerId @ ''@'' @ version))
        | Some _ \<Rightarrow> finally_do operation (release_control cp key)))"

subsection \<open>Event sources\<close>

definition put_source :: "runtime \<Rightarrow> source_input \<Rightarrow> event_source act" where
  "put_source ru input = seq (read_now ru) (\<lambda>t w. case putEventSource input (ts_text t) (w_sources w) of
     (r, s) \<Rightarrow> (r, w\<lparr>w_sources := s\<rparr>))"

definition registerEventSource :: "runtime \<Rightarrow> source_input \<Rightarrow> json option \<Rightarrow> event_source act" where
  "registerEventSource ru input actorInput =
     seq (liftE (actorIdentity actorInput)) (\<lambda>actor.
     seq (put_source ru input) (\<lambda>s.
     seq (audit_control ru ''event_source.registered'' ''event_source'' (es_sourceId s) (''event-source:'' @ es_sourceId s)
       [(''actor'', principal_json actor), (''connectionId'', JStr (es_connectionId s)),
        (''serverId'', JStr (es_serverId s)), (''eventName'', JStr (es_eventName s))]) (\<lambda>_. ret s)))"

definition listEnabledSources :: "string list \<Rightarrow> world \<Rightarrow> event_source list" where
  "listEnabledSources ids w = listEventSources (w_sources w) ids True"

definition listOwnedTriggers :: "principal option \<Rightarrow> world \<Rightarrow> (trigger_definition \<times> trigger_state) list" where
  "listOwnedTriggers owner w = filter (\<lambda>(d, s). case owner of None \<Rightarrow> True | Some p \<Rightarrow> samePrincipal (ts_owner s) p)
     (map (\<lambda>d. (d, getTriggerState (w_states w) (td_triggerId d) (td_version d))) (listTriggers (w_triggers w)))"

subsection \<open>The contract of a derived event\<close>

definition assertDerivedOutputContract :: "runtime \<Rightarrow> trigger_definition \<Rightarrow> unit act" where
  "assertDerivedOutputContract ru d = (case td_derivedEvent d of
     None \<Rightarrow> ret ()
   | Some s \<Rightarrow>
       seq (readW (\<lambda>w. buildDerivedOutputPayloadSchema (w_sources w) d s)) (\<lambda>schema.
       seq (assertCompatible ru (de_name s) (de_contractVersion s) schema) (\<lambda>checked. case checked of
         Inr _ \<Rightarrow> ret ()
       | Inl c \<Rightarrow> seq (audit_contract ru ''derived_contract.conflict'' (contract_key (de_name s) (de_contractVersion s))
           ([(''triggerId'', JStr (td_triggerId d)), (''triggerVersion'', JStr (td_version d))] @ conflict_details c)) (\<lambda>_.
           throw (conflict_error c)))))"

definition derived_source :: "trigger_definition \<Rightarrow> derived_event_definition \<Rightarrow> derived_contract \<Rightarrow> source_input" where
  "derived_source d s c = (let label = de_name s @ ''@'' @ de_contractVersion s in
     \<lparr>si_sourceId = Some (''derived:'' @ td_triggerId d @ '':'' @ td_version d @ '':'' @ label),
      si_connectionId = Some DERIVED_EVENT_SERVER_ID, si_serverId = Some DERIVED_EVENT_SERVER_ID,
      si_eventName = Some (de_name s),
      si_description = Some (''Derived by '' @ td_triggerId d @ ''@'' @ td_version d @ '' as '' @ label),
      si_delivery = Some [''internal''], si_inputSchema = None, si_payloadSchema = Some (dc_payloadSchema c),
      si_enabled = Some True, si_experimental = Some False,
      si_metadata = Some (JObj [(''derived'', JBool True), (''triggerId'', JStr (td_triggerId d)),
        (''triggerVersion'', JStr (td_version d)), (''contractVersion'', JStr (de_contractVersion s)),
        (''schemaFingerprint'', JStr (dc_schemaFingerprint c))]),
      si_updatedAt = None\<rparr>)"

definition derived_events_actor :: json where
  "derived_events_actor = JObj [(''type'', JStr ''system''), (''principal_id'', JStr ''event-intelligence:derived-events'')]"

definition registerDerivedOutputSource :: "runtime \<Rightarrow> trigger_definition \<Rightarrow> unit act" where
  "registerDerivedOutputSource ru d = (case td_derivedEvent d of
     None \<Rightarrow> ret ()
   | Some s \<Rightarrow>
       seq (readW (\<lambda>w. buildDerivedOutputPayloadSchema (w_sources w) d s)) (\<lambda>schema.
       seq (registerProducer ru (audit_contract ru) (de_name s) (de_contractVersion s) schema (td_triggerId d, td_version d))
         (\<lambda>(known, c).
       seq (registerEventSource ru (derived_source d s c) (Some derived_events_actor)) (\<lambda>_. ret ()))))"

subsection \<open>Retiring the matches of a version\<close>

definition retirable :: "string \<Rightarrow> trigger_match \<Rightarrow> bool" where
  "retirable version r \<longleftrightarrow> tm_triggerVersion r = version \<and> (tm_status r = Partial \<or> tm_status r = Matched)"

definition retire_one :: "runtime \<Rightarrow> timestamp \<Rightarrow> trigger_match \<Rightarrow> unit act" where
  "retire_one ru now r =
     seq (\<lambda>w. (Inr (), w\<lparr>w_matches := snd (appendTriggerMatch (r\<lparr>tm_status := Expired, tm_updatedAt := now\<rparr>) (w_matches w))\<rparr>))
       (\<lambda>_. cancelDeadlinesForMatch ru (tm_matchId r))"

definition retireMatches :: "runtime \<Rightarrow> string \<Rightarrow> string \<Rightarrow> unit act" where
  "retireMatches ru triggerId version =
     seq (read_now ru) (\<lambda>now.
     seq (readW (\<lambda>w. filter (retirable version) (listTriggerMatches (w_matches w) (Some triggerId)))) (each (retire_one ru now)))"

subsection \<open>Requests\<close>

text \<open>The arguments of the operations; a definition comes parsed.\<close>

record trigger_request =
  rq_actor :: "json option"
  rq_owner :: "json option"
  rq_confirmationId :: "string option"
  rq_connectionIds :: "string list option"

record trigger_reply =
  ry_receiptId :: string
  ry_definition :: trigger_definition
  ry_state :: trigger_state
  ry_previous :: "trigger_state option"

definition identities :: "trigger_request \<Rightarrow> string \<Rightarrow> js_error + (principal \<times> principal)" where
  "identities q what = (case actorIdentity (rq_actor q) of Inl e \<Rightarrow> Inl e | Inr actor \<Rightarrow>
     (case actorIdentity (rq_owner q) of Inl e \<Rightarrow> Inl e | Inr owner \<Rightarrow>
       if unconfirmed actor (rq_confirmationId q)
       then Inl (coded_error ''TRIGGER_CONFIRMATION_REQUIRED'' (''Agent-authored '' @ what @ '' require explicit confirmationId''))
       else Inr (actor, owner)))"

definition find_trigger :: "string \<Rightarrow> string \<Rightarrow> world \<Rightarrow> trigger_definition option" where
  "find_trigger triggerId version w =
     find (\<lambda>d. td_triggerId d = triggerId \<and> td_version d = version) (listTriggers (w_triggers w))"

definition state_of :: "string \<Rightarrow> string \<Rightarrow> world \<Rightarrow> trigger_state" where
  "state_of triggerId version w = getTriggerState (w_states w) triggerId version"

definition put_state ::
  "runtime \<Rightarrow> string \<Rightarrow> string \<Rightarrow> trigger_status \<Rightarrow> principal \<Rightarrow> state_metadata \<Rightarrow> trigger_state act"
where
  "put_state ru triggerId version status actor md = seq (read_now ru) (\<lambda>t.
     on_states (setTriggerState triggerId version status (Some (principal_json actor)) md (ts_text t)))"

definition fresh_metadata :: "principal \<Rightarrow> string list \<Rightarrow> state_metadata" where
  "fresh_metadata owner connections = \<lparr>md_owner = Some (principal_json owner), md_connectionIds = Some connections,
     md_fireCount = None, md_lastFiredAt = None\<rparr>"

definition retired_metadata :: "principal \<Rightarrow> trigger_state \<Rightarrow> state_metadata" where
  "retired_metadata owner s = \<lparr>md_owner = Some (principal_json owner), md_connectionIds = Some (ts_connectionIds s),
     md_fireCount = Some (ts_fireCount s), md_lastFiredAt = Some (ts_lastFiredAt s)\<rparr>"

definition receipt_of :: "runtime \<Rightarrow> string \<Rightarrow> string" where
  "receipt_of ru text = hash_id ru ''trigger_receipt_'' text"

definition confirmed_by :: "trigger_request \<Rightarrow> principal \<Rightarrow> string" where
  "confirmed_by q actor = str_or (rq_confirmationId q) (pr_principalId actor)"

definition confirmation_json :: "trigger_request \<Rightarrow> json" where
  "confirmation_json q = nullable (opt_or (rq_confirmationId q) None)"

definition already_exists :: "string \<Rightarrow> string \<Rightarrow> js_error" where
  "already_exists triggerId version =
     coded_error ''TRIGGER_ALREADY_EXISTS'' (''Trigger '' @ triggerId @ ''@'' @ version @ '' already exists'')"

subsection \<open>Creation\<close>

text \<open>Registration, the state and the derived source, shared by creation and update.\<close>

definition install :: "control_plane \<Rightarrow> trigger_definition \<Rightarrow> principal \<Rightarrow> principal \<Rightarrow> string list \<Rightarrow> trigger_state act" where
  "install cp d actor owner connections =
     seq (assertDerivedOutputContract (cp_ru cp) d) (\<lambda>_.
     seq (register (cp_engine cp) d) (\<lambda>stored.
     seq (put_state (cp_ru cp) (td_triggerId d) (td_version d) Active actor (fresh_metadata owner connections)) (\<lambda>s.
     seq (registerDerivedOutputSource (cp_ru cp) stored) (\<lambda>_. ret s))))"

definition createTrigger :: "control_plane \<Rightarrow> trigger_definition \<Rightarrow> trigger_request \<Rightarrow> trigger_reply act" where
  "createTrigger cp given q =
     (let ru = cp_ru cp in
      seq (liftE (identities q ''durable triggers'')) (\<lambda>(actor, owner).
      let allowed = connection_ids (case rq_connectionIds q of Some ids \<Rightarrow> ids | None \<Rightarrow> []) in
      if allowed = [] then throw connection_required
      else seq (readW (\<lambda>w. assertSourcesAvailable (ru_host ru) (w_sources w) given allowed)) (\<lambda>checked.
      seq (liftE checked) (\<lambda>d.
      seq (readW (find_trigger (td_triggerId d) (td_version d))) (\<lambda>existing.
      if existing \<noteq> None then throw (already_exists (td_triggerId d) (td_version d))
      else seq (install cp d actor owner allowed) (\<lambda>s.
        let receipt = receipt_of ru (td_triggerId d @ '':'' @ td_version d @ '':create:'' @ confirmed_by q actor) in
        seq (audit_trigger ru ''trigger.created'' (td_triggerId d)
          [(''actor'', principal_json actor), (''owner'', principal_json owner), (''version'', JStr (td_version d)),
           (''connectionIds'', JArr (map JStr allowed)), (''confirmationId'', confirmation_json q),
           (''receiptId'', JStr receipt),
           (''clauseSources'', JArr (map (\<lambda>c. JObj ([(''clauseId'', JStr (clause_id c))] @
             opt_field ''serverId'' (map_option JStr (clause_serverId c)) @ [(''eventName'', JStr (clause_event c))])) (td_clauses d)))])
          (\<lambda>_. ret \<lparr>ry_receiptId = receipt, ry_definition = d, ry_state = s, ry_previous = None\<rparr>)))))))"

subsection \<open>Update\<close>

definition version_conflict :: "string \<Rightarrow> js_error" where
  "version_conflict message = coded_error ''TRIGGER_VERSION_CONFLICT'' message"

definition current_status :: "trigger_status \<Rightarrow> bool" where
  "current_status s \<longleftrightarrow> s = Active \<or> s = Paused"

text \<open>Another version of the trigger that is active or paused.\<close>

definition competing :: "string \<Rightarrow> string \<Rightarrow> world \<Rightarrow> trigger_definition option" where
  "competing triggerId version w = find (\<lambda>d. td_version d \<noteq> version \<and>
       current_status (ts_status (state_of (td_triggerId d) (td_version d) w)))
     (filter (\<lambda>d. td_triggerId d = triggerId) (listTriggers (w_triggers w)))"

definition check_update :: "string \<Rightarrow> string \<Rightarrow> principal \<Rightarrow> trigger_definition \<Rightarrow> world \<Rightarrow> js_error + unit" where
  "check_update triggerId expected owner d w =
     (let s = state_of triggerId expected w in
      if find_trigger triggerId expected w = None
      then Inl (version_conflict (''Expected trigger version not found: '' @ triggerId @ ''@'' @ expected))
      else if \<not> samePrincipal (ts_owner s) owner then Inl (coded_error ''TRIGGER_OWNER_MISMATCH'' ''Trigger owner mismatch'')
      else if \<not> current_status (ts_status s)
      then Inl (version_conflict (''Trigger version is no longer mutable: '' @ trigger_status_text (ts_status s)))
      else case competing triggerId expected w of
        Some other \<Rightarrow> Inl (version_conflict (''Another trigger version is current: '' @ triggerId @ ''@'' @ td_version other))
      | None \<Rightarrow>
          if td_triggerId d \<noteq> triggerId then Inl (coded_error ''TRIGGER_ID_IMMUTABLE'' ''Updated definition must keep triggerId'')
          else if td_version d = expected
          then Inl (coded_error ''TRIGGER_NEW_VERSION_REQUIRED'' ''Updated definition requires a new version'')
          else if find_trigger triggerId (td_version d) w \<noteq> None then Inl (already_exists triggerId (td_version d))
          else Inr ())"

text \<open>The old version is retired before the contract and the cycles of the new one are checked.\<close>

definition updateTriggerUnlocked ::
  "control_plane \<Rightarrow> string \<Rightarrow> string \<Rightarrow> trigger_definition \<Rightarrow> trigger_request \<Rightarrow> trigger_reply act"
where
  "updateTriggerUnlocked cp triggerId expected given q =
     (let ru = cp_ru cp in
      seq (liftE (identities q ''trigger mutations'')) (\<lambda>(actor, owner).
      seq (readW (check_update triggerId expected owner given)) (\<lambda>checked. seq (liftE checked) (\<lambda>_.
      seq (readW (state_of triggerId expected)) (\<lambda>before.
      let allowed = (case rq_connectionIds q of None \<Rightarrow> ts_connectionIds before
        | Some ids \<Rightarrow> if ids = [] then ts_connectionIds before else connection_ids ids) in
      seq (readW (\<lambda>w. assertSourcesAvailable (ru_host ru) (w_sources w) given allowed)) (\<lambda>available. seq (liftE available) (\<lambda>d.
      seq (retireMatches ru triggerId expected) (\<lambda>_.
      seq (put_state ru triggerId expected Completed actor (retired_metadata owner before)) (\<lambda>retired.
      seq (install cp d actor owner allowed) (\<lambda>s.
      let receipt = receipt_of ru (triggerId @ '':'' @ expected @ ''->'' @ td_version d @ '':update:'' @ confirmed_by q actor) in
      seq (audit_trigger ru ''trigger.updated'' triggerId
        [(''actor'', principal_json actor), (''owner'', principal_json owner), (''fromVersion'', JStr expected),
         (''toVersion'', JStr (td_version d)), (''previousRevision'', JNum (num_of_int (ts_revision retired))),
         (''newRevision'', JNum (num_of_int (ts_revision s))), (''receiptId'', JStr receipt),
         (''confirmationId'', confirmation_json q)]) (\<lambda>_.
      ret \<lparr>ry_receiptId = receipt, ry_definition = d, ry_state = s, ry_previous = Some retired\<rparr>)))))))))))"

definition updateTrigger ::
  "control_plane \<Rightarrow> string \<Rightarrow> string \<Rightarrow> trigger_definition \<Rightarrow> trigger_request \<Rightarrow> trigger_reply act"
where
  "updateTrigger cp triggerId expected given q =
     withTriggerMutationLease cp triggerId expected (updateTriggerUnlocked cp triggerId expected given q)"

subsection \<open>Deletion, pause and resumption\<close>

text \<open>The checks that every change of an installed version starts with.\<close>

definition check_owned :: "string \<Rightarrow> string \<Rightarrow> principal \<Rightarrow> world \<Rightarrow> js_error + (trigger_definition \<times> trigger_state)" where
  "check_owned triggerId version owner w = (case find_trigger triggerId version w of
     None \<Rightarrow> Inl (coded_error ''TRIGGER_NOT_FOUND'' (''Unknown trigger '' @ triggerId @ ''@'' @ version))
   | Some d \<Rightarrow> let s = state_of triggerId version w in
       if samePrincipal (ts_owner s) owner then Inr (d, s)
       else Inl (coded_error ''TRIGGER_OWNER_MISMATCH'' ''Trigger owner mismatch''))"

text \<open>The receipt names the time of the change, \<open>updatedAt\<close> of the new state.\<close>

definition action_receipt :: "runtime \<Rightarrow> trigger_request \<Rightarrow> principal \<Rightarrow> string \<Rightarrow> string \<Rightarrow> string \<Rightarrow> trigger_state \<Rightarrow> string" where
  "action_receipt ru q actor triggerId version action s = receipt_of ru
     (join_with '':'' [triggerId, version, action, confirmed_by q actor, (case ts_updatedAt s of Some t \<Rightarrow> t | None \<Rightarrow> [])])"

definition deleteTriggerUnlocked :: "control_plane \<Rightarrow> string \<Rightarrow> string \<Rightarrow> trigger_request \<Rightarrow> trigger_reply act" where
  "deleteTriggerUnlocked cp triggerId version q =
     (let ru = cp_ru cp in
      seq (liftE (identities q ''trigger mutations'')) (\<lambda>(actor, owner).
      seq (readW (check_owned triggerId version owner)) (\<lambda>checked. seq (liftE checked) (\<lambda>(d, before).
      seq (retireMatches ru triggerId version) (\<lambda>_.
      seq (put_state ru triggerId version Deleted actor (retired_metadata owner before)) (\<lambda>s.
      let receipt = action_receipt ru q actor triggerId version ''delete'' s in
      seq (audit_trigger ru ''trigger.deleted'' triggerId
        [(''actor'', principal_json actor), (''owner'', principal_json owner), (''version'', JStr version),
         (''confirmationId'', confirmation_json q), (''receiptId'', JStr receipt)]) (\<lambda>_.
      ret \<lparr>ry_receiptId = receipt, ry_definition = d, ry_state = s, ry_previous = None\<rparr>)))))))"

definition deleteTrigger :: "control_plane \<Rightarrow> string \<Rightarrow> string \<Rightarrow> trigger_request \<Rightarrow> trigger_reply act" where
  "deleteTrigger cp triggerId version q =
     withTriggerMutationLease cp triggerId version (deleteTriggerUnlocked cp triggerId version q)"

datatype lifecycle_action = Pause | Resume

fun required_status :: "lifecycle_action \<Rightarrow> trigger_status" where
  "required_status Pause = Active"
| "required_status Resume = Paused"

fun next_status :: "lifecycle_action \<Rightarrow> trigger_status" where
  "next_status Pause = Paused"
| "next_status Resume = Active"

fun action_text :: "lifecycle_action \<Rightarrow> string" where
  "action_text Pause = ''pause''"
| "action_text Resume = ''resume''"

fun action_kind :: "lifecycle_action \<Rightarrow> string" where
  "action_kind Pause = ''trigger.paused''"
| "action_kind Resume = ''trigger.resumed''"

definition setTriggerLifecycleUnlocked ::
  "control_plane \<Rightarrow> string \<Rightarrow> string \<Rightarrow> lifecycle_action \<Rightarrow> trigger_request \<Rightarrow> trigger_reply act"
where
  "setTriggerLifecycleUnlocked cp triggerId version action q =
     (let ru = cp_ru cp in
      seq (liftE (identities q ''trigger mutations'')) (\<lambda>(actor, owner).
      seq (readW (check_owned triggerId version owner)) (\<lambda>checked. seq (liftE checked) (\<lambda>(d, before).
      if ts_status before \<noteq> required_status action then throw (coded_error ''TRIGGER_LIFECYCLE_CONFLICT''
        (''Invalid trigger lifecycle transition: '' @ trigger_status_text (ts_status before) @ '' -> '' @
         trigger_status_text (next_status action)))
      else seq (put_state ru triggerId version (next_status action) actor (fresh_metadata owner (ts_connectionIds before))) (\<lambda>s.
      let receipt = action_receipt ru q actor triggerId version (action_text action) s in
      seq (audit_trigger ru (action_kind action) triggerId
        [(''actor'', principal_json actor), (''owner'', principal_json owner), (''version'', JStr version),
         (''confirmationId'', confirmation_json q), (''receiptId'', JStr receipt),
         (''status'', JStr (trigger_status_text (next_status action)))]) (\<lambda>_.
      ret \<lparr>ry_receiptId = receipt, ry_definition = d, ry_state = s, ry_previous = None\<rparr>))))))"

definition setTriggerLifecycle ::
  "control_plane \<Rightarrow> string \<Rightarrow> string \<Rightarrow> lifecycle_action \<Rightarrow> trigger_request \<Rightarrow> trigger_reply act"
where
  "setTriggerLifecycle cp triggerId version action q =
     withTriggerMutationLease cp triggerId version (setTriggerLifecycleUnlocked cp triggerId version action q)"

definition pauseTrigger :: "control_plane \<Rightarrow> string \<Rightarrow> string \<Rightarrow> trigger_request \<Rightarrow> trigger_reply act" where
  "pauseTrigger cp triggerId version q = setTriggerLifecycle cp triggerId version Pause q"

definition resumeTrigger :: "control_plane \<Rightarrow> string \<Rightarrow> string \<Rightarrow> trigger_request \<Rightarrow> trigger_reply act" where
  "resumeTrigger cp triggerId version q = setTriggerLifecycle cp triggerId version Resume q"

end
