(* ===== verification/Wake_Coordinator.thy ===== *)
theory Wake_Coordinator
  imports Engine_Ingest
begin

text \<open>
  \<open>scripts/lib/composite-wake-coordinator.mjs\<close> and the packet of
  \<open>scripts/lib/generic-runtime-wake.mjs\<close>: a match becomes a wake, a wake is handed to the host
  under a claim of the store, and what comes back is recorded, retried or given up. The branches
  for methods that the JSONL store lacks (a dispatch fence, a deferral of busy deliveries) are those
  of the JSONL store.
\<close>

subsection \<open>The coordinator\<close>

text \<open>
  The deliverer is the host: an answer, or an exception, for every time it is called.
  \<open>co_meanwhile\<close> is what other workers do to the tables until the host has answered.
\<close>

record coordinator =
  co_workerId :: string
  co_leaseMs :: int
  co_maxAttempts :: int
  co_retryBaseDelayMs :: int
  co_retryMaxDelayMs :: int
  co_packetBuilder :: "string \<Rightarrow> trigger_match \<Rightarrow> trigger_definition \<Rightarrow> js_error + json"
  co_deliverer :: "(nat \<Rightarrow> json \<Rightarrow> js_error + json option) option"
  co_meanwhile :: "nat \<Rightarrow> world \<Rightarrow> world"

text \<open>\<open>Math.max(least, Number(n) || otherwise)\<close>.\<close>

definition at_least_or :: "int \<Rightarrow> int \<Rightarrow> int \<Rightarrow> int" where
  "at_least_or least otherwise n = max least (if n = 0 then otherwise else n)"

definition constructCoordinator :: "coordinator \<Rightarrow> int \<Rightarrow> int \<Rightarrow> int \<Rightarrow> int \<Rightarrow> coordinator" where
  "constructCoordinator base leaseMs maxAttempts baseDelay maxDelay =
     base\<lparr>co_leaseMs := at_least_or 1000 30000 leaseMs, co_maxAttempts := at_least_or 1 5 maxAttempts,
       co_retryBaseDelayMs := at_least_or 1 1000 baseDelay,
       co_retryMaxDelayMs := at_least_or (at_least_or 1 1000 baseDelay) 60000 maxDelay\<rparr>"

definition retryDelayMs :: "int \<Rightarrow> int \<Rightarrow> int \<Rightarrow> int" where
  "retryDelayMs attemptCount baseDelayMs maxDelayMs = min maxDelayMs (baseDelayMs * 2 ^ nat (max 0 (attemptCount - 1)))"

definition target_json :: "runtime_target \<Rightarrow> json" where
  "target_json t = JObj [(''runtime'', JStr (rt_runtime t)), (''kind'', JStr (rt_kind t)), (''id'', JStr (rt_id t))]"

definition source_event_refs :: "source_event list \<Rightarrow> json" where
  "source_event_refs events = JArr (map (\<lambda>e. JObj
     [(''server_id'', JStr (case serverId e of Some s \<Rightarrow> s
         | None \<Rightarrow> (case provider e of Some p \<Rightarrow> p | None \<Rightarrow> ''event-intelligence''))),
      (''event_id'', JStr (sourceEventId e)), (''event_name'', JStr (eventName e)), (''trace_id'', JStr (traceId e))])
     (drop (length events - 50) events))"

text \<open>\<open>match.sourceEvents[0]?.traceId ?? match.matchId\<close>.\<close>

definition match_trace :: "trigger_match \<Rightarrow> string" where
  "match_trace m = (case tm_sourceEvents m of [] \<Rightarrow> tm_matchId m | e # _ \<Rightarrow> traceId e)"

definition buildGenericRuntimeWakePacket :: "string \<Rightarrow> trigger_match \<Rightarrow> trigger_definition \<Rightarrow> js_error + json" where
  "buildGenericRuntimeWakePacket wakeId m d = (case td_target d of
     None \<Rightarrow> Inl (plain_error ''Composite trigger has no runtime target'')
   | Some t \<Rightarrow> Inr (JObj [(''version'', JStr ''1.0.0''), (''wake_id'', JStr wakeId),
       (''trigger_match_id'', JStr (tm_matchId m)), (''trigger_id'', JStr (tm_triggerId m)),
       (''trigger_version'', JStr (tm_triggerVersion m)), (''correlation_id'', JStr (match_trace m)),
       (''target'', target_json t), (''source_event_refs'', source_event_refs (tm_sourceEvents m)),
       (''matched_at'', ts_json (tm_updatedAt m))]))"

subsection \<open>Wake records\<close>

datatype delivery_outcome = Not_Matched | Already_Fired | No_Runtime_Target | Wake_Is_Delivered | Wake_Is_Dead |
  Wake_Is_Queued | Delivery_In_Progress | Retry_Scheduled | Claim_Lost

record delivery_result =
  dy_status :: delivery_outcome
  dy_wake :: "wake_record option"
  dy_delivery :: "wake_delivery option"
  dy_packet :: "json option"
  dy_error :: "js_error option"

definition outcome :: "delivery_outcome \<Rightarrow> wake_record option \<Rightarrow> delivery_result" where
  "outcome status wake = \<lparr>dy_status = status, dy_wake = wake, dy_delivery = None, dy_packet = None, dy_error = None\<rparr>"

definition wake_id_of :: "runtime \<Rightarrow> trigger_match \<Rightarrow> runtime_target \<Rightarrow> string" where
  "wake_id_of ru m t = hash_id ru ''wake_'' (''composite:'' @ tm_matchId m @ '':'' @ rt_runtime t @ '':'' @ rt_id t)"

definition wake_of :: "string \<Rightarrow> trigger_match \<Rightarrow> runtime_target \<Rightarrow> timestamp \<Rightarrow> wake_status \<Rightarrow> string option \<Rightarrow> wake_record" where
  "wake_of wakeId m t createdAt status receipt = \<lparr>wr_wakeId = wakeId, wr_traceId = match_trace m, wr_decisionId = None,
     wr_subscriptionId = ''trigger:'' @ tm_triggerId m, wr_sourceEventId = tm_matchId m, wr_createdAt = createdAt,
     wr_target = t, wr_status = status, wr_runtimeReceiptId = receipt\<rparr>"

definition append_wake :: "wake_record \<Rightarrow> unit act" where
  "append_wake r = (\<lambda>w. (Inr (), w\<lparr>w_wakes := appendWake r (w_wakes w)\<rparr>))"

definition latest_wake :: "string \<Rightarrow> world \<Rightarrow> wake_record option" where
  "latest_wake wakeId w = latestWake (w_wakes w) wakeId"

definition is_wake :: "wake_status \<Rightarrow> wake_record option \<Rightarrow> bool" where
  "is_wake status r \<longleftrightarrow> map_option wr_status r = Some status"

definition on_deliveries :: "(wake_table \<Rightarrow> (js_error + 'a) \<times> wake_table) \<Rightarrow> 'a act" where
  "on_deliveries f = (\<lambda>w. case f (w_deliveries w) of (x, t) \<Rightarrow> (x, w\<lparr>w_deliveries := t\<rparr>))"

text \<open>The audit records of a wake. The log is read for its length before the clock is.\<close>

definition audit_wake ::
  "runtime \<Rightarrow> wake_record \<Rightarrow> string \<Rightarrow> string \<Rightarrow> lifecycle_state option option \<Rightarrow> lifecycle_state option option \<Rightarrow> jobj \<Rightarrow> unit act"
where
  "audit_wake ru r label ak from_state to_state details =
     seq (readW (\<lambda>w. length (w_audit w))) (\<lambda>n. seq (read_now ru) (\<lambda>t. seq (appendAudit ru
       \<lparr>ai_auditId = hash_id ru ''audit_'' (wr_wakeId r @ '':'' @ label @ '':'' @ int_str (int n)),
        ai_traceId = wr_traceId r, ai_timestamp = t, ai_kind = ak, ai_entityType = ''wake'',
        ai_entityId = wr_wakeId r, ai_fromState = from_state, ai_toState = to_state, ai_details = details\<rparr>) (\<lambda>_. ret ())))"

definition audit_queued :: "runtime \<Rightarrow> trigger_match \<Rightarrow> wake_record \<Rightarrow> unit act" where
  "audit_queued ru m r = audit_wake ru r ''queued'' ''wake.queued'' None (Some (Some Wake_Queued))
     [(''triggerMatchId'', JStr (tm_matchId m)), (''triggerId'', JStr (tm_triggerId m)), (''composite'', JBool True)]"

definition persistDeliveredWake :: "wake_record \<Rightarrow> (wake_record \<times> bool) act" where
  "persistDeliveredWake r = seq (readW (latest_wake (wr_wakeId r))) (\<lambda>existing.
     if is_wake Delivered existing then ret (the existing, False)
     else seq (append_wake r) (\<lambda>_. ret (r, True)))"

subsection \<open>A delivery that was already completed\<close>

definition finalize_recovered :: "runtime \<Rightarrow> trigger_match \<Rightarrow> runtime_target \<Rightarrow> string \<Rightarrow> wake_delivery \<Rightarrow> wake_record act" where
  "finalize_recovered ru m t wakeId delivery =
     seq (readW (latest_wake wakeId)) (\<lambda>existing.
     if is_wake Delivered existing then ret (the existing)
     else seq (read_now ru) (\<lambda>now.
       seq (liftE (if wd_runtimeReceiptId delivery = None then Inl (JsError KError None ''Invalid wake record'')
         else parseWakeRecord (wake_of wakeId m t now Delivered (wd_runtimeReceiptId delivery)))) (\<lambda>r.
       seq (persistDeliveredWake r) (\<lambda>(wake, appended).
       if \<not> appended then ret wake
       else seq (audit_wake ru wake ''delivered-recovered'' ''wake.delivered'' (Some (Some Wake_Queued)) (Some (Some Wake_Delivered))
         [(''triggerMatchId'', JStr (tm_matchId m)), (''runtimeReceiptId'', nullable (wr_runtimeReceiptId wake)),
          (''recoveredFromDeliveryState'', JBool True), (''composite'', JBool True)]) (\<lambda>_. ret wake)))))"

definition deliveredResult ::
  "engine \<Rightarrow> trigger_match \<Rightarrow> runtime_target \<Rightarrow> string \<Rightarrow> wake_delivery \<Rightarrow> delivery_result act"
where
  "deliveredResult en m t wakeId delivery =
     seq (finalize_recovered (en_ru en) m t wakeId delivery) (\<lambda>wake.
     seq (if tm_status m = Fired then ret () else seq (markFired en (tm_matchId m) wakeId) (\<lambda>_. ret ())) (\<lambda>_.
     ret (outcome Wake_Is_Delivered (Some wake))))"

subsection \<open>A claimed delivery\<close>

text \<open>\<open>try { m } catch (error) { f(error) }\<close>.\<close>

definition catch_do :: "'a act \<Rightarrow> (js_error \<Rightarrow> 'a act) \<Rightarrow> 'a act" where
  "catch_do m f = (\<lambda>w. case m w of (Inl e, w') \<Rightarrow> f e w' | (Inr x, w') \<Rightarrow> (Inr x, w'))"

definition receipt_id :: "json option \<Rightarrow> string option" where
  "receipt_id receipt = (case receipt of
     Some (JObj kvs) \<Rightarrow> (case map_of kvs ''runtimeReceiptId'' of Some (JStr s) \<Rightarrow> if s = [] then None else Some s | _ \<Rightarrow> None)
   | _ \<Rightarrow> None)"

definition receipt_duplicate :: "json option \<Rightarrow> bool" where
  "receipt_duplicate receipt = (case receipt of Some (JObj kvs) \<Rightarrow> map_of kvs ''duplicate'' = Some (JBool True) | _ \<Rightarrow> False)"

text \<open>The call of the host. \<open>w_calls\<close> has the wakes handed over so far; no operation reads it.\<close>

definition call_host :: "coordinator \<Rightarrow> (nat \<Rightarrow> json \<Rightarrow> js_error + json option) \<Rightarrow> string \<Rightarrow> json \<Rightarrow> json option act" where
  "call_host co deliver wakeId packet = (\<lambda>w. let n = w_ticks w in
     (deliver n packet, co_meanwhile co n (w\<lparr>w_calls := w_calls w @ [wakeId]\<rparr>)))"

text \<open>What follows the completion of the delivery: the wake record, its audit record and the match.\<close>

definition finish_delivery ::
  "engine \<Rightarrow> trigger_match \<Rightarrow> wake_record \<Rightarrow> wake_delivery \<Rightarrow> json \<Rightarrow> json option \<Rightarrow> string \<Rightarrow> wake_delivery option \<Rightarrow>
   delivery_result act"
where
  "finish_delivery en m queued claim packet receipt receiptId delivery =
     (let ru = en_ru en in
      seq (read_now ru) (\<lambda>createdAt.
      seq (liftE (parseWakeRecord (queued\<lparr>wr_createdAt := createdAt, wr_status := Delivered,
        wr_runtimeReceiptId := Some receiptId\<rparr>))) (\<lambda>delivered.
      seq (persistDeliveredWake delivered) (\<lambda>(wake, appended).
      seq (if \<not> appended then ret () else
        audit_wake ru delivered ''delivered'' ''wake.delivered'' (Some (Some Wake_Queued)) (Some (Some Wake_Delivered))
          [(''triggerMatchId'', JStr (tm_matchId m)), (''runtimeReceiptId'', JStr receiptId),
           (''duplicate'', JBool (receipt_duplicate receipt)),
           (''attemptCount'', JNum (num_of_int (int (wd_attemptCount (case delivery of Some r \<Rightarrow> r | None \<Rightarrow> claim))))),
           (''composite'', JBool True)]) (\<lambda>_.
      seq (markFired en (tm_matchId m) (wr_wakeId queued)) (\<lambda>_.
      ret \<lparr>dy_status = Wake_Is_Delivered, dy_wake = Some wake, dy_delivery = delivery, dy_packet = Some packet,
        dy_error = None\<rparr>))))))"

definition performClaimedDelivery ::
  "engine \<Rightarrow> coordinator \<Rightarrow> (nat \<Rightarrow> json \<Rightarrow> js_error + json option) \<Rightarrow> trigger_match \<Rightarrow> trigger_definition \<Rightarrow> wake_record \<Rightarrow>
   wake_delivery \<Rightarrow> delivery_result act"
where
  "performClaimedDelivery en co deliver m d queued claim =
     (let wakeId = wr_wakeId queued in
      seq (liftE (co_packetBuilder co wakeId m d)) (\<lambda>packet.
      seq (call_host co deliver wakeId packet) (\<lambda>receipt.
      case receipt_id receipt of
        None \<Rightarrow> throw (plain_error ''Wake deliverer must return runtimeReceiptId'')
      | Some receiptId \<Rightarrow>
        seq (read_now (en_ru en)) (\<lambda>now.
        seq (on_deliveries (completeWakeDelivery wakeId (co_workerId co) (Some (int (wd_attemptCount claim))) receiptId now))
          (finish_delivery en m queued claim packet receipt receiptId)))))"

definition claimLostOutcome :: "string \<Rightarrow> wake_record \<Rightarrow> js_error \<Rightarrow> delivery_result act" where
  "claimLostOutcome wakeId persistedQueued e = readW (\<lambda>w. \<lparr>dy_status = Claim_Lost,
     dy_wake = (case latest_wake wakeId w of Some r \<Rightarrow> Some r | None \<Rightarrow> Some persistedQueued),
     dy_delivery = getWakeDelivery (w_deliveries w) wakeId, dy_packet = None, dy_error = Some e\<rparr>)"

definition claim_lost :: "js_error \<Rightarrow> bool" where
  "claim_lost e \<longleftrightarrow> err_code e = Some ''WAKE_DELIVERY_CLAIM_LOST''"

text \<open>What is recorded after the failure of an attempt.\<close>

definition report_retry ::
  "runtime \<Rightarrow> trigger_match \<Rightarrow> wake_record \<Rightarrow> wake_record \<Rightarrow> wake_delivery \<Rightarrow> wake_delivery option \<Rightarrow> js_error \<Rightarrow> delivery_result act"
where
  "report_retry ru m queued persistedQueued claim delivery e =
     (let attempts = wd_attemptCount (case delivery of Some r \<Rightarrow> r | None \<Rightarrow> claim) in
      seq (audit_wake ru queued (''retry:'' @ int_str (int attempts)) ''wake.retry_scheduled'' None None
        [(''triggerMatchId'', JStr (tm_matchId m)), (''attemptCount'', JNum (num_of_int (int attempts))),
         (''nextAttemptAt'', (case delivery of None \<Rightarrow> JNull | Some r \<Rightarrow> ts_json (wd_nextAttemptAt r))),
         (''message'', JStr (err_message e)), (''composite'', JBool True)]) (\<lambda>_.
      ret \<lparr>dy_status = Retry_Scheduled, dy_wake = Some persistedQueued, dy_delivery = delivery, dy_packet = None,
        dy_error = Some e\<rparr>))"

definition report_dead ::
  "runtime \<Rightarrow> trigger_match \<Rightarrow> wake_record \<Rightarrow> wake_delivery \<Rightarrow> js_error \<Rightarrow> delivery_result act"
where
  "report_dead ru m queued delivery e =
     seq (read_now ru) (\<lambda>createdAt.
     seq (liftE (parseWakeRecord (queued\<lparr>wr_createdAt := createdAt, wr_status := Dead\<rparr>))) (\<lambda>deadLetter.
     seq (append_wake deadLetter) (\<lambda>_.
     seq (audit_wake ru deadLetter ''dead-letter'' ''wake.dead_letter'' (Some (Some Wake_Queued)) (Some (Some Dead_Letter))
       [(''triggerMatchId'', JStr (tm_matchId m)), (''attemptCount'', JNum (num_of_int (int (wd_attemptCount delivery)))),
        (''message'', JStr (err_message e)), (''composite'', JBool True)]) (\<lambda>_.
     ret \<lparr>dy_status = Wake_Is_Dead, dy_wake = Some deadLetter, dy_delivery = Some delivery, dy_packet = None,
       dy_error = Some e\<rparr>))))"

definition record_failure :: "runtime \<Rightarrow> coordinator \<Rightarrow> string \<Rightarrow> wake_delivery \<Rightarrow> js_error \<Rightarrow> wake_delivery option act" where
  "record_failure ru co wakeId claim e =
     (let hostAttempt = max 1 (int (wd_attemptCount claim));
          delay = retryDelayMs hostAttempt (co_retryBaseDelayMs co) (co_retryMaxDelayMs co) in
      seq (read_now ru) (\<lambda>failureAt.
      seq (liftE (toISOString (time_clip (ts_ms failureAt + delay)))) (\<lambda>nextAttemptAt.
      on_deliveries (failWakeDelivery wakeId (co_workerId co) (Some (int (wd_attemptCount claim))) (err_message e) failureAt
        (co_maxAttempts co) nextAttemptAt))))"

definition after_failure ::
  "runtime \<Rightarrow> coordinator \<Rightarrow> trigger_match \<Rightarrow> wake_record \<Rightarrow> wake_record \<Rightarrow> wake_delivery \<Rightarrow> js_error \<Rightarrow> delivery_result act"
where
  "after_failure ru co m queued persistedQueued claim e =
     (let wakeId = wr_wakeId queued in
      if claim_lost e then claimLostOutcome wakeId persistedQueued e
      else seq (catch_do (seq (record_failure ru co wakeId claim e) (\<lambda>delivery. ret (Inr delivery)))
          (\<lambda>failError. if claim_lost failError then seq (claimLostOutcome wakeId persistedQueued failError) (\<lambda>r. ret (Inl r))
             else throw failError)) (\<lambda>recorded. case recorded of
            Inl gone \<Rightarrow> ret gone
          | Inr None \<Rightarrow> report_retry ru m queued persistedQueued claim None e
          | Inr (Some delivery) \<Rightarrow>
              if wd_status delivery \<noteq> WDeadLetter then report_retry ru m queued persistedQueued claim (Some delivery) e
              else report_dead ru m queued delivery e))"

subsection \<open>Delivery of a match\<close>

definition queue_wake :: "runtime \<Rightarrow> trigger_match \<Rightarrow> wake_record \<Rightarrow> wake_record act" where
  "queue_wake ru m queued = seq (readW (latest_wake (wr_wakeId queued))) (\<lambda>existing. case existing of
     Some r \<Rightarrow> ret r
   | None \<Rightarrow> seq (append_wake queued) (\<lambda>_. seq (audit_queued ru m queued) (\<lambda>_. ret queued)))"

text \<open>Without a deliverer the wake is queued for someone else; \<open>latestWake\<close> is read again at the end.\<close>

definition only_queue :: "runtime \<Rightarrow> trigger_match \<Rightarrow> wake_record \<Rightarrow> bool \<Rightarrow> delivery_result act" where
  "only_queue ru m queued fresh =
     seq (if fresh then seq (append_wake queued) (\<lambda>_. audit_queued ru m queued) else ret ()) (\<lambda>_.
     readW (\<lambda>w. outcome Wake_Is_Queued (Some (case latest_wake (wr_wakeId queued) w of Some r \<Rightarrow> r | None \<Rightarrow> queued))))"

definition attempt_delivery ::
  "engine \<Rightarrow> coordinator \<Rightarrow> (nat \<Rightarrow> json \<Rightarrow> js_error + json option) \<Rightarrow> trigger_match \<Rightarrow> trigger_definition \<Rightarrow> wake_record \<Rightarrow>
   timestamp \<Rightarrow> delivery_result act"
where
  "attempt_delivery en co deliver m d queued now =
     (let ru = en_ru en; wakeId = wr_wakeId queued in
      seq (on_deliveries (claimWakeDelivery wakeId (co_workerId co) now (co_leaseMs co))) (\<lambda>claimed. case claimed of
        None \<Rightarrow> readW (\<lambda>w. let delivery = getWakeDelivery (w_deliveries w) wakeId in
          \<lparr>dy_status = (if map_option wd_status delivery = Some WClaimed then Delivery_In_Progress else Retry_Scheduled),
           dy_wake = Some (case latest_wake wakeId w of Some r \<Rightarrow> r | None \<Rightarrow> queued), dy_delivery = delivery,
           dy_packet = None, dy_error = None\<rparr>)
      | Some claim \<Rightarrow> seq (queue_wake ru m queued) (\<lambda>persistedQueued.
          catch_do (performClaimedDelivery en co deliver m d queued claim)
            (after_failure ru co m queued persistedQueued claim))))"

definition deliver_wake ::
  "engine \<Rightarrow> coordinator \<Rightarrow> (nat \<Rightarrow> json \<Rightarrow> js_error + json option) \<Rightarrow> trigger_match \<Rightarrow> trigger_definition \<Rightarrow> runtime_target \<Rightarrow>
   wake_record \<Rightarrow> delivery_result act"
where
  "deliver_wake en co deliver m d t queued =
     (let ru = en_ru en; wakeId = wr_wakeId queued in
      seq (read_now ru) (\<lambda>now.
      seq (on_deliveries (ensureWakeDelivery \<lparr>ei_wakeId = wakeId, ei_matchId = tm_matchId m, ei_triggerId = tm_triggerId m,
        ei_triggerVersion = Some (tm_triggerVersion m), ei_runtime = rt_runtime t, ei_now = now\<rparr>)) (\<lambda>_.
      seq (readW (\<lambda>w. getWakeDelivery (w_deliveries w) wakeId)) (\<lambda>current.
      if map_option wd_status current = Some WDelivered then deliveredResult en m t wakeId (the current)
      else if map_option wd_status current = Some WDeadLetter then
        seq (read_now ru) (\<lambda>createdAt.
        seq (liftE (parseWakeRecord (queued\<lparr>wr_createdAt := createdAt, wr_status := Dead\<rparr>))) (\<lambda>deadLetter.
        seq (append_wake deadLetter) (\<lambda>_. ret (outcome Wake_Is_Dead (Some deadLetter)))))
      else attempt_delivery en co deliver m d queued now))))"

definition deliverMatched :: "engine \<Rightarrow> coordinator \<Rightarrow> trigger_match \<Rightarrow> delivery_result act" where
  "deliverMatched en co m =
     (let ru = en_ru en in
      if tm_status m = Fired then
        readW (\<lambda>w. outcome Already_Fired (Option.bind (opt_or (tm_firedWakeId m) None) (\<lambda>i. latest_wake i w)))
      else if tm_status m \<noteq> Matched then ret (outcome Not_Matched None)
      else seq (readW (\<lambda>w. getTrigger (w_triggers w) (tm_triggerId m) (tm_triggerVersion m))) (\<lambda>found. case found of
          None \<Rightarrow> throw (plain_error (''Trigger definition not found for '' @ tm_triggerId m @ ''@'' @ tm_triggerVersion m))
        | Some d \<Rightarrow> (case td_target d of
            None \<Rightarrow> ret (outcome No_Runtime_Target None)
          | Some t \<Rightarrow> let wakeId = wake_id_of ru m t in
              seq (readW (latest_wake wakeId)) (\<lambda>existingWake.
              if is_wake Delivered existingWake then
                seq (markFired en (tm_matchId m) wakeId) (\<lambda>_. ret (outcome Wake_Is_Delivered existingWake))
              else if is_wake Dead existingWake then ret (outcome Wake_Is_Dead existingWake)
              else seq (read_now ru) (\<lambda>createdAt.
                seq (liftE (parseWakeRecord (wake_of wakeId m t createdAt Queued None))) (\<lambda>queued.
                case co_deliverer co of
                  None \<Rightarrow> only_queue ru m queued (existingWake = None)
                | Some deliver \<Rightarrow> deliver_wake en co deliver m d t queued))))))"

end
