(* ===== verification/Event_Consumer.thy ===== *)
theory Event_Consumer
  imports Derived_Coordinator Wake_Coordinator
begin

text \<open>
  \<open>scripts/lib/composite-event-consumer.mjs\<close>: an event goes through the engine, its matches become
  derived events, which go through the engine again, and wakes.
\<close>

subsection \<open>The consumer\<close>

text \<open>
  \<open>cs_coordinators\<close> answers \<open>coordinatorFor\<close>: the coordinator of a runtime, or the one for all.
  Timings and emitted observations are left out.
\<close>

record consumer =
  cs_engine :: engine
  cs_derives :: bool
  cs_maxDerivedDepth :: nat
  cs_coordinators :: "string \<Rightarrow> coordinator option"

text \<open>\<open>Math.max(1, Number(maxDerivedDepth) || 16)\<close>.\<close>

definition derived_depth_limit :: "int \<Rightarrow> nat" where
  "derived_depth_limit n = nat (max 1 (if n = 0 then 16 else n))"

definition coordinatorFor :: "(string \<times> coordinator) list \<Rightarrow> coordinator option \<Rightarrow> string \<Rightarrow> coordinator option" where
  "coordinatorFor configured otherwise runtime = (case map_of configured runtime of Some co \<Rightarrow> Some co | None \<Rightarrow> otherwise)"

datatype delivery_note = Definition_Missing | Runtime_Unconfigured | Attempted delivery_outcome

record delivery_summary =
  ds_triggerId :: string
  ds_matchId :: string
  ds_wakeId :: "string option"
  ds_status :: delivery_note
  ds_receipt :: "string option"

record derived_summary =
  vs_triggerId :: string
  vs_matchId :: string
  vs_emission :: emission_status
  vs_eventId :: "string option"
  vs_eventName :: string

text \<open>The result of \<open>ingestCorrelatable\<close>; each derived event carries the result of its own ingestion.\<close>

datatype ingest_summary = Ingest_Summary (summary_event: correlatable_event) (summary_results: "ingest_result list")
  (summary_deliveries: "delivery_summary list") (summary_derived: "(derived_summary \<times> ingest_summary option) list")

subsection \<open>One match\<close>

text \<open>What one match adds to the lists of deliveries and of derived events.\<close>

type_synonym consumed = "delivery_summary list \<times> (derived_summary \<times> ingest_summary option) list"

definition derived_error :: "nat \<Rightarrow> js_error" where
  "derived_error limit = coded_error ''DERIVED_EVENT_CHAIN_DEPTH_EXCEEDED''
     (''Derived event chain exceeded max depth '' @ int_str (int limit))"

definition emit_and_enter ::
  "consumer \<Rightarrow> (correlatable_event \<Rightarrow> ingest_summary act) option \<Rightarrow> ingest_result \<Rightarrow> trigger_match \<Rightarrow> trigger_definition \<Rightarrow>
   derived_event_definition \<Rightarrow> (derived_summary \<times> ingest_summary option) act"
where
  "emit_and_enter cs deeper r m d s = (case deeper of
     None \<Rightarrow> throw (derived_error (cs_maxDerivedDepth cs))
   | Some nested \<Rightarrow>
       seq (emitMatched (en_ru (cs_engine cs)) m d) (\<lambda>e.
       let summary = \<lparr>vs_triggerId = ir_triggerId r, vs_matchId = tm_matchId m, vs_emission = em_status e,
         vs_eventId = map_option (\<lambda>x. ce_sourceEventId (dr_event x)) (em_record e),
         vs_eventName = (case em_record e of Some x \<Rightarrow> ce_name (dr_event x) | None \<Rightarrow> de_name s)\<rparr> in
       case em_record e of
         None \<Rightarrow> ret (summary, None)
       | Some x \<Rightarrow> seq (nested (dr_event x)) (\<lambda>inner.
           seq (if td_target d = None
             then seq (markDerivedEmitted (cs_engine cs) (tm_matchId m) (ce_sourceEventId (dr_event x))) (\<lambda>_. ret ())
             else ret ()) (\<lambda>_. ret (summary, Some inner)))))"

definition deliver_match :: "consumer \<Rightarrow> ingest_result \<Rightarrow> trigger_match \<Rightarrow> runtime_target \<Rightarrow> delivery_summary act" where
  "deliver_match cs r m t = (case cs_coordinators cs (rt_runtime t) of
     None \<Rightarrow> ret \<lparr>ds_triggerId = ir_triggerId r, ds_matchId = tm_matchId m, ds_wakeId = None,
       ds_status = Runtime_Unconfigured, ds_receipt = None\<rparr>
   | Some co \<Rightarrow> seq (deliverMatched (cs_engine cs) co m) (\<lambda>x.
       ret \<lparr>ds_triggerId = ir_triggerId r, ds_matchId = tm_matchId m, ds_wakeId = map_option wr_wakeId (dy_wake x),
         ds_status = Attempted (dy_status x), ds_receipt = Option.bind (dy_wake x) wr_runtimeReceiptId\<rparr>))"

definition consume_match ::
  "consumer \<Rightarrow> (correlatable_event \<Rightarrow> ingest_summary act) option \<Rightarrow> ingest_result \<Rightarrow> trigger_match \<Rightarrow> consumed act"
where
  "consume_match cs deeper r m =
     seq (readW (\<lambda>w. getTrigger (w_triggers w) (tm_triggerId m) (tm_triggerVersion m))) (\<lambda>found. case found of
       None \<Rightarrow> ret ([\<lparr>ds_triggerId = ir_triggerId r, ds_matchId = tm_matchId m, ds_wakeId = None,
         ds_status = Definition_Missing, ds_receipt = None\<rparr>], [])
     | Some d \<Rightarrow>
         seq (case (td_derivedEvent d, cs_derives cs) of
             (Some s, True) \<Rightarrow> seq (emit_and_enter cs deeper r m d s) (\<lambda>x. ret [x])
           | _ \<Rightarrow> ret []) (\<lambda>derived.
         case td_target d of
           None \<Rightarrow> ret ([], derived)
         | Some t \<Rightarrow> seq (deliver_match cs r m t) (\<lambda>x. ret ([x], derived))))"

subsection \<open>One event\<close>

fun consume_all ::
  "consumer \<Rightarrow> (correlatable_event \<Rightarrow> ingest_summary act) option \<Rightarrow> ingest_result list \<Rightarrow> consumed \<Rightarrow> consumed act"
where
  "consume_all cs deeper [] acc = ret acc"
| "consume_all cs deeper (r # rs) acc = (case (ir_matched r, ir_match r) of
     (True, Some m) \<Rightarrow> seq (consume_match cs deeper r m) (\<lambda>(deliveries, derived).
       consume_all cs deeper rs (fst acc @ deliveries, snd acc @ derived))
   | _ \<Rightarrow> consume_all cs deeper rs acc)"

text \<open>
  The depth is counted down: at level \<open>0\<close>, which is \<open>derivedDepth >= maxDerivedDepth\<close>, no further
  derived event is entered, so the recursion ends without fuel.
\<close>

fun ingest_at :: "consumer \<Rightarrow> nat \<Rightarrow> correlatable_event \<Rightarrow> ingest_summary act" where
  "ingest_at cs 0 event = seq (ingest (cs_engine cs) event) (\<lambda>results.
     seq (consume_all cs None results ([], [])) (\<lambda>(deliveries, derived). ret (Ingest_Summary event results deliveries derived)))"
| "ingest_at cs (Suc k) event = seq (ingest (cs_engine cs) event) (\<lambda>results.
     seq (consume_all cs (Some (ingest_at cs k)) results ([], [])) (\<lambda>(deliveries, derived).
     ret (Ingest_Summary event results deliveries derived)))"

definition ingestCorrelatable :: "consumer \<Rightarrow> correlatable_event \<Rightarrow> ingest_summary act" where
  "ingestCorrelatable cs event = ingest_at cs (cs_maxDerivedDepth cs) event"

subsection \<open>Correlatable events\<close>

text \<open>
  \<open>parseCorrelatableEvent\<close> of \<open>src/intelligenceProtocol/triggerSchemas.ts\<close>: the value is copied, then
  checked against the schema. A timestamp is what \<open>parse\<close>, the parser of the schema library, makes
  of a text.
\<close>

definition seqE :: "js_error + 'a \<Rightarrow> ('a \<Rightarrow> js_error + 'b) \<Rightarrow> js_error + 'b" where
  "seqE m f = (case m of Inl e \<Rightarrow> Inl e | Inr x \<Rightarrow> f x)"

definition invalid_event :: "js_error + 'a" where
  "invalid_event = Inl (JsError KError None ''Invalid correlatable event'')"

definition text_field :: "jobj \<Rightarrow> string \<Rightarrow> js_error + string" where
  "text_field kvs k = (case map_of kvs k of Some (JStr s) \<Rightarrow> Inr s | _ \<Rightarrow> invalid_event)"

definition optional_text :: "jobj \<Rightarrow> string \<Rightarrow> js_error + string option" where
  "optional_text kvs k = (case map_of kvs k of None \<Rightarrow> Inr None | Some (JStr s) \<Rightarrow> Inr (Some s) | _ \<Rightarrow> invalid_event)"

definition record_field :: "jobj \<Rightarrow> string \<Rightarrow> jobj option \<Rightarrow> js_error + jobj" where
  "record_field kvs k otherwise = (case map_of kvs k of
     Some (JObj fs) \<Rightarrow> Inr fs
   | None \<Rightarrow> (case otherwise of Some fs \<Rightarrow> Inr fs | None \<Rightarrow> invalid_event)
   | _ \<Rightarrow> invalid_event)"

definition parsed_time :: "(string \<Rightarrow> timestamp option) \<Rightarrow> string \<Rightarrow> js_error + timestamp" where
  "parsed_time parse s = (case parse s of Some t \<Rightarrow> Inr t | None \<Rightarrow> invalid_event)"

definition correlatable_schema :: "(string \<Rightarrow> timestamp option) \<Rightarrow> jobj \<Rightarrow> js_error + correlatable_event" where
  "correlatable_schema parse kvs =
     seqE (text_field kvs ''traceId'') (\<lambda>tr. seqE (text_field kvs ''sourceEventId'') (\<lambda>i.
     seqE (text_field kvs ''name'') (\<lambda>name. seqE (text_field kvs ''occurredAt'') (\<lambda>at_text.
     seqE (parsed_time parse at_text) (\<lambda>occurred. seqE (optional_text kvs ''receivedAt'') (\<lambda>received_text.
     seqE (case received_text of None \<Rightarrow> Inr None
       | Some s \<Rightarrow> seqE (parsed_time parse s) (\<lambda>t. Inr (Some t))) (\<lambda>received.
     seqE (optional_text kvs ''provider'') (\<lambda>prov. seqE (optional_text kvs ''serverId'') (\<lambda>server.
     seqE (record_field kvs ''subscriptionArguments'' (Some [])) (\<lambda>arguments.
     seqE (optional_text kvs ''payloadHash'') (\<lambda>hash. seqE (record_field kvs ''data'' None) (\<lambda>data.
     let e = \<lparr>ce_traceId = tr, ce_sourceEventId = i, ce_name = name, ce_occurredAt = occurred, ce_receivedAt = received,
       ce_provider = prov, ce_serverId = server, ce_subscriptionArguments = arguments, ce_payloadHash = hash, ce_data = data\<rparr>
     in if correlatable_ok e then Inr e else invalid_event))))))))))))"

definition parseCorrelatableEvent :: "(string \<Rightarrow> timestamp option) \<Rightarrow> raw \<Rightarrow> js_error + correlatable_event" where
  "parseCorrelatableEvent parse value = seqE (snapshotUntrustedEventData value) (\<lambda>safe.
     case safe of JObj kvs \<Rightarrow> correlatable_schema parse kvs | _ \<Rightarrow> invalid_event)"

subsection \<open>Occurrences of a provider\<close>

text \<open>\<open>src/mcpEvents/consumer.ts\<close>: the provider's object is copied before anything of it is read.\<close>

record occurrence_context =
  oc_traceId :: string
  oc_provider :: "string option"
  oc_serverId :: "string option"
  oc_arguments :: "raw option"
  oc_receivedAt :: "string option"

definition raw_field :: "json \<Rightarrow> string \<Rightarrow> raw" where
  "raw_field v k = (case object_field (Some v) k of Some u \<Rightarrow> embed u 1 | None \<Rightarrow> RUndef)"

definition raw_entry :: "string \<Rightarrow> raw \<Rightarrow> (string \<times> bool \<times> raw option) list" where
  "raw_entry k v = [(k, True, Some v)]"

definition raw_text :: "string \<Rightarrow> string option \<Rightarrow> (string \<times> bool \<times> raw option) list" where
  "raw_text k s = (if truthy_str s then raw_entry k (RStr (the s)) else [])"

definition mcpOccurrenceToCorrelatableEvent ::
  "runtime \<Rightarrow> (string \<Rightarrow> timestamp option) \<Rightarrow> raw \<Rightarrow> occurrence_context \<Rightarrow> js_error + correlatable_event"
where
  "mcpOccurrenceToCorrelatableEvent ru parse occurrence c =
     seqE (snapshotUntrustedEventData occurrence) (\<lambda>safe.
     seqE (case oc_arguments c of None \<Rightarrow> Inr (JObj []) | Some a \<Rightarrow> snapshotUntrustedEventData a) (\<lambda>args.
     if safe = JNull then Inl (JsError KTypeError None ''Cannot read properties of null'')
     else let hash = (case object_field (Some safe) ''data'' of
            Some v \<Rightarrow> sha256Hex_value (ru_host ru) (ru_sha ru) v | None \<Rightarrow> ru_sha ru [])
       in parseCorrelatableEvent parse (RObj 0
         (raw_entry ''traceId'' (RStr (oc_traceId c)) @ raw_entry ''sourceEventId'' (raw_field safe ''eventId'') @
          raw_entry ''name'' (raw_field safe ''name'') @ raw_entry ''occurredAt'' (raw_field safe ''timestamp'') @
          raw_text ''receivedAt'' (oc_receivedAt c) @ raw_text ''provider'' (oc_provider c) @
          raw_text ''serverId'' (oc_serverId c) @ raw_entry ''subscriptionArguments'' (embed args 1) @
          raw_entry ''payloadHash'' (RStr hash) @ raw_entry ''data'' (raw_field safe ''data'')) False)))"

definition ingestMcpOccurrence ::
  "consumer \<Rightarrow> (string \<Rightarrow> timestamp option) \<Rightarrow> raw \<Rightarrow> occurrence_context \<Rightarrow> ingest_summary act"
where
  "ingestMcpOccurrence cs parse occurrence c =
     seq (liftE (mcpOccurrenceToCorrelatableEvent (en_ru (cs_engine cs)) parse occurrence c)) (ingestCorrelatable cs)"

end
