(* ===== verification/Mcp_Input.thy ===== *)
theory Mcp_Input
  imports Control_Plane Event_Consumer
begin

text \<open>
  What \<open>scripts/lib/mcp-events-client.mjs\<close> makes of the values of a provider before anything is
  stored: errors, capabilities, descriptors of event sources, pages of events. A value is what the
  process receives, with getters and proxies; only own data properties are read.
\<close>

subsection \<open>Own data\<close>

text \<open>\<open>Object.getOwnPropertyDescriptor\<close>: no property, an accessor, or a value.\<close>

definition own_slot :: "raw \<Rightarrow> string \<Rightarrow> raw option option" where
  "own_slot v k = (case v of RObj a ps symbols \<Rightarrow> map_option snd (map_of ps k) | _ \<Rightarrow> None)"

definition ownData :: "raw \<Rightarrow> string \<Rightarrow> raw" where
  "ownData v k = (case own_slot v k of Some (Some u) \<Rightarrow> u | _ \<Rightarrow> RUndef)"

definition raw_null :: "raw \<Rightarrow> bool" where
  "raw_null v \<longleftrightarrow> v = RUndef \<or> v = RNull"

subsection \<open>Errors of the provider\<close>

text \<open>\<open>mcp-provider-terminal-error.mjs\<close>.\<close>

datatype terminal_error = Forbidden | Not_Found

definition classifyTerminalMcpProviderError :: "raw \<Rightarrow> terminal_error option" where
  "classifyTerminalMcpProviderError e = (let code = ownData e ''code''; k = ownData (ownData e ''data'') ''kind'' in
     if code \<noteq> RNum (Fin (-32023)) \<and> code \<noteq> RNum (Fin (-32024)) then None
     else if k \<notin> set [RStr ''event'', RStr ''subscription'', RStr ''connection''] then None
     else if code = RNum (Fin (-32023)) \<and> k = RStr ''connection'' then None
     else if code = RNum (Fin (-32024)) then Some Forbidden else Some Not_Found)"

definition provider_error :: js_error where
  "provider_error = coded_error ''MCP_EVENTS_PROVIDER_REQUEST_FAILED'' ''MCP Events provider operation failed''"

subsection \<open>Bytes\<close>

definition decoded_bytes :: "json \<Rightarrow> nat" where
  "decoded_bytes v = utf8_size (map of_char (stringify v))"

definition byte_limit_error :: js_error where
  "byte_limit_error = coded_error ''MCP_EVENTS_DECODED_BYTE_LIMIT_EXCEEDED'' ''MCP Events decoded input exceeds configured byte budget''"

definition assertDecodedMcpBytes :: "json \<Rightarrow> nat \<Rightarrow> js_error + nat" where
  "assertDecodedMcpBytes v limit = (if limit < decoded_bytes v then Inl byte_limit_error else Inr (decoded_bytes v))"

subsection \<open>Capabilities and profiles\<close>

definition MCP_EVENTS_EXTENSION_ID :: string where
  "MCP_EVENTS_EXTENSION_ID = ''io.modelcontextprotocol/events''"

text \<open>Whether the extension is advertised; an unsafe value throws.\<close>

definition safeMcpCapabilities :: "raw \<Rightarrow> js_error + bool" where
  "safeMcpCapabilities v = (let bad = Inl (coded_error ''MCP_EVENTS_CAPABILITY_INVALID'' ''MCP Events capabilities are unsafe'') in
     if raw_null v then Inr False
     else case v of
       RObj a ps symbols \<Rightarrow> (case own_slot v ''extensions'' of
           None \<Rightarrow> Inr False
         | Some None \<Rightarrow> bad
         | Some (Some extensions) \<Rightarrow> (case own_slot extensions MCP_EVENTS_EXTENSION_ID of
               None \<Rightarrow> Inr False | Some None \<Rightarrow> bad | Some (Some u) \<Rightarrow> Inr True))
     | _ \<Rightarrow> bad)"

text \<open>\<open>mcp-events-compatibility.mjs\<close>; there is one profile, with all modes of delivery.\<close>

definition compatibility_profile :: string where
  "compatibility_profile = ''experimental-extension-2026-09-25''"

definition delivery_modes :: "string list" where
  "delivery_modes = [''poll'', ''push'', ''webhook'']"

definition getMcpEventsCompatibilityProfile :: "string \<Rightarrow> js_error + string" where
  "getMcpEventsCompatibilityProfile profileId =
     (let i = (if profileId = [] \<or> profileId = ''auto'' then compatibility_profile else profileId) in
      if i = compatibility_profile then Inr i
      else Inl (coded_error ''MCP_EVENTS_PROFILE_UNKNOWN'' (''Unknown MCP Events compatibility profile: '' @ i)))"

definition resolveMcpEventsCompatibilityProfile :: "bool \<Rightarrow> string \<Rightarrow> js_error + string option" where
  "resolveMcpEventsCompatibilityProfile advertised requested = (case getMcpEventsCompatibilityProfile requested of
     Inl e \<Rightarrow> Inl e | Inr p \<Rightarrow> Inr (if advertised then Some p else None))"

subsection \<open>Descriptors\<close>

record event_descriptor =
  ed_name :: string
  ed_description :: string
  ed_delivery :: "string list"
  ed_inputSchema :: json
  ed_payloadSchema :: json
  ed_meta :: "json option"

definition MAX_MCP_EVENT_DISCOVERY_PAGES :: nat where
  "MAX_MCP_EVENT_DISCOVERY_PAGES = 32"

definition MAX_MCP_EVENT_DISCOVERY_SOURCES :: nat where
  "MAX_MCP_EVENT_DISCOVERY_SOURCES = 256"

definition MAX_MCP_EVENT_CURSOR_BYTES :: nat where
  "MAX_MCP_EVENT_CURSOR_BYTES = 4096"

definition discoveryLimitError :: "string \<Rightarrow> js_error" where
  "discoveryLimitError detail = coded_error ''MCP_EVENTS_DISCOVERY_LIMIT_EXCEEDED'' (''MCP Events discovery rejected: '' @ detail)"

text \<open>The list of events and the next cursor of a page.\<close>

definition ownDiscoveryPage :: "string \<Rightarrow> raw \<Rightarrow> js_error + (raw option list \<times> raw)" where
  "ownDiscoveryPage connectionId v = (case (own_slot v ''events'', own_slot v ''nextCursor'') of
     (Some (Some (RArr a es)), None) \<Rightarrow> Inr (es, RUndef)
   | (Some (Some (RArr a es)), Some (Some c)) \<Rightarrow> Inr (es, c)
   | _ \<Rightarrow> Inl (coded_error ''MCP_EVENTS_DISCOVERY_PAGE_INVALID''
       (''MCP server '' @ connectionId @ '' returned unsafe events/list page'')))"

definition DISCOVERY_DESCRIPTOR_FIELDS :: "string list" where
  "DISCOVERY_DESCRIPTOR_FIELDS = [''name'', ''description'', ''delivery'', ''inputSchema'', ''payloadSchema'', ''_meta'']"

text \<open>A new object, with the identity \<open>i\<close>, of the fields that are read.\<close>

definition stageDiscoveryDescriptor :: "nat \<Rightarrow> raw \<Rightarrow> js_error + raw" where
  "stageDiscoveryDescriptor i v = (case v of
     RObj a ps symbols \<Rightarrow>
       if list_ex (\<lambda>f. own_slot v f = Some None) DISCOVERY_DESCRIPTOR_FIELDS
       then Inl (coded_error ''EVENT_UNTRUSTED_DATA_INVALID'' ''MCP Events discovery rejected: unsafe descriptor'')
       else Inr (RObj i (concat (map (\<lambda>f. case own_slot v f of Some (Some u) \<Rightarrow> [(f, True, Some u)] | _ \<Rightarrow> [])
         DISCOVERY_DESCRIPTOR_FIELDS)) False)
   | _ \<Rightarrow> Inl (coded_error ''EVENT_UNTRUSTED_DATA_INVALID'' ''MCP Events discovery rejected: unsafe descriptor''))"

fun stage_all :: "nat \<Rightarrow> raw option list \<Rightarrow> js_error + raw option list" where
  "stage_all i [] = Inr []"
| "stage_all i (None # es) = Inl (coded_error ''EVENT_UNTRUSTED_DATA_INVALID''
     ''MCP Events discovery rejected: unsafe descriptor array slot'')"
| "stage_all i (Some v # es) = (case stageDiscoveryDescriptor i v of Inl e \<Rightarrow> Inl e
     | Inr d \<Rightarrow> (case stage_all i es of Inl e \<Rightarrow> Inl e | Inr ds \<Rightarrow> Inr (Some d # ds)))"

text \<open>An identity that none of the objects has; the staged objects are copied one after the other.\<close>

primrec raw_ids :: "raw \<Rightarrow> nat list" where
  "raw_ids RUndef = []"
| "raw_ids ROther = []"
| "raw_ids RNull = []"
| "raw_ids (RBool b) = []"
| "raw_ids (RNum n) = []"
| "raw_ids (RStr s) = []"
| "raw_ids RProxy = []"
| "raw_ids (RArr a es) = a # concat (map (\<lambda>v. case v of None \<Rightarrow> [] | Some is \<Rightarrow> is) (map (map_option raw_ids) es))"
| "raw_ids (RObj a ps symbols) =
     a # concat (map (\<lambda>p. case snd (snd p) of None \<Rightarrow> [] | Some is \<Rightarrow> is) (map (map_prod id (map_prod id (map_option raw_ids))) ps))"

definition fresh_identity :: "raw option list \<Rightarrow> nat" where
  "fresh_identity es = Suc (fold max (concat (map (\<lambda>v. case v of None \<Rightarrow> [] | Some u \<Rightarrow> raw_ids u) es)) 0)"

definition plain_object :: "json option \<Rightarrow> json option" where
  "plain_object v = (case v of Some (JObj kvs) \<Rightarrow> Some (JObj kvs) | _ \<Rightarrow> None)"

definition object_or_blank :: "json option \<Rightarrow> json" where
  "object_or_blank v = (case plain_object v of Some u \<Rightarrow> u | None \<Rightarrow> JObj [])"

definition sourceDescriptor :: "json \<Rightarrow> js_error + event_descriptor" where
  "sourceDescriptor v = (case v of
     JObj kvs \<Rightarrow>
       (let name = trim_ws (text_or_empty (map_of kvs ''name''));
            delivery = (case map_of kvs ''delivery'' of Some (JArr vs) \<Rightarrow> map js_string vs | _ \<Rightarrow> [])
        in if name = [] then Inl (plain_error ''MCP event descriptor requires name'')
           else if delivery = [] \<or> list_ex (\<lambda>m. m \<notin> set delivery_modes) delivery
           then Inl (plain_error (''MCP event descriptor '' @ name @ '' has invalid delivery modes''))
           else Inr \<lparr>ed_name = name, ed_description = text_or_empty (map_of kvs ''description''), ed_delivery = delivery,
             ed_inputSchema = object_or_blank (map_of kvs ''inputSchema''),
             ed_payloadSchema = object_or_blank (map_of kvs ''payloadSchema''), ed_meta = plain_object (map_of kvs ''_meta'')\<rparr>)
   | _ \<Rightarrow> Inl (plain_error ''Invalid MCP event descriptor''))"

fun add_descriptors :: "json list \<Rightarrow> event_descriptor list \<Rightarrow> js_error + event_descriptor list" where
  "add_descriptors [] ds = Inr ds"
| "add_descriptors (v # vs) ds = (case sourceDescriptor v of Inl e \<Rightarrow> Inl e
     | Inr d \<Rightarrow> if ed_name d \<in> set (map ed_name ds)
         then Inl (coded_error ''MCP_EVENTS_DUPLICATE_DESCRIPTOR_NAME'' ''MCP Events discovery rejected: duplicate event descriptor'')
         else add_descriptors vs (ds @ [d]))"

definition stage_page :: "nat \<Rightarrow> raw option list \<Rightarrow> event_descriptor list \<Rightarrow> js_error + event_descriptor list" where
  "stage_page maxBytes es ds = (let i = fresh_identity es in
     case stage_all i es of Inl e \<Rightarrow> Inl e
     | Inr staged \<Rightarrow> (case snapshotUntrustedEventData (RArr (Suc i) staged) of
         Inl e \<Rightarrow> Inl e
       | Inr safe \<Rightarrow> (case assertDecodedMcpBytes safe maxBytes of
           Inl e \<Rightarrow> Inl e
         | Inr n \<Rightarrow> (case safe of JArr vs \<Rightarrow> add_descriptors vs ds | _ \<Rightarrow> Inr ds))))"

text \<open>The cursor is checked before the descriptors of its page.\<close>

definition next_list_cursor :: "raw \<Rightarrow> string list \<Rightarrow> js_error + string option" where
  "next_list_cursor v seen = (case v of
     RStr s \<Rightarrow>
       if s = [] then Inr None
       else if MAX_MCP_EVENT_CURSOR_BYTES < utf8_size (map of_char s) then Inl (discoveryLimitError ''events/list cursor too long'')
       else if s \<in> set seen then Inl (discoveryLimitError ''events/list cursor cycle'')
       else Inr (Some s)
   | _ \<Rightarrow> if raw_null v then Inr None
       else Inl (coded_error ''MCP_EVENTS_DISCOVERY_CURSOR_INVALID'' ''MCP Events discovery rejected: invalid events/list cursor type''))"

definition list_page ::
  "string \<Rightarrow> nat \<Rightarrow> raw \<Rightarrow> string list \<Rightarrow> event_descriptor list \<Rightarrow> js_error + (string option \<times> event_descriptor list)"
where
  "list_page connectionId maxBytes v seen ds =
     seqE (ownDiscoveryPage connectionId v) (\<lambda>(es, c). seqE (next_list_cursor c seen) (\<lambda>cursor.
     if MAX_MCP_EVENT_DISCOVERY_SOURCES - length ds < length es then Inl (discoveryLimitError ''too many event descriptors'')
     else seqE (stage_page maxBytes es ds) (\<lambda>ds'. Inr (cursor, ds'))))"

subsection \<open>Pages of a poll\<close>

text \<open>What a page says, as far as it is read; a missing field is undefined.\<close>

record poll_page =
  pp_events :: raw
  pp_cursor :: raw
  pp_hasMore :: raw
  pp_truncated :: raw
  pp_nextPollMs :: raw

definition ownPollPage :: "raw \<Rightarrow> js_error + poll_page" where
  "ownPollPage v =
     (if own_slot v ''events'' = None \<or>
         list_ex (\<lambda>f. own_slot v f = Some None) [''events'', ''cursor'', ''hasMore'', ''truncated'', ''nextPollMs'']
      then Inl (coded_error ''MCP_EVENTS_POLL_PAGE_INVALID'' ''MCP Events poll page is unsafe'')
      else Inr \<lparr>pp_events = ownData v ''events'', pp_cursor = ownData v ''cursor'', pp_hasMore = ownData v ''hasMore'',
        pp_truncated = ownData v ''truncated'', pp_nextPollMs = ownData v ''nextPollMs''\<rparr>)"

text \<open>The limits of a connection.\<close>

record poll_limits =
  pt_maxEvents :: nat
  pt_maxOccurrenceBytes :: nat
  pt_maxPollPageBytes :: nat
  pt_pollIntervalMs :: int
  pt_pollFloorMs :: int

text \<open>The entries are copied before the first of them is stored; \<open>bytes\<close> counts those before.\<close>

fun bound_events :: "poll_limits \<Rightarrow> bool \<Rightarrow> nat \<Rightarrow> raw option list \<Rightarrow> js_error + json list" where
  "bound_events l first bytes [] = Inr []"
| "bound_events l first bytes (None # es) =
     Inl (coded_error ''MCP_EVENTS_POLL_BATCH_INVALID'' ''MCP Events poll page contains unsafe array elements'')"
| "bound_events l first bytes (Some v # es) =
     seqE (snapshotUntrustedEventData v) (\<lambda>event. seqE (assertDecodedMcpBytes event (pt_maxOccurrenceBytes l)) (\<lambda>size.
     let total = bytes + size + (if first then 0 else 1) in
     if pt_maxPollPageBytes l < total then Inl byte_limit_error
     else seqE (bound_events l False total es) (\<lambda>events. Inr (event # events))))"

definition page_events :: "string \<Rightarrow> poll_limits \<Rightarrow> raw \<Rightarrow> js_error + json list" where
  "page_events connectionId l v = (case v of
     RArr a es \<Rightarrow>
       if pt_maxEvents l < length es
       then Inl (coded_error ''MCP_EVENTS_POLL_BATCH_LIMIT_EXCEEDED'' ''MCP Events poll page exceeds configured maxEvents'')
       else bound_events l True 2 es
   | _ \<Rightarrow> Inl (plain_error (''MCP server '' @ connectionId @ '' returned invalid events/poll'')))"

definition normalizeCursor :: "raw \<Rightarrow> string \<Rightarrow> js_error + string option" where
  "normalizeCursor v label = (if raw_null v then Inr None
     else case v of RStr s \<Rightarrow> Inr (Some s) | _ \<Rightarrow> Inl (plain_error (label @ '' returned invalid cursor; expected string|null'')))"

definition normalizeNextPollMs :: "raw \<Rightarrow> int \<Rightarrow> js_error + int" where
  "normalizeNextPollMs v otherwise =
     (let bad = Inl (plain_error ''events/poll returned invalid nextPollMs'');
          bounded = (\<lambda>n. if n < 0 \<or> 300000 < n then bad else Inr n)
      in if raw_null v then bounded otherwise
         else case v of RNum (Fin q) \<Rightarrow> if q = of_int \<lfloor>q\<rfloor> then bounded \<lfloor>q\<rfloor> else bad | _ \<Rightarrow> bad)"

record checked_page =
  kp_events :: "json list"
  kp_cursor :: "string option"
  kp_hasMore :: bool
  kp_truncated :: bool
  kp_nextPollMs :: int

definition check_page :: "string \<Rightarrow> poll_limits \<Rightarrow> raw \<Rightarrow> js_error + checked_page" where
  "check_page connectionId l v =
     seqE (ownPollPage v) (\<lambda>p. seqE (page_events connectionId l (pp_events p)) (\<lambda>events.
     seqE (normalizeCursor (pp_cursor p) (''MCP server '' @ connectionId @ '' events/poll'')) (\<lambda>cursor.
     let more = pp_hasMore p = RBool True in
     if more \<and> cursor = None
     then Inl (coded_error ''MCP_EVENTS_POLL_CURSOR_INVALID'' ''MCP Events poll backlog requires a continuation cursor'')
     else seqE (normalizeNextPollMs (pp_nextPollMs p) (pt_pollIntervalMs l)) (\<lambda>ms.
       Inr \<lparr>kp_events = events, kp_cursor = cursor, kp_hasMore = more, kp_truncated = (pp_truncated p = RBool True),
         kp_nextPollMs = (if more then ms else max (pt_pollFloorMs l) ms)\<rparr>))))"

subsection \<open>Occurrences\<close>

definition invalid_occurrence :: js_error where
  "invalid_occurrence = JsError KError None ''Invalid MCP event occurrence''"

text \<open>\<open>McpEventOccurrenceSchema\<close> of \<open>src/intelligenceProtocol/schemas.ts\<close>; other fields are dropped.\<close>

definition cursor_field :: "jobj \<Rightarrow> string option option option" where
  "cursor_field kvs = (case map_of kvs ''cursor'' of None \<Rightarrow> Some None | Some JNull \<Rightarrow> Some (Some None)
     | Some (JStr s) \<Rightarrow> Some (Some (Some s)) | _ \<Rightarrow> None)"

definition meta_field :: "jobj \<Rightarrow> jobj option option" where
  "meta_field kvs = (case map_of kvs ''_meta'' of None \<Rightarrow> Some None | Some (JObj m) \<Rightarrow> Some (Some m) | _ \<Rightarrow> None)"

definition parseMcpEventOccurrence :: "(string \<Rightarrow> timestamp option) \<Rightarrow> json \<Rightarrow> js_error + mcp_event" where
  "parseMcpEventOccurrence parse v = (case v of
     JObj kvs \<Rightarrow>
       (case (map_of kvs ''eventId'', map_of kvs ''name'', map_of kvs ''timestamp'', map_of kvs ''data'') of
          (Some (JStr i), Some (JStr name), Some (JStr text), Some (JObj data)) \<Rightarrow>
            (case (parse text, cursor_field kvs, meta_field kvs) of
               (Some t, Some c, Some m) \<Rightarrow>
                 if i \<noteq> [] \<and> length i \<le> 200 \<and> name \<noteq> []
                 then Inr \<lparr>me_eventId = i, me_name = name, me_timestamp = t, me_data = data, me_cursor = c, me_meta = m\<rparr>
                 else Inl invalid_occurrence
             | _ \<Rightarrow> Inl invalid_occurrence)
        | _ \<Rightarrow> Inl invalid_occurrence)
   | _ \<Rightarrow> Inl invalid_occurrence)"

text \<open>The parsed occurrence as the value that the consumer takes.\<close>

definition occurrence_json :: "mcp_event \<Rightarrow> json" where
  "occurrence_json e = JObj ([(''eventId'', JStr (me_eventId e)), (''name'', JStr (me_name e)),
     (''timestamp'', JStr (ts_text (me_timestamp e))), (''data'', JObj (me_data e))] @
     (case me_cursor e of None \<Rightarrow> [] | Some c \<Rightarrow> [(''cursor'', nullable c)]) @
     (case me_meta e of None \<Rightarrow> [] | Some m \<Rightarrow> [(''_meta'', JObj m)]))"

end
