(* ===== verification/Mcp_Client.thy ===== *)
theory Mcp_Client
  imports Mcp_Input
begin

text \<open>
  \<open>McpEventsClientManager\<close> of \<open>scripts/lib/mcp-events-client.mjs\<close>: one connection of the host, the
  discovery of its event sources, the subscriptions of the triggers, polling, pushed events and the
  closing of gaps. The store is that of JSON lines, so a connection has no authority epoch.
\<close>

subsection \<open>Connections\<close>

text \<open>
  The provider answers with a value or throws one, at each moment what it likes; \<open>cn_attached\<close> tells
  when the host has the connection attached, \<open>cn_meanwhile\<close> what other workers do while a request is
  awaited and before a write gets its turn. A moment is a clock reading, a request or a look at the
  connection.
\<close>

record mcp_connection =
  cn_connectionId :: string
  cn_serverId :: string
  cn_limits :: poll_limits
  cn_maxPollBatches :: nat
  cn_maxDiscoveryBytes :: nat
  cn_preferredDelivery :: "string option"
  cn_openEventStream :: bool
  cn_createWebhookSubscription :: bool
  cn_compatibilityProfile :: string
  cn_getCapabilities :: "nat \<Rightarrow> raw + raw"
  cn_request :: "nat \<Rightarrow> string \<Rightarrow> json \<Rightarrow> raw + raw"
  cn_attached :: "nat \<Rightarrow> bool"
  cn_meanwhile :: "nat \<Rightarrow> world \<Rightarrow> world"

definition normalizePositiveInteger :: "jsnum option \<Rightarrow> int \<Rightarrow> int \<Rightarrow> int \<Rightarrow> string \<Rightarrow> js_error + int" where
  "normalizePositiveInteger v otherwise mn mx name =
     (let n = (case v of None \<Rightarrow> Some otherwise | Some (Fin q) \<Rightarrow> if q = of_int \<lfloor>q\<rfloor> then Some \<lfloor>q\<rfloor> else None | _ \<Rightarrow> None)
      in case n of Some i \<Rightarrow> if mn \<le> i \<and> i \<le> mx then Inr i
             else Inl (plain_error (name @ '' must be between '' @ int_str mn @ '' and '' @ int_str mx))
         | None \<Rightarrow> Inl (plain_error (name @ '' must be between '' @ int_str mn @ '' and '' @ int_str mx)))"

definition normalizePollFloorMs :: "jsnum option \<Rightarrow> js_error + int" where
  "normalizePollFloorMs v = (case v of
     None \<Rightarrow> Inr 1000
   | Some (Fin q) \<Rightarrow> if q = of_int \<lfloor>q\<rfloor> \<and> 1000 \<le> \<lfloor>q\<rfloor> \<and> \<lfloor>q\<rfloor> \<le> 300000 then Inr \<lfloor>q\<rfloor>
       else Inl (plain_error ''pollFloorMs must be an integer between 1000 and 300000'')
   | _ \<Rightarrow> Inl (plain_error ''pollFloorMs must be an integer between 1000 and 300000''))"

definition supportsMode :: "mcp_connection \<Rightarrow> string \<Rightarrow> bool" where
  "supportsMode cn mode =
     (if mode = ''poll'' then True else if mode = ''push'' then cn_openEventStream cn
      else if mode = ''webhook'' then cn_createWebhookSubscription cn else False)"

definition chooseDelivery :: "mcp_connection \<Rightarrow> event_descriptor \<Rightarrow> string option" where
  "chooseDelivery cn d = (let usable = (\<lambda>mode. mode \<in> set (ed_delivery d) \<and> supportsMode cn mode) in
     case cn_preferredDelivery cn of
       Some mode \<Rightarrow> if mode \<noteq> [] \<and> usable mode then Some mode else find usable [''push'', ''webhook'', ''poll'']
     | None \<Rightarrow> find usable [''push'', ''webhook'', ''poll''])"

text \<open>A client is a connection with the consumer of its scope; \<open>mc_parse\<close> reads the timestamps of the schema.\<close>

record mcp_client =
  mc_connection :: mcp_connection
  mc_consumer :: consumer
  mc_parse :: "string \<Rightarrow> timestamp option"
  mc_dateParse :: "string \<Rightarrow> int option"

abbreviation mc_ru :: "mcp_client \<Rightarrow> runtime" where
  "mc_ru cl \<equiv> en_ru (cs_engine (mc_consumer cl))"

definition isConnectionAttached :: "mcp_connection \<Rightarrow> bool act" where
  "isConnectionAttached cn = (\<lambda>w. (Inr (cn_attached cn (w_ticks w)), w\<lparr>w_ticks := Suc (w_ticks w)\<rparr>))"

definition assertConnectionAttached :: "mcp_connection \<Rightarrow> unit act" where
  "assertConnectionAttached cn = seq (isConnectionAttached cn) (\<lambda>attached. if attached then ret ()
     else throw (coded_error ''MCP_EVENTS_CONNECTION_DETACHED'' ''Host MCP Events connection is detached''))"

definition others_act :: "mcp_connection \<Rightarrow> unit act" where
  "others_act cn = (\<lambda>w. (Inr (), cn_meanwhile cn (w_ticks w) w))"

text \<open>\<open>invokeProvider\<close>: of what is thrown only the class of a terminal error is kept.\<close>

definition rpc :: "mcp_connection \<Rightarrow> string \<Rightarrow> json \<Rightarrow> (terminal_error option + raw) act" where
  "rpc cn method params = (\<lambda>w. let n = w_ticks w in
     (Inr (case cn_request cn n method params of Inl e \<Rightarrow> Inl (classifyTerminalMcpProviderError e) | Inr v \<Rightarrow> Inr v),
      cn_meanwhile cn n (w\<lparr>w_ticks := Suc n\<rparr>)))"

subsection \<open>Discovery\<close>

definition capabilities_of :: "mcp_connection \<Rightarrow> bool act" where
  "capabilities_of cn = (\<lambda>w. let n = w_ticks w in
     (case cn_getCapabilities cn n of
        Inl e \<Rightarrow> Inl provider_error
      | Inr v \<Rightarrow> (case safeMcpCapabilities v of Inl e \<Rightarrow> Inl provider_error | Inr b \<Rightarrow> Inr b),
      cn_meanwhile cn n (w\<lparr>w_ticks := Suc n\<rparr>)))"

text \<open>The loop over the pages; \<open>k\<close> is the number of pages that are left.\<close>

primrec discover_pages :: "mcp_connection \<Rightarrow> nat \<Rightarrow> string option \<Rightarrow> string list \<Rightarrow> event_descriptor list \<Rightarrow> event_descriptor list act" where
  "discover_pages cn 0 cursor seen ds = throw (discoveryLimitError ''too many events/list pages'')"
| "discover_pages cn (Suc k) cursor seen ds =
     seq (rpc cn ''events/list'' (JObj (case cursor of None \<Rightarrow> [] | Some c \<Rightarrow> [(''cursor'', JStr c)]))) (\<lambda>reply. case reply of
       Inl e \<Rightarrow> throw provider_error
     | Inr v \<Rightarrow> seq (assertConnectionAttached cn) (\<lambda>_.
         seq (liftE (list_page (cn_connectionId cn) (cn_maxDiscoveryBytes cn) v seen ds)) (\<lambda>(cursor', ds').
         case cursor' of None \<Rightarrow> ret ds' | Some c \<Rightarrow> discover_pages cn k (Some c) (c # seen) ds')))"

definition client_actor :: json where
  "client_actor = JObj [(''type'', JStr ''system''), (''principal_id'', JStr ''event-intelligence:host-mcp-client'')]"

definition descriptor_source :: "mcp_connection \<Rightarrow> string \<Rightarrow> event_descriptor \<Rightarrow> source_input" where
  "descriptor_source cn prof d = \<lparr>si_sourceId = Some (''mcp:'' @ cn_connectionId cn @ '':'' @ ed_name d),
     si_connectionId = Some (cn_connectionId cn), si_serverId = Some (cn_serverId cn), si_eventName = Some (ed_name d),
     si_description = Some (ed_description d), si_delivery = Some (ed_delivery d), si_inputSchema = Some (ed_inputSchema d),
     si_payloadSchema = Some (ed_payloadSchema d), si_enabled = Some True, si_experimental = Some True,
     si_metadata = Some (JObj ([(''transport'', JStr ''host-managed-mcp''), (''hostManaged'', JBool True),
       (''extensionId'', JStr MCP_EVENTS_EXTENSION_ID), (''compatibilityProfile'', JStr prof)] @
       opt_field ''descriptorMeta'' (ed_meta d))),
     si_updatedAt = None\<rparr>"

text \<open>The source that is already registered says the same, by the text of its parts.\<close>

definition same_source :: "mcp_connection \<Rightarrow> string \<Rightarrow> event_descriptor \<Rightarrow> event_source \<Rightarrow> bool" where
  "same_source cn prof d s \<longleftrightarrow> es_enabled s \<and> es_connectionId s = cn_connectionId cn \<and> es_serverId s = cn_serverId cn \<and>
     es_eventName s = ed_name d \<and> es_delivery s = ed_delivery d \<and>
     stringify (case es_inputSchema s of Some v \<Rightarrow> v | None \<Rightarrow> JObj []) = stringify (ed_inputSchema d) \<and>
     stringify (case es_payloadSchema s of Some v \<Rightarrow> v | None \<Rightarrow> JObj []) = stringify (ed_payloadSchema d) \<and>
     object_field (es_metadata s) ''compatibilityProfile'' = Some (JStr prof) \<and>
     object_field (es_metadata s) ''extensionId'' = Some (JStr MCP_EVENTS_EXTENSION_ID)"

definition register_descriptor :: "mcp_client \<Rightarrow> string \<Rightarrow> event_descriptor \<Rightarrow> unit act" where
  "register_descriptor cl prof d = (let cn = mc_connection cl in
     seq (others_act cn) (\<lambda>_. seq (assertConnectionAttached cn) (\<lambda>_.
     seq (readW (\<lambda>w. find (\<lambda>s. es_sourceId s = ''mcp:'' @ cn_connectionId cn @ '':'' @ ed_name d)
       (listEventSources (w_sources w) [] False))) (\<lambda>existing.
     seq (if (case existing of None \<Rightarrow> False | Some s \<Rightarrow> same_source cn prof d s) then ret ()
          else seq (assertConnectionAttached cn) (\<lambda>_.
            seq (registerEventSource (mc_ru cl) (descriptor_source cn prof d) (Some client_actor)) (\<lambda>_. ret ()))) (\<lambda>_.
     assertConnectionAttached cn)))))"

definition discoverConnection :: "mcp_client \<Rightarrow> event_descriptor list act" where
  "discoverConnection cl = (let cn = mc_connection cl in
     seq (capabilities_of cn) (\<lambda>advertised. seq (assertConnectionAttached cn) (\<lambda>_.
     seq (liftE (resolveMcpEventsCompatibilityProfile advertised (cn_compatibilityProfile cn))) (\<lambda>resolved. case resolved of
       None \<Rightarrow> throw (coded_error ''MCP_EVENTS_CAPABILITY_UNAVAILABLE'' (''MCP server '' @ cn_connectionId cn @
         '' does not advertise the '' @ compatibility_profile @ '' Events profile''))
     | Some prof \<Rightarrow>
         seq (discover_pages cn MAX_MCP_EVENT_DISCOVERY_PAGES None [] []) (\<lambda>ds.
         seq (each (register_descriptor cl prof) ds) (\<lambda>_.
         seq (assertConnectionAttached cn) (\<lambda>_. ret ds)))))))"

subsection \<open>Subscriptions\<close>

record subscription =
  sn_subscriptionId :: string
  sn_eventName :: string
  sn_arguments :: jobj
  sn_descriptor :: event_descriptor
  sn_consumerRefs :: "string list"

definition eventSubscriptionId :: "runtime \<Rightarrow> string \<Rightarrow> string \<Rightarrow> jobj \<Rightarrow> string" where
  "eventSubscriptionId ru connectionId name args = hash_id ru ''mcp_sub_''
     (connectionId @ [CHR 0x00] @ name @ [CHR 0x00] @ stringify (stableValue (JObj args)))"

fun want :: "subscription \<Rightarrow> subscription list \<Rightarrow> subscription list" where
  "want s [] = [s]"
| "want s (t # ts) = (if sn_subscriptionId t = sn_subscriptionId s
     then t\<lparr>sn_consumerRefs := sn_consumerRefs t @ sn_consumerRefs s\<rparr> # ts else t # want s ts)"

definition wanted_clauses :: "mcp_connection \<Rightarrow> runtime \<Rightarrow> event_descriptor list \<Rightarrow> trigger_definition \<Rightarrow> subscription list" where
  "wanted_clauses cn ru ds d = concat (map (\<lambda>c.
     if clause_serverId c \<noteq> Some (cn_serverId cn) then []
     else (case find (\<lambda>e. ed_name e = clause_event c) ds of
       None \<Rightarrow> []
     | Some e \<Rightarrow> [\<lparr>sn_subscriptionId = eventSubscriptionId ru (cn_connectionId cn) (clause_event c) (clause_arguments c),
         sn_eventName = clause_event c, sn_arguments = clause_arguments c, sn_descriptor = e,
         sn_consumerRefs = [td_triggerId d @ ''@'' @ td_version d @ '':'' @ clause_id c]\<rparr>])) (td_clauses d))"

definition desiredSubscriptions :: "mcp_connection \<Rightarrow> runtime \<Rightarrow> event_descriptor list \<Rightarrow> world \<Rightarrow> subscription list" where
  "desiredSubscriptions cn ru ds w = fold want (concat (map (\<lambda>(d, s).
     if ts_status s = Active then wanted_clauses cn ru ds d else []) (listOwnedTriggers None w))) []"

subsection \<open>Occurrences\<close>

definition append_occurrence :: "string \<Rightarrow> mcp_event \<Rightarrow> string \<Rightarrow> append_reply act" where
  "append_occurrence server event subscriptionId = (\<lambda>w.
     case appendMcpOccurrence server event (Some subscriptionId) (w_occurrences w) of
       (r, l) \<Rightarrow> (Inr r, w\<lparr>w_occurrences := l\<rparr>))"

text \<open>The occurrence when it was accepted.\<close>

definition ingestOccurrence :: "mcp_client \<Rightarrow> subscription \<Rightarrow> json \<Rightarrow> mcp_event option act" where
  "ingestOccurrence cl sn v = (let cn = mc_connection cl; ru = mc_ru cl in
     seq (isConnectionAttached cn) (\<lambda>attached. if \<not> attached then ret None
     else seq (liftE (assertDecodedMcpBytes v (pt_maxOccurrenceBytes (cn_limits cn)))) (\<lambda>_.
     seq (liftE (parseMcpEventOccurrence (mc_parse cl) v)) (\<lambda>occurrence.
     if me_name occurrence \<noteq> ed_name (sn_descriptor sn)
     then throw (coded_error ''MCP_EVENTS_OCCURRENCE_NAME_MISMATCH'' ''MCP Events occurrence does not match subscription'')
     else case assertJsonSchemaValue (ru_host ru) (ed_payloadSchema (sn_descriptor sn)) (JObj (me_data occurrence)) ''$'' of
       Some e \<Rightarrow> throw e
     | None \<Rightarrow>
         seq (read_now ru) (\<lambda>receivedAt.
         seq (append_occurrence (cn_serverId cn) occurrence (sn_subscriptionId sn)) (\<lambda>receipt.
         if \<not> ar_accepted receipt then ret None
         else seq (ingestMcpOccurrence (mc_consumer cl) (mc_parse cl) (embed (occurrence_json occurrence) 1)
             \<lparr>oc_traceId = join_with '':'' [''mcp'', cn_serverId cn, sn_subscriptionId sn, me_eventId occurrence],
              oc_provider = Some ''mcp'', oc_serverId = Some (cn_serverId cn),
              oc_arguments = Some (embed (JObj (sn_arguments sn)) 1), oc_receivedAt = Some (ts_text receivedAt)\<rparr>) (\<lambda>_.
           ret (Some occurrence))))))))"

subsection \<open>The state of a subscription\<close>

text \<open>What a patch names replaces the previous state; a cursor may be set to null.\<close>

record state_patch =
  sp_deliveryMode :: "string option"
  sp_sourceAvailability :: "string option"
  sp_cursor :: "string option option"
  sp_truncated :: "bool option"
  sp_gapDetectedAt :: "string option"
  sp_nextPollAt :: "string option"
  sp_lastEventAt :: "string option"

definition or_previous :: "'a option \<Rightarrow> ('s \<Rightarrow> 'a option) \<Rightarrow> 's option \<Rightarrow> 'a option" where
  "or_previous v f previous = (case v of Some x \<Rightarrow> Some x | None \<Rightarrow> Option.bind previous f)"

definition state_input ::
  "mcp_connection \<Rightarrow> string \<Rightarrow> jobj \<Rightarrow> string option \<Rightarrow> mcp_client_state option \<Rightarrow> state_patch \<Rightarrow> mcp_state_input"
where
  "state_input cn name args subscriptionId previous p = \<lparr>mi_connectionId = Some (cn_connectionId cn),
     mi_serverId = Some (cn_serverId cn), mi_eventName = Some name, mi_arguments = args,
     mi_subscriptionId = or_previous subscriptionId ms_subscriptionId previous,
     mi_deliveryMode = or_previous (sp_deliveryMode p) (\<lambda>s. Some (ms_deliveryMode s)) previous,
     mi_cursor = (case sp_cursor p of Some c \<Rightarrow> c | None \<Rightarrow> Option.bind previous ms_cursor),
     mi_nextPollAt = or_previous (sp_nextPollAt p) ms_nextPollAt previous,
     mi_lastEventAt = or_previous (sp_lastEventAt p) ms_lastEventAt previous,
     mi_lastError = Option.bind previous ms_lastError,
     mi_sourceAvailability = or_previous (sp_sourceAvailability p) (\<lambda>s. map_option fst (ms_sourceAvailability s)) previous,
     mi_truncated = or_previous (sp_truncated p) ms_truncated previous,
     mi_gapUnresolved = map_option ms_gapUnresolved previous,
     mi_gapDetectedAt = or_previous (sp_gapDetectedAt p) ms_gapDetectedAt previous,
     mi_gapReconciled = None, mi_reconciliationEvidenceId = Option.bind previous ms_reconciliationEvidenceId,
     mi_expectedCompletenessRevision = None\<rparr>"

definition put_mcp_state :: "runtime \<Rightarrow> mcp_state_input \<Rightarrow> unit act" where
  "put_mcp_state ru input = seq (read_now ru) (\<lambda>t w. case putMcpClientState (ts_text t) input (w_mcp w) of
     (r, m) \<Rightarrow> (case r of Inl e \<Rightarrow> Inl e | Inr s \<Rightarrow> Inr (), w\<lparr>w_mcp := m\<rparr>))"

definition state_at :: "mcp_client \<Rightarrow> subscription \<Rightarrow> world \<Rightarrow> mcp_client_state option" where
  "state_at cl sn w = getMcpClientState (w_mcp w) (cn_connectionId (mc_connection cl)) (sn_eventName sn) (sn_arguments sn)"

definition saveSubscriptionState :: "mcp_client \<Rightarrow> subscription \<Rightarrow> state_patch \<Rightarrow> unit act" where
  "saveSubscriptionState cl sn patch = (let cn = mc_connection cl in
     seq (others_act cn) (\<lambda>_. seq (assertConnectionAttached cn) (\<lambda>_.
     seq (readW (state_at cl sn)) (\<lambda>previous. seq (assertConnectionAttached cn) (\<lambda>_.
     put_mcp_state (mc_ru cl)
       (state_input cn (sn_eventName sn) (sn_arguments sn) (Some (sn_subscriptionId sn)) previous patch))))))"

definition empty_patch :: "string \<Rightarrow> state_patch" where
  "empty_patch mode = \<lparr>sp_deliveryMode = Some mode, sp_sourceAvailability = None, sp_cursor = None, sp_truncated = None,
     sp_gapDetectedAt = None, sp_nextPollAt = None, sp_lastEventAt = None\<rparr>"

end
