(* ===== verification/Mcp_Poll.thy ===== *)
theory Mcp_Poll
  imports Mcp_Client
begin

text \<open>
  Polling of a subscription, the events that a provider pushes and the closing of a gap by the
  host, in \<open>scripts/lib/mcp-events-client.mjs\<close>.
\<close>

subsection \<open>One page\<close>

record poll_progress =
  pg_cursor :: "string option"
  pg_lastEventAt :: "string option"
  pg_accepted :: nat
  pg_batches :: nat
  pg_truncated :: bool

datatype poll_status = Poll_Ok | Poll_Scheduled | Poll_Terminal terminal_error

record poll_outcome =
  po_status :: poll_status
  po_progress :: poll_progress
  po_hasMore :: bool
  po_nextPollMs :: int

definition poll_params :: "mcp_connection \<Rightarrow> subscription \<Rightarrow> string option \<Rightarrow> json" where
  "poll_params cn sn cursor = JObj [(''name'', JStr (sn_eventName sn)), (''arguments'', JObj (sn_arguments sn)),
     (''cursor'', nullable cursor), (''maxEvents'', JNum (num_of_int (int (pt_maxEvents (cn_limits cn)))))]"

text \<open>Missing history is recorded before anything else of the page is looked at.\<close>

definition report_gap :: "mcp_client \<Rightarrow> subscription \<Rightarrow> raw \<Rightarrow> unit act" where
  "report_gap cl sn v =
     (if own_slot v ''truncated'' = Some (Some (RBool True))
      then seq (read_now (mc_ru cl)) (\<lambda>t. saveSubscriptionState cl sn
        ((empty_patch ''poll'')\<lparr>sp_truncated := Some True, sp_gapDetectedAt := Some (ts_text t)\<rparr>))
      else ret ())"

fun ingest_page :: "mcp_client \<Rightarrow> subscription \<Rightarrow> json list \<Rightarrow> poll_progress \<Rightarrow> poll_progress act" where
  "ingest_page cl sn [] p = ret p"
| "ingest_page cl sn (v # vs) p = seq (ingestOccurrence cl sn v) (\<lambda>occurrence. case occurrence of
     None \<Rightarrow> ingest_page cl sn vs p
   | Some e \<Rightarrow> ingest_page cl sn vs
       (p\<lparr>pg_accepted := pg_accepted p + 1, pg_lastEventAt := Some (ts_text (me_timestamp e))\<rparr>))"

text \<open>The cursor of a page is stored after its events.\<close>

definition save_page :: "mcp_client \<Rightarrow> subscription \<Rightarrow> checked_page \<Rightarrow> poll_progress \<Rightarrow> unit act" where
  "save_page cl sn k p = (let cn = mc_connection cl; ru = mc_ru cl in
     seq (read_now ru) (\<lambda>t. seq (liftE (toISOString (time_clip (ts_ms t + (if kp_hasMore k then 0 else kp_nextPollMs k))))) (\<lambda>next_poll.
     seq (assertConnectionAttached cn) (\<lambda>_.
     seq (if pg_truncated p then seq (read_now ru) (\<lambda>g. ret (Some (ts_text g))) else ret None) (\<lambda>gap.
     saveSubscriptionState cl sn \<lparr>sp_deliveryMode = Some ''poll'', sp_sourceAvailability = Some ''available'',
       sp_cursor = Some (pg_cursor p), sp_truncated = Some (pg_truncated p), sp_gapDetectedAt = gap,
       sp_nextPollAt = Some (ts_text next_poll),
       sp_lastEventAt = (if truthy_str (pg_lastEventAt p) then pg_lastEventAt p else None)\<rparr>)))))"

definition terminal_poll :: "mcp_client \<Rightarrow> subscription \<Rightarrow> terminal_error option \<Rightarrow> poll_progress \<Rightarrow> int \<Rightarrow> poll_outcome act" where
  "terminal_poll cl sn e p ms = seq (assertConnectionAttached (mc_connection cl)) (\<lambda>_. case e of
     None \<Rightarrow> throw provider_error
   | Some t \<Rightarrow> seq (if t = Not_Found
         then saveSubscriptionState cl sn ((empty_patch ''poll'')\<lparr>sp_sourceAvailability := Some ''not_found''\<rparr>) else ret ()) (\<lambda>_.
       ret \<lparr>po_status = Poll_Terminal t, po_progress = p, po_hasMore = False, po_nextPollMs = ms\<rparr>))"

definition after_page :: "poll_progress \<Rightarrow> checked_page \<Rightarrow> poll_progress" where
  "after_page p k = p\<lparr>pg_cursor := kp_cursor k, pg_truncated := (pg_truncated p \<or> kp_truncated k)\<rparr>"

text \<open>One round of the loop; \<open>again\<close> is the next round, when the number of batches allows one.\<close>

definition poll_batch ::
  "mcp_client \<Rightarrow> subscription \<Rightarrow> (poll_progress \<Rightarrow> poll_outcome act) option \<Rightarrow> poll_progress \<Rightarrow> poll_outcome act"
where
  "poll_batch cl sn again p = (let cn = mc_connection cl in
     seq (rpc cn ''events/poll'' (poll_params cn sn (pg_cursor p))) (\<lambda>reply. case reply of
       Inl e \<Rightarrow> terminal_poll cl sn e p (pt_pollIntervalMs (cn_limits cn))
     | Inr v \<Rightarrow>
         seq (assertConnectionAttached cn) (\<lambda>_.
         seq (report_gap cl sn v) (\<lambda>_.
         seq (liftE (check_page (cn_connectionId cn) (cn_limits cn) v)) (\<lambda>k.
         seq (ingest_page cl sn (kp_events k) (after_page p k)) (\<lambda>ingested.
         let p' = ingested\<lparr>pg_batches := pg_batches ingested + 1\<rparr> in
         seq (save_page cl sn k p') (\<lambda>_.
         case (kp_hasMore k, again) of
           (True, Some f) \<Rightarrow> f p'
         | _ \<Rightarrow> ret \<lparr>po_status = Poll_Ok, po_progress = p', po_hasMore = kp_hasMore k, po_nextPollMs = kp_nextPollMs k\<rparr>)))))))"

primrec poll_batches :: "mcp_client \<Rightarrow> subscription \<Rightarrow> nat \<Rightarrow> poll_progress \<Rightarrow> poll_outcome act" where
  "poll_batches cl sn 0 p = poll_batch cl sn None p"
| "poll_batches cl sn (Suc k) p = poll_batch cl sn (Some (poll_batches cl sn k)) p"

text \<open>
  \<open>suspended\<close> is what the manager remembers of a terminal error of the connection or of the
  subscription.
\<close>

definition pollSubscription ::
  "mcp_client \<Rightarrow> subscription \<Rightarrow> terminal_error option \<Rightarrow> bool \<Rightarrow> poll_outcome act"
where
  "pollSubscription cl sn suspended respectSchedule = (let cn = mc_connection cl; interval = pt_pollIntervalMs (cn_limits cn);
       start = (\<lambda>s. \<lparr>pg_cursor = Option.bind s ms_cursor, pg_lastEventAt = Option.bind s ms_lastEventAt, pg_accepted = 0,
         pg_batches = 0, pg_truncated = False\<rparr>) in
     seq (assertConnectionAttached cn) (\<lambda>_. case suspended of
       Some t \<Rightarrow> ret \<lparr>po_status = Poll_Terminal t, po_progress = start None, po_hasMore = False, po_nextPollMs = interval\<rparr>
     | None \<Rightarrow>
         seq (readW (state_at cl sn)) (\<lambda>current.
         let scheduled = (if respectSchedule then Option.bind current ms_nextPollAt else None) in
         seq (if \<not> truthy_str scheduled then ret False
           else seq (read_now (mc_ru cl)) (\<lambda>t. ret (case mc_dateParse cl (the scheduled) of None \<Rightarrow> False | Some d \<Rightarrow> ts_ms t < d))) (\<lambda>early.
         if early then ret \<lparr>po_status = Poll_Scheduled, po_progress = start current, po_hasMore = False, po_nextPollMs = interval\<rparr>
         else poll_batches cl sn (cn_maxPollBatches cn - 1) (start current)))))"

subsection \<open>Pushed events\<close>

definition callback_cursor :: "mcp_client \<Rightarrow> subscription \<Rightarrow> string \<Rightarrow> string \<Rightarrow> json \<Rightarrow> js_error + string option option" where
  "callback_cursor cl sn delivery what v = (case object_field (Some v) ''cursor'' of
     None \<Rightarrow> Inr None
   | Some c \<Rightarrow> seqE (normalizeCursor (embed c 1) (delivery @ what @ sn_eventName sn)) (\<lambda>cursor. Inr (Some cursor)))"

text \<open>The callbacks of \<open>ensureDeliverySession\<close>, for push and webhook alike.\<close>

definition onEvent :: "mcp_client \<Rightarrow> subscription \<Rightarrow> string \<Rightarrow> raw \<Rightarrow> unit act" where
  "onEvent cl sn delivery v = (let cn = mc_connection cl in
     seq (isConnectionAttached cn) (\<lambda>attached. if \<not> attached then ret ()
     else seq (liftE (snapshotUntrustedEventData v)) (\<lambda>safe.
     seq (liftE (assertDecodedMcpBytes safe (pt_maxOccurrenceBytes (cn_limits cn)))) (\<lambda>_.
     seq (liftE (callback_cursor cl sn delivery '' event '' safe)) (\<lambda>cursor.
     seq (assertConnectionAttached cn) (\<lambda>_.
     seq (ingestOccurrence cl sn safe) (\<lambda>occurrence.
     seq (isConnectionAttached cn) (\<lambda>still. if \<not> still then ret ()
     else case cursor of
       None \<Rightarrow> ret ()
     | Some c \<Rightarrow> saveSubscriptionState cl sn ((empty_patch delivery)\<lparr>sp_sourceAvailability := Some ''available'', sp_cursor := Some c,
         sp_lastEventAt := map_option (\<lambda>e. ts_text (me_timestamp e)) occurrence\<rparr>)))))))))"

definition safeCallbackUpdate :: "mcp_client \<Rightarrow> raw \<Rightarrow> js_error + json" where
  "safeCallbackUpdate cl v = seqE (snapshotUntrustedEventData (if raw_null v then RObj 0 [] False else v)) (\<lambda>update.
     seqE (assertDecodedMcpBytes update (pt_maxOccurrenceBytes (cn_limits (mc_connection cl)))) (\<lambda>_. case update of
       JObj kvs \<Rightarrow> Inr (JObj kvs)
     | _ \<Rightarrow> Inl (JsError KTypeError (Some ''EVENT_UNTRUSTED_DATA_INVALID'') ''MCP Events callback update must be a JSON object'')))"

definition activate :: "mcp_client \<Rightarrow> subscription \<Rightarrow> string \<Rightarrow> json \<Rightarrow> unit act" where
  "activate cl sn delivery update =
     seq (assertConnectionAttached (mc_connection cl)) (\<lambda>_.
     seq (liftE (callback_cursor cl sn delivery '' active '' update)) (\<lambda>cursor.
     seq (if object_field (Some update) ''truncated'' = Some (JBool True)
       then seq (read_now (mc_ru cl)) (\<lambda>t. ret (Some (ts_text t))) else ret None) (\<lambda>gap.
     saveSubscriptionState cl sn ((empty_patch delivery)\<lparr>sp_sourceAvailability := Some ''available'', sp_cursor := cursor,
       sp_truncated := (case object_field (Some update) ''truncated'' of Some (JBool b) \<Rightarrow> Some b | _ \<Rightarrow> None),
       sp_gapDetectedAt := gap\<rparr>))))"

definition onActive :: "mcp_client \<Rightarrow> subscription \<Rightarrow> string \<Rightarrow> raw \<Rightarrow> unit act" where
  "onActive cl sn delivery v = seq (isConnectionAttached (mc_connection cl)) (\<lambda>attached. if \<not> attached then ret ()
     else seq (liftE (safeCallbackUpdate cl v)) (activate cl sn delivery))"

definition onGap :: "mcp_client \<Rightarrow> subscription \<Rightarrow> string \<Rightarrow> raw \<Rightarrow> unit act" where
  "onGap cl sn delivery v = seq (isConnectionAttached (mc_connection cl)) (\<lambda>attached. if \<not> attached then ret ()
     else seq (liftE (safeCallbackUpdate cl v)) (\<lambda>update. case update of
       JObj kvs \<Rightarrow> onActive cl sn delivery (embed (JObj (assign ''truncated'' (JBool True) kvs)) 1)
     | _ \<Rightarrow> ret ()))"

subsection \<open>Closing a gap\<close>

definition acknowledgeReconciledGap :: "mcp_client \<Rightarrow> string \<Rightarrow> jobj \<Rightarrow> string \<Rightarrow> int \<Rightarrow> unit act" where
  "acknowledgeReconciledGap cl name args evidenceId expectedRevision = (let cn = mc_connection cl in
     if trim_ws evidenceId = [] \<or> 256 < length evidenceId then throw (plain_error ''Host reconciliation requires an evidence ID'')
     else if expectedRevision < 0 \<or> MAX_SAFE_INTEGER < expectedRevision
     then throw (plain_error ''Host reconciliation requires expected completeness revision'')
     else seq (assertConnectionAttached cn) (\<lambda>_. seq (assertConnectionAttached cn) (\<lambda>_. seq (others_act cn) (\<lambda>_.
       seq (assertConnectionAttached cn) (\<lambda>_.
       seq (readW (\<lambda>w. getMcpClientState (w_mcp w) (cn_connectionId cn) name args)) (\<lambda>previous. case previous of
         None \<Rightarrow> throw (plain_error ''No unresolved gap for the attached source'')
       | Some s \<Rightarrow>
           if ms_serverId s \<noteq> cn_serverId cn \<or> \<not> has_gap (Some s)
           then throw (plain_error ''No unresolved gap for the attached source'')
           else seq (assertConnectionAttached cn) (\<lambda>_. put_mcp_state (mc_ru cl)
             ((state_input cn name args None (Some s) \<lparr>sp_deliveryMode = None, sp_sourceAvailability = None, sp_cursor = None,
                sp_truncated = Some False, sp_gapDetectedAt = None, sp_nextPollAt = None, sp_lastEventAt = None\<rparr>)
              \<lparr>mi_gapReconciled := Some True, mi_expectedCompletenessRevision := Some expectedRevision,
               mi_reconciliationEvidenceId := Some evidenceId\<rparr>))))))))"

end
