(* ===== verification/Mcp_Manager.thy ===== *)
theory Mcp_Manager
  imports Mcp_Poll
begin

text \<open>
  What \<open>McpEventsClientManager\<close> remembers of one connection, and the operations on it in
  \<open>scripts/lib/mcp-events-client.mjs\<close>: the sessions of pushed delivery, a round of polls, what a timer
  does, and the end of a connection. The manager is in memory; it is threaded beside the store.
\<close>

subsection \<open>Configuration\<close>

text \<open>What the host gives for a connection; a field may be missing. The functions are there.\<close>

record connection_input =
  ci_connectionId :: "string option"
  ci_serverId :: "string option"
  ci_preferredDelivery :: "string option"
  ci_pollIntervalMs :: "jsnum option"
  ci_pollFloorMs :: "jsnum option"
  ci_maxEvents :: "jsnum option"
  ci_maxPollBatches :: "jsnum option"
  ci_maxOccurrenceBytes :: "jsnum option"
  ci_maxPollPageBytes :: "jsnum option"
  ci_maxDiscoveryBytes :: "jsnum option"
  ci_compatibilityProfile :: "string option"
  ci_openEventStream :: bool
  ci_createWebhookSubscription :: bool

definition normalizeConnection ::
  "connection_input \<Rightarrow> (nat \<Rightarrow> raw + raw) \<Rightarrow> (nat \<Rightarrow> string \<Rightarrow> json \<Rightarrow> raw + raw) \<Rightarrow> (nat \<Rightarrow> bool) \<Rightarrow>
   (nat \<Rightarrow> world \<Rightarrow> world) \<Rightarrow> js_error + mcp_connection"
where
  "normalizeConnection ci capabilities request attached meanwhile =
     (let i = trim_ws (str_or (ci_connectionId ci) []);
          preferred = (if truthy_str (ci_preferredDelivery ci) then ci_preferredDelivery ci else None)
      in if i = [] then Inl (plain_error ''Host-managed MCP Events connectionId is required'')
         else if (case preferred of None \<Rightarrow> False | Some m \<Rightarrow> m \<notin> set delivery_modes)
         then Inl (plain_error (''Host-managed MCP Events connection '' @ i @ '' has invalid preferredDelivery''))
         else seqE (normalizePositiveInteger (ci_pollIntervalMs ci) 5000 250 300000 ''pollIntervalMs'') (\<lambda>interval.
           seqE (normalizePollFloorMs (ci_pollFloorMs ci)) (\<lambda>low.
           seqE (normalizePositiveInteger (ci_maxEvents ci) 100 1 500 ''maxEvents'') (\<lambda>events.
           seqE (normalizePositiveInteger (ci_maxPollBatches ci) 4 1 32 ''maxPollBatches'') (\<lambda>batches.
           seqE (normalizePositiveInteger (ci_maxOccurrenceBytes ci) 262144 1024 1048576 ''maxOccurrenceBytes'') (\<lambda>occurrence.
           seqE (normalizePositiveInteger (ci_maxPollPageBytes ci) 1048576 1024 4194304 ''maxPollPageBytes'') (\<lambda>page.
           seqE (normalizePositiveInteger (ci_maxDiscoveryBytes ci) 1048576 1024 4194304 ''maxDiscoveryBytes'') (\<lambda>discovery.
           Inr \<lparr>cn_connectionId = i, cn_serverId = str_or (ci_serverId ci) (''host-mcp:'' @ i),
             cn_limits = \<lparr>pt_maxEvents = nat events, pt_maxOccurrenceBytes = nat occurrence, pt_maxPollPageBytes = nat page,
               pt_pollIntervalMs = interval, pt_pollFloorMs = low\<rparr>,
             cn_maxPollBatches = nat batches, cn_maxDiscoveryBytes = nat discovery, cn_preferredDelivery = preferred,
             cn_openEventStream = ci_openEventStream ci, cn_createWebhookSubscription = ci_createWebhookSubscription ci,
             cn_compatibilityProfile = (case ci_compatibilityProfile ci of None \<Rightarrow> ''auto'' | Some p \<Rightarrow> p),
             cn_getCapabilities = capabilities, cn_request = request, cn_attached = attached, cn_meanwhile = meanwhile\<rparr>))))))))"

subsection \<open>State\<close>

text \<open>
  The entries of this connection in the maps of the manager: \<open>descriptors\<close>, \<open>terminalConnections\<close>,
  \<open>terminalPollSubscriptions\<close>, \<open>deliverySessions\<close> with the way of delivery of each, \<open>lastErrors\<close>.
\<close>

record manager =
  mg_descriptors :: "event_descriptor list option"
  mg_terminal :: bool
  mg_suspended :: "string list"
  mg_sessions :: "(string \<times> string) list"
  mg_lastError :: "string option"

definition fresh_manager :: manager where
  "fresh_manager = \<lparr>mg_descriptors = None, mg_terminal = False, mg_suspended = [], mg_sessions = [], mg_lastError = None\<rparr>"

type_synonym 'a mact = "(manager \<times> world, 'a) comp"

definition on_store :: "'a act \<Rightarrow> 'a mact" where
  "on_store m = (\<lambda>(g, w). case m w of (r, w') \<Rightarrow> (r, (g, w')))"

definition remember :: "(manager \<Rightarrow> manager) \<Rightarrow> unit mact" where
  "remember f = modS (\<lambda>(g, w). (f g, w))"

definition recall :: "(manager \<Rightarrow> 'a) \<Rightarrow> 'a mact" where
  "recall f = (\<lambda>(g, w). (Inr (f g), (g, w)))"

subsection \<open>Errors that a host may see\<close>

definition isUnavailableCapability :: "js_error \<Rightarrow> bool" where
  "isUnavailableCapability e \<longleftrightarrow> err_code e = Some ''MCP_EVENTS_CAPABILITY_UNAVAILABLE''"

definition safeMcpFailure :: "js_error \<Rightarrow> string" where
  "safeMcpFailure e = (if isUnavailableCapability e then ''MCP Events capability unavailable''
     else ''MCP Events provider operation failed'')"

subsection \<open>Sessions\<close>

text \<open>
  \<open>tr_open\<close> is what \<open>projectDeliveryHandle\<close> makes of the handle that the provider returns: its own
  cursor, if it has one, and whether it says that history is missing. \<open>tr_terminated\<close> says at each
  moment whether the provider has ended the stream while it is opened.
\<close>

record delivery_handle =
  dh_cursor :: "raw option"
  dh_truncated :: bool

record transport =
  tr_open :: "nat \<Rightarrow> string \<Rightarrow> json \<Rightarrow> raw + delivery_handle"
  tr_terminated :: "nat \<Rightarrow> bool"

text \<open>Closing is best effort: the hook of the host cannot fail it.\<close>

definition closeSession :: "mcp_connection \<Rightarrow> string \<Rightarrow> bool mact" where
  "closeSession cn i = seq (recall (\<lambda>g. map_of (mg_sessions g) i)) (\<lambda>session. case session of
     None \<Rightarrow> ret False
   | Some _ \<Rightarrow> seq (remember (\<lambda>g. g\<lparr>mg_sessions := filter (\<lambda>(k, v). k \<noteq> i) (mg_sessions g)\<rparr>)) (\<lambda>_.
       seq (on_store (others_act cn)) (\<lambda>_. ret True)))"

definition open_params :: "subscription \<Rightarrow> mcp_client_state option \<Rightarrow> json" where
  "open_params sn current = JObj [(''subscriptionId'', JStr (sn_subscriptionId sn)), (''name'', JStr (sn_eventName sn)),
     (''arguments'', JObj (sn_arguments sn)), (''cursor'', nullable (Option.bind current ms_cursor))]"

definition open_stream :: "mcp_connection \<Rightarrow> transport \<Rightarrow> string \<Rightarrow> json \<Rightarrow> delivery_handle act" where
  "open_stream cn tr delivery params = (\<lambda>w. let n = w_ticks w in
     (case tr_open tr n delivery params of Inl e \<Rightarrow> Inl provider_error | Inr h \<Rightarrow> Inr h,
      cn_meanwhile cn n (w\<lparr>w_ticks := Suc n\<rparr>)))"

text \<open>Whether the stream that was opened may go on.\<close>

definition stream_alive :: "mcp_connection \<Rightarrow> transport \<Rightarrow> bool act" where
  "stream_alive cn tr = (\<lambda>w. let n = w_ticks w in (Inr (cn_attached cn n \<and> \<not> tr_terminated tr n), w\<lparr>w_ticks := Suc n\<rparr>))"

definition handle_update :: "raw \<Rightarrow> bool \<Rightarrow> raw" where
  "handle_update c truncated = RObj (Suc (fold max (raw_ids c) 0))
     [(''cursor'', True, Some c), (''truncated'', True, Some (RBool truncated))] False"

text \<open>The first state of the stream; the result says whether it is alive afterwards.\<close>

definition start_stream :: "mcp_client \<Rightarrow> transport \<Rightarrow> subscription \<Rightarrow> string \<Rightarrow> mcp_client_state option \<Rightarrow> delivery_handle \<Rightarrow> bool act" where
  "start_stream cl tr sn delivery current h = (let cn = mc_connection cl in
     catch_do (seq (stream_alive cn tr) (\<lambda>alive. if \<not> alive then ret False
       else seq (case dh_cursor h of
           Some c \<Rightarrow> onActive cl sn delivery (handle_update c (dh_truncated h))
         | None \<Rightarrow> saveSubscriptionState cl sn ((empty_patch delivery)\<lparr>sp_sourceAvailability := Some ''available'',
             sp_cursor := Some (Option.bind current ms_cursor)\<rparr>)) (\<lambda>_. stream_alive cn tr)))
       (\<lambda>e. if err_code e = Some ''MCP_EVENTS_CONNECTION_DETACHED'' then ret False else throw e))"

definition ensureDeliverySession :: "mcp_client \<Rightarrow> transport \<Rightarrow> subscription \<Rightarrow> string \<Rightarrow> bool mact" where
  "ensureDeliverySession cl tr sn delivery = (let cn = mc_connection cl; i = sn_subscriptionId sn in
     seq (on_store (assertConnectionAttached cn)) (\<lambda>_.
     seq (recall (\<lambda>g. map_of (mg_sessions g) i)) (\<lambda>existing. if existing = Some delivery then ret True
     else seq (if existing = None then ret False else closeSession cn i) (\<lambda>_.
     seq (on_store (assertConnectionAttached cn)) (\<lambda>_.
     seq (on_store (readW (state_at cl sn))) (\<lambda>current.
     seq (on_store (assertConnectionAttached cn)) (\<lambda>_.
     seq (on_store (open_stream cn tr delivery (open_params sn current))) (\<lambda>h.
     seq (on_store (start_stream cl tr sn delivery current h)) (\<lambda>alive. if \<not> alive then ret False
     else seq (remember (\<lambda>g. g\<lparr>mg_sessions := map_put i delivery (mg_sessions g), mg_lastError := None\<rparr>)) (\<lambda>_. ret True))))))))))"

text \<open>The provider ends a stream; \<open>failed\<close> when it gives a reason.\<close>

definition onTerminated :: "mcp_connection \<Rightarrow> string \<Rightarrow> bool \<Rightarrow> unit mact" where
  "onTerminated cn i failed = seq (on_store (isConnectionAttached cn)) (\<lambda>attached.
     seq (recall (\<lambda>g. map_of (mg_sessions g) i)) (\<lambda>session. if \<not> attached \<or> session = None then ret ()
     else remember (\<lambda>g. g\<lparr>mg_sessions := filter (\<lambda>(k, v). k \<noteq> i) (mg_sessions g),
       mg_lastError := (if failed then Some ''MCP Events provider operation failed'' else mg_lastError g)\<rparr>)))"

primrec close_each :: "mcp_connection \<Rightarrow> string list \<Rightarrow> unit mact" where
  "close_each cn [] = ret ()"
| "close_each cn (i # is) = seq (closeSession cn i) (\<lambda>_. close_each cn is)"

definition reconcileDeliverySessions :: "mcp_connection \<Rightarrow> string list \<Rightarrow> unit mact" where
  "reconcileDeliverySessions cn desired =
     seq (on_store (assertConnectionAttached cn)) (\<lambda>_. seq (recall mg_sessions) (\<lambda>sessions.
       close_each cn (filter (\<lambda>i. i \<notin> set desired) (map fst sessions))))"

subsection \<open>A round of polls\<close>

datatype poll_result =
    Polled string poll_outcome
  | Session_Result string string bool
  | Not_Supported string
  | Connection_Forbidden

definition suspension :: "string \<Rightarrow> manager \<Rightarrow> terminal_error option" where
  "suspension i g = (if mg_terminal g then Some Forbidden else if i \<in> set (mg_suspended g) then Some Not_Found else None)"

text \<open>A poll with what the manager remembers of its end.\<close>

definition poll_managed :: "mcp_client \<Rightarrow> subscription \<Rightarrow> bool \<Rightarrow> poll_outcome mact" where
  "poll_managed cl sn respectSchedule = (let cn = mc_connection cl; i = sn_subscriptionId sn in
     seq (recall (suspension i)) (\<lambda>suspended.
     seq (on_store (pollSubscription cl sn suspended respectSchedule)) (\<lambda>out.
     seq (case po_status out of
         Poll_Ok \<Rightarrow> seq (on_store (isConnectionAttached cn)) (\<lambda>attached.
           if attached then remember (\<lambda>g. g\<lparr>mg_lastError := None\<rparr>) else ret ())
       | Poll_Scheduled \<Rightarrow> ret ()
       | Poll_Terminal Forbidden \<Rightarrow> remember (\<lambda>g. g\<lparr>mg_terminal := True\<rparr>)
       | Poll_Terminal Not_Found \<Rightarrow> remember (\<lambda>g. g\<lparr>mg_suspended := List.insert i (mg_suspended g)\<rparr>)) (\<lambda>_. ret out))))"

definition discover_managed :: "mcp_client \<Rightarrow> event_descriptor list mact" where
  "discover_managed cl = seq (on_store (discoverConnection cl)) (\<lambda>ds.
     seq (remember (\<lambda>g. g\<lparr>mg_descriptors := Some ds, mg_lastError := None\<rparr>)) (\<lambda>_. ret ds))"

definition poll_one :: "mcp_client \<Rightarrow> transport \<Rightarrow> bool \<Rightarrow> subscription \<Rightarrow> poll_result mact" where
  "poll_one cl tr respectSchedule sn = (let cn = mc_connection cl; i = sn_subscriptionId sn in
     seq (on_store (assertConnectionAttached cn)) (\<lambda>_.
     seq (recall mg_terminal) (\<lambda>terminal. if terminal then ret Connection_Forbidden
     else case chooseDelivery cn (sn_descriptor sn) of
       None \<Rightarrow> ret (Not_Supported i)
     | Some delivery \<Rightarrow>
         if delivery = ''poll''
         then seq (closeSession cn i) (\<lambda>_. seq (poll_managed cl sn respectSchedule) (\<lambda>out. ret (Polled i out)))
         else seq (ensureDeliverySession cl tr sn delivery) (\<lambda>alive. ret (Session_Result i delivery alive)))))"

primrec poll_each :: "mcp_client \<Rightarrow> transport \<Rightarrow> bool \<Rightarrow> subscription list \<Rightarrow> poll_result list mact" where
  "poll_each cl tr b [] = ret []"
| "poll_each cl tr b (sn # sns) = seq (poll_one cl tr b sn) (\<lambda>r. seq (poll_each cl tr b sns) (\<lambda>rs. ret (r # rs)))"

definition pollConnectionOnce :: "mcp_client \<Rightarrow> transport \<Rightarrow> bool \<Rightarrow> poll_result list mact" where
  "pollConnectionOnce cl tr respectSchedule = (let cn = mc_connection cl in
     seq (on_store (assertConnectionAttached cn)) (\<lambda>_.
     seq (recall mg_terminal) (\<lambda>terminal. if terminal then ret [Connection_Forbidden]
     else seq (on_store (assertConnectionAttached cn)) (\<lambda>_.
     seq (recall mg_descriptors) (\<lambda>known.
     seq (case known of Some ds \<Rightarrow> ret ds | None \<Rightarrow> discover_managed cl) (\<lambda>ds.
     seq (on_store (readW (desiredSubscriptions cn (mc_ru cl) ds))) (\<lambda>desired.
     let ids = map sn_subscriptionId desired in
     seq (remember (\<lambda>g. g\<lparr>mg_suspended := filter (\<lambda>i. i \<in> set ids) (mg_suspended g)\<rparr>)) (\<lambda>_.
     seq (poll_each cl tr respectSchedule desired) (\<lambda>results.
     seq (on_store (assertConnectionAttached cn)) (\<lambda>_.
     seq (reconcileDeliverySessions cn ids) (\<lambda>_. ret results)))))))))))"

text \<open>The entries of this connection in the results of \<open>discoverAll\<close> and \<open>pollAll\<close>: an error becomes a text.\<close>

datatype discovery_report = Ready "string list" | Ignored | Discovery_Error string

definition discover_entry :: "mcp_client \<Rightarrow> discovery_report mact" where
  "discover_entry cl = (\<lambda>gw. case discover_managed cl gw of
     (Inr ds, gw') \<Rightarrow> (Inr (Ready (map ed_name ds)), gw')
   | (Inl e, gw') \<Rightarrow> seq (on_store (isConnectionAttached (mc_connection cl))) (\<lambda>attached.
       seq (if attached then remember (\<lambda>g. g\<lparr>mg_lastError := Some (safeMcpFailure e)\<rparr>) else ret ()) (\<lambda>_.
       ret (if isUnavailableCapability e then Ignored else Discovery_Error (safeMcpFailure e)))) gw')"

definition poll_entry :: "mcp_client \<Rightarrow> transport \<Rightarrow> bool \<Rightarrow> (string + poll_result list) mact" where
  "poll_entry cl tr respectSchedule = (\<lambda>gw. case pollConnectionOnce cl tr respectSchedule gw of
     (Inr rs, gw') \<Rightarrow> (Inr (Inr rs), gw')
   | (Inl e, gw') \<Rightarrow> seq (remember (\<lambda>g. g\<lparr>mg_lastError := Some (safeMcpFailure e)\<rparr>)) (\<lambda>_. ret (Inl (safeMcpFailure e))) gw')"

subsection \<open>Timers\<close>

text \<open>The delay to the next round, from the states of the subscriptions that are not suspended.\<close>

definition nextDelay :: "mcp_client \<Rightarrow> int mact" where
  "nextDelay cl = (let cn = mc_connection cl; interval = pt_pollIntervalMs (cn_limits cn) in
     seq (on_store (readW (\<lambda>w. listMcpClientStates (w_mcp w) (Some (cn_connectionId cn))))) (\<lambda>states.
     seq (recall mg_suspended) (\<lambda>suspended.
     seq (on_store (read_now (mc_ru cl))) (\<lambda>t.
     let open_states = filter (\<lambda>s. case ms_subscriptionId s of None \<Rightarrow> True | Some i \<Rightarrow> i \<notin> set suspended) states;
         due = List.map_filter (\<lambda>s. mc_dateParse cl (str_or (ms_nextPollAt s) [])) open_states
     in ret (fold min (map (\<lambda>d. if ts_ms t < d then d - ts_ms t else 250) due) interval)))))"

text \<open>
  What a timer does: a poll that respects the schedule, whose error is kept for the host, and the delay to
  the next one; none after a terminal error of the connection, or when it is detached.
\<close>

definition timer_round :: "mcp_client \<Rightarrow> transport \<Rightarrow> int option mact" where
  "timer_round cl tr = (let cn = mc_connection cl in
     seq (\<lambda>gw. case pollConnectionOnce cl tr True gw of
         (Inl e, gw') \<Rightarrow> remember (\<lambda>g. g\<lparr>mg_lastError := Some (safeMcpFailure e)\<rparr>) gw'
       | (Inr r, gw') \<Rightarrow> (Inr (), gw')) (\<lambda>_.
     seq (on_store (isConnectionAttached cn)) (\<lambda>attached. if \<not> attached then ret None
     else seq (nextDelay cl) (\<lambda>delay. seq (recall mg_terminal) (\<lambda>terminal.
       ret (if terminal then None else Some delay))))))"

subsection \<open>The end of a connection\<close>

definition disabled_input :: "event_source \<Rightarrow> source_input" where
  "disabled_input s = (to_source_line s)\<lparr>si_enabled := Some False\<rparr>"

definition disable_source :: "runtime \<Rightarrow> event_source \<Rightarrow> unit act" where
  "disable_source ru s = (if \<not> es_enabled s then ret ()
     else seq (registerEventSource ru (disabled_input s) (Some client_actor)) (\<lambda>_. ret ()))"

text \<open>
  \<open>detachConnection\<close>: the manager forgets the connection at once; its sessions are closed, and its
  sources are disabled when the writes before it are done.
\<close>

definition detachConnection :: "mcp_client \<Rightarrow> unit mact" where
  "detachConnection cl = (let cn = mc_connection cl in
     seq (remember (\<lambda>g. fresh_manager)) (\<lambda>_.
     seq (on_store (others_act cn)) (\<lambda>_.
     seq (on_store (readW (\<lambda>w. listEventSources (w_sources w) [cn_connectionId cn] False))) (\<lambda>sources.
     on_store (each (disable_source (mc_ru cl)) sources)))))"

end
