(* ===== verification/Schedulers.thy ===== *)
theory Schedulers
  imports Event_Consumer
begin

text \<open>
  \<open>scripts/lib/temporal-deadline-scheduler.mjs\<close> and \<open>scripts/lib/wake-retry-scheduler.mjs\<close>: one
  round of each. The interval timers that start a round are not modelled; \<open>busy\<close> is the flag that
  a round is under way.
\<close>

subsection \<open>Deadlines\<close>

datatype timer_note = Cancelled_Terminal | Timer_Fired "ingest_result list" "delivery_summary list" | Timer_Deferred

definition terminal_match :: "trigger_match option \<Rightarrow> bool" where
  "terminal_match m = (case m of None \<Rightarrow> True | Some r \<Rightarrow> tm_status r \<in> {Expired, Matched, Emitted, Fired})"

text \<open>\<open>listTriggerMatches(triggerId).filter(...).sort(...)[0]\<close>.\<close>

definition latest_of :: "string \<Rightarrow> string \<Rightarrow> world \<Rightarrow> trigger_match option" where
  "latest_of triggerId matchId w = (case sort_by updated_cmp
     (filter (\<lambda>r. tm_matchId r = matchId) (listTriggerMatches (w_matches w) (Some triggerId))) of
       [] \<Rightarrow> None | r # _ \<Rightarrow> Some r)"

definition timer_event :: "temporal_deadline \<Rightarrow> timestamp \<Rightarrow> correlatable_event" where
  "timer_event d now = \<lparr>ce_traceId = ''timer:'' @ dd_deadlineId d, ce_sourceEventId = ''timer:'' @ dd_deadlineId d,
     ce_name = ''event-intelligence.timer.reached'', ce_occurredAt = now, ce_receivedAt = None,
     ce_provider = Some ''event-intelligence'', ce_serverId = Some ''event-intelligence:timer'',
     ce_subscriptionArguments = [], ce_payloadHash = None,
     ce_data = [(''deadlineId'', JStr (dd_deadlineId d)), (''triggerId'', JStr (dd_triggerId d)),
       (''triggerVersion'', JStr (dd_triggerVersion d)), (''matchId'', JStr (dd_matchId d)),
       (''conditionId'', JStr (dd_conditionId d)), (''dueAt'', ts_json (dd_dueAt d))]\<rparr>"

text \<open>A deadline of the pattern is satisfied only by a match with its signature.\<close>

definition match_signature :: "ingest_result \<Rightarrow> string option" where
  "match_signature r = opt_or (Option.bind (ir_match r) (\<lambda>m. Option.bind (tm_patternState m) pm_signature)) None"

definition satisfies_deadline :: "temporal_deadline \<Rightarrow> ingest_result list \<Rightarrow> bool" where
  "satisfies_deadline d results =
     (if starts_with (dd_conditionId d) ''pattern-v2:''
      then list_ex (\<lambda>r. case match_signature r of Some s \<Rightarrow> ''pattern-v2:'' @ s = dd_conditionId d | None \<Rightarrow> False) results
      else results \<noteq> [])"

definition reach_deadline :: "consumer \<Rightarrow> timestamp \<Rightarrow> temporal_deadline \<Rightarrow> (string \<times> timer_note) list act" where
  "reach_deadline cs now d =
     (let ru = en_ru (cs_engine cs); i = dd_deadlineId d in
      seq (readW (\<lambda>w. getTemporalDeadline (w_deadlines w) i)) (\<lambda>latest.
      if map_option dd_status latest \<noteq> Some DPending then ret []
      else seq (readW (latest_of (dd_triggerId d) (dd_matchId d))) (\<lambda>m.
        if terminal_match m then seq (set_deadline ru DCancelled i) (\<lambda>_. ret [(i, Cancelled_Terminal)])
        else seq (ingestCorrelatable cs (timer_event d now)) (\<lambda>result.
          if satisfies_deadline d (summary_results result)
          then seq (set_deadline ru DFired i) (\<lambda>_.
            ret [(i, Timer_Fired (summary_results result) (summary_deliveries result))])
          else ret [(i, Timer_Deferred)]))))"

fun reach_all :: "consumer \<Rightarrow> timestamp \<Rightarrow> temporal_deadline list \<Rightarrow> (string \<times> timer_note) list act" where
  "reach_all cs now [] = ret []"
| "reach_all cs now (d # ds) = seq (reach_deadline cs now d) (\<lambda>o1. seq (reach_all cs now ds) (\<lambda>o2. ret (o1 @ o2)))"

definition runDueDeadlines :: "consumer \<Rightarrow> bool \<Rightarrow> (string \<times> timer_note) list act" where
  "runDueDeadlines cs busy = (if busy then ret []
     else seq (read_now (en_ru (cs_engine cs))) (\<lambda>now.
       seq (readW (\<lambda>w. listDueTemporalDeadlines (w_deadlines w) (ts_ms now))) (reach_all cs now)))"

subsection \<open>Wakes\<close>

text \<open>
  \<open>rs_orphans\<close> is the query of stores that can list matches without a delivery (cursor, limit); the
  JSONL store has none.
\<close>

record retry_scheduler =
  rs_engine :: engine
  rs_resolve :: "string \<Rightarrow> coordinator option"
  rs_orphans :: "(string \<Rightarrow> nat \<Rightarrow> world \<Rightarrow> trigger_match list) option"
  rs_orphanReconcileIntervalMs :: int
  rs_orphanMatchLimit :: nat

text \<open>\<open>lastOrphanScanAt\<close> starts at minus infinity.\<close>

record retry_state =
  ro_lastOrphanScanAt :: "int option"
  ro_orphanCursor :: string

datatype retry_note = No_Coordinator | Match_Missing | Not_Authorized | Retried delivery_outcome

record retry_outcome =
  ru_wakeId :: "string option"
  ru_matchId :: "string option"
  ru_note :: retry_note

definition constructRetryScheduler :: "retry_scheduler \<Rightarrow> int \<Rightarrow> int \<Rightarrow> retry_scheduler" where
  "constructRetryScheduler base intervalMs limit =
     base\<lparr>rs_orphanReconcileIntervalMs := max 1000 (if intervalMs = 0 then 30000 else intervalMs),
       rs_orphanMatchLimit := nat (max 1 (min 100 (if limit = 0 then 32 else limit)))\<rparr>"

definition retry_delivery :: "retry_scheduler \<Rightarrow> wake_delivery \<Rightarrow> retry_outcome act" where
  "retry_delivery sch r = (case rs_resolve sch (wd_runtime r) of
     None \<Rightarrow> ret \<lparr>ru_wakeId = Some (wd_wakeId r), ru_matchId = None, ru_note = No_Coordinator\<rparr>
   | Some co \<Rightarrow> seq (readW (latest_of (wd_triggerId r) (wd_matchId r))) (\<lambda>found. case found of
       None \<Rightarrow> ret \<lparr>ru_wakeId = Some (wd_wakeId r), ru_matchId = None, ru_note = Match_Missing\<rparr>
     | Some m \<Rightarrow> seq (deliverMatched (rs_engine sch) co m) (\<lambda>x.
         ret \<lparr>ru_wakeId = Some (wd_wakeId r), ru_matchId = Some (wd_matchId r), ru_note = Retried (dy_status x)\<rparr>)))"

fun retry_all :: "('a \<Rightarrow> retry_outcome act) \<Rightarrow> 'a list \<Rightarrow> retry_outcome list act" where
  "retry_all f [] = ret []"
| "retry_all f (x # xs) = seq (f x) (\<lambda>a. seq (retry_all f xs) (\<lambda>b. ret (a # b)))"

definition may_recover :: "int \<Rightarrow> trigger_definition \<Rightarrow> trigger_state \<Rightarrow> bool" where
  "may_recover nowMs d s = (let l = td_lifecycle d in
     td_target d \<noteq> None \<and> ts_status s = Active \<and>
     (case lc_expiresAt l of Some t \<Rightarrow> nowMs \<le> ts_ms t | None \<Rightarrow> True) \<and>
     (case lc_leaseUntil l of Some t \<Rightarrow> nowMs \<le> ts_ms t | None \<Rightarrow> True) \<and>
     \<not> (lc_oneShot l \<and> 1 \<le> ts_fireCount s) \<and>
     (case lc_maxFirings l of Some n \<Rightarrow> ts_fireCount s < int n | None \<Rightarrow> True))"

definition recover_orphan :: "retry_scheduler \<Rightarrow> int \<Rightarrow> trigger_match \<Rightarrow> retry_outcome act" where
  "recover_orphan sch nowMs m =
     seq (readW (\<lambda>w. getTrigger (w_triggers w) (tm_triggerId m) (tm_triggerVersion m))) (\<lambda>found.
     seq (readW (\<lambda>w. getTriggerState (w_states w) (tm_triggerId m) (tm_triggerVersion m))) (\<lambda>s.
     case found of
       None \<Rightarrow> ret \<lparr>ru_wakeId = None, ru_matchId = Some (tm_matchId m), ru_note = Not_Authorized\<rparr>
     | Some d \<Rightarrow>
         if \<not> may_recover nowMs d s then ret \<lparr>ru_wakeId = None, ru_matchId = Some (tm_matchId m), ru_note = Not_Authorized\<rparr>
         else (case rs_resolve sch (rt_runtime (the (td_target d))) of
             None \<Rightarrow> ret \<lparr>ru_wakeId = None, ru_matchId = Some (tm_matchId m), ru_note = No_Coordinator\<rparr>
           | Some co \<Rightarrow> seq (deliverMatched (rs_engine sch) co m) (\<lambda>x.
               ret \<lparr>ru_wakeId = map_option wr_wakeId (dy_wake x), ru_matchId = Some (tm_matchId m),
                 ru_note = Retried (dy_status x)\<rparr>))))"

definition scan_due :: "retry_scheduler \<Rightarrow> retry_state \<Rightarrow> int \<Rightarrow> bool" where
  "scan_due sch st nowMs \<longleftrightarrow> rs_orphans sch \<noteq> None \<and>
     (case ro_lastOrphanScanAt st of None \<Rightarrow> True | Some t \<Rightarrow> rs_orphanReconcileIntervalMs sch \<le> nowMs - t)"

definition after_scan :: "retry_scheduler \<Rightarrow> int \<Rightarrow> trigger_match list \<Rightarrow> retry_state" where
  "after_scan sch nowMs orphaned = \<lparr>ro_lastOrphanScanAt = Some nowMs,
     ro_orphanCursor = (if length orphaned = rs_orphanMatchLimit sch then tm_matchId (last orphaned) else [])\<rparr>"

definition finalized :: "world \<Rightarrow> string \<Rightarrow> bool" where
  "finalized w i = is_wake Delivered (latest_wake i w)"

definition due_wakes :: "retry_scheduler \<Rightarrow> timestamp \<Rightarrow> world \<Rightarrow> wake_delivery list" where
  "due_wakes sch now w = listDueWakeDeliveries (ru_host (en_ru (rs_engine sch))) (finalized w) (w_matches w) now (w_deliveries w)"

text \<open>The state of the scheduler is kept also when the round throws.\<close>

definition runDueWakes ::
  "retry_scheduler \<Rightarrow> bool \<Rightarrow> retry_state \<Rightarrow> world \<Rightarrow> (js_error + retry_outcome list) \<times> retry_state \<times> world"
where
  "runDueWakes sch busy st w =
     (if busy then (Inr [], st, w)
      else let ru = en_ru (rs_engine sch) in
        case seq (read_now ru) (\<lambda>now. seq (readW (due_wakes sch now)) (retry_all (retry_delivery sch))) w of
          (Inl e, v) \<Rightarrow> (Inl e, st, v)
        | (Inr outcomes, v) \<Rightarrow>
            let nowMs = ts_ms (ru_clock ru (w_ticks v)); u = v\<lparr>w_ticks := w_ticks v + 1\<rparr> in
            if \<not> scan_due sch st nowMs then (Inr outcomes, st, u)
            else let orphaned = the (rs_orphans sch) (ro_orphanCursor st) (rs_orphanMatchLimit sch) u in
              case retry_all (recover_orphan sch nowMs) orphaned u of
                (Inl e, x) \<Rightarrow> (Inl e, after_scan sch nowMs orphaned, x)
              | (Inr others, x) \<Rightarrow> (Inr (outcomes @ others), after_scan sch nowMs orphaned, x))"

end
