(* ===== verification/System_Frames.thy ===== *)
theory System_Frames
  imports Control_Plane Schedulers Engine_Frames
begin

text \<open>
  Frames of whole components: which relations between worlds are kept by the engine, by the event
  consumer and by the control plane, from what they assume of the tables. Other workers appear in
  these programs at two points, while an evaluation and while a host call is awaited; they are
  asked to keep the relation, too.
\<close>

definition obeys :: "(world \<Rightarrow> world \<Rightarrow> bool) \<Rightarrow> (nat \<Rightarrow> world \<Rightarrow> world) \<Rightarrow> bool" where
  "obeys R f \<longleftrightarrow> (\<forall>n w. R w (f n w))"

subsection \<open>The engine\<close>

context base_frame
begin

lemma keeps_catch: "keeps m \<Longrightarrow> (\<And>e. keeps (f e)) \<Longrightarrow> keeps (catch_do m f)"
  by (auto simp: keeps_def catch_do_def split: prod.splits sum.splits) (metis R_trans snd_conv)+

end

locale match_frame = base_frame +
  assumes R_matches: "R w (w\<lparr>w_matches := t\<rparr>)"

locale engine_frame = lifecycle_frame + match_frame
begin

lemma keeps_append: "keeps (append_match r)"
  by (auto intro!: keepsI R_matches simp: append_match_def split: prod.splits)

lemma keeps_commit: "keeps (commit_match snapshot b r)"
proof (cases snapshot)
  case None
  then show ?thesis by (simp add: commit_match_def) (intro keeps_rules keeps_append)
next
  case (Some s)
  have "R w (w\<lparr>w_matches := snd x\<rparr>)" for w and x :: "(js_error + bool) \<times> match_table" by (rule R_matches)
  then show ?thesis unfolding Some by (auto intro!: keepsI simp: commit_match_def split: prod.splits)
qed

lemma keeps_transition: "keeps (transition r)"
  by (auto intro!: keepsI R_matches simp: transition_def split: prod.splits)

lemma keeps_effects: "keeps (markFired en i wakeId)" "keeps (markDerivedEmitted en i e)"
  unfolding markFired_def markDerivedEmitted_def Let_def
  by (intro keeps_rules keeps_support keeps_transition)+

lemma keeps_evaluation: "obeys R (en_meanwhile en) \<Longrightarrow> keeps (run_evaluation en d b incomplete n)"
  by (rule keepsI) (simp add: run_evaluation_def obeys_def)

lemma keeps_stale:
  assumes "\<And>again b. retry = Some again \<Longrightarrow> keeps (again b)"
  shows "keeps (after_stale ru retry d b nowIso c)"
  unfolding after_stale_def by (intro keeps_rules keeps_support assms) simp

lemma keeps_commit_loop:
  assumes "\<And>again b. retry = Some again \<Longrightarrow> keeps (again b)"
  shows "keeps (commit_loop ru retry d b snapshot ev reached n nowIso cs results)"
proof (induction cs arbitrary: results)
  case (Cons c cs)
  show ?case unfolding commit_loop.simps
    by (intro keeps_rules keeps_commit keeps_stale keeps_support Cons assms)
qed (simp add: keeps_ret)

lemma keeps_pass:
  assumes "obeys R (en_meanwhile en)" and "\<And>again b. retry = Some again \<Longrightarrow> keeps (again b)"
  shows "keeps (evaluate_pass en retry d b n)"
  unfolding evaluate_pass_def Let_def
  by (intro keeps_rules keeps_support keeps_evaluation keeps_commit_loop keeps_append assms)

lemma keeps_buffer: "obeys R (en_meanwhile en) \<Longrightarrow> keeps (evaluatePatternBuffer en d n budget b)"
proof (induction budget arbitrary: b)
  case 0
  then show ?case by (auto intro: keeps_pass)
next
  case (Suc budget)
  show ?case unfolding evaluatePatternBuffer.simps by (rule keeps_pass [OF Suc.prems]) (auto intro: Suc.IH Suc.prems)
qed

lemma keeps_partition:
  assumes "obeys R (en_meanwhile en)"
  shows "keeps (applyPatternWithPartition en d cs event key)"
proof -
  have "keeps (case s of
      Overflows n \<Rightarrow> seq (audit_overflow (en_ru en) d key event nowIso n) (\<lambda>_. throw e)
    | TooLate x y \<Rightarrow> seq (audit_late (en_ru en) d event nowIso x y) (\<lambda>_. ret r)
    | Buffered latest events \<Rightarrow> seq (liftE (new_buffer (en_ru en) d key event nowIso latest events)) (\<lambda>b.
        seq (append_match b) (\<lambda>_. evaluatePatternBuffer en d (ts_ms nowIso) 1 b)))"
    for s nowIso e and r :: "ingest_result list"
    unfolding audit_overflow_def audit_late_def
    by (cases s) (simp_all only: buffer_outcome.case, (intro keeps_rules keeps_support keeps_append keeps_buffer assms)+)
  then show ?thesis unfolding applyPatternWithPartition_def Let_def by (intro keeps_rules keeps_support)
qed

lemma keeps_ingest:
  assumes "obeys R (en_meanwhile en)"
  shows "keeps (ingest en event)"
proof -
  have one: "keeps (ingest_definition en event d)" for d
    unfolding ingest_definition_def applyPattern_def Let_def
    by (intro keeps_rules keeps_support keeps_partition assms)
  have all: "keeps (ingest_all en event ds results)" for ds results
    by (induction ds arbitrary: results) (auto intro!: keeps_ret keeps_seq one)
  have timer: "keeps (ingestTimerEvent en event)"
    unfolding ingestTimerEvent_def Let_def by (intro keeps_rules keeps_support keeps_buffer assms)
  show ?thesis unfolding ingest_def by (intro keeps_rules all timer)
qed

end

text \<open>A frame that the states are outside of, too.\<close>

locale open_frame = support_frame +
  assumes R_match_table: "R w (w\<lparr>w_matches := t\<rparr>)"

sublocale open_frame < engine_frame
  by unfold_locales (rule R_match_table)

subsection \<open>The wakes\<close>

locale wake_frame = engine_frame +
  assumes R_wakes: "R w (w\<lparr>w_wakes := ws\<rparr>)" and R_deliveries: "R w (w\<lparr>w_deliveries := ds\<rparr>)"
    and R_calls: "R w (w\<lparr>w_calls := cs\<rparr>)"
begin

lemma keeps_on_deliveries: "keeps (on_deliveries f)"
  by (auto intro!: keepsI R_deliveries simp: on_deliveries_def split: prod.splits)

lemma keeps_append_wake: "keeps (append_wake r)"
  by (rule keepsI) (simp add: append_wake_def R_wakes)

lemma keeps_call: "obeys R (co_meanwhile co) \<Longrightarrow> keeps (call_host co deliver i packet)"
  by (rule keepsI) (auto simp: call_host_def Let_def obeys_def intro: R_trans [OF R_calls])

lemma keeps_wake_records:
  "keeps (audit_wake ru r label ak f t ds)" "keeps (queue_wake ru m q)" "keeps (only_queue ru m q b)"
  "keeps (persistDeliveredWake r)" "keeps (report_retry ru m q p c del e)" "keeps (report_dead ru m q dl e)"
  "keeps (claimLostOutcome i p e)" "keeps (deliveredResult en m rt i dl)" "keeps (record_failure ru co i c e)"
  unfolding queue_wake_def only_queue_def persistDeliveredWake_def report_retry_def report_dead_def claimLostOutcome_def
    deliveredResult_def finalize_recovered_def audit_queued_def audit_wake_def record_failure_def Let_def
  by (intro keeps_rules keeps_support keeps_append_wake keeps_effects keeps_on_deliveries)+

lemma keeps_failure: "keeps (after_failure ru co m q p c e)"
proof -
  have "keeps (case x of Inl gone \<Rightarrow> ret gone | Inr None \<Rightarrow> report_retry ru m q p c None e
      | Inr (Some dl) \<Rightarrow> if wd_status dl \<noteq> WDeadLetter then report_retry ru m q p c (Some dl) e else report_dead ru m q dl e)"
    for x :: "delivery_result + wake_delivery option"
    by (auto intro!: keeps_if keeps_wake_records keeps_ret split: sum.split option.split)
  then show ?thesis
    unfolding after_failure_def Let_def by (intro keeps_rules keeps_catch keeps_wake_records)
qed

lemma keeps_deliver:
  assumes "obeys R (co_meanwhile co)"
  shows "keeps (deliverMatched en co m)"
proof -
  have "keeps (performClaimedDelivery en co deliver m d q c)" for deliver d q c
    unfolding performClaimedDelivery_def finish_delivery_def Let_def
    by (intro keeps_rules keeps_support keeps_call assms keeps_on_deliveries keeps_wake_records keeps_effects)
  then have "keeps (attempt_delivery en co deliver m d q now)" for deliver d q now
    unfolding attempt_delivery_def Let_def
    by (intro keeps_rules keeps_on_deliveries keeps_catch keeps_wake_records keeps_failure)
  then show ?thesis
    unfolding deliverMatched_def deliver_wake_def Let_def
    by (intro keeps_rules keeps_support keeps_on_deliveries keeps_wake_records keeps_effects keeps_append_wake)
qed

end

subsection \<open>The event consumer and the schedulers\<close>

text \<open>The engine of a consumer and its coordinators work beside others that keep the relation.\<close>

definition well_behaved :: "(world \<Rightarrow> world \<Rightarrow> bool) \<Rightarrow> (coordinator \<Rightarrow> bool) \<Rightarrow> consumer \<Rightarrow> bool" where
  "well_behaved R good cs \<longleftrightarrow> obeys R (en_meanwhile (cs_engine cs)) \<and>
     (\<forall>runtime co. cs_coordinators cs runtime = Some co \<longrightarrow> good co)"

locale consumer_frame = engine_frame +
  fixes good :: "coordinator \<Rightarrow> bool"
  assumes keeps_delivery: "good co \<Longrightarrow> keeps (deliverMatched en co m)"
    and keeps_append_derived: "keeps (append_derived r)"
begin

lemma keeps_emit: "keeps (emitMatched ru m d)"
  unfolding emitMatched_def create_derived_def store_derived_def audit_derived_def Let_def
  by (intro keeps_rules keeps_support keeps_append_derived)

lemma keeps_match:
  assumes "well_behaved R good cs" and "\<And>f e. deeper = Some f \<Longrightarrow> keeps (f e)"
  shows "keeps (consume_match cs deeper r m)"
proof -
  have emit: "keeps (emit_and_enter cs deeper r m d s)" for d s
    unfolding emit_and_enter_def Let_def by (intro keeps_rules keeps_emit keeps_effects assms)
  have deliver: "keeps (deliver_match cs r m t)" for t
    unfolding deliver_match_def
    by (intro keeps_rules keeps_delivery) (use assms(1) in \<open>auto simp: well_behaved_def\<close>)
  have derive: "keeps (case x of (Some s, True) \<Rightarrow> seq (emit_and_enter cs deeper r m d s) (\<lambda>x. ret [x]) | _ \<Rightarrow> ret [])" for x d
    by (auto intro!: keeps_rules emit split: prod.split option.split bool.split)
  show ?thesis
    unfolding consume_match_def by (rule keeps_seq keeps_readW keeps_option keeps_ret derive deliver)+
qed

lemma keeps_consume:
  assumes "well_behaved R good cs" and "\<And>f e. deeper = Some f \<Longrightarrow> keeps (f e)"
  shows "keeps (consume_all cs deeper rs acc)"
proof (induction rs arbitrary: acc)
  case (Cons r rs)
  have one: "keeps (consume_match cs deeper r m)" for m by (rule keeps_match) (fact assms)+
  show ?case by (auto intro!: keeps_seq keeps_prod one Cons split: bool.split option.split)
qed (simp add: keeps_ret)

lemma keeps_ingest_at: "well_behaved R good cs \<Longrightarrow> keeps (ingest_at cs k event)"
proof (induction k arbitrary: event)
  case 0
  show ?case unfolding ingest_at.simps
    by (intro keeps_rules keeps_ingest keeps_consume 0) (use 0 in \<open>auto simp: well_behaved_def\<close>)
next
  case (Suc k)
  show ?case unfolding ingest_at.simps
    by (intro keeps_rules keeps_ingest keeps_consume Suc.prems)
      (use Suc in \<open>auto simp: well_behaved_def\<close>)
qed

lemma keeps_correlatable: "well_behaved R good cs \<Longrightarrow> keeps (ingestCorrelatable cs event)"
  by (simp add: ingestCorrelatable_def keeps_ingest_at)

lemma keeps_occurrence: "well_behaved R good cs \<Longrightarrow> keeps (ingestMcpOccurrence cs parse occurrence c)"
  unfolding ingestMcpOccurrence_def by (intro keeps_rules keeps_correlatable)

lemma keeps_due_deadlines:
  assumes "well_behaved R good cs"
  shows "keeps (runDueDeadlines cs busy)"
proof -
  have "keeps (reach_deadline cs now d)" for now d
    unfolding reach_deadline_def Let_def by (intro keeps_rules keeps_support keeps_correlatable assms)
  then have "keeps (reach_all cs now ds)" for now ds
    by (induction ds) (auto intro!: keeps_rules)
  then show ?thesis unfolding runDueDeadlines_def by (intro keeps_rules keeps_support)
qed

lemma keeps_due_wakes:
  assumes good: "\<And>runtime co. rs_resolve sch runtime = Some co \<Longrightarrow> good co"
  shows "R w (snd (snd (runDueWakes sch busy st w)))"
proof -
  have all: "keeps (retry_all f xs)" if "\<And>x. keeps (f x)" for f and xs :: "'x list"
    using that by (induction xs) (auto intro!: keeps_rules)
  have one: "keeps (retry_delivery sch r)" for r
    unfolding retry_delivery_def by (intro keeps_rules keeps_delivery good)
  have orphan: "keeps (recover_orphan sch nowMs m)" for nowMs m
    unfolding recover_orphan_def by (intro keeps_rules keeps_delivery good)
  let ?due = "seq (read_now (en_ru (rs_engine sch))) (\<lambda>now. seq (readW (due_wakes sch now)) (retry_all (retry_delivery sch)))"
  have due: "keeps ?due" by (intro keeps_rules keeps_support all one)
  have tick: "R x (x\<lparr>w_ticks := w_ticks x + 1\<rparr>)" for x by (rule R_ticks) simp
  have others: "R x (snd (retry_all (recover_orphan sch nowMs) ms x))" for nowMs ms x
    using all [of "recover_orphan sch nowMs" ms] orphan by (simp add: keeps_def)
  obtain r v where v: "?due w = (r, v)" by fastforce
  have "R w v" using keepsD [OF due v] .
  moreover have "R v x" if "retry_all (recover_orphan sch nowMs) ms (v\<lparr>w_ticks := w_ticks v + 1\<rparr>) = (o', x)" for nowMs ms o' x
    using R_trans [OF tick others [of _ nowMs ms]] that by (metis snd_conv)
  ultimately have step: "R w x" if "retry_all (recover_orphan sch nowMs) ms (v\<lparr>w_ticks := w_ticks v + 1\<rparr>) = (o', x)" for nowMs ms o' x
    using R_trans that by blast
  show ?thesis
    using v R_trans [OF \<open>R w v\<close> tick] \<open>R w v\<close> step
    by (cases r) (auto simp: runDueWakes_def Let_def R_refl split: prod.splits sum.splits)
qed

end

subsection \<open>The control plane\<close>

context base_frame
begin

lemma keeps_audit_control: "keeps (audit_control ru ak et i tr ds)" "keeps (audit_trigger ru ak i ds)" "keeps (audit_contract ru ak k ds)"
  unfolding audit_trigger_def audit_contract_def audit_control_def by (intro keeps_rules keeps_base)+

end

text \<open>A frame that the contracts are outside of.\<close>

locale contract_frame = base_frame +
  assumes R_contracts: "R w (w\<lparr>w_contracts := t\<rparr>)"
begin

lemma keeps_registration: "keeps (registerProducer ru (audit_contract ru) name version schema producer)"
proof -
  have put: "keeps (put_contract ru input)" for input
    unfolding put_contract_def
    by (intro keeps_seq keeps_readW keeps_option keeps_ret keeps_base)
      (auto intro!: keepsI R_contracts split: prod.splits)
  have "keeps (case x of
      Inl c \<Rightarrow> seq (audit_contract ru ak k (ds c)) (\<lambda>_. throw (conflict_error c))
    | Inr (canonical, print, existing) \<Rightarrow> seq (put_contract ru (i canonical print existing)) (\<lambda>c.
        seq (audit_contract ru (bk existing) k (es print c)) (\<lambda>_. ret (existing \<noteq> None, c))))"
    for x :: "contract_conflict + (json \<times> string \<times> derived_contract option)" and ak k ds i bk es
    by (cases x) (auto intro!: keeps_rules put keeps_audit_control)
  then show ?thesis
    unfolding registerProducer_def assertCompatible_def by (intro keeps_seq keeps_readW)
qed

end

text \<open>A frame that the registry of sources is outside of, and the contracts when the runtime is apt.\<close>

locale table_frame = match_frame +
  fixes apt :: "runtime \<Rightarrow> bool"
  assumes R_sources: "R w (w\<lparr>w_sources := t\<rparr>)"
    and keeps_producer: "apt ru \<Longrightarrow> keeps (registerProducer ru (audit_contract ru) name version (JObj schema) producer)"
begin

lemma keeps_put_source: "keeps (put_source ru input)"
  unfolding put_source_def
  by (intro keeps_seq keeps_base) (auto intro!: keepsI R_sources split: prod.splits)

lemma keeps_register_source: "keeps (registerEventSource ru input actor)"
  unfolding registerEventSource_def by (intro keeps_rules keeps_put_source keeps_audit_control)

lemma keeps_output_source: "apt ru \<Longrightarrow> keeps (registerDerivedOutputSource ru d)"
  unfolding registerDerivedOutputSource_def
proof -
  assume "apt ru"
  then have "keeps (seq (registerProducer ru (audit_contract ru) n v (buildDerivedOutputPayloadSchema t d s) p) (\<lambda>(known, c).
      seq (registerEventSource ru (derived_source d s c) a) (\<lambda>_. ret ())))" for n v t d s p a
    unfolding buildDerivedOutputPayloadSchema_def by (intro keeps_rules keeps_producer keeps_register_source)
  then show "keeps (case td_derivedEvent d of None \<Rightarrow> ret () | Some s \<Rightarrow>
      seq (readW (\<lambda>w. buildDerivedOutputPayloadSchema (w_sources w) d s)) (\<lambda>schema.
      seq (registerProducer ru (audit_contract ru) (de_name s) (de_contractVersion s) schema (td_triggerId d, td_version d))
        (\<lambda>(known, c). seq (registerEventSource ru (derived_source d s c) (Some derived_events_actor)) (\<lambda>_. ret ()))))"
    by (intro keeps_option keeps_ret keeps_read_at) (simp add: keeps_def)
qed

lemma keeps_output_contract: "keeps (assertDerivedOutputContract ru d)"
proof -
  have "keeps (case x of Inr _ \<Rightarrow> ret () | Inl c \<Rightarrow> seq (audit_contract ru ak k (ds c)) (\<lambda>_. throw (conflict_error c)))"
    for x :: "contract_conflict + (json \<times> string \<times> derived_contract option)" and ak k ds
    by (cases x) (auto intro!: keeps_rules keeps_audit_control)
  then show ?thesis unfolding assertDerivedOutputContract_def assertCompatible_def by (intro keeps_rules)
qed

lemma keeps_retire: "keeps (retireMatches ru i v)"
proof -
  have "keeps (retire_one ru now r)" for now r
    unfolding retire_one_def by (intro keeps_seq keeps_base) (auto intro!: keepsI R_matches)
  then show ?thesis unfolding retireMatches_def by (intro keeps_rules keeps_base)
qed

lemma keeps_lease:
  assumes "keeps m"
  shows "keeps (withTriggerMutationLease cp i v m)"
proof -
  have "keeps (claim_control cp k)" "keeps (release_control cp k)" for k
    unfolding claim_control_def release_control_def by (intro keeps_seq keeps_base keeps_on_leases)+
  then show ?thesis
    using assms unfolding withTriggerMutationLease_def Let_def by (intro keeps_rules)
qed

end

locale control_frame = engine_frame + table_frame

text \<open>The operations on triggers keep what the tables of triggers and of states are outside of.\<close>

locale outer_frame = open_frame + control_frame +
  assumes R_triggers: "R w (w\<lparr>w_triggers := tt\<rparr>)"
begin

lemma keeps_register: "keeps (register en d)"
proof -
  have "keeps (\<lambda>w. case putTrigger d (w_triggers w) of (r, t) \<Rightarrow> (r, w\<lparr>w_triggers := t\<rparr>))" for d
    by (auto intro!: keepsI R_triggers split: prod.splits)
  then have checked: "keeps (case x of None \<Rightarrow> throw e | Some (Inl e) \<Rightarrow> throw e
      | Some (Inr _) \<Rightarrow> (\<lambda>w. case putTrigger d (w_triggers w) of (r, t) \<Rightarrow> (r, w\<lparr>w_triggers := t\<rparr>)))"
    for x :: "(js_error + unit) option" and e
    by (auto intro: keeps_throw split: option.split sum.split)
  show ?thesis unfolding register_def by (rule keeps_seq keeps_readW keeps_prod checked)+
qed

lemma keeps_put_state: "keeps (put_state ru i v st actor md)"
  unfolding put_state_def by (intro keeps_rules keeps_support keeps_states)

lemma keeps_install: "apt (cp_ru cp) \<Longrightarrow> keeps (install cp d actor owner ids)"
  unfolding install_def by (intro keeps_rules keeps_output_contract keeps_register keeps_put_state keeps_output_source)

lemma keeps_create: "apt (cp_ru cp) \<Longrightarrow> keeps (createTrigger cp d q)"
  unfolding createTrigger_def Let_def by (intro keeps_rules keeps_install keeps_audit_control)

lemma keeps_update: "apt (cp_ru cp) \<Longrightarrow> keeps (updateTrigger cp i v d q)"
  unfolding updateTrigger_def updateTriggerUnlocked_def Let_def
  by (intro keeps_lease keeps_rules keeps_retire keeps_put_state keeps_install keeps_audit_control)

lemma keeps_delete: "keeps (deleteTrigger cp i v q)"
  unfolding deleteTrigger_def deleteTriggerUnlocked_def Let_def
  by (intro keeps_lease keeps_rules keeps_retire keeps_put_state keeps_audit_control)

lemma keeps_set_lifecycle: "keeps (setTriggerLifecycle cp i v action q)"
  unfolding setTriggerLifecycle_def setTriggerLifecycleUnlocked_def Let_def
  by (intro keeps_lease keeps_rules keeps_put_state keeps_audit_control)

end

end
