(* ===== verification/Mcp_Frames.thy ===== *)
theory Mcp_Frames
  imports Mcp_Manager System_Frames
begin

text \<open>
  Frames of the MCP client: its actions keep every relation that the delivery states and the
  occurrence log are outside of, beside workers that keep it.
\<close>

definition behaved_client :: "(world \<Rightarrow> world \<Rightarrow> bool) \<Rightarrow> (coordinator \<Rightarrow> bool) \<Rightarrow> mcp_client \<Rightarrow> bool" where
  "behaved_client R good cl \<longleftrightarrow> obeys R (cn_meanwhile (mc_connection cl)) \<and> well_behaved R good (mc_consumer cl)"

subsection \<open>Requests and looks at the connection\<close>

context base_frame
begin

lemma keeps_connected: "keeps (isConnectionAttached cn)" "keeps (assertConnectionAttached cn)"
proof -
  show attached: "keeps (isConnectionAttached cn)" by (rule keepsI) (simp add: isConnectionAttached_def R_ticks)
  show "keeps (assertConnectionAttached cn)" unfolding assertConnectionAttached_def by (intro keeps_rules attached)
qed

lemma keeps_others: "obeys R (cn_meanwhile cn) \<Longrightarrow> keeps (others_act cn)"
  by (rule keepsI) (simp add: others_act_def obeys_def)

lemma keeps_requests:
  assumes "obeys R (cn_meanwhile cn)"
  shows "keeps (rpc cn method params)" and "keeps (capabilities_of cn)"
proof -
  have "R w (cn_meanwhile cn n (w\<lparr>w_ticks := Suc (w_ticks w)\<rparr>))" for n w
    using R_trans [OF R_ticks [of w "Suc (w_ticks w)"]] assms by (simp add: obeys_def)
  then show "keeps (rpc cn method params)" and "keeps (capabilities_of cn)"
    by (auto intro!: keepsI simp: rpc_def capabilities_of_def Let_def)
qed

lemma keeps_sum: "(\<And>a. x = Inl a \<Longrightarrow> keeps (f a)) \<Longrightarrow> (\<And>b. x = Inr b \<Longrightarrow> keeps (g b)) \<Longrightarrow>
    keeps (case x of Inl a \<Rightarrow> f a | Inr b \<Rightarrow> g b)"
  by (cases x) simp_all

lemma keeps_pages: "obeys R (cn_meanwhile cn) \<Longrightarrow> keeps (discover_pages cn k cursor seen ds)"
proof (induction k arbitrary: cursor seen ds)
  case (Suc k)
  show ?case unfolding discover_pages.simps
    by (intro keeps_rules keeps_sum keeps_requests keeps_connected Suc)
qed (simp add: keeps_throw)

end

subsection \<open>Handlers of the manager\<close>

context base_frame
begin

definition keepsM :: "'a mact \<Rightarrow> bool" where
  "keepsM m \<longleftrightarrow> (\<forall>g w. R w (snd (snd (m (g, w)))))"

lemma keepsM_D: "keepsM m \<Longrightarrow> m (g, w) = (r, (g', w')) \<Longrightarrow> R w w'"
  by (metis keepsM_def snd_conv)

lemma keepsM_store: "keeps m \<Longrightarrow> keepsM (on_store m)"
  by (auto simp: keepsM_def keeps_def on_store_def split: prod.split) (metis snd_conv)

lemma keepsM_memory: "keepsM (remember f)" "keepsM (recall h)" "keepsM (ret x)" "keepsM (throw e)"
  by (simp_all add: keepsM_def remember_def recall_def R_refl)

lemma keepsM_seq:
  assumes "keepsM m" and "\<And>x. keepsM (f x)"
  shows "keepsM (seq m f)"
proof -
  have "R w (snd (snd (seq m f (g, w))))" for g w
  proof -
    obtain r h v where m: "m (g, w) = (r, (h, v))" by (metis prod.collapse)
    have v: "R w v" by (rule keepsM_D [OF assms(1) m])
    show ?thesis
    proof (cases r)
      case (Inr x)
      then show ?thesis using m R_trans [OF v] assms(2) by (simp add: keepsM_def)
    qed (use m v in simp)
  qed
  then show ?thesis by (simp add: keepsM_def)
qed

lemma keepsM_if: "(b \<Longrightarrow> keepsM m) \<Longrightarrow> (\<not> b \<Longrightarrow> keepsM n) \<Longrightarrow> keepsM (if b then m else n)"
  and keepsM_option: "keepsM m \<Longrightarrow> (\<And>y. keepsM (f y)) \<Longrightarrow> keepsM (case x of None \<Rightarrow> m | Some y \<Rightarrow> f y)"
  by (cases x; simp)+

lemmas keepsM_rules = keepsM_seq keepsM_if keepsM_option keepsM_memory

lemma keepsM_connected: "keepsM (on_store (isConnectionAttached cn))" "keepsM (on_store (assertConnectionAttached cn))"
  by (rule keepsM_store, rule keeps_connected)+

lemma keepsM_close: "obeys R (cn_meanwhile cn) \<Longrightarrow> keepsM (closeSession cn i)"
  unfolding closeSession_def by (intro keepsM_rules keepsM_store keeps_others)

lemma keepsM_reconcile: "obeys R (cn_meanwhile cn) \<Longrightarrow> keepsM (reconcileDeliverySessions cn ids)"
proof -
  assume cn: "obeys R (cn_meanwhile cn)"
  have "keepsM (close_each cn is)" for "is"
    by (induction "is") (unfold close_each.simps, (intro keepsM_rules keepsM_close cn; assumption)+)
  then show ?thesis unfolding reconcileDeliverySessions_def by (intro keepsM_rules keepsM_connected)
qed

lemma keeps_stream:
  assumes "obeys R (cn_meanwhile cn)"
  shows "keeps (open_stream cn tr delivery params)" and "keeps (stream_alive cn tr)"
proof -
  have "R w (cn_meanwhile cn n (w\<lparr>w_ticks := Suc (w_ticks w)\<rparr>))" for n w
    using R_trans [OF R_ticks [of w "Suc (w_ticks w)"]] assms by (simp add: obeys_def)
  then show "keeps (open_stream cn tr delivery params)" by (auto intro!: keepsI simp: open_stream_def Let_def)
  show "keeps (stream_alive cn tr)" by (auto intro!: keepsI simp: stream_alive_def Let_def R_ticks)
qed

end

subsection \<open>The client\<close>

text \<open>The session of a subscription, when its own writes keep the relation.\<close>

locale session_frame = consumer_frame +
  assumes R_occurrences: "R w (w\<lparr>w_occurrences := l\<rparr>)"
begin

lemma keeps_ingest_occurrence: "behaved_client R good cl \<Longrightarrow> keeps (ingestOccurrence cl sn v)"
proof -
  assume "behaved_client R good cl"
  then have "keeps (ingestMcpOccurrence (mc_consumer cl) parse x c)" for parse x c
    by (simp add: behaved_client_def keeps_occurrence)
  moreover have "keeps (append_occurrence server e i)" for server e i
    by (auto intro!: keepsI R_occurrences simp: append_occurrence_def split: prod.splits)
  ultimately show ?thesis
    unfolding ingestOccurrence_def Let_def by (intro keeps_rules keeps_connected keeps_support)
qed

lemma keeps_ingest_page: "behaved_client R good cl \<Longrightarrow> keeps (ingest_page cl sn vs p)"
  by (induction vs arbitrary: p) (auto intro!: keeps_rules keeps_ingest_occurrence)

definition saves :: "mcp_client \<Rightarrow> subscription \<Rightarrow> bool" where
  "saves cl sn \<longleftrightarrow> behaved_client R good cl \<and> (\<forall>patch. keeps (saveSubscriptionState cl sn patch))"

lemma savesD: "saves cl sn \<Longrightarrow> behaved_client R good cl" "saves cl sn \<Longrightarrow> keeps (saveSubscriptionState cl sn patch)"
  by (simp_all add: saves_def)

lemma keeps_batch:
  assumes "saves cl sn" and "\<And>f p. again = Some f \<Longrightarrow> keeps (f p)"
  shows "keeps (poll_batch cl sn again p)"
proof -
  have calls: "obeys R (cn_meanwhile (mc_connection cl))" using assms(1) by (simp add: behaved_client_def saves_def)
  have next_batch: "keeps (case (b, again) of (True, Some f) \<Rightarrow> f x | _ \<Rightarrow> ret y)" for b x y
    using assms(2) by (auto intro: keeps_ret split: option.split bool.split)
  show ?thesis
    unfolding poll_batch_def terminal_poll_def report_gap_def save_page_def Let_def
    by (intro keeps_seq keeps_sum keeps_option keeps_if keeps_requests calls keeps_connected keeps_throw keeps_ret keeps_liftE
      savesD [OF assms(1)] keeps_support keeps_ingest_page next_batch)
qed

lemma keeps_batches: "saves cl sn \<Longrightarrow> keeps (poll_batches cl sn k p)"
proof (induction k arbitrary: p)
  case (Suc k)
  show ?case unfolding poll_batches.simps by (rule keeps_batch [OF Suc.prems]) (use Suc in auto)
qed (auto intro: keeps_batch)

lemma keeps_poll: "saves cl sn \<Longrightarrow> keeps (pollSubscription cl sn suspended b)"
  unfolding pollSubscription_def Let_def by (intro keeps_rules keeps_connected keeps_support keeps_batches)

lemma keeps_callbacks:
  assumes "saves cl sn"
  shows "keeps (onEvent cl sn delivery v)" and "keeps (onActive cl sn delivery v)" and "keeps (onGap cl sn delivery v)"
proof -
  show "keeps (onEvent cl sn delivery v)"
    unfolding onEvent_def Let_def
    by (intro keeps_rules keeps_connected keeps_ingest_occurrence savesD [OF assms])
  have active: "keeps (onActive cl sn delivery x)" for x
    unfolding onActive_def activate_def by (intro keeps_rules keeps_connected savesD [OF assms] keeps_support)
  then show "keeps (onActive cl sn delivery v)" .
  have "keeps (case u of JObj kvs \<Rightarrow> onActive cl sn delivery (embed (JObj (assign ''truncated'' (JBool True) kvs)) 1) | _ \<Rightarrow> ret ())" for u
    by (cases u) (simp_all add: active keeps_ret)
  then show "keeps (onGap cl sn delivery v)" unfolding onGap_def by (intro keeps_rules keeps_connected)
qed

end

locale client_frame = session_frame + control_frame +
  assumes R_mcp: "R w (w\<lparr>w_mcp := m\<rparr>)"
begin

lemma keeps_discover: "behaved_client R good cl \<Longrightarrow> keeps (discoverConnection cl)"
  unfolding discoverConnection_def register_descriptor_def Let_def behaved_client_def
  by (intro keeps_rules keeps_requests keeps_connected keeps_pages keeps_others keeps_register_source; simp)

lemma keeps_put_mcp: "keeps (put_mcp_state ru input)"
  unfolding put_mcp_state_def by (intro keeps_seq keeps_support) (auto intro!: keepsI R_mcp split: prod.splits)

lemma keeps_save: "behaved_client R good cl \<Longrightarrow> keeps (saveSubscriptionState cl sn patch)"
  unfolding saveSubscriptionState_def Let_def behaved_client_def
  by (intro keeps_rules keeps_others keeps_connected keeps_put_mcp) simp

lemma behaved_saves: "behaved_client R good cl \<Longrightarrow> saves cl sn"
  by (simp add: saves_def keeps_save)

lemma keeps_acknowledge: "behaved_client R good cl \<Longrightarrow> keeps (acknowledgeReconciledGap cl name args e n)"
  unfolding acknowledgeReconciledGap_def Let_def behaved_client_def
  by (intro keeps_rules keeps_connected keeps_others keeps_put_mcp) simp

lemma keepsM_ensure:
  assumes "behaved_client R good cl"
  shows "keepsM (ensureDeliverySession cl tr sn delivery)"
proof -
  have cn: "obeys R (cn_meanwhile (mc_connection cl))" using assms by (simp add: behaved_client_def)
  have "keeps (start_stream cl tr sn delivery current h)" for current h
    unfolding start_stream_def Let_def
    by (intro keeps_catch keeps_rules keeps_stream cn keeps_callbacks behaved_saves assms keeps_save)
  then show ?thesis
    unfolding ensureDeliverySession_def Let_def
    by (intro keepsM_rules keepsM_connected keepsM_close cn keepsM_store keeps_readW keeps_stream)
qed

lemma keepsM_round:
  assumes "behaved_client R good cl"
  shows "keepsM (pollConnectionOnce cl tr b)"
proof -
  have cn: "obeys R (cn_meanwhile (mc_connection cl))" using assms by (simp add: behaved_client_def)
  have keep: "keepsM (case po_status out of Poll_Ok \<Rightarrow> m | Poll_Scheduled \<Rightarrow> ret () | Poll_Terminal Forbidden \<Rightarrow> remember f
      | Poll_Terminal Not_Found \<Rightarrow> remember h)" if "keepsM m" for out m f h
    using that by (auto intro: keepsM_memory split: poll_status.split terminal_error.split)
  have poll: "keepsM (poll_managed cl sn b)" for sn
    unfolding poll_managed_def Let_def
    by (intro keepsM_seq keepsM_if keepsM_memory keepsM_store keeps_poll behaved_saves assms keep keepsM_connected keeps_connected)
  have one: "keepsM (poll_one cl tr b sn)" for sn
    unfolding poll_one_def Let_def
    by (intro keepsM_rules keepsM_connected keepsM_close cn poll keepsM_ensure assms)
  have all: "keepsM (poll_each cl tr b sns)" for sns
    by (induction sns) (unfold poll_each.simps, (intro keepsM_rules one; assumption)+)
  have "keepsM (discover_managed cl)"
    unfolding discover_managed_def by (intro keepsM_rules keepsM_store keeps_discover assms)
  then show ?thesis
    unfolding pollConnectionOnce_def Let_def
    by (intro keepsM_rules keepsM_connected keepsM_store keeps_readW all keepsM_reconcile cn)
qed

lemma keepsM_timer:
  assumes "behaved_client R good cl"
  shows "keepsM (timer_round cl tr)"
proof -
  have "keepsM (\<lambda>gw. case pollConnectionOnce cl tr True gw of
         (Inl e, gw') \<Rightarrow> remember (\<lambda>g. g\<lparr>mg_lastError := Some (safeMcpFailure e)\<rparr>) gw'
       | (Inr r, gw') \<Rightarrow> (Inr (), gw'))"
    using keepsM_round [OF assms, of tr True]
    by (auto simp: keepsM_def remember_def split: prod.split sum.split) (metis snd_conv)+
  then show ?thesis
    unfolding timer_round_def nextDelay_def Let_def
    by (intro keepsM_rules keepsM_connected keepsM_store keeps_readW keeps_support)
qed

lemma keepsM_detach:
  assumes "behaved_client R good cl"
  shows "keepsM (detachConnection cl)"
  using assms unfolding detachConnection_def disable_source_def Let_def behaved_client_def
  by (intro keepsM_rules keepsM_store keeps_rules keeps_others keeps_register_source) simp_all

end

end
