(* ===== verification/Wake_Delivery.thy ===== *)
theory Wake_Delivery
  imports Wake_Coordinator Engine_Effects
begin

text \<open>
  What the wake coordinator promises: the host is called at most once for each claim and never
  after the delivery is over, a wake is given up after the configured number of attempts, and a
  wake that is reported as delivered has fired its match, also when the process died in between.
\<close>

subsection \<open>Deliveries only move forward\<close>

definition keyed :: "wake_table \<Rightarrow> bool" where
  "keyed t \<longleftrightarrow> (\<forall>i r. getWakeDelivery t i = Some r \<longrightarrow> wd_wakeId r = i)"

definition moves :: "wake_table \<Rightarrow> wake_table \<Rightarrow> bool" where
  "moves t t' \<longleftrightarrow> (keyed t \<longrightarrow> keyed t' \<and>
     (\<forall>i c. getWakeDelivery t i = Some c \<longrightarrow> (\<exists>c'. getWakeDelivery t' i = Some c' \<and> progress c c')))"

lemma get_put_delivery: "getWakeDelivery (put_delivery r t) = (getWakeDelivery t)(wd_wakeId r \<mapsto> r)"
  by (simp add: getWakeDelivery_def put_delivery_def fun_eq_iff)

lemma moves_refl [simp]: "moves t t"
  by (simp add: moves_def)

lemma moves_put: "getWakeDelivery t (wd_wakeId r) = Some c \<Longrightarrow> progress c r \<Longrightarrow> moves t (put_delivery r t)"
  by (auto simp: moves_def keyed_def get_put_delivery)

lemma moves_updates: "updates t t' \<Longrightarrow> moves t t'"
  unfolding moves_def keyed_def
  by (auto simp: updates_def get_put_delivery split: if_splits)

lemma ensure_moves: "ensureWakeDelivery input t = (r, t') \<Longrightarrow> moves t t'"
  by (rule moves_updates) (rule ensure_updates)

lemma keyed_get: "keyed t \<Longrightarrow> getWakeDelivery t i = Some c \<Longrightarrow> wd_wakeId c = i"
  by (simp add: keyed_def)

lemma claim_moves:
  assumes "keyed t" and "claimWakeDelivery i worker now ms t = (r, t')"
  shows "(t' = t \<and> (\<forall>c. r \<noteq> Inr (Some c))) \<or>
    (\<exists>b c. r = Inr (Some c) \<and> getWakeDelivery t i = Some b \<and> \<not> finished b \<and> t' = put_delivery c t \<and> wd_wakeId c = i \<and>
       wd_attemptCount c = Suc (wd_attemptCount b) \<and> wd_status c = WClaimed \<and> wd_leaseOwner c = Some worker \<and> progress b c)"
proof (cases rule: claim_cases [of i worker now ms t])
  case (rejected e)
  then show ?thesis using assms(2) by auto
next
  case (claimed b until)
  then show ?thesis using assms keyed_get [OF assms(1) claimed(1)] by (auto simp: progress_def)
qed

lemma complete_moves:
  assumes "keyed t" and "completeWakeDelivery i worker n receipt now t = (r, t')"
  shows "moves t t'"
proof (cases "t' = t")
  case False
  then obtain c u where c: "getWakeDelivery t i = Some c" "assertWakeClaimGeneration c worker n True = Inr u"
      "wd_status c \<noteq> WDelivered"
    using assms(2) by (auto simp: completeWakeDelivery_def split: option.splits sum.splits if_splits)
  have "wd_status c = WClaimed" using generation_current(2) [OF c(2)] c(3) by simp
  then show ?thesis
    using c assms(2) keyed_get [OF assms(1) c(1)]
    by (auto simp: completeWakeDelivery_def Let_def progress_def finished_def intro!: moves_put [of _ _ c])
qed simp

lemma fail_moves:
  assumes "keyed t" and "failWakeDelivery i worker n message now most later t = (r, t')"
  shows "moves t t'"
proof (cases "t' = t")
  case False
  then obtain c u where c: "getWakeDelivery t i = Some c" "assertWakeClaimGeneration c worker n False = Inr u"
    using assms(2) by (auto simp: failWakeDelivery_def split: option.splits sum.splits)
  have "wd_status c = WClaimed" using generation_current(2) [OF c(2)] by simp
  then show ?thesis
    using c assms(2) keyed_get [OF assms(1) c(1)]
    by (auto simp: failWakeDelivery_def Let_def progress_def finished_def intro!: moves_put [of _ _ c])
qed simp

subsection \<open>Calls of the host and claims\<close>

definition claims :: "world \<Rightarrow> string \<Rightarrow> nat" where
  "claims w i = (case getWakeDelivery (w_deliveries w) i of None \<Rightarrow> 0 | Some r \<Rightarrow> wd_attemptCount r)"

definition calls :: "world \<Rightarrow> string \<Rightarrow> nat" where
  "calls w i = count_list (w_calls w) i"

definition over :: "world \<Rightarrow> string \<Rightarrow> bool" where
  "over w i \<longleftrightarrow> (case getWakeDelivery (w_deliveries w) i of None \<Rightarrow> False | Some r \<Rightarrow> finished r)"

text \<open>From \<open>w\<close> to \<open>w'\<close> the calls for each wake grew no more than its claims, apart from a call that was paid before.\<close>

definition spends :: "string option \<Rightarrow> world \<Rightarrow> world \<Rightarrow> bool" where
  "spends paid w w' \<longleftrightarrow> (keyed (w_deliveries w) \<longrightarrow> keyed (w_deliveries w') \<and>
     (\<forall>i. claims w i \<le> claims w' i \<and> calls w' i + claims w i \<le> calls w i + claims w' i + (if paid = Some i then 1 else 0) \<and>
        (over w i \<and> paid \<noteq> Some i \<longrightarrow>
           getWakeDelivery (w_deliveries w') i = getWakeDelivery (w_deliveries w) i \<and> calls w' i = calls w i)))"

abbreviation handed :: "world \<Rightarrow> world \<Rightarrow> bool" where
  "handed \<equiv> spends None"

lemma over_same: "getWakeDelivery (w_deliveries w') i = getWakeDelivery (w_deliveries w) i \<Longrightarrow> over w' i = over w i"
  by (simp add: over_def)

lemma spends_trans:
  assumes "spends p u v" and "spends q v w" and "p = None \<or> q = None"
  shows "spends (case p of None \<Rightarrow> q | Some i \<Rightarrow> Some i) u w"
  unfolding spends_def
proof (intro impI conjI allI)
  assume k: "keyed (w_deliveries u)"
  note uv = assms(1) [unfolded spends_def, rule_format, OF k]
  note vw = assms(2) [unfolded spends_def, rule_format, OF uv [THEN conjunct1]]
  show "keyed (w_deliveries w)" using vw by blast
  fix i
  show "claims u i \<le> claims w i" using uv vw by (meson order_trans)
  show "calls w i + claims u i \<le> calls u i + claims w i + (if (case p of None \<Rightarrow> q | Some j \<Rightarrow> Some j) = Some i then 1 else 0)"
    using uv [THEN conjunct2, THEN spec, of i] vw [THEN conjunct2, THEN spec, of i] assms(3)
    by (auto split: option.splits if_splits)
  assume "over u i \<and> (case p of None \<Rightarrow> q | Some j \<Rightarrow> Some j) \<noteq> Some i"
  then have "over u i" "p \<noteq> Some i" "q \<noteq> Some i" using assms(3) by (auto split: option.splits)
  then show "getWakeDelivery (w_deliveries w) i = getWakeDelivery (w_deliveries u) i" "calls w i = calls u i"
    using uv vw over_same by metis+
qed

lemma spends_unsent: "w_deliveries w' = w_deliveries w \<Longrightarrow> w_calls w' = w_calls w \<Longrightarrow> spends p w w'"
  by (simp add: spends_def claims_def calls_def)

interpretation handing: support_frame handed
proof
  show "handed w w" for w by (simp add: spends_unsent)
  show "handed u v \<Longrightarrow> handed v w \<Longrightarrow> handed u w" for u v w using spends_trans [of None u v None w] by simp
qed (simp_all add: spends_unsent)

lemma handing_unsent: "unsent.keeps m \<Longrightarrow> handing.keeps m"
  by (auto intro!: handing.keepsI spends_unsent simp: unsent.keeps_def unsent_def)

lemma moves_handed:
  assumes "keyed (w_deliveries w) \<Longrightarrow> moves (w_deliveries w) t'"
  shows "handed w (w\<lparr>w_deliveries := t'\<rparr>)"
  unfolding spends_def
proof (intro impI conjI allI)
  assume k: "keyed (w_deliveries w)"
  note m = assms [OF k, unfolded moves_def, rule_format, OF k]
  show "keyed (w_deliveries (w\<lparr>w_deliveries := t'\<rparr>))" using m by simp
  fix i
  show le: "claims w i \<le> claims (w\<lparr>w_deliveries := t'\<rparr>) i"
    using m by (force simp: claims_def progress_def split: option.splits)
  show "calls (w\<lparr>w_deliveries := t'\<rparr>) i + claims w i \<le> calls w i + claims (w\<lparr>w_deliveries := t'\<rparr>) i + (if None = Some i then 1 else 0)"
    using le by (simp add: calls_def)
  assume "over w i \<and> None \<noteq> Some i"
  then obtain c where "getWakeDelivery (w_deliveries w) i = Some c" "finished c" by (auto simp: over_def split: option.splits)
  then show "getWakeDelivery (w_deliveries (w\<lparr>w_deliveries := t'\<rparr>)) i = getWakeDelivery (w_deliveries w) i"
    using m by (auto simp: progress_def)
  show "calls (w\<lparr>w_deliveries := t'\<rparr>) i = calls w i" by (simp add: calls_def)
qed

lemma handing_deliveries:
  "(\<And>t r t'. keyed t \<Longrightarrow> f t = (r, t') \<Longrightarrow> moves t t') \<Longrightarrow> handing.keeps (on_deliveries f)"
  by (auto intro!: handing.keepsI moves_handed simp: on_deliveries_def split: prod.splits)

lemma handing_store:
  "handing.keeps (on_deliveries (ensureWakeDelivery input))"
  "handing.keeps (on_deliveries (completeWakeDelivery i worker n receipt now))"
  "handing.keeps (on_deliveries (failWakeDelivery i worker n message now most later))"
  by (auto intro!: handing_deliveries intro: ensure_moves complete_moves fail_moves)

lemma unsent_wake_records:
  "unsent.keeps (append_wake r)" "unsent.keeps (audit_wake ru r label ak f t ds)" "unsent.keeps (queue_wake ru m q)"
  "unsent.keeps (only_queue ru m q b)" "unsent.keeps (persistDeliveredWake r)"
  "unsent.keeps (report_retry ru m q p c del e)" "unsent.keeps (report_dead ru m q dl e)"
  "unsent.keeps (claimLostOutcome i p e)" "unsent.keeps (deliveredResult en m rt i dl)"
proof -
  have wake: "unsent.keeps (append_wake r)" for r by (rule unsent.keepsI) (simp add: append_wake_def unsent_def)
  show "unsent.keeps (append_wake r)" "unsent.keeps (audit_wake ru r label ak f t ds)" "unsent.keeps (queue_wake ru m q)"
    "unsent.keeps (only_queue ru m q b)" "unsent.keeps (persistDeliveredWake r)"
    "unsent.keeps (report_retry ru m q p c del e)" "unsent.keeps (report_dead ru m q dl e)"
    "unsent.keeps (claimLostOutcome i p e)" "unsent.keeps (deliveredResult en m rt i dl)"
    unfolding queue_wake_def only_queue_def persistDeliveredWake_def report_retry_def report_dead_def claimLostOutcome_def
      deliveredResult_def finalize_recovered_def audit_queued_def audit_wake_def Let_def
    by (intro unsent.keeps_rules unsent.keeps_support wake unsent_effects)+
qed

lemmas handing_wake_records = unsent_wake_records [THEN handing_unsent]

lemma handing_record_failure: "handing.keeps (record_failure ru co i c e)"
  unfolding record_failure_def Let_def by (intro handing.keeps_rules handing.keeps_support handing_store)

lemma handing_catch: "handing.keeps m \<Longrightarrow> (\<And>e. handing.keeps (f e)) \<Longrightarrow> handing.keeps (catch_do m f)"
  by (auto simp: handing.keeps_def catch_do_def split: prod.splits sum.splits) (metis handing.R_trans snd_conv)+

lemma handing_failure: "handing.keeps (after_failure ru co m q p c e)"
proof -
  have "handing.keeps (case x of Inl gone \<Rightarrow> ret gone | Inr None \<Rightarrow> report_retry ru m q p c None e
      | Inr (Some dl) \<Rightarrow> if wd_status dl \<noteq> WDeadLetter then report_retry ru m q p c (Some dl) e else report_dead ru m q dl e)"
    for x :: "delivery_result + wake_delivery option"
    by (auto intro!: handing.keeps_if handing_wake_records handing.keeps_ret split: sum.split option.split)
  then show ?thesis
    unfolding after_failure_def Let_def
    by (intro handing.keeps_if handing.keeps_seq handing_catch handing_wake_records handing_record_failure handing.keeps_ret
      handing.keeps_throw)
qed

subsection \<open>One call for one claim\<close>

text \<open>What other workers do while the host works hands over no more than it claims.\<close>

definition fair :: "coordinator \<Rightarrow> bool" where
  "fair co \<longleftrightarrow> (\<forall>n w. handed w (co_meanwhile co n w))"

definition pays :: "string \<Rightarrow> 'a act \<Rightarrow> bool" where
  "pays i m \<longleftrightarrow> (\<forall>w. spends (Some i) w (snd (m w)))"

lemma spends_paid: "handed u v \<Longrightarrow> spends p u v"
  by (auto simp: spends_def intro: le_SucI)

lemma pays_handing: "handing.keeps m \<Longrightarrow> pays i m"
  by (simp add: pays_def handing.keeps_def spends_paid)

lemma pays_seq: "handing.keeps m \<Longrightarrow> (\<And>x. pays i (f x)) \<Longrightarrow> pays i (seq m f)"
  and pays_then: "pays i m \<Longrightarrow> (\<And>x. handing.keeps (f x)) \<Longrightarrow> pays i (seq m f)"
proof -
  show "pays i (seq m f)" if m: "handing.keeps m" and f: "\<And>x. pays i (f x)"
    unfolding pays_def
  proof
    fix w
    obtain r v where v: "m w = (r, v)" by fastforce
    have mv: "handed w v" using m v by (metis handing.keepsD)
    show "spends (Some i) w (snd (seq m f w))"
      using spends_paid [OF mv] spends_trans [OF mv, of "Some i"] f v by (cases r) (auto simp: pays_def)
  qed
  show "pays i (seq m f)" if m: "pays i m" and f: "\<And>x. handing.keeps (f x)"
    unfolding pays_def
  proof
    fix w
    obtain r v where v: "m w = (r, v)" by fastforce
    have mv: "spends (Some i) w v" using m v by (metis pays_def snd_conv)
    show "spends (Some i) w (snd (seq m f w))"
      using mv spends_trans [OF mv, of None] f v by (cases r) (auto simp: handing.keeps_def)
  qed
qed

lemma pays_catch: "pays i m \<Longrightarrow> (\<And>e. handing.keeps (f e)) \<Longrightarrow> pays i (catch_do m f)"
  unfolding pays_def
proof
  fix w
  assume m: "\<forall>w. spends (Some i) w (snd (m w))" and f: "\<And>e. handing.keeps (f e)"
  obtain r v where v: "m w = (r, v)" by fastforce
  have mv: "spends (Some i) w v" using m v by (metis snd_conv)
  show "spends (Some i) w (snd (catch_do m f w))"
    using mv spends_trans [OF mv, of None] f v by (cases r) (auto simp: catch_do_def handing.keeps_def)
qed

lemma pays_call: "fair co \<Longrightarrow> pays i (call_host co deliver i packet)"
proof -
  assume co: "fair co"
  have call: "spends (Some i) w (w\<lparr>w_calls := w_calls w @ [i]\<rparr>)" for w :: world
    by (simp add: spends_def claims_def calls_def)
  have "handed (w\<lparr>w_calls := w_calls w @ [i]\<rparr>) (co_meanwhile co n (w\<lparr>w_calls := w_calls w @ [i]\<rparr>))" for n and w :: world
    using co by (simp add: fair_def)
  then show ?thesis
    using spends_trans [OF call, of None] by (auto simp: pays_def call_host_def Let_def)
qed

lemma pays_perform:
  assumes "fair co"
  shows "pays (wr_wakeId q) (performClaimedDelivery en co deliver m d q c)"
proof -
  have rest: "handing.keeps (case receipt_id receipt of None \<Rightarrow> throw x | Some s \<Rightarrow> f s)"
    if "\<And>s. handing.keeps (f s)" for receipt x and f :: "string \<Rightarrow> 'b act"
    using that by (auto intro: handing.keeps_throw split: option.split)
  show ?thesis
    unfolding performClaimedDelivery_def finish_delivery_def Let_def
    by (intro pays_seq handing.keeps_liftE pays_then pays_call assms rest handing.keeps_rules handing.keeps_support
      handing_store handing_wake_records handing_unsent [OF unsent_effects(1)])
qed

lemma handing_attempt:
  assumes "fair co"
  shows "handing.keeps (attempt_delivery en co deliver m d q now)"
proof (rule handing.keepsI)
  fix w :: world
  let ?i = "wr_wakeId q"
  let ?rest = "\<lambda>claim. seq (queue_wake (en_ru en) m q) (\<lambda>p. catch_do (performClaimedDelivery en co deliver m d q claim)
    (after_failure (en_ru en) co m q p claim))"
  obtain r t where claim: "claimWakeDelivery ?i (co_workerId co) now (co_leaseMs co) (w_deliveries w) = (r, t)" by fastforce
  show "handed w (snd (attempt_delivery en co deliver m d q now w))"
  proof (cases "\<exists>c. r = Inr (Some c)")
    case False
    then have "snd (attempt_delivery en co deliver m d q now w) = w\<lparr>w_deliveries := t\<rparr>"
      using claim by (auto simp: attempt_delivery_def Let_def on_deliveries_def seq_def readW_def split: sum.split option.split)
    then show ?thesis using claim_moves [OF _ claim] False by (auto intro!: moves_handed)
  next
    case True
    then obtain c where r: "r = Inr (Some c)" by blast
    let ?v = "w\<lparr>w_deliveries := t\<rparr>"
    have run: "attempt_delivery en co deliver m d q now w = ?rest c ?v"
      using claim by (simp add: attempt_delivery_def Let_def on_deliveries_def seq_def r)
    have "pays ?i (?rest c)"
      by (intro pays_seq handing_wake_records pays_catch pays_perform assms handing_failure)
    then have paid: "spends (Some ?i) ?v (snd (?rest c ?v))" by (simp add: pays_def)
    show ?thesis unfolding run spends_def
    proof (intro impI)
      assume k: "keyed (w_deliveries w)"
      obtain b where b: "getWakeDelivery (w_deliveries w) ?i = Some b" "\<not> finished b" "t = put_delivery c (w_deliveries w)"
          "wd_wakeId c = ?i" "wd_attemptCount c = Suc (wd_attemptCount b)" "progress b c"
        using claim_moves [OF k claim] r by auto
      have kv: "keyed (w_deliveries ?v)" using k b(3,4) by (simp add: keyed_def get_put_delivery)
      have i: "claims ?v ?i = Suc (claims w ?i)" "\<not> over w ?i" "calls ?v = calls w"
        using b by (auto simp: claims_def over_def get_put_delivery calls_def)
      have same: "getWakeDelivery t j = getWakeDelivery (w_deliveries w) j" "claims ?v j = claims w j" "over ?v j = over w j"
        if "j \<noteq> ?i" for j
        using that b(3,4) by (simp_all add: claims_def over_def get_put_delivery)
      note p = paid [unfolded spends_def, rule_format, OF kv]
      have "claims w j \<le> claims (snd (?rest c ?v)) j \<and>
          calls (snd (?rest c ?v)) j + claims w j \<le> calls w j + claims (snd (?rest c ?v)) j \<and>
          (over w j \<longrightarrow> getWakeDelivery (w_deliveries (snd (?rest c ?v))) j = getWakeDelivery (w_deliveries w) j \<and>
             calls (snd (?rest c ?v)) j = calls w j)" for j
        using p [THEN conjunct2, THEN spec, of j] i same [of j] by (cases "j = ?i") auto
      then show "keyed (w_deliveries (snd (?rest c ?v))) \<and> (\<forall>i. claims w i \<le> claims (snd (?rest c ?v)) i \<and>
          calls (snd (?rest c ?v)) i + claims w i \<le> calls w i + claims (snd (?rest c ?v)) i + (if None = Some i then 1 else 0) \<and>
          (over w i \<and> None \<noteq> Some i \<longrightarrow>
             getWakeDelivery (w_deliveries (snd (?rest c ?v))) i = getWakeDelivery (w_deliveries w) i \<and>
             calls (snd (?rest c ?v)) i = calls w i))"
        using p by simp
    qed
  qed
qed

lemma handing_deliver: "fair co \<Longrightarrow> handing.keeps (deliverMatched en co m)"
  unfolding deliverMatched_def deliver_wake_def Let_def
  by (intro handing.keeps_rules handing.keeps_support handing_store handing_wake_records handing_attempt
    handing_unsent [OF unsent_effects(1)])

text \<open>A run of coordinators: who delivers which match.\<close>

definition deliver_all :: "engine \<Rightarrow> (coordinator \<times> trigger_match) list \<Rightarrow> world \<Rightarrow> world" where
  "deliver_all en ops w = fold (\<lambda>(co, m) w. snd (deliverMatched en co m w)) ops w"

lemma deliver_all_handed: "\<forall>(co, m) \<in> set ops. fair co \<Longrightarrow> handed w (deliver_all en ops w)"
proof (induction ops arbitrary: w)
  case (Cons e ops)
  obtain co m where e: "e = (co, m)" by fastforce
  have "handed w (snd (deliverMatched en co m w))" using Cons.prems handing_deliver by (simp add: e handing.keeps_def)
  then show ?case using Cons handing.R_trans by (fastforce simp: deliver_all_def e)
qed (simp add: deliver_all_def spends_unsent)

end
