(* ===== verification/System_Run.thy ===== *)
theory System_Run
  imports Mcp_Frames Wake_Delivery
begin

text \<open>
  The whole service: any sequence of events, polls and pushed events of providers, scheduler rounds
  and operations of the control plane, each run by a worker of its own, on one store.
\<close>

subsection \<open>Operations\<close>

datatype operation =
    Enter consumer correlatable_event
  | Occur consumer "string \<Rightarrow> timestamp option" raw occurrence_context
  | Discover mcp_client
  | Poll mcp_client subscription "terminal_error option" bool
  | Push mcp_client subscription string raw
  | Push_Active mcp_client subscription string raw
  | Push_Gap mcp_client subscription string raw
  | Close_Gap mcp_client string jobj string int
  | Round mcp_client transport manager bool
  | Timer mcp_client transport manager
  | Open_Session mcp_client transport manager subscription string
  | Detach mcp_client manager
  | Reach_Deadlines consumer bool
  | Retry_Wakes retry_scheduler bool retry_state
  | Add_Source runtime source_input "json option"
  | Create control_plane trigger_definition trigger_request
  | Update control_plane string string trigger_definition trigger_request
  | Delete control_plane string string trigger_request
  | Switch control_plane string string lifecycle_action trigger_request

primrec step :: "operation \<Rightarrow> world \<Rightarrow> world" where
  "step (Enter cs event) w = snd (ingestCorrelatable cs event w)"
| "step (Occur cs parse occurrence c) w = snd (ingestMcpOccurrence cs parse occurrence c w)"
| "step (Discover cl) w = snd (discoverConnection cl w)"
| "step (Poll cl sn suspended b) w = snd (pollSubscription cl sn suspended b w)"
| "step (Push cl sn mode v) w = snd (onEvent cl sn mode v w)"
| "step (Push_Active cl sn mode v) w = snd (onActive cl sn mode v w)"
| "step (Push_Gap cl sn mode v) w = snd (onGap cl sn mode v w)"
| "step (Close_Gap cl name args e n) w = snd (acknowledgeReconciledGap cl name args e n w)"
| "step (Round cl tr g b) w = snd (snd (pollConnectionOnce cl tr b (g, w)))"
| "step (Timer cl tr g) w = snd (snd (timer_round cl tr (g, w)))"
| "step (Open_Session cl tr g sn mode) w = snd (snd (ensureDeliverySession cl tr sn mode (g, w)))"
| "step (Detach cl g) w = snd (snd (detachConnection cl (g, w)))"
| "step (Reach_Deadlines cs busy) w = snd (runDueDeadlines cs busy w)"
| "step (Retry_Wakes sch busy st) w = snd (snd (runDueWakes sch busy st w))"
| "step (Add_Source ru input actor) w = snd (registerEventSource ru input actor w)"
| "step (Create cp d q) w = snd (createTrigger cp d q w)"
| "step (Update cp i v d q) w = snd (updateTrigger cp i v d q w)"
| "step (Delete cp i v q) w = snd (deleteTrigger cp i v q w)"
| "step (Switch cp i v action q) w = snd (setTriggerLifecycle cp i v action q w)"

definition system_run :: "operation list \<Rightarrow> world \<Rightarrow> world" where
  "system_run ops w = fold step ops w"

text \<open>Which runs a frame speaks of: workers beside others that keep it, coordinators and runtimes that are fit.\<close>

primrec admissible ::
  "(world \<Rightarrow> world \<Rightarrow> bool) \<Rightarrow> (coordinator \<Rightarrow> bool) \<Rightarrow> (runtime \<Rightarrow> bool) \<Rightarrow> operation \<Rightarrow> bool"
where
  "admissible R good apt (Enter cs event) \<longleftrightarrow> well_behaved R good cs"
| "admissible R good apt (Occur cs parse occurrence c) \<longleftrightarrow> well_behaved R good cs"
| "admissible R good apt (Discover cl) \<longleftrightarrow> behaved_client R good cl"
| "admissible R good apt (Poll cl sn suspended b) \<longleftrightarrow> behaved_client R good cl"
| "admissible R good apt (Push cl sn mode v) \<longleftrightarrow> behaved_client R good cl"
| "admissible R good apt (Push_Active cl sn mode v) \<longleftrightarrow> behaved_client R good cl"
| "admissible R good apt (Push_Gap cl sn mode v) \<longleftrightarrow> behaved_client R good cl"
| "admissible R good apt (Close_Gap cl name args e n) \<longleftrightarrow> behaved_client R good cl"
| "admissible R good apt (Round cl tr g b) \<longleftrightarrow> behaved_client R good cl"
| "admissible R good apt (Timer cl tr g) \<longleftrightarrow> behaved_client R good cl"
| "admissible R good apt (Open_Session cl tr g sn mode) \<longleftrightarrow> behaved_client R good cl"
| "admissible R good apt (Detach cl g) \<longleftrightarrow> behaved_client R good cl"
| "admissible R good apt (Reach_Deadlines cs busy) \<longleftrightarrow> well_behaved R good cs"
| "admissible R good apt (Retry_Wakes sch busy st) \<longleftrightarrow> (\<forall>runtime co. rs_resolve sch runtime = Some co \<longrightarrow> good co)"
| "admissible R good apt (Add_Source ru input actor) \<longleftrightarrow> True"
| "admissible R good apt (Create cp d q) \<longleftrightarrow> apt (cp_ru cp)"
| "admissible R good apt (Update cp i v d q) \<longleftrightarrow> apt (cp_ru cp)"
| "admissible R good apt (Delete cp i v q) \<longleftrightarrow> True"
| "admissible R good apt (Switch cp i v action q) \<longleftrightarrow> True"

locale system_frame = client_frame +
  assumes keeps_creation: "apt (cp_ru cp) \<Longrightarrow> keeps (createTrigger cp d q)"
    and keeps_replacement: "apt (cp_ru cp) \<Longrightarrow> keeps (updateTrigger cp i v d q)"
    and keeps_deletion: "keeps (deleteTrigger cp i v q)"
    and keeps_switch: "keeps (setTriggerLifecycle cp i v action q)"
begin

lemma keeps_step: "admissible R good apt op \<Longrightarrow> R w (step op w)"
  using keeps_correlatable keeps_occurrence keeps_discover keeps_poll [OF behaved_saves] keeps_callbacks [OF behaved_saves] keeps_acknowledge keeps_due_deadlines keeps_due_wakes keeps_register_source keeps_creation
    keeps_replacement keeps_deletion keeps_switch
    keepsM_round keepsM_timer keepsM_ensure keepsM_detach
  by (cases op) (simp_all add: keeps_def keepsM_def)

lemma keeps_run: "\<forall>op \<in> set ops. admissible R good apt op \<Longrightarrow> R w (system_run ops w)"
proof (induction ops arbitrary: w)
  case (Cons op ops)
  have "R w (step op w)" using Cons.prems keeps_step by simp
  then show ?case using Cons R_trans by (simp add: system_run_def)
qed (simp add: system_run_def R_refl)

end

end
