(* ===== verification/Wake_Settled.thy ===== *)
theory Wake_Settled
  imports Wake_Delivery
begin

text \<open>
  How a delivery ends: an attempt that returns leaves the delivery delivered, given up or waiting
  for its next attempt, so that a host is called no more often than the limit on attempts; and a
  wake that is reported as delivered has fired its match.
\<close>

subsection \<open>Attempts that return\<close>

text \<open>No other worker interferes, and neither the host nor the packet builder uses the code of a lost claim.\<close>

definition alone :: "coordinator \<Rightarrow> bool" where
  "alone co \<longleftrightarrow> (\<forall>n w. co_meanwhile co n w = w) \<and>
     (\<forall>i m d e. co_packetBuilder co i m d = Inl e \<longrightarrow> \<not> claim_lost e) \<and>
     (\<forall>deliver n p e. co_deliverer co = Some deliver \<and> deliver n p = Inl e \<longrightarrow> \<not> claim_lost e)"

definition settled :: "int \<Rightarrow> world \<Rightarrow> bool" where
  "settled k w \<longleftrightarrow> keyed (w_deliveries w) \<and> 1 \<le> k \<and> (\<forall>i. calls w i \<le> claims w i \<and>
     (\<forall>r. getWakeDelivery (w_deliveries w) i = Some r \<longrightarrow> wd_status r \<noteq> WClaimed \<and> int (wd_attemptCount r) \<le> k \<and>
        (\<not> finished r \<longrightarrow> int (wd_attemptCount r) < k)))"

lemma settled_same: "settled k w \<Longrightarrow> unsent w w' \<Longrightarrow> settled k w'"
  by (simp add: settled_def unsent_def claims_def calls_def)

definition settles :: "int \<Rightarrow> 'a act \<Rightarrow> bool" where
  "settles k m \<longleftrightarrow> (\<forall>w r w'. settled k w \<longrightarrow> m w = (Inr r, w') \<longrightarrow> settled k w')"

lemma settles_unsent: "unsent.keeps m \<Longrightarrow> settles k m"
  unfolding settles_def using settled_same unsent.keepsD by blast

lemma settles_seq: "settles k m \<Longrightarrow> (\<And>x. settles k (f x)) \<Longrightarrow> settles k (seq m f)"
  unfolding settles_def seq_eq_Inr_iff by blast

lemma settles_if: "settles k m \<Longrightarrow> settles k n \<Longrightarrow> settles k (if b then m else n)"
  by simp

lemma settles_option: "settles k m \<Longrightarrow> (\<And>y. settles k (f y)) \<Longrightarrow> settles k (case x of None \<Rightarrow> m | Some y \<Rightarrow> f y)"
  by (cases x) simp_all

lemma settles_ensure: "settles k (on_deliveries (ensureWakeDelivery input))"
  unfolding settles_def
proof (intro allI impI)
  fix w :: world and r w'
  assume s: "settled k w" and "on_deliveries (ensureWakeDelivery input) w = (Inr r, w')"
  then obtain t where t: "ensureWakeDelivery input (w_deliveries w) = (Inr r, t)" "w' = w\<lparr>w_deliveries := t\<rparr>"
    by (auto simp: on_deliveries_def split: prod.splits)
  show "settled k w'"
  proof (cases "getWakeDelivery (w_deliveries w) (ei_wakeId input)")
    case None
    then have "t = put_delivery r (w_deliveries w)" "wd_wakeId r = ei_wakeId input" "wd_attemptCount r = 0" "wd_status r = WPending"
      using t(1) by (auto simp: ensureWakeDelivery_def Let_def split: if_splits)
    moreover have "calls w (ei_wakeId input) = 0"
      using s None by (auto simp: settled_def claims_def elim!: allE [of _ "ei_wakeId input"])
    ultimately show ?thesis
      using s None unfolding t(2) settled_def by (auto simp: keyed_def get_put_delivery claims_def calls_def finished_def)
  next
    case (Some e)
    then have "t = w_deliveries w" using t(1) by (simp add: ensureWakeDelivery_def)
    then show ?thesis using s t(2) by simp
  qed
qed

subsection \<open>A claimed delivery ends\<close>

text \<open>\<open>owned co c w\<close>: \<open>c\<close> is the current claim of its wake, and it is this coordinator's.\<close>

definition owned :: "coordinator \<Rightarrow> wake_delivery \<Rightarrow> world \<Rightarrow> bool" where
  "owned co c w \<longleftrightarrow> keyed (w_deliveries w) \<and> getWakeDelivery (w_deliveries w) (wd_wakeId c) = Some c \<and>
     wd_status c = WClaimed \<and> wd_leaseOwner c = Some (co_workerId co)"

text \<open>From \<open>w\<close> to \<open>w'\<close> the claim \<open>c\<close> was turned into a record with the status \<open>P\<close>; nothing else was handed over.\<close>

definition turned :: "(wake_delivery \<Rightarrow> bool) \<Rightarrow> wake_delivery \<Rightarrow> world \<Rightarrow> world \<Rightarrow> bool" where
  "turned P c w w' \<longleftrightarrow> (\<exists>c'. w_deliveries w' = put_delivery c' (w_deliveries w) \<and> wd_wakeId c' = wd_wakeId c \<and>
     wd_attemptCount c' = wd_attemptCount c \<and> P c')"

lemma owned_unsent: "owned co c w \<Longrightarrow> unsent w w' \<Longrightarrow> owned co c w'"
  by (simp add: owned_def unsent_def)

lemma complete_owned:
  assumes "owned co c w"
    and "on_deliveries (completeWakeDelivery (wd_wakeId c) (co_workerId co) (Some (int (wd_attemptCount c))) receipt now) w = (r, w')"
  shows "w_calls w' = w_calls w \<and> ((\<exists>e. r = Inl e \<and> \<not> claim_lost e \<and> w' = w) \<or> turned (\<lambda>c'. wd_status c' = WDelivered) c w w')"
  using assms
  by (auto simp: owned_def on_deliveries_def completeWakeDelivery_def assertWakeClaimGeneration_def turned_def claim_lost_def Let_def
    split: prod.splits if_splits)

lemma fail_owned:
  assumes "owned co c w"
    and "on_deliveries (failWakeDelivery (wd_wakeId c) (co_workerId co) (Some (int (wd_attemptCount c))) message now most later) w = (r, w')"
  shows "w_calls w' = w_calls w \<and> ((\<exists>e. r = Inl e \<and> \<not> claim_lost e) \<or> (\<exists>x. r = Inr x) \<and>
    turned (\<lambda>c'. wd_status c' = WDeadLetter \<or> wd_status c' = WRetryPending \<and> int (wd_attemptCount c') < attempt_limit most) c w w')"
  using assms
  by (auto simp: owned_def on_deliveries_def failWakeDelivery_def assertWakeClaimGeneration_def turned_def claim_lost_def Let_def
    split: prod.splits if_splits)

lemma fail_delivered:
  assumes "getWakeDelivery (w_deliveries w) i = Some c'" and "wd_status c' = WDelivered"
  shows "on_deliveries (failWakeDelivery i worker n message now most later) w = (r, w') \<Longrightarrow> w' = w"
  using assms
  by (auto simp: on_deliveries_def failWakeDelivery_def assertWakeClaimGeneration_def Let_def split: prod.splits option.splits if_splits)

lemma turned_after: "turned P c w v \<Longrightarrow> unsent v u \<Longrightarrow> turned P c w u"
  by (simp add: turned_def unsent_def)

lemma turned_before: "unsent w v \<Longrightarrow> turned P c v u \<Longrightarrow> turned P c w u"
  by (simp add: turned_def unsent_def)

lemma unsent_finish: "unsent.keeps (finish_delivery en m q c packet receipt s delivery)"
  unfolding finish_delivery_def Let_def
  by (intro unsent.keeps_rules unsent.keeps_support unsent_wake_records unsent_effects)

lemma perform_owned:
  assumes "alone co" and "co_deliverer co = Some deliver" and "owned co c w" and i: "wd_wakeId c = wr_wakeId q"
    and run: "performClaimedDelivery en co deliver m d q c w = (r, u)"
  shows "(w_calls u = w_calls w \<or> w_calls u = w_calls w @ [wd_wakeId c]) \<and>
    (w_deliveries u = w_deliveries w \<and> (\<exists>e. r = Inl e \<and> \<not> claim_lost e) \<or> turned (\<lambda>c'. wd_status c' = WDelivered) c w u)"
proof (cases "co_packetBuilder co (wr_wakeId q) m d")
  case (Inl e)
  then have "r = Inl e" "u = w" using run by (simp_all add: performClaimedDelivery_def Let_def)
  then show ?thesis using assms(1) Inl by (auto simp: alone_def)
next
  case (Inr packet)
  let ?v = "w\<lparr>w_calls := w_calls w @ [wr_wakeId q]\<rparr>"
  have call: "call_host co deliver (wr_wakeId q) packet w = (deliver (w_ticks w) packet, ?v)"
    using assms(1) by (simp add: call_host_def alone_def Let_def)
  show ?thesis
  proof (cases "deliver (w_ticks w) packet")
    case (Inl e)
    then have "r = Inl e" "u = ?v" using run Inr call by (simp_all add: performClaimedDelivery_def Let_def)
    then show ?thesis using assms(1,2) Inl i by (auto simp: alone_def)
  next
    case answer: (Inr receipt)
    show ?thesis
    proof (cases "receipt_id receipt")
      case None
      then have "r = Inl (plain_error ''Wake deliverer must return runtimeReceiptId'')" "u = ?v"
        using run Inr call answer by (simp_all add: performClaimedDelivery_def Let_def)
      then show ?thesis using i by (simp add: claim_lost_def plain_error_def)
    next
      case (Some receiptId)
      let ?x = "?v\<lparr>w_ticks := w_ticks w + 1\<rparr>"
      let ?complete = "on_deliveries (completeWakeDelivery (wr_wakeId q) (co_workerId co) (Some (int (wd_attemptCount c)))
        receiptId (ru_clock (en_ru en) (w_ticks w)))"
      obtain a y where y: "?complete ?x = (a, y)" by fastforce
      have run': "performClaimedDelivery en co deliver m d q c w =
          seq ?complete (finish_delivery en m q c packet receipt receiptId) ?x"
        using Inr call answer Some by (simp add: performClaimedDelivery_def Let_def seq_def read_now_def)
      have o: "owned co c ?x" using assms(3) by (simp add: owned_def)
      note cases = complete_owned [OF o, of receiptId, unfolded i, OF y]
      show ?thesis
      proof (cases a)
        case (Inl e)
        then have "r = Inl e" "u = y" using run run' y by simp_all
        then show ?thesis using cases Inl i by (auto simp: turned_def)
      next
        case (Inr z)
        then have "finish_delivery en m q c packet receipt receiptId z y = (r, u)" using run run' y by simp
        then have "unsent y u" using unsent.keepsD [OF unsent_finish] by blast
        then show ?thesis using cases Inr i by (auto simp: turned_def unsent_def)
      qed
    qed
  qed
qed

lemma failure_owned:
  assumes "owned co c u" and "\<not> claim_lost e" and i: "wd_wakeId c = wr_wakeId q"
    and run: "after_failure ru co m q p c e u = (Inr res, w')"
  shows "w_calls w' = w_calls u \<and> turned (\<lambda>c'. wd_status c' = WDeadLetter \<or>
    wd_status c' = WRetryPending \<and> int (wd_attemptCount c') < attempt_limit (co_maxAttempts co)) c u w'"
proof -
  let ?fail = "record_failure ru co (wr_wakeId q) c e"
  let ?k = "\<lambda>recorded. case recorded of Inl gone \<Rightarrow> ret gone | Inr None \<Rightarrow> report_retry ru m q p c None e
    | Inr (Some dl) \<Rightarrow> if wd_status dl \<noteq> WDeadLetter then report_retry ru m q p c (Some dl) e else report_dead ru m q dl e"
  have k: "unsent.keeps (?k x)" for x :: "delivery_result + wake_delivery option"
    by (auto intro!: unsent.keeps_if unsent_wake_records unsent.keeps_ret split: sum.split option.split)
  obtain a y where y: "?fail u = (a, y)" by fastforce
  have fail: "w_calls y = w_calls u \<and> ((\<exists>e. a = Inl e \<and> \<not> claim_lost e) \<or> (\<exists>x. a = Inr x) \<and>
    turned (\<lambda>c'. wd_status c' = WDeadLetter \<or>
      wd_status c' = WRetryPending \<and> int (wd_attemptCount c') < attempt_limit (co_maxAttempts co)) c u y)"
  proof -
    let ?x = "u\<lparr>w_ticks := w_ticks u + 1\<rparr>"
    have o: "owned co c ?x" using assms(1) by (simp add: owned_def)
    show ?thesis
    proof (cases "toISOString (time_clip (ts_ms (ru_clock ru (w_ticks u)) +
        retryDelayMs (max 1 (int (wd_attemptCount c))) (co_retryBaseDelayMs co) (co_retryMaxDelayMs co)))")
      case (Inl err)
      then have "a = Inl err" "w_calls y = w_calls u" using y by (auto simp: record_failure_def Let_def seq_def read_now_def)
      moreover have "\<not> claim_lost err"
        using Inl by (auto simp: toISOString_def claim_lost_def range_error_def split: option.splits if_splits)
      ultimately show ?thesis by blast
    next
      case (Inr next_at)
      then have "on_deliveries (failWakeDelivery (wd_wakeId c) (co_workerId co) (Some (int (wd_attemptCount c))) (err_message e)
          (ru_clock ru (w_ticks u)) (co_maxAttempts co) next_at) ?x = (a, y)"
        using y i by (simp add: record_failure_def Let_def seq_def read_now_def)
      from fail_owned [OF o this] show ?thesis by (auto simp: turned_def)
    qed
  qed
  have lost_free: "\<exists>x. a = Inr x"
    using run fail assms(2) y by (auto simp: after_failure_def Let_def catch_do_def seq_def)
  then obtain x where x: "a = Inr x" by blast
  then have "?k (Inr x) y = (Inr res, w')"
    using run assms(2) y by (simp add: after_failure_def Let_def catch_do_def seq_def)
  then have "unsent y w'" using k unsent.keepsD by blast
  then show ?thesis using fail x turned_after by (auto simp: unsent_def)
qed

lemma failure_delivered:
  assumes "getWakeDelivery (w_deliveries u) (wr_wakeId q) = Some c'" and "wd_status c' = WDelivered"
    and run: "after_failure ru co m q p c e u = (r, w')"
  shows "unsent u w'"
proof -
  have recorded: "unsent u (snd (record_failure ru co (wr_wakeId q) c e u))"
  proof -
    have "unsent x (snd (on_deliveries (failWakeDelivery (wr_wakeId q) wk n msg now most later) x))"
      if "w_deliveries x = w_deliveries u" "w_calls x = w_calls u" for x wk n msg now most later
      using fail_delivered [of x "wr_wakeId q" c' wk n msg now most later] assms(1,2) that
      by (cases "on_deliveries (failWakeDelivery (wr_wakeId q) wk n msg now most later) x") (simp add: unsent.R_refl)
    then show ?thesis
      by (auto simp: record_failure_def Let_def seq_def read_now_def unsent_def split: sum.split)
  qed
  have after: "unsent.keeps (case x of Inl gone \<Rightarrow> ret gone | Inr None \<Rightarrow> report_retry ru m q p c None e
    | Inr (Some dl) \<Rightarrow> if wd_status dl \<noteq> WDeadLetter then report_retry ru m q p c (Some dl) e else report_dead ru m q dl e)"
    for x :: "delivery_result + wake_delivery option"
    by (auto intro!: unsent.keeps_if unsent_wake_records unsent.keeps_ret split: sum.split option.split)
  have lost_outcome: "unsent.keeps (seq (claimLostOutcome (wr_wakeId q) p err) (\<lambda>r. ret (Inl r)))" for err
    by (intro unsent.keeps_seq unsent_wake_records unsent.keeps_ret)
  obtain a y where y: "record_failure ru co (wr_wakeId q) c e u = (a, y)" by fastforce
  show ?thesis
  proof (cases "claim_lost e")
    case True
    then show ?thesis using run unsent_wake_records(8) unsent.keepsD by (fastforce simp: after_failure_def Let_def)
  next
    case False
    let ?caught = "catch_do (seq (record_failure ru co (wr_wakeId q) c e) (\<lambda>dl. ret (Inr dl)))
      (\<lambda>failError. if claim_lost failError then seq (claimLostOutcome (wr_wakeId q) p failError) (\<lambda>r. ret (Inl r))
         else throw failError)"
    obtain b z where z: "?caught u = (b, z)" by fastforce
    have "unsent y z"
      using z y lost_outcome unsent.keepsD by (cases a) (fastforce simp: catch_do_def seq_def unsent.R_refl split: if_splits)+
    then have uz: "unsent u z" using recorded y unsent.R_trans by fastforce
    show ?thesis
    proof (cases b)
      case (Inl err)
      then show ?thesis using run z False uz by (simp add: after_failure_def Let_def)
    next
      case (Inr x)
      then show ?thesis
        using run z False uz after [of x] unsent.R_trans unsent.keepsD by (simp add: after_failure_def Let_def) blast
    qed
  qed
qed

lemma settles_attempt:
  assumes "alone co" and "co_deliverer co = Some deliver" and "attempt_limit (co_maxAttempts co) \<le> k"
  shows "settles k (attempt_delivery en co deliver m d q now)"
  unfolding settles_def
proof (intro allI impI)
  fix w :: world and res w'
  assume s: "settled k w" and run: "attempt_delivery en co deliver m d q now w = (Inr res, w')"
  let ?i = "wr_wakeId q"
  obtain r t where claim: "claimWakeDelivery ?i (co_workerId co) now (co_leaseMs co) (w_deliveries w) = (r, t)" by fastforce
  have k: "keyed (w_deliveries w)" using s by (simp add: settled_def)
  show "settled k w'"
  proof (cases "\<exists>c. r = Inr (Some c)")
    case False
    then have "t = w_deliveries w" using claim_moves [OF k claim] by blast
    then have "w' = w" using False run claim
      by (cases r) (auto simp: attempt_delivery_def Let_def on_deliveries_def seq_def readW_def split: option.splits)
    then show ?thesis using s by simp
  next
    case True
    then obtain c b where r: "r = Inr (Some c)" and b: "getWakeDelivery (w_deliveries w) ?i = Some b" "\<not> finished b"
        "t = put_delivery c (w_deliveries w)" "wd_wakeId c = ?i" "wd_attemptCount c = Suc (wd_attemptCount b)"
        "wd_status c = WClaimed" "wd_leaseOwner c = Some (co_workerId co)"
      using claim_moves [OF k claim] by auto
    let ?v = "w\<lparr>w_deliveries := t\<rparr>"
    obtain p v where p: "queue_wake (en_ru en) m q ?v = (Inr p, v)"
      and caught: "catch_do (performClaimedDelivery en co deliver m d q c) (after_failure (en_ru en) co m q p c) v = (Inr res, w')"
      using run claim by (auto simp: attempt_delivery_def Let_def on_deliveries_def seq_def r split: prod.splits sum.splits)
    have v: "w_deliveries v = put_delivery c (w_deliveries w)" "w_calls v = w_calls w"
      using unsent.keepsD [OF unsent_wake_records(3) p] b(3) by (simp_all add: unsent_def)
    have o: "owned co c v" using k b by (auto simp: owned_def v keyed_def get_put_delivery)
    obtain r3 u where u: "performClaimedDelivery en co deliver m d q c v = (r3, u)" by fastforce
    note performed = perform_owned [OF assms(1,2) o b(4) u]
    have "(w_calls w' = w_calls w \<or> w_calls w' = w_calls w @ [?i]) \<and> turned (\<lambda>c'. wd_status c' = WDelivered \<or>
        wd_status c' = WDeadLetter \<or> wd_status c' = WRetryPending \<and> int (wd_attemptCount c') < k) c v w'"
    proof (cases r3)
      case (Inr x)
      then have "w' = u" using caught u by (simp add: catch_do_def)
      then show ?thesis using performed Inr v(2) b(4) by (auto simp: turned_def)
    next
      case (Inl e)
      then have failed: "after_failure (en_ru en) co m q p c e u = (Inr res, w')" using caught u by (simp add: catch_do_def)
      show ?thesis
      proof (cases "turned (\<lambda>c'. wd_status c' = WDelivered) c v u")
        case True
        then obtain c' where c': "w_deliveries u = put_delivery c' (w_deliveries v)" "wd_wakeId c' = ?i" "wd_status c' = WDelivered"
          using b(4) by (auto simp: turned_def)
        have "unsent u w'" by (rule failure_delivered [OF _ c'(3) failed]) (simp add: c' get_put_delivery)
        then show ?thesis using performed True v(2) b(4) turned_after by (fastforce simp: turned_def unsent_def)
      next
        case False
        then have same: "w_deliveries u = w_deliveries v" and e: "\<not> claim_lost e" using performed Inl by auto
        have "owned co c u" using o by (simp add: owned_def same)
        from failure_owned [OF this e b(4) failed] show ?thesis
          using performed assms(3) v(2) b(4) same by (fastforce simp: turned_def)
      qed
    qed
    then obtain c' where c': "w_deliveries w' = put_delivery c' (put_delivery c (w_deliveries w))" "wd_wakeId c' = ?i"
        "wd_attemptCount c' = Suc (wd_attemptCount b)" "wd_status c' \<noteq> WClaimed"
        "\<not> finished c' \<longrightarrow> int (wd_attemptCount c') < k" and calls: "w_calls w' = w_calls w \<or> w_calls w' = w_calls w @ [?i]"
      using b(4,5) v(1) by (auto simp: turned_def finished_def)
    have get: "getWakeDelivery (w_deliveries w') = (getWakeDelivery (w_deliveries w))(?i \<mapsto> c')"
      by (simp add: c' b(4) get_put_delivery)
    have "int (wd_attemptCount b) < k" using s b(1,2) by (simp add: settled_def)
    moreover have "claims w ?i = wd_attemptCount b" "claims w' ?i = Suc (wd_attemptCount b)" "calls w ?i \<le> wd_attemptCount b"
      using s b(1) c'(3) by (auto simp: claims_def get settled_def elim!: allE [of _ ?i])
    moreover have "claims w' j = claims w j" "calls w' j = calls w j" if "j \<noteq> ?i" for j
      using calls that by (auto simp: claims_def calls_def get)
    moreover have "calls w' ?i \<le> Suc (calls w ?i)" using calls by (auto simp: calls_def)
    ultimately have each: "calls w' j \<le> claims w' j \<and> (\<forall>r. getWakeDelivery (w_deliveries w') j = Some r \<longrightarrow>
        wd_status r \<noteq> WClaimed \<and> int (wd_attemptCount r) \<le> k \<and> (\<not> finished r \<longrightarrow> int (wd_attemptCount r) < k))" for j
      using s c'(3-5) by (cases "j = ?i") (auto simp: get settled_def)
    have "keyed (w_deliveries w')" using k c'(2) by (simp add: keyed_def get)
    then show ?thesis using each s by (simp add: settled_def)
  qed
qed

lemma settles_deliver:
  assumes "alone co" and "attempt_limit (co_maxAttempts co) \<le> k"
  shows "settles k (deliverMatched en co m)"
proof (cases "co_deliverer co")
  case None
  then show ?thesis
    unfolding deliverMatched_def Let_def None option.case
    by (intro settles_unsent unsent.keeps_rules unsent.keeps_support unsent_wake_records unsent_effects)
next
  case (Some deliver)
  have step: "settles k (read_now ru)" "settles k (liftE x)" "settles k (readW g)" "settles k (ret y)"
    for ru x g y by (rule settles_unsent, intro unsent.keeps_rules unsent.keeps_support)+
  show ?thesis
    unfolding deliverMatched_def deliver_wake_def Let_def Some option.case
    by (intro settles_if settles_seq settles_option step settles_ensure settles_attempt assms Some
      settles_unsent [OF unsent_wake_records(1)] settles_unsent [OF unsent_wake_records(9)]
      settles_unsent [OF unsent_effects(1)] settles_unsent [OF unsent.keeps_throw])
qed

text \<open>A run of coordinators in which every call returns.\<close>

fun deliver_returns :: "engine \<Rightarrow> (coordinator \<times> trigger_match) list \<Rightarrow> world \<Rightarrow> world option" where
  "deliver_returns en [] w = Some w"
| "deliver_returns en ((co, m) # ops) w = (case deliverMatched en co m w of
     (Inl e, w') \<Rightarrow> None | (Inr r, w') \<Rightarrow> deliver_returns en ops w')"

lemma deliver_returns_settled:
  "\<forall>(co, m) \<in> set ops. alone co \<and> attempt_limit (co_maxAttempts co) \<le> k \<Longrightarrow> settled k w \<Longrightarrow>
     deliver_returns en ops w = Some w' \<Longrightarrow> settled k w'"
proof (induction ops arbitrary: w)
  case (Cons e ops)
  obtain co m where e: "e = (co, m)" by fastforce
  obtain r v where v: "deliverMatched en co m w = (Inr r, v)" "deliver_returns en ops v = Some w'"
    using Cons.prems(3) by (auto simp: e split: prod.splits sum.splits)
  have "settled k v" using settles_deliver [of co k en m] Cons.prems(1,2) v(1) by (auto simp: settles_def e)
  then show ?case using Cons.IH Cons.prems(1) v(2) by simp
qed simp


subsection \<open>A delivered wake has fired its match\<close>

definition sound :: "world \<Rightarrow> world \<Rightarrow> bool" where
  "sound w w' \<longleftrightarrow> (trigger_matches.durable (w_matches w) \<longrightarrow> trigger_matches.durable (w_matches w'))"

interpretation sound: support_frame sound
  by unfold_locales (auto simp: sound_def)

lemma sound_deliveries: "sound.keeps (on_deliveries f)" "sound.keeps (append_wake r)"
  by (auto intro!: sound.keepsI simp: sound_def on_deliveries_def append_wake_def split: prod.splits)

lemma sound_records: "sound.keeps (audit_wake ru r label ak f t ds)" "sound.keeps (persistDeliveredWake r)"
  "sound.keeps (queue_wake ru m q)"
  unfolding audit_wake_def persistDeliveredWake_def queue_wake_def audit_queued_def
  by (intro sound.keeps_rules sound.keeps_support sound_deliveries)+

lemma unlogged_audit: "unlogged.keeps (audit_wake ru r label ak f t ds)"
  unfolding audit_wake_def by (intro unlogged.keeps_rules unlogged.keeps_support)

text \<open>What is claimed of the result \<open>r\<close> and the world after it.\<close>

definition delivered_and_fired :: "trigger_match \<Rightarrow> delivery_result \<Rightarrow> world \<Rightarrow> bool" where
  "delivered_and_fired m r w \<longleftrightarrow> (\<exists>f. getTriggerMatch (w_matches w) (tm_matchId m) = Some f \<and> tm_status f = Fired) \<and>
     (\<exists>wk. dy_wake r = Some wk \<and> wr_status wk = Delivered \<and> latest_wake (wr_wakeId wk) w = Some wk)"

lemma latest_wake_id: "latest_wake i w = Some r \<Longrightarrow> wr_wakeId r = i"
  by (auto simp: latest_wake_def latestWake_def find_Some_iff)

lemma fired_end:
  assumes "trigger_matches.durable (w_matches v)" and "seq (markFired en (tm_matchId m) i) (\<lambda>_. ret x) v = (Inr r, w')"
    and "dy_wake x = Some wk" and "wr_status wk = Delivered" and "latest_wake (wr_wakeId wk) v = Some wk"
  shows "delivered_and_fired m r w'"
proof -
  obtain f where f: "markFired en (tm_matchId m) i v = (Inr f, w')" and r: "r = x" using assms(2) by (auto simp: seq_eq_Inr_iff)
  have "w_wakes w' = w_wakes v" using unlogged.keepsD [OF unlogged_effects(1) f] by (simp add: unlogged_def)
  then show ?thesis
    using mark_fired_result [OF assms(1) f] assms(3-5) r by (auto simp: delivered_and_fired_def latest_wake_def)
qed

lemma persist_result:
  assumes "persistDeliveredWake d v = (Inr (wk, appended), v')" and "wr_status d = Delivered"
  shows "wr_status wk = Delivered \<and> latest_wake (wr_wakeId wk) v' = Some wk"
proof (cases "is_wake Delivered (latest_wake (wr_wakeId d) v)")
  case True
  then show ?thesis
    using assms latest_wake_id by (auto simp: persistDeliveredWake_def readW_def seq_def is_wake_def)
next
  case False
  then show ?thesis
    using assms by (auto simp: persistDeliveredWake_def readW_def seq_def append_wake_def latest_wake_def latestWake_append)
qed

lemma finish_fires:
  assumes "trigger_matches.durable (w_matches v)" and "finish_delivery en m q c packet receipt s dl v = (Inr r, w')"
  shows "delivered_and_fired m r w'"
proof -
  obtain t d u wk a x y where t: "read_now (en_ru en) v = (Inr t, x)"
    and d: "parseWakeRecord (q\<lparr>wr_createdAt := t, wr_status := Delivered, wr_runtimeReceiptId := Some s\<rparr>) = Inr d"
    and p: "persistDeliveredWake d x = (Inr (wk, a), y)"
    and u: "(if \<not> a then ret () else
        audit_wake (en_ru en) d ''delivered'' ''wake.delivered'' (Some (Some Wake_Queued)) (Some (Some Wake_Delivered))
          [(''triggerMatchId'', JStr (tm_matchId m)), (''runtimeReceiptId'', JStr s),
           (''duplicate'', JBool (receipt_duplicate receipt)),
           (''attemptCount'', JNum (num_of_int (int (wd_attemptCount (case dl of Some r \<Rightarrow> r | None \<Rightarrow> c))))),
           (''composite'', JBool True)]) y = (Inr (), u)"
    and f: "seq (markFired en (tm_matchId m) (wr_wakeId q)) (\<lambda>_. ret \<lparr>dy_status = Wake_Is_Delivered, dy_wake = Some wk,
        dy_delivery = dl, dy_packet = Some packet, dy_error = None\<rparr>) u = (Inr r, w')"
    using assms(2) unfolding finish_delivery_def Let_def seq_eq_Inr_iff by (auto simp: liftE_def seq_eq_Inr_iff split: prod.splits sum.splits)
  have "sound v x" "sound x y" using sound.keepsD t p sound.keeps_primitives(1) sound_records(2) by blast+
  moreover have "sound y u" "unlogged y u"
    using u sound.keepsD [OF sound_records(1)] unlogged.keepsD [OF unlogged_audit]
    by (auto simp: sound.R_refl unlogged.R_refl split: if_splits)
  ultimately have dur: "trigger_matches.durable (w_matches u)" and wakes: "w_wakes u = w_wakes y"
    using assms(1) by (auto simp: sound_def unlogged_def)
  have "wr_status d = Delivered" using d by (auto simp: parseWakeRecord_def split: if_splits)
  from persist_result [OF p this] have "wr_status wk = Delivered" "latest_wake (wr_wakeId wk) u = Some wk"
    by (simp_all add: latest_wake_def wakes)
  from fired_end [OF dur f _ this] show ?thesis by simp
qed

lemma failure_status: "after_failure ru co m q p c e v = (Inr r, w') \<Longrightarrow> dy_status r \<noteq> Wake_Is_Delivered"
  by (auto simp: after_failure_def Let_def claimLostOutcome_def readW_def catch_do_def seq_eq_Inr_iff report_retry_def
    report_dead_def seq_def split: if_splits sum.splits prod.splits option.splits)

lemma attempt_fires:
  assumes "\<forall>n. sound.keeps (\<lambda>w. (Inr (), co_meanwhile co n w))" and "trigger_matches.durable (w_matches w)"
    and "attempt_delivery en co deliver m d q now w = (Inr r, w')" and "dy_status r = Wake_Is_Delivered"
  shows "delivered_and_fired m r w'"
proof -
  obtain claimed x where x: "on_deliveries (claimWakeDelivery (wr_wakeId q) (co_workerId co) now (co_leaseMs co)) w = (Inr claimed, x)"
    using assms(3) by (auto simp: attempt_delivery_def Let_def seq_eq_Inr_iff)
  then obtain c p y where c: "claimed = Some c" and p: "queue_wake (en_ru en) m q x = (Inr p, y)"
    and caught: "catch_do (performClaimedDelivery en co deliver m d q c) (after_failure (en_ru en) co m q p c) y = (Inr r, w')"
    using assms(3,4) by (cases claimed) (auto simp: attempt_delivery_def Let_def seq_eq_Inr_iff readW_def split: if_splits)
  have dur: "trigger_matches.durable (w_matches y)"
    using assms(2) sound.keepsD [OF sound_deliveries(1) x] sound.keepsD [OF sound_records(3) p] by (simp add: sound_def)
  obtain performed: "performClaimedDelivery en co deliver m d q c y = (Inr r, w')"
    using caught failure_status assms(4) by (fastforce simp: catch_do_def split: prod.splits sum.splits)
  have host: "sound.keeps (call_host co deliver i packet)" for i packet
    using assms(1) by (auto simp: sound.keeps_def call_host_def Let_def sound_def)
  obtain packet receipt s a b u v z where call: "call_host co deliver (wr_wakeId q) packet y = (Inr receipt, u)"
    and t: "read_now (en_ru en) u = (Inr a, v)"
    and complete: "on_deliveries (completeWakeDelivery (wr_wakeId q) (co_workerId co) (Some (int (wd_attemptCount c))) s a) v = (Inr b, z)"
    and finish: "finish_delivery en m q c packet receipt s b z = (Inr r, w')"
    using performed by (auto simp: performClaimedDelivery_def Let_def seq_eq_Inr_iff liftE_def split: option.splits sum.splits)
  have "trigger_matches.durable (w_matches z)"
    using dur sound.keepsD [OF host call] sound.keepsD [OF sound.keeps_primitives(1) t] sound.keepsD [OF sound_deliveries(1) complete]
    by (simp add: sound_def)
  then show ?thesis by (rule finish_fires [OF _ finish])
qed

lemma recovered_fires:
  assumes "trigger_matches.durable (w_matches w)" and "tm_status m = Matched" and "deliveredResult en m t i dl w = (Inr r, w')"
  shows "delivered_and_fired m r w'"
proof -
  obtain wk x where wk: "finalize_recovered (en_ru en) m t i dl w = (Inr wk, x)"
    and f: "seq (markFired en (tm_matchId m) i) (\<lambda>_. ret (outcome Wake_Is_Delivered (Some wk))) x = (Inr r, w')"
    using assms(2,3) by (auto simp: deliveredResult_def seq_eq_Inr_iff)
  have "sound.keeps (finalize_recovered ru m t i dl)" for ru
    unfolding finalize_recovered_def by (intro sound.keeps_rules sound.keeps_support sound_records)
  then have dur: "trigger_matches.durable (w_matches x)" using assms(1) wk sound.keepsD by (fastforce simp: sound_def)
  have "wr_status wk = Delivered \<and> latest_wake (wr_wakeId wk) x = Some wk"
  proof (cases "is_wake Delivered (latest_wake i w)")
    case True
    then show ?thesis
      using wk latest_wake_id by (auto simp: finalize_recovered_def readW_def seq_def is_wake_def)
  next
    case False
    then obtain now r a u v where r: "parseWakeRecord (wake_of i m t now Delivered (wd_runtimeReceiptId dl)) = Inr r"
      and p: "persistDeliveredWake r u = (Inr (wk, a), v)" and x: "x = v \<or> (\<exists>ds. audit_wake (en_ru en) wk ''delivered-recovered'' ''wake.delivered''
         (Some (Some Wake_Queued)) (Some (Some Wake_Delivered)) ds v = (Inr (), x))"
      using wk by (auto simp: finalize_recovered_def readW_def seq_eq_Inr_iff liftE_def split: if_splits sum.splits) blast+
    have "wr_status r = Delivered" using r by (auto simp: parseWakeRecord_def wake_of_def split: if_splits)
    moreover have "w_wakes x = w_wakes v" using x unlogged.keepsD [OF unlogged_audit] by (auto simp: unlogged_def)
    ultimately show ?thesis using persist_result [OF p] by (simp add: latest_wake_def)
  qed
  then show ?thesis using fired_end [OF dur f, of wk] by (auto simp: outcome_def)
qed

text \<open>
  C15: a wake that is reported as delivered has fired its match. Whenever \<open>deliverMatched\<close> returns the
  status \<open>wake_delivered\<close>, be it after a call of the host, after a crash that was recovered from the
  recorded receipt, or for a wake record of an earlier run, the match is fired in the store and the
  latest record of the wake is the delivered one that is returned.
\<close>

theorem wake_delivered_fires:
  assumes "\<forall>n. sound.keeps (\<lambda>w. (Inr (), co_meanwhile co n w))" and "trigger_matches.durable (w_matches w)"
    and "deliverMatched en co m w = (Inr r, w')" and "dy_status r = Wake_Is_Delivered"
  shows "(\<exists>f. getTriggerMatch (w_matches w') (tm_matchId m) = Some f \<and> tm_status f = Fired) \<and>
    (\<exists>wk. dy_wake r = Some wk \<and> wr_status wk = Delivered \<and> latest_wake (wr_wakeId wk) w' = Some wk)"
proof -
  have m: "tm_status m = Matched"
    using assms(3,4) by (auto simp: deliverMatched_def Let_def readW_def outcome_def split: if_splits)
  obtain d t where d: "getTrigger (w_triggers w) (tm_triggerId m) (tm_triggerVersion m) = Some d" "td_target d = Some t"
    using assms(3,4) m by (auto simp: deliverMatched_def Let_def readW_def seq_def outcome_def split: option.splits)
  let ?i = "wake_id_of (en_ru en) m t"
  have "delivered_and_fired m r w'"
  proof (cases "is_wake Delivered (latest_wake ?i w)")
    case True
    then obtain wk where wk: "latest_wake ?i w = Some wk" "wr_status wk = Delivered" by (auto simp: is_wake_def)
    have "seq (markFired en (tm_matchId m) ?i) (\<lambda>_. ret (outcome Wake_Is_Delivered (Some wk))) w = (Inr r, w')"
      using assms(3) m d True wk by (simp add: deliverMatched_def Let_def readW_def seq_def)
    from fired_end [OF assms(2) this _ wk(2)] show ?thesis using wk(1) latest_wake_id [OF wk(1)] by (simp add: outcome_def)
  next
    case False
    then obtain now q x deliver where q: "parseWakeRecord (wake_of ?i m t now Queued None) = Inr q"
      and x: "read_now (en_ru en) w = (Inr now, x)" and run: "deliver_wake en co deliver m d t q x = (Inr r, w')"
      using assms(3,4) m d
      by (auto simp: deliverMatched_def Let_def readW_def seq_eq_Inr_iff liftE_def only_queue_def outcome_def
        split: if_splits sum.splits option.splits)
    have "sound x' y" if "read_now ru x' = (Inr a, y)" for ru x' y a using that sound.keepsD sound.keeps_primitives(1) by blast
    then obtain a y b z where y: "read_now (en_ru en) x = (Inr a, y)" and z: "on_deliveries (ensureWakeDelivery
        \<lparr>ei_wakeId = wr_wakeId q, ei_matchId = tm_matchId m, ei_triggerId = tm_triggerId m,
         ei_triggerVersion = Some (tm_triggerVersion m), ei_runtime = rt_runtime t, ei_now = a\<rparr>) y = (Inr b, z)"
      and dur: "trigger_matches.durable (w_matches z)"
      using run assms(2) x sound.keepsD [OF sound_deliveries(1)]
      by (auto simp: deliver_wake_def Let_def seq_eq_Inr_iff sound_def) blast
    let ?current = "getWakeDelivery (w_deliveries z) (wr_wakeId q)"
    have rest: "(if map_option wd_status ?current = Some WDelivered then deliveredResult en m t (wr_wakeId q) (the ?current)
        else if map_option wd_status ?current = Some WDeadLetter then
          seq (read_now (en_ru en)) (\<lambda>createdAt.
          seq (liftE (parseWakeRecord (q\<lparr>wr_createdAt := createdAt, wr_status := Dead\<rparr>))) (\<lambda>deadLetter.
          seq (append_wake deadLetter) (\<lambda>_. ret (outcome Wake_Is_Dead (Some deadLetter)))))
        else attempt_delivery en co deliver m d q a) z = (Inr r, w')"
      using run y z by (simp add: deliver_wake_def Let_def readW_def seq_def)
    show ?thesis
      using rest recovered_fires [OF dur m] attempt_fires [OF assms(1) dur _ assms(4)] assms(4)
      by (auto simp: seq_eq_Inr_iff outcome_def split: if_splits)
  qed
  then show ?thesis by (simp add: delivered_and_fired_def)
qed

end
