(* ===== verification/Wake_Progress.thy ===== *)
theory Wake_Progress
  imports Wake_Settled
begin

text \<open>
  A host that answers gets its wake delivered: the whole path of a delivery, from the match to the
  fired trigger, returns when nothing is in its way.
\<close>

subsection \<open>Actions that return\<close>

text \<open>
  \<open>ready n w\<close>: the audit log takes \<open>n\<close> more records, and deadlines and triggers are well formed.
  \<open>works n m\<close>: with room for \<open>n\<close> records \<open>m\<close> returns and leaves the rest of the room.
\<close>

definition ready :: "nat \<Rightarrow> world \<Rightarrow> bool" where
  "ready n w \<longleftrightarrow> deadlines_ok w \<and> (\<forall>r \<in> set (w_audit w). hex64 (ar_hash r)) \<and>
     int (length (w_audit w) + n) \<le> MAX_SAFE_INTEGER \<and>
     (\<forall>i v d. getTrigger (w_triggers w) i v = Some d \<longrightarrow> audit_id (''trigger:'' @ td_triggerId d) \<and> td_triggerId d \<noteq> [])"

definition works :: "nat \<Rightarrow> 'a act \<Rightarrow> bool" where
  "works n m \<longleftrightarrow> (\<forall>b w. ready (n + b) w \<longrightarrow> (\<exists>x w'. m w = (Inr x, w') \<and> ready b w'))"

definition runtime_ok :: "runtime \<Rightarrow> bool" where
  "runtime_ok ru \<longleftrightarrow> clock_runs ru \<and> (\<forall>s. hex64 (ru_sha ru s))"

lemma ready_mono: "ready k w \<Longrightarrow> n \<le> k \<Longrightarrow> ready n w"
  by (simp add: ready_def)

lemma worksD: "works n m \<Longrightarrow> ready (n + b) w \<Longrightarrow> \<exists>x w'. m w = (Inr x, w') \<and> ready b w'"
  by (simp add: works_def)

lemma works_mono: "works n m \<Longrightarrow> n \<le> k \<Longrightarrow> works k m"
  unfolding works_def
proof (intro allI impI)
  fix b w
  assume m: "\<forall>b w. ready (n + b) w \<longrightarrow> (\<exists>x w'. m w = (Inr x, w') \<and> ready b w')" and "n \<le> k" and "ready (k + b) w"
  then have "ready (n + (k - n + b)) w" by simp
  then obtain x w' where "m w = (Inr x, w')" "ready (k - n + b) w'" using m by blast
  then show "\<exists>x w'. m w = (Inr x, w') \<and> ready b w'" using ready_mono [of "k - n + b" w' b] by auto
qed

lemma works_seq: "works n m \<Longrightarrow> (\<And>x. works k (f x)) \<Longrightarrow> works (n + k) (seq m f)"
  unfolding works_def by (metis (no_types, lifting) add.assoc seq_Inr)

lemma works_still: "(\<And>w. \<exists>x. m w = (Inr x, w)) \<Longrightarrow> works 0 m"
  by (simp add: works_def) (metis)

lemma works_ret: "works 0 (ret x)" and works_readW: "works 0 (readW f)"
  by (rule works_still, simp add: readW_def)+

lemma works_read_now: "works 0 (read_now ru)"
  by (simp add: works_def read_now_def ready_def)

lemma works_set_state: "works 0 (set_state ru i v st md)"
  by (auto simp: works_def set_state_def on_states_def read_now_def seq_def ready_def split: prod.splits)

definition input_ok :: "audit_input \<Rightarrow> bool" where
  "input_ok i \<longleftrightarrow> audit_id (ai_auditId i) \<and> audit_id (ai_traceId i) \<and> ai_kind i \<in> set AUDIT_KINDS \<and>
     ai_entityType i \<in> set ENTITY_TYPES \<and> audit_id (ai_entityId i) \<and>
     (case (ai_fromState i, ai_toState i) of (Some (Some a), Some (Some b)) \<Rightarrow> canTransition a b | _ \<Rightarrow> True)"

lemma works_audit:
  assumes "runtime_ok ru" and "input_ok i"
  shows "works 1 (appendAudit ru i)"
  unfolding works_def
proof (intro allI impI)
  fix b w
  assume r: "ready (1 + b) w"
  let ?c = "w_audit w"
  have heads: "opt_all hex64 (head_hash ?c)" using r by (auto simp: head_hash_def ready_def opt_all_def)
  have first: "(w_audit w = []) = (head_hash ?c = None)" by (simp add: head_hash_def)
  have trans: "(case (ai_fromState i, ai_toState i) of (Some (Some a), Some (Some b)) \<Rightarrow> assertTransition a b | _ \<Rightarrow> None) = None"
    using assms(2) by (auto simp: input_ok_def assertTransition_def split: option.splits)
  let ?h = "ru_sha ru (canonicalJson (ru_host ru) (unsigned_json i (length ?c) (head_hash ?c)))"
  let ?a = "\<lparr>ar_input = i, ar_sequence = length ?c, ar_previousHash = head_hash ?c, ar_hash = ?h\<rparr>"
  have ok: "audit_record_ok ?a" using assms r heads
    by (auto simp: audit_record_ok_def input_ok_def runtime_ok_def ready_def first)
  have "buildAuditRecordAt (ru_host ru) (ru_sha ru) i (int (length ?c)) (head_hash ?c) = Inr ?a"
    using r trans ok heads by (simp add: buildAuditRecordAt_def parseAuditRecord_def ready_def first Let_def)
  then have a: "append_audit (ru_host ru) (ru_sha ru) i ?c = (Inr ?a, ?c @ [?a])" "hex64 (ar_hash ?a)"
    using assms(1) by (simp_all add: append_audit_def runtime_ok_def)
  then show "\<exists>x w'. appendAudit ru i w = (Inr x, w') \<and> ready b w'"
    using r by (auto simp: appendAudit_def ready_def)
qed

lemma hash_id_ok: "tag \<noteq> [] \<Longrightarrow> length tag \<le> 100 \<Longrightarrow> audit_id (hash_id ru tag s)"
  by (simp add: audit_id_def hash_id_def)

lemma works_each_deadline:
  assumes "clock_runs ru"
  shows "works 0 (each (set_deadline ru DCancelled) ks)"
  unfolding works_def
proof (intro allI impI)
  fix b w
  assume r: "ready (0 + b) w"
  then obtain w' where w': "each (set_deadline ru DCancelled) ks w = (Inr (), w')" "deadlines_ok w'" "deadlines_only w w'"
    using cancel_all [OF assms, of w ks] by (auto simp: ready_def)
  have "w_audit w' = w_audit w" "w_triggers w' = w_triggers w"
    using w'(3) by (cases w; cases w'; simp add: deadlines_only_def)+
  then show "\<exists>x w'. each (set_deadline ru DCancelled) ks w = (Inr x, w') \<and> ready b w'"
    using w' r by (simp add: ready_def)
qed

lemma works_cancel: "clock_runs ru \<Longrightarrow> works 0 (cancelDeadlinesForMatch ru i)"
  unfolding cancelDeadlinesForMatch_def
  using works_seq [OF works_readW works_each_deadline] by fastforce

definition match_ids_ok :: "trigger_match \<Rightarrow> bool" where
  "match_ids_ok m \<longleftrightarrow> audit_id (tm_matchId m) \<and> audit_id (match_trace m)"

lemma works_auditMatch:
  assumes "runtime_ok ru" and "match_ids_ok r" and "ak \<in> set AUDIT_KINDS"
  shows "works 1 (auditMatch ru r ak ds)"
proof -
  have id: "audit_id (hash_id ru ''audit_'' s)" for s by (rule hash_id_ok) simp_all
  have step: "works (0 + (0 + (1 + 0))) (auditMatch ru r ak ds)"
    unfolding auditMatch_def
    by (intro works_seq works_readW works_read_now works_audit works_ret assms(1))
      (use assms(2,3) id in \<open>simp add: input_ok_def match_ids_ok_def match_trace_def ENTITY_TYPES_def\<close>)
  then show ?thesis by simp
qed

lemma works_trigger_audit:
  assumes "runtime_ok ru" and "audit_id (''trigger:'' @ td_triggerId d)" and "td_triggerId d \<noteq> []" and "ak \<in> set AUDIT_KINDS"
  shows "works 1 (auditTriggerLifecycle ru d ak ds)"
proof -
  have id: "audit_id (hash_id ru ''audit_'' s)" for s by (rule hash_id_ok) simp_all
  have "audit_id (td_triggerId d)" using assms(2,3) by (simp add: audit_id_def)
  then have step: "works (0 + (1 + 0)) (auditTriggerLifecycle ru d ak ds)"
    unfolding auditTriggerLifecycle_def
    by (intro works_seq works_read_now works_audit works_ret assms(1))
      (use assms id in \<open>simp add: input_ok_def ENTITY_TYPES_def\<close>)
  then show ?thesis by simp
qed

lemma works_advance:
  assumes "runtime_ok ru"
  shows "works 1 (advanceLifecycleAfterEffect ru m ak e)"
  unfolding works_def
proof (intro allI impI)
  fix b w
  assume r: "ready (1 + b) w"
  show "\<exists>x w'. advanceLifecycleAfterEffect ru m ak e w = (Inr x, w') \<and> ready b w'"
  proof (cases "getTrigger (w_triggers w) (tm_triggerId m) (tm_triggerVersion m)")
    case None
    then show ?thesis using ready_mono [OF r, of b] by (auto simp: advanceLifecycleAfterEffect_def readW_def seq_def)
  next
    case (Some d)
    let ?s = "getTriggerState (w_states w) (tm_triggerId m) (tm_triggerVersion m)"
    have d: "audit_id (''trigger:'' @ td_triggerId d)" "td_triggerId d \<noteq> []" using r Some by (auto simp: ready_def)
    have last: "works 1 (if cp then auditTriggerLifecycle ru d ''trigger.completed'' ds else ret ())" for cp ds
      using works_trigger_audit [OF assms d, of "''trigger.completed''" ds] works_mono [OF works_ret [of "()"], of 1]
      by (simp add: AUDIT_KINDS_def)
    let ?n = "ts_fireCount ?s + 1"
    let ?cp = "lifecycle_complete (td_lifecycle d) ?n"
    let ?act = "seq (read_now ru) (\<lambda>effectAt.
      seq (set_state ru (tm_triggerId m) (tm_triggerVersion m) (if ?cp then Completed else Active)
        ((kept_metadata ?s)\<lparr>md_fireCount := Some ?n, md_lastFiredAt := Some (Some effectAt)\<rparr>)) (\<lambda>_.
      if ?cp then auditTriggerLifecycle ru d ''trigger.completed''
          [(''reason'', JStr (completion_reason (td_lifecycle d))), (''fireCount'', JNum (num_of_int ?n)),
           (''effectKind'', JStr (effect_text ak)), (''effectId'', JStr e)]
      else ret ()))"
    have "works (0 + (0 + 1)) ?act" by (intro works_seq works_read_now works_set_state last)
    then have "\<exists>x w'. ?act w = (Inr x, w') \<and> ready b w'" using worksD [of 1 ?act b w] r by simp
    moreover have "advanceLifecycleAfterEffect ru m ak e w = (if ts_status ?s \<noteq> Active then ret () else ?act) w"
      using Some by (simp add: advanceLifecycleAfterEffect_def Let_def readW_def seq_def [of "\<lambda>w. (Inr _, w)"])
    ultimately show ?thesis using ready_mono [OF r, of b] by auto
  qed
qed

lemma works_finish:
  assumes "runtime_ok ru" and "match_ids_ok r"
  shows "works 2 (finish_effect ru r i ''trigger.fired'' ds eff e)"
proof -
  have "works (0 + (1 + (1 + 0))) (finish_effect ru r i ''trigger.fired'' ds eff e)"
    unfolding finish_effect_def
    by (intro works_seq works_cancel works_auditMatch works_advance works_ret assms)
      (use assms in \<open>simp_all add: runtime_ok_def AUDIT_KINDS_def\<close>)
  then show ?thesis by (simp add: eval_nat_numeral)
qed

lemma mark_fired_works:
  assumes "runtime_ok (en_ru en)" and "trigger_matches.durable (w_matches w)" and "getTriggerMatch (w_matches w) i = Some m"
    and "tm_status m = Matched" and "match_ids_ok m" and "audit_id wakeId" and "ready 2 w"
  shows "\<exists>r w'. markFired en i wakeId w = (Inr r, w')"
proof -
  let ?r = "fired_record en wakeId m w"
  have "match_ids_ok ?r" using assms(5) by (simp add: match_ids_ok_def match_trace_def fired_record_def split: list.splits)
  from works_finish [OF assms(1) this, of i "[(''wakeId'', JStr wakeId)]" Wake_Effect wakeId]
  have fin: "works 2 (finish_effect (en_ru en) ?r i ''trigger.fired'' [(''wakeId'', JStr wakeId)] Wake_Effect wakeId)" .
  have "ready (2 + 0) (w\<lparr>w_ticks := w_ticks w + 1, w_matches := put_match ?r (w_matches w)\<rparr>)"
    using assms(7) by (simp add: ready_def)
  from worksD [OF fin this] show ?thesis unfolding mark_fired_matched [OF assms(2-4,6)] by blast
qed

subsection \<open>A host that answers\<close>

lemma works_wake_audit:
  assumes "runtime_ok ru" and "wake_record_ok r" and "ak \<in> set AUDIT_KINDS"
    and "case (fs, ts) of (Some (Some a), Some (Some b)) \<Rightarrow> canTransition a b | _ \<Rightarrow> True"
  shows "works 1 (audit_wake ru r label ak fs ts ds)"
proof -
  have id: "audit_id (hash_id ru ''audit_'' s)" for s by (rule hash_id_ok) simp_all
  have step: "works (0 + (0 + (1 + 0))) (audit_wake ru r label ak fs ts ds)"
    unfolding audit_wake_def
    by (intro works_seq works_readW works_read_now works_audit works_ret assms(1))
      (use assms id in \<open>simp add: input_ok_def wake_record_ok_def ENTITY_TYPES_def\<close>)
  then show ?thesis by simp
qed

lemma works_append_wake: "works 0 (append_wake r)"
  by (simp add: works_def append_wake_def ready_def)

lemma works_queue:
  assumes "runtime_ok ru" and "wake_record_ok q"
  shows "works 1 (queue_wake ru m q)"
proof -
  have "works (0 + 1) (queue_wake ru m q)"
    unfolding queue_wake_def
  proof (intro works_seq works_readW)
    fix x :: "wake_record option"
    have "works (0 + (1 + 0)) (seq (append_wake q) (\<lambda>_. seq (audit_queued ru m q) (\<lambda>_. ret q)))"
      unfolding audit_queued_def
      by (intro works_seq works_append_wake works_ret works_wake_audit assms) (simp_all add: AUDIT_KINDS_def)
    then show "works 1 (case x of None \<Rightarrow> seq (append_wake q) (\<lambda>_. seq (audit_queued ru m q) (\<lambda>_. ret q)) | Some r \<Rightarrow> ret r)"
      by (cases x) (auto intro: works_mono [OF works_ret])
  qed
  then show ?thesis by simp
qed

lemma quiet_wake_records: "quiet.keeps (append_wake r)" "quiet.keeps (audit_wake ru r label ak f t ds)" "quiet.keeps (queue_wake ru m q)"
proof -
  have wake: "quiet.keeps (append_wake r)" for r by (rule quiet.keepsI) (simp add: append_wake_def quiet_def)
  show "quiet.keeps (append_wake r)" "quiet.keeps (audit_wake ru r label ak f t ds)" "quiet.keeps (queue_wake ru m q)"
    unfolding queue_wake_def audit_queued_def audit_wake_def
    by (intro quiet.keeps_rules quiet.keeps_support wake)+
qed

text \<open>The match is in the store as it was handed to the coordinator, and all its texts pass the schemas.\<close>

definition pending_match :: "trigger_match \<Rightarrow> world \<Rightarrow> bool" where
  "pending_match m w \<longleftrightarrow> trigger_matches.durable (w_matches w) \<and> getTriggerMatch (w_matches w) (tm_matchId m) = Some m \<and>
     tm_status m = Matched \<and> match_ids_ok m"

lemma pending_quiet: "pending_match m w \<Longrightarrow> quiet w w' \<Longrightarrow> pending_match m w'"
  by (simp add: pending_match_def quiet_def)

lemma finish_works:
  assumes "runtime_ok (en_ru en)" and "pending_match m w" and "wake_record_ok q" and "audit_id s" and "ready 3 w"
  shows "\<exists>r w'. finish_delivery en m q c packet receipt s dl w = (Inr r, w') \<and> dy_status r = Wake_Is_Delivered"
proof -
  let ?v = "w\<lparr>w_ticks := w_ticks w + 1\<rparr>"
  let ?d = "q\<lparr>wr_createdAt := ru_clock (en_ru en) (w_ticks w), wr_status := Delivered, wr_runtimeReceiptId := Some s\<rparr>"
  have d: "parseWakeRecord ?d = Inr ?d" "wake_record_ok ?d"
    using assms(3,4) by (simp_all add: parseWakeRecord_def wake_record_ok_def opt_all_def)
  obtain wk b x where p: "persistDeliveredWake ?d ?v = (Inr (wk, b), x)" "quiet ?v x" "w_audit x = w_audit ?v" "w_deadlines x = w_deadlines ?v"
    by (cases "is_wake Delivered (latest_wake (wr_wakeId ?d) ?v)")
      (auto simp: persistDeliveredWake_def readW_def seq_def append_wake_def quiet_def)
  have rx: "ready (1 + 2) x" "pending_match m x"
    using assms(2,5) p(2-4) by (simp_all add: ready_def quiet_def pending_match_def)
  let ?report = "audit_wake (en_ru en) ?d ''delivered'' ''wake.delivered'' (Some (Some Wake_Queued)) (Some (Some Wake_Delivered))
      [(''triggerMatchId'', JStr (tm_matchId m)), (''runtimeReceiptId'', JStr s),
       (''duplicate'', JBool (receipt_duplicate receipt)),
       (''attemptCount'', JNum (num_of_int (int (wd_attemptCount (case dl of Some r \<Rightarrow> r | None \<Rightarrow> c))))),
       (''composite'', JBool True)]"
  have "works 1 ?report" by (intro works_wake_audit assms d) (simp_all add: AUDIT_KINDS_def canTransition_def)
  from worksD [OF this rx(1)] obtain u y where "?report x = (Inr u, y)" "ready 2 y" by auto
  moreover have "quiet x y" using quiet.keepsD [OF quiet_wake_records(2)] calculation(1) by blast
  ultimately obtain z where z: "(if \<not> b then ret () else ?report) x = (Inr (), z)" "ready 2 z" "pending_match m z"
    using rx ready_mono [OF rx(1), of 2] pending_quiet by (cases b) auto
  obtain f w' where f: "markFired en (tm_matchId m) (wr_wakeId q) z = (Inr f, w')"
    using mark_fired_works [OF assms(1) _ _ _ _ _ z(2), of "tm_matchId m" m "wr_wakeId q"] z(3) assms(3)
    by (auto simp: pending_match_def wake_record_ok_def)
  show ?thesis
    using d(1) p(1) z(1) f by (simp add: finish_delivery_def Let_def seq_def read_now_def)
qed

definition answers :: "coordinator \<Rightarrow> bool" where
  "answers co \<longleftrightarrow> co_workerId co \<noteq> [] \<and> co_packetBuilder co = buildGenericRuntimeWakePacket \<and>
     (\<forall>n w. co_meanwhile co n w = w) \<and>
     (case co_deliverer co of None \<Rightarrow> False | Some deliver \<Rightarrow>
        \<forall>n p. (case deliver n p of Inl e \<Rightarrow> False | Inr receipt \<Rightarrow> opt_all audit_id (receipt_id receipt) \<and> receipt_id receipt \<noteq> None))"

lemma answers_host:
  assumes "answers co" and "co_deliverer co = Some deliver"
  obtains receipt s where "deliver n p = Inr receipt" "receipt_id receipt = Some s" "audit_id s"
proof -
  have "case deliver n p of Inl e \<Rightarrow> False | Inr receipt \<Rightarrow> opt_all audit_id (receipt_id receipt) \<and> receipt_id receipt \<noteq> None"
    using assms by (simp add: answers_def)
  then show ?thesis using that by (auto simp: opt_all_def split: sum.splits option.splits)
qed

text \<open>A delivery that can be claimed at the time \<open>now\<close>.\<close>

definition claimable :: "coordinator \<Rightarrow> timestamp \<Rightarrow> wake_delivery \<Rightarrow> bool" where
  "claimable co now b \<longleftrightarrow> \<not> finished b \<and> delivery_ready (ts_ms now) b \<and> int (wd_attemptCount b) < MAX_SAFE_INTEGER \<and>
     \<bar>ts_ms now + lease_span (co_leaseMs co)\<bar> \<le> max_time"

lemma attempt_works:
  assumes "runtime_ok (en_ru en)" and "pending_match m w" and "wake_record_ok q" and "answers co"
    and "co_deliverer co = Some deliver" and "td_target d = Some t"
    and "getWakeDelivery (w_deliveries w) (wr_wakeId q) = Some b" and "wd_wakeId b = wr_wakeId q" and "claimable co now b"
    and "ready 4 w"
  shows "\<exists>r w'. attempt_delivery en co deliver m d q now w = (Inr r, w') \<and> dy_status r = Wake_Is_Delivered"
proof -
  let ?until = "Ts (iso_text (ts_ms now + lease_span (co_leaseMs co))) (ts_ms now + lease_span (co_leaseMs co))"
  let ?c = "b\<lparr>wd_status := WClaimed, wd_attemptCount := wd_attemptCount b + 1,
    wd_leaseOwner := Some (co_workerId co), wd_leaseUntil := Some ?until, wd_updatedAt := now\<rparr>"
  let ?v = "w\<lparr>w_deliveries := put_delivery ?c (w_deliveries w)\<rparr>"
  have claim: "claimWakeDelivery (wr_wakeId q) (co_workerId co) now (co_leaseMs co) (w_deliveries w) =
      (Inr (Some ?c), put_delivery ?c (w_deliveries w))"
    using assms(3,4,7,9)
    by (auto simp: claimWakeDelivery_def wake_record_ok_def audit_id_def answers_def claimable_def finished_def time_clip_def
      toISOString_def Let_def)
  have rv: "ready (1 + 3) ?v" "pending_match m ?v" using assms(2,10) by (simp_all add: ready_def pending_match_def)
  obtain p x where x: "queue_wake (en_ru en) m q ?v = (Inr p, x)" "ready 3 x"
    using worksD [OF works_queue [OF assms(1,3)] rv(1)] by blast
  have px: "pending_match m x" "w_deliveries x = put_delivery ?c (w_deliveries w)"
    using pending_quiet [OF rv(2) quiet.keepsD [OF quiet_wake_records(3) x(1)]] unsent.keepsD [OF unsent_wake_records(3) x(1)]
    by (simp_all add: unsent_def)
  obtain packet where packet: "co_packetBuilder co (wr_wakeId q) m d = Inr packet"
    using assms(4,6) by (simp add: answers_def buildGenericRuntimeWakePacket_def)
  obtain receipt s where answer: "deliver (w_ticks x) packet = Inr receipt" "receipt_id receipt = Some s" "audit_id s"
    by (rule answers_host [OF assms(4,5)])
  let ?y = "x\<lparr>w_calls := w_calls x @ [wr_wakeId q]\<rparr>"
  have call: "call_host co deliver (wr_wakeId q) packet x = (Inr receipt, ?y)"
    using assms(4) answer(1) by (simp add: call_host_def answers_def Let_def)
  let ?now = "ru_clock (en_ru en) (w_ticks x)"
  obtain c' z where complete: "completeWakeDelivery (wr_wakeId q) (co_workerId co) (Some (int (wd_attemptCount ?c))) s ?now
      (w_deliveries x) = (Inr (Some c'), z)"
    using assms(8,9) by (auto simp: px(2) completeWakeDelivery_def getWakeDelivery_def put_delivery_def
      assertWakeClaimGeneration_def claimable_def Let_def)
  let ?z = "?y\<lparr>w_ticks := w_ticks x + 1, w_deliveries := z\<rparr>"
  have "ready 3 ?z" "pending_match m ?z" using x(2) px(1) by (simp_all add: ready_def pending_match_def)
  then obtain r w' where fin: "finish_delivery en m q ?c packet receipt s (Some c') ?z = (Inr r, w')" "dy_status r = Wake_Is_Delivered"
    using finish_works [OF assms(1) _ assms(3) answer(3)] by blast
  have "performClaimedDelivery en co deliver m d q ?c x = (Inr r, w')"
    using packet call answer(2) complete fin(1)
    by (simp add: performClaimedDelivery_def Let_def seq_def read_now_def on_deliveries_def)
  then show ?thesis
    using claim x(1) fin(2) by (simp add: attempt_delivery_def Let_def on_deliveries_def seq_def catch_do_def)
qed

text \<open>Nothing stands in the way of the wake \<open>i\<close>: it is not delivered or given up, and it can be claimed.\<close>

definition open_wake :: "coordinator \<Rightarrow> timestamp \<Rightarrow> string \<Rightarrow> world \<Rightarrow> bool" where
  "open_wake co now i w \<longleftrightarrow> \<not> is_wake Delivered (latest_wake i w) \<and> \<not> is_wake Dead (latest_wake i w) \<and>
     (case getWakeDelivery (w_deliveries w) i of None \<Rightarrow> \<bar>ts_ms now + lease_span (co_leaseMs co)\<bar> \<le> max_time
      | Some b \<Rightarrow> wd_wakeId b = i \<and> claimable co now b)"

lemma ensured_claimable:
  assumes "open_wake co now i w" and "i \<noteq> []" and "matchId \<noteq> []" and "rt \<noteq> []" and "trim_ws version \<noteq> []"
  obtains b t where "ensureWakeDelivery \<lparr>ei_wakeId = i, ei_matchId = matchId, ei_triggerId = triggerId,
      ei_triggerVersion = Some version, ei_runtime = rt, ei_now = now\<rparr> (w_deliveries w) = (Inr b, t)"
    and "getWakeDelivery t i = Some b" and "wd_wakeId b = i" and "claimable co now b"
proof (cases "getWakeDelivery (w_deliveries w) i")
  case None
  have "trim_ws [] = []" by (simp add: trim_ws_def)
  then have "nonblank (Some version) = version" "version \<noteq> []" using assms(5) by (auto simp: nonblank_def)
  then show ?thesis
    using that assms None
    by (force simp: ensureWakeDelivery_def getWakeDelivery_def put_delivery_def open_wake_def claimable_def finished_def
      delivery_ready_def MAX_SAFE_INTEGER_def Let_def)
next
  case (Some b)
  then show ?thesis using that assms(1) by (auto simp: ensureWakeDelivery_def open_wake_def)
qed

lemma open_wake_works:
  assumes "runtime_ok (en_ru en)" and "pending_match m w" and "answers co" and "ready 4 w"
    and "getTrigger (w_triggers w) (tm_triggerId m) (tm_triggerVersion m) = Some d" and "td_target d = Some t" and "target_ok t"
    and "audit_id (''trigger:'' @ tm_triggerId m)" and "trim_ws (tm_triggerVersion m) \<noteq> []"
    and "open_wake co (ru_clock (en_ru en) (w_ticks w + 1)) (wake_id_of (en_ru en) m t) w"
  shows "\<exists>r w'. deliverMatched en co m w = (Inr r, w') \<and> dy_status r = Wake_Is_Delivered \<and>
    delivered_and_fired m r w'"
proof -
  let ?i = "wake_id_of (en_ru en) m t"
  let ?q = "wake_of ?i m t (ru_clock (en_ru en) (w_ticks w)) Queued None"
  let ?now = "ru_clock (en_ru en) (w_ticks w + 1)"
  have id: "audit_id ?i" unfolding wake_id_of_def by (rule hash_id_ok) simp_all
  have q: "wake_record_ok ?q" "wr_wakeId ?q = ?i"
    using id assms(2,7,8) by (simp_all add: wake_record_ok_def wake_of_def opt_all_def pending_match_def match_ids_ok_def)
  have m: "tm_status m = Matched" "tm_matchId m \<noteq> []"
    using assms(2) by (auto simp: pending_match_def match_ids_ok_def audit_id_def)
  obtain b u where b: "ensureWakeDelivery \<lparr>ei_wakeId = ?i, ei_matchId = tm_matchId m, ei_triggerId = tm_triggerId m,
      ei_triggerVersion = Some (tm_triggerVersion m), ei_runtime = rt_runtime t, ei_now = ?now\<rparr> (w_deliveries w) = (Inr b, u)"
    and u: "getWakeDelivery u ?i = Some b" "wd_wakeId b = ?i" "claimable co ?now b"
    using ensured_claimable [OF assms(10) _ m(2) _ assms(9), of "rt_runtime t" "tm_triggerId m"] id assms(7)
    by (auto simp: audit_id_def target_ok_def)
  let ?w = "w\<lparr>w_ticks := w_ticks w + 2, w_deliveries := u\<rparr>"
  obtain deliver where deliver: "co_deliverer co = Some deliver" using assms(3) by (auto simp: answers_def split: option.splits)
  have "ready 4 ?w" "pending_match m ?w" using assms(2,4) by (simp_all add: ready_def pending_match_def)
  then obtain r w' where run: "attempt_delivery en co deliver m d ?q ?now ?w = (Inr r, w')" "dy_status r = Wake_Is_Delivered"
    using attempt_works [OF assms(1) _ q(1) assms(3) deliver assms(6), of m ?w b ?now] u q(2) by auto
  have open_now: "\<not> is_wake Delivered (latest_wake ?i w)" "\<not> is_wake Dead (latest_wake ?i w)" using assms(10) by (simp_all add: open_wake_def)
  have status: "wd_status b \<noteq> WDelivered" "wd_status b \<noteq> WDeadLetter" using u(3) by (auto simp: claimable_def finished_def)
  have "deliver_wake en co deliver m d t ?q (w\<lparr>w_ticks := w_ticks w + 1\<rparr>) = (Inr r, w')"
    using b u(1) status run(1) q(2)
    by (simp add: deliver_wake_def Let_def readW_def read_now_def seq_def on_deliveries_def eval_nat_numeral)
  then have "deliverMatched en co m w = (Inr r, w')"
    using m(1) assms(5,6) open_now q(1) deliver
    by (simp add: deliverMatched_def Let_def readW_def read_now_def seq_def parseWakeRecord_def)
  moreover have "\<forall>n. sound.keeps (\<lambda>w. (Inr (), co_meanwhile co n w))" using assms(3) by (simp add: answers_def sound.keeps_still)
  then have "delivered_and_fired m r w'"
    using attempt_fires [OF _ _ run] assms(2) by (simp add: pending_match_def)
  ultimately show ?thesis using run(2) by blast
qed

text \<open>
  C16: a host that answers gets its wake delivered. When nothing stands in the way, the schemas accept
  the texts of the match and the log has room for four records, \<open>deliverMatched\<close> returns, with the
  status \<open>wake_delivered\<close>, and the match is fired in the store.
\<close>

theorem answering_host_delivers:
  assumes "runtime_ok (en_ru en)" and "pending_match m w" and "answers co" and "ready 4 w"
    and "getTrigger (w_triggers w) (tm_triggerId m) (tm_triggerVersion m) = Some d" and "td_target d = Some t" and "target_ok t"
    and "audit_id (''trigger:'' @ tm_triggerId m)" and "trim_ws (tm_triggerVersion m) \<noteq> []"
    and "open_wake co (ru_clock (en_ru en) (w_ticks w + 1)) (wake_id_of (en_ru en) m t) w"
  shows "\<exists>r w'. deliverMatched en co m w = (Inr r, w') \<and> dy_status r = Wake_Is_Delivered \<and>
    (\<exists>f. getTriggerMatch (w_matches w') (tm_matchId m) = Some f \<and> tm_status f = Fired)"
  using open_wake_works [OF assms] by (auto simp: delivered_and_fired_def)

subsection \<open>A delivery\<close>

definition sample_coordinator :: coordinator where
  "sample_coordinator = constructCoordinator \<lparr>co_workerId = ''w'', co_leaseMs = 0, co_maxAttempts = 0,
     co_retryBaseDelayMs = 0, co_retryMaxDelayMs = 0, co_packetBuilder = buildGenericRuntimeWakePacket,
     co_deliverer = Some (\<lambda>n p. Inr (Some (JObj [(''runtimeReceiptId'', JStr ''r'')]))), co_meanwhile = (\<lambda>n w. w)\<rparr> 0 0 0 0"

definition sample_target :: runtime_target where
  "sample_target = \<lparr>rt_runtime = ''host'', rt_kind = ''session'', rt_id = ''s''\<rparr>"

definition sample_waking :: trigger_definition where
  "sample_waking = sample_trigger\<lparr>td_target := Some sample_target\<rparr>"

abbreviation sample_pending :: trigger_match where
  "sample_pending \<equiv> sample_buffer\<lparr>tm_status := Matched\<rparr>"

definition sample_start :: world where
  "sample_start = empty_world\<lparr>w_triggers := snd (putTrigger sample_waking empty_table),
     w_matches := put_match sample_pending empty_table\<rparr>"

lemma sample_coordinator_fields: "co_meanwhile sample_coordinator = (\<lambda>n w. w)" "co_workerId sample_coordinator = ''w''"
  "co_leaseMs sample_coordinator = 30000" "co_maxAttempts sample_coordinator = 5"
  "co_packetBuilder sample_coordinator = buildGenericRuntimeWakePacket"
  "co_deliverer sample_coordinator = Some (\<lambda>n p. Inr (Some (JObj [(''runtimeReceiptId'', JStr ''r'')])))"
  by (simp_all add: sample_coordinator_def constructCoordinator_def at_least_or_def)

lemma sample_answers: "answers sample_coordinator"
  by (simp add: answers_def sample_coordinator_fields receipt_id_def opt_all_def audit_id_def)

lemma sample_host_alone: "alone sample_coordinator" "fair sample_coordinator"
  by (auto simp: alone_def fair_def spends_unsent sample_coordinator_fields buildGenericRuntimeWakePacket_def claim_lost_def
    plain_error_def split: option.splits)

lemma sample_start_facts: "w_deliveries sample_start = empty_table" "w_calls sample_start = []" "w_ticks sample_start = 0"
  "w_wakes sample_start = []" "w_matches sample_start = put_match sample_pending empty_table"
  by (simp_all add: sample_start_def empty_world_def)

lemma sample_get: "getTrigger (w_triggers sample_start) i v = (if trigger_key i v = trigger_key ''t'' ''1'' then Some sample_waking else None)"
  by (simp add: sample_start_def putTrigger_def getTrigger_def sample_waking_def sample_trigger_def key_of_trigger_def
    empty_world_def tab_get_def empty_table_def)

lemma sample_sha_hex: "hex64 (sample_sha s)"
  by (auto simp: hex64_def sample_sha_def is_digit_def list_all_iff)

lemma sample_ready: "ready 4 sample_start" "runtime_ok sample_runtime"
proof -
  have "audit_id (''trigger:'' @ td_triggerId d) \<and> td_triggerId d \<noteq> []" if "getTrigger (w_triggers sample_start) i v = Some d" for i v d
    using that by (auto simp: sample_get sample_waking_def sample_trigger_def audit_id_def split: if_splits)
  then show "ready 4 sample_start"
    using empty_deadlines by (simp add: ready_def) (simp add: sample_start_def empty_world_def MAX_SAFE_INTEGER_def)
  show "runtime_ok sample_runtime" using sample_clock sample_sha_hex by (simp add: runtime_ok_def sample_runtime_def)
qed

lemma sample_no_delivery: "getWakeDelivery (w_deliveries sample_start) i = None" "keyed (w_deliveries sample_start)"
  "calls sample_start i = 0"
  by (simp_all add: sample_start_facts getWakeDelivery_def keyed_def tab_get_def empty_table_def calls_def)

lemma sample_conditions:
  "runtime_ok (en_ru sample_engine)" "pending_match sample_pending sample_start" "target_ok sample_target"
  "getTrigger (w_triggers sample_start) (tm_triggerId sample_pending) (tm_triggerVersion sample_pending) = Some sample_waking"
  "td_target sample_waking = Some sample_target" "audit_id (''trigger:'' @ tm_triggerId sample_pending)"
  "trim_ws (tm_triggerVersion sample_pending) \<noteq> []"
  "open_wake sample_coordinator (ru_clock (en_ru sample_engine) (w_ticks sample_start + 1))
     (wake_id_of (en_ru sample_engine) sample_pending sample_target) sample_start"
proof -
  have get: "getTriggerMatch (w_matches sample_start) ''m'' = Some sample_pending"
    by (simp add: sample_start_facts get_put_match) (simp add: sample_buffer_def)
  have "trigger_matches.durable (w_matches sample_start)"
    unfolding sample_start_facts put_match_def empty_table_def
    by (rule trigger_matches.durable_put [OF trigger_matches.durable_empty]) simp_all
  then show "pending_match sample_pending sample_start"
    using get by (simp add: pending_match_def match_ids_ok_def match_trace_def audit_id_def sample_buffer_def)
  show "open_wake sample_coordinator (ru_clock (en_ru sample_engine) (w_ticks sample_start + 1))
     (wake_id_of (en_ru sample_engine) sample_pending sample_target) sample_start"
    by (simp add: open_wake_def sample_no_delivery latest_wake_def latestWake_def sample_start_facts(3,4) is_wake_def
      sample_coordinator_fields lease_span_def sample_engine_def sample_runtime_def max_time_def)
qed (simp_all add: sample_ready sample_engine_def target_ok_def sample_target_def audit_id_def sample_get sample_waking_def
  sample_buffer_def trim_ws_def)

text \<open>The call of this coordinator returns, and the wake is delivered.\<close>

lemma sample_delivered:
  obtains r w' where "deliverMatched sample_engine sample_coordinator sample_pending sample_start = (Inr r, w')"
    and "dy_status r = Wake_Is_Delivered"
  using open_wake_works [OF sample_conditions(1,2) sample_answers sample_ready(1) sample_conditions(4,5,3,6,7,8)] by blast

lemma answering_host_delivers_witness:
  "\<exists>r w'. deliverMatched sample_engine sample_coordinator sample_pending sample_start = (Inr r, w') \<and>
     dy_status r = Wake_Is_Delivered"
  using answering_host_delivers [OF sample_conditions(1,2) sample_answers sample_ready(1) sample_conditions(4,5,3,6,7,8)]
  by blast

lemma wake_delivered_fires_witness:
  "\<exists>f. getTriggerMatch (w_matches (snd (deliverMatched sample_engine sample_coordinator sample_pending sample_start))) ''m'' =
     Some f \<and> tm_status f = Fired"
proof -
  obtain r w' where run: "deliverMatched sample_engine sample_coordinator sample_pending sample_start = (Inr r, w')"
    "dy_status r = Wake_Is_Delivered" by (rule sample_delivered)
  have "\<forall>n. sound.keeps (\<lambda>w. (Inr (), co_meanwhile sample_coordinator n w))"
    by (simp add: sample_coordinator_fields sound.keeps_still)
  moreover have "trigger_matches.durable (w_matches sample_start)" using sample_conditions(2) by (simp add: pending_match_def)
  ultimately show ?thesis using wake_delivered_fires [OF _ _ run] run(1) by (simp add: sample_buffer_def)
qed


end
