(* ===== verification/Control_Laws.thy ===== *)
theory Control_Laws
  imports System_Frames
begin

text \<open>
  What the control plane promises: requests of principals that may not make them change nothing,
  an update leaves one version of the trigger in use, a deletion retires the matches of the
  version, and an installed trigger only names sources that its owner may use.
\<close>

subsection \<open>Refused requests\<close>

text \<open>Only the clock was read, and the lease of the trigger taken and given back.\<close>

definition untouched :: "world \<Rightarrow> world \<Rightarrow> bool" where
  "untouched w w' \<longleftrightarrow> (\<exists>n l. w' = w\<lparr>w_ticks := n, w_leases := l\<rparr>)"

lemma untouched_refl: "untouched w w"
  unfolding untouched_def by (rule exI [of _ "w_ticks w"], rule exI [of _ "w_leases w"]) simp

lemma untouched_trans: "untouched u v \<Longrightarrow> untouched v w \<Longrightarrow> untouched u w"
  by (auto simp: untouched_def) blast

lemma untouched_tables:
  "untouched w w' \<Longrightarrow> w_triggers w' = w_triggers w \<and> w_states w' = w_states w \<and> w_matches w' = w_matches w \<and>
     w_deadlines w' = w_deadlines w \<and> w_audit w' = w_audit w \<and> w_contracts w' = w_contracts w \<and>
     w_sources w' = w_sources w \<and> w_calls w' = w_calls w"
  by (auto simp: untouched_def)

lemma claim_untouched: "claim_control cp key w = (r, w') \<Longrightarrow> untouched w w'"
  unfolding untouched_def
  by (rule exI [of _ "w_ticks w'"], rule exI [of _ "w_leases w'"])
    (auto simp: claim_control_def seq_def read_now_def split: prod.splits)

lemma release_untouched: "release_control cp key w = (r, w') \<Longrightarrow> untouched w w'"
  unfolding untouched_def
  by (rule exI [of _ "w_ticks w'"], rule exI [of _ "w_leases w'"])
    (auto simp: release_control_def seq_def read_now_def split: prod.splits)

text \<open>The lease around an operation that refuses.\<close>

lemma lease_refuses:
  assumes "\<And>v. untouched w v \<Longrightarrow> m v = (Inl e, v)"
  shows "\<exists>e' w'. withTriggerMutationLease cp i v m w = (Inl e', w') \<and> untouched w w'"
proof (cases "en_distributed (cp_engine cp)")
  case False
  then show ?thesis using assms [OF untouched_refl] untouched_refl by (simp add: withTriggerMutationLease_def)
next
  case True
  obtain r u where claim: "claim_control cp (''control:'' @ i @ '':'' @ v) w = (r, u)" by fastforce
  obtain s x where release: "release_control cp (''control:'' @ i @ '':'' @ v) u = (s, x)" by fastforce
  have u: "untouched w u" by (rule claim_untouched [OF claim])
  have "untouched w x" using untouched_trans [OF u release_untouched [OF release]] .
  then show ?thesis
    using True claim release u assms [OF u]
    by (auto simp: withTriggerMutationLease_def Let_def seq_def finally_do_def split: sum.split option.split)
qed

text \<open>The request names no actor or owner, comes from an agent without confirmation, or is not the owner's.\<close>

definition unauthorised :: "trigger_request \<Rightarrow> string \<Rightarrow> string \<Rightarrow> world \<Rightarrow> bool" where
  "unauthorised q i v w \<longleftrightarrow> (case identities q ''trigger mutations'' of
     Inl e \<Rightarrow> True | Inr (actor, owner) \<Rightarrow> \<not> samePrincipal (ts_owner (state_of i v w)) owner)"

lemma unauthorised_cases:
  assumes "unauthorised q i v w"
  obtains (unknown) e where "identities q ''trigger mutations'' = Inl e"
  | (foreign) actor owner where "identities q ''trigger mutations'' = Inr (actor, owner)"
      and "\<not> samePrincipal (ts_owner (state_of i v w)) owner"
  using assms by (auto simp: unauthorised_def split: sum.splits prod.splits)

lemma untouched_state: "untouched w u \<Longrightarrow> state_of i v u = state_of i v w"
  and untouched_find: "untouched w u \<Longrightarrow> find_trigger i v u = find_trigger i v w"
  by (auto simp: state_of_def find_trigger_def dest: untouched_tables)

lemma owned_refused:
  assumes "\<not> samePrincipal (ts_owner (state_of i v w)) owner"
  obtains e where "\<And>u. untouched w u \<Longrightarrow> check_owned i v owner u = Inl e"
  using assms by (cases "find_trigger i v w") (auto simp: check_owned_def Let_def untouched_state untouched_find)

lemma update_refused:
  assumes "\<not> samePrincipal (ts_owner (state_of i v w)) owner"
  obtains e where "\<And>u. untouched w u \<Longrightarrow> check_update i v owner d u = Inl e"
  using assms by (cases "find_trigger i v w") (auto simp: check_update_def Let_def untouched_state untouched_find)


subsection \<open>One version in use\<close>

lemma release_succeeds: "\<exists>b w'. release_control cp key w = (Inr b, w')"
  by (simp add: release_control_def seq_def read_now_def split: prod.split)

text \<open>What a successful operation under the lease did.\<close>

lemma lease_run_cases:
  assumes "withTriggerMutationLease cp i v m w = (Inr x, w')"
  obtains u u' where "untouched w u" and "m u = (Inr x, u')" and "untouched u' w'"
proof (cases "en_distributed (cp_engine cp)")
  case False
  then show ?thesis using that [of w w'] assms by (simp add: withTriggerMutationLease_def untouched_refl)
next
  case True
  let ?key = "''control:'' @ i @ '':'' @ v"
  obtain l u where claim: "claim_control cp ?key w = (Inr (Some l), u)" and run: "finally_do m (release_control cp ?key) u = (Inr x, w')"
    using assms True by (auto simp: withTriggerMutationLease_def Let_def seq_eq_Inr_iff split: option.splits)
  obtain u' where "m u = (Inr x, u')" and "\<exists>b. release_control cp ?key u' = (Inr b, w')"
    using run release_succeeds [of cp ?key] by (auto simp: finally_do_def split: prod.splits sum.splits)
  then show ?thesis using that [of u u'] claim_untouched [OF claim] release_untouched by blast
qed

text \<open>The tables of triggers and of states.\<close>

definition steady :: "world \<Rightarrow> world \<Rightarrow> bool" where
  "steady w w' \<longleftrightarrow> w_triggers w' = w_triggers w \<and> w_states w' = w_states w"

interpretation steady: contract_frame steady
  by unfold_locales (simp_all add: steady_def)

interpretation steady: table_frame steady "\<lambda>_. True"
  by unfold_locales (simp_all add: steady_def steady.keeps_registration)

lemma untouched_steady: "untouched w w' \<Longrightarrow> steady w w'"
  by (auto simp: untouched_def steady_def)

lemma state_after_set:
  "getTriggerState (snd (setTriggerState i v st a md t tab)) j u =
     (if trigger_key j u = trigger_key i v then fst (setTriggerState i v st a md t tab) else getTriggerState tab j u)"
  by (simp add: getTriggerState_def setTriggerState_def Let_def)

lemma status_set [simp]: "ts_status (fst (setTriggerState i v st a md t tab)) = st"
  by (simp add: setTriggerState_def Let_def)

lemma set_state_result:
  "set_state ru i v st md w = (Inr (), w\<lparr>w_ticks := w_ticks w + 1,
     w_states := snd (setTriggerState i v st (Some system_actor) md (ts_text (ru_clock ru (w_ticks w))) (w_states w))\<rparr>)"
  by (simp add: set_state_def seq_def read_now_def on_states_def split_beta)

lemma put_state_result:
  "put_state ru i v st actor md w =
     (Inr (fst (setTriggerState i v st (Some (principal_json actor)) md (ts_text (ru_clock ru (w_ticks w))) (w_states w))),
      w\<lparr>w_ticks := w_ticks w + 1,
     w_states := snd (setTriggerState i v st (Some (principal_json actor)) md (ts_text (ru_clock ru (w_ticks w))) (w_states w))\<rparr>)"
  by (simp add: put_state_def seq_def read_now_def on_states_def split_beta)

lemma state_of_put:
  assumes "put_state ru i v st actor md w = (Inr s, w')"
  shows "w_triggers w' = w_triggers w" and "s = state_of i v w'" and "ts_status s = st"
    and "\<And>p. md_owner md = Some p \<Longrightarrow> ts_owner s = Some p" and "\<And>u. u \<noteq> v \<Longrightarrow> state_of i u w' = state_of i u w"
proof -
  let ?set = "setTriggerState i v st (Some (principal_json actor)) md (ts_text (ru_clock ru (w_ticks w))) (w_states w)"
  have s: "s = fst ?set" and w': "w' = w\<lparr>w_ticks := w_ticks w + 1, w_states := snd ?set\<rparr>"
    using assms by (simp_all add: put_state_result)
  show "w_triggers w' = w_triggers w" and "s = state_of i v w'" and "ts_status s = st"
    using s by (simp_all add: w' state_of_def state_after_set)
  show "ts_owner s = Some p" if "md_owner md = Some p" for p using that by (simp add: s setTriggerState_def Let_def)
  show "state_of i u w' = state_of i u w" if "u \<noteq> v" for u
    using that by (simp add: w' state_of_def state_after_set trigger_key_def)
qed

lemma register_result:
  "register en d w = (Inr x, w') \<Longrightarrow> x = d \<and> w' = w\<lparr>w_triggers := tab_put (key_of_trigger d) d d (w_triggers w)\<rparr>"
  by (auto simp: register_def seq_def readW_def putTrigger_def split: option.splits sum.splits if_splits)

text \<open>An installed definition is in the table and active, and belongs to the owner of the request.\<close>

lemma install_result:
  assumes "install cp d actor owner ids w = (Inr s, w')"
  shows "w_triggers w' = tab_put (key_of_trigger d) d d (w_triggers w)"
    and "s = state_of (td_triggerId d) (td_version d) w'" and "ts_status s = Active"
    and "ts_owner s = Some (principal_json owner)"
    and "\<And>u. u \<noteq> td_version d \<Longrightarrow> state_of (td_triggerId d) u w' = state_of (td_triggerId d) u w"
proof -
  obtain w1 w2 w3 where run: "assertDerivedOutputContract (cp_ru cp) d w = (Inr (), w1)"
    "register (cp_engine cp) d w1 = (Inr d, w2)"
    "put_state (cp_ru cp) (td_triggerId d) (td_version d) Active actor (fresh_metadata owner ids) w2 = (Inr s, w3)"
    "registerDerivedOutputSource (cp_ru cp) d w3 = (Inr (), w')"
    using assms by (auto simp: install_def seq_eq_Inr_iff dest: register_result)
  have kept: "steady w w1" "steady w3 w'"
    using steady.keepsD [OF steady.keeps_output_contract run(1)] steady.keepsD [OF steady.keeps_output_source run(4)] by simp_all
  then show "w_triggers w' = tab_put (key_of_trigger d) d d (w_triggers w)" and "s = state_of (td_triggerId d) (td_version d) w'"
    and "ts_status s = Active" and "ts_owner s = Some (principal_json owner)"
    and "\<And>u. u \<noteq> td_version d \<Longrightarrow> state_of (td_triggerId d) u w' = state_of (td_triggerId d) u w"
    using register_result [OF run(2)] state_of_put [OF run(3)]
    by (auto simp: steady_def fresh_metadata_def state_of_def)
qed

lemma check_sources_given: "assertSourcesAvailable h t d ids = Inr d' \<Longrightarrow> td_triggerId d' = td_triggerId d \<and> td_version d' = td_version d"
  by (auto simp: assertSourcesAvailable_def check_sources_def Let_def split: if_splits sum.splits option.splits)

lemma update_checked:
  assumes "check_update i v owner d w = Inr x"
  shows "td_triggerId d = i" and "td_version d \<noteq> v" and "find_trigger i (td_version d) w = None" and "competing i v w = None"
    and "samePrincipal (ts_owner (state_of i v w)) owner"
  using assms by (auto simp: check_update_def Let_def split: if_splits option.splits)

lemma not_competing:
  assumes "competing i v w = None" and "d \<in> set (listTriggers (w_triggers w))" and "td_triggerId d = i"
    and "td_version d \<noteq> v"
  shows "\<not> current_status (ts_status (state_of i (td_version d) w))"
  using assms by (auto simp: competing_def find_None_iff)


subsection \<open>The matches of a deleted version\<close>

lemma deadlines_only_matches: "deadlines_only w v \<Longrightarrow> w_matches v = w_matches w"
  by (cases w; cases v) (auto simp: deadlines_only_def)

lemma cancel_match_run:
  assumes "clock_runs ru" and "deadlines_ok w" and "m \<noteq> []"
  obtains w' where "cancelDeadlinesForMatch ru m w = (Inr (), w')" and "deadlines_ok w'" and "deadlines_only w w'"
    and "pending_of m w' = []" and "\<And>k. k \<noteq> [] \<Longrightarrow> set (pending_of k w') \<subseteq> set (pending_of k w)"
proof -
  let ?ks = "map dd_deadlineId (pending_of m w)"
  obtain w' where w': "each (set_deadline ru DCancelled) ?ks w = (Inr (), w')" "deadlines_ok w'" "deadlines_only w w'"
    "\<And>j. j \<notin> set ?ks \<Longrightarrow> deadline_at w' j = deadline_at w j"
    "\<And>j e. j \<in> set ?ks \<Longrightarrow> deadline_at w' j = Some e \<Longrightarrow> dd_status e = DCancelled"
    using cancel_all [OF assms(1,2), of ?ks] by blast
  have kept: "set (pending_of k w') \<subseteq> set (pending_of k w) - {e. dd_deadlineId e \<in> set ?ks}" if "k \<noteq> []" for k
  proof
    fix e
    assume e: "e \<in> set (pending_of k w')"
    then have "dd_deadlineId e \<notin> set ?ks" using w'(5) pending_iff [OF w'(2) that] by fastforce
    then show "e \<in> set (pending_of k w) - {e. dd_deadlineId e \<in> set ?ks}"
      using e w'(4) pending_iff [OF w'(2) that] pending_iff [OF assms(2) that] by simp
  qed
  have "cancelDeadlinesForMatch ru m w = (Inr (), w')" using w'(1) by (simp add: cancelDeadlinesForMatch_def readW_def seq_def)
  moreover have "e \<notin> set (pending_of m w')" for e using kept [OF assms(3)] by auto
  then have "pending_of m w' = []" by (metis last_in_set)
  ultimately show ?thesis using that w'(2,3) kept by blast
qed

text \<open>After the loop the retired matches are expired and have no pending deadline, and no other match changed.\<close>

definition retired_as :: "timestamp \<Rightarrow> trigger_match list \<Rightarrow> world \<Rightarrow> world \<Rightarrow> bool" where
  "retired_as now rs w w' \<longleftrightarrow>
     (\<forall>r \<in> set rs. pending_of (tm_matchId r) w' = [] \<and>
        (\<exists>r' \<in> set rs. tm_matchId r' = tm_matchId r \<and>
          getTriggerMatch (w_matches w') (tm_matchId r) = Some (r'\<lparr>tm_status := Expired, tm_updatedAt := now\<rparr>))) \<and>
     (\<forall>k. k \<notin> tm_matchId ` set rs \<longrightarrow> getTriggerMatch (w_matches w') k = getTriggerMatch (w_matches w) k) \<and>
     (\<forall>k. k \<noteq> [] \<longrightarrow> set (pending_of k w') \<subseteq> set (pending_of k w))"

lemma retire_all:
  assumes "clock_runs ru"
  shows "deadlines_ok w \<Longrightarrow> \<forall>r \<in> set rs. tm_matchId r \<noteq> [] \<Longrightarrow>
    \<exists>w'. each (retire_one ru now) rs w = (Inr (), w') \<and> deadlines_ok w' \<and> retired_as now rs w w'"
proof (induction rs arbitrary: w)
  case (Cons r rs)
  let ?r = "r\<lparr>tm_status := Expired, tm_updatedAt := now\<rparr>"
  let ?w = "w\<lparr>w_matches := put_match ?r (w_matches w)\<rparr>"
  have pend: "pending_of k ?w = pending_of k w" for k by (simp add: pending_of_def)
  obtain v where v: "cancelDeadlinesForMatch ru (tm_matchId r) ?w = (Inr (), v)" "deadlines_ok v" "deadlines_only ?w v"
      "pending_of (tm_matchId r) v = []" "\<And>k. k \<noteq> [] \<Longrightarrow> set (pending_of k v) \<subseteq> set (pending_of k w)"
    using cancel_match_run [OF assms, of ?w "tm_matchId r"] Cons.prems pend by auto
  obtain w' where w': "each (retire_one ru now) rs v = (Inr (), w')" "deadlines_ok w'" "retired_as now rs v w'"
    using Cons.IH [OF v(2)] Cons.prems(2) by auto
  have "each (retire_one ru now) (r # rs) w = (Inr (), w')"
    using v(1) w'(1) by (simp add: retire_one_def appendTriggerMatch_def seq_def)
  moreover have match: "getTriggerMatch (w_matches v) k = (if k = tm_matchId r then Some ?r else getTriggerMatch (w_matches w) k)" for k
    using deadlines_only_matches [OF v(3)] by (simp add: getTriggerMatch_def put_match_def)
  moreover have "pending_of (tm_matchId r) w' = []"
    using w'(3) v(4) Cons.prems(2) unfolding retired_as_def by fastforce
  moreover have "set (pending_of k w') \<subseteq> set (pending_of k w)" if "k \<noteq> []" for k
    using w'(3) v(5) [OF that] that unfolding retired_as_def by blast
  moreover have "\<exists>r' \<in> set (r # rs). tm_matchId r' = tm_matchId r \<and>
      getTriggerMatch (w_matches w') (tm_matchId r) = Some (r'\<lparr>tm_status := Expired, tm_updatedAt := now\<rparr>)"
    using w'(3) match by (cases "tm_matchId r \<in> tm_matchId ` set rs") (force simp: retired_as_def)+
  ultimately show ?case using w'(2,3) unfolding retired_as_def by auto
qed (simp add: retired_as_def)

lemma audit_only:
  assumes "audit_trigger ru ak i ds w = (r, w')"
  shows "w_matches w' = w_matches w \<and> w_deadlines w' = w_deadlines w \<and> w_states w' = w_states w"
  using assms by (auto simp: audit_trigger_def audit_control_def appendAudit_def seq_def read_now_def readW_def
    split: prod.splits sum.splits)

text \<open>The matches that a deletion of a version retires.\<close>

definition open_match :: "string \<Rightarrow> string \<Rightarrow> trigger_match \<Rightarrow> bool" where
  "open_match i v r \<longleftrightarrow> tm_triggerId r = i \<and> retirable v r"

lemma retire_matches_run:
  assumes "clock_runs ru" and "deadlines_ok w" and "trigger_matches.durable (w_matches w)" and "i \<noteq> []"
    and "getTriggerMatch (w_matches w) [] = None" and "retireMatches ru i v w = (Inr (), w')"
  obtains now where "\<And>k r. getTriggerMatch (w_matches w) k = Some r \<Longrightarrow> open_match i v r \<Longrightarrow>
      pending_of k w' = [] \<and> getTriggerMatch (w_matches w') k = Some (r\<lparr>tm_status := Expired, tm_updatedAt := now\<rparr>)"
    and "\<And>k. \<forall>r. getTriggerMatch (w_matches w) k = Some r \<longrightarrow> \<not> open_match i v r \<Longrightarrow>
      getTriggerMatch (w_matches w') k = getTriggerMatch (w_matches w) k"
proof -
  let ?rs = "filter (retirable v) (listTriggerMatches (w_matches w) (Some i))" and ?now = "ru_clock ru (w_ticks w)"
    and ?w = "w\<lparr>w_ticks := w_ticks w + 1\<rparr>"
  have key: "tm_matchId r = k" if "getTriggerMatch (w_matches w) k = Some r" for r k
    using that trigger_matches.durable_get [OF assms(3)] by (auto simp: getTriggerMatch_def)
  have listed: "r \<in> set ?rs \<longleftrightarrow> getTriggerMatch (w_matches w) (tm_matchId r) = Some r \<and> open_match i v r" for r
    using tab_values_get [OF trigger_matches.durable_distinct [OF assms(3)], of r] key assms(4)
    by (auto simp: listTriggerMatches_def getTriggerMatch_def open_match_def truthy_str_def)
  have "\<forall>r \<in> set ?rs. tm_matchId r \<noteq> []" using listed assms(5) by fastforce
  then obtain u where u: "each (retire_one ru ?now) ?rs ?w = (Inr (), u)" "retired_as ?now ?rs ?w u"
    using retire_all [OF assms(1), of ?w ?rs ?now] assms(2) by auto
  then have u': "u = w'" using assms(6) by (simp add: retireMatches_def seq_def read_now_def readW_def)
  show ?thesis
  proof (rule that)
    fix k r
    assume r: "getTriggerMatch (w_matches w) k = Some r" "open_match i v r"
    then have "r \<in> set ?rs" "tm_matchId r = k" using key listed by auto
    moreover have "r' = r" if "r' \<in> set ?rs" "tm_matchId r' = k" for r' using that listed r(1) by auto
    ultimately show "pending_of k w' = [] \<and> getTriggerMatch (w_matches w') k = Some (r\<lparr>tm_status := Expired, tm_updatedAt := ?now\<rparr>)"
      using u(2) unfolding retired_as_def u' by metis
  next
    fix k
    assume "\<forall>r. getTriggerMatch (w_matches w) k = Some r \<longrightarrow> \<not> open_match i v r"
    then have "k \<notin> tm_matchId ` set ?rs" using listed by auto
    then show "getTriggerMatch (w_matches w') k = getTriggerMatch (w_matches w) k"
      using u(2) unfolding retired_as_def u' by simp
  qed
qed

text \<open>
  C7: a successful deletion marks the version as deleted and expires each of its partial and
  matched matches, whose pending deadlines are cancelled; every other match is left as it was, so
  that fired and emitted matches of the version keep their outcome.
\<close>

theorem delete_retires:
  assumes "clock_runs (cp_ru cp)" and "deadlines_ok w" and "trigger_matches.durable (w_matches w)" and "i \<noteq> []"
    and "getTriggerMatch (w_matches w) [] = None" and "deleteTrigger cp i v q w = (Inr reply, w')"
  shows "ts_status (state_of i v w') = Deleted \<and>
    (\<exists>now. \<forall>k r. getTriggerMatch (w_matches w) k = Some r \<longrightarrow>
       getTriggerMatch (w_matches w') k = Some (if open_match i v r then r\<lparr>tm_status := Expired, tm_updatedAt := now\<rparr> else r) \<and>
       (open_match i v r \<longrightarrow> pending_of k w' = []))"
proof -
  obtain u u' where outer: "untouched w u" "untouched u' w'" and "deleteTriggerUnlocked cp i v q u = (Inr reply, u')"
    using assms(6) unfolding deleteTrigger_def by (rule lease_run_cases)
  then obtain actor md w1 w2 s ds where run: "retireMatches (cp_ru cp) i v u = (Inr (), w1)"
    "put_state (cp_ru cp) i v Deleted actor md w1 = (Inr s, w2)" "audit_trigger (cp_ru cp) ''trigger.deleted'' i ds w2 = (Inr (), u')"
    by (auto simp: deleteTriggerUnlocked_def Let_def seq_eq_Inr_iff readW_def)
  note same = untouched_tables [OF outer(1)] untouched_tables [OF outer(2)] audit_only [OF run(3)]
  obtain now where
    gone: "\<And>k r. getTriggerMatch (w_matches u) k = Some r \<Longrightarrow> open_match i v r \<Longrightarrow>
      pending_of k w1 = [] \<and> getTriggerMatch (w_matches w1) k = Some (r\<lparr>tm_status := Expired, tm_updatedAt := now\<rparr>)"
    and left: "\<And>k. \<forall>r. getTriggerMatch (w_matches u) k = Some r \<longrightarrow> \<not> open_match i v r \<Longrightarrow>
      getTriggerMatch (w_matches w1) k = getTriggerMatch (w_matches u) k"
    using retire_matches_run [OF assms(1) _ _ assms(4) _ run(1)] assms(2,3,5) same by auto
  have tables: "w_matches w' = w_matches w1" "w_deadlines w' = w_deadlines w1" "w_states w' = w_states w2"
    using run(2) same by (auto simp: put_state_result)
  then have pending: "pending_of k w' = pending_of k w1" for k by (simp add: pending_of_def)
  have "getTriggerMatch (w_matches w') k = Some (if open_match i v r then r\<lparr>tm_status := Expired, tm_updatedAt := now\<rparr> else r) \<and>
      (open_match i v r \<longrightarrow> pending_of k w' = [])" if "getTriggerMatch (w_matches w) k = Some r" for k r
    using gone [of k r] left [of k] that same tables pending by auto
  moreover have "ts_status (state_of i v w') = Deleted" using state_of_put(2,3) [OF run(2)] tables by (simp add: state_of_def)
  ultimately show ?thesis by blast
qed

subsection \<open>The sources of an installed trigger\<close>

text \<open>The source takes the arguments of the clause and advertises the paths of its predicates.\<close>

definition serves :: "host \<Rightarrow> event_source \<Rightarrow> trigger_clause \<Rightarrow> bool" where
  "serves h s c \<longleftrightarrow> es_eventName s = clause_event c \<and> clause_serverId c = Some (es_serverId s) \<and>
     (has_keys (es_inputSchema s) \<longrightarrow> assertJsonSchemaValue h (the (es_inputSchema s)) (JObj (clause_arguments c)) ''$'' = None) \<and>
     (has_keys (es_payloadSchema s) \<longrightarrow>
        list_all (\<lambda>p. truthy_node (getSchemaNode (es_payloadSchema s) (pred_path p))) (clause_where c))"

lemma first_error_all: "first_error f xs = None \<longleftrightarrow> list_all (\<lambda>x. f x = None) xs"
  by (induction xs) (auto split: option.splits)

lemma resolved_source:
  assumes "resolveSource sources c = Inr (s, c')"
  shows "s \<in> set sources" and "es_eventName s = clause_event c'" and "clause_serverId c' = Some (es_serverId s)"
    and "clause_id c' = clause_id c" and "clause_arguments c' = clause_arguments c" and "clause_where c' = clause_where c"
proof -
  let ?named = "\<lambda>s. es_eventName s = clause_event c \<and> es_serverId s = the (clause_serverId c)"
  let ?exact = "\<lambda>v. filter (\<lambda>s. source_version s = v) (filter ?named sources)"
  have version: "?exact v \<noteq> []" if "source_versions (filter ?named sources) = [v]" for v
  proof -
    have "v \<in> set (source_versions (filter ?named sources))" using that by simp
    then show ?thesis by (auto simp: source_versions_def filter_empty_conv)
  qed
  have hd: "s \<in> set sources \<and> ?named s" if "filter P (filter ?named sources) \<noteq> []" "s = hd (filter P (filter ?named sources))" for P
    using hd_in_set [OF that(1)] that(2) by auto
  have plain: "s \<in> set sources \<and> ?named s" if "filter ?named sources \<noteq> []" "s = hd (filter ?named sources)"
    using hd_in_set [OF that(1)] that(2) by auto
  have one: "xs = [hd xs]" if "length xs = 1" for xs :: "string list" using that by (cases xs) auto
  have "s \<in> set sources \<and> ?named s" and c': "c' = c \<or> (\<exists>v. c' = c\<lparr>clause_contractVersion := v\<rparr>)"
    and server: "truthy_str (clause_serverId c)"
    using assms hd plain version [OF one]
    by (auto simp: resolveSource_def Let_def simp del: filter_filter split: if_splits)
  then show "s \<in> set sources" and "es_eventName s = clause_event c'" and "clause_serverId c' = Some (es_serverId s)"
    and "clause_id c' = clause_id c" and "clause_arguments c' = clause_arguments c" and "clause_where c' = clause_where c"
    by (auto simp: truthy_str_def split: option.splits)
qed

lemma check_clauses_served:
  "check_clauses h sources cs = Inr cs' \<Longrightarrow> list_all (\<lambda>c. \<exists>s \<in> set sources. serves h s c) cs' \<and> map clause_id cs' = map clause_id cs"
proof (induction cs arbitrary: cs')
  case (Cons c cs)
  then obtain s c' rest where step: "resolveSource sources c = Inr (s, c')" "check_clauses h sources cs = Inr rest" "cs' = c' # rest"
    and fine: "or_else (assertSubscriptionArguments h s (clause_arguments c) (''Trigger clause '' @ clause_id c))
      (first_error (\<lambda>p. assertAdvertisedPath (Some s) (pred_path p) (''Predicate '' @ clause_id c)) (clause_where c)) = None"
    by (auto split: sum.splits prod.splits option.splits)
  note source = resolved_source [OF step(1)]
  have "serves h s c'"
    using fine source(2-6) by (auto simp: serves_def or_else_None first_error_all assertSubscriptionArguments_def
      assertAdvertisedPath_def fails_def list_all_iff split: if_splits)
  then show ?case using Cons.IH [OF step(2)] step(3) source(1,4) by auto
qed simp

text \<open>
  C6: a trigger that was created is new, active and owned by the owner of the request, and each of
  its clauses has a source that serves it: the source is enabled, belongs to a connection that the
  request names, takes the arguments of the clause and advertises every path that its predicates read.
\<close>

theorem created_trigger_served:
  assumes "createTrigger cp given q w = (Inr reply, w')"
  shows "let d = ry_definition reply in
    find_trigger (td_triggerId d) (td_version d) w = None \<and>
    getTrigger (w_triggers w') (td_triggerId d) (td_version d) = Some d \<and>
    ts_status (state_of (td_triggerId d) (td_version d) w') = Active \<and>
    (\<exists>owner. actorIdentity (rq_owner q) = Inr owner \<and>
       ts_owner (state_of (td_triggerId d) (td_version d) w') = Some (principal_json owner)) \<and>
    list_all (\<lambda>c. \<exists>s \<in> set (tab_values (w_sources w)). serves (ru_host (cp_ru cp)) s c \<and> es_enabled s \<and>
      es_connectionId s \<noteq> [] \<and> es_connectionId s \<in> set (the (rq_connectionIds q))) (td_clauses d)"
proof -
  let ?ids = "connection_ids (case rq_connectionIds q of Some ids \<Rightarrow> ids | None \<Rightarrow> [])"
  obtain actor owner d s w1 ds where who: "identities q ''durable triggers'' = Inr (actor, owner)" and ids: "?ids \<noteq> []"
    and available: "assertSourcesAvailable (ru_host (cp_ru cp)) (w_sources w) given ?ids = Inr d"
    and fresh: "find_trigger (td_triggerId d) (td_version d) w = None" and new: "install cp d actor owner ?ids w = (Inr s, w1)"
    and audit: "audit_trigger (cp_ru cp) ''trigger.created'' (td_triggerId d) ds w1 = (Inr (), w')" and reply: "ry_definition reply = d"
    using assms by (auto simp: createTrigger_def Let_def seq_eq_Inr_iff readW_def split: if_splits)
  have kept: "steady w1 w'" using steady.keepsD [OF steady.keeps_audit_control(2) audit] .
  have uniq: "set (connection_ids ?ids) \<subseteq> set (the (rq_connectionIds q)) - {[]}" and some: "connection_ids ?ids \<noteq> []"
    using ids available by (auto simp: connection_ids_def assertSourcesAvailable_def split: option.splits)
  obtain cs where cs: "check_clauses (ru_host (cp_ru cp)) (listEventSources (w_sources w) (connection_ids ?ids) True)
      (td_clauses given) = Inr cs"
    and d: "td_clauses d = cs"
    using available some
    by (auto simp: assertSourcesAvailable_def check_sources_def Let_def simp del: split_paired_Ex split: sum.splits option.splits)
  have "list_all (\<lambda>c. \<exists>s \<in> set (tab_values (w_sources w)). serves (ru_host (cp_ru cp)) s c \<and> es_enabled s \<and>
      es_connectionId s \<noteq> [] \<and> es_connectionId s \<in> set (the (rq_connectionIds q))) cs"
    using check_clauses_served [OF cs] uniq some by (fastforce simp: listEventSources_def list_all_iff)
  moreover have "actorIdentity (rq_owner q) = Inr owner" using who by (auto simp: identities_def split: sum.splits if_splits)
  ultimately show ?thesis
    using install_result(1-4) [OF new] kept fresh reply d
    by (simp add: steady_def state_of_def getTrigger_def key_of_trigger_def)
qed

end
