(* ===== verification/System_Laws.thy ===== *)
theory System_Laws
  imports System_Run Wake_Progress Control_Laws
begin

text \<open>
  What the whole service promises: no host call beyond the claims of its wake, no return of a
  version that was retired, no change of a derived event or of the contract it was made under.
\<close>

subsection \<open>Host calls\<close>

interpretation handing_contracts: contract_frame handed
  by unfold_locales (simp add: spends_unsent)

interpretation handing_control: outer_frame handed "\<lambda>_. True"
  by unfold_locales (simp_all add: spends_unsent handing_contracts.keeps_registration)

interpretation handing_system: system_frame handed fair "\<lambda>_. True"
proof
  show "fair co \<Longrightarrow> handing.keeps (deliverMatched en co m)" for co en m by (rule handing_deliver)
  show "handing.keeps (append_derived r)" for r
    by (auto intro!: handing.keepsI spends_unsent simp: append_derived_def split: prod.splits)
  show "handed w (w\<lparr>w_mcp := m\<rparr>)" "handed w (w\<lparr>w_occurrences := l\<rparr>)" for w m l by (simp_all add: spends_unsent)
qed (rule handing_control.keeps_create handing_control.keeps_update handing_control.keeps_delete
  handing_control.keeps_set_lifecycle; simp)+

text \<open>
  C1: the host is called at most once for each claim of a wake, and not at all once its delivery is
  over. This holds for every run of the service, by any number of workers, whatever the hosts answer
  or throw, and for every interference of workers that obey the same rule.
\<close>

theorem host_calls_fenced:
  assumes "keyed (w_deliveries w)" and "\<forall>op \<in> set ops. admissible handed fair (\<lambda>_. True) op" and "calls w i \<le> claims w i"
  shows "calls (system_run ops w) i \<le> claims (system_run ops w) i \<and>
    (over w i \<longrightarrow> calls (system_run ops w) i = calls w i \<and>
       getWakeDelivery (w_deliveries (system_run ops w)) i = getWakeDelivery (w_deliveries w) i)"
proof -
  have "calls (system_run ops w) i + claims w i \<le> calls w i + claims (system_run ops w) i"
    and "over w i \<longrightarrow> calls (system_run ops w) i = calls w i \<and>
       getWakeDelivery (w_deliveries (system_run ops w)) i = getWakeDelivery (w_deliveries w) i"
    using handing_system.keeps_run [OF assms(2), of w] assms(1) by (simp_all add: spends_def)
  then show ?thesis using assms(3) by linarith
qed

subsection \<open>Retired versions\<close>

text \<open>An installed definition is never exchanged, and once it is out of use it stays so.\<close>

definition closes :: "world \<Rightarrow> world \<Rightarrow> bool" where
  "closes w w' \<longleftrightarrow> (\<forall>i v d. getTrigger (w_triggers w) i v = Some d \<longrightarrow>
     getTrigger (w_triggers w') i v = Some d \<and>
     (\<not> current_status (ts_status (state_of i v w)) \<longrightarrow> \<not> current_status (ts_status (state_of i v w'))))"

lemma state_of_same: "trigger_key j u = trigger_key i v \<Longrightarrow> ts_status (state_of j u w) = ts_status (state_of i v w)"
  by (simp add: state_of_def getTriggerState_def split: option.split)

lemma closes_state:
  assumes "\<not> current_status st \<or> current_status (ts_status (state_of i v w))"
  shows "closes w (w\<lparr>w_ticks := n, w_states := snd (setTriggerState i v st a md t (w_states w))\<rparr>)"
proof -
  have "\<not> current_status st" if "trigger_key j u = trigger_key i v" "\<not> current_status (ts_status (state_of j u w))" for j u
    using assms state_of_same [OF that(1), of w] that(2) by simp
  then show ?thesis by (simp add: closes_def state_of_def state_after_set)
qed

lemma closes_same: "w_triggers w' = w_triggers w \<Longrightarrow> w_states w' = w_states w \<Longrightarrow> closes w w'"
  by (simp add: closes_def state_of_def)

interpretation closing: base_frame closes
proof
  show "closes u v \<Longrightarrow> closes v w \<Longrightarrow> closes u w" for u v w unfolding closes_def by metis
qed (simp_all add: closes_same)

lemma closes_set_state:
  assumes "\<not> current_status st \<or> current_status (ts_status (state_of i v w))"
  shows "closes w (snd (set_state ru i v st md w))" and "closes w (snd (put_state ru i v st actor md w))"
  using closes_state [OF assms] by (simp_all add: set_state_result put_state_result)

lemma closing_put: "\<not> current_status st \<Longrightarrow> closing.keeps (put_state ru i v st actor md)"
  by (simp add: closing.keeps_def closes_set_state)

interpretation closing: lifecycle_frame closes
proof
  have out: "closing.keeps (set_state ru i v st md)" if "\<not> current_status st" for ru i v st md
    using that by (simp add: closing.keeps_def closes_set_state)
  show "closing.keeps (lifecycleAllows ru d s nowMs)" for ru d s nowMs
    unfolding lifecycleAllows_def Let_def
    by (intro closing.keeps_rules closing.keeps_base out) (simp_all add: current_status_def)
  show "closing.keeps (advanceLifecycleAfterEffect ru m ak e)" for ru m ak e
  proof (rule closing.keepsI)
    fix w :: world
    let ?s = "getTriggerState (w_states w) (tm_triggerId m) (tm_triggerVersion m)"
    show "closes w (snd (advanceLifecycleAfterEffect ru m ak e w))"
    proof (cases "getTrigger (w_triggers w) (tm_triggerId m) (tm_triggerVersion m)")
      case None
      then show ?thesis by (simp add: advanceLifecycleAfterEffect_def seq_def readW_def closing.R_refl)
    next
      case (Some d)
      let ?l = "td_lifecycle d" and ?n = "ts_fireCount ?s + 1"
      let ?rest = "\<lambda>effectAt. seq (set_state ru (tm_triggerId m) (tm_triggerVersion m)
          (if lifecycle_complete ?l ?n then Completed else Active)
          ((kept_metadata ?s)\<lparr>md_fireCount := Some ?n, md_lastFiredAt := Some (Some effectAt)\<rparr>))
        (\<lambda>_. if lifecycle_complete ?l ?n then auditTriggerLifecycle ru d ''trigger.completed''
             [(''reason'', JStr (completion_reason ?l)), (''fireCount'', JNum (num_of_int ?n)),
              (''effectKind'', JStr (effect_text ak)), (''effectId'', JStr e)]
         else ret ())"
      let ?v = "w\<lparr>w_ticks := w_ticks w + 1\<rparr>"
      have rest: "closes v (snd (?rest t v))" if active: "ts_status ?s = Active" "w_states v = w_states w" for v t
      proof -
        let ?set = "set_state ru (tm_triggerId m) (tm_triggerVersion m) (if lifecycle_complete ?l ?n then Completed else Active)
          ((kept_metadata ?s)\<lparr>md_fireCount := Some ?n, md_lastFiredAt := Some (Some t)\<rparr>)"
        have "closes v (snd (?set v))"
          using active by (intro closes_set_state) (simp add: state_of_def current_status_def)
        moreover have "closing.keeps (if b then auditTriggerLifecycle ru d x y else ret ())" for b x y
          by (intro closing.keeps_if closing.keeps_audit closing.keeps_ret)
        ultimately show ?thesis
          using closing.R_trans by (auto simp: seq_def set_state_result closing.keeps_def)
      qed
      have run: "advanceLifecycleAfterEffect ru m ak e w =
          (if ts_status ?s \<noteq> Active then (Inr (), w) else ?rest (ru_clock ru (w_ticks w)) ?v)"
        using Some by (simp add: advanceLifecycleAfterEffect_def seq_def readW_def read_now_def Let_def)
      show ?thesis
        unfolding run using rest [of ?v] closing.R_trans [OF closes_same, of ?v w] by (simp add: closing.R_refl)
    qed
  qed
qed

interpretation closing_wakes: wake_frame closes
  by unfold_locales (simp_all add: closes_same)

interpretation closing_consumer: consumer_frame closes "\<lambda>co. obeys closes (co_meanwhile co)"
proof
  show "closing.keeps (append_derived r)" for r
    by (auto intro!: closing.keepsI closes_same simp: append_derived_def split: prod.splits)
qed (rule closing_wakes.keeps_deliver)

interpretation closing_contracts: contract_frame closes
  by unfold_locales (simp add: closes_same)

interpretation closing_control: control_frame closes "\<lambda>_. True"
  by unfold_locales (simp_all add: closes_same closing_contracts.keeps_registration)

text \<open>A new version gets its first state only after the table took it, so no retired version is meant.\<close>

lemma closing_register:
  assumes "\<And>stored s. closing.keeps (g stored s)"
  shows "closing.keeps (seq (register en d) (\<lambda>stored. seq (put_state ru (td_triggerId d) (td_version d) Active actor md) (g stored)))"
proof (rule closing.keepsI)
  fix w :: world
  let ?put = "\<lambda>stored. seq (put_state ru (td_triggerId d) (td_version d) Active actor md) (g stored)"
  obtain r v where v: "register en d w = (r, v)" by fastforce
  show "closes w (snd (seq (register en d) ?put w))"
  proof (cases r)
    case (Inl e)
    then have "v = w"
      using v by (auto simp: register_def seq_def readW_def putTrigger_def split: option.splits sum.splits if_splits)
    then show ?thesis using v Inl by (simp add: seq_def closing.R_refl)
  next
    case (Inr x)
    then have new: "tab_get (w_triggers w) (key_of_trigger d) = None"
        "v = w\<lparr>w_triggers := tab_put (key_of_trigger d) d d (w_triggers w)\<rparr>"
      using v by (auto simp: register_def seq_def readW_def putTrigger_def split: option.splits sum.splits if_splits)
    let ?u = "snd (put_state ru (td_triggerId d) (td_version d) Active actor md v)"
    have "closes w ?u"
      using new by (auto simp: closes_def getTrigger_def put_state_result state_of_def state_after_set key_of_trigger_def)
    moreover have "closes ?u (snd (g stored x ?u))" for stored x using assms by (simp add: closing.keeps_def)
    ultimately show ?thesis
      using v Inr closing.R_trans by (simp add: seq_def put_state_result)
  qed
qed

lemma closing_install: "closing.keeps (install cp d actor owner ids)"
  unfolding install_def
  by (intro closing.keeps_seq [OF closing_control.keeps_output_contract] closing_register closing.keeps_seq
    closing_control.keeps_output_source closing.keeps_ret) simp

lemma closing_switch: "closing.keeps (setTriggerLifecycle cp i v action q)"
proof -
  let ?ru = "cp_ru cp"
  let ?act = "\<lambda>actor owner (d, before). if ts_status before \<noteq> required_status action
     then throw (coded_error ''TRIGGER_LIFECYCLE_CONFLICT'' (''Invalid trigger lifecycle transition: '' @
       trigger_status_text (ts_status before) @ '' -> '' @ trigger_status_text (next_status action)))
     else seq (put_state ?ru i v (next_status action) actor (fresh_metadata owner (ts_connectionIds before))) (\<lambda>s.
       let receipt = action_receipt ?ru q actor i v (action_text action) s in
       seq (audit_trigger ?ru (action_kind action) i
         [(''actor'', principal_json actor), (''owner'', principal_json owner), (''version'', JStr v),
          (''confirmationId'', confirmation_json q), (''receiptId'', JStr receipt),
          (''status'', JStr (trigger_status_text (next_status action)))]) (\<lambda>_.
       ret \<lparr>ry_receiptId = receipt, ry_definition = d, ry_state = s, ry_previous = None\<rparr>))"
  have current: "closes w (snd (seq (liftE (check_owned i v owner w)) (?act actor owner) w))" for w actor owner
  proof (cases "check_owned i v owner w")
    case (Inr x)
    then obtain d where x: "x = (d, state_of i v w)" by (auto simp: check_owned_def Let_def split: option.splits if_splits)
    have "current_status (required_status action)" by (cases action) (simp_all add: current_status_def)
    then show ?thesis
      unfolding Inr x
      by (auto simp: closing.R_refl Let_def intro!: closing.seq_at closes_set_state closing.keeps_seq closing.keeps_audit_control closing.keeps_ret)
  qed (simp add: closing.R_refl)
  have "closing.keeps (setTriggerLifecycleUnlocked cp i v action q)"
    unfolding setTriggerLifecycleUnlocked_def Let_def
    by (intro closing.keeps_seq closing.keeps_prod closing.keeps_liftE closing.keeps_read_at current [unfolded Let_def])
  then show ?thesis unfolding setTriggerLifecycle_def by (rule closing_control.keeps_lease)
qed

interpretation closing_system: system_frame closes "\<lambda>co. obeys closes (co_meanwhile co)" "\<lambda>_. True"
proof
  show "closes w (w\<lparr>w_mcp := m\<rparr>)" "closes w (w\<lparr>w_occurrences := l\<rparr>)" for w m l by (simp_all add: closes_same)
  show "closing.keeps (createTrigger cp d q)" for cp d q
    unfolding createTrigger_def Let_def
    by (intro closing.keeps_rules closing_install closing.keeps_audit_control)
  show "closing.keeps (updateTrigger cp i v d q)" for cp i v d q
    unfolding updateTrigger_def updateTriggerUnlocked_def Let_def
    by (intro closing_control.keeps_lease closing.keeps_rules closing_install closing.keeps_audit_control
      closing_control.keeps_retire closing_put) (simp add: current_status_def)
  show "closing.keeps (deleteTrigger cp i v q)" for cp i v q
    unfolding deleteTrigger_def deleteTriggerUnlocked_def Let_def
    by (intro closing_control.keeps_lease closing.keeps_rules closing.keeps_audit_control
      closing_control.keeps_retire closing_put) (simp add: current_status_def)
qed (rule closing_switch)

text \<open>
  C2: an installed definition is never exchanged, and a version that is completed, expired or deleted
  is out of use for ever: no event, timer, delivery, update, pause or resumption of the run, by any
  worker, makes it active or paused again.
\<close>

theorem retired_forever:
  assumes "\<forall>op \<in> set ops. admissible closes (\<lambda>co. obeys closes (co_meanwhile co)) (\<lambda>_. True) op"
    and "getTrigger (w_triggers w) i v = Some d" and "\<not> current_status (ts_status (state_of i v w))"
  shows "getTrigger (w_triggers (system_run ops w)) i v = Some d \<and>
    \<not> current_status (ts_status (state_of i v (system_run ops w)))"
  using closing_system.keeps_run [OF assms(1), of w] assms(2,3) by (simp add: closes_def)

subsection \<open>Derived events and their contracts\<close>

definition honest :: "runtime \<Rightarrow> contract_table \<Rightarrow> bool" where
  "honest ru t \<longleftrightarrow> (\<forall>n v c. getDerivedContract t n v = Some c \<longrightarrow> dc_schemaFingerprint c = fingerprint ru (dc_payloadSchema c))"

definition extends :: "derived_contract \<Rightarrow> derived_contract \<Rightarrow> bool" where
  "extends c c' \<longleftrightarrow> dc_schemaFingerprint c' = dc_schemaFingerprint c \<and> dc_createdAt c' = dc_createdAt c \<and>
     set (dc_producers c) \<subseteq> set (dc_producers c')"

definition recorded :: "runtime \<Rightarrow> world \<Rightarrow> world \<Rightarrow> bool" where
  "recorded ru w w' \<longleftrightarrow>
     (\<forall>i s r. getDerivedEvent (w_derived w) i s = Some r \<longrightarrow> getDerivedEvent (w_derived w') i s = Some r) \<and>
     (honest ru (w_contracts w) \<longrightarrow> honest ru (w_contracts w')) \<and>
     (\<forall>n v c. getDerivedContract (w_contracts w) n v = Some c \<longrightarrow>
        (\<exists>c'. getDerivedContract (w_contracts w') n v = Some c' \<and> extends c c'))"

definition same_hash :: "runtime \<Rightarrow> runtime \<Rightarrow> bool" where
  "same_hash ru ru' \<longleftrightarrow> ru_host ru' = ru_host ru \<and> ru_sha ru' = ru_sha ru"

lemma recorded_same: "w_derived w' = w_derived w \<Longrightarrow> w_contracts w' = w_contracts w \<Longrightarrow> recorded ru w w'"
  by (simp add: recorded_def extends_def)

lemma extends_trans: "extends a b \<Longrightarrow> extends b c \<Longrightarrow> extends a c"
  by (auto simp: extends_def)

lemma recorded_trans:
  assumes uv: "recorded ru u v" and vw: "recorded ru v w"
  shows "recorded ru u w"
proof -
  have "\<exists>c'. getDerivedContract (w_contracts w) n x = Some c' \<and> extends c c'"
    if "getDerivedContract (w_contracts u) n x = Some c" for n x c
    using that uv vw extends_trans unfolding recorded_def by meson
  then show ?thesis using uv vw by (simp add: recorded_def)
qed

interpretation recording: open_frame "recorded ru" for ru
  by unfold_locales (rule recorded_same recorded_trans; simp)+

interpretation recording_wakes: wake_frame "recorded ru" for ru
  by unfold_locales (simp_all add: recorded_same)

interpretation recording_consumer: consumer_frame "recorded ru" "\<lambda>co. obeys (recorded ru) (co_meanwhile co)" for ru
proof
  have "recorded ru w (w\<lparr>w_derived := snd (appendDerivedEvent r (w_derived w))\<rparr>)" for r and w :: world
    by (auto simp: recorded_def extends_def appendDerivedEvent_def parseDerivedEventRecord_def getDerivedEvent_def split: option.split)
  then show "recording.keeps ru (append_derived r)" for r
    by (auto intro!: recording.keepsI simp: append_derived_def split_beta)
qed (rule recording_wakes.keeps_deliver)

lemma canonical_object: "\<exists>kvs. canonicalize h (JObj s) = JObj kvs"
  by simp

lemma recorded_contract:
  assumes "dc_schemaFingerprint c = fingerprint ru (dc_payloadSchema c)"
    and "\<And>e. tab_get (w_contracts w) (key_of_contract c) = Some e \<Longrightarrow> extends e c"
  shows "recorded ru w (w\<lparr>w_contracts := tab_put (key_of_contract c) c l (w_contracts w)\<rparr>)"
  using assms by (auto simp: recorded_def getDerivedContract_def honest_def extends_def)

lemma with_producer_mono: "set ps \<subseteq> set (with_producer p ps)"
  by (auto simp: with_producer_def)

lemma recorded_put:
  assumes canonical: "canonical = canonicalize (ru_host ru) (JObj s)" and same: "same_hash ru ru'"
    and old: "\<And>e. getDerivedContract (w_contracts w) name version = Some e \<Longrightarrow> dc_schemaFingerprint e = fingerprint ru canonical"
    and run: "put_contract ru' \<lparr>ci_eventName = name, ci_contractVersion = version, ci_payloadSchema = canonical,
        ci_schemaFingerprint = fingerprint ru canonical, ci_producers = Some (with_producer p
          (case getDerivedContract (w_contracts w) name version of None \<Rightarrow> [] | Some c \<Rightarrow> dc_producers c))\<rparr> w = (r, w')"
  shows "recorded ru w w'"
proof -
  let ?i = "\<lparr>ci_eventName = name, ci_contractVersion = version, ci_payloadSchema = canonical,
        ci_schemaFingerprint = fingerprint ru canonical, ci_producers = Some (with_producer p
          (case getDerivedContract (w_contracts w) name version of None \<Rightarrow> [] | Some c \<Rightarrow> dc_producers c))\<rparr>"
  have "\<exists>created updated n. w' = w\<lparr>w_ticks := n, w_contracts := snd (putDerivedContract ?i created updated (w_contracts w))\<rparr>"
    using run by (auto simp: put_contract_def seq_def readW_def read_now_def split: option.splits prod.splits) (metis snd_conv)+
  then obtain created updated n where w': "w' = w\<lparr>w_ticks := n, w_contracts := snd (putDerivedContract ?i created updated (w_contracts w))\<rparr>"
    by blast
  define c where "c = fst (putDerivedContract ?i created updated (w_contracts w))"
  have obj: "object_or_empty (Some canonical) = canonical" by (simp add: canonical object_or_empty_def)
  have key: "tab_get (w_contracts w) (key_of_contract c) = getDerivedContract (w_contracts w) name version"
    by (simp add: c_def putDerivedContract_def key_of_contract_def getDerivedContract_def Let_def)
  have print: "dc_schemaFingerprint c = fingerprint ru (dc_payloadSchema c)"
    by (simp add: c_def putDerivedContract_def obj Let_def)
  have ext: "extends e c" if "tab_get (w_contracts w) (key_of_contract c) = Some e" for e
  proof -
    have e: "getDerivedContract (w_contracts w) name version = Some e" using that key by simp
    show ?thesis
      using old [OF e] e with_producer_mono [of "dc_producers e" p]
      by (simp add: extends_def c_def putDerivedContract_def Let_def)
  qed
  have "recorded ru (w\<lparr>w_ticks := n\<rparr>) w'"
    using recorded_contract [of c ru "w\<lparr>w_ticks := n\<rparr>"] print ext
    by (simp add: w' c_def putDerivedContract_def Let_def)
  then show ?thesis using recorded_trans recorded_same [of "w\<lparr>w_ticks := n\<rparr>" w ru] by simp
qed

lemma recording_producer:
  assumes "same_hash ru ru'"
  shows "recording.keeps ru (registerProducer ru' (audit_contract ru') name version (JObj s) producer)"
proof -
  let ?canonical = "canonicalize (ru_host ru) (JObj s)"
  have same: "ru_host ru' = ru_host ru" "fingerprint ru' x = fingerprint ru x" "schema_or_empty (JObj s) = JObj s" for x
    using assms by (simp_all add: same_hash_def fingerprint_def schema_or_empty_def)
  note rest = recording.keeps_seq recording.keeps_audit_control recording.keeps_ret recording.keeps_throw
  show ?thesis
    unfolding registerProducer_def assertCompatible_def
  proof (rule recording.keeps_read_at)
    fix w :: world
    let ?k = "\<lambda>checked. case checked of
       Inl c \<Rightarrow> seq (audit_contract ru' ''derived_contract.conflict'' (contract_key name version)
           (conflict_details c @ [(''producer'', producer_json producer)])) (\<lambda>_. throw (conflict_error c))
     | Inr (canonical, print, existing) \<Rightarrow>
         seq (put_contract ru' \<lparr>ci_eventName = name, ci_contractVersion = version, ci_payloadSchema = canonical,
           ci_schemaFingerprint = print,
           ci_producers = Some (with_producer producer (case existing of None \<Rightarrow> [] | Some c \<Rightarrow> dc_producers c))\<rparr>) (\<lambda>c.
         seq (audit_contract ru' (if existing = None then ''derived_contract.created'' else ''derived_contract.producer_registered'')
           (contract_key name version)
           [(''eventName'', JStr name), (''contractVersion'', JStr version), (''schemaFingerprint'', JStr print),
            (''producer'', producer_json producer), (''producerCount'', JNum (num_of_int (int (length (dc_producers c)))))]) (\<lambda>_.
         ret (existing \<noteq> None, c)))"
    show "recorded ru w (snd (?k (check_contract ru' name version (JObj s) (w_contracts w)) w))"
    proof (cases "check_contract ru' name version (JObj s) (w_contracts w)")
      case (Inl c)
      have "recording.keeps ru (?k (Inl c))" by (simp, intro rest)
      then show ?thesis unfolding Inl by (simp add: recording.keeps_def)
    next
      case (Inr x)
      have old: "dc_schemaFingerprint e = fingerprint ru ?canonical"
        if "getDerivedContract (w_contracts w) name version = Some e" for e
        using Inr that by (auto simp: check_contract_def Let_def same simp del: canonicalize.simps split: if_splits)
      have x: "x = (?canonical, fingerprint ru ?canonical, getDerivedContract (w_contracts w) name version)"
        using Inr by (auto simp: check_contract_def Let_def same simp del: canonicalize.simps split: option.splits if_splits)
      show ?thesis
        unfolding Inr x sum.case prod.case
      proof (rule recording.seq_at)
        show "recorded ru w (snd (put_contract ru' \<lparr>ci_eventName = name, ci_contractVersion = version, ci_payloadSchema = ?canonical,
           ci_schemaFingerprint = fingerprint ru ?canonical,
           ci_producers = Some (with_producer producer (case getDerivedContract (w_contracts w) name version of
             None \<Rightarrow> [] | Some c \<Rightarrow> dc_producers c))\<rparr> w))"
          by (rule recorded_put [OF refl assms old prod.collapse [symmetric]])
      qed (intro rest)
    qed
  qed
qed

interpretation recording_control: outer_frame "recorded ru" "same_hash ru" for ru
proof
  show "same_hash ru ru' \<Longrightarrow> recording.keeps ru (registerProducer ru' (audit_contract ru') name version (JObj schema) producer)"
    for ru' name version schema producer by (rule recording_producer)
qed (simp_all add: recorded_same)

interpretation recording_system: system_frame "recorded ru" "\<lambda>co. obeys (recorded ru) (co_meanwhile co)" "same_hash ru" for ru
  by unfold_locales (rule recorded_same recording_control.keeps_create recording_control.keeps_update recording_control.keeps_delete
    recording_control.keeps_set_lifecycle; simp)+

text \<open>
  C3: a derived event that was stored is never changed, and the contract it was made under keeps its
  fingerprint, its date and its producers; the fingerprint is at every moment the hash of the schema
  that is stored with it.
\<close>

theorem derived_history_kept:
  assumes "\<forall>op \<in> set ops. admissible (recorded ru) (\<lambda>co. obeys (recorded ru) (co_meanwhile co)) (same_hash ru) op"
    and "honest ru (w_contracts w)" and "getDerivedEvent (w_derived w) e s = Some r"
    and "getDerivedContract (w_contracts w) n v = Some c"
  shows "getDerivedEvent (w_derived (system_run ops w)) e s = Some r \<and>
    (\<exists>c'. getDerivedContract (w_contracts (system_run ops w)) n v = Some c' \<and> extends c c' \<and>
       dc_schemaFingerprint c = fingerprint ru (dc_payloadSchema c'))"
proof -
  have kept: "recorded ru w (system_run ops w)" by (rule recording_system.keeps_run [OF assms(1)])
  then obtain c' where c': "getDerivedContract (w_contracts (system_run ops w)) n v = Some c'" "extends c c'"
    using assms(4) unfolding recorded_def by blast
  moreover have "dc_schemaFingerprint c' = fingerprint ru (dc_payloadSchema c')"
    using kept assms(2) c'(1) by (auto simp: recorded_def honest_def)
  ultimately show ?thesis using kept assms(3) by (auto simp: recorded_def extends_def)
qed

subsection \<open>One derived event for a match\<close>

lemma audit_derived_only: "audit_derived ru r ak ds w = (x, w') \<Longrightarrow> w_derived w' = w_derived w"
  by (auto simp: audit_derived_def appendAudit_def seq_def read_now_def readW_def split: prod.splits sum.splits)

lemma emission_stored:
  assumes "emitMatched ru m d w = (Inr e, w')" and "em_record e = Some r" and "td_derivedEvent d = Some s"
  shows "tm_status m = Matched" and "getDerivedEvent (w_derived w') (derived_event_id ru d s (tm_matchId m)) DERIVED_EVENT_SERVER_ID = Some r"
proof -
  let ?i = "derived_event_id ru d s (tm_matchId m)"
  show matched: "tm_status m = Matched" using assms by (auto simp: emitMatched_def split: if_splits)
  show "getDerivedEvent (w_derived w') ?i DERIVED_EVENT_SERVER_ID = Some r"
  proof (cases "getDerivedEvent (w_derived w) ?i DERIVED_EVENT_SERVER_ID")
    case (Some x)
    then show ?thesis
      using assms matched by (auto simp: emitMatched_def Let_def seq_eq_Inr_iff readW_def dest: audit_derived_only)
  next
    case None
    then obtain raw v where store: "store_derived ru raw v = (Inr e, w')"
      and raw: "ce_sourceEventId (dr_event raw) = ?i" "ce_serverId (dr_event raw) = Some DERIVED_EVENT_SERVER_ID"
      using assms matched
      by (auto simp: emitMatched_def create_derived_def Let_def seq_eq_Inr_iff readW_def derived_event_of_def
        parseDerivedEventRecord_def split: option.splits if_splits)
    have key: "key_of_derived raw = derived_key DERIVED_EVENT_SERVER_ID ?i" using raw by (simp add: key_of_derived_def)
    show ?thesis
      using store assms(2) key
      by (auto simp: store_derived_def append_derived_def appendDerivedEvent_def parseDerivedEventRecord_def seq_eq_Inr_iff
        getDerivedEvent_def split: option.splits if_splits prod.splits dest!: audit_derived_only)
  qed
qed

text \<open>
  C13: a match yields one derived event. When a match is emitted again, after any run of the service
  in between, the answer is a replay with the very event of the first emission, and no event is stored.
\<close>

theorem derived_event_once:
  assumes "\<forall>op \<in> set ops. admissible (recorded ru) (\<lambda>co. obeys (recorded ru) (co_meanwhile co)) (same_hash ru) op"
    and "emitMatched ru m d w = (Inr first, v)" and "em_record first = Some r"
    and "emitMatched ru m d (system_run ops v) = (Inr again, v')"
  shows "em_status again = Replayed \<and> em_record again = Some r \<and> w_derived v' = w_derived (system_run ops v)"
proof -
  obtain s where s: "td_derivedEvent d = Some s" using assms(2,3) by (auto simp: emitMatched_def split: option.splits)
  note stored = emission_stored [OF assms(2,3) s]
  have "getDerivedEvent (w_derived (system_run ops v)) (derived_event_id ru d s (tm_matchId m)) DERIVED_EVENT_SERVER_ID = Some r"
    using recording_system.keeps_run [OF assms(1), of v] stored(2) by (auto simp: recorded_def)
  then show ?thesis
    using assms(4) s stored(1) by (auto simp: emitMatched_def Let_def seq_eq_Inr_iff readW_def dest: audit_derived_only)
qed

subsection \<open>A run\<close>

definition sample_consumer :: consumer where
  "sample_consumer = \<lparr>cs_engine = sample_engine, cs_derives = True, cs_maxDerivedDepth = derived_depth_limit 0,
     cs_coordinators = coordinatorFor [] (Some sample_coordinator)\<rparr>"

definition sample_scheduler :: retry_scheduler where
  "sample_scheduler = constructRetryScheduler \<lparr>rs_engine = sample_engine, rs_resolve = (\<lambda>_. Some sample_coordinator),
     rs_orphans = None, rs_orphanReconcileIntervalMs = 0, rs_orphanMatchLimit = 0\<rparr> 0 0"

definition sample_control :: control_plane where
  "sample_control = constructControlPlane sample_engine ''w'' 0"

definition sample_person :: json where
  "sample_person = JObj [(''type'', JStr ''human''), (''principal_id'', JStr ''u'')]"

definition sample_request :: trigger_request where
  "sample_request = \<lparr>rq_actor = Some sample_person, rq_owner = Some sample_person, rq_confirmationId = None,
     rq_connectionIds = Some [''c'']\<rparr>"

definition sample_ops :: "operation list" where
  "sample_ops = [Enter sample_consumer (sample_arrival ''a.event'' ''1'' 1 (JStr ''u'')),
     Retry_Wakes sample_scheduler False \<lparr>ro_lastOrphanScanAt = None, ro_orphanCursor = []\<rparr>,
     Reach_Deadlines sample_consumer False, Create sample_control sample_trigger sample_request,
     Switch sample_control ''t'' ''1'' Resume sample_request, Delete sample_control ''t'' ''1'' sample_request]"

lemma sample_ops_admissible:
  "(\<And>w. R w w) \<Longrightarrow> good sample_coordinator \<Longrightarrow> apt sample_runtime \<Longrightarrow> \<forall>op \<in> set sample_ops. admissible R good apt op"
  by (simp add: sample_ops_def well_behaved_def obeys_def sample_consumer_def coordinatorFor_def sample_scheduler_def
    constructRetryScheduler_def sample_control_def constructControlPlane_def sample_engine_def)

lemma sample_obeys: "(\<And>w. R w w) \<Longrightarrow> obeys R (co_meanwhile sample_coordinator)"
  by (simp add: obeys_def sample_coordinator_fields)

lemma host_calls_fenced_witness: "calls (system_run sample_ops sample_start) ''x'' \<le> claims (system_run sample_ops sample_start) ''x''"
proof -
  have "\<forall>op \<in> set sample_ops. admissible handed fair (\<lambda>_. True) op"
    by (rule sample_ops_admissible) (simp_all add: handing.R_refl sample_host_alone)
  then show ?thesis using host_calls_fenced [OF sample_no_delivery(2)] sample_no_delivery(3) by simp
qed

definition sample_deleted :: world where
  "sample_deleted = sample_start\<lparr>w_states := snd (setTriggerState ''t'' ''1'' Deleted None
     \<lparr>md_owner = Some sample_person, md_connectionIds = None, md_fireCount = None, md_lastFiredAt = None\<rparr> ''now'' empty_table)\<rparr>"

lemma retired_forever_witness: "\<not> current_status (ts_status (state_of ''t'' ''1'' (system_run sample_ops sample_deleted)))"
proof -
  have "getTrigger (w_triggers sample_deleted) ''t'' ''1'' = Some sample_waking"
    "\<not> current_status (ts_status (state_of ''t'' ''1'' sample_deleted))"
    by (simp_all add: sample_deleted_def sample_get state_of_def state_after_set current_status_def)
  moreover have "\<forall>op \<in> set sample_ops. admissible closes (\<lambda>co. obeys closes (co_meanwhile co)) (\<lambda>_. True) op"
    by (rule sample_ops_admissible) (simp_all add: closing.R_refl sample_obeys)
  ultimately show ?thesis using retired_forever by blast
qed

definition sample_contract :: derived_contract where
  "sample_contract = \<lparr>dc_eventName = ''d.event'', dc_contractVersion = ''1'', dc_payloadSchema = JObj [],
     dc_schemaFingerprint = fingerprint sample_runtime (JObj []), dc_producers = [(''t'', ''1'')], dc_createdAt = ''now'',
     dc_updatedAt = ''now''\<rparr>"

definition sample_derived :: derived_event_record where
  "sample_derived = \<lparr>dr_event = sample_arrival ''d.event'' ''e'' 1 (JStr ''u''), dr_triggerId = ''t'', dr_triggerVersion = ''1'',
     dr_matchId = ''m'', dr_directParents = [], dr_rootEvidence = [], dr_createdAt = Ts ''now'' 0\<rparr>"

definition sample_history :: world where
  "sample_history = sample_start\<lparr>w_derived := tab_put (derived_key [] ''e'') sample_derived sample_derived empty_table,
     w_contracts := tab_put (contract_key ''d.event'' ''1'') sample_contract (to_contract_line sample_contract) empty_table\<rparr>"

lemma empty_lookup: "tab_get empty_table k = None"
  by (simp add: tab_get_def empty_table_def)

lemma derived_history_kept_witness:
  "getDerivedEvent (w_derived (system_run sample_ops sample_history)) ''e'' [] = Some sample_derived"
proof -
  have "honest sample_runtime (w_contracts sample_history)" "getDerivedEvent (w_derived sample_history) ''e'' [] = Some sample_derived"
    "getDerivedContract (w_contracts sample_history) ''d.event'' ''1'' = Some sample_contract"
    by (auto simp: honest_def sample_history_def getDerivedContract_def getDerivedEvent_def sample_contract_def
      empty_lookup split: if_splits)
  moreover have "\<forall>op \<in> set sample_ops. admissible (recorded sample_runtime)
      (\<lambda>co. obeys (recorded sample_runtime) (co_meanwhile co)) (same_hash sample_runtime) op"
    by (rule sample_ops_admissible) (simp_all add: recording.R_refl sample_obeys same_hash_def)
  ultimately show ?thesis using derived_history_kept by blast
qed

text \<open>A store in which the event of a match is already there.\<close>

definition sample_pair_id :: string where
  "sample_pair_id = derived_event_id sample_runtime sample_trigger (the (td_derivedEvent sample_trigger)) ''m''"

definition sample_pair :: derived_event_record where
  "sample_pair = sample_derived\<lparr>dr_event := (dr_event sample_derived)\<lparr>ce_sourceEventId := sample_pair_id,
     ce_serverId := Some DERIVED_EVENT_SERVER_ID, ce_traceId := ''trace''\<rparr>\<rparr>"

definition sample_emitted :: world where
  "sample_emitted = empty_world\<lparr>w_derived := tab_put (derived_key DERIVED_EVENT_SERVER_ID sample_pair_id) sample_pair sample_pair empty_table\<rparr>"

lemma works_audit_pair: "works 1 (audit_derived sample_runtime sample_pair ''derived_event.replayed'' ds)"
proof -
  have id: "audit_id (''audit_'' @ take 24 (sha256Hex_value h f v))" for h f v by (simp add: audit_id_def)
  have "audit_id sample_pair_id" unfolding sample_pair_id_def derived_event_id_def by (simp add: audit_id_def)
  then have step: "works (0 + (0 + (1 + 0))) (audit_derived sample_runtime sample_pair ''derived_event.replayed'' ds)"
    unfolding audit_derived_def
    by (intro works_seq works_readW works_read_now works_audit works_ret sample_ready(2))
      (use id in \<open>simp add: input_ok_def AUDIT_KINDS_def ENTITY_TYPES_def sample_pair_def audit_id_def\<close>)
  then show ?thesis by simp
qed

lemma sample_replay:
  assumes "ready (1 + n) w" and "w_derived w = w_derived sample_emitted"
  obtains e v where "emitMatched sample_runtime sample_pending sample_trigger w = (Inr e, v)" and "em_record e = Some sample_pair"
    and "ready n v" and "w_derived v = w_derived sample_emitted"
proof -
  obtain u v where v: "audit_derived sample_runtime sample_pair ''derived_event.replayed''
      [(''reason'', JStr ''stable_event_id_already_persisted'')] w = (Inr u, v)" "ready n v"
    using worksD [OF works_audit_pair assms(1)] by blast
  obtain s where s: "td_derivedEvent sample_trigger = Some s" by (simp add: sample_trigger_def)
  have "getDerivedEvent (w_derived w) (derived_event_id sample_runtime sample_trigger s ''m'') DERIVED_EVENT_SERVER_ID = Some sample_pair"
    using s by (simp add: assms(2) sample_emitted_def getDerivedEvent_def sample_pair_id_def)
  then have "emitMatched sample_runtime sample_pending sample_trigger w = (Inr \<lparr>em_status = Replayed, em_record = Some sample_pair\<rparr>, v)"
    using v(1) s by (simp add: emitMatched_def seq_def readW_def Let_def) (simp add: sample_buffer_def)
  then show ?thesis using that v audit_derived_only [OF v(1)] assms(2) by simp
qed

lemma derived_event_once_witness:
  "\<exists>e v e' v'. emitMatched sample_runtime sample_pending sample_trigger sample_emitted = (Inr e, v) \<and>
     emitMatched sample_runtime sample_pending sample_trigger v = (Inr e', v') \<and> em_record e' = em_record e"
proof -
  have "ready (1 + (1 + 0)) sample_emitted"
    using empty_deadlines by (simp add: ready_def getTrigger_def sample_emitted_def)
      (simp add: empty_world_def MAX_SAFE_INTEGER_def empty_table_def tab_get_def)
  then obtain e v where first: "emitMatched sample_runtime sample_pending sample_trigger sample_emitted = (Inr e, v)"
    "em_record e = Some sample_pair" "ready (1 + 0) v" "w_derived v = w_derived sample_emitted"
    by (rule sample_replay) simp
  obtain e' v' where again: "emitMatched sample_runtime sample_pending sample_trigger v = (Inr e', v')"
    by (rule sample_replay [OF first(3,4)])
  have "em_record e' = Some sample_pair"
    using derived_event_once [of "[]" sample_runtime, OF _ first(1,2)] again by (simp add: system_run_def)
  then show ?thesis using first(1,2) again by auto
qed

end
