(* ===== verification/Mcp_Laws.thy ===== *)
theory Mcp_Laws
  imports Mcp_Frames Evaluator_Closure
begin

text \<open>
  What the MCP client promises: a cursor is stored only when the events before it are in the log, a
  gap that the provider reports is stored before its page is looked at, and what a provider sends is
  taken within the limits of the connection.
\<close>

subsection \<open>Cursors\<close>

definition known_event :: "mcp_client \<Rightarrow> subscription \<Rightarrow> world \<Rightarrow> json \<Rightarrow> bool" where
  "known_event cl sn w v \<longleftrightarrow> (case parseMcpEventOccurrence (mc_parse cl) v of
     Inl e \<Rightarrow> False
   | Inr e \<Rightarrow> occurrence_key (cn_serverId (mc_connection cl)) (Some (sn_subscriptionId sn)) (me_eventId e)
       \<in> set (ol_keys (w_occurrences w)))"

text \<open>The provider gave a page with this cursor, and each of its events is in the log.\<close>

definition page_logged :: "mcp_client \<Rightarrow> subscription \<Rightarrow> world \<Rightarrow> string option \<Rightarrow> bool" where
  "page_logged cl sn w c \<longleftrightarrow> (\<exists>n params v k. cn_request (mc_connection cl) n ''events/poll'' params = Inr v \<and>
     check_page (cn_connectionId (mc_connection cl)) (cn_limits (mc_connection cl)) v = Inr k \<and> kp_cursor k = c \<and>
     list_all (known_event cl sn w) (kp_events k))"

definition cursor_at :: "mcp_client \<Rightarrow> subscription \<Rightarrow> world \<Rightarrow> string option" where
  "cursor_at cl sn w = Option.bind (state_at cl sn w) ms_cursor"

definition cursor_follows :: "mcp_client \<Rightarrow> subscription \<Rightarrow> world \<Rightarrow> world \<Rightarrow> bool" where
  "cursor_follows cl sn w w' \<longleftrightarrow> w_ticks w \<le> w_ticks w' \<and>
     set (ol_keys (w_occurrences w)) \<subseteq> set (ol_keys (w_occurrences w')) \<and>
     (cursor_at cl sn w' = cursor_at cl sn w \<or> page_logged cl sn w' (cursor_at cl sn w'))"

lemma known_mono: "set (ol_keys (w_occurrences w)) \<subseteq> set (ol_keys (w_occurrences w')) \<Longrightarrow> known_event cl sn w v \<Longrightarrow> known_event cl sn w' v"
  by (auto simp: known_event_def split: sum.splits)

lemma logged_mono: "set (ol_keys (w_occurrences w)) \<subseteq> set (ol_keys (w_occurrences w')) \<Longrightarrow> page_logged cl sn w c \<Longrightarrow> page_logged cl sn w' c"
  unfolding page_logged_def by (blast intro: list.pred_mono_strong known_mono)

lemma follows_trans: "cursor_follows cl sn u v \<Longrightarrow> cursor_follows cl sn v w \<Longrightarrow> cursor_follows cl sn u w"
  unfolding cursor_follows_def using logged_mono [of v w cl sn] by (metis order_trans)

lemma follows_same: "w_ticks w \<le> w_ticks w' \<Longrightarrow> w_occurrences w' = w_occurrences w \<Longrightarrow> w_mcp w' = w_mcp w \<Longrightarrow> cursor_follows cl sn w w'"
  by (simp add: cursor_follows_def cursor_at_def state_at_def)

interpretation following: open_frame "cursor_follows cl sn" for cl sn
  by unfold_locales (rule follows_same follows_trans; simp)+

interpretation following_wakes: wake_frame "cursor_follows cl sn" for cl sn
  by unfold_locales (simp_all add: follows_same)

interpretation following_consumer: consumer_frame "cursor_follows cl sn" "\<lambda>co. obeys (cursor_follows cl sn) (co_meanwhile co)" for cl sn
proof
  show "following.keeps cl sn (append_derived r)" for r
    by (auto intro!: following.keepsI follows_same simp: append_derived_def split: prod.splits)
qed (rule following_wakes.keeps_deliver)

text \<open>Workers that follow the same rule, and a connection that stays detached once it is.\<close>

definition orderly :: "mcp_client \<Rightarrow> subscription \<Rightarrow> bool" where
  "orderly cl sn \<longleftrightarrow> behaved_client (cursor_follows cl sn) (\<lambda>co. obeys (cursor_follows cl sn) (co_meanwhile co)) cl \<and>
     (\<forall>m n. m \<le> n \<longrightarrow> cn_attached (mc_connection cl) n \<longrightarrow> cn_attached (mc_connection cl) m)"

lemma orderly_parts:
  assumes "orderly cl sn"
  shows "obeys (cursor_follows cl sn) (cn_meanwhile (mc_connection cl))"
    and "well_behaved (cursor_follows cl sn) (\<lambda>co. obeys (cursor_follows cl sn) (co_meanwhile co)) (mc_consumer cl)"
    and "m \<le> n \<Longrightarrow> cn_attached (mc_connection cl) n \<Longrightarrow> cn_attached (mc_connection cl) m"
  using assms by (auto simp: orderly_def behaved_client_def)

text \<open>A write either leaves the cursor alone or sets one that is accounted for, if it comes to it at all.\<close>

lemma put_state_cursor:
  assumes "put_mcp_state ru (state_input (mc_connection cl) (sn_eventName sn) (sn_arguments sn) i previous patch) w = (r, w')"
    and "previous = state_at cl sn w" and "\<And>c. sp_cursor patch = Some c \<Longrightarrow> page_logged cl sn w c"
  shows "cursor_follows cl sn w w'"
proof -
  let ?input = "state_input (mc_connection cl) (sn_eventName sn) (sn_arguments sn) i previous patch"
  let ?t = "ts_text (ru_clock ru (w_ticks w))"
  have w': "w' = w\<lparr>w_ticks := w_ticks w + 1, w_mcp := snd (putMcpClientState ?t ?input (w_mcp w))\<rparr>"
    using assms(1) by (auto simp: put_mcp_state_def seq_def read_now_def split: prod.splits)
  show ?thesis
  proof (cases rule: put_mcp_cases [of ?t ?input "w_mcp w"])
    case (error e)
    then show ?thesis by (simp add: w' cursor_follows_def cursor_at_def state_at_def)
  next
    case (written s k p)
    have s: "ms_cursor s = mi_cursor ?input" unfolding written(7) by (simp add: next_mcp_state_def Let_def)
    have "mcp_key s = mcpClientStateKey (str_or (mi_connectionId ?input) []) (str_or (mi_eventName ?input) []) (mi_arguments ?input)"
      unfolding mcp_key_def written(7) by simp
    moreover have "str_or (Some x) [] = x" for x by (simp add: str_or_def)
    ultimately have "k = mcpClientStateKey (cn_connectionId (mc_connection cl)) (sn_eventName sn) (sn_arguments sn)"
      using written(2) by (simp add: state_input_def)
    then have cursor: "cursor_at cl sn w' = mi_cursor ?input"
      using written(1) s by (simp add: w' cursor_at_def state_at_def getMcpClientState_def)
    have keys: "ol_keys (w_occurrences w') = ol_keys (w_occurrences w)" by (simp add: w')
    show ?thesis
    proof (cases "sp_cursor patch")
      case None
      then have "cursor_at cl sn w' = cursor_at cl sn w"
        using cursor assms(2) by (simp add: state_input_def cursor_at_def)
      then show ?thesis by (simp add: cursor_follows_def keys) (simp add: w')
    next
      case (Some c)
      then have "cursor_at cl sn w' = c" "page_logged cl sn w' c"
        using cursor logged_mono [of w w' cl sn c] assms(3) keys by (simp_all add: state_input_def)
      then show ?thesis by (simp add: cursor_follows_def keys) (simp add: w')
    qed
  qed
qed

lemma connected_run:
  "isConnectionAttached cn w = (Inr (cn_attached cn (w_ticks w)), w\<lparr>w_ticks := Suc (w_ticks w)\<rparr>)"
  "assertConnectionAttached cn w = (if cn_attached cn (w_ticks w) then Inr ()
     else Inl (coded_error ''MCP_EVENTS_CONNECTION_DETACHED'' ''Host MCP Events connection is detached''), w\<lparr>w_ticks := Suc (w_ticks w)\<rparr>)"
  by (simp_all add: isConnectionAttached_def assertConnectionAttached_def seq_def)

lemma save_follows:
  assumes "orderly cl sn" and "\<And>c. sp_cursor patch = Some c \<Longrightarrow> cn_attached (mc_connection cl) (w_ticks w) \<Longrightarrow> page_logged cl sn w c"
  shows "cursor_follows cl sn w (snd (saveSubscriptionState cl sn patch w))"
proof -
  let ?cn = "mc_connection cl" and ?v = "cn_meanwhile (mc_connection cl) (w_ticks w) w"
  let ?put = "\<lambda>previous. put_mcp_state (mc_ru cl) (state_input ?cn (sn_eventName sn) (sn_arguments sn) (Some (sn_subscriptionId sn)) previous patch)"
  have v: "cursor_follows cl sn w ?v" using orderly_parts(1) [OF assms(1)] by (simp add: obeys_def)
  let ?x = "?v\<lparr>w_ticks := Suc (w_ticks ?v)\<rparr>" and ?y = "?v\<lparr>w_ticks := Suc (Suc (w_ticks ?v))\<rparr>"
  have x: "cursor_follows cl sn w ?x" "cursor_follows cl sn w ?y" by (rule follows_trans [OF v follows_same]; simp)+
  show ?thesis
  proof (cases "cn_attached ?cn (w_ticks ?v) \<and> cn_attached ?cn (Suc (w_ticks ?v))")
    case False
    then show ?thesis using x by (auto simp: saveSubscriptionState_def Let_def seq_def others_act_def connected_run readW_def)
  next
    case True
    have "cn_attached ?cn (w_ticks w)" using True orderly_parts(3) [OF assms(1)] v by (auto simp: cursor_follows_def)
    then have logged: "page_logged cl sn ?y c" if "sp_cursor patch = Some c" for c
      using assms(2) [OF that] logged_mono [of w ?y cl sn c] x(2) by (simp add: cursor_follows_def)
    obtain r z where z: "?put (state_at cl sn ?v) ?y = (r, z)" by fastforce
    have "cursor_follows cl sn ?y z" by (rule put_state_cursor [OF z _ logged]) (simp_all add: state_at_def)
    moreover have "saveSubscriptionState cl sn patch w = (r, z)"
      using True z by (simp add: saveSubscriptionState_def Let_def seq_def others_act_def connected_run readW_def state_at_def)
    ultimately show ?thesis using follows_trans [OF x(2)] by simp
  qed
qed

lemma save_plain: "orderly cl sn \<Longrightarrow> sp_cursor patch = None \<Longrightarrow> following.keeps cl sn (saveSubscriptionState cl sn patch)"
  by (rule following.keepsI) (auto intro: save_follows)

text \<open>An event that was taken while the connection is attached is in the log.\<close>

lemma append_run: "append_occurrence server e i w =
   (Inr (fst (appendMcpOccurrence server e (Some i) (w_occurrences w))),
    w\<lparr>w_occurrences := snd (appendMcpOccurrence server e (Some i) (w_occurrences w))\<rparr>)"
  by (simp add: append_occurrence_def split: prod.split)

lemma append_keys: "set (ol_keys (snd (appendMcpOccurrence server e i l))) = insert (occurrence_key server i (me_eventId e)) (set (ol_keys l))"
  by (auto simp: appendMcpOccurrence_def Let_def)

lemma seq_rest: "seq m f w = (Inr r, w') \<Longrightarrow> \<exists>x. f x (snd (m w)) = (Inr r, w')"
  by (auto simp: seq_eq_Inr_iff)

lemma append_follows: "following.keeps cl sn (append_occurrence server e i)"
  by (rule following.keepsI) (auto simp: append_run cursor_follows_def append_keys cursor_at_def state_at_def)

lemma ingest_keeps:
  assumes "orderly cl sn"
  shows "following.keeps cl sn (ingestOccurrence cl sn v)"
proof -
  have "following.keeps cl sn (ingestMcpOccurrence (mc_consumer cl) parse x c)" for parse x c
    by (rule following_consumer.keeps_occurrence) (rule orderly_parts(2) [OF assms])
  then show ?thesis
    unfolding ingestOccurrence_def Let_def
    by (intro following.keeps_rules following.keeps_connected following.keeps_support append_follows)
qed

lemma ingest_known:
  assumes "orderly cl sn" and "ingestOccurrence cl sn v w = (Inr r, w')" and "cn_attached (mc_connection cl) (w_ticks w')"
  shows "known_event cl sn w' v"
proof -
  let ?cn = "mc_connection cl" and ?ru = "mc_ru cl"
  have ww': "cursor_follows cl sn w w'" by (rule following.keepsD [OF ingest_keeps [OF assms(1)] assms(2)])
  then have attached: "cn_attached ?cn (w_ticks w)" using orderly_parts(3) [OF assms(1) _ assms(3)] by (simp add: cursor_follows_def)
  then obtain n e where run: "assertDecodedMcpBytes v (pt_maxOccurrenceBytes (cn_limits ?cn)) = Inr n"
    "parseMcpEventOccurrence (mc_parse cl) v = Inr e" "me_name e = ed_name (sn_descriptor sn)"
    "assertJsonSchemaValue (ru_host ?ru) (ed_payloadSchema (sn_descriptor sn)) (JObj (me_data e)) ''$'' = None"
    using assms(2)
    by (auto simp: ingestOccurrence_def Let_def seq_eq_Inr_iff connected_run throw_def split: if_splits option.splits)
  let ?u = "w\<lparr>w_ticks := Suc (Suc (w_ticks w))\<rparr>" and ?t = "ru_clock ?ru (Suc (w_ticks w))"
  let ?append = "append_occurrence (cn_serverId ?cn) e (sn_subscriptionId sn)"
  let ?rest = "\<lambda>receipt::append_reply. if \<not> ar_accepted receipt then ret None
    else seq (ingestMcpOccurrence (mc_consumer cl) (mc_parse cl) (embed (occurrence_json e) 1)
        \<lparr>oc_traceId = join_with '':'' [''mcp'', cn_serverId ?cn, sn_subscriptionId sn, me_eventId e],
         oc_provider = Some ''mcp'', oc_serverId = Some (cn_serverId ?cn),
         oc_arguments = Some (embed (JObj (sn_arguments sn)) 1), oc_receivedAt = Some (ts_text ?t)\<rparr>) (\<lambda>_. ret (Some e))"
  have "seq ?append ?rest ?u = (Inr r, w')"
    using assms(2) attached run by (simp add: ingestOccurrence_def Let_def connected_run read_now_def)
  from seq_rest [OF this] obtain x where rest: "?rest x (snd (?append ?u)) = (Inr r, w')" ..
  have "following.keeps cl sn (?rest x)"
    by (intro following.keeps_rules following_consumer.keeps_occurrence orderly_parts(2) [OF assms(1)])
  from following.keepsD [OF this rest]
  have "set (ol_keys (w_occurrences (snd (?append ?u)))) \<subseteq> set (ol_keys (w_occurrences w'))" by (simp add: cursor_follows_def)
  then show ?thesis using run(2) by (auto simp: known_event_def append_run append_keys)
qed

text \<open>A page is ingested in order, and it ends with all of its events in the log.\<close>

lemma page_keeps: "orderly cl sn \<Longrightarrow> following.keeps cl sn (ingest_page cl sn vs p)"
  by (induction vs arbitrary: p) (auto intro!: following.keeps_rules ingest_keeps)

lemma ingest_page_known:
  assumes "orderly cl sn"
  shows "ingest_page cl sn vs p w = (Inr p', w') \<Longrightarrow> pg_cursor p' = pg_cursor p \<and>
    (cn_attached (mc_connection cl) (w_ticks w') \<longrightarrow> list_all (known_event cl sn w') vs)"
proof (induction vs arbitrary: p w)
  case (Cons v vs)
  from Cons.prems obtain x u q where first: "ingestOccurrence cl sn v w = (Inr x, u)"
    and rest: "ingest_page cl sn vs q u = (Inr p', w')" and "pg_cursor q = pg_cursor p"
    by (auto simp: seq_eq_Inr_iff split: option.splits)
  moreover have "cursor_follows cl sn u w'" by (rule following.keepsD [OF page_keeps [OF assms] rest])
  moreover have "known_event cl sn u v" if "cn_attached (mc_connection cl) (w_ticks w')"
    using ingest_known [OF assms first] orderly_parts(3) [OF assms _ that] \<open>cursor_follows cl sn u w'\<close> by (simp add: cursor_follows_def)
  ultimately show ?case using Cons.IH [OF rest] known_mono [of u w' cl sn v] by (auto simp: cursor_follows_def)
qed (simp add: ret_def)

definition accounted :: "mcp_client \<Rightarrow> subscription \<Rightarrow> string option \<Rightarrow> world \<Rightarrow> bool" where
  "accounted cl sn c w \<longleftrightarrow> (cn_attached (mc_connection cl) (w_ticks w) \<longrightarrow> page_logged cl sn w c)"

lemma accounted_mono: "orderly cl sn \<Longrightarrow> cursor_follows cl sn w w' \<Longrightarrow> accounted cl sn c w \<Longrightarrow> accounted cl sn c w'"
  using orderly_parts(3) [of cl sn "w_ticks w" "w_ticks w'"] logged_mono [of w w' cl sn c] by (auto simp: accounted_def cursor_follows_def)

lemma seq_accounted:
  assumes "orderly cl sn" and "accounted cl sn c w" and "following.keeps cl sn m"
    and "\<And>x u. accounted cl sn c u \<Longrightarrow> cursor_follows cl sn u (snd (f x u))"
  shows "cursor_follows cl sn w (snd (seq m f w))"
proof -
  obtain r u where m: "m w = (r, u)" by fastforce
  have u: "cursor_follows cl sn w u" by (rule following.keepsD [OF assms(3) m])
  show ?thesis
  proof (cases r)
    case (Inr x)
    then show ?thesis using m follows_trans [OF u assms(4) [OF accounted_mono [OF assms(1) u assms(2)]]] by simp
  qed (use m u in simp)
qed

lemma save_page_follows:
  assumes "orderly cl sn" and "accounted cl sn (pg_cursor p) w"
  shows "cursor_follows cl sn w (snd (save_page cl sn k p w))"
  unfolding save_page_def Let_def
  by (intro seq_accounted [OF assms(1) assms(2)] seq_accounted [OF assms(1)] following.keeps_support following.keeps_rules
      following.keeps_connected save_follows [OF assms(1)]) (auto simp: accounted_def)

lemma plain_parts:
  assumes "orderly cl sn"
  shows "following.keeps cl sn (report_gap cl sn v)" and "following.keeps cl sn (terminal_poll cl sn e p ms)"
  unfolding report_gap_def terminal_poll_def
  by (intro following.keeps_rules following.keeps_support following.keeps_connected save_plain [OF assms]; simp add: empty_patch_def)+

lemma batch_follows:
  assumes "orderly cl sn" and "\<And>f p. again = Some f \<Longrightarrow> following.keeps cl sn (f p)"
  shows "following.keeps cl sn (poll_batch cl sn again p)"
proof (rule following.keepsI)
  fix w
  let ?cn = "mc_connection cl"
  let ?rpc = "rpc ?cn ''events/poll'' (poll_params ?cn sn (pg_cursor p))"
  obtain reply u where rpc: "?rpc w = (Inr reply, u)" by (simp add: rpc_def Let_def)
  have u: "cursor_follows cl sn w u" by (rule following.keepsD [OF following.keeps_requests(1) rpc]) (rule orderly_parts(1) [OF assms(1)])
  show "cursor_follows cl sn w (snd (poll_batch cl sn again p w))"
  proof (cases reply)
    case (Inl e)
    have "cursor_follows cl sn u (snd (terminal_poll cl sn e p (pt_pollIntervalMs (cn_limits ?cn)) u))"
      by (rule following.keepsD [OF plain_parts(2) [OF assms(1)] prod.collapse [symmetric]])
    then show ?thesis using follows_trans [OF u] rpc Inl by (simp add: poll_batch_def Let_def)
  next
    case (Inr v)
    have v: "cn_request ?cn (w_ticks w) ''events/poll'' (poll_params ?cn sn (pg_cursor p)) = Inr v"
      using rpc Inr by (auto simp: rpc_def Let_def split: sum.splits)
    let ?finish = "\<lambda>k i. case (kp_hasMore k, again) of (True, Some f) \<Rightarrow> f (i\<lparr>pg_batches := Suc (pg_batches i)\<rparr>)
      | _ \<Rightarrow> ret \<lparr>po_status = Poll_Ok, po_progress = i\<lparr>pg_batches := Suc (pg_batches i)\<rparr>, po_hasMore = kp_hasMore k,
          po_nextPollMs = kp_nextPollMs k\<rparr>"
    let ?page = "\<lambda>k. seq (ingest_page cl sn (kp_events k) (after_page p k)) (\<lambda>i.
      seq (save_page cl sn k (i\<lparr>pg_batches := Suc (pg_batches i)\<rparr>)) (\<lambda>_. ?finish k i))"
    have finish_keeps: "following.keeps cl sn (?finish k i)" for k i
      using assms(2) by (auto intro: following.keeps_ret split: option.split bool.split)
    have page: "cursor_follows cl sn x (snd (?page k x))" if k: "check_page (cn_connectionId ?cn) (cn_limits ?cn) v = Inr k" for k x
    proof -
      obtain r y where i: "ingest_page cl sn (kp_events k) (after_page p k) x = (r, y)" by fastforce
      have y: "cursor_follows cl sn x y" by (rule following.keepsD [OF page_keeps [OF assms(1)] i])
      show ?thesis
      proof (cases r)
        case (Inr q)
        have "accounted cl sn (pg_cursor (q\<lparr>pg_batches := Suc (pg_batches q)\<rparr>)) y"
          using ingest_page_known [OF assms(1)] i Inr v k by (fastforce simp: accounted_def page_logged_def after_page_def)
        from save_page_follows [OF assms(1) this]
        have "cursor_follows cl sn y (snd (seq (save_page cl sn k (q\<lparr>pg_batches := Suc (pg_batches q)\<rparr>)) (\<lambda>_. ?finish k q) y))"
          by (rule following.seq_at) (rule finish_keeps)
        then show ?thesis using i Inr follows_trans [OF y] by simp
      qed (use i y in simp)
    qed
    have checked: "following.keeps cl sn (seq (liftE (check_page (cn_connectionId ?cn) (cn_limits ?cn) v)) ?page)"
    proof (cases "check_page (cn_connectionId ?cn) (cn_limits ?cn) v")
      case (Inl e)
      then show ?thesis by (intro following.keepsI) (simp add: follows_same)
    next
      case (Inr k)
      then show ?thesis using page [OF Inr] by (intro following.keepsI) simp
    qed
    have rest: "following.keeps cl sn (seq (assertConnectionAttached ?cn) (\<lambda>_. seq (report_gap cl sn v) (\<lambda>_.
        seq (liftE (check_page (cn_connectionId ?cn) (cn_limits ?cn) v)) ?page)))"
      by (rule following.keeps_seq [OF following.keeps_connected(2) following.keeps_seq [OF plain_parts(1) [OF assms(1)] checked]])
    have "poll_batch cl sn again p w = seq (assertConnectionAttached ?cn) (\<lambda>_. seq (report_gap cl sn v) (\<lambda>_.
        seq (liftE (check_page (cn_connectionId ?cn) (cn_limits ?cn) v)) ?page)) u"
      using rpc Inr by (simp add: poll_batch_def Let_def)
    then show ?thesis using follows_trans [OF u following.keepsD [OF rest prod.collapse [symmetric]]] by simp
  qed
qed

lemma batches_follow: "orderly cl sn \<Longrightarrow> following.keeps cl sn (poll_batches cl sn n p)"
proof (induction n arbitrary: p)
  case (Suc n)
  show ?case unfolding poll_batches.simps by (rule batch_follows [OF Suc.prems]) (use Suc in auto)
qed (auto intro: batch_follows)

lemma poll_follows: "orderly cl sn \<Longrightarrow> following.keeps cl sn (pollSubscription cl sn suspended b)"
  unfolding pollSubscription_def Let_def
  by (intro following.keeps_rules following.keeps_connected following.keeps_support batches_follow)


subsection \<open>Gaps\<close>

definition history_missing :: "mcp_client \<Rightarrow> subscription \<Rightarrow> world \<Rightarrow> bool" where
  "history_missing cl sn w \<longleftrightarrow> has_gap (state_at cl sn w)"

definition gap_kept :: "mcp_client \<Rightarrow> subscription \<Rightarrow> world \<Rightarrow> world \<Rightarrow> bool" where
  "gap_kept cl sn w w' \<longleftrightarrow> (history_missing cl sn w \<longrightarrow> history_missing cl sn w')"

lemma gap_same: "w_mcp w' = w_mcp w \<Longrightarrow> gap_kept cl sn w w'"
  by (simp add: gap_kept_def history_missing_def state_at_def)

interpretation gaps: open_frame "gap_kept cl sn" for cl sn
  by unfold_locales (simp_all add: gap_kept_def history_missing_def state_at_def)

interpretation gap_wakes: wake_frame "gap_kept cl sn" for cl sn
  by unfold_locales (simp_all add: gap_same)

interpretation gap_session: session_frame "gap_kept cl sn" "\<lambda>co. obeys (gap_kept cl sn) (co_meanwhile co)" for cl sn
proof
  show "gaps.keeps cl sn (append_derived r)" for r
    by (auto intro!: gaps.keepsI gap_same simp: append_derived_def split: prod.splits)
  show "gap_kept cl sn w (w\<lparr>w_occurrences := l\<rparr>)" for w l by (simp add: gap_same)
qed (rule gap_wakes.keeps_deliver)

text \<open>Workers that leave gaps open; only the host closes one.\<close>

definition gap_keeping :: "mcp_client \<Rightarrow> subscription \<Rightarrow> bool" where
  "gap_keeping cl sn \<longleftrightarrow> behaved_client (gap_kept cl sn) (\<lambda>co. obeys (gap_kept cl sn) (co_meanwhile co)) cl \<and>
     cn_connectionId (mc_connection cl) \<noteq> [] \<and> sn_eventName sn \<noteq> []"

definition detached_error :: js_error where
  "detached_error = coded_error ''MCP_EVENTS_CONNECTION_DETACHED'' ''Host MCP Events connection is detached''"

definition exhausted_error :: js_error where
  "exhausted_error = plain_error ''Invalid or exhausted MCP completeness revision''"

lemma put_state_gap:
  assumes "put_mcp_state ru (state_input (mc_connection cl) (sn_eventName sn) (sn_arguments sn) i previous patch) w = (r, w')"
    and "gap_keeping cl sn"
  shows "gap_kept cl sn w w'" and "sp_truncated patch = Some True \<Longrightarrow> history_missing cl sn w' \<or> r = Inl exhausted_error"
proof -
  let ?cn = "mc_connection cl"
  let ?input = "state_input ?cn (sn_eventName sn) (sn_arguments sn) i previous patch"
  let ?t = "ts_text (ru_clock ru (w_ticks w))" and ?k = "mcpClientStateKey (cn_connectionId ?cn) (sn_eventName sn) (sn_arguments sn)"
  define old where "old = state_at cl sn w"
  define rev where "rev = (case old of None \<Rightarrow> 0 | Some p \<Rightarrow> ms_completenessRevision p)"
  define bad where "bad \<longleftrightarrow> MAX_SAFE_INTEGER < \<bar>rev\<bar> \<or> rev < 0 \<or> rev = MAX_SAFE_INTEGER"
  let ?s = "next_mcp_state ?t ?input old rev"
  have names: "cn_connectionId ?cn \<noteq> []" "sn_eventName sn \<noteq> []" using assms(2) by (auto simp: gap_keeping_def)
  have input: "mi_connectionId ?input = Some (cn_connectionId ?cn)" "mi_eventName ?input = Some (sn_eventName sn)"
    "mi_arguments ?input = sn_arguments sn" "mi_gapReconciled ?input = None"
    by (simp_all add: state_input_def)
  have put: "putMcpClientState ?t ?input (w_mcp w) = (if bad then (Inl exhausted_error, w_mcp w)
      else (Inr ?s, tab_put ?k ?s (mcp_state_line ?s) (w_mcp w)))"
    unfolding putMcpClientState_def Let_def input reconcile_error_def bad_def rev_def old_def state_at_def
    using names by (simp add: str_or_def exhausted_error_def) linarith
  have r: "r = (if bad then Inl exhausted_error else Inr ())"
    and mcp: "w_mcp w' = (if bad then w_mcp w else tab_put ?k ?s (mcp_state_line ?s) (w_mcp w))"
    using assms(1) put by (auto simp: put_mcp_state_def read_now_def split: if_splits)
  have new: "history_missing cl sn w' = (if bad then has_gap old else has_gap (Some ?s))"
    by (simp add: history_missing_def old_def state_at_def getMcpClientState_def mcp)
  have "has_gap (Some ?s)" if "has_gap old \<or> sp_truncated patch = Some True"
    using that next_mcp_state_gap(1) [of ?t ?input old rev] input(4)
    by (auto simp: has_gap_def [of "Some _"]) (simp add: state_input_def or_previous_def)
  then show "gap_kept cl sn w w'" and "sp_truncated patch = Some True \<Longrightarrow> history_missing cl sn w' \<or> r = Inl exhausted_error"
    using r by (auto simp: gap_kept_def new) (simp_all add: history_missing_def old_def)
qed

lemma gap_saves: "gap_keeping cl sn \<Longrightarrow> gap_session.saves cl sn cl sn"
proof -
  assume cl: "gap_keeping cl sn"
  then have b: "behaved_client (gap_kept cl sn) (\<lambda>co. obeys (gap_kept cl sn) (co_meanwhile co)) cl"
    by (simp add: gap_keeping_def)
  moreover have "gaps.keeps cl sn (put_mcp_state ru (state_input (mc_connection cl) (sn_eventName sn) (sn_arguments sn) i previous patch))"
    for ru i previous patch
    by (rule gaps.keepsI) (rule put_state_gap(1) [OF prod.collapse [symmetric] cl])
  ultimately show ?thesis
    unfolding gap_session.saves_def saveSubscriptionState_def Let_def
    by (auto intro!: gaps.keeps_rules gaps.keeps_connected gaps.keeps_others simp: behaved_client_def)
qed

lemma report_gap_opens:
  assumes "gap_keeping cl sn" and "own_slot v ''truncated'' = Some (Some (RBool True))" and "report_gap cl sn v w = (r, w')"
  shows "history_missing cl sn w' \<or> r = Inl detached_error \<or> r = Inl exhausted_error"
proof -
  let ?patch = "\<lambda>t. (empty_patch ''poll'')\<lparr>sp_truncated := Some True, sp_gapDetectedAt := Some (ts_text t)\<rparr>"
  obtain t u where run: "saveSubscriptionState cl sn (?patch t) u = (r, w')"
    using assms(2,3) by (auto simp: report_gap_def read_now_def)
  let ?cn = "mc_connection cl"
  let ?v = "cn_meanwhile ?cn (w_ticks u) u"
  show ?thesis
  proof (cases "cn_attached ?cn (w_ticks ?v) \<and> cn_attached ?cn (Suc (w_ticks ?v))")
    case True
    then have "put_mcp_state (mc_ru cl) (state_input ?cn (sn_eventName sn) (sn_arguments sn) (Some (sn_subscriptionId sn))
        (state_at cl sn ?v) (?patch t)) (?v\<lparr>w_ticks := Suc (Suc (w_ticks ?v))\<rparr>) = (r, w')"
      using run by (simp add: saveSubscriptionState_def Let_def seq_def others_act_def connected_run readW_def state_at_def)
    from put_state_gap(2) [OF this assms(1)] show ?thesis by auto
  next
    case False
    then have "r = Inl detached_error"
      using run by (auto simp: saveSubscriptionState_def Let_def seq_def others_act_def connected_run readW_def detached_error_def split: if_splits)
    then show ?thesis by simp
  qed
qed

text \<open>
  C9: when the provider says in a page that history is missing, the gap of the subscription is open
  after the poll, however it ends: the page may be malformed, an event may be refused, the
  connection may go. The only other ends are that the connection was gone or the counter of
  revisions was used up before the gap could be stored.
\<close>

theorem reported_gap_kept:
  assumes "gap_keeping cl sn"
    and "cn_request (mc_connection cl) (w_ticks w) ''events/poll'' (poll_params (mc_connection cl) sn (pg_cursor p)) = Inr v"
    and "own_slot v ''truncated'' = Some (Some (RBool True))"
    and "poll_batches cl sn k p w = (r, w')"
  shows "history_missing cl sn w' \<or> r = Inl detached_error \<or> r = Inl exhausted_error"
proof -
  let ?cn = "mc_connection cl"
  obtain again where again: "poll_batches cl sn k p = poll_batch cl sn again p" "\<And>f q. again = Some f \<Longrightarrow> gaps.keeps cl sn (f q)"
    by (cases k) (auto intro: gap_session.keeps_batches gap_saves [OF assms(1)])
  obtain u where u: "rpc ?cn ''events/poll'' (poll_params ?cn sn (pg_cursor p)) w = (Inr (Inr v), u)"
    using assms(2) by (simp add: rpc_def Let_def)
  have attached: "assertConnectionAttached ?cn u = (if cn_attached ?cn (w_ticks u) then Inr () else Inl detached_error,
      u\<lparr>w_ticks := Suc (w_ticks u)\<rparr>)"
    by (simp add: connected_run detached_error_def)
  obtain F where F: "gaps.keeps cl sn (F ())"
    "poll_batch cl sn again p w = seq (assertConnectionAttached ?cn) (\<lambda>_. seq (report_gap cl sn v) F) u"
  proof -
    have next_batch: "gaps.keeps cl sn (case (b, again) of (True, Some f) \<Rightarrow> f x | _ \<Rightarrow> ret y)" for b x y
      using again(2) by (auto intro: gaps.keeps_ret split: option.split bool.split)
    have page: "gaps.keeps cl sn (ingest_page cl sn vs q)" for vs q
      by (rule gap_session.keeps_ingest_page [OF gap_session.savesD(1) [OF gap_saves [OF assms(1)]]])
    show ?thesis
    proof (rule that)
      show "poll_batch cl sn again p w = seq (assertConnectionAttached ?cn) (\<lambda>_. seq (report_gap cl sn v) (\<lambda>_.
          seq (liftE (check_page (cn_connectionId ?cn) (cn_limits ?cn) v)) (\<lambda>k.
          seq (ingest_page cl sn (kp_events k) (after_page p k)) (\<lambda>ingested.
          let p' = ingested\<lparr>pg_batches := pg_batches ingested + 1\<rparr> in
          seq (save_page cl sn k p') (\<lambda>_. case (kp_hasMore k, again) of
            (True, Some f) \<Rightarrow> f p'
          | _ \<Rightarrow> ret \<lparr>po_status = Poll_Ok, po_progress = p', po_hasMore = kp_hasMore k, po_nextPollMs = kp_nextPollMs k\<rparr>))))) u"
        using u by (simp add: poll_batch_def Let_def)
    qed (unfold save_page_def Let_def, intro gaps.keeps_seq gaps.keeps_if gaps.keeps_connected gaps.keeps_support gaps.keeps_ret
      gaps.keeps_liftE page next_batch gap_session.savesD(2) [OF gap_saves [OF assms(1)]])
  qed
  show ?thesis
  proof (cases "cn_attached ?cn (w_ticks u)")
    case True
    let ?x = "u\<lparr>w_ticks := Suc (w_ticks u)\<rparr>"
    have run: "seq (report_gap cl sn v) F ?x = (r, w')" using F(2) again(1) assms(4) True attached by simp
    obtain q y where q: "report_gap cl sn v ?x = (q, y)" by fastforce
    have opened: "history_missing cl sn y \<or> q = Inl detached_error \<or> q = Inl exhausted_error"
      by (rule report_gap_opens [OF assms(1,3) q])
    show ?thesis
    proof (cases q)
      case (Inr z)
      then show ?thesis using run q opened gaps.keepsD [OF F(1), of y r w'] by (auto simp: gap_kept_def)
    qed (use run q opened in auto)
  qed (use F(2) again(1) assms(4) attached in auto)
qed

subsection \<open>Limits\<close>

lemma bound_events_length: "bound_events l first bytes es = Inr vs \<Longrightarrow> length vs = length es \<and>
    list_all (\<lambda>v. decoded_bytes v \<le> pt_maxOccurrenceBytes l) vs"
proof (induction l first bytes es arbitrary: vs rule: bound_events.induct)
  case (3 l first bytes v es)
  then show ?case
    by (auto simp: seqE_def Let_def assertDecodedMcpBytes_def split: sum.splits if_splits)
qed auto

lemma check_page_events:
  assumes "check_page c l v = Inr k"
  shows "length (kp_events k) \<le> pt_maxEvents l" and "list_all (\<lambda>v. decoded_bytes v \<le> pt_maxOccurrenceBytes l) (kp_events k)"
proof -
  obtain e where "page_events c l e = Inr (kp_events k)"
    using assms by (auto simp: check_page_def seqE_def Let_def split: sum.splits if_splits)
  then obtain es where es: "length es \<le> pt_maxEvents l" "bound_events l True 2 es = Inr (kp_events k)"
    by (auto simp: page_events_def not_less split: raw.splits if_splits)
  from bound_events_length [OF es(2)] show "length (kp_events k) \<le> pt_maxEvents l"
    "list_all (\<lambda>v. decoded_bytes v \<le> pt_maxOccurrenceBytes l) (kp_events k)" using es(1) by simp_all
qed

lemma ingest_page_counts:
  "ingest_page cl sn vs p w = (Inr p', w') \<Longrightarrow> pg_accepted p' \<le> pg_accepted p + length vs \<and> pg_batches p' = pg_batches p"
proof (induction vs arbitrary: p w)
  case (Cons v vs)
  then obtain x u q where "ingest_page cl sn vs q u = (Inr p', w')" "pg_accepted q \<le> pg_accepted p + 1" "pg_batches q = pg_batches p"
    by (fastforce simp: seq_eq_Inr_iff split: option.splits)
  from Cons.IH [OF this(1)] show ?case using \<open>pg_accepted q \<le> pg_accepted p + 1\<close> \<open>pg_batches q = pg_batches p\<close> by simp
qed (simp add: ret_def)

definition in_budget :: "poll_limits \<Rightarrow> nat \<Rightarrow> poll_progress \<Rightarrow> poll_progress \<Rightarrow> bool" where
  "in_budget l n p q \<longleftrightarrow> pg_batches p \<le> pg_batches q \<and> pg_batches q \<le> pg_batches p + n \<and>
     pg_accepted q \<le> pg_accepted p + (pg_batches q - pg_batches p) * pt_maxEvents l"

lemma in_budget_trans: "in_budget l m p q \<Longrightarrow> in_budget l n q r \<Longrightarrow> in_budget l (m + n) p r"
proof -
  assume 1: "in_budget l m p q" and 2: "in_budget l n q r"
  then have "pg_batches r - pg_batches p = (pg_batches q - pg_batches p) + (pg_batches r - pg_batches q)" by (simp add: in_budget_def)
  then have "(pg_batches r - pg_batches p) * pt_maxEvents l =
      (pg_batches q - pg_batches p) * pt_maxEvents l + (pg_batches r - pg_batches q) * pt_maxEvents l" by (simp add: add_mult_distrib)
  with 1 2 show ?thesis by (simp add: in_budget_def)
qed

lemma batch_within:
  assumes "poll_batch cl sn again p w = (Inr out, w')"
    and "\<And>f q u. again = Some f \<Longrightarrow> f q u = (Inr out, w') \<Longrightarrow> in_budget (cn_limits (mc_connection cl)) n q (po_progress out)"
  shows "in_budget (cn_limits (mc_connection cl)) (Suc n) p (po_progress out)"
proof -
  let ?l = "cn_limits (mc_connection cl)" and ?cn = "mc_connection cl"
  obtain reply u where rpc: "rpc ?cn ''events/poll'' (poll_params ?cn sn (pg_cursor p)) w = (Inr reply, u)" by (simp add: rpc_def Let_def)
  show ?thesis
  proof (cases reply)
    case (Inl e)
    then have "po_progress out = p"
      using assms(1) rpc by (auto simp: poll_batch_def Let_def terminal_poll_def seq_eq_Inr_iff throw_def ret_def split: option.splits)
    then show ?thesis by (simp add: in_budget_def)
  next
    case (Inr v)
    then obtain k i x y where k: "check_page (cn_connectionId ?cn) ?l v = Inr k"
      and i: "ingest_page cl sn (kp_events k) (after_page p k) x = (Inr i, y)"
      and last: "po_progress out = i\<lparr>pg_batches := Suc (pg_batches i)\<rparr> \<or>
        (\<exists>f z. again = Some f \<and> f (i\<lparr>pg_batches := Suc (pg_batches i)\<rparr>) z = (Inr out, w'))"
      using assms(1) rpc
      by (auto simp: poll_batch_def Let_def seq_eq_Inr_iff ret_def split: bool.splits option.splits; blast)
    have first: "in_budget ?l 1 p (i\<lparr>pg_batches := Suc (pg_batches i)\<rparr>)"
      using ingest_page_counts [OF i] check_page_events(1) [OF k] by (auto simp: in_budget_def after_page_def)
    from last show ?thesis
    proof
      assume "po_progress out = i\<lparr>pg_batches := Suc (pg_batches i)\<rparr>"
      then show ?thesis using first by (simp add: in_budget_def)
    qed (use assms(2) in_budget_trans [OF first] in auto)
  qed
qed

lemma batches_within: "poll_batches cl sn k p w = (Inr out, w') \<Longrightarrow> in_budget (cn_limits (mc_connection cl)) (Suc k) p (po_progress out)"
proof (induction k arbitrary: p w)
  case (Suc k)
  then show ?case by (auto intro: batch_within)
qed (auto intro: batch_within)

text \<open>
  A poll asks for at most as many batches as the connection allows, and accepts at most
  \<open>maxEvents\<close> events for each of them, whatever the provider sends.
\<close>

theorem poll_bounded:
  assumes "pollSubscription cl sn suspended b w = (Inr out, w')"
  shows "pg_batches (po_progress out) \<le> max 1 (cn_maxPollBatches (mc_connection cl)) \<and>
    pg_accepted (po_progress out) \<le> pg_batches (po_progress out) * pt_maxEvents (cn_limits (mc_connection cl))"
proof -
  let ?l = "cn_limits (mc_connection cl)" and ?n = "cn_maxPollBatches (mc_connection cl)"
  let ?fine = "\<lambda>out. pg_batches (po_progress out) \<le> max 1 ?n \<and> pg_accepted (po_progress out) \<le> pg_batches (po_progress out) * pt_maxEvents ?l"
  have "yields (poll_batches cl sn (?n - 1) \<lparr>pg_cursor = c, pg_lastEventAt = t, pg_accepted = 0, pg_batches = 0, pg_truncated = False\<rparr>) ?fine" for c t
    using batches_within by (fastforce simp: yields_def in_budget_def)
  then have "yields (pollSubscription cl sn suspended b) ?fine"
    unfolding pollSubscription_def Let_def
    by (cases suspended) (auto intro!: yields_seq_any yields_if yields_ret)
  then show ?thesis using assms by (auto simp: yields_def)
qed

subsection \<open>Discovery\<close>

definition usable_descriptor :: "event_descriptor \<Rightarrow> bool" where
  "usable_descriptor d \<longleftrightarrow> ed_name d \<noteq> [] \<and> ed_delivery d \<noteq> [] \<and> set (ed_delivery d) \<subseteq> set delivery_modes"

definition sound_discovery :: "nat \<Rightarrow> event_descriptor list \<Rightarrow> bool" where
  "sound_discovery n ds \<longleftrightarrow> length ds \<le> n \<and> distinct (map ed_name ds) \<and> list_all usable_descriptor ds"

lemma source_descriptor_usable: "sourceDescriptor v = Inr d \<Longrightarrow> usable_descriptor d"
proof -
  have known: "set xs \<subseteq> A \<longleftrightarrow> \<not> list_ex (\<lambda>m. m \<notin> A) xs" for xs and A :: "string set" by (auto simp: list_ex_iff)
  show "sourceDescriptor v = Inr d \<Longrightarrow> usable_descriptor d"
    by (cases v) (auto simp: sourceDescriptor_def usable_descriptor_def Let_def known split: if_splits)
qed

lemma add_descriptors_sound:
  "add_descriptors vs ds = Inr es \<Longrightarrow> sound_discovery n ds \<Longrightarrow> sound_discovery (n + length vs) es"
proof (induction vs ds arbitrary: n rule: add_descriptors.induct)
  case (2 v vs ds)
  then obtain d where d: "sourceDescriptor v = Inr d" "ed_name d \<notin> set (map ed_name ds)" "add_descriptors vs (ds @ [d]) = Inr es"
    by (auto split: sum.splits if_splits)
  then have "sound_discovery (Suc n) (ds @ [d])"
    using 2(3) source_descriptor_usable [OF d(1)] by (auto simp: sound_discovery_def)
  from "2.IH" [OF d(1) _ d(3) this] d(2) show ?case by simp
qed simp

lemma stage_all_length: "stage_all i es = Inr ds \<Longrightarrow> length ds = length es"
  by (induction i es arbitrary: ds rule: stage_all.induct) (auto split: sum.splits)

lemma list_page_sound:
  assumes "list_page c m v seen ds = Inr (cursor, es)" and "sound_discovery MAX_MCP_EVENT_DISCOVERY_SOURCES ds"
  shows "sound_discovery MAX_MCP_EVENT_DISCOVERY_SOURCES es"
proof -
  obtain rs where few: "\<not> MAX_MCP_EVENT_DISCOVERY_SOURCES - length ds < length rs" and "stage_page m rs ds = Inr es"
    using assms(1) by (auto simp: list_page_def seqE_def split: sum.splits if_splits)
  then obtain staged i safe where staged: "stage_all i rs = Inr staged" "snapshotUntrustedEventData (RArr (Suc i) staged) = Inr safe"
    and added: "(case safe of JArr vs \<Rightarrow> add_descriptors vs ds | _ \<Rightarrow> Inr ds) = Inr es"
    by (auto simp: stage_page_def Let_def split: sum.splits)
  from staged(2) obtain vs where vs: "safe = JArr vs" "read_elements (map (map_option plain_reading) staged) [Suc i] = Some vs"
    by (auto simp: snapshot_reading)
  have "length vs = length rs" using read_elements_length [OF vs(2)] stage_all_length [OF staged(1)] by simp
  moreover have "sound_discovery (length ds) ds" using assms(2) by (simp add: sound_discovery_def)
  then have "sound_discovery (length ds + length vs) es" using add_descriptors_sound added vs(1) by simp
  ultimately show ?thesis using few assms(2) by (auto simp: sound_discovery_def)
qed

lemma discover_pages_sound:
  "sound_discovery MAX_MCP_EVENT_DISCOVERY_SOURCES ds \<Longrightarrow>
   yields (discover_pages cn k cursor seen ds) (sound_discovery MAX_MCP_EVENT_DISCOVERY_SOURCES)"
proof (induction k arbitrary: cursor seen ds)
  case (Suc k)
  have "yields (case cursor' of None \<Rightarrow> ret ds' | Some c \<Rightarrow> discover_pages cn k (Some c) (c # seen) ds')
      (sound_discovery MAX_MCP_EVENT_DISCOVERY_SOURCES)"
    if "list_page (cn_connectionId cn) (cn_maxDiscoveryBytes cn) v seen ds = Inr (cursor', ds')" for v cursor' ds'
    using list_page_sound [OF that Suc.prems] Suc.IH by (cases cursor') (auto intro: yields_ret)
  then have "yields (seq (liftE (list_page (cn_connectionId cn) (cn_maxDiscoveryBytes cn) v seen ds))
      (\<lambda>(cursor', ds'). case cursor' of None \<Rightarrow> ret ds' | Some c \<Rightarrow> discover_pages cn k (Some c) (c # seen) ds'))
      (sound_discovery MAX_MCP_EVENT_DISCOVERY_SOURCES)" for v
    by (intro yields_seq [OF yields_liftE [of _ "\<lambda>x. x = the (Some x) \<and> list_page (cn_connectionId cn) (cn_maxDiscoveryBytes cn) v seen ds = Inr x"]])
      auto
  then show ?case
    unfolding discover_pages.simps
    by (intro yields_seq_any) (auto intro: yields_throw yields_seq_any split: sum.split)
qed (simp add: yields_throw)

text \<open>
  C10: what a discovery returns is bounded and unambiguous whatever the provider sends: at most 256
  event sources, no two of the same name, each with a name and with ways of delivery that the
  profile knows.
\<close>

theorem discovery_bounded:
  assumes "discoverConnection cl w = (Inr ds, w')"
  shows "length ds \<le> 256 \<and> distinct (map ed_name ds) \<and>
    list_all (\<lambda>d. ed_name d \<noteq> [] \<and> ed_delivery d \<noteq> [] \<and> set (ed_delivery d) \<subseteq> set delivery_modes) ds"
proof -
  have pages: "yields (discover_pages (mc_connection cl) MAX_MCP_EVENT_DISCOVERY_PAGES None [] []) (sound_discovery MAX_MCP_EVENT_DISCOVERY_SOURCES)"
    by (rule discover_pages_sound) (simp add: sound_discovery_def)
  have all: "yields (seq (discover_pages (mc_connection cl) MAX_MCP_EVENT_DISCOVERY_PAGES None [] []) (\<lambda>ds.
      seq (f ds) (\<lambda>_. seq (g ds) (\<lambda>_. ret ds)))) (sound_discovery MAX_MCP_EVENT_DISCOVERY_SOURCES)" for f g
    by (rule yields_seq [OF pages]) (intro yields_seq_any yields_ret)
  have "yields (discoverConnection cl) (sound_discovery MAX_MCP_EVENT_DISCOVERY_SOURCES)"
    unfolding discoverConnection_def Let_def
    by (intro yields_seq_any) (auto intro: yields_throw all split: option.split)
  from yieldsD [OF this assms] show ?thesis
    by (simp add: sound_discovery_def MAX_MCP_EVENT_DISCOVERY_SOURCES_def usable_descriptor_def list_all_iff)
qed

end
