(* ===== verification/Mcp_Sessions.thy ===== *)
theory Mcp_Sessions
  imports Mcp_Manager Mcp_Laws
begin

text \<open>
  What the manager of a connection promises: the subscriptions are exactly those that the active
  triggers need, a connection that the provider has forbidden is not polled again, and the end of a
  connection disables its sources.
\<close>

subsection \<open>Subscriptions\<close>

definition covers_ref :: "subscription list \<Rightarrow> string \<Rightarrow> string \<Rightarrow> bool" where
  "covers_ref ts i r \<longleftrightarrow> (\<exists>t \<in> set ts. sn_subscriptionId t = i \<and> r \<in> set (sn_consumerRefs t))"

lemma want_covers_ref: "covers_ref (want s ts) i r \<longleftrightarrow> covers_ref ts i r \<or> covers_ref [s] i r"
  by (induction ts) (auto simp: covers_ref_def)

lemma want_all_covers_ref: "covers_ref (fold want xs ts) i r \<longleftrightarrow> covers_ref ts i r \<or> covers_ref xs i r"
proof (induction xs arbitrary: ts)
  case (Cons x xs)
  have "covers_ref (x # xs) i r \<longleftrightarrow> covers_ref [x] i r \<or> covers_ref xs i r" by (auto simp: covers_ref_def)
  then show ?case by (simp add: Cons.IH want_covers_ref)
qed (simp add: covers_ref_def)

lemma concat_covers_ref: "covers_ref (concat xss) i r \<longleftrightarrow> (\<exists>xs \<in> set xss. covers_ref xs i r)"
  by (auto simp: covers_ref_def)

lemma if_covers_ref: "covers_ref (if b then xs else ys) i r \<longleftrightarrow> (if b then covers_ref xs i r else covers_ref ys i r)"
  and no_covers_ref: "\<not> covers_ref [] i r"
  by (simp_all add: covers_ref_def)

lemma want_ids: "map sn_subscriptionId (want s ts) =
    (if sn_subscriptionId s \<in> set (map sn_subscriptionId ts) then map sn_subscriptionId ts
     else map sn_subscriptionId ts @ [sn_subscriptionId s])"
  by (induction ts) auto

lemma want_all_distinct: "distinct (map sn_subscriptionId ts) \<Longrightarrow> distinct (map sn_subscriptionId (fold want xs ts))"
proof (induction xs arbitrary: ts)
  case (Cons x xs)
  then have "distinct (map sn_subscriptionId (want x ts))" by (simp add: want_ids)
  from Cons.IH [OF this] show ?case by simp
qed simp

text \<open>A trigger needs the subscription \<open>i\<close>; \<open>r\<close> names the clause.\<close>

definition needs :: "mcp_connection \<Rightarrow> runtime \<Rightarrow> event_descriptor list \<Rightarrow> world \<Rightarrow> string \<Rightarrow> string \<Rightarrow> bool" where
  "needs cn ru ds w i r \<longleftrightarrow> (\<exists>d s c. (d, s) \<in> set (listOwnedTriggers None w) \<and> ts_status s = Active \<and> c \<in> set (td_clauses d) \<and>
     clause_serverId c = Some (cn_serverId cn) \<and> clause_event c \<in> ed_name ` set ds \<and>
     i = eventSubscriptionId ru (cn_connectionId cn) (clause_event c) (clause_arguments c) \<and>
     r = td_triggerId d @ ''@'' @ td_version d @ '':'' @ clause_id c)"

lemma wanted_covers_ref: "covers_ref (wanted_clauses cn ru ds d) i r \<longleftrightarrow> (\<exists>c \<in> set (td_clauses d).
    clause_serverId c = Some (cn_serverId cn) \<and> clause_event c \<in> ed_name ` set ds \<and>
    i = eventSubscriptionId ru (cn_connectionId cn) (clause_event c) (clause_arguments c) \<and>
    r = td_triggerId d @ ''@'' @ td_version d @ '':'' @ clause_id c)"
proof -
  have "find (\<lambda>e. ed_name e = n) ds = None \<longleftrightarrow> n \<notin> ed_name ` set ds" for n by (auto simp: find_None_iff)
  then have known: "n \<in> ed_name ` set ds \<longleftrightarrow> (\<exists>e. find (\<lambda>e. ed_name e = n) ds = Some e)" for n by (metis not_Some_eq)
  have one: "covers_ref (case find (\<lambda>e. ed_name e = clause_event c) ds of None \<Rightarrow> []
      | Some e \<Rightarrow> [\<lparr>sn_subscriptionId = j, sn_eventName = n, sn_arguments = a, sn_descriptor = e, sn_consumerRefs = [q]\<rparr>]) i r \<longleftrightarrow>
      clause_event c \<in> ed_name ` set ds \<and> i = j \<and> r = q" for c j n a q
    unfolding known by (cases "find (\<lambda>e. ed_name e = clause_event c) ds") (auto simp: covers_ref_def)
  have mapped: "(\<exists>xs \<in> set (map f L). P xs) \<longleftrightarrow> (\<exists>c \<in> set L. P (f c))"
    for f :: "trigger_clause \<Rightarrow> subscription list" and L P by simp
  show ?thesis unfolding wanted_clauses_def concat_covers_ref mapped if_covers_ref one by (auto simp: no_covers_ref)
qed


subsection \<open>A connection that the provider has forbidden\<close>

definition stays_forbidden :: "manager \<times> world \<Rightarrow> manager \<times> world \<Rightarrow> bool" where
  "stays_forbidden gw gw' \<longleftrightarrow> (mg_terminal (fst gw) \<longrightarrow> mg_terminal (fst gw'))"

lemma forbidden_order: "reflp stays_forbidden" "transp stays_forbidden"
  by (auto simp: stays_forbidden_def reflp_def transp_def)

lemma forbidden_store: "stable stays_forbidden (on_store m)" and forbidden_recall: "stable stays_forbidden (recall f)"
  by (auto intro!: stableI simp: on_store_def recall_def stays_forbidden_def split: prod.splits)

lemma forbidden_remember: "(\<And>g. mg_terminal g \<Longrightarrow> mg_terminal (f g)) \<Longrightarrow> stable stays_forbidden (remember f)"
  by (auto intro!: stableI simp: remember_def stays_forbidden_def modS_def split: prod.splits)

lemmas forbidden_rules = stable_ret [OF forbidden_order(1)] stable_throw [OF forbidden_order(1)]
  stable_seq [OF forbidden_order(2)] forbidden_store forbidden_recall

lemma forbidden_close: "stable stays_forbidden (closeSession cn i)"
  unfolding closeSession_def by (auto intro!: forbidden_rules forbidden_remember split: option.split)

lemma forbidden_ensure: "stable stays_forbidden (ensureDeliverySession cl tr sn delivery)"
  unfolding ensureDeliverySession_def Let_def by (auto intro!: forbidden_rules forbidden_remember forbidden_close)

lemma forbidden_managed: "stable stays_forbidden (poll_managed cl sn b)"
  unfolding poll_managed_def Let_def
  by (auto intro!: forbidden_rules forbidden_remember split: poll_status.split terminal_error.split)

lemma forbidden_one: "stable stays_forbidden (poll_one cl tr b sn)"
  unfolding poll_one_def Let_def by (auto intro!: forbidden_rules forbidden_close forbidden_ensure forbidden_managed split: option.split)

lemma forbidden_each: "stable stays_forbidden (poll_each cl tr b sns)"
  by (induction sns) (unfold poll_each.simps, (intro forbidden_rules forbidden_one; assumption)+)

lemma forbidden_reconcile: "stable stays_forbidden (reconcileDeliverySessions cn ids)"
proof -
  have "stable stays_forbidden (close_each cn is)" for "is"
    by (induction "is") (unfold close_each.simps, (intro forbidden_rules forbidden_close; assumption)+)
  then show ?thesis unfolding reconcileDeliverySessions_def by (auto intro!: forbidden_rules)
qed

definition reports_forbidden :: "poll_result \<Rightarrow> bool" where
  "reports_forbidden r \<longleftrightarrow> r = Connection_Forbidden \<or> (\<exists>i out. r = Polled i out \<and> po_status out = Poll_Terminal Forbidden)"

lemma managed_forbidden:
  assumes "poll_managed cl sn b gw = (Inr out, gw')" and "po_status out = Poll_Terminal Forbidden"
  shows "mg_terminal (fst gw')"
  using assms by (cases gw) (auto simp: poll_managed_def Let_def seq_eq_Inr_iff remember_def modS_def split: prod.splits)

lemma one_forbidden:
  assumes "poll_one cl tr b sn gw = (Inr r, gw')" and "reports_forbidden r"
  shows "mg_terminal (fst gw')"
  using assms managed_forbidden
  by (auto simp: poll_one_def Let_def seq_eq_Inr_iff recall_def reports_forbidden_def split: option.splits if_splits prod.splits)

lemma each_forbidden:
  "poll_each cl tr b sns gw = (Inr rs, gw') \<Longrightarrow> list_ex reports_forbidden rs \<Longrightarrow> mg_terminal (fst gw')"
proof (induction sns arbitrary: gw rs)
  case (Cons sn sns)
  then obtain r u ss where r: "poll_one cl tr b sn gw = (Inr r, u)" "poll_each cl tr b sns u = (Inr ss, gw')" "rs = r # ss"
    by (auto simp: seq_eq_Inr_iff)
  then have "stays_forbidden u gw'" using stableD [OF forbidden_each] by blast
  then show ?case using one_forbidden [OF r(1)] Cons.IH [OF r(2)] Cons.prems(2) r(3) by (auto simp: stays_forbidden_def)
qed simp

lemma forbidden_silent:
  "mg_terminal g \<Longrightarrow> snd (pollConnectionOnce cl tr b (g, w)) = (g, w\<lparr>w_ticks := Suc (w_ticks w)\<rparr>)"
  by (auto simp: pollConnectionOnce_def Let_def seq_def on_store_def recall_def connected_run)

text \<open>
  Once a poll has reported that the provider forbids the connection, it is not polled again: whatever
  happens to the store in between, the next poll sends no request, writes nothing and leaves the
  manager as it is.
\<close>

theorem forbidden_final:
  assumes "pollConnectionOnce cl tr b gw = (Inr rs, gw')" and "list_ex reports_forbidden rs"
  shows "snd (pollConnectionOnce cl tr b' (fst gw', v)) = (fst gw', v\<lparr>w_ticks := Suc (w_ticks v)\<rparr>)"
proof (rule forbidden_silent)
  let ?cn = "mc_connection cl"
  obtain u where u: "on_store (assertConnectionAttached ?cn) gw = (Inr (), u)" and same: "fst u = fst gw"
    using assms(1) by (cases gw) (auto simp: pollConnectionOnce_def Let_def seq_eq_Inr_iff on_store_def connected_run split: if_splits)
  show "mg_terminal (fst gw')"
  proof (cases "mg_terminal (fst u)")
    case True
    then show ?thesis
      using assms(1) u by (cases u) (auto simp: pollConnectionOnce_def Let_def seq_eq_Inr_iff recall_def)
  next
    case False
    then obtain ids sns v1 v2 v3 where "poll_each cl tr b sns v1 = (Inr rs, v2)"
      and "on_store (assertConnectionAttached ?cn) v2 = (Inr (), v3)" and "reconcileDeliverySessions ?cn ids v3 = (Inr (), gw')"
      using assms(1) u by (cases u) (auto simp: pollConnectionOnce_def Let_def seq_eq_Inr_iff recall_def)
    then show ?thesis
      using each_forbidden [OF _ assms(2)] stableD [OF forbidden_store] stableD [OF forbidden_reconcile]
      by (metis stays_forbidden_def)
  qed
qed

subsection \<open>The end of a connection\<close>

definition same_sources :: "world \<Rightarrow> world \<Rightarrow> bool" where
  "same_sources w w' \<longleftrightarrow> w_sources w' = w_sources w"

interpretation same_sources: base_frame same_sources
  by unfold_locales (simp_all add: same_sources_def)

lemma register_disabled:
  assumes "registerEventSource ru (disabled_input s) (Some client_actor) w = (Inr x, w')" and "clock_runs ru"
    and "event_sources.durable (w_sources w)"
  obtains s' where "event_sources.durable (w_sources w')" and "tab_get (w_sources w') = (tab_get (w_sources w))(es_sourceId s \<mapsto> s')"
    and "\<not> es_enabled s'"
proof -
  let ?now = "ts_text (ru_clock ru (w_ticks w))"
  let ?s' = "source_of (disabled_input s) ?now"
  have id: "es_sourceId ?s' = es_sourceId s" "\<not> es_enabled ?s'"
    by (simp_all add: source_of_def Let_def disabled_input_def to_source_line_def)
  obtain y u z v where put: "put_source ru (disabled_input s) w = (Inr y, u)" and audit: "audit_control ru ''event_source.registered''
      ''event_source'' (es_sourceId y) (''event-source:'' @ es_sourceId y) z u = (Inr v, w')"
    using assms(1) by (auto simp: registerEventSource_def seq_eq_Inr_iff)
  have kept: "w_sources w' = w_sources u" using same_sources.keepsD [OF same_sources.keeps_audit_control(1) audit] by (simp add: same_sources_def)
  have u: "putEventSource (disabled_input s) ?now (w_sources w) = (Inr y, w_sources u)"
    using put by (auto simp: put_source_def seq_def read_now_def split: prod.splits)
  have "event_sources.durable (w_sources u)"
    using put_source_durable [OF assms(3) _ u] assms(2) by (simp add: clock_runs_def)
  moreover have "w_sources u = tab_put (es_sourceId s) ?s' (to_source_line ?s') (w_sources w)"
    using u id(1) by (auto simp: putEventSource_def Let_def split: if_splits)
  then have "tab_get (w_sources u) = (tab_get (w_sources w))(es_sourceId s \<mapsto> ?s')" by simp
  ultimately show ?thesis using that [of ?s'] id(2) kept by simp
qed

lemma disable_each:
  assumes "clock_runs ru"
  shows "each (disable_source ru) ss w = (Inr x, w') \<Longrightarrow> event_sources.durable (w_sources w) \<Longrightarrow>
    \<forall>k s. tab_get (w_sources w) k = Some s \<and> es_connectionId s = c \<and> es_enabled s \<longrightarrow> s \<in> set ss \<Longrightarrow>
    event_sources.durable (w_sources w') \<and> (\<forall>k s. tab_get (w_sources w') k = Some s \<and> es_connectionId s = c \<longrightarrow> \<not> es_enabled s)"
proof (induction ss arbitrary: w)
  case (Cons s ss)
  then obtain y u where step: "disable_source ru s w = (Inr y, u)" and rest: "each (disable_source ru) ss u = (Inr x, w')"
    by (auto simp: seq_eq_Inr_iff)
  show ?case
  proof (cases "es_enabled s")
    case False
    then have "u = w" using step by (simp add: disable_source_def)
    then show ?thesis using Cons.IH [OF rest] Cons.prems(2,3) False by fastforce
  next
    case True
    then obtain z where "registerEventSource ru (disabled_input s) (Some client_actor) w = (Inr z, u)"
      using step by (auto simp: disable_source_def seq_eq_Inr_iff)
    from register_disabled [OF this assms Cons.prems(2)] obtain s' where
      u: "event_sources.durable (w_sources u)" "tab_get (w_sources u) = (tab_get (w_sources w))(es_sourceId s \<mapsto> s')" "\<not> es_enabled s'"
      by blast
    have key: "k = es_sourceId s" if "tab_get (w_sources w) k = Some s" for k
      using event_sources.durable_get [OF Cons.prems(2) that] by blast
    have "\<forall>k a. tab_get (w_sources u) k = Some a \<and> es_connectionId a = c \<and> es_enabled a \<longrightarrow> a \<in> set ss"
    proof (intro allI impI)
      fix k a
      assume a: "tab_get (w_sources u) k = Some a \<and> es_connectionId a = c \<and> es_enabled a"
      then have k: "k \<noteq> es_sourceId s" using u(2,3) by auto
      then have old: "tab_get (w_sources w) k = Some a" using a u(2) by simp
      then have "a \<noteq> s" using key k by blast
      then show "a \<in> set ss" using Cons.prems(3) old a by auto
    qed
    from Cons.IH [OF rest u(1) this] show ?thesis .
  qed
qed auto

definition sources_durable :: "world \<Rightarrow> world \<Rightarrow> bool" where
  "sources_durable w w' \<longleftrightarrow> (event_sources.durable (w_sources w) \<longrightarrow> event_sources.durable (w_sources w'))"


end
