(* ===== verification/Control_Samples.thy ===== *)
theory Control_Samples
  imports Control_Laws Wake_Progress
begin

text \<open>A source, a trigger on it that is created, replaced and deleted, and a stranger who may do none of this.\<close>

definition offered_clause :: trigger_clause where
  "offered_clause = (plain_clause ''a'')\<lparr>clause_serverId := Some ''s''\<rparr>"

definition offered_trigger :: "string \<Rightarrow> trigger_definition" where
  "offered_trigger v = sample_trigger\<lparr>td_version := v, td_clauses := [offered_clause],
     td_pattern := (td_pattern sample_trigger)\<lparr>pat_root := EventN ''a'', pat_partitionBy := []\<rparr>, td_derivedEvent := None\<rparr>"

definition offered_source :: source_input where
  "offered_source = \<lparr>si_sourceId = Some ''x'', si_connectionId = Some ''c'', si_serverId = Some ''s'', si_eventName = Some ''a.event'',
     si_description = None, si_delivery = None, si_inputSchema = None, si_payloadSchema = None, si_enabled = None,
     si_experimental = None, si_metadata = None, si_updatedAt = None\<rparr>"

definition control_person :: "string \<Rightarrow> json" where
  "control_person i = JObj [(''type'', JStr ''human''), (''principal_id'', JStr i)]"

definition control_request :: "string \<Rightarrow> trigger_request" where
  "control_request i = \<lparr>rq_actor = Some (control_person i), rq_owner = Some (control_person i), rq_confirmationId = None,
     rq_connectionIds = Some [''c'']\<rparr>"

definition small_control :: control_plane where
  "small_control = constructControlPlane sample_engine ''w'' 0"

definition offered_world :: world where
  "offered_world = empty_world\<lparr>w_sources := snd (putEventSource offered_source ''now'' empty_table)\<rparr>"

lemma succeeds: "case x of (Inr r, w) \<Rightarrow> True | (Inl e, w) \<Rightarrow> False \<Longrightarrow> \<exists>r. x = (Inr r, snd x)"
  by (cases x) (simp split: sum.splits)

lemma offered_created: "\<exists>r. createTrigger small_control (offered_trigger ''1'') (control_request ''u'') offered_world =
     (Inr r, snd (createTrigger small_control (offered_trigger ''1'') (control_request ''u'') offered_world))"
  by (rule succeeds) code_simp

lemma created_trigger_served_witness:
  "\<exists>d. getTrigger (w_triggers (snd (createTrigger small_control (offered_trigger ''1'') (control_request ''u'') offered_world)))
     (td_triggerId d) (td_version d) = Some d"
proof -
  obtain r where "createTrigger small_control (offered_trigger ''1'') (control_request ''u'') offered_world =
     (Inr r, snd (createTrigger small_control (offered_trigger ''1'') (control_request ''u'') offered_world))"
    using offered_created by blast
  from created_trigger_served [OF this] show ?thesis by (auto simp: Let_def)
qed

definition installed_world :: world where
  "installed_world = empty_world\<lparr>w_sources := snd (putEventSource offered_source ''now'' empty_table),
     w_triggers := tab_put (key_of_trigger (offered_trigger ''1'')) (offered_trigger ''1'') (offered_trigger ''1'') empty_table,
     w_states := snd (setTriggerState ''t'' ''1'' Active None \<lparr>md_owner = Some (control_person ''u''),
       md_connectionIds = Some [''c''], md_fireCount = None, md_lastFiredAt = None\<rparr> ''now'' empty_table)\<rparr>"


text \<open>The steps of an update; the audit log takes its first record.\<close>

lemma first_record: "input_ok i \<Longrightarrow> \<exists>x c. append_audit sample_host sample_sha i [] = (Inr x, c)"
proof -
  assume i: "input_ok i"
  have r: "ready (1 + 0) empty_world"
    using empty_deadlines by (simp add: ready_def getTrigger_def) (simp add: empty_world_def MAX_SAFE_INTEGER_def empty_table_def tab_get_def)
  then show ?thesis
    using worksD [OF works_audit [OF sample_ready(2) i] r]
    by (auto simp: appendAudit_def sample_runtime_def empty_world_def split: prod.splits)
qed

lemma control_record_first:
  assumes "w_audit w = []" and "k \<in> set AUDIT_KINDS" and "et \<in> set ENTITY_TYPES" and "audit_id i" and "audit_id trace"
  shows "\<exists>w'. audit_control sample_runtime k et i trace ds w = (Inr (), w')"
proof -
  have "audit_id (hash_id sample_runtime ''audit_'' s)" for s by (rule hash_id_ok) simp_all
  then have "input_ok \<lparr>ai_auditId = hash_id sample_runtime ''audit_'' s, ai_traceId = trace, ai_timestamp = t,
      ai_kind = k, ai_entityType = et, ai_entityId = i, ai_fromState = None, ai_toState = None, ai_details = d\<rparr>" for s t d
    using assms(2-5) by (simp add: input_ok_def)
  note made = first_record [OF this]
  show ?thesis
    using assms(1) made
    by (auto simp: audit_control_def seq_def read_now_def readW_def appendAudit_def
      sample_runtime_def split: prod.splits sum.splits) (metis fst_conv Inl_Inr_False)+
qed

lemma audit_first:
  assumes "w_audit w = []"
  shows "\<exists>w'. audit_trigger sample_runtime ''trigger.updated'' ''t'' ds w = (Inr (), w')"
  unfolding audit_trigger_def
  by (rule control_record_first [OF assms]) (simp_all add: AUDIT_KINDS_def ENTITY_TYPES_def audit_id_def)

lemma offered_acyclic: "assertNoDerivedEventCycle [offered_trigger ''1''] (offered_trigger ''2'') f = Some (Inr ())"
  by (simp add: assertNoDerivedEventCycle_def derived_graph_def offered_trigger_def)

lemma update_steps:
  "identities (control_request ''u'') ''trigger mutations'' =
     Inr (\<lparr>pr_type = ''human'', pr_principalId = ''u'', pr_tenantId = None\<rparr>, \<lparr>pr_type = ''human'', pr_principalId = ''u'', pr_tenantId = None\<rparr>)"
  "check_update ''t'' ''1'' \<lparr>pr_type = ''human'', pr_principalId = ''u'', pr_tenantId = None\<rparr> (offered_trigger ''2'') installed_world = Inr ()"
  "assertSourcesAvailable sample_host (w_sources installed_world) (offered_trigger ''2'') [''c''] = Inr (offered_trigger ''2'')"
  "connection_ids [''c''] = [''c'']"
  by code_simp+

abbreviation "the_person \<equiv> \<lparr>pr_type = ''human'', pr_principalId = ''u'', pr_tenantId = None\<rparr>"

lemma offered_install:
  assumes "listTriggers (w_triggers w) = [offered_trigger ''1'']"
    and "tab_get (w_triggers w) (key_of_trigger (offered_trigger ''2'')) = None"
  shows "\<exists>s w'. install small_control (offered_trigger ''2'') actor owner ids w = (Inr s, w') \<and> w_audit w' = w_audit w"
proof -
  have plain: "td_derivedEvent (offered_trigger ''2'') = None" by (simp add: offered_trigger_def)
  have "register sample_engine (offered_trigger ''2'') w = (Inr (offered_trigger ''2''),
      w\<lparr>w_triggers := tab_put (key_of_trigger (offered_trigger ''2'')) (offered_trigger ''2'') (offered_trigger ''2'') (w_triggers w)\<rparr>)"
    using assms by (simp add: register_def seq_def readW_def offered_acyclic putTrigger_def)
  then show ?thesis
    by (simp add: install_def assertDerivedOutputContract_def registerDerivedOutputSource_def plain seq_def put_state_result
      small_control_def constructControlPlane_def)
qed

lemma update_succeeds:
  obtains r w' where "updateTrigger small_control ''t'' ''1'' (offered_trigger ''2'') (control_request ''u'') installed_world = (Inr r, w')"
proof -
  let ?w = "installed_world\<lparr>w_ticks := Suc 0\<rparr>"
  let ?st = "state_of ''t'' ''1'' installed_world"
  have "listTriggerMatches (w_matches installed_world) (Some ''t'') = []"
    by (simp add: installed_world_def empty_world_def listTriggerMatches_def tab_values_def empty_table_def)
  moreover have ticks: "w_ticks installed_world = 0" by (simp add: installed_world_def empty_world_def)
  ultimately have retire: "retireMatches sample_runtime ''t'' ''1'' installed_world = (Inr (), ?w)"
    by (simp add: retireMatches_def seq_def read_now_def readW_def)
  obtain s v where put: "put_state sample_runtime ''t'' ''1'' Completed the_person (retired_metadata the_person ?st) ?w = (Inr s, v)"
    and v: "w_triggers v = w_triggers installed_world" "w_audit v = []"
    by (simp add: put_state_result) (simp add: installed_world_def empty_world_def)
  have "listTriggers (w_triggers v) = [offered_trigger ''1'']" "tab_get (w_triggers v) (key_of_trigger (offered_trigger ''2'')) = None"
    by (simp_all add: v installed_world_def listTriggers_def tab_values_def tab_put_def empty_table_def)
      (simp add: tab_get_def key_of_trigger_def trigger_key_def offered_trigger_def sample_trigger_def)
  then obtain n u where install: "install small_control (offered_trigger ''2'') the_person the_person [''c''] v = (Inr n, u)" "w_audit u = []"
    using offered_install v(2) by metis
  have ru: "cp_ru small_control = sample_runtime" "en_distributed (cp_engine small_control) = False" "ru_host sample_runtime = sample_host"
    by (simp_all add: small_control_def constructControlPlane_def sample_engine_def sample_runtime_def)
  have q: "rq_connectionIds (control_request ''u'') = Some [''c'']" by (simp add: control_request_def)
  obtain after where audit: "\<And>ds. audit_trigger sample_runtime ''trigger.updated'' ''t'' ds u = (Inr (), after ds)"
    using audit_first [OF install(2)] by metis
  have "\<exists>r w'. updateTrigger small_control ''t'' ''1'' (offered_trigger ''2'') (control_request ''u'') installed_world = (Inr r, w')"
    by (simp add: updateTrigger_def withTriggerMutationLease_def updateTriggerUnlocked_def Let_def ru q update_steps seq_def readW_def
      retire put install audit)
  then show ?thesis using that by blast
qed


definition pending_world :: world where
  "pending_world = installed_world\<lparr>w_matches := put_match sample_buffer empty_table\<rparr>"

lemma delete_retires_witness:
  "map_option tm_status (getTriggerMatch (w_matches (snd (deleteTrigger small_control ''t'' ''1'' (control_request ''u'') pending_world))) ''m'')
     = Some Expired"
proof -
  let ?run = "deleteTrigger small_control ''t'' ''1'' (control_request ''u'') pending_world"
  have "\<exists>r. ?run = (Inr r, snd ?run)" by (rule succeeds) code_simp
  moreover have "clock_runs (cp_ru small_control)"
    by (simp add: clock_runs_def small_control_def constructControlPlane_def sample_engine_def sample_runtime_def)
  moreover have "trigger_matches.durable (w_matches pending_world)"
    unfolding pending_world_def put_match_def empty_table_def
    by simp (rule trigger_matches.durable_put [OF trigger_matches.durable_empty]; simp)
  moreover have "deadlines_ok pending_world" using empty_deadlines by (simp add: pending_world_def installed_world_def)
  moreover have m: "getTriggerMatch (w_matches pending_world) k = (if k = ''m'' then Some sample_buffer else None)" for k
    by (simp add: pending_world_def get_put_match) (simp add: sample_buffer_def getTriggerMatch_def tab_get_def empty_table_def)
  moreover have "open_match ''t'' ''1'' sample_buffer" by code_simp
  ultimately show ?thesis using delete_retires [of small_control pending_world "''t''" "''1''" "control_request ''u''"] by fastforce
qed

end
