(* ===== verification/Mcp_Samples.thy ===== *)
theory Mcp_Samples
  imports Mcp_Laws Control_Samples
begin

text \<open>A provider with one source, one page of events and missing history before it.\<close>

definition sample_descriptor :: event_descriptor where
  "sample_descriptor = \<lparr>ed_name = ''a.event'', ed_description = [], ed_delivery = [''poll''], ed_inputSchema = JObj [],
     ed_payloadSchema = JObj [], ed_meta = None\<rparr>"

definition sample_subscription :: subscription where
  "sample_subscription = \<lparr>sn_subscriptionId = ''s'', sn_eventName = ''a.event'', sn_arguments = [], sn_descriptor = sample_descriptor,
     sn_consumerRefs = []\<rparr>"

definition sample_raw :: raw where
  "sample_raw = RObj 3 [(''eventId'', True, Some (RStr ''1'')), (''name'', True, Some (RStr ''a.event'')),
     (''timestamp'', True, Some (RStr ''t'')), (''data'', True, Some (RObj 4 [] False))] False"

definition sample_page :: raw where
  "sample_page = RObj 1 [(''events'', True, Some (RArr 2 [Some sample_raw])),
     (''cursor'', True, Some (RStr ''next'')), (''truncated'', True, Some (RBool True))] False"

definition offered_fields :: "(string \<times> bool \<times> raw option) list" where
  "offered_fields = [(''name'', True, Some (RStr ''a.event'')), (''delivery'', True, Some (RArr 4 [Some (RStr ''poll'')]))]"

definition sample_list :: raw where
  "sample_list = RObj 1 [(''events'', True, Some (RArr 2 [Some (RObj 3 offered_fields False)]))] False"

definition sample_capabilities :: raw where
  "sample_capabilities = RObj 1 [(''extensions'', True, Some (RObj 2 [(MCP_EVENTS_EXTENSION_ID, True, Some (RObj 3 [] False))] False))] False"

definition sample_connection :: mcp_connection where
  "sample_connection = \<lparr>cn_connectionId = ''c'', cn_serverId = ''s'',
     cn_limits = \<lparr>pt_maxEvents = 2, pt_maxOccurrenceBytes = 1000, pt_maxPollPageBytes = 2000, pt_pollIntervalMs = 1000, pt_pollFloorMs = 1000\<rparr>,
     cn_maxPollBatches = 2, cn_maxDiscoveryBytes = 1000, cn_preferredDelivery = None, cn_openEventStream = False,
     cn_createWebhookSubscription = False, cn_compatibilityProfile = ''auto'',
     cn_getCapabilities = (\<lambda>n. Inr sample_capabilities),
     cn_request = (\<lambda>n method params. if method = ''events/list'' then Inr sample_list else Inr sample_page),
     cn_attached = (\<lambda>n. True), cn_meanwhile = (\<lambda>n w. w)\<rparr>"

definition sample_client :: mcp_client where
  "sample_client = \<lparr>mc_connection = sample_connection,
     mc_consumer = \<lparr>cs_engine = sample_engine, cs_derives = False, cs_maxDerivedDepth = 0, cs_coordinators = (\<lambda>_. None)\<rparr>,
     mc_parse = (\<lambda>s. Some (Ts s 5)), mc_dateParse = (\<lambda>s. None)\<rparr>"

text \<open>The event of the page is in the log already.\<close>

definition sample_event :: mcp_event where
  "sample_event = \<lparr>me_eventId = ''1'', me_name = ''a.event'', me_timestamp = Ts ''t'' 5, me_data = [], me_cursor = None, me_meta = None\<rparr>"

definition polled_world :: world where
  "polled_world = empty_world\<lparr>w_occurrences := snd (appendMcpOccurrence ''s'' sample_event (Some ''s'') (w_occurrences empty_world)),
     w_sources := snd (putEventSource (descriptor_source sample_connection compatibility_profile sample_descriptor) ''now'' empty_table)\<rparr>"

definition sample_value :: json where
  "sample_value = JObj [(''eventId'', JStr ''1''), (''name'', JStr ''a.event''), (''timestamp'', JStr ''t''), (''data'', JObj [])]"

definition sample_checked :: checked_page where
  "sample_checked = \<lparr>kp_events = [sample_value], kp_cursor = Some ''next'', kp_hasMore = False, kp_truncated = True, kp_nextPollMs = 1000\<rparr>"

abbreviation tick :: "nat \<Rightarrow> world \<Rightarrow> world" where
  "tick n w \<equiv> w\<lparr>w_ticks := w_ticks w + n\<rparr>"

lemma sample_parts [simp]:
  "mc_connection sample_client = sample_connection" "mc_ru sample_client = sample_runtime"
  "cn_connectionId sample_connection = ''c''" "cn_serverId sample_connection = ''s''" "cn_maxPollBatches sample_connection = 2"
  "sn_subscriptionId sample_subscription = ''s''" "sn_eventName sample_subscription = ''a.event''"
  "sn_arguments sample_subscription = []" "sn_descriptor sample_subscription = sample_descriptor"
  "isConnectionAttached sample_connection w = (Inr True, tick 1 w)"
  "assertConnectionAttached sample_connection w = (Inr (), tick 1 w)"
  "others_act sample_connection w = (Inr (), w)"
  "rpc sample_connection ''events/poll'' params w = (Inr (Inr sample_page), tick 1 w)"
  "read_now sample_runtime w = (Inr (Ts ''now'' (int (w_ticks w))), tick 1 w)"
  by (simp_all add: sample_client_def sample_connection_def sample_subscription_def isConnectionAttached_def
    assertConnectionAttached_def others_act_def rpc_def read_now_def sample_runtime_def sample_engine_def)

lemma sample_bytes: "decoded_bytes sample_value = 58"
  by code_simp

lemma sample_snapshot: "snapshotUntrustedEventData sample_raw = Inr sample_value"
proof -
  have "plain_reading sample_raw [] = Some sample_value" by (simp add: sample_raw_def sample_value_def)
  moreover have "json_bytes sample_value \<le> 200" "json_nodes sample_value = 5" "json_height sample_value \<le> 2" by code_simp+
  then have "snapshot_fits sample_value"
    by (simp add: snapshot_fits_def snapshot_node_limit_def snapshot_depth_limit_def snapshot_byte_limit_def)
  ultimately show ?thesis by (simp add: snapshot_reading)
qed

lemma sample_page_checked: "check_page ''c'' (cn_limits sample_connection) sample_page = Inr sample_checked"
  by (simp add: check_page_def ownPollPage_def sample_page_def own_slot_def ownData_def page_events_def sample_connection_def
    sample_snapshot assertDecodedMcpBytes_def seqE_def sample_bytes normalizeCursor_def raw_null_def normalizeNextPollMs_def sample_checked_def)

lemma sample_taken:
  "own_slot sample_page ''truncated'' = Some (Some (RBool True))"
  "assertDecodedMcpBytes sample_value (pt_maxOccurrenceBytes (cn_limits sample_connection)) = Inr 58"
  "parseMcpEventOccurrence (mc_parse sample_client) sample_value = Inr sample_event"
  "me_name sample_event = ed_name sample_descriptor"
  "assertJsonSchemaValue (ru_host sample_runtime) (ed_payloadSchema sample_descriptor) (JObj (me_data sample_event)) ''$'' = None"
  "appendMcpOccurrence ''s'' sample_event (Some ''s'') (w_occurrences polled_world) =
     (\<lparr>ar_accepted = False, ar_sequence = Some 1, ar_event = sample_event\<rparr>, w_occurrences polled_world)"
  by code_simp+

lemma sample_ingest:
  assumes "w_occurrences w = w_occurrences polled_world"
  shows "ingestOccurrence sample_client sample_subscription sample_value w = (Inr None, tick 2 w)"
  using assms by (simp add: ingestOccurrence_def sample_taken append_occurrence_def)

text \<open>The two writes of a poll.\<close>

definition gap_input :: mcp_state_input where
  "gap_input = state_input sample_connection ''a.event'' [] (Some ''s'') None
     ((empty_patch ''poll'')\<lparr>sp_truncated := Some True, sp_gapDetectedAt := Some ''now''\<rparr>)"

definition gap_table :: mcp_table where
  "gap_table = snd (putMcpClientState ''now'' gap_input empty_table)"

lemma gap_written: "putMcpClientState ''now'' gap_input empty_table =
    (Inr (the (getMcpClientState gap_table ''c'' ''a.event'' [])), gap_table)"
  by code_simp

definition page_input :: mcp_state_input where
  "page_input = state_input sample_connection ''a.event'' [] (Some ''s'') (getMcpClientState gap_table ''c'' ''a.event'' [])
     \<lparr>sp_deliveryMode = Some ''poll'', sp_sourceAvailability = Some ''available'', sp_cursor = Some (Some ''next''),
      sp_truncated = Some True, sp_gapDetectedAt = Some ''now'', sp_nextPollAt = Some ''1970-01-01T00:00:01.009Z'', sp_lastEventAt = None\<rparr>"

definition page_table :: mcp_table where
  "page_table = snd (putMcpClientState ''now'' page_input gap_table)"

lemma page_written: "putMcpClientState ''now'' page_input gap_table =
    (Inr (the (getMcpClientState page_table ''c'' ''a.event'' [])), page_table)"
  by code_simp

lemma page_state: "map_option ms_cursor (getMcpClientState page_table ''c'' ''a.event'' []) = Some (Some ''next'')"
  "has_gap (getMcpClientState page_table ''c'' ''a.event'' [])" "getMcpClientState empty_table ''c'' ''a.event'' [] = None"
  by code_simp+

lemma sample_put:
  assumes "putMcpClientState ''now'' input (w_mcp w) = (Inr s, t)"
  shows "put_mcp_state sample_runtime input w = (Inr (), w\<lparr>w_ticks := Suc (w_ticks w), w_mcp := t\<rparr>)"
  using assms by (simp add: put_mcp_state_def)

lemma sample_report:
  assumes "w_mcp w = empty_table"
  shows "report_gap sample_client sample_subscription sample_page w = (Inr (), (tick 4 w)\<lparr>w_mcp := gap_table\<rparr>)"
  using assms gap_written page_state(3) sample_put [of gap_input "tick 3 w"]
  by (simp add: report_gap_def sample_taken saveSubscriptionState_def readW_def state_at_def gap_input_def numeral_eq_Suc)

lemma next_poll: "toISOString (time_clip 1009) = Inr (Ts ''1970-01-01T00:00:01.009Z'' 1009)"
  by code_simp

definition sample_progress :: poll_progress where
  "sample_progress = \<lparr>pg_cursor = Some ''next'', pg_lastEventAt = None, pg_accepted = 0, pg_batches = 1, pg_truncated = True\<rparr>"

lemma sample_save:
  assumes "w_mcp w = gap_table" and "w_ticks w = 9"
  shows "save_page sample_client sample_subscription sample_checked sample_progress w = (Inr (), w\<lparr>w_ticks := 15, w_mcp := page_table\<rparr>)"
  using assms page_written sample_put [of page_input "tick 5 w"] next_poll
  by (simp add: save_page_def saveSubscriptionState_def readW_def state_at_def page_input_def sample_checked_def sample_progress_def
    truthy_str_def)

definition sample_from :: poll_progress where
  "sample_from = \<lparr>pg_cursor = None, pg_lastEventAt = None, pg_accepted = 0, pg_batches = 0, pg_truncated = False\<rparr>"

lemma polled_start: "w_ticks polled_world = 0" "w_mcp polled_world = empty_table"
  by (simp_all add: polled_world_def empty_world_def)

lemma sample_batches: "poll_batches sample_client sample_subscription 1 sample_from (polled_world\<lparr>w_ticks := 1\<rparr>) =
    (Inr \<lparr>po_status = Poll_Ok, po_progress = sample_progress, po_hasMore = False, po_nextPollMs = 1000\<rparr>,
     polled_world\<lparr>w_ticks := 15, w_mcp := page_table\<rparr>)"
proof -
  let ?w = "polled_world\<lparr>w_ticks := Suc (Suc (Suc 0))\<rparr>"
  have gap: "report_gap sample_client sample_subscription sample_page ?w = (Inr (), ?w\<lparr>w_ticks := 7, w_mcp := gap_table\<rparr>)"
    using sample_report [of ?w] polled_start by simp
  have page: "ingest_page sample_client sample_subscription [sample_value] p (?w\<lparr>w_ticks := 7, w_mcp := gap_table\<rparr>) =
      (Inr p, ?w\<lparr>w_ticks := 9, w_mcp := gap_table\<rparr>)" for p
    using sample_ingest [of "?w\<lparr>w_ticks := 7, w_mcp := gap_table\<rparr>"] by (simp add: ret_def)
  have save: "save_page sample_client sample_subscription sample_checked sample_progress (?w\<lparr>w_ticks := 9, w_mcp := gap_table\<rparr>) =
      (Inr (), ?w\<lparr>w_ticks := 15, w_mcp := page_table\<rparr>)"
    using sample_save [of "?w\<lparr>w_ticks := 9, w_mcp := gap_table\<rparr>"] by simp
  show ?thesis
    using gap save
      page [of "\<lparr>pg_cursor = Some ''next'', pg_lastEventAt = None, pg_accepted = 0, pg_batches = 0, pg_truncated = True\<rparr>"]
    by (simp add: poll_batch_def sample_page_checked after_page_def sample_progress_def sample_from_def Let_def del: ingest_page.simps)
      (simp add: sample_checked_def ret_def)
qed

lemma sample_poll: "pollSubscription sample_client sample_subscription None False polled_world =
    (Inr \<lparr>po_status = Poll_Ok, po_progress = sample_progress, po_hasMore = False, po_nextPollMs = 1000\<rparr>,
     polled_world\<lparr>w_ticks := 15, w_mcp := page_table\<rparr>)"
  using sample_batches polled_start page_state(3)
  by (simp add: pollSubscription_def readW_def state_at_def truthy_str_def sample_from_def)

subsection \<open>The laws at this provider\<close>

lemma sample_behaved:
  assumes "\<And>w. R w w"
  shows "behaved_client R good sample_client"
  using assms by (simp add: behaved_client_def well_behaved_def obeys_def) (simp add: sample_client_def sample_connection_def sample_engine_def)


lemma poll_bounded_witness:
  "case pollSubscription sample_client sample_subscription None False polled_world of
     (Inr out, w') \<Rightarrow> pg_batches (po_progress out) \<le> 2 \<and> pg_accepted (po_progress out) \<le> pg_batches (po_progress out) * 2
   | (Inl e, w') \<Rightarrow> False"
  using poll_bounded [OF sample_poll] unfolding sample_poll by (simp add: sample_connection_def)

lemma reported_gap_kept_witness:
  "history_missing sample_client sample_subscription
     (snd (poll_batches sample_client sample_subscription 1 sample_from (polled_world\<lparr>w_ticks := 1\<rparr>)))"
proof -
  have "gap_keeping sample_client sample_subscription"
    using sample_behaved gaps.R_refl by (simp add: gap_keeping_def)
  moreover have "cn_request (mc_connection sample_client) (w_ticks (polled_world\<lparr>w_ticks := 1\<rparr>)) ''events/poll''
      (poll_params (mc_connection sample_client) sample_subscription (pg_cursor sample_from)) = Inr sample_page"
    by simp (simp add: sample_connection_def)
  ultimately show ?thesis using reported_gap_kept [OF _ _ sample_taken(1) sample_batches] unfolding sample_batches by auto
qed

text \<open>A discovery of the source, which is registered already.\<close>

definition offered_value :: json where
  "offered_value = JArr [JObj [(''name'', JStr ''a.event''), (''delivery'', JArr [JStr ''poll''])]]"

lemma sample_staged:
  "fresh_identity [Some (RObj 3 offered_fields False)] = 5"
  "stage_all 5 [Some (RObj 3 offered_fields False)] = Inr [Some (RObj 5 offered_fields False)]"
  by (simp_all add: fresh_identity_def offered_fields_def stageDiscoveryDescriptor_def DISCOVERY_DESCRIPTOR_FIELDS_def own_slot_def)

lemma sample_offer: "snapshotUntrustedEventData (RArr 6 [Some (RObj 5 offered_fields False)]) = Inr offered_value"
proof -
  have "plain_reading (RArr 6 [Some (RObj 5 offered_fields False)]) [] = Some offered_value"
    by (simp add: offered_fields_def offered_value_def)
  moreover have "json_bytes offered_value \<le> 200" "json_nodes offered_value = 5" "json_height offered_value \<le> 3" by code_simp+
  then have "snapshot_fits offered_value"
    by (simp add: snapshot_fits_def snapshot_node_limit_def snapshot_depth_limit_def snapshot_byte_limit_def)
  ultimately show ?thesis by (simp add: snapshot_reading)
qed

lemma sample_listed: "list_page ''c'' (cn_maxDiscoveryBytes sample_connection) sample_list [] [] = Inr (None, [sample_descriptor])"
proof -
  have "decoded_bytes offered_value = 40" by code_simp
  moreover have "add_descriptors [JObj [(''name'', JStr ''a.event''), (''delivery'', JArr [JStr ''poll''])]] [] = Inr [sample_descriptor]"
    by code_simp
  ultimately have "stage_page (cn_maxDiscoveryBytes sample_connection) [Some (RObj 3 offered_fields False)] [] = Inr [sample_descriptor]"
    using sample_staged sample_offer
    by (simp add: stage_page_def assertDecodedMcpBytes_def sample_connection_def del: add_descriptors.simps) (simp add: offered_value_def del: add_descriptors.simps)
  then show ?thesis
    by (simp add: list_page_def sample_list_def ownDiscoveryPage_def own_slot_def seqE_def next_list_cursor_def raw_null_def
      MAX_MCP_EVENT_DISCOVERY_SOURCES_def)
qed

lemma sample_known:
  obtains e where "find (\<lambda>s. es_sourceId s = ''mcp:c:a.event'') (listEventSources (w_sources polled_world) [] False) = Some e"
    and "same_source sample_connection compatibility_profile sample_descriptor e"
proof -
  let ?found = "find (\<lambda>s. es_sourceId s = ''mcp:c:a.event'') (listEventSources (w_sources polled_world) [] False)"
  have "case ?found of None \<Rightarrow> False | Some e \<Rightarrow> same_source sample_connection compatibility_profile sample_descriptor e"
    by code_simp
  then show ?thesis using that by (cases ?found) auto
qed

lemma sample_discovery:
  "discoverConnection sample_client polled_world = (Inr [sample_descriptor], polled_world\<lparr>w_ticks := 7\<rparr>)"
proof -
  have caps: "capabilities_of sample_connection w = (Inr True, tick 1 w)" for w
    by (simp add: capabilities_of_def Let_def safeMcpCapabilities_def raw_null_def own_slot_def sample_connection_def sample_capabilities_def)
  have profile: "resolveMcpEventsCompatibilityProfile True (cn_compatibilityProfile sample_connection) = Inr (Some compatibility_profile)"
    by code_simp
  have request: "rpc sample_connection ''events/list'' params w = (Inr (Inr sample_list), tick 1 w)" for params w
    by (simp add: rpc_def sample_connection_def)
  obtain e where e: "find (\<lambda>s. es_sourceId s = ''mcp:c:a.event'') (listEventSources (w_sources polled_world) [] False) = Some e"
    "same_source sample_connection compatibility_profile sample_descriptor e" by (rule sample_known)
  have "ed_name sample_descriptor = ''a.event''" by (simp add: sample_descriptor_def)
  then show ?thesis
    using caps profile request sample_listed e polled_start
    by (simp add: discoverConnection_def register_descriptor_def MAX_MCP_EVENT_DISCOVERY_PAGES_def numeral_eq_Suc readW_def ret_def)
qed

lemma discovery_bounded_witness: "sound_discovery 256 [sample_descriptor]"
  using discovery_bounded [OF sample_discovery] by (simp add: sound_discovery_def usable_descriptor_def)

end
