(* ===== verification/Session_Samples.thy ===== *)
theory Session_Samples
  imports Mcp_Sessions Mcp_Samples
begin

text \<open>The provider of the samples, detached, and one that forbids the connection at its first poll.\<close>

definition offered_entry :: event_source where
  "offered_entry = source_of (descriptor_source sample_connection compatibility_profile sample_descriptor) ''now''"

lemma offered_facts:
  "listEventSources (w_sources polled_world) [''c''] False = [offered_entry]"
  "es_enabled offered_entry"
  "case actorIdentity (Some client_actor) of Inl e \<Rightarrow> False | Inr p \<Rightarrow> True"
  by code_simp+

lemma offered_disabled:
  "putEventSource (disabled_input offered_entry) ''now'' t =
     (Inr (source_of (disabled_input offered_entry) ''now''),
      tab_put ''mcp:c:a.event'' (source_of (disabled_input offered_entry) ''now'')
        (to_source_line (source_of (disabled_input offered_entry) ''now'')) t)"
  "es_sourceId (source_of (disabled_input offered_entry) ''now'') = ''mcp:c:a.event''"
proof -
  let ?s = "source_of (disabled_input offered_entry) ''now''"
  have fields: "es_sourceId ?s = ''mcp:c:a.event''" "es_connectionId ?s = ''c''" "es_eventName ?s = ''a.event''" by code_simp+
  then show "putEventSource (disabled_input offered_entry) ''now'' t = (Inr ?s, tab_put ''mcp:c:a.event'' ?s (to_source_line ?s) t)"
    by (simp add: putEventSource_def Let_def)
  show "es_sourceId ?s = ''mcp:c:a.event''" by (rule fields(1))
qed

lemma polled_more: "w_audit polled_world = []" "event_sources.durable (w_sources polled_world)"
proof -
  show "w_audit polled_world = []" by (simp add: polled_world_def empty_world_def)
  have "event_sources.durable empty_table" using event_sources.durable_empty by (simp add: empty_table_def)
  then show "event_sources.durable (w_sources polled_world)"
    using put_source_durable [OF _ _ surjective_pairing] by (simp add: polled_world_def)
qed

lemma sample_detached:
  "\<exists>w'. detachConnection sample_client (fresh_manager, polled_world) = (Inr (), (fresh_manager, w'))"
proof -
  obtain p where p: "actorIdentity (Some client_actor) = Inr p" using offered_facts(3) by (auto split: sum.splits)
  let ?s = "source_of (disabled_input offered_entry) ''now''"
  obtain u where put: "put_source sample_runtime (disabled_input offered_entry) polled_world = (Inr ?s, u)" and u: "w_audit u = []"
    using offered_disabled(1) polled_more(1) by (simp add: put_source_def)
  obtain w' where "audit_control sample_runtime ''event_source.registered'' ''event_source'' ''mcp:c:a.event''
      ''event-source:mcp:c:a.event'' [(''actor'', principal_json p), (''connectionId'', JStr (es_connectionId ?s)),
        (''serverId'', JStr (es_serverId ?s)), (''eventName'', JStr (es_eventName ?s))] u = (Inr (), w')"
    using control_record_first [OF u, of "''event_source.registered''" "''event_source''" "''mcp:c:a.event''" "''event-source:mcp:c:a.event''"]
    by (force simp: AUDIT_KINDS_def ENTITY_TYPES_def audit_id_def)
  then have "registerEventSource sample_runtime (disabled_input offered_entry) (Some client_actor) polled_world = (Inr ?s, w')"
    using put p offered_disabled(2) by (simp add: registerEventSource_def)
  then have "each (disable_source sample_runtime) [offered_entry] polled_world = (Inr (), w')"
    using offered_facts(2) by (simp add: disable_source_def)
  then show ?thesis
    using offered_facts(1) by (simp add: detachConnection_def on_store_def remember_def readW_def)
qed


text \<open>A poll that the provider answers with Forbidden.\<close>

definition forbidding_connection :: mcp_connection where
  "forbidding_connection = sample_connection\<lparr>cn_request := (\<lambda>n method params. Inl (RObj 1 [(''code'', True, Some (RNum (Fin (-32024)))),
     (''data'', True, Some (RObj 2 [(''kind'', True, Some (RStr ''event''))] False))] False))\<rparr>"

definition forbidding_client :: mcp_client where
  "forbidding_client = sample_client\<lparr>mc_connection := forbidding_connection\<rparr>"

definition idle_transport :: transport where
  "idle_transport = \<lparr>tr_open = (\<lambda>n delivery params. Inl RUndef), tr_terminated = (\<lambda>n. False)\<rparr>"

definition discovered_manager :: manager where
  "discovered_manager = fresh_manager\<lparr>mg_descriptors := Some [sample_descriptor]\<rparr>"

lemma forbidding_facts [simp]:
  "mc_connection forbidding_client = forbidding_connection" "mc_ru forbidding_client = sample_runtime"
  "isConnectionAttached forbidding_connection w = (Inr True, tick 1 w)"
  "assertConnectionAttached forbidding_connection w = (Inr (), tick 1 w)"
  "rpc forbidding_connection ''events/poll'' params w = (Inr (Inl (Some Forbidden)), tick 1 w)"
  by (simp_all add: forbidding_client_def forbidding_connection_def sample_client_def sample_connection_def isConnectionAttached_def
    assertConnectionAttached_def rpc_def sample_engine_def classifyTerminalMcpProviderError_def ownData_def own_slot_def)

lemma manager_runs [simp]:
  "m w = (r, w') \<Longrightarrow> on_store m (g, w) = (r, (g, w'))"
  "remember f (g, w) = (Inr (), (f g, w))" "seq (recall h) k (g, w) = k (h g) (g, w)"
  by (simp_all add: on_store_def remember_def recall_def seq_def)

lemma forbidden_batches: "poll_batches forbidding_client sn k p w =
    (Inr \<lparr>po_status = Poll_Terminal Forbidden, po_progress = p, po_hasMore = False,
       po_nextPollMs = pt_pollIntervalMs (cn_limits forbidding_connection)\<rparr>, tick 2 w)"
  by (cases k) (simp_all add: poll_batch_def terminal_poll_def Let_def ret_def)

lemma forbidden_poll:
  assumes "mg_terminal g = False" and "mg_suspended g = []"
  obtains out w' where "poll_managed forbidding_client sn False (g, w) = (Inr out, (g\<lparr>mg_terminal := True\<rparr>, w'))"
    and "po_status out = Poll_Terminal Forbidden"
proof -
  obtain out w' where run: "pollSubscription forbidding_client sn None False w = (Inr out, w')"
    and out: "po_status out = Poll_Terminal Forbidden"
    by (simp add: pollSubscription_def Let_def readW_def truthy_str_def forbidden_batches)
  have "poll_managed forbidding_client sn False (g, w) = (Inr out, (g\<lparr>mg_terminal := True\<rparr>, w'))"
    using assms run out by (simp add: poll_managed_def suspension_def Let_def)
  then show ?thesis using out by (rule that)
qed

lemma forbidden_desired:
  obtains sn where "desiredSubscriptions forbidding_connection sample_runtime [sample_descriptor] (installed_world\<lparr>w_ticks := n\<rparr>) = [sn]"
    and "sn_descriptor sn = sample_descriptor"
proof -
  have "map sn_descriptor (desiredSubscriptions sample_connection sample_runtime [sample_descriptor] installed_world) = [sample_descriptor]"
    by code_simp
  moreover have "desiredSubscriptions forbidding_connection sample_runtime [sample_descriptor] (installed_world\<lparr>w_ticks := n\<rparr>) =
      desiredSubscriptions sample_connection sample_runtime [sample_descriptor] installed_world"
  proof -
    have ids: "cn_serverId forbidding_connection = cn_serverId sample_connection" "cn_connectionId forbidding_connection = cn_connectionId sample_connection"
      by (simp_all add: forbidding_connection_def)
    have "listOwnedTriggers None (installed_world\<lparr>w_ticks := n\<rparr>) = listOwnedTriggers None installed_world"
      by (simp add: listOwnedTriggers_def)
    then show ?thesis unfolding desiredSubscriptions_def wanted_clauses_def ids by simp
  qed
  ultimately show ?thesis using that by (auto simp: map_eq_Cons_conv)
qed

lemma forbidden_round:
  obtains rs g w' where "pollConnectionOnce forbidding_client idle_transport False (discovered_manager, installed_world) = (Inr rs, (g, w'))"
    and "list_ex reports_forbidden rs"
proof -
  have ticks: "w_ticks installed_world = 0" by (simp add: installed_world_def empty_world_def)
  obtain sn where sn: "desiredSubscriptions forbidding_connection sample_runtime [sample_descriptor] (installed_world\<lparr>w_ticks := Suc (Suc 0)\<rparr>) = [sn]"
    and d: "sn_descriptor sn = sample_descriptor" by (rule forbidden_desired)
  have delivery: "chooseDelivery forbidding_connection sample_descriptor = Some ''poll''"
    by (simp add: chooseDelivery_def forbidding_connection_def sample_connection_def sample_descriptor_def supportsMode_def)
  obtain out v where "poll_managed forbidding_client sn False (discovered_manager, installed_world\<lparr>w_ticks := Suc (Suc (Suc 0))\<rparr>) =
      (Inr out, (discovered_manager\<lparr>mg_terminal := True\<rparr>, v))" and out: "po_status out = Poll_Terminal Forbidden"
    by (rule forbidden_poll [of discovered_manager]) (simp_all add: discovered_manager_def fresh_manager_def)
  then have "pollConnectionOnce forbidding_client idle_transport False (discovered_manager, installed_world) =
      (Inr [Polled (sn_subscriptionId sn) out], (discovered_manager\<lparr>mg_terminal := True\<rparr>, tick 2 v))"
    using sn d delivery ticks
    by (simp add: pollConnectionOnce_def discovered_manager_def fresh_manager_def readW_def
      poll_one_def closeSession_def reconcileDeliverySessions_def Let_def seq_assoc)
  then show ?thesis using out that by (simp add: reports_forbidden_def)
qed

lemma forbidden_final_witness:
  "\<exists>rs g w'. pollConnectionOnce forbidding_client idle_transport False (discovered_manager, installed_world) = (Inr rs, (g, w')) \<and>
     snd (pollConnectionOnce forbidding_client idle_transport False (g, polled_world)) = (g, polled_world\<lparr>w_ticks := 1\<rparr>)"
proof -
  obtain rs g w' where "pollConnectionOnce forbidding_client idle_transport False (discovered_manager, installed_world) = (Inr rs, (g, w'))"
    "list_ex reports_forbidden rs" by (rule forbidden_round)
  moreover from forbidden_final [OF this, of False polled_world]
  have "snd (pollConnectionOnce forbidding_client idle_transport False (g, polled_world)) = (g, polled_world\<lparr>w_ticks := 1\<rparr>)"
    using polled_start by simp
  ultimately show ?thesis by blast
qed

end
