(* ===== verification/Spec2Isabelle.thy ===== *)
theory Spec2Isabelle
  imports Engine_Buffers System_Laws Session_Samples
begin

text \<open>
  A model of Event Intelligence (\<open>src/\<close>, TypeScript and JavaScript): a service to which agents and
  people give trigger definitions. Providers deliver events over MCP; the engine correlates them
  into patterns; a pattern that matches wakes a host, and may emit a derived event that other
  triggers correlate in turn.

  \<^bold>\<open>The parts and how they meet.\<close> An event of a provider is taken by the MCP client
  (\<open>scripts/lib/mcp-events-client.mjs\<close>), by polling or by a callback, logged in the event store and
  handed to the composite event consumer (\<open>composite-event-consumer.mjs\<close>). The consumer gives it to
  the engine (\<open>src/composite/engine.ts\<close>), which looks for the clauses it matches, takes the lease of
  the partition, appends the event to the buffer of the partition, evaluates the pattern over the
  buffer (\<open>src/patternV2/evaluator.ts\<close>), selects candidates and commits them as match records. Each
  match goes to the derived event coordinator and to the wake coordinator, which calls the host and
  reports back to the engine. Two schedulers take up what is due: temporal deadlines and wakes to be
  repeated. The control plane (\<open>trigger-control-plane.mjs\<close>) creates, replaces, deletes, pauses and
  resumes triggers. All of it works on one store (\<open>persistent-event-store.mjs\<close>): tables in memory,
  each beside a file of JSON lines that a restart reads.

  \<^bold>\<open>Conventions.\<close> Handlers are computations of \<open>EI_Base\<close>: functions from a state to an
  error or a value together with the state that is left, so an exception keeps the writes before it.
  \<open>world\<close> (\<open>Runtime_Support\<close>) is the state of the store with the log of the calls of hosts; an
  \<open>'a act\<close> is a computation on it. Records, fields and functions have the names of the source. A
  number is an IEEE 754 double (\<open>Js_Number\<close>) where the program computes with one, and an \<open>int\<close> or
  \<open>nat\<close> where it is a counter or an instant that its checks keep whole. Time is a count of moments
  in \<open>w_ticks\<close>: each reading of the clock, each request and each look at a connection takes one. What other
  workers do to the store happens at the points where the code waits and is a function of the records that
  configure a worker (\<open>en_meanwhile\<close>, \<open>co_meanwhile\<close>, \<open>cn_meanwhile\<close>); the properties hold for every
  such function that keeps the relation of the property.

  \<^bold>\<open>Parameters.\<close> What is not under \<open>src/\<close> is an argument: SHA-256 (\<open>ru_sha\<close>), collation, regular
  expressions and the time zone data base (\<open>host\<close>), the evaluator of natural-language conditions, the
  parser of time stamps, the host that is woken (\<open>co_deliverer\<close>) and the provider (\<open>cn_request\<close>,
  \<open>cn_getCapabilities\<close>). Hypotheses on them are documented behaviour, such as that the evaluator answers.

  \<^bold>\<open>Theories.\<close>
  \<^item> Prelude. \<open>EI_Base\<close>: computations, comparator sorts, insertion-ordered maps. \<open>Js_Number\<close>,
    \<open>Js_Json\<close>, \<open>Js_Text\<close>, \<open>Js_Date\<close>, \<open>Js_Exact\<close>: the values of the runtime and their text. \<open>Samples\<close>:
    inputs for the witnesses.
  \<^item> Input. \<open>Own_Path\<close> (\<open>src/protocol/ownPath.ts\<close>): the bounded copy of untrusted data.
    \<open>Trigger_Schema\<close>, \<open>Trigger_Definition\<close>, \<open>Pattern_Ast\<close> (\<open>src/intelligenceProtocol/triggerSchemas.ts\<close>,
    \<open>patternV2Schemas.ts\<close>): definitions, the pattern AST and what the schemas check. \<open>Json_Schema\<close>
    (\<open>json-schema.mjs\<close>).
  \<^item> Patterns. \<open>Matching\<close> (\<open>matching.ts\<close>), \<open>Semantic_Condition\<close> (\<open>conditionEngine.ts\<close>), \<open>Candidate\<close>,
    \<open>Pattern_Value\<close> and \<open>Evaluator\<close> (\<open>evaluator.ts\<close>). \<open>Evaluator_Closure\<close> and \<open>Evaluator_Relation\<close> hold the two
    interfaces of the evaluator, one for properties of candidates and one for relations between
    contexts; \<open>Evaluator_Results\<close>, \<open>Evaluator_Bounds\<close>, \<open>Evaluator_Negation\<close> interpret them: what a match
    consists of, the budgets, and the fail-closed behaviour of negation. \<open>Delivery_Gap\<close> (\<open>deliveryGap.ts\<close>,
    \<open>gapFingerprint.ts\<close>): sources that lack history. \<open>Derived_Graph\<close> (\<open>derivedGraph.ts\<close>).
  \<^item> Store. \<open>Store_Table\<close>: a map with its file, as a locale whose law is that the file reads back as
    the map; \<open>Mcp_Store\<close>, \<open>Match_Store\<close>, \<open>Wake_Store\<close>, \<open>Lease_Store\<close>, \<open>Trigger_Store\<close>, \<open>Derived_Store\<close>,
    \<open>Source_Store\<close> interpret it for the tables of \<open>persistent-event-store.mjs\<close>. \<open>Audit_Chain\<close> (\<open>audit.ts\<close>,
    \<open>canonical.ts\<close>, \<open>lifecycle.ts\<close>).
  \<^item> Engine. \<open>Runtime_Support\<close> (\<open>runtimeSupport.ts\<close>), \<open>Selection\<close>, \<open>Engine\<close>, \<open>Engine_Ingest\<close> (\<open>engine.ts\<close>).
    \<open>Engine_Frames\<close> has the frames: a reflexive and transitive relation that is kept by each action is
    kept by a whole handler, on every branch and with every exception. \<open>Engine_Effects\<close> and
    \<open>Engine_Buffers\<close> interpret them.
  \<^item> Service. \<open>Contract_Registry\<close>, \<open>Derived_Coordinator\<close>, \<open>Wake_Coordinator\<close>, \<open>Event_Consumer\<close>, \<open>Schedulers\<close>,
    \<open>Source_Check\<close> and \<open>Control_Plane\<close>, each for the file of that name under \<open>scripts/lib\<close>. \<open>Wake_Delivery\<close>, \<open>Wake_Settled\<close>,
    \<open>Wake_Progress\<close>: what holds of a delivery, how it ends, and that an answering host gets it.
    \<open>System_Frames\<close> extends the frames to the components; \<open>Control_Laws\<close> has the contracts of the
    operations on triggers, \<open>Control_Samples\<close> their witnesses.
  \<^item> MCP client. \<open>Mcp_Input\<close>: what is made of the values of a provider. \<open>Mcp_Client\<close>: connections,
    discovery, subscriptions, the state of a subscription. \<open>Mcp_Poll\<close>: polling, callbacks, the closing
    of a gap. \<open>Mcp_Manager\<close>: what the manager remembers of a connection, push sessions, rounds, timers,
    detachment. \<open>Mcp_Frames\<close>, \<open>Mcp_Laws\<close>, \<open>Mcp_Sessions\<close>: its frames and its promises; \<open>Mcp_Samples\<close> and
    \<open>Session_Samples\<close>: their witnesses.
  \<^item> \<open>System_Run\<close>, \<open>System_Laws\<close>: runs of the service as sequences of operations by any workers, and what
    is true of every run.

  \<^bold>\<open>What the lemmas show.\<close> Of the evaluator: a match binds what its pattern guarantees, its evidence are
  input events, budgets are kept, and nothing is concluded from absence when an evaluation was
  truncated or a source lacks history. Of the store: each table reads back from its file, leases and
  claims are exclusive, a stale claim changes nothing, a completed delivery is final, a gap is only
  closed by a reconciliation, audit logs that end in the same hash are the same. Of the engine: buffers
  are bounded, firings are counted, commits are fenced, selection is sound and misses nothing, a match
  fires once. Of the service, under every run: a host is called at most once for each claim, attempts
  are bounded, an answering host gets its wake, a retired version stays retired, a derived event is
  never changed and never emitted twice. Of the control plane: who is not entitled changes nothing, an update leaves one
  version in use. Of the MCP client: a stored cursor never runs ahead of the log, a reported
  gap is never lost, a discovery is bounded, the subscriptions are those that the active triggers need, a
  detached connection leaves no enabled source, a forbidden one is not polled again.

  \<^bold>\<open>Bounds and fuel.\<close> Recursions are structural, but for these. The depth-first search runs on the
  list of unvisited nodes. The loop of a repetition has a fuel that \<open>repeat_fuel_enough\<close> shows to
  suffice. An event enters the engine again as a derived event at most \<open>cs_maxDerivedDepth\<close> times, which is
  the bound of the code. The evaluation of a buffer is repeated at most once, as in the code. A discovery has
  at most 32 pages and a poll at most \<open>maxPollBatches\<close> batches, the limits of the code.

  \<^bold>\<open>Not modelled.\<close>
  \<^item> The PostgreSQL store (\<open>postgres-event-store.mjs\<close>): its operations are SQL texts sent to a data base
    that is not under \<open>src/\<close>. Branches of other components for methods that only that store has
    (dispatch fences, authority epochs, atomic finalization) are left out.
  \<^item> Of the MCP client: the list of connections (\<open>cn_attached\<close> says at each moment whether the connection is
    attached), the interval timers themselves, the shutdown that waits for open promises, and the lookup of
    the closing methods of a delivery handle through its prototypes (\<open>projectDeliveryHandle\<close>).
  \<^item> Parsing of definitions by zod: a definition comes as a record, the cross-field checks of the schema
    are modelled. Records that the engine builds itself pass their schema. Arguments of
    clauses are taken after \<open>safeMcpSourceArguments\<close>.
  \<^item> Providers, HTTP and stdio servers, command lines, the planner and the inspector, archives,
    metrics, validation scripts: separate processes, input and output, or views that change no state.
  \<^item> Observations (\<open>observability\<close>) and the closing of a worker: they leave the store alone.
\<close>

end
